(* ===== verification/Prelude.thy ===== *)
theory Prelude
  imports Main "HOL-Library.Char_ord" "HOL-Library.List_Lexorder"
    "HOL-Library.Product_Lexorder" "HOL-Library.Option_ord" "HOL-Library.Multiset"
begin

text \<open>
  Vocabulary shared by the whole development: C++ exceptions as values of a sum type, the
  sequencing of fallible steps, decimal printing as \<open>std::to_string\<close> does it, the standard
  containers' operations the code uses (\<open>push_back\<close> of an absent element, \<open>emplace\<close> on a
  hash map, \<open>std::ranges::unique\<close>), and generic lemmas on lists that several components need.

  A \<open>std::string\<close> is a list of bytes (\<open>char list\<close>) and is ordered as \<open>std::string\<close> orders
  it: lexicographically by unsigned byte value. \<open>std::tuple\<close> is ordered lexicographically
  and \<open>std::nullopt\<close> is below every value; the imported orders are exactly these.
\<close>

section \<open>Fallible computations\<close>

datatype exn =
    Runtime_Error string
  | Invalid_Argument string
  | Out_Of_Range string

type_synonym 'a result = "exn + 'a"

text \<open>The message of an exception.\<close>

fun exn_what :: "exn \<Rightarrow> string" where
  "exn_what (Runtime_Error m) = m"
| "exn_what (Invalid_Argument m) = m"
| "exn_what (Out_Of_Range m) = m"

definition rbind :: "'e + 'a \<Rightarrow> ('a \<Rightarrow> 'e + 'b) \<Rightarrow> 'e + 'b" where
  "rbind m f = (case m of Inl e \<Rightarrow> Inl e | Inr x \<Rightarrow> f x)"

lemma rbind_simps [simp]:
  "rbind (Inl e) f = Inl e"
  "rbind (Inr x) f = f x"
  by (simp_all add: rbind_def)

lemma rbind_eq_Inr: "rbind m f = Inr y \<longleftrightarrow> (\<exists>x. m = Inr x \<and> f x = Inr y)"
  by (cases m) auto

lemma rbind_eq_Inl: "rbind m f = Inl e \<longleftrightarrow> m = Inl e \<or> (\<exists>x. m = Inr x \<and> f x = Inl e)"
  by (cases m) auto

lemma rbind_assoc: "rbind (rbind m f) g = rbind m (\<lambda>x. rbind (f x) g)"
  by (cases m) auto

lemma rbind_cong [fundef_cong]:
  "m = m' \<Longrightarrow> (\<And>x. m' = Inr x \<Longrightarrow> f x = g x) \<Longrightarrow> rbind m f = rbind m' g"
  by (cases m') auto

text \<open>A \<open>for\<close> loop whose body may throw: it stops at the first exception.\<close>

fun fold_result :: "('a \<Rightarrow> 's \<Rightarrow> 'e + 's) \<Rightarrow> 'a list \<Rightarrow> 's \<Rightarrow> 'e + 's" where
  "fold_result f [] s = Inr s"
| "fold_result f (x # xs) s = rbind (f x s) (fold_result f xs)"

lemma fold_result_append:
  "fold_result f (xs @ ys) s = rbind (fold_result f xs s) (fold_result f ys)"
  by (induction xs arbitrary: s) (auto simp: rbind_assoc intro!: rbind_cong)

lemma fold_result_invariant:
  assumes "fold_result f xs s = Inr t" and "P s"
    and "\<And>x s t. x \<in> set xs \<Longrightarrow> P s \<Longrightarrow> f x s = Inr t \<Longrightarrow> P t"
  shows "P t"
  using assms
proof (induction xs arbitrary: s)
  case Nil
  then show ?case by simp
next
  case (Cons x xs)
  from Cons.prems(1) obtain s' where s': "f x s = Inr s'" "fold_result f xs s' = Inr t"
    by (auto simp: rbind_eq_Inr)
  have "P s'" by (rule Cons.prems(3) [OF _ Cons.prems(2) s'(1)]) simp
  show ?case
    by (rule Cons.IH [OF s'(2) \<open>P s'\<close>]) (rule Cons.prems(3), simp_all)
qed

lemma fold_result_total:
  assumes "P s"
    and "\<And>x s. x \<in> set xs \<Longrightarrow> P s \<Longrightarrow> \<exists>t. f x s = Inr t \<and> P t"
  shows "\<exists>t. fold_result f xs s = Inr t \<and> P t"
  using assms
proof (induction xs arbitrary: s)
  case Nil
  then show ?case by simp
next
  case (Cons x xs)
  from Cons.prems(2) [of x s] Cons.prems(1) obtain t where "f x s = Inr t" "P t" by auto
  with Cons.IH [of t] Cons.prems(2) show ?case by auto
qed

text \<open>A loop that throws does so in some iteration, after the ones before it succeeded.\<close>

lemma fold_result_error:
  assumes "fold_result f xs s = Inl e"
  shows "\<exists>ys x zs t. xs = ys @ x # zs \<and> fold_result f ys s = Inr t \<and> f x t = Inl e"
  using assms
proof (induction xs arbitrary: s)
  case Nil
  then show ?case by simp
next
  case (Cons x xs)
  show ?case
  proof (cases "f x s")
    case (Inl e')
    with Cons.prems show ?thesis
      by (intro exI [of _ "[]"] exI [of _ x] exI [of _ xs] exI [of _ s]) simp
  next
    case (Inr t)
    with Cons obtain ys y zs u where "xs = ys @ y # zs" "fold_result f ys t = Inr u" "f y u = Inl e"
      by force
    with Inr show ?thesis by (intro exI [of _ "x # ys"]) auto
  qed
qed

fun map_result :: "('a \<Rightarrow> 'e + 'b) \<Rightarrow> 'a list \<Rightarrow> 'e + 'b list" where
  "map_result f [] = Inr []"
| "map_result f (x # xs) =
     rbind (f x) (\<lambda>y. rbind (map_result f xs) (\<lambda>ys. Inr (y # ys)))"

lemma map_result_cong [fundef_cong]:
  "xs = ys \<Longrightarrow> (\<And>x. x \<in> set ys \<Longrightarrow> f x = g x) \<Longrightarrow> map_result f xs = map_result g ys"
  by (induction ys arbitrary: xs) (auto intro!: rbind_cong)

lemma map_result_Inr:
  "map_result f xs = Inr ys \<longleftrightarrow> list_all2 (\<lambda>x y. f x = Inr y) xs ys"
  by (induction xs arbitrary: ys) (auto simp: rbind_eq_Inr list_all2_Cons1)

section \<open>Decimal printing\<close>

text \<open>\<open>std::to_string\<close> of an unsigned integer: decimal digits, most significant first.\<close>

definition digit_char :: "nat \<Rightarrow> char" where
  "digit_char d = char_of (48 + d)"

fun to_string_nat :: "nat \<Rightarrow> string" where
  "to_string_nat n =
     (if n < 10 then [digit_char n] else to_string_nat (n div 10) @ [digit_char (n mod 10)])"

declare to_string_nat.simps [simp del]

definition is_digit :: "char \<Rightarrow> bool" where
  "is_digit c \<longleftrightarrow> 48 \<le> (of_char c :: nat) \<and> (of_char c :: nat) \<le> 57"

definition digit_value :: "char \<Rightarrow> nat" where
  "digit_value c = of_char c - 48"

definition decimal_value :: "string \<Rightarrow> nat" where
  "decimal_value s = foldl (\<lambda>n c. 10 * n + digit_value c) 0 s"

lemma of_char_digit_char: "d < 10 \<Longrightarrow> (of_char (digit_char d) :: nat) = 48 + d"
  by (simp add: digit_char_def)

lemma is_digit_digit_char [simp]: "d < 10 \<Longrightarrow> is_digit (digit_char d)"
  by (simp add: is_digit_def of_char_digit_char)

lemma digit_value_digit_char [simp]: "d < 10 \<Longrightarrow> digit_value (digit_char d) = d"
  by (simp add: digit_value_def of_char_digit_char)

lemma to_string_nat_nonempty [simp]: "to_string_nat n \<noteq> []"
  by (subst to_string_nat.simps) simp

lemma to_string_nat_digits: "c \<in> set (to_string_nat n) \<Longrightarrow> is_digit c"
proof (induction n rule: to_string_nat.induct)
  case (1 n)
  then show ?case
    by (cases "n < 10") (auto simp: to_string_nat.simps [of n])
qed

lemma decimal_value_snoc: "decimal_value (s @ [c]) = 10 * decimal_value s + digit_value c"
  by (simp add: decimal_value_def)

lemma decimal_value_to_string [simp]: "decimal_value (to_string_nat n) = n"
proof (induction n rule: to_string_nat.induct)
  case (1 n)
  show ?case
  proof (cases "n < 10")
    case True
    then show ?thesis by (simp add: to_string_nat.simps [of n] decimal_value_def)
  next
    case False
    with 1 show ?thesis
      by (simp add: to_string_nat.simps [of n] decimal_value_snoc)
  qed
qed

lemma to_string_nat_inject [simp]: "to_string_nat m = to_string_nat n \<longleftrightarrow> m = n"
  by (metis decimal_value_to_string)

text \<open>The first digit is zero only for the number zero, so no number has a leading zero.\<close>

lemma to_string_nat_hd: "0 < n \<Longrightarrow> hd (to_string_nat n) \<noteq> CHR ''0''"
proof (induction n rule: to_string_nat.induct)
  case (1 n)
  show ?case
  proof (cases "n < 10")
    case True
    with 1 have "(of_char (digit_char n) :: nat) \<noteq> of_char (CHR ''0'')"
      by (simp add: of_char_digit_char)
    then have "digit_char n \<noteq> CHR ''0''" by metis
    with True show ?thesis by (simp add: to_string_nat.simps [of n])
  next
    case False
    with 1 show ?thesis by (simp add: to_string_nat.simps [of n])
  qed
qed

section \<open>Containers\<close>

text \<open>Appending to a \<open>std::vector\<close> unless an equal element is already there.\<close>

definition push_unique :: "'a \<Rightarrow> 'a list \<Rightarrow> 'a list" where
  "push_unique x xs = (if x \<in> set xs then xs else xs @ [x])"

lemma set_push_unique [simp]: "set (push_unique x xs) = insert x (set xs)"
  by (auto simp: push_unique_def)

lemma distinct_push_unique [simp]: "distinct (push_unique x xs) = distinct xs"
  by (auto simp: push_unique_def)

text \<open>\<open>unordered_map::emplace\<close> and \<open>map::emplace\<close> keep an existing entry.\<close>

definition emplace :: "'k \<Rightarrow> 'v \<Rightarrow> ('k \<rightharpoonup> 'v) \<Rightarrow> ('k \<rightharpoonup> 'v)" where
  "emplace k v m = (case m k of None \<Rightarrow> m(k \<mapsto> v) | Some _ \<Rightarrow> m)"

lemma emplace_apply:
  "emplace k v m k' = (if k' = k \<and> m k = None then Some v else m k')"
  by (auto simp: emplace_def split: option.splits)

text \<open>\<open>std::ranges::unique\<close> with a projection: of each run of equal keys the first stays.\<close>

fun unique_by :: "('a \<Rightarrow> 'k) \<Rightarrow> 'a list \<Rightarrow> 'a list" where
  "unique_by f [] = []"
| "unique_by f [x] = [x]"
| "unique_by f (x # y # ys) =
     (if f x = f y then unique_by f (x # ys) else x # unique_by f (y # ys))"

lemma unique_by_hd: "xs \<noteq> [] \<Longrightarrow> unique_by f xs \<noteq> [] \<and> hd (unique_by f xs) = hd xs"
  by (induction f xs rule: unique_by.induct) auto

lemma set_unique_by: "set (unique_by f xs) \<subseteq> set xs"
  by (induction f xs rule: unique_by.induct) auto

lemma keys_unique_by: "f ` set (unique_by f xs) = f ` set xs"
  by (induction f xs rule: unique_by.induct) auto

lemma unique_by_sorted_distinct:
  fixes f :: "'a \<Rightarrow> 'k::linorder"
  assumes "sorted (map f xs)"
  shows "distinct (map f (unique_by f xs)) \<and> sorted (map f (unique_by f xs))"
  using assms
proof (induction f xs rule: unique_by.induct)
  case (3 f x y ys)
  show ?case
  proof (cases "f x = f y")
    case True
    with 3 show ?thesis by simp
  next
    case False
    with "3.prems" have "f x < f y" by (simp add: order_less_le)
    moreover have "\<forall>z \<in> set (unique_by f (y # ys)). f y \<le> f z"
      using set_unique_by [of f "y # ys"] "3.prems" by auto
    ultimately have lt: "\<forall>z \<in> set (unique_by f (y # ys)). f x < f z"
      using less_le_trans by blast
    then have "f x \<notin> f ` set (unique_by f (y # ys))" by fastforce
    moreover have "\<forall>z \<in> set (unique_by f (y # ys)). f x \<le> f z"
      using lt less_imp_le by blast
    ultimately show ?thesis using 3 False by simp
  qed
qed auto

section \<open>Lists sorted by a key\<close>

text \<open>
  \<open>std::ranges::sort\<close> with a comparison of keys is modelled by \<^const>\<open>sort_key\<close>. Elements
  with equal keys may come out of \<open>std::ranges::sort\<close> in any order; where a theorem depends
  on the exact list the keys are distinct, and the lemma below says the list is then
  determined by its elements.
\<close>

lemma sort_key_unique:
  assumes "set xs = set ys" "distinct xs" "distinct ys" "inj_on f (set xs)"
  shows "sort_key f xs = sort_key f ys"
proof -
  have "mset xs = mset ys" using assms(1-3) by (simp add: set_eq_iff_mset_eq_distinct)
  moreover have "inj_on f (set ys)" using assms(1,4) by simp
  ultimately show ?thesis
    using properties_for_sort_key [of "sort_key f ys" xs f] assms
    by (metis (mono_tags, lifting) distinct_sort filter_sort inj_on_eq_iff mset_sort
      set_sort sorted_sort_key sort_key_inj_key_eq)
qed

lemma map_option_inj_on_eq:
  assumes "map_option f a = map_option f b"
    and "\<And>x y. a = Some x \<Longrightarrow> b = Some y \<Longrightarrow> f x = f y \<Longrightarrow> x = y"
  shows "a = b"
  using assms(1) by (cases a; cases b) (auto intro: assms(2))

lemma nth_index_distinct:
  "distinct xs \<Longrightarrow> i < length xs \<Longrightarrow> j < length xs \<Longrightarrow> xs ! i = xs ! j \<Longrightarrow> i = j"
  by (simp add: nth_eq_iff_index_eq)

end
