(* ===== verification/Graph_Model.thy ===== *)
theory Graph_Model
  imports Prelude
begin

text \<open>
  The symbol graph of \<open>include/cxx_dead/graph.h\<close> and the operations of \<open>src/graph.cpp\<close> that
  build it: the data types, symbol identities and their stable keys, merging of the
  declarations of one symbol, and the insertion of symbols, edges, roots, escapes and
  suppressions. A \<open>SymbolId\<close> (\<open>std::size_t\<close>) is a natural number that indexes the symbol
  vector; a path is the string it was built from.
\<close>

named_theorems graph_defs \<open>the operations of the graph, unfolded\<close>

section \<open>Enumerations\<close>

datatype symbol_kind = Function | Method | Constructor | Destructor | Synthetic

datatype symbol_scope = Reportable | Indexed | External_Opaque | Excluded

datatype edge_kind =
  Direct_Call | Constructs | Virtual_Dispatch | Callback_Edge | Provider_Edge

datatype root_kind =
    Application_Entry_Point
  | Global_Initializer
  | Manual
  | Callback_Root
  | Provider_Root
  | Public_Api

datatype escape_kind = Address_Taken | Callable_Object | Provider_Escape

datatype identity_quality = Stable | Fallback

text \<open>Enumerators are compared by their underlying integers, in the order of declaration.\<close>

fun edge_kind_rank :: "edge_kind \<Rightarrow> nat" where
  "edge_kind_rank Direct_Call = 0"
| "edge_kind_rank Constructs = 1"
| "edge_kind_rank Virtual_Dispatch = 2"
| "edge_kind_rank Callback_Edge = 3"
| "edge_kind_rank Provider_Edge = 4"

fun root_kind_rank :: "root_kind \<Rightarrow> nat" where
  "root_kind_rank Application_Entry_Point = 0"
| "root_kind_rank Global_Initializer = 1"
| "root_kind_rank Manual = 2"
| "root_kind_rank Callback_Root = 3"
| "root_kind_rank Provider_Root = 4"
| "root_kind_rank Public_Api = 5"

fun escape_kind_rank :: "escape_kind \<Rightarrow> nat" where
  "escape_kind_rank Address_Taken = 0"
| "escape_kind_rank Callable_Object = 1"
| "escape_kind_rank Provider_Escape = 2"

lemma edge_kind_rank_inject: "edge_kind_rank a = edge_kind_rank b \<Longrightarrow> a = b"
  by (cases a; cases b) simp_all

lemma root_kind_rank_inject: "root_kind_rank a = root_kind_rank b \<Longrightarrow> a = b"
  by (cases a; cases b) simp_all

lemma escape_kind_rank_inject: "escape_kind_rank a = escape_kind_rank b \<Longrightarrow> a = b"
  by (cases a; cases b) simp_all

instantiation edge_kind :: linorder
begin
definition less_eq_edge_kind :: "edge_kind \<Rightarrow> edge_kind \<Rightarrow> bool" where
  "less_eq_edge_kind a b \<longleftrightarrow> edge_kind_rank a \<le> edge_kind_rank b"
definition less_edge_kind :: "edge_kind \<Rightarrow> edge_kind \<Rightarrow> bool" where
  "less_edge_kind a b \<longleftrightarrow> edge_kind_rank a < edge_kind_rank b"
instance
  by standard
    (auto simp: less_eq_edge_kind_def less_edge_kind_def intro: edge_kind_rank_inject)
end

instantiation root_kind :: linorder
begin
definition less_eq_root_kind :: "root_kind \<Rightarrow> root_kind \<Rightarrow> bool" where
  "less_eq_root_kind a b \<longleftrightarrow> root_kind_rank a \<le> root_kind_rank b"
definition less_root_kind :: "root_kind \<Rightarrow> root_kind \<Rightarrow> bool" where
  "less_root_kind a b \<longleftrightarrow> root_kind_rank a < root_kind_rank b"
instance
  by standard
    (auto simp: less_eq_root_kind_def less_root_kind_def intro: root_kind_rank_inject)
end

instantiation escape_kind :: linorder
begin
definition less_eq_escape_kind :: "escape_kind \<Rightarrow> escape_kind \<Rightarrow> bool" where
  "less_eq_escape_kind a b \<longleftrightarrow> escape_kind_rank a \<le> escape_kind_rank b"
definition less_escape_kind :: "escape_kind \<Rightarrow> escape_kind \<Rightarrow> bool" where
  "less_escape_kind a b \<longleftrightarrow> escape_kind_rank a < escape_kind_rank b"
instance
  by standard
    (auto simp: less_eq_escape_kind_def less_escape_kind_def intro: escape_kind_rank_inject)
end

fun symbol_kind_to_string :: "symbol_kind \<Rightarrow> string" where
  "symbol_kind_to_string Function = ''function''"
| "symbol_kind_to_string Method = ''method''"
| "symbol_kind_to_string Constructor = ''constructor''"
| "symbol_kind_to_string Destructor = ''destructor''"
| "symbol_kind_to_string Synthetic = ''synthetic''"

fun symbol_scope_to_string :: "symbol_scope \<Rightarrow> string" where
  "symbol_scope_to_string Reportable = ''reportable''"
| "symbol_scope_to_string Indexed = ''indexed''"
| "symbol_scope_to_string External_Opaque = ''external_opaque''"
| "symbol_scope_to_string Excluded = ''excluded''"

fun edge_kind_to_string :: "edge_kind \<Rightarrow> string" where
  "edge_kind_to_string Direct_Call = ''direct_call''"
| "edge_kind_to_string Constructs = ''constructs''"
| "edge_kind_to_string Virtual_Dispatch = ''virtual_dispatch''"
| "edge_kind_to_string Callback_Edge = ''callback_registration''"
| "edge_kind_to_string Provider_Edge = ''provider''"

fun root_kind_to_string :: "root_kind \<Rightarrow> string" where
  "root_kind_to_string Application_Entry_Point = ''application_entry_point''"
| "root_kind_to_string Global_Initializer = ''global_initializer''"
| "root_kind_to_string Manual = ''manual''"
| "root_kind_to_string Callback_Root = ''callback_registration''"
| "root_kind_to_string Provider_Root = ''provider''"
| "root_kind_to_string Public_Api = ''public_api''"

fun escape_kind_to_string :: "escape_kind \<Rightarrow> string" where
  "escape_kind_to_string Address_Taken = ''address_taken''"
| "escape_kind_to_string Callable_Object = ''callable_object''"
| "escape_kind_to_string Provider_Escape = ''provider''"

fun identity_quality_to_string :: "identity_quality \<Rightarrow> string" where
  "identity_quality_to_string Stable = ''stable''"
| "identity_quality_to_string Fallback = ''fallback''"

section \<open>Records\<close>

record symbol_identity =
  si_configuration_id :: string
  si_usr :: string
  si_linkage_name :: string
  si_translation_unit :: string
  si_fallback_anchor :: string
  si_quality :: identity_quality

record evidence =
  ev_provider :: string
  ev_reason :: string

record source_point =
  sp_file :: string
  sp_line :: nat
  sp_column :: nat
  sp_offset :: nat
  sp_token_length :: nat

record source_extent =
  sx_location :: source_point
  sx_begin :: source_point
  sx_end :: source_point

record symbol_source =
  ss_spelling :: source_extent
  ss_expansion :: "source_extent option"

record symbol =
  sym_key :: string
  sym_identity :: symbol_identity
  sym_name :: string
  sym_qualified_name :: string
  sym_class_name :: string
  sym_signature :: string
  sym_source :: symbol_source
  sym_kind :: symbol_kind
  sym_scope :: symbol_scope
  sym_defined :: bool
  sym_internal_linkage :: bool
  sym_is_virtual :: bool

record edge =
  edge_from :: nat
  edge_to :: nat
  edge_kind :: edge_kind
  edge_evidence :: evidence

record root =
  root_symbol :: nat
  root_kind :: root_kind
  root_evidence :: evidence

record escape =
  esc_symbol :: nat
  esc_from :: "nat option"
  esc_kind :: escape_kind
  esc_evidence :: evidence

record suppression =
  sup_symbol :: nat
  sup_evidence :: evidence

record graph =
  g_symbols :: "symbol list"
  g_edges :: "edge list"
  g_key_to_id :: "string \<rightharpoonup> nat"
  g_roots :: "root list"
  g_escapes :: "escape list"
  g_suppressions :: "suppression list"

definition empty_graph :: graph where
  "empty_graph = \<lparr>g_symbols = [], g_edges = [], g_key_to_id = Map.empty, g_roots = [],
     g_escapes = [], g_suppressions = []\<rparr>"

section \<open>Predicates on kinds and scopes\<close>

fun is_traversable :: "edge_kind \<Rightarrow> bool" where
  "is_traversable k \<longleftrightarrow> k = Direct_Call \<or> k = Constructs \<or> k = Virtual_Dispatch \<or>
     k = Callback_Edge \<or> k = Provider_Edge"

fun is_provider_edge :: "edge_kind \<Rightarrow> bool" where
  "is_provider_edge k \<longleftrightarrow> k = Callback_Edge \<or> k = Provider_Edge"

fun is_provider_root :: "root_kind \<Rightarrow> bool" where
  "is_provider_root k \<longleftrightarrow> k = Callback_Root \<or> k = Provider_Root"

fun is_public_api :: "root_kind \<Rightarrow> bool" where
  "is_public_api k \<longleftrightarrow> k = Public_Api"

fun has_indexed_body :: "symbol_scope \<Rightarrow> bool" where
  "has_indexed_body s \<longleftrightarrow> s = Reportable \<or> s = Indexed"

fun is_reportable :: "symbol_scope \<Rightarrow> bool" where
  "is_reportable s \<longleftrightarrow> s = Reportable"

definition primary_source_extent :: "symbol \<Rightarrow> source_extent" where
  "primary_source_extent s =
     (case ss_expansion (sym_source s) of
        Some x \<Rightarrow> x
      | None \<Rightarrow> ss_spelling (sym_source s))"

lemma is_traversable_all: "is_traversable k"
  by (cases k) simp_all

section \<open>Symbol identities and stable keys\<close>

definition make_symbol_identity ::
    "string \<Rightarrow> string \<Rightarrow> string \<Rightarrow> string \<Rightarrow> string \<Rightarrow> symbol_identity result" where
  "make_symbol_identity configuration usr linkage tu anchor =
     (if configuration = [] then
        Inl (Invalid_Argument ''configuration identity cannot be empty'')
      else
        let quality = (if linkage \<noteq> [] \<or> usr \<noteq> [] then Stable else Fallback) in
        if quality = Fallback \<and> anchor = [] then
          Inl (Invalid_Argument ''fallback symbol identity requires a source anchor'')
        else
          Inr \<lparr>si_configuration_id = configuration, si_usr = usr, si_linkage_name = linkage,
            si_translation_unit = tu, si_fallback_anchor = anchor, si_quality = quality\<rparr>)"

definition append_component :: "string \<Rightarrow> string \<Rightarrow> string \<Rightarrow> string" where
  "append_component output label val =
     output @ ''|'' @ label @ ''='' @ to_string_nat (length val) @ '':'' @ val"

definition stable_symbol_key :: "symbol_identity \<Rightarrow> string" where
  "stable_symbol_key i =
     (let r0 = append_component ''cxx-dead-symbol-v1'' ''configuration''
                 (si_configuration_id i);
          r1 = (if si_linkage_name i \<noteq> [] then
                  append_component (append_component r0 ''anchor'' ''linkage'')
                    ''value'' (si_linkage_name i)
                else if si_usr i \<noteq> [] then
                  append_component (append_component r0 ''anchor'' ''usr'')
                    ''value'' (si_usr i)
                else
                  append_component (append_component r0 ''anchor'' ''fallback'')
                    ''value'' (si_fallback_anchor i))
      in append_component r1 ''translation_unit'' (si_translation_unit i))"

section \<open>Merging two declarations of one symbol\<close>

fun scope_rank :: "symbol_scope \<Rightarrow> nat" where
  "scope_rank Reportable = 3"
| "scope_rank Indexed = 2"
| "scope_rank External_Opaque = 1"
| "scope_rank Excluded = 0"

text \<open>The compatibility checks in the order the code makes them, each with its field name.\<close>

definition merge_checks :: "symbol \<Rightarrow> symbol \<Rightarrow> (bool \<times> string) list" where
  "merge_checks target source =
     (let agree = (\<lambda>a b :: string. a = [] \<or> b = [] \<or> a = b);
          ti = sym_identity target; si = sym_identity source in
      [(sym_kind target = sym_kind source, ''kind''),
       (agree (sym_qualified_name target) (sym_qualified_name source), ''qualified name''),
       (agree (sym_name target) (sym_name source), ''name''),
       (agree (sym_class_name target) (sym_class_name source), ''owning class''),
       (sym_internal_linkage target = sym_internal_linkage source, ''linkage domain''),
       (si_configuration_id ti = si_configuration_id si, ''configuration identity''),
       (si_linkage_name ti = si_linkage_name si, ''linkage identity''),
       (si_translation_unit ti = si_translation_unit si, ''translation-unit identity''),
       (agree (si_usr ti) (si_usr si), ''Clang USR'')])"

definition merge_identity :: "symbol_identity \<Rightarrow> symbol_identity \<Rightarrow> symbol_identity" where
  "merge_identity target source =
     target\<lparr>
       si_usr := (if si_usr target = [] then si_usr source else si_usr target),
       si_fallback_anchor :=
         (if si_fallback_anchor target = [] \<or>
             (si_fallback_anchor source \<noteq> [] \<and>
              si_fallback_anchor source < si_fallback_anchor target)
          then si_fallback_anchor source else si_fallback_anchor target),
       si_quality := (if si_quality source = Stable then Stable else si_quality target)\<rparr>"

definition source_order :: "symbol_source \<Rightarrow> string \<times> nat \<times> nat \<times> nat" where
  "source_order v =
     (let extent = (case ss_expansion v of Some x \<Rightarrow> x | None \<Rightarrow> ss_spelling v);
          l = sx_location extent
      in (sp_file l, sp_line l, sp_column l, sp_offset l))"

text \<open>
  The three reasons to prefer the source's location and signature, computed from the
  target as it was before the merge.
\<close>

definition source_preferred :: "symbol \<Rightarrow> symbol \<Rightarrow> bool" where
  "source_preferred target source \<longleftrightarrow>
     (\<not> sym_defined target \<and> sym_defined source) \<or>
     (sym_defined target = sym_defined source \<and>
      scope_rank (sym_scope target) < scope_rank (sym_scope source)) \<or>
     (sym_defined target = sym_defined source \<and> sym_scope target = sym_scope source \<and>
      source_order (sym_source source) < source_order (sym_source target))"

definition merge_fields :: "symbol \<Rightarrow> symbol \<Rightarrow> symbol" where
  "merge_fields target source =
     (let preferred = source_preferred target source;
          file = (\<lambda>s. sp_file (sx_location (primary_source_extent s))) in
      target\<lparr>
        sym_identity := merge_identity (sym_identity target) (sym_identity source),
        sym_defined := (sym_defined target \<or> sym_defined source),
        sym_scope := (if scope_rank (sym_scope target) < scope_rank (sym_scope source)
                      then sym_scope source else sym_scope target),
        sym_internal_linkage := (sym_internal_linkage target \<or> sym_internal_linkage source),
        sym_is_virtual := (sym_is_virtual target \<or> sym_is_virtual source),
        sym_source := (if (file target = [] \<or> preferred) \<and> file source \<noteq> []
                       then sym_source source else sym_source target),
        sym_qualified_name := (if sym_qualified_name target = []
                               then sym_qualified_name source else sym_qualified_name target),
        sym_class_name := (if sym_class_name target = []
                           then sym_class_name source else sym_class_name target),
        sym_signature := (if sym_signature target = [] \<or> preferred
                          then sym_signature source else sym_signature target)\<rparr>)"

definition incompatible :: "string \<Rightarrow> string \<Rightarrow> exn" where
  "incompatible field key =
     Runtime_Error (''incompatible '' @ field @ '' for stable symbol identity '' @ key)"

definition merge_symbol :: "symbol \<Rightarrow> symbol \<Rightarrow> symbol result" where
  "merge_symbol target source =
     (case find (\<lambda>(ok, field). \<not> ok) (merge_checks target source) of
        Some (ok, field) \<Rightarrow> Inl (incompatible field (sym_key target))
      | None \<Rightarrow> Inr (merge_fields target source))"

section \<open>Operations of the graph\<close>

definition add_or_merge_symbol :: "symbol \<Rightarrow> graph \<Rightarrow> (nat \<times> graph) result" where
  "add_or_merge_symbol symbol g =
     (if sym_key symbol = [] then
        Inl (Invalid_Argument ''symbol key cannot be empty'')
      else if sym_scope symbol = Excluded then
        Inl (Invalid_Argument ''excluded symbols cannot be added to the graph'')
      else
        (case g_key_to_id g (sym_key symbol) of
           Some existing \<Rightarrow>
             rbind (merge_symbol (g_symbols g ! existing) symbol)
               (\<lambda>merged. Inr (existing, g\<lparr>g_symbols := (g_symbols g)[existing := merged]\<rparr>))
         | None \<Rightarrow>
             (let identifier = length (g_symbols g) in
              Inr (identifier,
                   g\<lparr>g_key_to_id := emplace (sym_key symbol) identifier (g_key_to_id g),
                     g_symbols := g_symbols g @ [symbol]\<rparr>))))"

definition add_edge :: "nat \<Rightarrow> nat \<Rightarrow> edge_kind \<Rightarrow> evidence \<Rightarrow> graph \<Rightarrow> graph result" where
  "add_edge from to kind evidence g =
     (if length (g_symbols g) \<le> from \<or> length (g_symbols g) \<le> to then
        Inl (Out_Of_Range ''graph edge references an invalid symbol'')
      else
        Inr (g\<lparr>g_edges := push_unique
          \<lparr>edge_from = from, edge_to = to, edge_kind = kind, edge_evidence = evidence\<rparr>
          (g_edges g)\<rparr>))"

definition add_root :: "nat \<Rightarrow> root_kind \<Rightarrow> evidence \<Rightarrow> graph \<Rightarrow> graph result" where
  "add_root i kind evidence g =
     (if length (g_symbols g) \<le> i then Inl (Out_Of_Range ''invalid graph root'')
      else
        Inr (g\<lparr>g_roots := push_unique
          \<lparr>root_symbol = i, root_kind = kind, root_evidence = evidence\<rparr> (g_roots g)\<rparr>))"

definition add_escape ::
    "nat \<Rightarrow> escape_kind \<Rightarrow> evidence \<Rightarrow> nat option \<Rightarrow> graph \<Rightarrow> graph result" where
  "add_escape i kind evidence from g =
     (if length (g_symbols g) \<le> i \<or>
         (case from of None \<Rightarrow> False | Some f \<Rightarrow> length (g_symbols g) \<le> f) then
        Inl (Out_Of_Range ''graph escape references an invalid symbol'')
      else
        Inr (g\<lparr>g_escapes := push_unique
          \<lparr>esc_symbol = i, esc_from = from, esc_kind = kind, esc_evidence = evidence\<rparr>
          (g_escapes g)\<rparr>))"

definition add_suppression :: "nat \<Rightarrow> evidence \<Rightarrow> graph \<Rightarrow> graph result" where
  "add_suppression i evidence g =
     (if length (g_symbols g) \<le> i then Inl (Out_Of_Range ''invalid graph suppression'')
      else
        Inr (g\<lparr>g_suppressions := push_unique
          \<lparr>sup_symbol = i, sup_evidence = evidence\<rparr> (g_suppressions g)\<rparr>))"

definition find_by_key :: "graph \<Rightarrow> string \<Rightarrow> nat option" where
  "find_by_key g key = g_key_to_id g key"

lemmas [graph_defs] =
  add_or_merge_symbol_def add_edge_def add_root_def add_escape_def add_suppression_def

end
