(* ===== verification/Graph_Invariants.thy ===== *)
theory Graph_Invariants
  imports Graph_Model
begin

text \<open>
  What the operations of \<open>src/graph.cpp\<close> keep true. The representation invariant
  \<open>graph_wf\<close> ties the key index to the symbol vector and bounds every id; the facts of a
  graph are read off with symbols named by their keys, which is what survives merging and
  renumbering. The locale \<open>graph_writer\<close> is the contract of every operation that adds to
  a graph; its clients (merging, provider policies, artifact loading) use it for loops of
  insertions. The last section models \<open>merge_graph\<close>.
\<close>

section \<open>The representation invariant and the facts of a graph\<close>

definition keys_of :: "graph \<Rightarrow> string list" where
  "keys_of g = map sym_key (g_symbols g)"

definition key_at :: "graph \<Rightarrow> nat \<Rightarrow> string" where
  "key_at g i = sym_key (g_symbols g ! i)"

definition graph_wf :: "graph \<Rightarrow> bool" where
  "graph_wf g \<longleftrightarrow>
     (\<forall>k i. g_key_to_id g k = Some i \<longleftrightarrow> i < length (g_symbols g) \<and> key_at g i = k) \<and>
     (\<forall>s \<in> set (g_symbols g). sym_key s \<noteq> [] \<and> sym_scope s \<noteq> Excluded) \<and>
     (\<forall>e \<in> set (g_edges g). edge_from e < length (g_symbols g) \<and>
                              edge_to e < length (g_symbols g)) \<and>
     (\<forall>r \<in> set (g_roots g). root_symbol r < length (g_symbols g)) \<and>
     (\<forall>x \<in> set (g_escapes g). esc_symbol x < length (g_symbols g) \<and>
        (\<forall>f. esc_from x = Some f \<longrightarrow> f < length (g_symbols g))) \<and>
     (\<forall>p \<in> set (g_suppressions g). sup_symbol p < length (g_symbols g)) \<and>
     distinct (g_edges g) \<and> distinct (g_roots g) \<and> distinct (g_escapes g) \<and>
     distinct (g_suppressions g)"

definition edge_label :: "graph \<Rightarrow> edge \<Rightarrow> string \<times> string \<times> edge_kind \<times> evidence" where
  "edge_label g e = (key_at g (edge_from e), key_at g (edge_to e), edge_kind e, edge_evidence e)"

definition root_label :: "graph \<Rightarrow> root \<Rightarrow> string \<times> root_kind \<times> evidence" where
  "root_label g r = (key_at g (root_symbol r), root_kind r, root_evidence r)"

definition escape_label ::
    "graph \<Rightarrow> escape \<Rightarrow> string \<times> string option \<times> escape_kind \<times> evidence" where
  "escape_label g x =
     (key_at g (esc_symbol x), map_option (key_at g) (esc_from x), esc_kind x, esc_evidence x)"

definition suppression_label :: "graph \<Rightarrow> suppression \<Rightarrow> string \<times> evidence" where
  "suppression_label g p = (key_at g (sup_symbol p), sup_evidence p)"

definition edge_facts where "edge_facts g = edge_label g ` set (g_edges g)"
definition root_facts where "root_facts g = root_label g ` set (g_roots g)"
definition escape_facts where "escape_facts g = escape_label g ` set (g_escapes g)"
definition suppression_facts where
  "suppression_facts g = suppression_label g ` set (g_suppressions g)"

lemma length_keys_of [simp]: "length (keys_of g) = length (g_symbols g)"
  by (simp add: keys_of_def)

lemma nth_keys_of: "i < length (g_symbols g) \<Longrightarrow> keys_of g ! i = key_at g i"
  by (simp add: keys_of_def key_at_def)

lemma graph_wf_empty [simp]: "graph_wf empty_graph"
  by (simp add: graph_wf_def empty_graph_def)

lemma graph_wf_index:
  "graph_wf g \<Longrightarrow>
     g_key_to_id g k = Some i \<longleftrightarrow> i < length (g_symbols g) \<and> key_at g i = k"
  by (simp add: graph_wf_def)

lemma graph_wf_index_None:
  "graph_wf g \<Longrightarrow> g_key_to_id g k = None \<longleftrightarrow> k \<notin> set (keys_of g)"
  by (metis graph_wf_index in_set_conv_nth length_keys_of not_Some_eq nth_keys_of)

lemma graph_wf_key_inj:
  assumes "graph_wf g" "i < length (g_symbols g)" "j < length (g_symbols g)"
    and "key_at g i = key_at g j"
  shows "i = j"
  using assms graph_wf_index [OF assms(1)] by (metis option.inject)

lemma graph_wf_distinct_keys: "graph_wf g \<Longrightarrow> distinct (keys_of g)"
  by (metis distinct_conv_nth graph_wf_key_inj length_keys_of nth_keys_of)

text \<open>
  The facts of one graph name their symbols injectively, so a set of labels determines the
  set of facts.
\<close>

lemma edge_label_inj:
  assumes wf: "graph_wf g"
  shows "inj_on (edge_label g) (set (g_edges g))"
proof (rule inj_onI)
  fix a b assume "a \<in> set (g_edges g)" "b \<in> set (g_edges g)"
  then have "edge_from a < length (g_symbols g)" "edge_from b < length (g_symbols g)"
    "edge_to a < length (g_symbols g)" "edge_to b < length (g_symbols g)"
    using wf by (simp_all add: graph_wf_def)
  moreover assume eq: "edge_label g a = edge_label g b"
  ultimately have "edge_from a = edge_from b" "edge_to a = edge_to b"
    using graph_wf_key_inj [OF wf] by (simp_all add: edge_label_def)
  then show "a = b" using eq by (simp add: edge_label_def)
qed

lemma root_label_inj:
  assumes wf: "graph_wf g"
  shows "inj_on (root_label g) (set (g_roots g))"
proof (rule inj_onI)
  fix a b assume "a \<in> set (g_roots g)" "b \<in> set (g_roots g)"
  then have "root_symbol a < length (g_symbols g)" "root_symbol b < length (g_symbols g)"
    using wf by (simp_all add: graph_wf_def)
  moreover assume eq: "root_label g a = root_label g b"
  ultimately have "root_symbol a = root_symbol b"
    using graph_wf_key_inj [OF wf] by (simp add: root_label_def)
  then show "a = b" using eq by (simp add: root_label_def)
qed

lemma escape_label_inj:
  assumes wf: "graph_wf g"
  shows "inj_on (escape_label g) (set (g_escapes g))"
proof (rule inj_onI)
  fix a b assume ab: "a \<in> set (g_escapes g)" "b \<in> set (g_escapes g)"
    and eq: "escape_label g a = escape_label g b"
  from ab have "esc_symbol a < length (g_symbols g)" "esc_symbol b < length (g_symbols g)"
    and from_: "\<And>f. esc_from a = Some f \<Longrightarrow> f < length (g_symbols g)"
      "\<And>f. esc_from b = Some f \<Longrightarrow> f < length (g_symbols g)"
    using wf by (auto simp: graph_wf_def)
  moreover have key: "key_at g (esc_symbol a) = key_at g (esc_symbol b)"
    and opt: "map_option (key_at g) (esc_from a) = map_option (key_at g) (esc_from b)"
    using eq by (simp_all add: escape_label_def)
  ultimately have "esc_symbol a = esc_symbol b"
    by (blast intro: graph_wf_key_inj [OF wf])
  moreover have "esc_from a = esc_from b"
    using opt by (rule map_option_inj_on_eq) (auto dest: from_ intro: graph_wf_key_inj [OF wf])
  ultimately show "a = b" using eq by (simp add: escape_label_def)
qed

lemma suppression_label_inj:
  assumes wf: "graph_wf g"
  shows "inj_on (suppression_label g) (set (g_suppressions g))"
proof (rule inj_onI)
  fix a b assume "a \<in> set (g_suppressions g)" "b \<in> set (g_suppressions g)"
  then have "sup_symbol a < length (g_symbols g)" "sup_symbol b < length (g_symbols g)"
    using wf by (simp_all add: graph_wf_def)
  moreover assume eq: "suppression_label g a = suppression_label g b"
  ultimately have "sup_symbol a = sup_symbol b"
    using graph_wf_key_inj [OF wf] by (simp add: suppression_label_def)
  then show "a = b" using eq by (simp add: suppression_label_def)
qed

section \<open>Growth of a graph\<close>

definition graph_extends :: "graph \<Rightarrow> graph \<Rightarrow> bool" where
  "graph_extends g g' \<longleftrightarrow>
     (\<exists>ks. keys_of g' = keys_of g @ ks) \<and>
     set (g_edges g) \<subseteq> set (g_edges g') \<and> set (g_roots g) \<subseteq> set (g_roots g') \<and>
     set (g_escapes g) \<subseteq> set (g_escapes g') \<and>
     set (g_suppressions g) \<subseteq> set (g_suppressions g')"

lemma graph_extends_refl [simp]: "graph_extends g g"
  by (simp add: graph_extends_def)

lemma graph_extends_trans [trans]:
  "graph_extends f g \<Longrightarrow> graph_extends g h \<Longrightarrow> graph_extends f h"
  by (auto simp: graph_extends_def)

lemma graph_extends_length:
  "graph_extends g g' \<Longrightarrow> length (g_symbols g) \<le> length (g_symbols g')"
  unfolding graph_extends_def by (metis length_append length_keys_of le_add1)

lemma graph_extends_key_at:
  "graph_extends g g' \<Longrightarrow> i < length (g_symbols g) \<Longrightarrow> key_at g' i = key_at g i"
  using graph_extends_length [of g g']
  by (auto simp: graph_extends_def nth_append simp flip: nth_keys_of)

section \<open>The contract of an operation that adds to a graph\<close>

locale graph_writer =
  fixes step :: "'a \<Rightarrow> graph \<Rightarrow> graph result"
  assumes step_wf: "graph_wf g \<Longrightarrow> step x g = Inr g' \<Longrightarrow> graph_wf g'"
    and step_extends: "graph_wf g \<Longrightarrow> step x g = Inr g' \<Longrightarrow> graph_extends g g'"
begin

lemma loop_wf_extends:
  assumes "graph_wf g" "fold_result step xs g = Inr g'"
  shows "graph_wf g' \<and> graph_extends g g'"
proof -
  have start: "graph_wf g \<and> graph_extends g g" using assms by simp
  show ?thesis
    by (rule fold_result_invariant
        [where P = "\<lambda>h. graph_wf h \<and> graph_extends g h", OF assms(2) start])
      (blast intro: step_wf graph_extends_trans dest: step_extends)
qed

lemmas loop_wf = loop_wf_extends [THEN conjunct1]
  and loop_extends = loop_wf_extends [THEN conjunct2]

end

section \<open>Every operation of the graph meets the contract\<close>

lemma graph_wf_push:
  assumes "graph_wf g"
  shows "edge_from e < length (g_symbols g) \<Longrightarrow> edge_to e < length (g_symbols g) \<Longrightarrow>
           graph_wf (g\<lparr>g_edges := push_unique e (g_edges g)\<rparr>)"
    and "root_symbol r < length (g_symbols g) \<Longrightarrow>
           graph_wf (g\<lparr>g_roots := push_unique r (g_roots g)\<rparr>)"
    and "esc_symbol x < length (g_symbols g) \<Longrightarrow>
           (\<And>f. esc_from x = Some f \<Longrightarrow> f < length (g_symbols g)) \<Longrightarrow>
           graph_wf (g\<lparr>g_escapes := push_unique x (g_escapes g)\<rparr>)"
    and "sup_symbol p < length (g_symbols g) \<Longrightarrow>
           graph_wf (g\<lparr>g_suppressions := push_unique p (g_suppressions g)\<rparr>)"
  using assms by (simp_all add: graph_wf_def key_at_def)

lemma scope_rank_Excluded: "scope_rank s = 0 \<longleftrightarrow> s = Excluded"
  by (cases s) simp_all

lemma merge_fields_key [simp]: "sym_key (merge_fields t s) = sym_key t"
  by (simp add: merge_fields_def Let_def)

lemma merge_fields_scope:
  "scope_rank (sym_scope (merge_fields t s)) =
     max (scope_rank (sym_scope t)) (scope_rank (sym_scope s))"
  by (simp add: merge_fields_def Let_def)

lemma merge_symbol_Inr:
  "merge_symbol t s = Inr m \<longleftrightarrow> m = merge_fields t s \<and> list_all fst (merge_checks t s)"
  by (auto simp: merge_symbol_def find_None_iff find_Some_iff list_all_iff
      split: option.splits) (metis fst_conv nth_mem)

lemma add_or_merge_symbol_wf:
  assumes wf: "graph_wf g" and eq: "add_or_merge_symbol s g = Inr (i, g')"
  shows "graph_wf g' \<and> graph_extends g g' \<and> i < length (g_symbols g') \<and> key_at g' i = sym_key s \<and>
    set (keys_of g') = insert (sym_key s) (set (keys_of g)) \<and>
    g_edges g' = g_edges g \<and> g_roots g' = g_roots g \<and> g_escapes g' = g_escapes g \<and>
    g_suppressions g' = g_suppressions g"
proof (cases "g_key_to_id g (sym_key s)")
  case None
  from eq None have key: "sym_key s \<noteq> []" "sym_scope s \<noteq> Excluded"
    and i: "i = length (g_symbols g)"
    and g': "g' = g\<lparr>g_key_to_id := emplace (sym_key s) i (g_key_to_id g),
                    g_symbols := g_symbols g @ [s]\<rparr>"
    by (auto simp: add_or_merge_symbol_def Let_def split: if_splits)
  from None wf have fresh: "sym_key s \<notin> set (keys_of g)" by (simp add: graph_wf_index_None)
  have "(g_key_to_id g' k = Some j) = (j < length (g_symbols g') \<and> key_at g' j = k)" for k j
    using None fresh graph_wf_index [OF wf, of k j]
    by (auto simp: g' i emplace_apply key_at_def keys_of_def nth_append less_Suc_eq)
  then have "graph_wf g'"
    using wf key unfolding graph_wf_def by (fastforce simp: g')
  then show ?thesis
    by (simp add: g' i graph_extends_def keys_of_def key_at_def)
next
  case (Some j)
  with wf have j: "j < length (g_symbols g)" "key_at g j = sym_key s"
    by (simp_all add: graph_wf_index)
  from eq Some have key: "sym_key s \<noteq> []" "sym_scope s \<noteq> Excluded" and i: "i = j"
    and g': "g' = g\<lparr>g_symbols := (g_symbols g)[j := merge_fields (g_symbols g ! j) s]\<rparr>"
    by (auto simp: add_or_merge_symbol_def merge_symbol_Inr rbind_eq_Inr split: if_splits)
  have keys: "keys_of g' = keys_of g"
    using j by (simp add: g' keys_of_def map_update key_at_def list_update_same_conv)
  then have key_at: "k < length (g_symbols g) \<Longrightarrow> key_at g' k = key_at g k" for k
    by (metis length_keys_of nth_keys_of)
  have "scope_rank (sym_scope (merge_fields (g_symbols g ! j) s)) \<noteq> 0"
    using key by (simp add: merge_fields_scope scope_rank_Excluded)
  then have "sym_scope (merge_fields (g_symbols g ! j) s) \<noteq> Excluded"
    by (simp add: scope_rank_Excluded)
  moreover have "sym_key (merge_fields (g_symbols g ! j) s) \<noteq> []"
    using j key by (simp add: key_at_def)
  ultimately have "\<forall>s \<in> set (g_symbols g'). sym_key s \<noteq> [] \<and> sym_scope s \<noteq> Excluded"
    using wf set_update_subset_insert [of "g_symbols g" j] by (fastforce simp: graph_wf_def g')
  moreover have "(g_key_to_id g' k = Some l) = (l < length (g_symbols g') \<and> key_at g' l = k)"
    for k l using graph_wf_index [OF wf, of k l] key_at by (auto simp: g')
  ultimately have "graph_wf g'"
    using wf unfolding graph_wf_def by (simp add: g')
  moreover have "sym_key s \<in> set (keys_of g)"
    using j by (metis length_keys_of nth_keys_of nth_mem)
  ultimately show ?thesis using j key_at keys
    by (simp add: i graph_extends_def insert_absorb) (simp add: g')
qed

interpretation symbol_writer: graph_writer
  "\<lambda>s g. rbind (add_or_merge_symbol s g) (\<lambda>(i, g'). Inr g')"
  by unfold_locales (auto simp: rbind_eq_Inr dest: add_or_merge_symbol_wf)

interpretation edge_writer: graph_writer "\<lambda>(f, t, k, ev). add_edge f t k ev"
  by unfold_locales
    (auto simp: add_edge_def graph_wf_push(1) graph_extends_def keys_of_def split: if_splits)

interpretation root_writer: graph_writer "\<lambda>(i, k, ev). add_root i k ev"
  by unfold_locales
    (auto simp: add_root_def graph_wf_push(2) graph_extends_def keys_of_def split: if_splits)

interpretation escape_writer: graph_writer "\<lambda>(i, k, ev, f). add_escape i k ev f"
  by unfold_locales
    (auto simp: add_escape_def graph_extends_def keys_of_def split: if_splits option.splits
      intro!: graph_wf_push(3))

interpretation suppression_writer: graph_writer "\<lambda>(i, ev). add_suppression i ev"
  by unfold_locales
    (auto simp: add_suppression_def graph_wf_push(4) graph_extends_def keys_of_def
      split: if_splits)

end
