(* ===== verification/Samples.thy ===== *)
theory Samples
  imports Graph_Invariants
begin

text \<open>
  Concrete graphs on which the theorems with hypotheses are applied: a program whose
  \<open>main\<close> calls \<open>helper\<close>, with two functions \<open>left\<close> and \<open>right\<close> that only call each other,
  and a second translation unit that shares \<open>helper\<close> and adds a callback root.
\<close>

definition sample_point :: "string \<Rightarrow> nat \<Rightarrow> source_point" where
  "sample_point file line = \<lparr>sp_file = file, sp_line = line, sp_column = 1, sp_offset = 10 * line,
     sp_token_length = 1\<rparr>"

definition sample_source :: "string \<Rightarrow> nat \<Rightarrow> nat \<Rightarrow> symbol_source" where
  "sample_source file line until =
     \<lparr>ss_spelling = \<lparr>sx_location = sample_point file line, sx_begin = sample_point file line,
        sx_end = sample_point file until\<rparr>, ss_expansion = None\<rparr>"

definition sample_identity :: "string \<Rightarrow> symbol_identity" where
  "sample_identity linkage =
     \<lparr>si_configuration_id = ''debug'', si_usr = [], si_linkage_name = linkage,
      si_translation_unit = [], si_fallback_anchor = [], si_quality = Stable\<rparr>"

definition sample_symbol :: "string \<Rightarrow> string \<Rightarrow> nat \<Rightarrow> nat \<Rightarrow> symbol" where
  "sample_symbol key file line until =
     \<lparr>sym_key = key, sym_identity = sample_identity key, sym_name = key,
      sym_qualified_name = key, sym_class_name = [], sym_signature = ''void ()'',
      sym_source = sample_source file line until, sym_kind = Function, sym_scope = Reportable,
      sym_defined = True, sym_internal_linkage = False, sym_is_virtual = False\<rparr>"

definition sample_evidence :: evidence where
  "sample_evidence = \<lparr>ev_provider = ''clang-ast'', ev_reason = ''call expression''\<rparr>"

definition sample_edge :: "nat \<Rightarrow> nat \<Rightarrow> edge_kind \<Rightarrow> edge" where
  "sample_edge i j kind =
     \<lparr>edge_from = i, edge_to = j, edge_kind = kind, edge_evidence = sample_evidence\<rparr>"

definition sample_root :: "nat \<Rightarrow> root_kind \<Rightarrow> root" where
  "sample_root i kind = \<lparr>root_symbol = i, root_kind = kind, root_evidence = sample_evidence\<rparr>"

lemmas sample_defs = sample_point_def sample_source_def sample_identity_def sample_symbol_def
  sample_evidence_def sample_edge_def sample_root_def

definition sample_program :: graph where
  "sample_program =
     \<lparr>g_symbols = [sample_symbol ''main'' ''a.cpp'' 1 5, sample_symbol ''helper'' ''b.cpp'' 1 3,
        sample_symbol ''left'' ''b.cpp'' 10 12, sample_symbol ''right'' ''b.cpp'' 12 20],
      g_edges = [sample_edge 0 1 Direct_Call, sample_edge 2 3 Direct_Call,
        sample_edge 3 2 Direct_Call],
      g_key_to_id = [''main'' \<mapsto> 0, ''helper'' \<mapsto> 1, ''left'' \<mapsto> 2, ''right'' \<mapsto> 3],
      g_roots = [sample_root 0 Application_Entry_Point],
      g_escapes = [], g_suppressions = []\<rparr>"

definition sample_unit :: graph where
  "sample_unit =
     \<lparr>g_symbols = [sample_symbol ''helper'' ''b.cpp'' 1 3, sample_symbol ''handler'' ''c.cpp'' 1 9],
      g_edges = [sample_edge 1 0 Callback_Edge],
      g_key_to_id = [''helper'' \<mapsto> 0, ''handler'' \<mapsto> 1],
      g_roots = [sample_root 1 Callback_Root],
      g_escapes = [\<lparr>esc_symbol = 0, esc_from = Some 1, esc_kind = Address_Taken,
        esc_evidence = sample_evidence\<rparr>],
      g_suppressions = [\<lparr>sup_symbol = 1, sup_evidence = sample_evidence\<rparr>]\<rparr>"

text \<open>The same program with the two halves of its symbols met in the other order.\<close>

definition sample_reordered :: graph where
  "sample_reordered =
     \<lparr>g_symbols = [sample_symbol ''left'' ''b.cpp'' 10 12, sample_symbol ''right'' ''b.cpp'' 12 20,
        sample_symbol ''main'' ''a.cpp'' 1 5, sample_symbol ''helper'' ''b.cpp'' 1 3],
      g_edges = [sample_edge 1 0 Direct_Call, sample_edge 2 3 Direct_Call,
        sample_edge 0 1 Direct_Call],
      g_key_to_id = [''main'' \<mapsto> 2, ''helper'' \<mapsto> 3, ''left'' \<mapsto> 0, ''right'' \<mapsto> 1],
      g_roots = [sample_root 2 Application_Entry_Point],
      g_escapes = [], g_suppressions = []\<rparr>"


text \<open>A translation unit that declares \<open>helper\<close> as a method.\<close>

definition sample_conflict :: graph where
  "sample_conflict = empty_graph\<lparr>
     g_symbols := [sample_symbol ''helper'' ''b.cpp'' 1 3\<lparr>sym_kind := Method\<rparr>],
     g_key_to_id := [''helper'' \<mapsto> 0]\<rparr>"

lemma wf_by_index:
  assumes "distinct (keys_of g)"
    and "\<forall>i < length (g_symbols g). g_key_to_id g (key_at g i) = Some i"
    and "dom (g_key_to_id g) = set (keys_of g)"
  shows "g_key_to_id g k = Some i \<longleftrightarrow> i < length (g_symbols g) \<and> key_at g i = k"
proof
  assume k: "g_key_to_id g k = Some i"
  then have "k \<in> set (keys_of g)" using assms(3) by blast
  then obtain j where "j < length (g_symbols g)" "key_at g j = k"
    by (metis in_set_conv_nth length_keys_of nth_keys_of)
  with k assms(2) show "i < length (g_symbols g) \<and> key_at g i = k" by auto
qed (use assms(2) in auto)

lemma sample_program_wf [simp]: "graph_wf sample_program"
  unfolding graph_wf_def
  by (intro conjI allI wf_by_index)
    (auto simp: sample_program_def sample_defs keys_of_def key_at_def less_Suc_eq)

lemma sample_unit_wf [simp]: "graph_wf sample_unit"
  unfolding graph_wf_def
  by (intro conjI allI wf_by_index)
    (auto simp: sample_unit_def sample_defs keys_of_def key_at_def less_Suc_eq)

lemma sample_reordered_wf [simp]: "graph_wf sample_reordered"
  unfolding graph_wf_def
  by (intro conjI allI wf_by_index)
    (auto simp: sample_reordered_def sample_defs keys_of_def key_at_def less_Suc_eq)

lemma sample_conflict_wf [simp]: "graph_wf sample_conflict"
  unfolding graph_wf_def
  by (intro conjI allI wf_by_index)
    (auto simp: sample_conflict_def empty_graph_def sample_defs keys_of_def key_at_def)

end
