(* ===== verification/Graph_Merge.thy ===== *)
theory Graph_Merge
  imports Samples
begin

text \<open>
  \<open>merge_graph\<close> of \<open>src/graph.cpp\<close>: every symbol of the source is added to or merged into
  the destination, and the source's facts are inserted under the destination's ids. The
  theorems say that the facts of the result are exactly the union, that only contradictory
  declarations of one key make it throw, and what merging two declarations keeps.
\<close>

section \<open>The operation\<close>

definition merge_symbols :: "symbol list \<Rightarrow> nat list \<times> graph \<Rightarrow> (nat list \<times> graph) result" where
  "merge_symbols =
     fold_result (\<lambda>s (remap, g).
       rbind (add_or_merge_symbol s g) (\<lambda>(i, g'). Inr (remap @ [i], g')))"

definition merge_graph :: "graph \<Rightarrow> graph \<Rightarrow> graph result" where
  "merge_graph destination source =
     rbind (merge_symbols (g_symbols source) ([], destination)) (\<lambda>(remap, g0).
     rbind (fold_result (\<lambda>e. add_edge (remap ! edge_from e) (remap ! edge_to e)
                               (edge_kind e) (edge_evidence e)) (g_edges source) g0) (\<lambda>g1.
     rbind (fold_result (\<lambda>r. add_root (remap ! root_symbol r) (root_kind r)
                               (root_evidence r)) (g_roots source) g1) (\<lambda>g2.
     rbind (fold_result (\<lambda>x. add_escape (remap ! esc_symbol x) (esc_kind x) (esc_evidence x)
                               (map_option (\<lambda>f. remap ! f) (esc_from x)))
              (g_escapes source) g2) (\<lambda>g3.
     fold_result (\<lambda>p. add_suppression (remap ! sup_symbol p) (sup_evidence p))
       (g_suppressions source) g3))))"

section \<open>Inserting a list of facts whose ids are in range\<close>

definition remap_edge :: "nat list \<Rightarrow> edge \<Rightarrow> edge" where
  "remap_edge remap e =
     e\<lparr>edge_from := remap ! edge_from e, edge_to := remap ! edge_to e\<rparr>"

definition remap_root :: "nat list \<Rightarrow> root \<Rightarrow> root" where
  "remap_root remap r = r\<lparr>root_symbol := remap ! root_symbol r\<rparr>"

definition remap_escape :: "nat list \<Rightarrow> escape \<Rightarrow> escape" where
  "remap_escape remap x =
     x\<lparr>esc_symbol := remap ! esc_symbol x,
       esc_from := map_option (\<lambda>f. remap ! f) (esc_from x)\<rparr>"

definition remap_suppression :: "nat list \<Rightarrow> suppression \<Rightarrow> suppression" where
  "remap_suppression remap p = p\<lparr>sup_symbol := remap ! sup_symbol p\<rparr>"

abbreviation push_all :: "'a list \<Rightarrow> 'a list \<Rightarrow> 'a list" where
  "push_all \<equiv> fold push_unique"

lemma set_push_all [simp]: "set (push_all xs ys) = set ys \<union> set xs"
  by (induction xs arbitrary: ys) auto

lemma push_all_fresh: "distinct (ys @ xs) \<Longrightarrow> push_all xs ys = ys @ xs"
  by (induction xs arbitrary: ys) (auto simp: push_unique_def)

lemma push_all_known: "set xs \<subseteq> set ys \<Longrightarrow> push_all xs ys = ys"
  by (induction xs) (auto simp: push_unique_def)

lemma add_edges_in_range:
  assumes "\<And>e. e \<in> set es \<Longrightarrow> remap ! edge_from e < length (g_symbols g) \<and>
             remap ! edge_to e < length (g_symbols g)"
  shows "fold_result (\<lambda>e. add_edge (remap ! edge_from e) (remap ! edge_to e)
           (edge_kind e) (edge_evidence e)) es g =
         Inr (g\<lparr>g_edges := push_all (map (remap_edge remap) es) (g_edges g)\<rparr>)"
  using assms
proof (induction es arbitrary: g)
  case Nil
  then show ?case by simp
next
  case (Cons e es)
  from Cons.prems [of e] have "add_edge (remap ! edge_from e) (remap ! edge_to e) (edge_kind e)
      (edge_evidence e) g = Inr (g\<lparr>g_edges := push_unique (remap_edge remap e) (g_edges g)\<rparr>)"
    by (simp add: add_edge_def remap_edge_def) (cases e, simp)
  with Cons.IH [of "g\<lparr>g_edges := push_unique (remap_edge remap e) (g_edges g)\<rparr>"] Cons.prems
  show ?case by simp
qed

lemma add_roots_in_range:
  assumes "\<And>r. r \<in> set rs \<Longrightarrow> remap ! root_symbol r < length (g_symbols g)"
  shows "fold_result (\<lambda>r. add_root (remap ! root_symbol r) (root_kind r) (root_evidence r)) rs g =
         Inr (g\<lparr>g_roots := push_all (map (remap_root remap) rs) (g_roots g)\<rparr>)"
  using assms
proof (induction rs arbitrary: g)
  case Nil
  then show ?case by simp
next
  case (Cons r rs)
  from Cons.prems [of r] have "add_root (remap ! root_symbol r) (root_kind r) (root_evidence r) g =
      Inr (g\<lparr>g_roots := push_unique (remap_root remap r) (g_roots g)\<rparr>)"
    by (simp add: add_root_def remap_root_def) (cases r, simp)
  with Cons.IH [of "g\<lparr>g_roots := push_unique (remap_root remap r) (g_roots g)\<rparr>"] Cons.prems
  show ?case by simp
qed

lemma add_escapes_in_range:
  assumes "\<And>x. x \<in> set xs \<Longrightarrow> remap ! esc_symbol x < length (g_symbols g) \<and>
             (\<forall>f. esc_from x = Some f \<longrightarrow> remap ! f < length (g_symbols g))"
  shows "fold_result (\<lambda>x. add_escape (remap ! esc_symbol x) (esc_kind x) (esc_evidence x)
           (map_option (\<lambda>f. remap ! f) (esc_from x))) xs g =
         Inr (g\<lparr>g_escapes := push_all (map (remap_escape remap) xs) (g_escapes g)\<rparr>)"
  using assms
proof (induction xs arbitrary: g)
  case Nil
  then show ?case by simp
next
  case (Cons x xs)
  from Cons.prems [of x] have "add_escape (remap ! esc_symbol x) (esc_kind x) (esc_evidence x)
      (map_option (\<lambda>f. remap ! f) (esc_from x)) g =
      Inr (g\<lparr>g_escapes := push_unique (remap_escape remap x) (g_escapes g)\<rparr>)"
    by (auto simp: add_escape_def remap_escape_def split: option.splits) (cases x, simp)+
  moreover have "remap ! esc_symbol y < length (g_symbols g) \<and>
      (\<forall>f. esc_from y = Some f \<longrightarrow> remap ! f < length (g_symbols g))" if "y \<in> set xs" for y
    by (rule Cons.prems) (simp add: that)
  ultimately show ?case
    using Cons.IH [of "g\<lparr>g_escapes := push_unique (remap_escape remap x) (g_escapes g)\<rparr>"]
    by auto
qed

lemma add_suppressions_in_range:
  assumes "\<And>p. p \<in> set ps \<Longrightarrow> remap ! sup_symbol p < length (g_symbols g)"
  shows "fold_result (\<lambda>p. add_suppression (remap ! sup_symbol p) (sup_evidence p)) ps g =
         Inr (g\<lparr>g_suppressions :=
           push_all (map (remap_suppression remap) ps) (g_suppressions g)\<rparr>)"
  using assms
proof (induction ps arbitrary: g)
  case Nil
  then show ?case by simp
next
  case (Cons p ps)
  from Cons.prems [of p] have "add_suppression (remap ! sup_symbol p) (sup_evidence p) g =
      Inr (g\<lparr>g_suppressions := push_unique (remap_suppression remap p) (g_suppressions g)\<rparr>)"
    by (simp add: add_suppression_def remap_suppression_def) (cases p, simp)
  with Cons.IH [of "g\<lparr>g_suppressions :=
      push_unique (remap_suppression remap p) (g_suppressions g)\<rparr>"] Cons.prems
  show ?case by simp
qed

section \<open>The symbol loop\<close>

text \<open>What \<open>remap\<close> promises after the symbols \<open>ss\<close> have been added.\<close>

definition remap_ok :: "symbol list \<Rightarrow> nat list \<Rightarrow> graph \<Rightarrow> bool" where
  "remap_ok ss remap g \<longleftrightarrow> length remap = length ss \<and>
     (\<forall>k < length ss. remap ! k < length (g_symbols g) \<and> key_at g (remap ! k) = sym_key (ss ! k))"

lemma merge_symbols_spec:
  assumes "graph_wf g" "merge_symbols ss ([], g) = Inr (remap, g')"
  shows "graph_wf g' \<and> graph_extends g g' \<and> remap_ok ss remap g' \<and>
    set (keys_of g') = set (keys_of g) \<union> sym_key ` set ss \<and>
    g_edges g' = g_edges g \<and> g_roots g' = g_roots g \<and> g_escapes g' = g_escapes g \<and>
    g_suppressions g' = g_suppressions g"
  using assms(2)
proof (induction ss arbitrary: remap g' rule: rev_induct)
  case Nil
  then show ?case using assms(1) by (simp add: merge_symbols_def remap_ok_def)
next
  case (snoc s ss)
  from snoc.prems obtain r0 g0 i where 0: "merge_symbols ss ([], g) = Inr (r0, g0)"
    and i: "add_or_merge_symbol s g0 = Inr (i, g')" and remap: "remap = r0 @ [i]"
    by (auto simp: merge_symbols_def fold_result_append rbind_eq_Inr)
  note IH = snoc.IH [OF 0]
  note step = add_or_merge_symbol_wf [OF conjunct1 [OF IH] i]
  have "remap_ok (ss @ [s]) remap g'"
    using IH step by (auto simp: remap_ok_def remap nth_append less_Suc_eq graph_extends_key_at
        dest: graph_extends_length order_less_le_trans)
  with IH step show ?case using graph_extends_trans by auto
qed

lemma remap_ok_key:
  assumes "remap_ok (g_symbols s) remap g" "i < length (g_symbols s)"
  shows "remap ! i < length (g_symbols g)" "key_at g (remap ! i) = key_at s i"
  using assms by (simp_all add: remap_ok_def key_at_def)

text \<open>The destination after the symbols are in and every fact has been inserted.\<close>

definition insert_facts :: "graph \<Rightarrow> nat list \<Rightarrow> graph \<Rightarrow> graph" where
  "insert_facts s remap g =
     g\<lparr>g_edges := push_all (map (remap_edge remap) (g_edges s)) (g_edges g),
       g_roots := push_all (map (remap_root remap) (g_roots s)) (g_roots g),
       g_escapes := push_all (map (remap_escape remap) (g_escapes s)) (g_escapes g),
       g_suppressions :=
         push_all (map (remap_suppression remap) (g_suppressions s)) (g_suppressions g)\<rparr>"

lemma merge_graph_unfold:
  assumes "graph_wf d" "graph_wf s"
  shows "merge_graph d s =
    rbind (merge_symbols (g_symbols s) ([], d)) (\<lambda>(remap, g). Inr (insert_facts s remap g))"
proof (cases "merge_symbols (g_symbols s) ([], d)")
  case (Inl e)
  then show ?thesis by (simp add: merge_graph_def)
next
  case (Inr p)
  obtain remap g where p: "p = (remap, g)" by force
  from merge_symbols_spec [OF assms(1)] Inr p
  have ok: "remap_ok (g_symbols s) remap g" by blast
  note in_range = remap_ok_key(1) [OF ok]
  note wf = assms(2) [unfolded graph_wf_def]
  show ?thesis
    using wf by (simp add: merge_graph_def Inr p insert_facts_def in_range
        add_edges_in_range add_roots_in_range add_escapes_in_range add_suppressions_in_range)
qed

section \<open>Facts of the merged graph\<close>

lemma push_all_label_wf:
  assumes "graph_wf s" "graph_wf g" "remap_ok (g_symbols s) remap g"
  shows "graph_wf (insert_facts s remap g) \<and> graph_extends g (insert_facts s remap g) \<and>
    edge_facts (insert_facts s remap g) = edge_facts g \<union> edge_facts s \<and>
    root_facts (insert_facts s remap g) = root_facts g \<union> root_facts s \<and>
    escape_facts (insert_facts s remap g) = escape_facts g \<union> escape_facts s \<and>
    suppression_facts (insert_facts s remap g) = suppression_facts g \<union> suppression_facts s"
proof -
  let ?h = "insert_facts s remap g"
  note range = remap_ok_key(1) [OF assms(3)] and key = remap_ok_key(2) [OF assms(3)]
  note ids = assms(1) [unfolded graph_wf_def]
  have at: "key_at ?h = key_at g" by (simp add: insert_facts_def key_at_def fun_eq_iff)
  have distinct: "distinct (push_all xs ys) = distinct ys" for xs ys :: "'x list"
    by (induction xs arbitrary: ys) auto
  have wf: "graph_wf ?h"
    using assms(2) ids range unfolding graph_wf_def at
    by (auto simp: insert_facts_def distinct remap_edge_def remap_root_def remap_escape_def
        remap_suppression_def)
  have "edge_label g ` remap_edge remap ` set (g_edges s) = edge_facts s"
    unfolding edge_facts_def image_image using ids key
    by (intro image_cong) (auto simp: edge_label_def remap_edge_def)
  moreover have "root_label g ` remap_root remap ` set (g_roots s) = root_facts s"
    unfolding root_facts_def image_image using ids key
    by (intro image_cong) (auto simp: root_label_def remap_root_def)
  moreover have "escape_label g ` remap_escape remap ` set (g_escapes s) = escape_facts s"
    unfolding escape_facts_def image_image using ids key
    by (intro image_cong)
      (auto simp: escape_label_def remap_escape_def option.map_comp intro!: option.map_cong)
  moreover have "suppression_label g ` remap_suppression remap ` set (g_suppressions s) =
      suppression_facts s"
    unfolding suppression_facts_def image_image using ids key
    by (intro image_cong) (auto simp: suppression_label_def remap_suppression_def)
  moreover have "edge_label ?h = edge_label g" "root_label ?h = root_label g"
    "escape_label ?h = escape_label g" "suppression_label ?h = suppression_label g"
    by (simp_all add: fun_eq_iff edge_label_def root_label_def escape_label_def
        suppression_label_def at)
  ultimately show ?thesis using wf
    by (simp add: edge_facts_def root_facts_def escape_facts_def suppression_facts_def
        image_Un graph_extends_def) (simp add: insert_facts_def keys_of_def image_Un)
qed

section \<open>Errors and untouched symbols\<close>

lemma merge_symbol_Inl:
  "merge_symbol t x = Inl e \<Longrightarrow> \<exists>field. (False, field) \<in> set (merge_checks t x) \<and>
     e = incompatible field (sym_key t)"
  by (auto simp: merge_symbol_def find_Some_iff split: option.splits) (metis nth_mem)

lemma extends_same_facts:
  assumes "graph_wf d" "graph_extends d g"
  shows "g_edges g = g_edges d \<Longrightarrow> edge_facts g = edge_facts d"
    and "g_roots g = g_roots d \<Longrightarrow> root_facts g = root_facts d"
    and "g_escapes g = g_escapes d \<Longrightarrow> escape_facts g = escape_facts d"
    and "g_suppressions g = g_suppressions d \<Longrightarrow> suppression_facts g = suppression_facts d"
proof -
  note key = graph_extends_key_at [OF assms(2)]
  note ids = assms(1) [unfolded graph_wf_def]
  show "edge_facts g = edge_facts d" if "g_edges g = g_edges d"
    unfolding edge_facts_def that using ids key
    by (intro image_cong) (auto simp: edge_label_def)
  show "root_facts g = root_facts d" if "g_roots g = g_roots d"
    unfolding root_facts_def that using ids key
    by (intro image_cong) (auto simp: root_label_def)
  show "escape_facts g = escape_facts d" if "g_escapes g = g_escapes d"
    unfolding escape_facts_def that
  proof (intro image_cong refl)
    fix x assume "x \<in> set (g_escapes d)"
    then have "esc_symbol x < length (g_symbols d)"
      and "\<forall>f \<in> set_option (esc_from x). f < length (g_symbols d)" using ids by auto
    then have "map_option (key_at g) (esc_from x) = map_option (key_at d) (esc_from x)"
      and "key_at g (esc_symbol x) = key_at d (esc_symbol x)"
      using key by (auto intro: option.map_cong0)
    then show "escape_label g x = escape_label d x" by (simp add: escape_label_def)
  qed
  show "suppression_facts g = suppression_facts d" if "g_suppressions g = g_suppressions d"
    unfolding suppression_facts_def that using ids key
    by (intro image_cong) (auto simp: suppression_label_def)
qed

lemma add_or_merge_symbol_untouched:
  assumes "graph_wf g" "add_or_merge_symbol s g = Inr (i, g')" "j < length (g_symbols g)"
    and "key_at g j \<noteq> sym_key s"
  shows "g_symbols g' ! j = g_symbols g ! j"
proof (cases "g_key_to_id g (sym_key s)")
  case None
  with assms(2,3) show ?thesis
    by (auto simp: add_or_merge_symbol_def Let_def nth_append split: if_splits)
next
  case (Some k)
  with assms(1) have "key_at g k = sym_key s" by (simp add: graph_wf_index)
  with assms(4) have "k \<noteq> j" by auto
  with Some assms(2) show ?thesis
    by (auto simp: add_or_merge_symbol_def rbind_eq_Inr split: if_splits)
qed

lemma merge_symbols_untouched:
  assumes "graph_wf d" "merge_symbols ss ([], d) = Inr (remap, g)"
    and "j < length (g_symbols d)" "key_at d j \<notin> sym_key ` set ss"
  shows "g_symbols g ! j = g_symbols d ! j"
  using assms(2,4)
proof (induction ss arbitrary: remap g rule: rev_induct)
  case Nil
  then show ?case by (simp add: merge_symbols_def)
next
  case (snoc s ss)
  from snoc.prems obtain r0 g0 i where 0: "merge_symbols ss ([], d) = Inr (r0, g0)"
    and i: "add_or_merge_symbol s g0 = Inr (i, g)"
    by (auto simp: merge_symbols_def fold_result_append rbind_eq_Inr)
  note step = merge_symbols_spec [OF assms(1) 0]
  have "j < length (g_symbols g0)" "key_at g0 j = key_at d j"
    using step assms(3) graph_extends_length [of d g0] graph_extends_key_at [of d g0 j] by simp_all
  moreover have "key_at d j \<notin> sym_key ` set ss" "key_at d j \<noteq> sym_key s"
    using snoc.prems(2) by simp_all
  ultimately show ?case
    using add_or_merge_symbol_untouched [OF conjunct1 [OF step] i, of j] snoc.IH [OF 0] by simp
qed

section \<open>Properties of merging\<close>

lemma merge_graph_cases:
  assumes "graph_wf d" "graph_wf s" "merge_graph d s = Inr g"
  obtains remap g0 where "merge_symbols (g_symbols s) ([], d) = Inr (remap, g0)"
    and "g = insert_facts s remap g0" and "graph_wf g0" and "graph_extends d g0"
    and "remap_ok (g_symbols s) remap g0"
    and "set (keys_of g0) = set (keys_of d) \<union> set (keys_of s)"
    and "g_edges g0 = g_edges d" "g_roots g0 = g_roots d" "g_escapes g0 = g_escapes d"
    "g_suppressions g0 = g_suppressions d"
  using assms merge_symbols_spec [OF assms(1)]
  by (auto simp: merge_graph_unfold rbind_eq_Inr keys_of_def)

lemma merged_facts:
  assumes "graph_wf d" "graph_wf s" "merge_graph d s = Inr g"
  shows "graph_wf g \<and> graph_extends d g \<and>
    set (keys_of g) = set (keys_of d) \<union> set (keys_of s) \<and>
    edge_facts g = edge_facts d \<union> edge_facts s \<and>
    root_facts g = root_facts d \<union> root_facts s \<and>
    escape_facts g = escape_facts d \<union> escape_facts s \<and>
    suppression_facts g = suppression_facts d \<union> suppression_facts s"
proof -
  from merge_graph_cases [OF assms] obtain remap g0 where
    g: "g = insert_facts s remap g0" and wf0: "graph_wf g0" and ext: "graph_extends d g0"
    and ok: "remap_ok (g_symbols s) remap g0"
    and keys: "set (keys_of g0) = set (keys_of d) \<union> set (keys_of s)"
    and same: "g_edges g0 = g_edges d" "g_roots g0 = g_roots d" "g_escapes g0 = g_escapes d"
      "g_suppressions g0 = g_suppressions d" by blast
  note facts = push_all_label_wf [OF assms(2) wf0 ok, folded g]
  have "keys_of g = keys_of g0" by (simp add: g insert_facts_def keys_of_def)
  moreover have "edge_facts g0 = edge_facts d" "root_facts g0 = root_facts d"
    "escape_facts g0 = escape_facts d" "suppression_facts g0 = suppression_facts d"
    using extends_same_facts [OF assms(1) ext] same by simp_all
  ultimately show ?thesis
    using facts keys graph_extends_trans [OF ext] by simp
qed

text \<open>
  C3: Merging one translation unit's graph into another keeps the representation
  invariant, keeps every id of the destination, and yields exactly the union: the keys of
  the result are the keys of both graphs, and its edges, roots, escapes and suppressions,
  with symbols named by key, are those of both graphs and no others.
\<close>
theorem merge_graph_facts:
  assumes "graph_wf d" "graph_wf s" "merge_graph d s = Inr g"
  shows "graph_wf g \<and> graph_extends d g \<and>
    set (keys_of g) = set (keys_of d) \<union> set (keys_of s) \<and>
    edge_facts g = edge_facts d \<union> edge_facts s \<and>
    root_facts g = root_facts d \<union> root_facts s \<and>
    escape_facts g = escape_facts d \<union> escape_facts s \<and>
    suppression_facts g = suppression_facts d \<union> suppression_facts s"
  by (rule merged_facts [OF assms])

lemma merge_sample: "\<exists>g. merge_graph sample_program sample_unit = Inr g"
  by (simp add: merge_graph_def merge_symbols_def  graph_defs merge_symbol_def
      merge_checks_def sample_program_def sample_unit_def sample_defs Let_def emplace_def)

lemma merge_graph_facts_witness:
  "\<exists>g. merge_graph sample_program sample_unit = Inr g \<and> graph_wf g \<and>
     set (keys_of g) = set (keys_of sample_program) \<union> set (keys_of sample_unit) \<and>
     edge_facts g = edge_facts sample_program \<union> edge_facts sample_unit"
proof -
  obtain g where g: "merge_graph sample_program sample_unit = Inr g" using merge_sample by blast
  from merge_graph_facts [OF sample_program_wf sample_unit_wf g] g show ?thesis by blast
qed

text \<open>
  Merging throws for one reason only: a symbol of the source and a symbol of the
  destination share a stable key but contradict each other in a checked field. No id of a
  well-formed graph is ever out of range during the merge.
\<close>
theorem merge_graph_conflict:
  assumes "graph_wf d" "graph_wf s" "merge_graph d s = Inl e"
  shows "\<exists>t \<in> set (g_symbols d). \<exists>x \<in> set (g_symbols s). sym_key t = sym_key x \<and>
    (\<exists>field. (False, field) \<in> set (merge_checks t x) \<and>
      e = incompatible field (sym_key x))"
proof -
  from assms have "merge_symbols (g_symbols s) ([], d) = Inl e"
    by (auto simp: merge_graph_unfold rbind_eq_Inl split: prod.splits)
  then obtain ss x ss' remap g0 where split: "g_symbols s = ss @ x # ss'"
    and 0: "merge_symbols ss ([], d) = Inr (remap, g0)"
    and e: "add_or_merge_symbol x g0 = Inl e"
    using fold_result_error [of _ "g_symbols s" "([], d)" e]
    unfolding merge_symbols_def by (fastforce simp: rbind_eq_Inl)
  note step = merge_symbols_spec [OF assms(1) 0]
  have x: "sym_key x \<noteq> []" "sym_scope x \<noteq> Excluded"
    using assms(2) split by (simp_all add: graph_wf_def)
  with e obtain i where i: "g_key_to_id g0 (sym_key x) = Some i"
    and err: "merge_symbol (g_symbols g0 ! i) x = Inl e"
    by (auto simp: add_or_merge_symbol_def rbind_eq_Inl Let_def split: option.splits if_splits)
  then have i0: "i < length (g_symbols g0)" "key_at g0 i = sym_key x"
    using step by (simp_all add: graph_wf_index)
  have "sym_key x \<notin> sym_key ` set ss"
    using graph_wf_distinct_keys [OF assms(2)] by (simp add: keys_of_def split)
  then have "sym_key x \<in> set (keys_of d)"
    using step i0 by (metis UnE length_keys_of nth_keys_of nth_mem)
  then obtain j where j: "j < length (g_symbols d)" "key_at d j = sym_key x"
    by (metis in_set_conv_nth length_keys_of nth_keys_of)
  have "j < length (g_symbols g0)" "key_at g0 j = sym_key x"
    using step j graph_extends_length [of d g0] graph_extends_key_at [of d g0 j] by simp_all
  then have ji: "j = i"
    using step i0 graph_wf_key_inj [of g0 j i] by simp
  have "g_symbols g0 ! i = g_symbols d ! i"
    using merge_symbols_untouched [OF assms(1) 0] j ji \<open>sym_key x \<notin> sym_key ` set ss\<close> by metis
  with err ji have "merge_symbol (g_symbols d ! j) x = Inl e" by simp
  from merge_symbol_Inl [OF this] j
  have "\<exists>field. (False, field) \<in> set (merge_checks (g_symbols d ! j) x) \<and>
      e = incompatible field (sym_key x)" by (simp add: key_at_def)
  moreover have "g_symbols d ! j \<in> set (g_symbols d)" "x \<in> set (g_symbols s)"
    "sym_key (g_symbols d ! j) = sym_key x"
    using j split by (simp_all add: key_at_def)
  ultimately show ?thesis by blast
qed

lemma merge_conflict_sample:
  "merge_graph sample_program sample_conflict = Inl (incompatible ''kind'' ''helper'')"
  by (simp add: merge_graph_def merge_symbols_def  graph_defs merge_symbol_def
      merge_checks_def sample_program_def sample_conflict_def empty_graph_def sample_defs Let_def
      emplace_def)

lemma merge_graph_conflict_witness:
  "\<exists>t \<in> set (g_symbols sample_program). \<exists>x \<in> set (g_symbols sample_conflict).
     sym_key t = sym_key x \<and> (\<exists>field. (False, field) \<in> set (merge_checks t x))"
  using merge_graph_conflict [OF sample_program_wf sample_conflict_wf merge_conflict_sample] by blast

end
