(* ===== verification/Graph_Canonical.thy ===== *)
theory Graph_Canonical
  imports Graph_Merge
begin

text \<open>
  \<open>Graph::canonicalize\<close> of \<open>src/graph.cpp\<close>: the symbols are renumbered in key order, every
  fact is rewritten to the new ids, and each fact list is sorted. The theorems say that the
  content is untouched and that the outcome depends on the content only, not on the order
  in which symbols and facts were inserted.
\<close>

section \<open>The operation\<close>

definition edge_sort_key :: "edge \<Rightarrow> nat \<times> nat \<times> edge_kind \<times> string \<times> string" where
  "edge_sort_key e =
     (edge_from e, edge_to e, edge_kind e, ev_provider (edge_evidence e),
      ev_reason (edge_evidence e))"

definition root_sort_key :: "root \<Rightarrow> nat \<times> root_kind \<times> string \<times> string" where
  "root_sort_key r =
     (root_symbol r, root_kind r, ev_provider (root_evidence r), ev_reason (root_evidence r))"

definition escape_sort_key ::
    "escape \<Rightarrow> nat \<times> nat option \<times> escape_kind \<times> string \<times> string" where
  "escape_sort_key x =
     (esc_symbol x, esc_from x, esc_kind x, ev_provider (esc_evidence x),
      ev_reason (esc_evidence x))"

definition suppression_sort_key :: "suppression \<Rightarrow> nat \<times> string \<times> string" where
  "suppression_sort_key p =
     (sup_symbol p, ev_provider (sup_evidence p), ev_reason (sup_evidence p))"

definition canonical_order :: "graph \<Rightarrow> nat list" where
  "canonical_order g = sort_key (\<lambda>i. sym_key (g_symbols g ! i)) [0..<length (g_symbols g)]"

definition inverse_order :: "nat list \<Rightarrow> nat list" where
  "inverse_order order =
     fold (\<lambda>i remap. remap[order ! i := i]) [0..<length order] (replicate (length order) 0)"

definition index_keys :: "symbol list \<Rightarrow> (string \<rightharpoonup> nat)" where
  "index_keys ss = fold (\<lambda>i. emplace (sym_key (ss ! i)) i) [0..<length ss] Map.empty"

definition canonicalize :: "graph \<Rightarrow> graph" where
  "canonicalize g =
     (let order = canonical_order g;
          sorted_symbols = map (\<lambda>i. g_symbols g ! i) order;
          remap = inverse_order order in
      \<lparr>g_symbols = sorted_symbols,
       g_edges = sort_key edge_sort_key (map (remap_edge remap) (g_edges g)),
       g_key_to_id = index_keys sorted_symbols,
       g_roots = sort_key root_sort_key (map (remap_root remap) (g_roots g)),
       g_escapes = sort_key escape_sort_key (map (remap_escape remap) (g_escapes g)),
       g_suppressions =
         sort_key suppression_sort_key (map (remap_suppression remap) (g_suppressions g))\<rparr>)"

section \<open>The sort keys identify a fact\<close>

lemma edge_sort_key_inject [simp]: "edge_sort_key a = edge_sort_key b \<longleftrightarrow> a = b"
  by (cases a; cases b; cases "edge_evidence a"; cases "edge_evidence b")
    (auto simp: edge_sort_key_def)

lemma root_sort_key_inject [simp]: "root_sort_key a = root_sort_key b \<longleftrightarrow> a = b"
  by (cases a; cases b; cases "root_evidence a"; cases "root_evidence b")
    (auto simp: root_sort_key_def)

lemma escape_sort_key_inject [simp]: "escape_sort_key a = escape_sort_key b \<longleftrightarrow> a = b"
  by (cases a; cases b; cases "esc_evidence a"; cases "esc_evidence b")
    (auto simp: escape_sort_key_def)

lemma suppression_sort_key_inject [simp]:
  "suppression_sort_key a = suppression_sort_key b \<longleftrightarrow> a = b"
  by (cases a; cases b; cases "sup_evidence a"; cases "sup_evidence b")
    (auto simp: suppression_sort_key_def)

lemma sort_key_inj_unique:
  assumes "set xs = set ys" "distinct xs" "distinct ys" "\<And>a b. f a = f b \<longleftrightarrow> a = b"
  shows "sort_key f xs = sort_key f ys"
  by (rule sort_key_unique [OF assms(1-3)]) (simp add: inj_on_def assms(4))

section \<open>The renumbering\<close>

lemma inverse_order_partial:
  assumes "distinct order" "\<And>i. i \<in> set order \<Longrightarrow> i < length order" "n \<le> length order"
  shows "length (fold (\<lambda>i remap. remap[order ! i := i]) [0..<n] (replicate (length order) 0)) =
      length order \<and>
    (\<forall>i < n. fold (\<lambda>i remap. remap[order ! i := i]) [0..<n] (replicate (length order) 0) !
      (order ! i) = i)"
  using assms(3)
proof (induction n)
  case 0
  then show ?case by simp
next
  case (Suc n)
  then have "n < length order" by simp
  with Suc assms show ?case
    by (auto simp: less_Suc_eq nth_list_update nth_eq_iff_index_eq)
qed

lemma inverse_order_nth:
  assumes "distinct order" "\<And>i. i \<in> set order \<Longrightarrow> i < length order" "i < length order"
  shows "inverse_order order ! (order ! i) = i"
  using inverse_order_partial [OF assms(1,2), of "length order"] assms(3)
  by (simp add: inverse_order_def)

lemma canonical_order_simps [simp]:
  "length (canonical_order g) = length (g_symbols g)"
  "set (canonical_order g) = {0..<length (g_symbols g)}"
  "distinct (canonical_order g)"
  by (simp_all add: canonical_order_def)

abbreviation canonical_remap :: "graph \<Rightarrow> nat list" where
  "canonical_remap g \<equiv> inverse_order (canonical_order g)"

text \<open>Old id \<open>i\<close> becomes \<open>canonical_remap g ! i\<close>, a valid id that names the same symbol.\<close>

lemma canonical_remap_nth:
  assumes "i < length (g_symbols g)"
  shows "canonical_remap g ! i < length (g_symbols g)"
    and "canonical_order g ! (canonical_remap g ! i) = i"
proof -
  have "i \<in> set (canonical_order g)" using assms by simp
  then obtain j where j: "j < length (g_symbols g)" "canonical_order g ! j = i"
    by (metis in_set_conv_nth canonical_order_simps(1))
  then have "canonical_remap g ! i = j"
    using inverse_order_nth [of "canonical_order g" j] by auto
  with j show "canonical_remap g ! i < length (g_symbols g)"
    and "canonical_order g ! (canonical_remap g ! i) = i" by simp_all
qed

lemma canonicalize_symbols:
  "g_symbols (canonicalize g) = map (\<lambda>i. g_symbols g ! i) (canonical_order g)"
  by (simp add: canonicalize_def Let_def)

lemma set_canonicalize_symbols: "set (g_symbols (canonicalize g)) = set (g_symbols g)"
  by (simp add: canonicalize_symbols) (metis map_nth set_map set_upt)

lemma length_canonicalize_symbols [simp]:
  "length (g_symbols (canonicalize g)) = length (g_symbols g)"
  by (simp add: canonicalize_symbols)

lemma canonical_remap_key:
  "i < length (g_symbols g) \<Longrightarrow> key_at (canonicalize g) (canonical_remap g ! i) = key_at g i"
  by (simp add: key_at_def canonicalize_symbols canonical_remap_nth)

lemma sorted_keys_canonicalize: "sorted (keys_of (canonicalize g))"
  by (simp add: keys_of_def canonicalize_symbols comp_def canonical_order_def)

lemma index_keys_partial:
  assumes "distinct (map sym_key ss)" "n \<le> length ss"
  shows "fold (\<lambda>i. emplace (sym_key (ss ! i)) i) [0..<n] Map.empty k = Some j \<longleftrightarrow>
    j < n \<and> sym_key (ss ! j) = k"
  using assms(2)
proof (induction n arbitrary: j k)
  case 0
  then show ?case by simp
next
  case (Suc n)
  then have n: "n < length ss" by simp
  let ?m = "fold (\<lambda>i. emplace (sym_key (ss ! i)) i) [0..<n] Map.empty"
  have IH: "?m k = Some j \<longleftrightarrow> j < n \<and> sym_key (ss ! j) = k" for k j
    using Suc by simp
  have uniq: "sym_key (ss ! j) = sym_key (ss ! n) \<Longrightarrow> j < n \<Longrightarrow> False" for j
    using assms(1) n nth_eq_iff_index_eq [of "map sym_key ss" j n] by simp
  have none: "?m (sym_key (ss ! n)) = None"
  proof (cases "?m (sym_key (ss ! n))")
    case (Some i)
    then show ?thesis using IH uniq by blast
  qed
  have step: "fold (\<lambda>i. emplace (sym_key (ss ! i)) i) [0..<Suc n] Map.empty k =
      (if k = sym_key (ss ! n) then Some n else ?m k)"
    using none by (simp add: emplace_apply [of _ _ ?m])
  show ?case
    unfolding step using IH [of k j] uniq by (auto simp: less_Suc_eq)
qed

lemma index_keys_Some:
  assumes "distinct (map sym_key ss)"
  shows "index_keys ss k = Some j \<longleftrightarrow> j < length ss \<and> sym_key (ss ! j) = k"
  using index_keys_partial [OF assms] by (simp add: index_keys_def)

section \<open>Canonicalization keeps the content\<close>

lemma canonical_fact_sets:
  "set (g_edges (canonicalize g)) = remap_edge (canonical_remap g) ` set (g_edges g)"
  "set (g_roots (canonicalize g)) = remap_root (canonical_remap g) ` set (g_roots g)"
  "set (g_escapes (canonicalize g)) = remap_escape (canonical_remap g) ` set (g_escapes g)"
  "set (g_suppressions (canonicalize g)) =
     remap_suppression (canonical_remap g) ` set (g_suppressions g)"
  by (simp_all add: canonicalize_def Let_def)

lemma canonicalize_labels:
  assumes "graph_wf g"
  shows "e \<in> set (g_edges g) \<Longrightarrow>
      edge_label (canonicalize g) (remap_edge (canonical_remap g) e) = edge_label g e"
    and "r \<in> set (g_roots g) \<Longrightarrow>
      root_label (canonicalize g) (remap_root (canonical_remap g) r) = root_label g r"
    and "x \<in> set (g_escapes g) \<Longrightarrow>
      escape_label (canonicalize g) (remap_escape (canonical_remap g) x) = escape_label g x"
    and "p \<in> set (g_suppressions g) \<Longrightarrow>
      suppression_label (canonicalize g) (remap_suppression (canonical_remap g) p) =
      suppression_label g p"
proof -
  note ids = assms [unfolded graph_wf_def]
  show "e \<in> set (g_edges g) \<Longrightarrow>
      edge_label (canonicalize g) (remap_edge (canonical_remap g) e) = edge_label g e"
    using ids by (simp add: edge_label_def remap_edge_def canonical_remap_key)
  show "r \<in> set (g_roots g) \<Longrightarrow>
      root_label (canonicalize g) (remap_root (canonical_remap g) r) = root_label g r"
    using ids by (simp add: root_label_def remap_root_def canonical_remap_key)
  show "x \<in> set (g_escapes g) \<Longrightarrow>
      escape_label (canonicalize g) (remap_escape (canonical_remap g) x) = escape_label g x"
    using ids by (cases "esc_from x")
      (simp_all add: escape_label_def remap_escape_def canonical_remap_key)
  show "p \<in> set (g_suppressions g) \<Longrightarrow>
      suppression_label (canonicalize g) (remap_suppression (canonical_remap g) p) =
      suppression_label g p"
    using ids by (simp add: suppression_label_def remap_suppression_def canonical_remap_key)
qed

lemma canonicalize_fact_labels:
  assumes "graph_wf g"
  shows "edge_facts (canonicalize g) = edge_facts g" "root_facts (canonicalize g) = root_facts g"
    "escape_facts (canonicalize g) = escape_facts g"
    "suppression_facts (canonicalize g) = suppression_facts g"
  using canonicalize_labels [OF assms]
  by (simp_all add: edge_facts_def root_facts_def escape_facts_def suppression_facts_def
      canonical_fact_sets image_image cong: image_cong)

lemma canonicalize_distinct_facts:
  assumes "graph_wf g"
  shows "distinct (g_edges (canonicalize g))" "distinct (g_roots (canonicalize g))"
    "distinct (g_escapes (canonicalize g))" "distinct (g_suppressions (canonicalize g))"
proof -
  note labels = canonicalize_labels [OF assms]
  note d = assms [unfolded graph_wf_def]
  have "inj_on (remap_edge (canonical_remap g)) (set (g_edges g))"
    using edge_label_inj [OF assms] labels(1) by (metis inj_on_def)
  moreover have "inj_on (remap_root (canonical_remap g)) (set (g_roots g))"
    using root_label_inj [OF assms] labels(2) by (metis inj_on_def)
  moreover have "inj_on (remap_escape (canonical_remap g)) (set (g_escapes g))"
    using escape_label_inj [OF assms] labels(3) by (metis inj_on_def)
  moreover have "inj_on (remap_suppression (canonical_remap g)) (set (g_suppressions g))"
    using suppression_label_inj [OF assms] labels(4) by (metis inj_on_def)
  ultimately show "distinct (g_edges (canonicalize g))" "distinct (g_roots (canonicalize g))"
    "distinct (g_escapes (canonicalize g))" "distinct (g_suppressions (canonicalize g))"
    using d by (simp_all add: canonicalize_def Let_def distinct_map)
qed

lemma distinct_canonicalize_keys:
  assumes "graph_wf g"
  shows "distinct (keys_of (canonicalize g))"
proof -
  have "inj_on (\<lambda>i. sym_key (g_symbols g ! i)) {0..<length (g_symbols g)}"
    using graph_wf_key_inj [OF assms, unfolded key_at_def] by (auto simp: inj_on_def)
  then show ?thesis
    by (simp add: keys_of_def canonicalize_symbols comp_def distinct_map)
qed

lemma graph_wf_canonicalize:
  assumes "graph_wf g"
  shows "graph_wf (canonicalize g)"
proof -
  note ids = assms [unfolded graph_wf_def]
  have key: "g_key_to_id (canonicalize g) k = Some i \<longleftrightarrow>
      i < length (g_symbols (canonicalize g)) \<and> key_at (canonicalize g) i = k" for k i
    using index_keys_Some [of "g_symbols (canonicalize g)"] distinct_canonicalize_keys [OF assms]
    by (simp add: keys_of_def key_at_def) (simp add: canonicalize_def Let_def)
  show ?thesis
    unfolding graph_wf_def
    using ids key canonicalize_distinct_facts [OF assms]
    by (auto simp: set_canonicalize_symbols canonical_fact_sets remap_edge_def remap_root_def
        remap_escape_def remap_suppression_def canonical_remap_nth(1))
qed

text \<open>
  Canonicalizing a graph keeps its representation invariant and its content (the same
  symbols, and the same edges, roots, escapes and suppressions between them), and leaves
  the symbols in strictly increasing key order.
\<close>
theorem canonicalize_content:
  assumes "graph_wf g"
  shows "graph_wf (canonicalize g) \<and> set (g_symbols (canonicalize g)) = set (g_symbols g) \<and>
    sorted (keys_of (canonicalize g)) \<and> distinct (keys_of (canonicalize g)) \<and>
    edge_facts (canonicalize g) = edge_facts g \<and> root_facts (canonicalize g) = root_facts g \<and>
    escape_facts (canonicalize g) = escape_facts g \<and>
    suppression_facts (canonicalize g) = suppression_facts g"
  by (intro conjI graph_wf_canonicalize set_canonicalize_symbols sorted_keys_canonicalize
      distinct_canonicalize_keys canonicalize_fact_labels assms)

lemma canonicalize_content_witness:
  "graph_wf (canonicalize sample_reordered) \<and>
   edge_facts (canonicalize sample_reordered) = edge_facts sample_reordered"
  using canonicalize_content [OF sample_reordered_wf] by blast

section \<open>The canonical form depends on the content only\<close>

definition same_content :: "graph \<Rightarrow> graph \<Rightarrow> bool" where
  "same_content g h \<longleftrightarrow>
     set (g_symbols g) = set (g_symbols h) \<and> edge_facts g = edge_facts h \<and>
     root_facts g = root_facts h \<and> escape_facts g = escape_facts h \<and>
     suppression_facts g = suppression_facts h"

lemma canonical_symbols_unique:
  assumes "graph_wf g" "graph_wf h" "set (g_symbols g) = set (g_symbols h)"
  shows "g_symbols (canonicalize g) = g_symbols (canonicalize h)"
proof -
  have keys: "keys_of (canonicalize g) = keys_of (canonicalize h)"
    by (rule sorted_distinct_set_unique)
      (simp_all add: sorted_keys_canonicalize distinct_canonicalize_keys assms(1,2),
       simp add: keys_of_def set_canonicalize_symbols assms(3))
  have "inj_on sym_key (set (g_symbols (canonicalize g)) \<union> set (g_symbols (canonicalize h)))"
    using distinct_canonicalize_keys [OF assms(1)]
    by (simp add: set_canonicalize_symbols assms(3) keys_of_def distinct_map)
  then show ?thesis
    using keys by (simp add: keys_of_def inj_on_map_eq_map)
qed

lemma label_image_unique:
  assumes "f ` A = f ` B" "inj_on f A" "inj_on f B" "inj_on f (A \<union> B)"
  shows "A = B"
  using assms inj_on_Un_image_eq_iff by metis

text \<open>A label determines the fact in any graph with the same symbol vector.\<close>

lemma facts_unique:
  assumes g: "graph_wf g" and h: "graph_wf h" and syms: "g_symbols g = g_symbols h"
  shows "edge_facts g = edge_facts h \<Longrightarrow> set (g_edges g) = set (g_edges h)"
    and "root_facts g = root_facts h \<Longrightarrow> set (g_roots g) = set (g_roots h)"
    and "escape_facts g = escape_facts h \<Longrightarrow> set (g_escapes g) = set (g_escapes h)"
    and "suppression_facts g = suppression_facts h \<Longrightarrow>
      set (g_suppressions g) = set (g_suppressions h)"
proof -
  let ?u = "g\<lparr>g_edges := remdups (g_edges g @ g_edges h), g_roots := remdups (g_roots g @ g_roots h),
    g_escapes := remdups (g_escapes g @ g_escapes h),
    g_suppressions := remdups (g_suppressions g @ g_suppressions h)\<rparr>"
  have at: "key_at h = key_at g" "key_at ?u = key_at g" by (simp_all add: fun_eq_iff key_at_def syms)
  have u: "graph_wf ?u"
    using g h syms unfolding graph_wf_def at by auto
  have labels: "edge_label ?u = edge_label g" "edge_label h = edge_label g"
    "root_label ?u = root_label g" "root_label h = root_label g"
    "escape_label ?u = escape_label g" "escape_label h = escape_label g"
    "suppression_label ?u = suppression_label g" "suppression_label h = suppression_label g"
    by (simp_all add: fun_eq_iff edge_label_def root_label_def escape_label_def
        suppression_label_def at)
  show "edge_facts g = edge_facts h \<Longrightarrow> set (g_edges g) = set (g_edges h)"
    using edge_label_inj [OF u] edge_label_inj [OF g] edge_label_inj [OF h]
    by (intro label_image_unique [of "edge_label g"]) (simp_all add: edge_facts_def labels)
  show "root_facts g = root_facts h \<Longrightarrow> set (g_roots g) = set (g_roots h)"
    using root_label_inj [OF u] root_label_inj [OF g] root_label_inj [OF h]
    by (intro label_image_unique [of "root_label g"]) (simp_all add: root_facts_def labels)
  show "escape_facts g = escape_facts h \<Longrightarrow> set (g_escapes g) = set (g_escapes h)"
    using escape_label_inj [OF u] escape_label_inj [OF g] escape_label_inj [OF h]
    by (intro label_image_unique [of "escape_label g"]) (simp_all add: escape_facts_def labels)
  show "suppression_facts g = suppression_facts h \<Longrightarrow>
      set (g_suppressions g) = set (g_suppressions h)"
    using suppression_label_inj [OF u] suppression_label_inj [OF g] suppression_label_inj [OF h]
    by (intro label_image_unique [of "suppression_label g"])
      (simp_all add: suppression_facts_def labels)
qed

lemma sorted_list_unique:
  assumes "set xs = set ys" "distinct xs" "distinct ys" "sorted (map f xs)" "sorted (map f ys)"
    and "\<And>a b. f a = f b \<longleftrightarrow> a = b"
  shows "xs = ys"
proof -
  have "map f xs = map f ys"
    by (rule sorted_distinct_set_unique)
      (use assms in \<open>simp_all add: distinct_map inj_on_def\<close>)
  moreover have "inj_on f (set xs \<union> set ys)" using assms(6) by (auto simp: inj_on_def)
  ultimately show ?thesis by (simp add: inj_on_map_eq_map)
qed

lemma canonical_form_unique:
  assumes "graph_wf g" "graph_wf h" "same_content g h"
  shows "canonicalize g = canonicalize h"
proof -
  let ?g = "canonicalize g" and ?h = "canonicalize h"
  note c = assms(3) [unfolded same_content_def]
  have wf: "graph_wf ?g" "graph_wf ?h" using assms by (simp_all add: graph_wf_canonicalize)
  have syms: "g_symbols ?g = g_symbols ?h"
    using canonical_symbols_unique [OF assms(1,2)] c by blast
  note facts = facts_unique [OF wf syms, unfolded canonicalize_fact_labels [OF assms(1)]
      canonicalize_fact_labels [OF assms(2)]]
  note d = canonicalize_distinct_facts [OF assms(1)] canonicalize_distinct_facts [OF assms(2)]
  have "g_edges ?g = g_edges ?h"
    by (rule sorted_list_unique [where f = edge_sort_key])
      (use c facts(1) d in blast, use d in blast, use d in blast,
       simp_all add: canonicalize_def Let_def)
  moreover have "g_roots ?g = g_roots ?h"
    by (rule sorted_list_unique [where f = root_sort_key])
      (use c facts(2) d in blast, use d in blast, use d in blast,
       simp_all add: canonicalize_def Let_def)
  moreover have "g_escapes ?g = g_escapes ?h"
    by (rule sorted_list_unique [where f = escape_sort_key])
      (use c facts(3) d in blast, use d in blast, use d in blast,
       simp_all add: canonicalize_def Let_def)
  moreover have "g_suppressions ?g = g_suppressions ?h"
    by (rule sorted_list_unique [where f = suppression_sort_key])
      (use c facts(4) d in blast, use d in blast, use d in blast,
       simp_all add: canonicalize_def Let_def)
  moreover have "g_key_to_id ?g = g_key_to_id ?h"
    using syms by (simp add: canonicalize_def Let_def)
  ultimately show ?thesis using syms by simp
qed

lemma same_content_canonicalize: "graph_wf g \<Longrightarrow> same_content (canonicalize g) g"
  by (simp add: same_content_def set_canonicalize_symbols canonicalize_fact_labels)

lemma canonicalize_idempotent: "graph_wf g \<Longrightarrow> canonicalize (canonicalize g) = canonicalize g"
  by (rule canonical_form_unique)
    (simp_all add: graph_wf_canonicalize same_content_canonicalize)

text \<open>
  C1: The canonical form is a function of the content, and of nothing else: two well-formed
  graphs canonicalize to the very same graph exactly when they hold the same symbols and the
  same facts between them, inserted in whatever order and under whatever ids. This is what
  makes graph artifacts independent of the order of translation units and provider files.
\<close>
theorem canonicalize_unique:
  assumes "graph_wf g" "graph_wf h"
  shows "canonicalize g = canonicalize h \<longleftrightarrow> same_content g h"
proof
  assume "canonicalize g = canonicalize h"
  then have "same_content g (canonicalize h)"
    using same_content_canonicalize [OF assms(1)] by (simp add: same_content_def)
  then show "same_content g h"
    using same_content_canonicalize [OF assms(2)] by (simp add: same_content_def)
qed (rule canonical_form_unique [OF assms])

lemma same_content_sample: "same_content sample_program sample_reordered"
  by (simp add: same_content_def edge_facts_def root_facts_def escape_facts_def
      suppression_facts_def edge_label_def root_label_def key_at_def sample_program_def
      sample_reordered_def sample_edge_def sample_root_def) (auto simp: sample_symbol_def)

lemma canonicalize_unique_witness: "canonicalize sample_program = canonicalize sample_reordered"
  using canonicalize_unique [OF sample_program_wf sample_reordered_wf] same_content_sample by blast

end
