(* ===== verification/Symbol_Keys.thy ===== *)
theory Symbol_Keys
  imports Samples
begin

text \<open>
  Properties of the identity schema of \<open>src/graph.cpp\<close>: the length-prefixed stable key
  determines exactly the identity fields it is made of, and merging two declarations of
  one symbol combines their identity, scope and flags independently of the order.
\<close>

section \<open>Length-prefixed components can be read back\<close>

lemma takeWhile_digits:
  "\<not> is_digit c \<Longrightarrow> takeWhile is_digit (to_string_nat n @ c # r) = to_string_nat n"
  by (simp add: takeWhile_append2 to_string_nat_digits)

lemma length_prefix_cancel:
  assumes "to_string_nat (length v) @ CHR '':'' # v @ r = to_string_nat (length w) @ CHR '':'' # w @ s"
  shows "v = w \<and> r = s"
proof -
  have colon: "\<not> is_digit (CHR '':'')" by (simp add: is_digit_def)
  from assms have "to_string_nat (length v) = to_string_nat (length w)"
    using takeWhile_digits [OF colon] by metis
  then have "length v = length w" by simp
  with assms show ?thesis by simp
qed

lemma append_component_cancel:
  "append_component p l v @ r = append_component p l w @ s \<Longrightarrow> v = w \<and> r = s"
  using length_prefix_cancel [of v r w s] by (simp add: append_component_def)

lemma append_component_append:
  "append_component (p @ q) l v = p @ append_component q l v"
  by (simp add: append_component_def)

text \<open>The anchor the key is built from: linkage name, else Clang USR, else source anchor.\<close>

definition identity_anchor :: "symbol_identity \<Rightarrow> string \<times> string" where
  "identity_anchor i =
     (if si_linkage_name i \<noteq> [] then (''linkage'', si_linkage_name i)
      else if si_usr i \<noteq> [] then (''usr'', si_usr i)
      else (''fallback'', si_fallback_anchor i))"

lemma stable_symbol_key_components:
  "stable_symbol_key i =
     append_component ''cxx-dead-symbol-v1'' ''configuration'' (si_configuration_id i) @
     append_component [] ''anchor'' (fst (identity_anchor i)) @
     append_component [] ''value'' (snd (identity_anchor i)) @
     append_component [] ''translation_unit'' (si_translation_unit i)"
  by (simp add: stable_symbol_key_def identity_anchor_def append_component_def Let_def)

text \<open>
  C15: The stable key is collision free: two identities have the same key exactly when they
  agree on the configuration, on the kind and value of the anchor, and on the translation
  unit. No choice of names can make the components of one key run into each other.
\<close>
theorem stable_symbol_key_inject:
  "stable_symbol_key i = stable_symbol_key j \<longleftrightarrow>
     si_configuration_id i = si_configuration_id j \<and>
     identity_anchor i = identity_anchor j \<and>
     si_translation_unit i = si_translation_unit j"
proof
  assume eq: "stable_symbol_key i = stable_symbol_key j"
  note append_component_cancel [OF eq [unfolded stable_symbol_key_components]]
  then have c: "si_configuration_id i = si_configuration_id j" and
    1: "append_component [] ''anchor'' (fst (identity_anchor i)) @
      append_component [] ''value'' (snd (identity_anchor i)) @
      append_component [] ''translation_unit'' (si_translation_unit i) =
    append_component [] ''anchor'' (fst (identity_anchor j)) @
      append_component [] ''value'' (snd (identity_anchor j)) @
      append_component [] ''translation_unit'' (si_translation_unit j)" by blast+
  from append_component_cancel [OF 1] have a: "fst (identity_anchor i) = fst (identity_anchor j)"
    and 2: "append_component [] ''value'' (snd (identity_anchor i)) @
      append_component [] ''translation_unit'' (si_translation_unit i) =
    append_component [] ''value'' (snd (identity_anchor j)) @
      append_component [] ''translation_unit'' (si_translation_unit j)" by blast+
  from append_component_cancel [OF 2] have b: "snd (identity_anchor i) = snd (identity_anchor j)"
    and 3: "append_component [] ''translation_unit'' (si_translation_unit i) @ [] =
      append_component [] ''translation_unit'' (si_translation_unit j) @ []" by simp_all
  from append_component_cancel [OF 3] have "si_translation_unit i = si_translation_unit j" by blast
  with a b c show "si_configuration_id i = si_configuration_id j \<and>
     identity_anchor i = identity_anchor j \<and> si_translation_unit i = si_translation_unit j"
    by (simp add: prod_eq_iff)
next
  assume "si_configuration_id i = si_configuration_id j \<and>
     identity_anchor i = identity_anchor j \<and> si_translation_unit i = si_translation_unit j"
  then show "stable_symbol_key i = stable_symbol_key j"
    by (simp add: stable_symbol_key_components)
qed

section \<open>Creating identities\<close>

text \<open>
  An identity is created exactly when the configuration is named and some anchor
  exists; it carries the arguments unchanged, and its quality is \<open>Fallback\<close> exactly when it
  has neither a linkage name nor a Clang USR, in which case its anchor is not empty.
\<close>
theorem make_symbol_identity_spec:
  "case make_symbol_identity configuration usr linkage tu anchor of
     Inr i \<Rightarrow>
       configuration \<noteq> [] \<and> snd (identity_anchor i) \<noteq> [] \<and>
       si_configuration_id i = configuration \<and> si_usr i = usr \<and> si_linkage_name i = linkage \<and>
       si_translation_unit i = tu \<and> si_fallback_anchor i = anchor \<and>
       (si_quality i = Fallback \<longleftrightarrow> linkage = [] \<and> usr = [])
   | Inl e \<Rightarrow>
       (configuration = [] \<and>
         e = Invalid_Argument ''configuration identity cannot be empty'') \<or>
       (configuration \<noteq> [] \<and> linkage = [] \<and> usr = [] \<and> anchor = [] \<and>
         e = Invalid_Argument ''fallback symbol identity requires a source anchor'')"
  by (auto simp: make_symbol_identity_def identity_anchor_def Let_def)

section \<open>Merging declarations\<close>

lemma merge_checks_sym:
  "list_all fst (merge_checks a b) \<Longrightarrow> list_all fst (merge_checks b a)"
  by (auto simp: merge_checks_def Let_def)

lemma scope_rank_inject: "scope_rank a = scope_rank b \<Longrightarrow> a = b"
  by (cases a; cases b) simp_all

lemma merge_identity_comm:
  assumes "si_configuration_id i = si_configuration_id j" "si_linkage_name i = si_linkage_name j"
    "si_translation_unit i = si_translation_unit j" "si_usr i = [] \<or> si_usr j = [] \<or> si_usr i = si_usr j"
  shows "merge_identity i j = merge_identity j i"
proof -
  have "si_usr (merge_identity i j) = si_usr (merge_identity j i)"
    using assms(4) by (auto simp: merge_identity_def)
  moreover have "si_fallback_anchor (merge_identity i j) = si_fallback_anchor (merge_identity j i)"
    by (auto simp: merge_identity_def not_less)
  moreover have "si_quality (merge_identity i j) = si_quality (merge_identity j i)"
    by (cases "si_quality i"; cases "si_quality j") (simp_all add: merge_identity_def)
  moreover have "si_configuration_id (merge_identity i j) = si_configuration_id (merge_identity j i)"
    "si_linkage_name (merge_identity i j) = si_linkage_name (merge_identity j i)"
    "si_translation_unit (merge_identity i j) = si_translation_unit (merge_identity j i)"
    using assms(1-3) by (simp_all add: merge_identity_def)
  ultimately show ?thesis by simp
qed

text \<open>Of two declarations at different places exactly one is preferred.\<close>

lemma source_preferred_exclusive:
  assumes "source_order (sym_source a) \<noteq> source_order (sym_source b)"
  shows "source_preferred a b \<longleftrightarrow> \<not> source_preferred b a"
proof -
  have order: "source_order (sym_source a) < source_order (sym_source b) \<longleftrightarrow>
      \<not> source_order (sym_source b) < source_order (sym_source a)"
    using assms by (metis linorder_neqE order_less_not_sym)
  consider "sym_defined a \<noteq> sym_defined b"
    | "sym_defined a = sym_defined b" "scope_rank (sym_scope a) \<noteq> scope_rank (sym_scope b)"
    | "sym_defined a = sym_defined b" "sym_scope a = sym_scope b"
    using scope_rank_inject by blast
  then show ?thesis
    by cases (auto simp: source_preferred_def order)
qed

definition symbol_file :: "symbol \<Rightarrow> string" where
  "symbol_file s = sp_file (sx_location (primary_source_extent s))"

lemma merge_symbol_success:
  "merge_symbol t s = Inr m \<longleftrightarrow> m = merge_fields t s \<and> list_all fst (merge_checks t s)"
  by (auto simp: merge_symbol_def find_None_iff find_Some_iff list_all_iff
      split: option.splits) (metis fst_conv nth_mem)

text \<open>
  Which of two compatible declarations is met first does not matter: merging them in
  either order succeeds alike and yields the same identity, names, scope, linkage and
  flags, and, when they lie at different known places, the same source extents; the
  signatures agree too when both declarations have one.
\<close>
theorem merge_symbol_commutes:
  assumes "merge_symbol a b = Inr x" "sym_key a = sym_key b"
    and "source_order (sym_source a) \<noteq> source_order (sym_source b)"
    and "symbol_file a \<noteq> [] \<or> symbol_file b \<noteq> []"
  shows "\<exists>y. merge_symbol b a = Inr y \<and> sym_key x = sym_key y \<and>
    sym_identity x = sym_identity y \<and> sym_kind x = sym_kind y \<and> sym_scope x = sym_scope y \<and>
    sym_qualified_name x = sym_qualified_name y \<and> sym_class_name x = sym_class_name y \<and>
    sym_defined x = sym_defined y \<and> sym_internal_linkage x = sym_internal_linkage y \<and>
    sym_is_virtual x = sym_is_virtual y \<and> sym_source x = sym_source y \<and>
    (sym_signature a \<noteq> [] \<longrightarrow> sym_signature b \<noteq> [] \<longrightarrow> sym_signature x = sym_signature y)"
proof -
  from assms(1) have x: "x = merge_fields a b" and ok: "list_all fst (merge_checks a b)"
    by (simp_all add: merge_symbol_success)
  have y: "merge_symbol b a = Inr (merge_fields b a)"
    using merge_checks_sym [OF ok] by (simp add: merge_symbol_success)
  have "sym_identity x = sym_identity (merge_fields b a)"
    using ok merge_identity_comm [of "sym_identity a" "sym_identity b"]
    by (simp add: x merge_fields_def merge_checks_def Let_def)
  moreover have "sym_scope x = sym_scope (merge_fields b a)"
    using scope_rank_inject [of "sym_scope a" "sym_scope b"]
    by (auto simp: x merge_fields_def Let_def not_less)
  moreover have "sym_source x = sym_source (merge_fields b a)"
    using assms(4) source_preferred_exclusive [OF assms(3)]
    by (simp add: x merge_fields_def Let_def symbol_file_def)
  moreover have "sym_signature a \<noteq> [] \<longrightarrow> sym_signature b \<noteq> [] \<longrightarrow>
      sym_signature x = sym_signature (merge_fields b a)"
    using source_preferred_exclusive [OF assms(3)] by (simp add: x merge_fields_def Let_def)
  moreover have "sym_qualified_name x = sym_qualified_name (merge_fields b a)"
    "sym_class_name x = sym_class_name (merge_fields b a)" "sym_kind x = sym_kind (merge_fields b a)"
    "sym_defined x = sym_defined (merge_fields b a)" "sym_key x = sym_key (merge_fields b a)"
    "sym_internal_linkage x = sym_internal_linkage (merge_fields b a)"
    "sym_is_virtual x = sym_is_virtual (merge_fields b a)"
    using ok assms(2) by (auto simp: x merge_fields_def merge_checks_def Let_def)
  ultimately show ?thesis using y by (intro exI [of _ "merge_fields b a"]) blast
qed

lemma merge_symbol_commutes_witness:
  "\<exists>x y. merge_symbol (sample_symbol ''f'' ''a.cpp'' 1 2) (sample_symbol ''f'' ''a.h'' 7 7) = Inr x \<and>
     merge_symbol (sample_symbol ''f'' ''a.h'' 7 7) (sample_symbol ''f'' ''a.cpp'' 1 2) = Inr y \<and>
     sym_source x = sym_source y"
proof -
  let ?a = "sample_symbol ''f'' ''a.cpp'' 1 2" and ?b = "sample_symbol ''f'' ''a.h'' 7 7"
  have "merge_symbol ?a ?b = Inr (merge_fields ?a ?b)"
    by (simp add: merge_symbol_success merge_checks_def sample_defs Let_def)
  moreover from merge_symbol_commutes [OF this]
  have "\<exists>y. merge_symbol ?b ?a = Inr y \<and> sym_source (merge_fields ?a ?b) = sym_source y"
    by (auto simp: source_order_def symbol_file_def primary_source_extent_def sample_defs)
  ultimately show ?thesis by blast
qed

end
