(* ===== verification/Reachability.thy ===== *)
theory Reachability
  imports Samples
begin

text \<open>
  The traversal part of \<open>analyze_reachability\<close> in \<open>src/graph.cpp\<close>: the two adjacency
  lists, the depth-first worklist from the roots, and the three reachability vectors. The
  locale \<open>adjacency\<close> is what the graph algorithms ask of an adjacency list; it is
  interpreted on both lists the code builds.
\<close>

declare is_provider_root.simps [simp del] is_provider_edge.simps [simp del]
  has_indexed_body.simps [simp del]

section \<open>Adjacency lists\<close>

definition push_adjacent :: "nat \<Rightarrow> nat \<Rightarrow> nat list list \<Rightarrow> nat list list" where
  "push_adjacent from to adj = adj[from := adj ! from @ [to]]"

definition scope_at :: "graph \<Rightarrow> nat \<Rightarrow> symbol_scope" where
  "scope_at g i = sym_scope (g_symbols g ! i)"

definition build_adjacency :: "graph \<Rightarrow> nat list list \<times> nat list list" where
  "build_adjacency g =
     fold (\<lambda>e (adj, structural).
             if is_traversable (edge_kind e) \<and> has_indexed_body (scope_at g (edge_from e)) then
               (push_adjacent (edge_from e) (edge_to e) adj,
                if is_provider_edge (edge_kind e) then structural
                else push_adjacent (edge_from e) (edge_to e) structural)
             else (adj, structural))
       (g_edges g)
       (replicate (length (g_symbols g)) [], replicate (length (g_symbols g)) [])"

definition full_adjacency :: "graph \<Rightarrow> nat list list" where
  "full_adjacency g = fst (build_adjacency g)"

definition structural_adjacency :: "graph \<Rightarrow> nat list list" where
  "structural_adjacency g = snd (build_adjacency g)"

section \<open>The worklist\<close>

text \<open>
  \<open>mark\<close> sets an unset flag and pushes the symbol. The head of the model's stack is the
  back of the vector. An id outside the vector would be undefined behaviour in C++; ids
  are in range in every well-formed graph, and the bound in the test only makes the
  function total.
\<close>

definition mark :: "nat \<Rightarrow> bool list \<times> nat list \<Rightarrow> bool list \<times> nat list" where
  "mark x s =
     (let (reached, stack) = s in
      if x < length reached \<and> \<not> reached ! x then (reached[x := True], x # stack)
      else (reached, stack))"

definition unreached :: "bool list \<Rightarrow> nat" where
  "unreached reached = length (filter Not reached)"

lemma unreached_update:
  "x < length r \<Longrightarrow> \<not> r ! x \<Longrightarrow> Suc (unreached (r[x := True])) = unreached r"
proof (induction r arbitrary: x)
  case (Cons b r)
  then show ?case by (cases x) (auto simp: unreached_def)
qed simp

lemma mark_measure:
  "mark x (r, st) = (r', st') \<Longrightarrow> unreached r' + length st' = unreached r + length st"
  using unreached_update [of x r] by (auto simp: mark_def split: if_splits)

lemma mark_all_measure:
  "fold mark xs (r, st) = (r', st') \<Longrightarrow> unreached r' + length st' = unreached r + length st"
proof (induction xs arbitrary: r st)
  case (Cons x xs)
  obtain r1 st1 where 1: "mark x (r, st) = (r1, st1)" by force
  with Cons show ?case using mark_measure [OF 1] by simp
qed simp

lemma unreached_mark_all: "unreached (fst (fold mark xs s)) \<le> unreached (fst s)"
proof (induction xs arbitrary: s)
  case (Cons x xs)
  obtain r st where s: "s = (r, st)" by force
  have "unreached (fst (mark x s)) \<le> unreached (fst s)"
    using unreached_update [of x r] by (auto simp: s mark_def)
  with Cons [of "mark x s"] show ?case by simp
qed simp

function drain :: "nat list list \<Rightarrow> bool list \<Rightarrow> nat list \<Rightarrow> bool list" where
  "drain adj reached [] = reached"
| "drain adj reached (current # stack) =
     (let (reached', stack') = fold mark (adj ! current) (reached, stack)
      in drain adj reached' stack')"
  by pat_completeness auto
termination
proof (relation "measure (\<lambda>(adj, r, st). unreached r + unreached r + length st)", goal_cases)
  case 1
  then show ?case by simp
next
  case (2 adj reached current stack x y z)
  then have f: "fold mark (adj ! current) (reached, stack) = (y, z)" by simp
  from unreached_mark_all [of "adj ! current" "(reached, stack)"]
  have "unreached y \<le> unreached reached" by (simp only: f fst_conv)
  with mark_all_measure [OF f] show ?case by simp
qed

definition traverse :: "graph \<Rightarrow> nat list list \<Rightarrow> bool \<Rightarrow> bool list" where
  "traverse g edges include_provider_roots =
     (let (reached, stack) =
            fold (\<lambda>root s.
                    if \<not> include_provider_roots \<and> is_provider_root (root_kind root) then s
                    else mark (root_symbol root) s)
              (g_roots g) (replicate (length (g_symbols g)) False, [])
      in drain edges reached stack)"

definition structurally_reachable :: "graph \<Rightarrow> bool list" where
  "structurally_reachable g = traverse g (structural_adjacency g) False"

definition reachable :: "graph \<Rightarrow> bool list" where
  "reachable g = traverse g (full_adjacency g) True"

definition provider_reachable :: "graph \<Rightarrow> bool list" where
  "provider_reachable g =
     map (\<lambda>i. reachable g ! i \<and> \<not> structurally_reachable g ! i) [0..<length (g_symbols g)]"

section \<open>Correctness of the worklist\<close>

definition flagged :: "bool list \<Rightarrow> nat set" where
  "flagged r = {i. i < length r \<and> r ! i}"

lemma flagged_replicate [simp]: "flagged (replicate n False) = {}"
  by (simp add: flagged_def)

lemma mark_effect:
  assumes "mark x (r, st) = (r', st')"
  shows "length r' = length r \<and>
    flagged r' = flagged r \<union> ({x} \<inter> {..<length r}) \<and>
    (\<exists>new. st' = new @ st \<and> set new = flagged r' - flagged r)"
  using assms by (auto simp: mark_def flagged_def nth_list_update split: if_splits)

lemma mark_all_effect:
  assumes "fold mark xs (r, st) = (r', st')"
  shows "length r' = length r \<and>
    flagged r' = flagged r \<union> (set xs \<inter> {..<length r}) \<and>
    (\<exists>new. st' = new @ st \<and> set new = flagged r' - flagged r)"
  using assms
proof (induction xs arbitrary: r st)
  case Nil
  then show ?case by simp
next
  case (Cons x xs)
  obtain r1 st1 where 1: "mark x (r, st) = (r1, st1)" by force
  with Cons.prems have "fold mark xs (r1, st1) = (r', st')" by simp
  from Cons.IH [OF this] obtain new where IH: "length r' = length r1"
    "flagged r' = flagged r1 \<union> (set xs \<inter> {..<length r1})"
    "st' = new @ st1" "set new = flagged r' - flagged r1" by auto
  from mark_effect [OF 1] obtain new1 where m: "length r1 = length r"
    "flagged r1 = flagged r \<union> ({x} \<inter> {..<length r})"
    "st1 = new1 @ st" "set new1 = flagged r1 - flagged r" by auto
  have "set (new @ new1) = flagged r' - flagged r" using IH m by auto
  then show ?case using IH m by (intro conjI exI [of _ "new @ new1"]) auto
qed

text \<open>The interface of the graph algorithms: an adjacency list whose ids are in range.\<close>

locale adjacency =
  fixes ok :: "'g \<Rightarrow> bool"
    and size_of :: "'g \<Rightarrow> nat"
    and adj :: "'g \<Rightarrow> nat list list"
  assumes adj_length: "ok g \<Longrightarrow> length (adj g) = size_of g"
    and adj_range: "ok g \<Longrightarrow> i < size_of g \<Longrightarrow> j \<in> set (adj g ! i) \<Longrightarrow> j < size_of g"
begin

definition arcs :: "'g \<Rightarrow> (nat \<times> nat) set" where
  "arcs g = {(i, j). i < size_of g \<and> j \<in> set (adj g ! i)}"

lemma arcs_range: "ok g \<Longrightarrow> (i, j) \<in> arcs g \<Longrightarrow> i < size_of g \<and> j < size_of g"
  using adj_range by (auto simp: arcs_def)

lemma drain_closure:
  assumes "ok g" "length r = size_of g" "set st \<subseteq> flagged r"
    and "\<And>i j. i \<in> flagged r - set st \<Longrightarrow> (i, j) \<in> arcs g \<Longrightarrow> j \<in> flagged r"
  shows "length (drain (adj g) r st) = size_of g \<and>
    flagged (drain (adj g) r st) = (arcs g)\<^sup>* `` flagged r"
  using assms
proof (induction "adj g" r st rule: drain.induct)
  case (1 r)
  have "j \<in> flagged r" if "(i, j) \<in> (arcs g)\<^sup>*" "i \<in> flagged r" for i j
    using that by induction (use "1.prems"(4) in auto)
  then show ?case using "1.prems" by auto
next
  case (2 r c st)
  obtain r' st' where f: "fold mark (adj g ! c) (r, st) = (r', st')" by force
  from mark_all_effect [OF f] obtain new where len: "length r' = length r"
    and fl: "flagged r' = flagged r \<union> (set (adj g ! c) \<inter> {..<length r})"
    and st': "st' = new @ st" and new: "set new = flagged r' - flagged r" by auto
  have c: "c \<in> flagged r" using "2.prems"(3) by simp
  then have cn: "c < size_of g" using "2.prems"(2) by (simp add: flagged_def)
  have arcs_c: "(c, j) \<in> arcs g \<Longrightarrow> j \<in> flagged r'" for j
    using fl "2.prems"(1,2) adj_range cn by (auto simp: arcs_def)
  have closed: "j \<in> flagged r'" if "i \<in> flagged r' - set st'" "(i, j) \<in> arcs g" for i j
  proof (cases "i = c")
    case True
    with arcs_c that show ?thesis by simp
  next
    case False
    with that new st' fl have "i \<in> flagged r - set (c # st)" by auto
    with "2.prems"(4) that fl show ?thesis by blast
  qed
  have "set st' \<subseteq> flagged r'" using st' new fl "2.prems"(3) by auto
  note IH = "2.hyps" [OF f [symmetric] refl, OF "2.prems"(1) _ this closed]
  have "(arcs g)\<^sup>* `` flagged r' = (arcs g)\<^sup>* `` flagged r"
  proof
    show "(arcs g)\<^sup>* `` flagged r \<subseteq> (arcs g)\<^sup>* `` flagged r'" using fl by blast
    have "j \<in> (arcs g)\<^sup>* `` flagged r" if "j \<in> flagged r'" for j
      using that fl c cn by (auto simp: arcs_def)
    then show "(arcs g)\<^sup>* `` flagged r' \<subseteq> (arcs g)\<^sup>* `` flagged r"
      by (meson ImageE ImageI rtrancl_trans subsetI)
  qed
  with IH len "2.prems"(2) f show ?case by simp
qed

end

section \<open>The two adjacency lists\<close>

text \<open>The arcs the code follows, as relations on ids.\<close>

definition call_arcs :: "graph \<Rightarrow> (nat \<times> nat) set" where
  "call_arcs g = {(edge_from e, edge_to e) | e.
     e \<in> set (g_edges g) \<and> has_indexed_body (scope_at g (edge_from e))}"

definition structural_arcs :: "graph \<Rightarrow> (nat \<times> nat) set" where
  "structural_arcs g = {(edge_from e, edge_to e) | e.
     e \<in> set (g_edges g) \<and> has_indexed_body (scope_at g (edge_from e)) \<and>
     \<not> is_provider_edge (edge_kind e)}"

lemma call_arcs_image:
  "call_arcs g = (\<lambda>e. (edge_from e, edge_to e)) `
     set (filter (\<lambda>e. has_indexed_body (scope_at g (edge_from e))) (g_edges g))"
  by (auto simp: call_arcs_def)

lemma build_adjacency_fold:
  assumes "fold (\<lambda>e (adj, structural).
             if is_traversable (edge_kind e) \<and> has_indexed_body (scope_at g (edge_from e)) then
               (push_adjacent (edge_from e) (edge_to e) adj,
                if is_provider_edge (edge_kind e) then structural
                else push_adjacent (edge_from e) (edge_to e) structural)
             else (adj, structural)) es (a, s) = (a', s')"
    and "\<And>e. e \<in> set es \<Longrightarrow> edge_from e < n" "length a = n" "length s = n"
  shows "length a' = n \<and> length s' = n \<and>
    (\<forall>i < n. set (a' ! i) = set (a ! i) \<union>
       {edge_to e | e. e \<in> set es \<and> edge_from e = i \<and> has_indexed_body (scope_at g i)}) \<and>
    (\<forall>i < n. set (s' ! i) = set (s ! i) \<union>
       {edge_to e | e. e \<in> set es \<and> edge_from e = i \<and> has_indexed_body (scope_at g i) \<and>
          \<not> is_provider_edge (edge_kind e)})"
  using assms
proof (induction es arbitrary: a s)
  case Nil
  then show ?case by simp
next
  case (Cons e es)
  have e: "edge_from e < n" "is_traversable (edge_kind e)"
    using Cons.prems(2) is_traversable_all by auto
  define ind where "ind = has_indexed_body (scope_at g (edge_from e))"
  define prov where "prov = is_provider_edge (edge_kind e)"
  define a1 where "a1 = (if ind then push_adjacent (edge_from e) (edge_to e) a else a)"
  define s1 where
    "s1 = (if ind \<and> \<not> prov then push_adjacent (edge_from e) (edge_to e) s else s)"
  note IH = Cons.IH [of a1 s1]
  have len: "length a1 = n" "length s1 = n"
    using Cons.prems(3,4) by (simp_all add: a1_def s1_def push_adjacent_def)
  have at: "set (a1 ! i) = set (a ! i) \<union> (if i = edge_from e \<and> ind then {edge_to e} else {})"
    "set (s1 ! i) = set (s ! i) \<union>
      (if i = edge_from e \<and> ind \<and> \<not> prov then {edge_to e} else {})" if "i < n" for i
    using that e Cons.prems(3,4)
    by (auto simp: a1_def s1_def push_adjacent_def nth_list_update)
  have tail: "fold (\<lambda>e (adj, structural).
             if is_traversable (edge_kind e) \<and> has_indexed_body (scope_at g (edge_from e)) then
               (push_adjacent (edge_from e) (edge_to e) adj,
                if is_provider_edge (edge_kind e) then structural
                else push_adjacent (edge_from e) (edge_to e) structural)
             else (adj, structural)) es (a1, s1) = (a', s')"
    using Cons.prems(1) e unfolding a1_def s1_def ind_def prov_def
    by (cases "has_indexed_body (scope_at g (edge_from e))";
        cases "is_provider_edge (edge_kind e)") simp_all
  show ?case
    using IH [OF tail] Cons.prems(2) len at unfolding ind_def prov_def by (auto split: if_splits)
qed

lemma build_adjacency_spec:
  assumes "graph_wf g"
  shows "length (full_adjacency g) = length (g_symbols g)"
    and "length (structural_adjacency g) = length (g_symbols g)"
    and "i < length (g_symbols g) \<Longrightarrow> j \<in> set (full_adjacency g ! i) \<longleftrightarrow> (i, j) \<in> call_arcs g"
    and "i < length (g_symbols g) \<Longrightarrow>
      j \<in> set (structural_adjacency g ! i) \<longleftrightarrow> (i, j) \<in> structural_arcs g"
proof -
  obtain a s where as: "build_adjacency g = (a, s)" by force
  have "e \<in> set (g_edges g) \<Longrightarrow> edge_from e < length (g_symbols g)" for e
    using assms by (simp add: graph_wf_def)
  note spec = build_adjacency_fold [OF as [unfolded build_adjacency_def] this]
  show "length (full_adjacency g) = length (g_symbols g)"
    and "length (structural_adjacency g) = length (g_symbols g)"
    and "i < length (g_symbols g) \<Longrightarrow> j \<in> set (full_adjacency g ! i) \<longleftrightarrow> (i, j) \<in> call_arcs g"
    and "i < length (g_symbols g) \<Longrightarrow>
      j \<in> set (structural_adjacency g ! i) \<longleftrightarrow> (i, j) \<in> structural_arcs g"
    using spec by (auto simp: full_adjacency_def structural_adjacency_def as call_arcs_def
        structural_arcs_def)
qed

lemma call_arcs_range:
  "graph_wf g \<Longrightarrow> (i, j) \<in> call_arcs g \<Longrightarrow> i < length (g_symbols g) \<and> j < length (g_symbols g)"
  by (auto simp: call_arcs_def graph_wf_def)

lemma structural_arcs_subset: "structural_arcs g \<subseteq> call_arcs g"
  by (auto simp: structural_arcs_def call_arcs_def)

interpretation full: adjacency graph_wf "\<lambda>g. length (g_symbols g)" full_adjacency
  by unfold_locales (auto simp: build_adjacency_spec dest: call_arcs_range)

interpretation structural: adjacency graph_wf "\<lambda>g. length (g_symbols g)" structural_adjacency
  by unfold_locales
    (auto simp: build_adjacency_spec dest: subsetD [OF structural_arcs_subset] call_arcs_range)

lemma full_arcs:
  assumes "graph_wf g"
  shows "full.arcs g = call_arcs g"
  using build_adjacency_spec(3) [OF assms] call_arcs_range [OF assms]
  unfolding full.arcs_def by blast

lemma structural_arcs:
  assumes "graph_wf g"
  shows "structural.arcs g = structural_arcs g"
  using build_adjacency_spec(4) [OF assms] call_arcs_range [OF assms] structural_arcs_subset [of g]
  unfolding structural.arcs_def by blast

section \<open>The reachability vectors\<close>

definition start_symbols :: "graph \<Rightarrow> bool \<Rightarrow> nat set" where
  "start_symbols g include_provider_roots =
     {root_symbol r | r. r \<in> set (g_roots g) \<and>
        (include_provider_roots \<or> \<not> is_provider_root (root_kind r))}"

lemma traverse_seeds:
  "fold (\<lambda>root s. if \<not> incl \<and> is_provider_root (root_kind root) then s
                    else mark (root_symbol root) s) rs s =
   fold mark (map root_symbol (filter (\<lambda>r. incl \<or> \<not> is_provider_root (root_kind r)) rs)) s"
  by (induction rs arbitrary: s) auto

lemma traverse_with_adjacency:
  assumes "adjacency graph_wf (\<lambda>g. length (g_symbols g)) a" "graph_wf g"
  shows "length (traverse g (a g) incl) = length (g_symbols g) \<and>
    flagged (traverse g (a g) incl) =
      (adjacency.arcs (\<lambda>g. length (g_symbols g)) a g)\<^sup>* `` start_symbols g incl"
proof -
  let ?n = "length (g_symbols g)"
  let ?seeds = "map root_symbol (filter (\<lambda>r. incl \<or> \<not> is_provider_root (root_kind r)) (g_roots g))"
  obtain r st where f: "fold mark ?seeds (replicate ?n False, []) = (r, st)" by force
  have seeds: "set ?seeds = start_symbols g incl" "set ?seeds \<subseteq> {..<?n}"
    using assms(2) by (auto simp: start_symbols_def graph_wf_def)
  from mark_all_effect [OF f] seeds have r: "length r = ?n" "flagged r = start_symbols g incl"
    and st: "set st = flagged r" by auto
  have "traverse g (a g) incl = drain (a g) r st"
    using f by (simp add: traverse_def traverse_seeds)
  then show ?thesis
    using adjacency.drain_closure [OF assms, of r st] r st by simp
qed

lemma nth_flagged: "i < length r \<Longrightarrow> r ! i \<longleftrightarrow> i \<in> flagged r"
  by (simp add: flagged_def)

lemma reachable_flagged:
  assumes "graph_wf g"
  shows "length (reachable g) = length (g_symbols g)"
    and "flagged (reachable g) = (call_arcs g)\<^sup>* `` start_symbols g True"
    and "length (structurally_reachable g) = length (g_symbols g)"
    and "flagged (structurally_reachable g) = (structural_arcs g)\<^sup>* `` start_symbols g False"
  using traverse_with_adjacency [OF full.adjacency_axioms assms, of True]
    traverse_with_adjacency [OF structural.adjacency_axioms assms, of False]
  by (simp_all add: reachable_def structurally_reachable_def full_arcs structural_arcs assms)

text \<open>
  C2: The reachability vector is exact: a symbol is marked reachable if and only if some
  root has a path to it along edges whose source has an indexed body. Nothing else is
  marked, and no path is missed.
\<close>
theorem reachable_correct:
  assumes "graph_wf g" "i < length (g_symbols g)"
  shows "reachable g ! i \<longleftrightarrow> (\<exists>r \<in> set (g_roots g). (root_symbol r, i) \<in> (call_arcs g)\<^sup>*)"
  using assms reachable_flagged [OF assms(1)]
  by (auto simp: nth_flagged start_symbols_def)

lemma reachable_correct_witness: "reachable sample_program ! 1 \<and> \<not> reachable sample_program ! 2"
proof -
  have arcs: "call_arcs sample_program = {(0, 1), (2, 3), (3, 2)}"
    unfolding call_arcs_image
    by (simp add: scope_at_def sample_program_def sample_edge_def sample_symbol_def
        has_indexed_body.simps)
  have n: "1 < length (g_symbols sample_program)" "2 < length (g_symbols sample_program)"
    and roots: "g_roots sample_program = [sample_root 0 Application_Entry_Point]"
    by (simp_all add: sample_program_def)
  have "(0, 2) \<notin> (call_arcs sample_program)\<^sup>*"
  proof
    assume "(0, 2) \<in> (call_arcs sample_program)\<^sup>*"
    then have "2 \<in> {0, 1 :: nat}" by (induction rule: rtrancl_induct) (auto simp: arcs)
    then show False by simp
  qed
  moreover have "(0, 1) \<in> (call_arcs sample_program)\<^sup>*" by (auto simp: arcs)
  ultimately show ?thesis
    using reachable_correct [OF sample_program_wf n(1)] reachable_correct [OF sample_program_wf n(2)]
    by (simp add: roots sample_root_def)
qed

text \<open>
  C16: A symbol is structurally reachable if and only if a path of non-provider edges leads
  to it from a root that no provider supplied; every structurally reachable symbol is
  reachable, and the symbols marked provider-reachable are exactly those that are reachable
  only with the help of a provider root or a provider edge.
\<close>
theorem provider_reachable_correct:
  assumes "graph_wf g" "i < length (g_symbols g)"
  shows "(structurally_reachable g ! i \<longleftrightarrow>
      (\<exists>r \<in> set (g_roots g). \<not> is_provider_root (root_kind r) \<and>
        (root_symbol r, i) \<in> (structural_arcs g)\<^sup>*)) \<and>
    (structurally_reachable g ! i \<longrightarrow> reachable g ! i) \<and>
    (provider_reachable g ! i \<longleftrightarrow> reachable g ! i \<and>
      \<not> (\<exists>r \<in> set (g_roots g). \<not> is_provider_root (root_kind r) \<and>
          (root_symbol r, i) \<in> (structural_arcs g)\<^sup>*))"
proof -
  have s: "structurally_reachable g ! i \<longleftrightarrow>
      (\<exists>r \<in> set (g_roots g). \<not> is_provider_root (root_kind r) \<and>
        (root_symbol r, i) \<in> (structural_arcs g)\<^sup>*)"
    using assms reachable_flagged [OF assms(1)] by (auto simp: nth_flagged start_symbols_def)
  moreover have "(structural_arcs g)\<^sup>* \<subseteq> (call_arcs g)\<^sup>*"
    by (rule rtrancl_mono [OF structural_arcs_subset])
  ultimately have "structurally_reachable g ! i \<longrightarrow> reachable g ! i"
    using reachable_flagged [OF assms(1)] assms
    by (auto simp: nth_flagged start_symbols_def)
  with s assms show ?thesis by (simp add: provider_reachable_def)
qed

lemma provider_reachable_correct_witness:
  "structurally_reachable sample_program ! 0 \<and> \<not> provider_reachable sample_program ! 0"
  using provider_reachable_correct [OF sample_program_wf, of 0]
  by (simp add: sample_program_def sample_root_def is_provider_root.simps)

end
