(* ===== verification/Tarjan.thy ===== *)
theory Tarjan
  imports Reachability "HOL-Library.Multiset"
begin

text \<open>
  The strongly connected components of \<open>analyze_reachability\<close> in \<open>src/graph.cpp\<close>: the
  recursive lambda \<open>strong_connect\<close> with the arrays it mutates as a record. The recursion is
  bounded by fuel; fuel equal to the number of symbols is enough, because every nested call
  marks a new symbol. The locale \<open>candidate_graph\<close> extends \<open>adjacency\<close> by the candidate
  predicate and the ordering of a component; its main lemma is that the loop returns and that
  the collected components are exactly the classes of mutual reachability.
\<close>

section \<open>The state and the steps\<close>

record tarjan =
  t_index :: "int list"
  t_low :: "int list"
  t_on_stack :: "bool list"
  t_stack :: "nat list"
  t_next :: int
  t_sccs :: "nat list list"

text \<open>The head of \<open>t_stack\<close> is the back of the vector \<open>tarjan_stack\<close>.\<close>

definition tarjan_start :: "nat \<Rightarrow> tarjan" where
  "tarjan_start n = \<lparr>t_index = replicate n (-1), t_low = replicate n (-1),
     t_on_stack = replicate n False, t_stack = [], t_next = 0, t_sccs = []\<rparr>"

definition enter :: "nat \<Rightarrow> tarjan \<Rightarrow> tarjan" where
  "enter v s = s\<lparr>t_index := (t_index s)[v := t_next s], t_low := (t_low s)[v := t_next s],
     t_next := t_next s + 1, t_stack := v # t_stack s,
     t_on_stack := (t_on_stack s)[v := True]\<rparr>"

definition lower :: "nat \<Rightarrow> int \<Rightarrow> tarjan \<Rightarrow> tarjan" where
  "lower v x s = s\<lparr>t_low := (t_low s)[v := min (t_low s ! v) x]\<rparr>"

fun pop_until :: "nat \<Rightarrow> nat list \<Rightarrow> bool list \<Rightarrow> nat list \<times> nat list \<times> bool list" where
  "pop_until v [] flags = ([], [], flags)"
| "pop_until v (member # stack) flags =
     (if member = v then ([member], stack, flags[member := False])
      else
        let (component, stack', flags') = pop_until v stack (flags[member := False])
        in (member # component, stack', flags'))"

definition leave :: "(nat list \<Rightarrow> nat list) \<Rightarrow> nat \<Rightarrow> tarjan \<Rightarrow> tarjan" where
  "leave arrange v s =
     (if t_low s ! v = t_index s ! v then
        let (component, stack, flags) = pop_until v (t_stack s) (t_on_stack s)
        in s\<lparr>t_stack := stack, t_on_stack := flags, t_sccs := t_sccs s @ [arrange component]\<rparr>
      else s)"

fun strong_connect ::
    "nat list list \<Rightarrow> (nat \<Rightarrow> bool) \<Rightarrow> (nat list \<Rightarrow> nat list) \<Rightarrow> nat \<Rightarrow> nat \<Rightarrow> tarjan \<Rightarrow> tarjan option"
  and visit_successors ::
    "nat list list \<Rightarrow> (nat \<Rightarrow> bool) \<Rightarrow> (nat list \<Rightarrow> nat list) \<Rightarrow> nat \<Rightarrow> nat \<Rightarrow> nat list \<Rightarrow>
      tarjan \<Rightarrow> tarjan option" where
  "strong_connect adj candidate arrange 0 v s = None"
| "strong_connect adj candidate arrange (Suc fuel) v s =
     map_option (leave arrange v)
       (visit_successors adj candidate arrange fuel v (adj ! v) (enter v s))"
| "visit_successors adj candidate arrange fuel v [] s = Some s"
| "visit_successors adj candidate arrange fuel v (w # ws) s =
     (if \<not> candidate w then visit_successors adj candidate arrange fuel v ws s
      else if t_index s ! w = -1 then
        Option.bind (strong_connect adj candidate arrange fuel w s)
          (\<lambda>s'. visit_successors adj candidate arrange fuel v ws (lower v (t_low s' ! w) s'))
      else if t_on_stack s ! w then
        visit_successors adj candidate arrange fuel v ws (lower v (t_index s ! w) s)
      else visit_successors adj candidate arrange fuel v ws s)"

fun connect_all ::
    "nat list list \<Rightarrow> (nat \<Rightarrow> bool) \<Rightarrow> (nat list \<Rightarrow> nat list) \<Rightarrow> nat \<Rightarrow> nat list \<Rightarrow> tarjan \<Rightarrow>
      tarjan option" where
  "connect_all adj candidate arrange fuel [] s = Some s"
| "connect_all adj candidate arrange fuel (v # vs) s =
     (if candidate v \<and> t_index s ! v = -1 then
        Option.bind (strong_connect adj candidate arrange fuel v s)
          (connect_all adj candidate arrange fuel vs)
      else connect_all adj candidate arrange fuel vs s)"

definition visited :: "tarjan \<Rightarrow> nat set" where
  "visited s = {v. v < length (t_index s) \<and> t_index s ! v \<noteq> -1}"

lemma pop_until_spec:
  "v \<notin> set p \<Longrightarrow> pop_until v (p @ v # st) flags =
     (p @ [v], st, fold (\<lambda>m f. f[m := False]) (p @ [v]) flags)"
  by (induction p arbitrary: flags) auto

lemma clear_flags_length [simp]: "length (fold (\<lambda>m f. f[m := False]) ms flags) = length flags"
  by (induction ms arbitrary: flags) auto

lemma clear_flags_nth:
  "i < length flags \<Longrightarrow> fold (\<lambda>m f. f[m := False]) ms flags ! i \<longleftrightarrow> flags ! i \<and> i \<notin> set ms"
proof (induction ms arbitrary: flags)
  case (Cons m ms)
  then show ?case by (cases "i = m") simp_all
qed simp

section \<open>Invariant\<close>

locale candidate_graph = adjacency ok size_of adj
  for ok :: "'g \<Rightarrow> bool" and size_of :: "'g \<Rightarrow> nat" and adj :: "'g \<Rightarrow> nat list list" +
  fixes candidate :: "'g \<Rightarrow> nat \<Rightarrow> bool"
    and arrange :: "'g \<Rightarrow> nat list \<Rightarrow> nat list"
  assumes candidate_range: "ok g \<Longrightarrow> candidate g v \<Longrightarrow> v < size_of g"
    and arrange_mset: "mset (arrange g c) = mset c"
begin

definition earcs :: "'g \<Rightarrow> (nat \<times> nat) set" where
  "earcs g = {(v, w). candidate g v \<and> candidate g w \<and> w \<in> set (adj g ! v)}"

definition mutual :: "'g \<Rightarrow> nat \<Rightarrow> nat set" where
  "mutual g v = {w. (v, w) \<in> (earcs g)\<^sup>* \<and> (w, v) \<in> (earcs g)\<^sup>*}"

definition shape :: "'g \<Rightarrow> nat set \<Rightarrow> tarjan \<Rightarrow> bool" where
  "shape g gray s \<longleftrightarrow>
     length (t_index s) = size_of g \<and> length (t_low s) = size_of g \<and>
     length (t_on_stack s) = size_of g \<and> 0 \<le> t_next s \<and>
     (\<forall>v \<in> visited s. candidate g v \<and> 0 \<le> t_index s ! v \<and> t_index s ! v < t_next s) \<and>
     sorted_wrt (\<lambda>a b. t_index s ! b < t_index s ! a) (t_stack s) \<and>
     set (t_stack s) \<subseteq> visited s \<and>
     (\<forall>v < size_of g. t_on_stack s ! v \<longleftrightarrow> v \<in> set (t_stack s)) \<and>
     gray \<subseteq> set (t_stack s)"

definition paths :: "'g \<Rightarrow> nat set \<Rightarrow> tarjan \<Rightarrow> bool" where
  "paths g gray s \<longleftrightarrow>
     (\<forall>v \<in> visited s - gray. \<forall>w. (v, w) \<in> earcs g \<longrightarrow> w \<in> visited s) \<and>
     (\<forall>v \<in> visited s - set (t_stack s). \<forall>w. (v, w) \<in> earcs g \<longrightarrow>
        w \<in> visited s - set (t_stack s)) \<and>
     (\<forall>x \<in> set (t_stack s). \<forall>y \<in> set (t_stack s). t_index s ! x \<le> t_index s ! y \<longrightarrow>
        (x, y) \<in> (earcs g)\<^sup>*) \<and>
     (\<forall>y \<in> set (t_stack s). \<exists>x \<in> gray. t_index s ! x \<le> t_index s ! y \<and> (y, x) \<in> (earcs g)\<^sup>*)"

definition collected :: "'g \<Rightarrow> tarjan \<Rightarrow> bool" where
  "collected g s \<longleftrightarrow>
     distinct (concat (t_sccs s)) \<and> set (concat (t_sccs s)) = visited s - set (t_stack s) \<and>
     (\<forall>c \<in> set (t_sccs s). \<exists>p. c = arrange g p) \<and>
     (\<forall>c \<in> set (t_sccs s). \<exists>v. v \<in> set c \<and> set c = mutual g v)"

definition invar :: "'g \<Rightarrow> nat set \<Rightarrow> tarjan \<Rightarrow> bool" where
  "invar g gray s \<longleftrightarrow> shape g gray s \<and> paths g gray s \<and> collected g s"

text \<open>What a call may change: new symbols are numbered after the old ones.\<close>

definition frame :: "nat set \<Rightarrow> tarjan \<Rightarrow> tarjan \<Rightarrow> bool" where
  "frame except s s' \<longleftrightarrow>
     visited s \<subseteq> visited s' \<and> t_next s \<le> t_next s' \<and>
     (\<forall>v \<in> visited s. t_index s' ! v = t_index s ! v) \<and>
     (\<forall>v \<in> visited s' - visited s. t_next s \<le> t_index s' ! v) \<and>
     (\<forall>v \<in> visited s - except. t_low s' ! v = t_low s ! v)"

lemma frame_refl: "frame e s s"
  by (simp add: frame_def)

lemma frame_trans: "frame e s t \<Longrightarrow> frame e t u \<Longrightarrow> frame e s u"
  unfolding frame_def
proof (elim conjE, intro conjI)
  assume *: "visited s \<subseteq> visited t" "visited t \<subseteq> visited u" "t_next s \<le> t_next t"
    "t_next t \<le> t_next u" "\<forall>v\<in>visited s. t_index t ! v = t_index s ! v"
    "\<forall>v\<in>visited t. t_index u ! v = t_index t ! v"
    "\<forall>v\<in>visited t - visited s. t_next s \<le> t_index t ! v"
    "\<forall>v\<in>visited u - visited t. t_next t \<le> t_index u ! v"
    "\<forall>v\<in>visited s - e. t_low t ! v = t_low s ! v"
    "\<forall>v\<in>visited t - e. t_low u ! v = t_low t ! v"
  show "visited s \<subseteq> visited u" "t_next s \<le> t_next u" using * by auto
  show "\<forall>v\<in>visited s. t_index u ! v = t_index s ! v" using * by auto
  show "\<forall>v\<in>visited s - e. t_low u ! v = t_low s ! v" using * by auto
  show "\<forall>v\<in>visited u - visited s. t_next s \<le> t_index u ! v"
  proof
    fix v assume "v \<in> visited u - visited s"
    then show "t_next s \<le> t_index u ! v"
    proof (cases "v \<in> visited t")
      case True
      then show ?thesis using \<open>v \<in> visited u - visited s\<close> *(6,7) by simp
    next
      case False
      then have "t_next t \<le> t_index u ! v" using \<open>v \<in> visited u - visited s\<close> *(8) by simp
      then show ?thesis using *(3) by simp
    qed
  qed
qed

lemma frame_mono: "frame e s t \<Longrightarrow> e \<subseteq> e' \<Longrightarrow> frame e' s t"
  unfolding frame_def by blast

lemma visited_lower [simp]: "visited (lower v x s) = visited s"
  by (simp add: visited_def lower_def)

lemma lower_simps [simp]:
  "t_index (lower v x s) = t_index s" "t_stack (lower v x s) = t_stack s"
  "t_on_stack (lower v x s) = t_on_stack s" "t_next (lower v x s) = t_next s"
  "t_sccs (lower v x s) = t_sccs s" "length (t_low (lower v x s)) = length (t_low s)"
  by (simp_all add: lower_def)

lemma frame_lower: "frame {v} s (lower v x s)"
proof -
  have "u \<noteq> v \<Longrightarrow> t_low (lower v x s) ! u = t_low s ! u" for u by (simp add: lower_def)
  then show ?thesis by (simp add: frame_def)
qed

lemma invar_lower: "invar g gray (lower v x s) = invar g gray s"
  unfolding invar_def shape_def paths_def collected_def by (simp only: visited_lower lower_simps)

section \<open>Entering a symbol\<close>

definition visiting ::
    "'g \<Rightarrow> nat set \<Rightarrow> nat \<Rightarrow> nat list \<Rightarrow> nat set \<Rightarrow> tarjan \<Rightarrow> bool" where
  "visiting g gray v older seen s \<longleftrightarrow>
     invar g (insert v gray) s \<and> gray \<subseteq> set older \<and>
     (\<exists>p. t_stack s = p @ v # older \<and>
        (\<forall>x \<in> set p. \<forall>y \<in> set older. (x, y) \<in> earcs g \<longrightarrow> t_low s ! v \<le> t_index s ! y)) \<and>
     t_low s ! v \<le> t_index s ! v \<and>
     (\<exists>y \<in> set (t_stack s). t_index s ! y = t_low s ! v \<and> (v, y) \<in> (earcs g)\<^sup>*) \<and>
     (\<forall>w \<in> seen. candidate g w \<longrightarrow> w \<in> visited s \<and>
        (w \<in> set older \<longrightarrow> t_low s ! v \<le> t_index s ! w))"

definition connected :: "'g \<Rightarrow> nat set \<Rightarrow> nat \<Rightarrow> tarjan \<Rightarrow> tarjan \<Rightarrow> bool" where
  "connected g gray v s s' \<longleftrightarrow>
     invar g gray s' \<and> frame {} s s' \<and> v \<in> visited s' \<and>
     (\<exists>p. t_stack s' = p @ t_stack s \<and>
        (\<forall>x \<in> set p. \<forall>y \<in> set (t_stack s). (x, y) \<in> earcs g \<longrightarrow>
           t_low s' ! v \<le> t_index s' ! y)) \<and>
     ((\<exists>y \<in> set (t_stack s'). t_index s' ! y = t_low s' ! v \<and> (v, y) \<in> (earcs g)\<^sup>*) \<or>
      t_stack s' = t_stack s \<and> t_next s \<le> t_low s' ! v)"

lemma enter_simps [simp]:
  "t_stack (enter v s) = v # t_stack s" "t_next (enter v s) = t_next s + 1"
  "t_sccs (enter v s) = t_sccs s" "t_index (enter v s) = (t_index s)[v := t_next s]"
  "t_low (enter v s) = (t_low s)[v := t_next s]"
  "t_on_stack (enter v s) = (t_on_stack s)[v := True]"
  by (simp_all add: enter_def)

lemma visited_enter:
  assumes "shape g gray s" "v < size_of g"
  shows "visited (enter v s) = insert v (visited s)"
  using assms by (auto simp: shape_def visited_def nth_list_update)

lemma sorted_wrt_cong_set:
  "sorted_wrt P xs \<Longrightarrow> (\<And>a b. a \<in> set xs \<Longrightarrow> b \<in> set xs \<Longrightarrow> P a b \<Longrightarrow> Q a b) \<Longrightarrow> sorted_wrt Q xs"
  by (induction xs) auto

lemma shape_enter:
  assumes "shape g gray s" "candidate g v" "v \<notin> visited s" "v < size_of g"
  shows "shape g (insert v gray) (enter v s)"
proof -
  note sh = assms(1) [unfolded shape_def]
  have st: "\<And>x. x \<in> set (t_stack s) \<Longrightarrow> v \<noteq> x \<and> t_index s ! x < t_next s" using sh assms(3) by auto
  have "sorted_wrt (\<lambda>a b. (t_index s)[v := t_next s] ! b < (t_index s)[v := t_next s] ! a) (t_stack s)"
    by (rule sorted_wrt_cong_set [of "\<lambda>a b. t_index s ! b < t_index s ! a"]) (use sh st in simp_all)
  then show ?thesis
    unfolding shape_def visited_enter [OF assms(1,4)]
    using sh assms(2-4) st by (auto simp: nth_list_update)
qed

lemma paths_enter:
  assumes "shape g gray s" "paths g gray s" "v \<notin> visited s" "v < size_of g"
    and "\<And>x. x \<in> gray \<Longrightarrow> (x, v) \<in> (earcs g)\<^sup>*"
  shows "paths g (insert v gray) (enter v s)"
proof -
  note sh = assms(1) [unfolded shape_def] and pa = assms(2) [unfolded paths_def]
  have st: "x \<noteq> v" "t_index s ! x < t_next s" if "x \<in> set (t_stack s)" for x
    using that sh assms(3) by auto
  have at: "t_index (enter v s) ! x = (if x = v then t_next s else t_index s ! x)"
    if "x = v \<or> x \<in> set (t_stack s)" for x
    using that sh assms(4) st by (auto simp: nth_list_update)
  have to_v: "(x, v) \<in> (earcs g)\<^sup>*" if x: "x \<in> set (t_stack s)" for x
  proof -
    from pa x obtain y where "y \<in> gray" "(x, y) \<in> (earcs g)\<^sup>*" by blast
    with assms(5) show ?thesis by (meson rtrancl_trans)
  qed
  have 1: "\<forall>x \<in> visited (enter v s) - insert v gray. \<forall>w. (x, w) \<in> earcs g \<longrightarrow> w \<in> visited (enter v s)"
    using pa unfolding visited_enter [OF assms(1,4)] by blast
  have 2: "\<forall>x \<in> visited (enter v s) - set (t_stack (enter v s)). \<forall>w. (x, w) \<in> earcs g \<longrightarrow>
        w \<in> visited (enter v s) - set (t_stack (enter v s))"
  proof (intro ballI allI impI)
    fix x w
    assume "x \<in> visited (enter v s) - set (t_stack (enter v s))" and e: "(x, w) \<in> earcs g"
    then have "x \<in> visited s - set (t_stack s)" unfolding visited_enter [OF assms(1,4)] by simp
    with pa e have "w \<in> visited s - set (t_stack s)" by blast
    with assms(3) show "w \<in> visited (enter v s) - set (t_stack (enter v s))"
      unfolding visited_enter [OF assms(1,4)] by auto
  qed
  have 3: "\<forall>x \<in> set (t_stack (enter v s)). \<forall>y \<in> set (t_stack (enter v s)).
      t_index (enter v s) ! x \<le> t_index (enter v s) ! y \<longrightarrow> (x, y) \<in> (earcs g)\<^sup>*"
  proof (intro ballI impI)
    fix x y
    assume xy: "x \<in> set (t_stack (enter v s))" "y \<in> set (t_stack (enter v s))"
      and le: "t_index (enter v s) ! x \<le> t_index (enter v s) ! y"
    then have c: "x = v \<or> x \<in> set (t_stack s)" "y = v \<or> y \<in> set (t_stack s)" by auto
    show "(x, y) \<in> (earcs g)\<^sup>*"
    proof (cases "y = v")
      case True
      with c(1) to_v show ?thesis by auto
    next
      case False
      with c le st have "x \<in> set (t_stack s)" "y \<in> set (t_stack s)"
        "t_index s ! x \<le> t_index s ! y"
        unfolding at [OF c(1)] at [OF c(2)] by (force split: if_splits)+
      with pa show ?thesis by blast
    qed
  qed
  have 4: "\<forall>y \<in> set (t_stack (enter v s)). \<exists>x \<in> insert v gray.
      t_index (enter v s) ! x \<le> t_index (enter v s) ! y \<and> (y, x) \<in> (earcs g)\<^sup>*"
  proof
    fix y assume "y \<in> set (t_stack (enter v s))"
    then consider "y = v" | "y \<in> set (t_stack s)" by auto
    then show "\<exists>x \<in> insert v gray.
      t_index (enter v s) ! x \<le> t_index (enter v s) ! y \<and> (y, x) \<in> (earcs g)\<^sup>*"
    proof cases
      case 1
      then show ?thesis by auto
    next
      case 2
      with pa obtain x where x: "x \<in> gray" "t_index s ! x \<le> t_index s ! y"
        "(y, x) \<in> (earcs g)\<^sup>*" by blast
      with sh have "x \<in> set (t_stack s)" by blast
      with x 2 st have "t_index (enter v s) ! x \<le> t_index (enter v s) ! y"
        by (subst (1 2) at) auto
      with x show ?thesis by blast
    qed
  qed
  show ?thesis unfolding paths_def using 1 2 3 4 by blast
qed

lemma collected_enter:
  assumes "shape g gray s" "collected g s" "v \<notin> visited s" "v < size_of g"
  shows "collected g (enter v s)"
  using assms(2,3) unfolding collected_def visited_enter [OF assms(1,4)] by auto

lemma frame_enter:
  assumes "shape g gray s" "v \<notin> visited s" "v < size_of g"
  shows "frame {} s (enter v s)"
proof -
  have "u \<noteq> v" if "u \<in> visited s" for u using that assms(2) by blast
  then show ?thesis
    unfolding frame_def visited_enter [OF assms(1,3)]
    using assms by (auto simp: shape_def nth_list_update)
qed

lemma visiting_enter:
  assumes "ok g" "invar g gray s" "candidate g v" "v \<notin> visited s"
    and "\<And>x. x \<in> gray \<Longrightarrow> (x, v) \<in> (earcs g)\<^sup>*"
  shows "visiting g gray v (t_stack s) {} (enter v s)"
proof -
  have v: "v < size_of g" using assms(1,3) by (rule candidate_range)
  from assms(2) have sh: "shape g gray s" and pa: "paths g gray s" and co: "collected g s"
    by (simp_all add: invar_def)
  have "invar g (insert v gray) (enter v s)"
    using shape_enter [OF sh assms(3,4) v] paths_enter [OF sh pa assms(4) v assms(5)]
      collected_enter [OF sh co assms(4) v] by (simp add: invar_def)
  moreover have "t_low (enter v s) ! v = t_next s" "t_index (enter v s) ! v = t_next s"
    using sh v by (simp_all add: shape_def)
  moreover have "gray \<subseteq> set (t_stack s)" using sh by (simp add: shape_def)
  ultimately show ?thesis unfolding visiting_def by auto
qed

section \<open>Visiting the successors\<close>

lemma visiting_skip:
  "visiting g gray v older seen s \<Longrightarrow> \<not> candidate g w \<Longrightarrow> visiting g gray v older (insert w seen) s"
  by (simp add: visiting_def)

lemma visiting_off_stack:
  assumes "visiting g gray v older seen s" "w \<in> visited s" "w \<notin> set (t_stack s)"
  shows "visiting g gray v older (insert w seen) s"
  using assms by (auto simp: visiting_def)

lemma visiting_lower:
  assumes "visiting g gray v older seen s" "v < size_of g" "w \<in> visited s"
    and "w \<in> set older \<Longrightarrow> x \<le> t_index s ! w"
    and "(\<exists>y \<in> set (t_stack s). t_index s ! y = x \<and> (v, y) \<in> (earcs g)\<^sup>*) \<or> t_low s ! v \<le> x"
  shows "visiting g gray v older (insert w seen) (lower v x s)"
proof -
  note vi = assms(1) [unfolded visiting_def]
  then have "length (t_low s) = size_of g" by (simp add: invar_def shape_def)
  then have low: "t_low (lower v x s) ! v = min (t_low s ! v) x"
    using assms(2) by (simp add: lower_def)
  from vi obtain y where y: "y \<in> set (t_stack s)" "t_index s ! y = t_low s ! v"
    "(v, y) \<in> (earcs g)\<^sup>*" by blast
  have "\<exists>y \<in> set (t_stack s). t_index s ! y = min (t_low s ! v) x \<and> (v, y) \<in> (earcs g)\<^sup>*"
  proof (cases "t_low s ! v \<le> x")
    case True
    then show ?thesis using y by auto
  next
    case False
    then show ?thesis using assms(5) by (auto simp: min_def)
  qed
  then show ?thesis
    using vi assms(3,4) unfolding visiting_def low invar_lower lower_simps visited_lower
    by (auto simp: min_le_iff_disj)
qed

lemma visiting_on_stack:
  assumes "visiting g gray v older seen s" "v < size_of g" "(v, w) \<in> earcs g"
    and "w \<in> set (t_stack s)"
  shows "visiting g gray v older (insert w seen) (lower v (t_index s ! w) s)"
proof (rule visiting_lower [OF assms(1,2)])
  show "w \<in> visited s" using assms(1,4) by (auto simp: visiting_def invar_def shape_def)
qed (use assms in auto)

lemma visiting_connected:
  assumes "visiting g gray v older seen s" "v < size_of g" "(v, w) \<in> earcs g" "w \<notin> visited s"
    and "connected g (insert v gray) w s s'"
  shows "visiting g gray v older (insert w seen) (lower v (t_low s' ! w) s')"
proof -
  note vi = assms(1) [unfolded visiting_def] and co = assms(5) [unfolded connected_def]
  have inv: "invar g (insert v gray) s" and inv': "invar g (insert v gray) s'"
    using vi co by simp_all
  from vi obtain p where p: "t_stack s = p @ v # older"
    "\<And>x y. x \<in> set p \<Longrightarrow> y \<in> set older \<Longrightarrow> (x, y) \<in> earcs g \<Longrightarrow> t_low s ! v \<le> t_index s ! y"
    by blast
  from co obtain q where q: "t_stack s' = q @ t_stack s"
    "\<And>x y. x \<in> set q \<Longrightarrow> y \<in> set (t_stack s) \<Longrightarrow> (x, y) \<in> earcs g \<Longrightarrow>
       t_low s' ! w \<le> t_index s' ! y" by blast
  have sub: "set (t_stack s) \<subseteq> visited s" using inv by (simp add: invar_def shape_def)
  then have v: "v \<in> visited s" and old: "set older \<subseteq> visited s" using p(1) by auto
  have fr: "frame {} s s'" using co by blast
  then have same: "\<And>u. u \<in> visited s \<Longrightarrow> t_index s' ! u = t_index s ! u"
    "t_low s' ! v = t_low s ! v" and vis: "visited s \<subseteq> visited s'"
    using v by (auto simp: frame_def)
  have len: "length (t_low s') = size_of g" using inv' by (simp add: invar_def shape_def)
  let ?x = "t_low s' ! w"
  have low: "t_low (lower v ?x s') ! v = min (t_low s ! v) ?x"
    using assms(2) len same by (simp add: lower_def)
  from vi obtain y where y: "y \<in> set (t_stack s)" "t_index s ! y = t_low s ! v"
    "(v, y) \<in> (earcs g)\<^sup>*" by blast
  have index_v: "t_index s ! v < t_next s" "t_low s ! v \<le> t_index s ! v"
    using v inv vi by (auto simp: invar_def shape_def)
  have wit: "\<exists>y \<in> set (t_stack s'). t_index s' ! y = min (t_low s ! v) ?x \<and> (v, y) \<in> (earcs g)\<^sup>*"
  proof (cases "t_low s ! v \<le> ?x")
    case True
    then show ?thesis using y q(1) same sub by (intro bexI [of _ y]) auto
  next
    case False
    with co index_v obtain z where z: "z \<in> set (t_stack s')" "t_index s' ! z = ?x"
      "(w, z) \<in> (earcs g)\<^sup>*" by fastforce
    with assms(3) have "(v, z) \<in> (earcs g)\<^sup>*" by (meson converse_rtrancl_into_rtrancl)
    with z False show ?thesis by (intro bexI [of _ z]) auto
  qed
  have stack: "t_stack s' = (q @ p) @ v # older" using p(1) q(1) by simp
  have lows: "min (t_low s ! v) ?x \<le> t_index s' ! y"
    if "x \<in> set (q @ p)" "y \<in> set older" "(x, y) \<in> earcs g" for x y
  proof (cases "x \<in> set q")
    case True
    with q(2) [of x y] that p(1) show ?thesis by simp
  next
    case False
    with p(2) [of x y] that old same(1) [of y] show ?thesis by auto
  qed
  have seen: "u \<in> visited s' \<and> (u \<in> set older \<longrightarrow> min (t_low s ! v) ?x \<le> t_index s' ! u)"
    if "u \<in> insert w seen" "candidate g u" for u
  proof (cases "u = w")
    case True
    then show ?thesis using assms(4) old co by auto
  next
    case False
    with that vi have "u \<in> visited s" "u \<in> set older \<Longrightarrow> t_low s ! v \<le> t_index s ! u" by auto
    then show ?thesis using vis same(1) [of u] by auto
  qed
  show ?thesis
    unfolding visiting_def low invar_lower lower_simps visited_lower
    using inv' vi stack lows wit seen same(1) [OF v] index_v by (auto simp: min_le_iff_disj)
qed

section \<open>Leaving a symbol\<close>

lemma visiting_order:
  assumes "visiting g gray v older seen s" "t_stack s = p @ v # older"
  shows "x \<in> set p \<Longrightarrow> t_index s ! v < t_index s ! x"
    and "y \<in> set older \<Longrightarrow> t_index s ! y < t_index s ! v"
    and "v \<notin> set p" "v \<notin> set older" "set p \<inter> set older = {}" "distinct (t_stack s)"
proof -
  have so: "sorted_wrt (\<lambda>a b. t_index s ! b < t_index s ! a) (p @ v # older)"
    using assms by (simp add: visiting_def invar_def shape_def)
  then have lt: "\<forall>x \<in> set p. \<forall>y \<in> insert v (set older). t_index s ! y < t_index s ! x"
    "\<forall>y \<in> set older. t_index s ! y < t_index s ! v" by (auto simp: sorted_wrt_append)
  show "x \<in> set p \<Longrightarrow> t_index s ! v < t_index s ! x"
    and "y \<in> set older \<Longrightarrow> t_index s ! y < t_index s ! v"
    and "v \<notin> set p" "v \<notin> set older" "set p \<inter> set older = {}" using lt by fastforce+
  have "sorted_wrt (\<lambda>a b. t_index s ! b < t_index s ! a) xs \<Longrightarrow> distinct xs" for xs
    by (induction xs) auto
  with so show "distinct (t_stack s)" by (simp only: assms(2))
qed

lemma visiting_mutual:
  assumes "visiting g gray v older seen s" "t_stack s = p @ v # older" "x \<in> set (p @ [v])"
  shows "(v, x) \<in> (earcs g)\<^sup>* \<and> (x, v) \<in> (earcs g)\<^sup>*"
proof -
  have pa: "paths g (insert v gray) s" and gray: "gray \<subseteq> set older"
    using assms(1) by (simp_all add: visiting_def invar_def)
  have reach: "(a, b) \<in> (earcs g)\<^sup>*"
    if "a \<in> set (t_stack s)" "b \<in> set (t_stack s)" "t_index s ! a \<le> t_index s ! b" for a b
    using pa that unfolding paths_def by blast
  have x: "x \<in> set (t_stack s)" "t_index s ! v \<le> t_index s ! x"
    using assms(2,3) visiting_order(1) [OF assms(1,2), of x]
    by (cases "x = v"; simp)+
  have v: "v \<in> set (t_stack s)" using assms(2) by simp
  from pa x obtain y where y: "y \<in> insert v gray" "t_index s ! y \<le> t_index s ! x"
    "(x, y) \<in> (earcs g)\<^sup>*" unfolding paths_def by blast
  have "y \<in> set (t_stack s) \<and> t_index s ! y \<le> t_index s ! v"
    using y(1) gray v visiting_order(2) [OF assms(1,2), of y] assms(2) by auto
  then have "(y, v) \<in> (earcs g)\<^sup>*" using reach v by blast
  with y(3) have "(x, v) \<in> (earcs g)\<^sup>*" by (rule rtrancl_trans)
  with reach [OF v x] show ?thesis by blast
qed

lemma visiting_successor:
  assumes "visiting g gray v older (set (adj g ! v)) s" "t_stack s = p @ v # older"
    and "x \<in> set (p @ [v])" "(x, w) \<in> earcs g"
  shows "w \<in> visited s \<and> (w \<in> set older \<longrightarrow> t_low s ! v \<le> t_index s ! w)"
proof (cases "x = v")
  case True
  with assms(1,4) show ?thesis by (auto simp: visiting_def earcs_def)
next
  case False
  with assms(3) have x: "x \<in> set p" by simp
  note order = visiting_order [OF assms(1,2)]
  have "set (t_stack s) \<subseteq> visited s" "gray \<subseteq> set older"
    using assms(1) by (simp_all add: visiting_def invar_def shape_def)
  then have "x \<in> visited s - insert v gray" using assms(2) x False order(5) by auto
  moreover have "paths g (insert v gray) s" using assms(1) by (simp add: visiting_def invar_def)
  ultimately have "w \<in> visited s" using assms(4) unfolding paths_def by blast
  moreover from assms(1) obtain q where q: "t_stack s = q @ v # older"
    "\<forall>x \<in> set q. \<forall>y \<in> set older. (x, y) \<in> earcs g \<longrightarrow> t_low s ! v \<le> t_index s ! y"
    unfolding visiting_def by blast
  moreover have "q = p" using q(1) assms(2) by simp
  ultimately have "w \<in> visited s" "w \<in> set older \<longrightarrow> t_low s ! v \<le> t_index s ! w"
    using assms(4) x by blast+
  then show ?thesis by blast
qed

text \<open>When the low link is the symbol's own index, everything above it on the stack is closed.\<close>

lemma closed_rtrancl:
  assumes "(a, b) \<in> r\<^sup>*" "a \<in> X" "\<And>x y. x \<in> X \<Longrightarrow> (x, y) \<in> r \<Longrightarrow> y \<in> X"
  shows "b \<in> X"
  using assms(1,2) by (induction rule: rtrancl_induct) (auto dest: assms(3))

lemma root_component:
  assumes "visiting g gray v older (set (adj g ! v)) s" "t_stack s = p @ v # older"
    and "t_low s ! v = t_index s ! v"
  shows "mutual g v = set (p @ [v])"
    and "x \<in> set (p @ [v]) \<Longrightarrow> (x, w) \<in> earcs g \<Longrightarrow> w \<in> visited s - set older"
proof -
  note order = visiting_order [OF assms(1,2)]
  have step: "w \<in> visited s - set older" if "x \<in> set (p @ [v])" "(x, w) \<in> earcs g" for x w
    using visiting_successor [OF assms(1,2) that] order(2) [of w] assms(3) by fastforce
  then show "x \<in> set (p @ [v]) \<Longrightarrow> (x, w) \<in> earcs g \<Longrightarrow> w \<in> visited s - set older" .
  let ?D = "visited s - set (t_stack s)"
  have D: "y \<in> ?D" if "x \<in> ?D" "(x, y) \<in> earcs g" for x y
  proof -
    have "paths g (insert v gray) s" using assms(1) by (simp add: visiting_def invar_def)
    then show ?thesis using that unfolding paths_def by blast
  qed
  have X: "y \<in> set (p @ [v]) \<union> ?D" if "x \<in> set (p @ [v]) \<union> ?D" "(x, y) \<in> earcs g" for x y
    using that step [of x y] D [of x y] by (auto simp: assms(2))
  show "mutual g v = set (p @ [v])"
  proof
    show "set (p @ [v]) \<subseteq> mutual g v"
      using visiting_mutual [OF assms(1,2)] by (auto simp: mutual_def)
    show "mutual g v \<subseteq> set (p @ [v])"
    proof
      fix z assume "z \<in> mutual g v"
      then have z: "(v, z) \<in> (earcs g)\<^sup>*" "(z, v) \<in> (earcs g)\<^sup>*" by (simp_all add: mutual_def)
      have "z \<in> set (p @ [v]) \<union> ?D" by (rule closed_rtrancl [OF z(1) _ X]) auto
      moreover have "z \<notin> ?D"
      proof
        assume "z \<in> ?D"
        from closed_rtrancl [OF z(2) this D] show False by (simp add: assms(2))
      qed
      ultimately show "z \<in> set (p @ [v])" by blast
    qed
  qed
qed

lemma leave_root:
  assumes "visiting g gray v older (set (adj g ! v)) s" "t_stack s = p @ v # older"
    and "t_low s ! v = t_index s ! v"
  shows "t_stack (leave (arrange g) v s) = older" "t_sccs (leave (arrange g) v s) = t_sccs s @ [arrange g (p @ [v])]"
    "t_on_stack (leave (arrange g) v s) = fold (\<lambda>m f. f[m := False]) (p @ [v]) (t_on_stack s)"
    "t_index (leave (arrange g) v s) = t_index s" "t_low (leave (arrange g) v s) = t_low s"
    "t_next (leave (arrange g) v s) = t_next s" "visited (leave (arrange g) v s) = visited s"
proof -
  have "leave (arrange g) v s = s\<lparr>t_stack := older,
      t_on_stack := fold (\<lambda>m f. f[m := False]) (p @ [v]) (t_on_stack s),
      t_sccs := t_sccs s @ [arrange g (p @ [v])]\<rparr>"
    using visiting_order(3) [OF assms(1,2)]
    by (simp add: leave_def assms(2,3) pop_until_spec del: fold_append)
  then show "t_stack (leave (arrange g) v s) = older" "t_sccs (leave (arrange g) v s) = t_sccs s @ [arrange g (p @ [v])]"
    "t_on_stack (leave (arrange g) v s) = fold (\<lambda>m f. f[m := False]) (p @ [v]) (t_on_stack s)"
    "t_index (leave (arrange g) v s) = t_index s" "t_low (leave (arrange g) v s) = t_low s"
    "t_next (leave (arrange g) v s) = t_next s" "visited (leave (arrange g) v s) = visited s"
    by (simp_all add: visited_def del: fold_append)
qed

lemma leave_root_invar:
  assumes "visiting g gray v older (set (adj g ! v)) s" "t_stack s = p @ v # older"
    and "t_low s ! v = t_index s ! v"
  shows "invar g gray (leave (arrange g) v s)"
proof -
  note eqs = leave_root [OF assms] and order = visiting_order [OF assms(1,2)]
  from assms(1) have sh: "shape g (insert v gray) s" and pa: "paths g (insert v gray) s"
    and co: "collected g s" and gray: "gray \<subseteq> set older"
    by (simp_all add: visiting_def invar_def)
  have "shape g gray (leave (arrange g) v s)"
    using sh gray order(3-5) unfolding shape_def eqs assms(2)
    by (auto simp: sorted_wrt_append clear_flags_nth simp del: fold_append)
  moreover have "paths g gray (leave (arrange g) v s)"
    unfolding paths_def eqs
  proof (intro conjI ballI allI impI)
    fix x w assume x: "x \<in> visited s - gray" and e: "(x, w) \<in> earcs g"
    show "w \<in> visited s"
    proof (cases "x = v")
      case True
      with root_component(2) [OF assms _ e] show ?thesis by simp
    next
      case False
      with x e pa show ?thesis unfolding paths_def by blast
    qed
  next
    fix x w assume x: "x \<in> visited s - set older" and e: "(x, w) \<in> earcs g"
    show "w \<in> visited s - set older"
    proof (cases "x \<in> set (p @ [v])")
      case True
      with root_component(2) [OF assms _ e] show ?thesis by blast
    next
      case False
      with x have "x \<in> visited s - set (t_stack s)" by (simp add: assms(2))
      with e pa have "w \<in> visited s - set (t_stack s)" unfolding paths_def by blast
      then show ?thesis by (simp add: assms(2))
    qed
  next
    fix x y assume "x \<in> set older" "y \<in> set older" "t_index s ! x \<le> t_index s ! y"
    moreover have "set older \<subseteq> set (t_stack s)" using assms(2) by auto
    ultimately show "(x, y) \<in> (earcs g)\<^sup>*" using pa unfolding paths_def by blast
  next
    fix y assume y: "y \<in> set older"
    then have "y \<in> set (t_stack s)" using assms(2) by simp
    with pa obtain x where "x \<in> insert v gray" "t_index s ! x \<le> t_index s ! y"
      "(y, x) \<in> (earcs g)\<^sup>*" unfolding paths_def by blast
    moreover from this(2) have "x \<noteq> v" using order(2) [OF y] by auto
    ultimately show "\<exists>x \<in> gray. t_index s ! x \<le> t_index s ! y \<and> (y, x) \<in> (earcs g)\<^sup>*" by blast
  qed
  moreover have "collected g (leave (arrange g) v s)"
  proof -
    have ms: "mset (arrange g (p @ [v])) = mset (p @ [v])" by (rule arrange_mset)
    have set_c: "set (arrange g (p @ [v])) = set (p @ [v])" using ms by (rule mset_eq_setD)
    have dist_c: "distinct (arrange g (p @ [v]))"
      using ms order(3,6) mset_eq_imp_distinct_iff [OF ms] by (simp add: assms(2))
    have sub: "set (t_stack s) \<subseteq> visited s" using sh by (simp add: shape_def)
    have c1: "set (concat (t_sccs s @ [arrange g (p @ [v])])) = visited s - set older"
    proof -
      have "set (concat (t_sccs s @ [arrange g (p @ [v])])) =
          (visited s - set (t_stack s)) \<union> set (p @ [v])"
        using co set_c by (simp add: collected_def)
      also have "\<dots> = visited s - set older" using sub order(3-5) by (auto simp: assms(2))
      finally show ?thesis .
    qed
    have c2: "distinct (concat (t_sccs s @ [arrange g (p @ [v])]))"
    proof -
      have "set (concat (t_sccs s)) \<inter> set (p @ [v]) = {}"
        using co by (auto simp: collected_def assms(2))
      moreover have "distinct (concat (t_sccs s))" using co by (simp add: collected_def)
      ultimately show ?thesis using dist_c set_c by (simp only: concat_append distinct_append) simp
    qed
    have c3: "v \<in> set (arrange g (p @ [v])) \<and> set (arrange g (p @ [v])) = mutual g v"
      using set_c root_component(1) [OF assms] by simp
    show ?thesis
      using co c1 c2 c3 unfolding collected_def eqs
      by (intro conjI) (simp_all del: concat_append set_append, auto)
  qed
  ultimately show ?thesis by (simp add: invar_def)
qed

lemma leave_inner_invar:
  assumes "visiting g gray v older (set (adj g ! v)) s" "t_stack s = p @ v # older"
    and "t_low s ! v \<noteq> t_index s ! v"
  shows "invar g gray s"
proof -
  note order = visiting_order [OF assms(1,2)]
  from assms(1) have sh: "shape g (insert v gray) s" and pa: "paths g (insert v gray) s"
    and co: "collected g s" and lt: "t_low s ! v < t_index s ! v"
    using assms(3) by (simp_all add: visiting_def invar_def)
  have "\<exists>x \<in> gray. t_index s ! x \<le> t_index s ! y \<and> (y, x) \<in> (earcs g)\<^sup>*"
    if y: "y \<in> set (t_stack s)" for y
  proof -
    from assms(1) obtain z where z: "z \<in> set (t_stack s)" "t_index s ! z = t_low s ! v"
      "(v, z) \<in> (earcs g)\<^sup>*" unfolding visiting_def by blast
    from pa z obtain x where x: "x \<in> insert v gray" "t_index s ! x \<le> t_index s ! z"
      "(z, x) \<in> (earcs g)\<^sup>*" unfolding paths_def by blast
    from pa y obtain u where u: "u \<in> insert v gray" "t_index s ! u \<le> t_index s ! y"
      "(y, u) \<in> (earcs g)\<^sup>*" unfolding paths_def by blast
    show ?thesis
    proof (cases "u = v")
      case True
      have "(y, x) \<in> (earcs g)\<^sup>*" using u(3) z(3) x(3) True by (meson rtrancl_trans)
      moreover have "x \<in> gray" using x lt z(2) by auto
      moreover have "t_index s ! x \<le> t_index s ! y" using x(2) z(2) lt u(2) True by simp
      ultimately show ?thesis by blast
    next
      case False
      with u show ?thesis by blast
    qed
  qed
  moreover have "w \<in> visited s" if "x \<in> visited s - gray" "(x, w) \<in> earcs g" for x w
  proof (cases "x = v")
    case True
    with visiting_successor [OF assms(1,2) _ that(2)] show ?thesis by simp
  next
    case False
    with that pa show ?thesis unfolding paths_def by blast
  qed
  ultimately have "paths g gray s" using pa unfolding paths_def by blast
  with sh co show ?thesis by (simp add: invar_def shape_def)
qed

lemma visiting_leave:
  assumes "visiting g gray v (t_stack s0) (set (adj g ! v)) s" "frame {} s0 s" "v \<in> visited s"
    and "t_next s0 \<le> t_index s ! v"
  shows "connected g gray v s0 (leave (arrange g) v s)"
proof -
  let ?older = "t_stack s0"
  from assms(1) obtain p where p: "t_stack s = p @ v # ?older" unfolding visiting_def by blast
  show ?thesis
  proof (cases "t_low s ! v = t_index s ! v")
    case True
    note eqs = leave_root [OF assms(1) p True]
    have "frame {} s0 (leave (arrange g) v s)" using assms(2) unfolding frame_def eqs .
    then show ?thesis
      using leave_root_invar [OF assms(1) p True] assms(3,4) True
      unfolding connected_def eqs by simp
  next
    case False
    then have same: "leave (arrange g) v s = s" by (simp add: leave_def)
    have "t_low s ! v \<le> t_index s ! y"
      if "x \<in> set (p @ [v])" "y \<in> set ?older" "(x, y) \<in> earcs g" for x y
      using visiting_successor [OF assms(1) p that(1,3)] that(2) by blast
    moreover have "t_stack s = (p @ [v]) @ ?older" using p by simp
    moreover have "\<exists>y \<in> set (t_stack s). t_index s ! y = t_low s ! v \<and> (v, y) \<in> (earcs g)\<^sup>*"
      using assms(1) by (simp add: visiting_def)
    ultimately show ?thesis
      using leave_inner_invar [OF assms(1) p False] assms(2,3)
      unfolding connected_def same by blast
  qed
qed

section \<open>Total correctness\<close>

definition unvisited :: "'g \<Rightarrow> tarjan \<Rightarrow> nat" where
  "unvisited g s = card ({..<size_of g} - visited s)"

lemma unvisited_mono: "visited s \<subseteq> visited s' \<Longrightarrow> unvisited g s' \<le> unvisited g s"
  unfolding unvisited_def by (rule card_mono) auto

lemma unvisited_enter:
  assumes "shape g gray s" "v \<notin> visited s" "v < size_of g"
  shows "unvisited g s = Suc (unvisited g (enter v s))"
proof -
  have "{..<size_of g} - visited s = insert v ({..<size_of g} - visited (enter v s))"
    unfolding visited_enter [OF assms(1,3)] using assms(2,3) by blast
  then have "card ({..<size_of g} - visited s) = card (insert v ({..<size_of g} - visited (enter v s)))"
    by (rule arg_cong)
  also have "\<dots> = Suc (card ({..<size_of g} - visited (enter v s)))"
    by (rule card_insert_disjoint) (simp_all add: visited_enter [OF assms(1,3)])
  finally show ?thesis by (simp only: unvisited_def)
qed

lemma frame_connected_next: "frame {} s s' \<Longrightarrow> unvisited g s' \<le> unvisited g s"
  by (rule unvisited_mono) (simp add: frame_def)

lemma visited_index:
  "invar g gray s \<Longrightarrow> v < size_of g \<Longrightarrow> t_index s ! v = -1 \<longleftrightarrow> v \<notin> visited s"
  by (simp add: invar_def shape_def visited_def)

lemma connect_total:
  assumes "ok g"
  shows "invar g gray s \<Longrightarrow> candidate g v \<Longrightarrow> v \<notin> visited s \<Longrightarrow>
      (\<And>x. x \<in> gray \<Longrightarrow> (x, v) \<in> (earcs g)\<^sup>*) \<Longrightarrow> unvisited g s \<le> fuel \<Longrightarrow>
      \<exists>s'. strong_connect (adj g) (candidate g) (arrange g) fuel v s = Some s' \<and>
        connected g gray v s s'"
    and "visiting g gray v older seen s \<Longrightarrow> candidate g v \<Longrightarrow> set ws \<subseteq> set (adj g ! v) \<Longrightarrow>
      unvisited g s \<le> fuel \<Longrightarrow>
      \<exists>s'. visit_successors (adj g) (candidate g) (arrange g) fuel v ws s = Some s' \<and>
        visiting g gray v older (seen \<union> set ws) s' \<and> frame {v} s s'"
proof (induction "adj g" "candidate g" "arrange g" fuel v s and
    "adj g" "candidate g" "arrange g" fuel v ws s
    arbitrary: gray and gray older seen
    rule: strong_connect_visit_successors.induct)
  case (1 v s)
  have v: "v < size_of g" using assms 1 candidate_range by blast
  have "unvisited g s \<noteq> 0"
    using unvisited_enter [of g gray s v] 1 v by (simp add: invar_def)
  with 1 show ?case by simp
next
  case (2 fuel v s)
  have v: "v < size_of g" using assms 2 candidate_range by blast
  have sh: "shape g gray s" using 2 by (simp add: invar_def)
  have "unvisited g (enter v s) \<le> fuel"
    using unvisited_enter [OF sh 2(4) v] 2(6) by simp
  from 2(1) [OF visiting_enter [OF assms 2(2-5)] 2(3) order_refl this]
  obtain s1 where s1: "visit_successors (adj g) (candidate g) (arrange g) fuel v (adj g ! v)
      (enter v s) = Some s1"
    "visiting g gray v (t_stack s) (set (adj g ! v)) s1" "frame {v} (enter v s) s1" by auto
  have vis: "v \<in> visited (enter v s)" by (simp add: visited_enter [OF sh v])
  have fr: "frame {v} s s1"
    using frame_trans [OF frame_mono [OF frame_enter [OF sh 2(4) v]] s1(3)] by simp
  then have "frame {} s s1" using 2(4) by (auto simp: frame_def)
  moreover have "v \<in> visited s1" "t_index s1 ! v = t_next s"
    using s1(3) vis v sh by (auto simp: frame_def shape_def)
  ultimately have "connected g gray v s (leave (arrange g) v s1)"
    by (intro visiting_leave [OF s1(2)]) auto
  with s1(1) show ?case by simp
next
  case (3 fuel v s)
  then show ?case by (simp add: frame_refl)
next
  case (4 fuel v w ws s)
  have v: "v < size_of g" using assms 4(7) by (rule candidate_range)
  have inv: "invar g (insert v gray) s" using 4(6) by (simp add: visiting_def)
  show ?case
  proof (cases "candidate g w")
    case False
    from 4(1) [OF False visiting_skip [OF 4(6) False] 4(7) _ 4(9)] 4(8) False
    show ?thesis by auto
  next
    case w: True
    then have wn: "w < size_of g" using assms by (simp add: candidate_range)
    have arc: "(v, w) \<in> earcs g" using 4(7,8) w by (simp add: earcs_def)
    note new = visited_index [OF inv wn]
    show ?thesis
    proof (cases "t_index s ! w = -1")
      case True
      then have unv: "w \<notin> visited s" using new by simp
      have "(x, w) \<in> (earcs g)\<^sup>*" if "x \<in> insert v gray" for x
      proof -
        from 4(6) obtain p where p: "t_stack s = p @ v # older" unfolding visiting_def by blast
        have "x \<in> set (t_stack s) \<and> t_index s ! x \<le> t_index s ! v"
          using that visiting_order(2) [OF 4(6) p, of x] 4(6) p by (auto simp: visiting_def)
        moreover have "v \<in> set (t_stack s)" using p by simp
        ultimately have "(x, v) \<in> (earcs g)\<^sup>*" using inv unfolding invar_def paths_def by blast
        then show ?thesis using arc by (rule rtrancl_into_rtrancl)
      qed
      from 4(2) [OF _ True inv w unv this 4(9)] w obtain s1 where s1:
        "strong_connect (adj g) (candidate g) (arrange g) fuel w s = Some s1"
        "connected g (insert v gray) w s s1" by auto
      let ?s2 = "lower v (t_low s1 ! w) s1"
      have fr: "frame {} s s1" using s1(2) by (simp add: connected_def)
      have "unvisited g ?s2 \<le> fuel"
        using frame_connected_next [OF fr, of g] 4(9) by (simp add: unvisited_def)
      from 4(3) [OF _ True s1(1) visiting_connected [OF 4(6) v arc unv s1(2)] 4(7) _ this] w 4(8)
      obtain s' where s': "visit_successors (adj g) (candidate g) (arrange g) fuel v ws ?s2 = Some s'"
        "visiting g gray v older (insert w seen \<union> set ws) s'" "frame {v} ?s2 s'" by auto
      have "frame {v} s s'"
        using frame_trans [OF frame_trans [OF frame_mono [OF fr] frame_lower] s'(3)] by simp
      with s' s1(1) w True show ?thesis by simp
    next
      case False
      then have vis: "w \<in> visited s" using new by simp
      have os: "t_on_stack s ! w \<longleftrightarrow> w \<in> set (t_stack s)"
        using inv wn by (simp add: invar_def shape_def)
      show ?thesis
      proof (cases "t_on_stack s ! w")
        case True
        have "unvisited g (lower v (t_index s ! w) s) \<le> fuel"
          using 4(9) by (simp add: unvisited_def)
        from 4(4) [OF _ False True visiting_on_stack [OF 4(6) v arc] 4(7) _ this] w 4(8) os True
        obtain s' where s': "visit_successors (adj g) (candidate g) (arrange g) fuel v ws
            (lower v (t_index s ! w) s) = Some s'"
          "visiting g gray v older (insert w seen \<union> set ws) s'"
          "frame {v} (lower v (t_index s ! w) s) s'" by auto
        with frame_trans [OF frame_lower s'(3)] w False True show ?thesis by simp
      next
        case off: False
        with visiting_off_stack [OF 4(6) vis] os
        have "visiting g gray v older (insert w seen) s" by simp
        from "4.hyps"(5) [OF _ False off this 4(7) _ 4(9)] w 4(8) False off show ?thesis by auto
      qed
    qed
  qed
qed

lemma invar_start: "invar g {} (tarjan_start (size_of g))"
proof -
  have "visited (tarjan_start (size_of g)) = {}" by (auto simp: visited_def tarjan_start_def)
  then show ?thesis
    by (simp add: invar_def shape_def paths_def collected_def) (simp add: tarjan_start_def)
qed

lemma connect_all_total:
  assumes "ok g" "invar g {} s" "set vs \<subseteq> {..<size_of g}" "unvisited g s \<le> fuel"
  shows "\<exists>s'. connect_all (adj g) (candidate g) (arrange g) fuel vs s = Some s' \<and>
    invar g {} s' \<and> visited s \<subseteq> visited s' \<and> (\<forall>v \<in> set vs. candidate g v \<longrightarrow> v \<in> visited s')"
  using assms(2-)
proof (induction vs arbitrary: s)
  case Nil
  then show ?case by simp
next
  case (Cons v vs)
  have v: "v < size_of g" using Cons.prems(2) by simp
  note new = visited_index [OF Cons.prems(1) v]
  show ?case
  proof (cases "candidate g v \<and> t_index s ! v = -1")
    case True
    then have "v \<notin> visited s" using new by simp
    from connect_total(1) [OF assms(1) Cons.prems(1) _ this _ Cons.prems(3)] True
    obtain s1 where s1: "strong_connect (adj g) (candidate g) (arrange g) fuel v s = Some s1"
      "connected g {} v s s1" by auto
    then have inv: "invar g {} s1" and fr: "frame {} s s1" and vis: "v \<in> visited s1"
      by (simp_all add: connected_def)
    have "unvisited g s1 \<le> fuel" using frame_connected_next [OF fr, of g] Cons.prems(3) by simp
    from Cons.IH [OF inv _ this] Cons.prems(2) obtain s' where s':
      "connect_all (adj g) (candidate g) (arrange g) fuel vs s1 = Some s'" "invar g {} s'"
      "visited s1 \<subseteq> visited s'" "\<forall>v \<in> set vs. candidate g v \<longrightarrow> v \<in> visited s'" by auto
    moreover have "visited s \<subseteq> visited s1" using fr by (simp add: frame_def)
    ultimately show ?thesis using s1(1) True vis by auto
  next
    case False
    from Cons.IH [OF Cons.prems(1) _ Cons.prems(3)] Cons.prems(2) obtain s' where
      "connect_all (adj g) (candidate g) (arrange g) fuel vs s = Some s'" "invar g {} s'"
      "visited s \<subseteq> visited s'" "\<forall>v \<in> set vs. candidate g v \<longrightarrow> v \<in> visited s'" by auto
    with False new show ?thesis by auto
  qed
qed

lemma components_correct:
  assumes "ok g"
  shows "\<exists>s. connect_all (adj g) (candidate g) (arrange g) (size_of g) [0..<size_of g]
      (tarjan_start (size_of g)) = Some s \<and>
    distinct (concat (t_sccs s)) \<and> set (concat (t_sccs s)) = {v. candidate g v} \<and>
    (\<forall>c \<in> set (t_sccs s). \<exists>p. c = arrange g p) \<and>
    (\<forall>c \<in> set (t_sccs s). \<exists>v. v \<in> set c \<and> set c = mutual g v)"
proof -
  have "unvisited g (tarjan_start (size_of g)) \<le> card {..<size_of g}"
    unfolding unvisited_def by (rule card_mono) auto
  then have "unvisited g (tarjan_start (size_of g)) \<le> size_of g" by simp
  note total = connect_all_total [OF assms invar_start _ this, of "[0..<size_of g]"]
  have "set [0..<size_of g] \<subseteq> {..<size_of g}" by auto
  from total [OF this] obtain s where
    s: "connect_all (adj g) (candidate g) (arrange g) (size_of g) [0..<size_of g]
      (tarjan_start (size_of g)) = Some s"
    and inv: "invar g {} s" and all: "\<forall>v < size_of g. candidate g v \<longrightarrow> v \<in> visited s"
    by auto
  have co: "collected g s" using inv by (simp add: invar_def)
  have "paths g {} s" using inv by (simp add: invar_def)
  then have "\<forall>y \<in> set (t_stack s). \<exists>x \<in> {}. t_index s ! x \<le> t_index s ! y \<and> (y, x) \<in> (earcs g)\<^sup>*"
    unfolding paths_def by (elim conjE)
  then have empty: "set (t_stack s) = {}" by (intro equals0I) auto
  have "visited s = {v. candidate g v}"
    using all inv candidate_range [OF assms] unfolding invar_def shape_def by blast
  then show ?thesis using s co empty by (simp add: collected_def)
qed

lemma mutual_equiv: "w \<in> mutual g v \<Longrightarrow> mutual g w = mutual g v"
  by (auto simp: mutual_def intro: rtrancl_trans)

end

end
