(* ===== verification/Condensation.thy ===== *)
theory Condensation
  imports Tarjan
begin

text \<open>
  The rest of \<open>analyze_reachability\<close>: which unreachable symbols are candidates, their
  strongly connected components in report order, the condensation edges between components
  and the weakly connected groups of components. The locale \<open>candidate_graph\<close> is
  interpreted on the graph's full adjacency and the code's candidate test.
\<close>

section \<open>Candidates and components\<close>

text \<open>The bound only makes the predicate total; the code asks it of ids of the graph.\<close>

definition is_candidate :: "graph \<Rightarrow> bool list \<Rightarrow> nat \<Rightarrow> bool" where
  "is_candidate g reached i \<longleftrightarrow> i < length (g_symbols g) \<and>
     sym_defined (g_symbols g ! i) \<and> is_reportable (sym_scope (g_symbols g ! i)) \<and>
     \<not> reached ! i \<and> sym_kind (g_symbols g ! i) \<noteq> Synthetic"

definition component_order :: "graph \<Rightarrow> nat list \<Rightarrow> nat list" where
  "component_order g =
     sort_key (\<lambda>i. (sym_qualified_name (g_symbols g ! i), sym_signature (g_symbols g ! i)))"

definition component_key :: "graph \<Rightarrow> nat list \<Rightarrow> string \<times> nat \<times> nat \<times> string" where
  "component_key g c =
     (let s = g_symbols g ! hd c; l = sx_location (primary_source_extent s)
      in (sp_file l, sp_line l, sp_column l, sym_key s))"

definition unreachable_sccs :: "graph \<Rightarrow> nat list list option" where
  "unreachable_sccs g =
     (let n = length (g_symbols g); reached = reachable g in
      map_option (\<lambda>s. sort_key (component_key g) (t_sccs s))
        (connect_all (full_adjacency g) (is_candidate g reached) (component_order g) n
           [0..<n] (tarjan_start n)))"

section \<open>Condensation\<close>

record condensation_edge =
  ce_from :: nat
  ce_to :: nat

definition scc_by_symbol :: "nat \<Rightarrow> nat list list \<Rightarrow> int list" where
  "scc_by_symbol n sccs =
     fold (\<lambda>(scc, members) v. fold (\<lambda>i v. v[i := int scc]) members v)
       (enumerate 0 sccs) (replicate n (-1))"

definition condensation_edges :: "graph \<Rightarrow> nat list list \<Rightarrow> condensation_edge list" where
  "condensation_edges g sccs =
     (let scc_of = scc_by_symbol (length (g_symbols g)) sccs;
          pushed = fold (\<lambda>e edges.
            if \<not> is_traversable (edge_kind e) then edges
            else
              let from_scc = scc_of ! edge_from e; to_scc = scc_of ! edge_to e in
              if from_scc < 0 \<or> to_scc < 0 \<or> from_scc = to_scc then edges
              else edges @ [\<lparr>ce_from = nat from_scc, ce_to = nat to_scc\<rparr>]) (g_edges g) []
      in remdups_adj (sort_key (\<lambda>e. (ce_from e, ce_to e)) pushed))"

section \<open>Weak components\<close>

definition weak_adjacency :: "nat \<Rightarrow> condensation_edge list \<Rightarrow> nat list list" where
  "weak_adjacency n edges =
     fold (\<lambda>e adj. push_adjacent (ce_to e) (ce_from e) (push_adjacent (ce_from e) (ce_to e) adj))
       edges (replicate n [])"

function collect_component ::
    "nat list list \<Rightarrow> bool list \<Rightarrow> nat list \<Rightarrow> nat list \<Rightarrow> bool list \<times> nat list" where
  "collect_component adj assigned [] component = (assigned, component)"
| "collect_component adj assigned (current # pending) component =
     (let (assigned', pending') = fold mark (adj ! current) (assigned, pending)
      in collect_component adj assigned' pending' (component @ [current]))"
  by pat_completeness auto
termination
proof (relation "measure (\<lambda>(adj, r, st, c). unreached r + unreached r + length st)", goal_cases)
  case 1
  then show ?case by simp
next
  case (2 adj reached current stack c x y z)
  then have f: "fold mark (adj ! current) (reached, stack) = (y, z)" by simp
  from unreached_mark_all [of "adj ! current" "(reached, stack)"]
  have "unreached y \<le> unreached reached" by (simp only: f fst_conv)
  with mark_all_measure [OF f] show ?case by simp
qed

definition weak_components :: "nat \<Rightarrow> condensation_edge list \<Rightarrow> nat list list" where
  "weak_components n edges =
     (let adj = weak_adjacency n edges;
          (assigned, components) =
            fold (\<lambda>first (assigned, components).
              if assigned ! first then (assigned, components)
              else
                let (assigned', component) =
                      collect_component adj (assigned[first := True]) [first] []
                in (assigned', components @ [sort component]))
            [0..<n] (replicate n False, [])
      in sort_key hd components)"

section \<open>The whole analysis\<close>

record reachability_result =
  rr_reachable :: "bool list"
  rr_structurally_reachable :: "bool list"
  rr_provider_reachable :: "bool list"
  rr_unreachable_sccs :: "nat list list"
  rr_condensation_edges :: "condensation_edge list"
  rr_weak_components :: "nat list list"

definition analyze_reachability :: "graph \<Rightarrow> reachability_result option" where
  "analyze_reachability g =
     map_option (\<lambda>sccs.
       let edges = condensation_edges g sccs in
       \<lparr>rr_reachable = reachable g, rr_structurally_reachable = structurally_reachable g,
         rr_provider_reachable = provider_reachable g, rr_unreachable_sccs = sccs,
         rr_condensation_edges = edges,
         rr_weak_components = weak_components (length sccs) edges\<rparr>) (unreachable_sccs g)"

section \<open>The components are the classes of mutual reachability\<close>

interpretation candidates: candidate_graph graph_wf "\<lambda>g. length (g_symbols g)" full_adjacency
    "\<lambda>g. is_candidate g (reachable g)" component_order
  by unfold_locales (simp_all add: is_candidate_def component_order_def)

text \<open>The calls between candidates.\<close>

definition dead_arcs :: "graph \<Rightarrow> (nat \<times> nat) set" where
  "dead_arcs g = {(edge_from e, edge_to e) | e. e \<in> set (g_edges g) \<and>
     is_candidate g (reachable g) (edge_from e) \<and> is_candidate g (reachable g) (edge_to e)}"

lemma candidate_indexed: "is_candidate g r i \<Longrightarrow> has_indexed_body (scope_at g i)"
  by (simp add: is_candidate_def scope_at_def has_indexed_body.simps)

lemma earcs_eq_dead_arcs:
  assumes "graph_wf g"
  shows "candidates.earcs g = dead_arcs g"
proof -
  let ?c = "is_candidate g (reachable g)"
  have adj: "j \<in> set (full_adjacency g ! i) \<longleftrightarrow> (i, j) \<in> call_arcs g" if "?c i" for i j
    using build_adjacency_spec(3) [OF assms] that by (simp add: is_candidate_def)
  have "(i, j) \<in> candidates.earcs g \<longleftrightarrow> ?c i \<and> ?c j \<and> (i, j) \<in> call_arcs g" for i j
    using adj [of i j] by (auto simp: candidates.earcs_def)
  also have "\<dots> i j \<longleftrightarrow> (i, j) \<in> dead_arcs g" for i j
    using candidate_indexed [of g "reachable g" i] by (auto simp: dead_arcs_def call_arcs_def)
  finally show ?thesis by auto
qed

lemma mset_concat_sum: "mset (concat xs) = sum_mset (image_mset mset (mset xs))"
  by (induction xs) auto

lemma unreachable_sccs_spec:
  assumes "graph_wf g"
  shows "\<exists>sccs. unreachable_sccs g = Some sccs \<and> distinct (concat sccs) \<and>
    set (concat sccs) = {i. is_candidate g (reachable g) i} \<and>
    (\<forall>c \<in> set sccs. c \<noteq> [] \<and> (\<exists>p. c = component_order g p) \<and>
      (\<exists>v \<in> set c. set c = candidates.mutual g v)) \<and>
    sorted (map (component_key g) sccs)"
proof -
  from candidates.components_correct [OF assms] obtain s where
    s: "connect_all (full_adjacency g) (is_candidate g (reachable g)) (component_order g)
      (length (g_symbols g)) [0..<length (g_symbols g)] (tarjan_start (length (g_symbols g))) = Some s"
    and d: "distinct (concat (t_sccs s))"
      "set (concat (t_sccs s)) = {v. is_candidate g (reachable g) v}"
      "\<forall>c \<in> set (t_sccs s). \<exists>p. c = component_order g p"
      "\<forall>c \<in> set (t_sccs s). \<exists>v. v \<in> set c \<and> set c = candidates.mutual g v" by blast
  let ?o = "sort_key (component_key g) (t_sccs s)"
  have "mset (concat ?o) = mset (concat (t_sccs s))"
    by (simp add: mset_concat_sum)
  then have "distinct (concat ?o)" "set (concat ?o) = set (concat (t_sccs s))"
    using d(1) mset_eq_imp_distinct_iff mset_eq_setD by blast+
  then show ?thesis
    using s d by (intro exI [of _ ?o]) (fastforce simp: unreachable_sccs_def)
qed

lemma same_class:
  assumes "graph_wf g" "unreachable_sccs g = Some sccs" "c \<in> set sccs" "u \<in> set c"
  shows "set c = {w. (u, w) \<in> (dead_arcs g)\<^sup>* \<and> (w, u) \<in> (dead_arcs g)\<^sup>*}"
proof -
  from unreachable_sccs_spec [OF assms(1)] assms(2,3) obtain v where
    v: "v \<in> set c" "set c = candidates.mutual g v" by auto
  with assms(4) have "candidates.mutual g u = set c" using candidates.mutual_equiv by metis
  then show ?thesis by (simp add: candidates.mutual_def earcs_eq_dead_arcs [OF assms(1)])
qed

text \<open>
  C17: Tarjan's search returns on every well-formed graph and is correct: the components it
  reports list every unreachable reportable definition exactly once and no other symbol, and
  two of them share a component if and only if each can call the other along candidates.
\<close>
theorem unreachable_sccs_correct:
  assumes "graph_wf g"
  shows "\<exists>sccs. unreachable_sccs g = Some sccs \<and> distinct (concat sccs) \<and>
    set (concat sccs) = {i. is_candidate g (reachable g) i} \<and>
    (\<forall>c \<in> set sccs. \<forall>u \<in> set c. \<forall>w.
       w \<in> set c \<longleftrightarrow> (u, w) \<in> (dead_arcs g)\<^sup>* \<and> (w, u) \<in> (dead_arcs g)\<^sup>*) \<and>
    sorted (map (component_key g) sccs)"
proof -
  from unreachable_sccs_spec [OF assms] obtain sccs where s: "unreachable_sccs g = Some sccs"
    "distinct (concat sccs)" "set (concat sccs) = {i. is_candidate g (reachable g) i}"
    "sorted (map (component_key g) sccs)" by blast
  then show ?thesis using same_class [OF assms s(1)] by auto
qed

lemma unreachable_sccs_correct_witness:
  "\<exists>sccs. unreachable_sccs sample_program = Some sccs \<and>
     set (concat sccs) = {i. is_candidate sample_program (reachable sample_program) i}"
  using unreachable_sccs_correct [OF sample_program_wf] by blast

section \<open>The component of a symbol\<close>

lemma write_members:
  "length (fold (\<lambda>i v. v[i := x]) is v) = length v \<and>
   (i < length v \<longrightarrow> fold (\<lambda>i v. v[i := x]) is v ! i = (if i \<in> set is then x else v ! i))"
  by (induction "is" arbitrary: v) (auto simp: nth_list_update)

lemma write_components:
  assumes "distinct (concat sccs)" "i < length v"
  shows "fold (\<lambda>(scc, members) v. fold (\<lambda>i v. v[i := h scc]) members v) (enumerate m sccs) v ! i = x \<longleftrightarrow>
    (\<exists>k < length sccs. i \<in> set (sccs ! k) \<and> x = h (m + k)) \<or>
    i \<notin> set (concat sccs) \<and> x = v ! i"
  using assms
proof (induction sccs arbitrary: m v)
  case Nil
  then show ?case by auto
next
  case (Cons c sccs)
  let ?v = "fold (\<lambda>i v. v[i := h m]) c v"
  have v: "length ?v = length v" "?v ! i = (if i \<in> set c then h m else v ! i)"
    using write_members [of "h m" c v i] Cons.prems(2) by simp_all
  have d: "distinct (concat sccs)" "set c \<inter> set (concat sccs) = {}" using Cons.prems(1) by auto
  have split: "(\<exists>k < length (c # sccs). i \<in> set ((c # sccs) ! k) \<and> x = h (m + k)) \<longleftrightarrow>
     (i \<in> set c \<and> x = h m) \<or> (\<exists>k < length sccs. i \<in> set (sccs ! k) \<and> x = h (Suc m + k))"
    unfolding length_Cons Ex_less_Suc2 by simp
  have none: "i \<in> set c \<Longrightarrow> k < length sccs \<Longrightarrow> i \<notin> set (sccs ! k)" for k
    using d(2) by (auto dest: nth_mem)
  have unfold: "fold (\<lambda>(scc, members) v. fold (\<lambda>i v. v[i := h scc]) members v)
      (enumerate m (c # sccs)) v =
    fold (\<lambda>(scc, members) v. fold (\<lambda>i v. v[i := h scc]) members v) (enumerate (Suc m) sccs) ?v"
    by simp
  have "i < length ?v" using Cons.prems(2) v(1) by simp
  note IH = Cons.IH [OF d(1) this, of "Suc m"]
  show ?case
  proof (cases "i \<in> set c")
    case True
    moreover from True d(2) have "i \<notin> set (concat sccs)" by blast
    ultimately show ?thesis using IH none unfolding split unfold v(2) by auto
  next
    case False
    then show ?thesis using IH unfolding split unfold v(2) by simp
  qed
qed

lemma scc_by_symbol_eq:
  assumes "distinct (concat sccs)" "i < n"
  shows "scc_by_symbol n sccs ! i = x \<longleftrightarrow>
    (\<exists>k < length sccs. i \<in> set (sccs ! k) \<and> x = int k) \<or> i \<notin> set (concat sccs) \<and> x = -1"
  using write_components [OF assms(1), where h = int and i = i and v = "replicate n (-1)" and m = 0 and x = x]
    assms(2)
  by (simp add: scc_by_symbol_def)

lemma component_index_unique:
  fixes i :: nat
  assumes "distinct (concat sccs)" "k < length sccs" "l < length sccs" "i \<in> set (sccs ! k)"
    "i \<in> set (sccs ! l)"
  shows "k = l"
proof -
  have "i < Suc i" by simp
  from scc_by_symbol_eq [OF assms(1) this] assms(2-) have "int k = int l" by metis
  then show ?thesis by simp
qed

section \<open>Condensation edges\<close>

lemma set_condensation_edges:
  assumes "graph_wf g" "distinct (concat sccs)"
  shows "\<lparr>ce_from = a, ce_to = b\<rparr> \<in> set (condensation_edges g sccs) \<longleftrightarrow>
    a \<noteq> b \<and> a < length sccs \<and> b < length sccs \<and>
    (\<exists>e \<in> set (g_edges g). edge_from e \<in> set (sccs ! a) \<and> edge_to e \<in> set (sccs ! b))"
proof -
  let ?n = "length (g_symbols g)"
  let ?at = "\<lambda>i. scc_by_symbol ?n sccs ! i"
  let ?f = "\<lambda>e edges. if \<not> is_traversable (edge_kind e) then edges
            else
              let from_scc = ?at (edge_from e); to_scc = ?at (edge_to e) in
              if from_scc < 0 \<or> to_scc < 0 \<or> from_scc = to_scc then edges
              else edges @ [\<lparr>ce_from = nat from_scc, ce_to = nat to_scc\<rparr>]"
  let ?ok = "\<lambda>e. 0 \<le> ?at (edge_from e) \<and> 0 \<le> ?at (edge_to e) \<and>
      ?at (edge_from e) \<noteq> ?at (edge_to e)"
  let ?ce = "\<lambda>e. \<lparr>ce_from = nat (?at (edge_from e)), ce_to = nat (?at (edge_to e))\<rparr>"
  have pushed: "fold ?f es acc = acc @ map ?ce (filter ?ok es)" for es acc
    by (induction es arbitrary: acc) (auto simp: Let_def is_traversable_all not_less simp del: is_traversable.simps)
  have at: "0 \<le> ?at i \<and> nat (?at i) = k \<longleftrightarrow> k < length sccs \<and> i \<in> set (sccs ! k)"
    if "i < ?n" for i k
  proof
    assume "0 \<le> ?at i \<and> nat (?at i) = k"
    then have "?at i = int k" by auto
    with scc_by_symbol_eq [OF assms(2) that, of "int k"]
    show "k < length sccs \<and> i \<in> set (sccs ! k)" by simp
  next
    assume "k < length sccs \<and> i \<in> set (sccs ! k)"
    with scc_by_symbol_eq [OF assms(2) that, of "int k"] show "0 \<le> ?at i \<and> nat (?at i) = k"
      by auto
  qed
  have range: "e \<in> set (g_edges g) \<Longrightarrow> edge_from e < ?n \<and> edge_to e < ?n" for e
    using assms(1) by (simp add: graph_wf_def)
  have "\<lparr>ce_from = a, ce_to = b\<rparr> \<in> set (condensation_edges g sccs) \<longleftrightarrow>
    (\<exists>e \<in> set (g_edges g). a \<noteq> b \<and> (0 \<le> ?at (edge_from e) \<and> nat (?at (edge_from e)) = a) \<and>
       (0 \<le> ?at (edge_to e) \<and> nat (?at (edge_to e)) = b))"
  proof -
    have 1: "set (condensation_edges g sccs) = ?ce ` {e \<in> set (g_edges g). ?ok e}"
      unfolding condensation_edges_def Let_def remdups_adj_set set_sort
      by (subst pushed [unfolded Let_def]) simp
    have ok: "?ok e \<longleftrightarrow> 0 \<le> ?at (edge_from e) \<and> 0 \<le> ?at (edge_to e) \<and>
        nat (?at (edge_from e)) \<noteq> nat (?at (edge_to e))" for e by auto
    show ?thesis 
      unfolding 1 ok by (simp only: image_iff mem_Collect_eq condensation_edge.ext_inject) blast
  qed
  also have "\<dots> \<longleftrightarrow> (\<exists>e \<in> set (g_edges g). a \<noteq> b \<and>
      (a < length sccs \<and> edge_from e \<in> set (sccs ! a)) \<and>
      (b < length sccs \<and> edge_to e \<in> set (sccs ! b)))"
  proof (rule bex_cong [OF refl])
    fix e assume "e \<in> set (g_edges g)"
    with range have r: "edge_from e < ?n" "edge_to e < ?n" by simp_all
    show "(a \<noteq> b \<and> (0 \<le> ?at (edge_from e) \<and> nat (?at (edge_from e)) = a) \<and>
        (0 \<le> ?at (edge_to e) \<and> nat (?at (edge_to e)) = b)) =
      (a \<noteq> b \<and> (a < length sccs \<and> edge_from e \<in> set (sccs ! a)) \<and>
        (b < length sccs \<and> edge_to e \<in> set (sccs ! b)))"
      by (simp only: at [OF r(1)] at [OF r(2)])
  qed
  also have "\<dots> \<longleftrightarrow> a \<noteq> b \<and> a < length sccs \<and> b < length sccs \<and>
    (\<exists>e \<in> set (g_edges g). edge_from e \<in> set (sccs ! a) \<and> edge_to e \<in> set (sccs ! b))"
    by blast
  finally show ?thesis .
qed

lemma condensation_edges_sorted:
  "sorted_wrt (\<lambda>x y. (ce_from x, ce_to x) < (ce_from y, ce_to y)) (condensation_edges g sccs)"
proof -
  let ?k = "\<lambda>e :: condensation_edge. (ce_from e, ce_to e)"
  have "sorted (map ?k xs) \<Longrightarrow> sorted_wrt (\<lambda>x y. ?k x < ?k y) (remdups_adj xs)" for xs
  proof (induction xs rule: remdups_adj.induct)
    case (3 x y xs)
    then show ?case
    proof (cases "x = y")
      case False
      then have "?k x \<noteq> ?k y" by (cases x; cases y) simp
      then have "?k x < ?k y" using "3.prems" by (simp add: order_less_le)
      moreover have "\<forall>z \<in> set (y # xs). ?k y \<le> ?k z" using "3.prems" by simp
      ultimately have "\<forall>z \<in> set (remdups_adj (y # xs)). ?k x < ?k z"
        unfolding remdups_adj_set using less_le_trans by blast
      then show ?thesis using 3 False by simp
    qed simp
  qed simp_all
  then show ?thesis by (simp add: condensation_edges_def Let_def)
qed

section \<open>The condensation is acyclic\<close>

definition scc_arcs :: "condensation_edge list \<Rightarrow> (nat \<times> nat) set" where
  "scc_arcs edges = {(ce_from e, ce_to e) | e. e \<in> set edges}"

lemma scc_arcs_mem: "(a, b) \<in> scc_arcs edges \<longleftrightarrow> \<lparr>ce_from = a, ce_to = b\<rparr> \<in> set edges"
proof
  assume "(a, b) \<in> scc_arcs edges"
  then obtain e where "e \<in> set edges" "a = ce_from e" "b = ce_to e" by (auto simp: scc_arcs_def)
  moreover from this(2,3) have "\<lparr>ce_from = a, ce_to = b\<rparr> = e" by (cases e) simp
  ultimately show "\<lparr>ce_from = a, ce_to = b\<rparr> \<in> set edges" by metis
qed (force simp: scc_arcs_def)

lemma scc_nth_class:
  assumes "graph_wf g" "unreachable_sccs g = Some sccs" "a < length sccs" "u \<in> set (sccs ! a)"
  shows "set (sccs ! a) = {w. (u, w) \<in> (dead_arcs g)\<^sup>* \<and> (w, u) \<in> (dead_arcs g)\<^sup>*}"
  using same_class [OF assms(1,2) _ assms(4)] assms(3) by simp

lemma scc_step_reach:
  assumes "graph_wf g" "unreachable_sccs g = Some sccs"
    and "(a, b) \<in> scc_arcs (condensation_edges g sccs)"
    and "u \<in> set (sccs ! a)" "w \<in> set (sccs ! b)"
  shows "(u, w) \<in> (dead_arcs g)\<^sup>*"
proof -
  from unreachable_sccs_spec [OF assms(1)] assms(2) have d: "distinct (concat sccs)"
    "set (concat sccs) = {i. is_candidate g (reachable g) i}" by auto
  from assms(3) obtain e where ab: "a < length sccs" "b < length sccs"
    and e: "e \<in> set (g_edges g)" "edge_from e \<in> set (sccs ! a)" "edge_to e \<in> set (sccs ! b)"
    unfolding scc_arcs_mem set_condensation_edges [OF assms(1) d(1)] by blast
  then have "is_candidate g (reachable g) (edge_from e)" "is_candidate g (reachable g) (edge_to e)"
    using d(2) nth_mem by fastforce+
  with e have "(edge_from e, edge_to e) \<in> dead_arcs g" by (auto simp: dead_arcs_def)
  moreover have "(u, edge_from e) \<in> (dead_arcs g)\<^sup>*"
    using scc_nth_class [OF assms(1,2) ab(1) assms(4)] e(2) by blast
  moreover have "(edge_to e, w) \<in> (dead_arcs g)\<^sup>*"
    using scc_nth_class [OF assms(1,2) ab(2) e(3)] assms(5) by blast
  ultimately show ?thesis by (meson rtrancl_into_rtrancl rtrancl_trans)
qed

lemma scc_path_reach:
  assumes "graph_wf g" "unreachable_sccs g = Some sccs"
    and "(a, b) \<in> (scc_arcs (condensation_edges g sccs))\<^sup>+"
    and "u \<in> set (sccs ! a)" "w \<in> set (sccs ! b)"
  shows "(u, w) \<in> (dead_arcs g)\<^sup>*"
  using assms(3,5)
proof (induction arbitrary: w rule: trancl_induct)
  case (base b)
  then show ?case using scc_step_reach [OF assms(1,2) _ assms(4)] by blast
next
  case (step b c)
  from unreachable_sccs_spec [OF assms(1)] assms(2) have d: "distinct (concat sccs)"
    "\<forall>c \<in> set sccs. c \<noteq> []" by auto
  from step.hyps(2) have "b < length sccs"
    unfolding scc_arcs_mem set_condensation_edges [OF assms(1) d(1)] by blast
  with d(2) have "sccs ! b \<noteq> []" by simp
  then obtain x where x: "x \<in> set (sccs ! b)" by (meson last_in_set)
  from scc_step_reach [OF assms(1,2) step.hyps(2) x step.prems] step.IH [OF x]
  show ?case by (meson rtrancl_trans)
qed

lemma scc_arcs_acyclic:
  assumes "graph_wf g" "unreachable_sccs g = Some sccs"
  shows "acyclic (scc_arcs (condensation_edges g sccs))"
proof (rule acyclicI, intro allI notI)
  fix a assume cycle: "(a, a) \<in> (scc_arcs (condensation_edges g sccs))\<^sup>+"
  from unreachable_sccs_spec [OF assms(1)] assms(2) have d: "distinct (concat sccs)" by auto
  from cycle obtain b where ab: "(a, b) \<in> scc_arcs (condensation_edges g sccs)"
    "(b, a) \<in> (scc_arcs (condensation_edges g sccs))\<^sup>*" by (meson tranclD)
  then obtain u w where n: "a \<noteq> b" "a < length sccs" "b < length sccs"
    and uw: "u \<in> set (sccs ! a)" "w \<in> set (sccs ! b)"
    unfolding scc_arcs_mem set_condensation_edges [OF assms(1) d] by blast
  from ab(2) n(1) have "(b, a) \<in> (scc_arcs (condensation_edges g sccs))\<^sup>+"
    using rtranclD [of b a] by simp
  from scc_path_reach [OF assms this uw(2,1)] scc_step_reach [OF assms ab(1) uw]
  have "w \<in> set (sccs ! a)" using scc_nth_class [OF assms n(2) uw(1)] by blast
  with component_index_unique [OF d n(2,3) _ uw(2)] n(1) show False by blast
qed

text \<open>
  The condensation edges are exact and form no cycle: an edge joins two different
  components if and only if some edge of the graph leads from a member of the first to a
  member of the second, the list is strictly sorted, hence free of duplicates, and no
  component can be reached from itself along it.
\<close>
theorem condensation_edges_correct:
  assumes "graph_wf g" "unreachable_sccs g = Some sccs"
  shows "(\<lparr>ce_from = a, ce_to = b\<rparr> \<in> set (condensation_edges g sccs) \<longleftrightarrow>
      a \<noteq> b \<and> a < length sccs \<and> b < length sccs \<and>
      (\<exists>e \<in> set (g_edges g). edge_from e \<in> set (sccs ! a) \<and> edge_to e \<in> set (sccs ! b))) \<and>
    sorted_wrt (\<lambda>x y. (ce_from x, ce_to x) < (ce_from y, ce_to y)) (condensation_edges g sccs) \<and>
    acyclic {(ce_from e, ce_to e) | e. e \<in> set (condensation_edges g sccs)}"
proof -
  from unreachable_sccs_spec [OF assms(1)] assms(2) have d: "distinct (concat sccs)" by auto
  show ?thesis
    using set_condensation_edges [OF assms(1) d] condensation_edges_sorted
      scc_arcs_acyclic [OF assms] unfolding scc_arcs_def by blast
qed

lemma sample_sccs: "unreachable_sccs sample_program = Some [[2, 3]]"
  by code_simp

lemma condensation_edges_correct_witness:
  "\<lparr>ce_from = 0, ce_to = 1\<rparr> \<notin> set (condensation_edges sample_program [[2, 3]])"
  using condensation_edges_correct [OF sample_program_wf sample_sccs, of 0 1] by simp

end
