(* ===== verification/Weak_Components.thy ===== *)
theory Weak_Components
  imports Condensation
begin

text \<open>
  The last loop of \<open>analyze_reachability\<close>: grouping the unreachable components into weakly
  connected groups. The search is the worklist of the traversal with the popped ids
  collected, so its closure lemma comes from the \<open>adjacency\<close> interface, interpreted here on
  the undirected condensation.
\<close>

definition weak_ok :: "nat \<times> condensation_edge list \<Rightarrow> bool" where
  "weak_ok p \<longleftrightarrow> (\<forall>e \<in> set (snd p). ce_from e < fst p \<and> ce_to e < fst p)"

definition weak_lists :: "nat \<times> condensation_edge list \<Rightarrow> nat list list" where
  "weak_lists p = weak_adjacency (fst p) (snd p)"

text \<open>Two components are joined when a condensation edge leads from either to the other.\<close>

definition joined :: "condensation_edge list \<Rightarrow> (nat \<times> nat) set" where
  "joined edges = {(ce_from e, ce_to e) | e. e \<in> set edges} \<union> {(ce_to e, ce_from e) | e. e \<in> set edges}"

lemma push_adjacent_length [simp]: "length (push_adjacent a b adj) = length adj"
  by (simp add: push_adjacent_def)

lemma push_adjacent_nth:
  "i < length adj \<Longrightarrow>
     set (push_adjacent a b adj ! i) = (if i = a then {b} else {}) \<union> set (adj ! i)"
  by (auto simp: push_adjacent_def nth_list_update)

lemma weak_adjacency_fold:
  assumes "i < length adj"
  shows "length (fold (\<lambda>e adj. push_adjacent (ce_to e) (ce_from e)
      (push_adjacent (ce_from e) (ce_to e) adj)) es adj) = length adj \<and>
    (j \<in> set (fold (\<lambda>e adj. push_adjacent (ce_to e) (ce_from e)
      (push_adjacent (ce_from e) (ce_to e) adj)) es adj ! i) \<longleftrightarrow> j \<in> set (adj ! i) \<or> (i, j) \<in> joined es)"
  using assms
proof (induction es arbitrary: adj)
  case Nil
  then show ?case by (simp add: joined_def)
next
  case (Cons e es)
  let ?a = "push_adjacent (ce_to e) (ce_from e) (push_adjacent (ce_from e) (ce_to e) adj)"
  have "set (?a ! i) = (if i = ce_to e then {ce_from e} else {}) \<union>
      ((if i = ce_from e then {ce_to e} else {}) \<union> set (adj ! i))"
    using Cons.prems by (simp add: push_adjacent_nth)
  moreover have "(i, j) \<in> joined (e # es) \<longleftrightarrow>
      i = ce_from e \<and> j = ce_to e \<or> i = ce_to e \<and> j = ce_from e \<or> (i, j) \<in> joined es"
    by (auto simp: joined_def)
  ultimately show ?case using Cons.IH [of ?a] Cons.prems by auto
qed

lemma length_weak_adjacency [simp]: "length (weak_adjacency n es) = n"
proof -
  have "length (fold (\<lambda>e adj. push_adjacent (ce_to e) (ce_from e)
      (push_adjacent (ce_from e) (ce_to e) adj)) es adj) = length adj" for adj
    by (induction es arbitrary: adj) simp_all
  then show ?thesis by (simp add: weak_adjacency_def)
qed

lemma set_weak_adjacency:
  "i < n \<Longrightarrow> j \<in> set (weak_adjacency n es ! i) \<longleftrightarrow> (i, j) \<in> joined es"
  using weak_adjacency_fold [of i "replicate n []" es j] by (simp add: weak_adjacency_def)

lemma joined_range: "weak_ok (n, es) \<Longrightarrow> (i, j) \<in> joined es \<Longrightarrow> i < n \<and> j < n"
  by (auto simp: weak_ok_def joined_def)

lemma joined_sym: "sym (joined es)"
  by (auto simp: joined_def sym_def)

interpretation weak: adjacency weak_ok fst weak_lists
  by unfold_locales
    (auto simp: weak_lists_def set_weak_adjacency weak_ok_def joined_def)

lemma weak_arcs: "weak_ok (n, es) \<Longrightarrow> weak.arcs (n, es) = joined es"
  using joined_range [of n es] by (auto simp: weak.arcs_def weak_lists_def set_weak_adjacency)

section \<open>Collecting one component\<close>

lemma collect_flags: "fst (collect_component adj r st c) = drain adj r st"
  by (induction adj r st c rule: collect_component.induct) (simp_all split: prod.splits)

lemma mark_all_distinct:
  assumes "fold mark xs (r, st) = (r', st')" "distinct (c @ st)" "set (c @ st) \<subseteq> flagged r"
  shows "distinct (c @ st') \<and> set (c @ st') \<subseteq> flagged r'"
  using assms
proof (induction xs arbitrary: r st)
  case (Cons x xs)
  obtain r1 st1 where 1: "mark x (r, st) = (r1, st1)" by force
  have "distinct (c @ st1) \<and> set (c @ st1) \<subseteq> flagged r1"
    using 1 Cons.prems(2,3)
    by (auto simp: mark_def flagged_def nth_list_update split: if_splits)
  then show ?case using Cons.IH [of r1 st1] Cons.prems(1) 1 by simp
qed simp

lemma drain_mono: "flagged r \<subseteq> flagged (drain adj r st)"
proof (induction adj r st rule: drain.induct)
  case (2 adj r x st)
  obtain r' st' where f: "fold mark (adj ! x) (r, st) = (r', st')" by force
  from mark_all_effect [OF f] have "flagged r \<subseteq> flagged r'" by auto
  with 2 [OF f [symmetric] refl] f show ?case by auto
qed simp

lemma collect_set:
  assumes "distinct (c @ st)" "set (c @ st) \<subseteq> flagged r"
  shows "distinct (snd (collect_component adj r st c)) \<and>
    set (snd (collect_component adj r st c)) =
      set (c @ st) \<union> (flagged (drain adj r st) - flagged r)"
  using assms
proof (induction adj r st c rule: collect_component.induct)
  case (1 adj r c)
  then show ?case by simp
next
  case (2 adj r x st c)
  obtain r' st' where f: "fold mark (adj ! x) (r, st) = (r', st')" by force
  have d: "distinct ((c @ [x]) @ st') \<and> set ((c @ [x]) @ st') \<subseteq> flagged r'"
    using mark_all_distinct [OF f, of "c @ [x]"] 2(2,3) by simp
  from mark_all_effect [OF f] obtain new where new: "st' = new @ st"
    "set new = flagged r' - flagged r" "flagged r \<subseteq> flagged r'" by auto
  have "flagged r' \<subseteq> flagged (drain adj r' st')" by (rule drain_mono)
  with 2(1) [OF f [symmetric] refl] d new show ?case by (auto simp: f)
qed

section \<open>The loop over the first ids\<close>

definition weak_step ::
    "nat list list \<Rightarrow> nat \<Rightarrow> bool list \<times> nat list list \<Rightarrow> bool list \<times> nat list list" where
  "weak_step adj first p =
     (let (assigned, components) = p in
      if assigned ! first then (assigned, components)
      else
        let (assigned', component) = collect_component adj (assigned[first := True]) [first] []
        in (assigned', components @ [sort component]))"

lemma weak_components_steps:
  "weak_components n edges =
     sort_key hd (snd (fold (weak_step (weak_adjacency n edges)) [0..<n] (replicate n False, [])))"
proof -
  have "(\<lambda>first (assigned, components).
      if assigned ! first then (assigned, components)
      else let (assigned', component) =
             collect_component (weak_adjacency n edges) (assigned[first := True]) [first] []
           in (assigned', components @ [sort component])) = weak_step (weak_adjacency n edges)"
    by (auto simp: weak_step_def fun_eq_iff)
  then show ?thesis unfolding weak_components_def Let_def by (simp split: prod.split)
qed

definition weak_invariant :: "nat \<Rightarrow> condensation_edge list \<Rightarrow> bool list \<times> nat list list \<Rightarrow> bool" where
  "weak_invariant n edges p \<longleftrightarrow>
     length (fst p) = n \<and> (\<forall>i j. i \<in> flagged (fst p) \<longrightarrow> (i, j) \<in> joined edges \<longrightarrow> j \<in> flagged (fst p)) \<and>
     distinct (concat (snd p)) \<and> set (concat (snd p)) = flagged (fst p) \<and>
     (\<forall>c \<in> set (snd p). sorted c \<and> (\<exists>i < n. set c = (joined edges)\<^sup>* `` {i}))"

lemma weak_step_invariant:
  assumes "weak_ok (n, edges)" "weak_invariant n edges (r, cs)" "i < n"
  shows "weak_invariant n edges (weak_step (weak_adjacency n edges) i (r, cs)) \<and>
    insert i (flagged r) \<subseteq> flagged (fst (weak_step (weak_adjacency n edges) i (r, cs)))"
proof (cases "r ! i")
  case True
  then have "i \<in> flagged r" using assms(2,3) by (simp add: weak_invariant_def flagged_def)
  with True assms(2) show ?thesis by (simp add: weak_step_def)
next
  case False
  let ?adj = "weak_adjacency n edges"
  let ?r = "r[i := True]"
  let ?f = "drain ?adj ?r [i]"
  from assms(2) have r: "length r = n"
    "\<And>i j. i \<in> flagged r \<Longrightarrow> (i, j) \<in> joined edges \<Longrightarrow> j \<in> flagged r"
    and cs: "distinct (concat cs)" "set (concat cs) = flagged r"
      "\<forall>c \<in> set cs. sorted c \<and> (\<exists>i < n. set c = (joined edges)\<^sup>* `` {i})"
    by (auto simp: weak_invariant_def)
  have fl: "flagged ?r = insert i (flagged r)"
    using assms(3) r(1) by (auto simp: flagged_def nth_list_update split: if_splits)
  have fresh: "i \<notin> flagged r" using False by (simp add: flagged_def)
  have "length ?f = n \<and> flagged ?f = (joined edges)\<^sup>* `` insert i (flagged r)"
    using weak.drain_closure [OF assms(1), of ?r "[i]"] r fl assms(3)
    by (auto simp: weak_arcs [OF assms(1)] weak_lists_def)
  moreover have closed: "(joined edges)\<^sup>* `` flagged r = flagged r"
    using r(2) by (intro Image_closed_trancl) blast
  moreover have "(joined edges)\<^sup>* `` {i} \<inter> flagged r = {}"
  proof -
    have "(i, j) \<in> (joined edges)\<^sup>* \<Longrightarrow> j \<in> flagged r \<Longrightarrow> i \<in> flagged r" for j
      using closed symD [OF sym_rtrancl [OF joined_sym], of i j edges] by blast
    with fresh show ?thesis by blast
  qed
  ultimately have f: "length ?f = n" "flagged ?f = flagged r \<union> (joined edges)\<^sup>* `` {i}"
    "flagged r \<inter> (joined edges)\<^sup>* `` {i} = {}" by auto
  obtain comp where comp: "collect_component ?adj ?r [i] [] = (?f, comp)"
    using collect_flags [of ?adj ?r "[i]" "[]"] by (metis prod.collapse)
  have c: "distinct comp" "set comp = (joined edges)\<^sup>* `` {i}"
    using collect_set [of "[]" "[i]" ?r ?adj] comp f fl by auto
  have step: "weak_step ?adj i (r, cs) = (?f, cs @ [sort comp])"
    using False by (simp add: weak_step_def comp del: drain.simps collect_component.simps)
  have "j \<in> flagged ?f" if "x \<in> flagged ?f" "(x, j) \<in> joined edges" for x j
    using that r(2) [of x j] unfolding f(2) by (auto intro: rtrancl_into_rtrancl)
  then show ?thesis
    unfolding step weak_invariant_def using f c cs assms(3) by auto
qed

lemma weak_fold:
  assumes "weak_ok (n, edges)" "weak_invariant n edges p" "set is \<subseteq> {..<n}"
  shows "weak_invariant n edges (fold (weak_step (weak_adjacency n edges)) is p) \<and>
    set is \<union> flagged (fst p) \<subseteq> flagged (fst (fold (weak_step (weak_adjacency n edges)) is p))"
  using assms(2,3)
proof (induction "is" arbitrary: p)
  case (Cons i js)
  obtain r cs where p: "p = (r, cs)" by force
  from weak_step_invariant [OF assms(1), of r cs i] Cons.prems p have
    s: "weak_invariant n edges (weak_step (weak_adjacency n edges) i p)"
      "insert i (flagged (fst p)) \<subseteq> flagged (fst (weak_step (weak_adjacency n edges) i p))" by auto
  from Cons.IH [OF s(1)] Cons.prems(2) s(2) show ?case by auto
qed simp

lemma weak_components_spec:
  assumes "weak_ok (n, edges)"
  shows "distinct (concat (weak_components n edges)) \<and>
    set (concat (weak_components n edges)) = {..<n} \<and>
    (\<forall>c \<in> set (weak_components n edges). sorted c \<and> (\<exists>i < n. set c = (joined edges)\<^sup>* `` {i})) \<and>
    sorted (map hd (weak_components n edges))"
proof -
  let ?p = "fold (weak_step (weak_adjacency n edges)) [0..<n] (replicate n False, [])"
  have "weak_invariant n edges (replicate n False, [])" by (simp add: weak_invariant_def)
  note loop = weak_fold [OF assms this, of "[0..<n]"]
  have "set [0..<n] \<subseteq> {..<n}" by auto
  from loop [OF this] have inv: "weak_invariant n edges ?p"
    and all: "{0..<n} \<subseteq> flagged (fst ?p)" by auto
  have "length (fst ?p) = n" using inv by (simp only: weak_invariant_def)
  moreover have "flagged r \<subseteq> {..<length r}" for r by (auto simp: flagged_def)
  ultimately have "flagged (fst ?p) \<subseteq> {..<n}" by metis
  with all have "flagged (fst ?p) = {..<n}" by (simp add: atLeast0LessThan)
  moreover have "mset (concat (weak_components n edges)) = mset (concat (snd ?p))"
    by (simp add: weak_components_steps mset_concat_sum)
  then have "distinct (concat (weak_components n edges)) = distinct (concat (snd ?p))"
    "set (concat (weak_components n edges)) = set (concat (snd ?p))"
    using mset_eq_imp_distinct_iff mset_eq_setD by blast+
  moreover have "set (weak_components n edges) = set (snd ?p)"
    by (simp add: weak_components_steps)
  ultimately show ?thesis
    using inv unfolding weak_invariant_def by (simp add: weak_components_steps)
qed

lemma weak_ok_condensation:
  assumes "graph_wf g" "unreachable_sccs g = Some sccs"
  shows "weak_ok (length sccs, condensation_edges g sccs)"
proof -
  from unreachable_sccs_spec [OF assms(1)] assms(2) have d: "distinct (concat sccs)" by auto
  have "ce_from e < length sccs \<and> ce_to e < length sccs"
    if "e \<in> set (condensation_edges g sccs)" for e
  proof -
    have "e = \<lparr>ce_from = ce_from e, ce_to = ce_to e\<rparr>" by (cases e) simp
    with that set_condensation_edges [OF assms(1) d, of "ce_from e" "ce_to e"] show ?thesis by metis
  qed
  then show ?thesis by (simp add: weak_ok_def)
qed

lemma weak_classes:
  assumes "weak_ok (n, edges)" "i < n" "j < n"
  shows "(\<exists>c \<in> set (weak_components n edges). i \<in> set c \<and> j \<in> set c) \<longleftrightarrow> (i, j) \<in> (joined edges)\<^sup>*"
proof -
  note spec = weak_components_spec [OF assms(1)]
  note rev = symD [OF sym_rtrancl [OF joined_sym]]
  have cls: "set c = (joined edges)\<^sup>* `` {x}"
    if "c \<in> set (weak_components n edges)" "x \<in> set c" for c x
  proof -
    from spec that(1) obtain k where k: "set c = (joined edges)\<^sup>* `` {k}" by auto
    with that(2) have kx: "(k, x) \<in> (joined edges)\<^sup>*" by simp
    then have "(k, y) \<in> (joined edges)\<^sup>* \<longleftrightarrow> (x, y) \<in> (joined edges)\<^sup>*" for y
      using rev [OF kx] by (meson rtrancl_trans)
    then show ?thesis by (auto simp: k)
  qed
  have "i \<in> set (concat (weak_components n edges))" using spec assms(2) by blast
  then obtain c where c: "c \<in> set (weak_components n edges)" "i \<in> set c" by auto
  then show ?thesis using cls by blast
qed

text \<open>
  C20: The whole analysis returns on every well-formed graph. Its vectors have one entry per
  symbol, and its groups of components partition the components: every component is in
  exactly one group, two components share a group if and only if a chain of condensation
  edges, followed in either direction, joins them, and groups are listed by their first
  member.
\<close>
theorem analyze_reachability_total:
  assumes "graph_wf g"
  shows "\<exists>r. analyze_reachability g = Some r \<and>
    length (rr_reachable r) = length (g_symbols g) \<and>
    length (rr_structurally_reachable r) = length (g_symbols g) \<and>
    length (rr_provider_reachable r) = length (g_symbols g) \<and>
    distinct (concat (rr_weak_components r)) \<and>
    set (concat (rr_weak_components r)) = {..<length (rr_unreachable_sccs r)} \<and>
    (\<forall>i < length (rr_unreachable_sccs r). \<forall>j < length (rr_unreachable_sccs r).
       (\<exists>c \<in> set (rr_weak_components r). i \<in> set c \<and> j \<in> set c) \<longleftrightarrow>
       (i, j) \<in> (joined (rr_condensation_edges r))\<^sup>*) \<and>
    sorted (map hd (rr_weak_components r))"
proof -
  from unreachable_sccs_spec [OF assms] obtain sccs where s: "unreachable_sccs g = Some sccs" by blast
  note ok = weak_ok_condensation [OF assms s]
  show ?thesis
    using weak_components_spec [OF ok] weak_classes [OF ok] reachable_flagged(1,3) [OF assms]
    by (simp add: analyze_reachability_def s Let_def provider_reachable_def)
qed

lemma analyze_reachability_total_witness:
  "\<exists>r. analyze_reachability sample_program = Some r \<and> distinct (concat (rr_weak_components r))"
  using analyze_reachability_total [OF sample_program_wf] by blast

end
