(* ===== verification/Json.thy ===== *)
theory Json
  imports Complex_Main Prelude "HOL-Library.Word"
begin

unbundle bit_operations_syntax

text \<open>
  The JSON reader and the string writer of \<open>src/json.cpp\<close>. A cursor is the parser's
  \<open>position_\<close> with the input that remains from there. Numbers are IEEE doubles in C++; every
  finite double is a rational, so a number is kept as its exact value (the two zeros are one
  value, which no operation of the program tells apart), and \<open>std::from_chars\<close> is decimal
  reading followed by rounding to the nearest double, ties to even, with an error where the
  result would overflow or a nonzero text would round to zero. \<open>std::map\<close> is an association
  list in strictly increasing key order.
\<close>

section \<open>Values\<close>

datatype json =
    JNull
  | JBool bool
  | JNumber rat
  | JString string
  | JArray "json list"
  | JObject "(string \<times> json) list"

fun is_number :: "json \<Rightarrow> bool" where
  "is_number (JNumber _) = True"
| "is_number _ = False"

fun is_string :: "json \<Rightarrow> bool" where
  "is_string (JString _) = True"
| "is_string _ = False"

fun is_bool :: "json \<Rightarrow> bool" where
  "is_bool (JBool _) = True"
| "is_bool _ = False"

fun is_array :: "json \<Rightarrow> bool" where
  "is_array (JArray _) = True"
| "is_array _ = False"

fun is_object :: "json \<Rightarrow> bool" where
  "is_object (JObject _) = True"
| "is_object _ = False"

fun is_null :: "json \<Rightarrow> bool" where
  "is_null JNull = True"
| "is_null _ = False"

text \<open>The accessors; \<open>None\<close> stands for \<open>std::bad_variant_access\<close>.\<close>

fun as_bool :: "json \<Rightarrow> bool option" where
  "as_bool (JBool b) = Some b"
| "as_bool _ = None"

fun as_number :: "json \<Rightarrow> rat option" where
  "as_number (JNumber x) = Some x"
| "as_number _ = None"

fun as_string :: "json \<Rightarrow> string option" where
  "as_string (JString s) = Some s"
| "as_string _ = None"

fun as_array :: "json \<Rightarrow> json list option" where
  "as_array (JArray vs) = Some vs"
| "as_array _ = None"

fun as_object :: "json \<Rightarrow> (string \<times> json) list option" where
  "as_object (JObject kvs) = Some kvs"
| "as_object _ = None"

fun json_find :: "string \<Rightarrow> json \<Rightarrow> json option" where
  "json_find key (JObject kvs) = map_of kvs key"
| "json_find key _ = None"

definition string_or :: "string \<Rightarrow> string \<Rightarrow> json \<Rightarrow> string" where
  "string_or key fallback v =
     (case json_find key v of Some (JString s) \<Rightarrow> s | _ \<Rightarrow> fallback)"

definition bool_or :: "string \<Rightarrow> bool \<Rightarrow> json \<Rightarrow> bool" where
  "bool_or key fallback v = (case json_find key v of Some (JBool b) \<Rightarrow> b | _ \<Rightarrow> fallback)"

section \<open>The cursor\<close>

datatype parse_error = Parse_Error nat string

type_synonym cursor = "nat \<times> string"
type_synonym 'a parser = "cursor \<Rightarrow> parse_error + ('a \<times> cursor)"

definition fail :: "cursor \<Rightarrow> string \<Rightarrow> parse_error + 'a" where
  "fail s message = Inl (Parse_Error (fst s) message)"

definition parse_error_what :: "parse_error \<Rightarrow> string" where
  "parse_error_what e = (case e of Parse_Error offset message \<Rightarrow>
     ''JSON parse error at byte '' @ to_string_nat offset @ '': '' @ message)"

definition is_space :: "char \<Rightarrow> bool" where
  "is_space c \<longleftrightarrow> c = CHR '' '' \<or> c = CHR 0x09 \<or> c = CHR 0x0A \<or> c = CHR 0x0D"

fun skip_space :: "cursor \<Rightarrow> cursor" where
  "skip_space (p, []) = (p, [])"
| "skip_space (p, c # cs) = (if is_space c then skip_space (Suc p, cs) else (p, c # cs))"

fun consume :: "char \<Rightarrow> cursor \<Rightarrow> cursor option" where
  "consume expected (p, []) = None"
| "consume expected (p, c # cs) = (if c = expected then Some (Suc p, cs) else None)"

definition expect :: "char \<Rightarrow> cursor \<Rightarrow> parse_error + cursor" where
  "expect expected s =
     (case consume expected s of
        Some s' \<Rightarrow> Inr s'
      | None \<Rightarrow> fail s (''expected '' @ [CHR 0x27, expected, CHR 0x27]))"

definition parse_literal :: "string \<Rightarrow> json \<Rightarrow> json parser" where
  "parse_literal literal v s =
     (if take (length literal) (snd s) = literal
      then Inr (v, (fst s + length literal, drop (length literal) (snd s)))
      else fail s ''invalid literal'')"

section \<open>Strings\<close>

definition append_utf8 :: "32 word \<Rightarrow> string" where
  "append_utf8 cp =
     (let byte = (\<lambda>w :: 32 word. char_of (unat w) :: char) in
      if cp \<le> 0x7f then [byte cp]
      else if cp \<le> 0x7ff then
        [byte (0xc0 OR drop_bit 6 cp), byte (0x80 OR (cp AND 0x3f))]
      else if cp \<le> 0xffff then
        [byte (0xe0 OR drop_bit 12 cp), byte (0x80 OR (drop_bit 6 cp AND 0x3f)),
         byte (0x80 OR (cp AND 0x3f))]
      else
        [byte (0xf0 OR drop_bit 18 cp), byte (0x80 OR (drop_bit 12 cp AND 0x3f)),
         byte (0x80 OR (drop_bit 6 cp AND 0x3f)), byte (0x80 OR (cp AND 0x3f))])"

definition hex_value :: "char \<Rightarrow> 32 word option" where
  "hex_value c =
     (let n = of_char c :: nat in
      if 48 \<le> n \<and> n \<le> 57 then Some (of_nat (n - 48))
      else if 97 \<le> n \<and> n \<le> 102 then Some (of_nat (n - 97 + 10))
      else if 65 \<le> n \<and> n \<le> 70 then Some (of_nat (n - 65 + 10))
      else None)"

fun hex_digits :: "nat \<Rightarrow> 32 word \<Rightarrow> 32 word parser" where
  "hex_digits 0 result s = Inr (result, s)"
| "hex_digits (Suc n) result (p, []) = fail (p, []) ''incomplete unicode escape''"
| "hex_digits (Suc n) result (p, c # cs) =
     (case hex_value c of
        Some d \<Rightarrow> hex_digits n (push_bit 4 result OR d) (Suc p, cs)
      | None \<Rightarrow> fail (Suc p, cs) ''invalid unicode escape'')"

definition parse_hex_quad :: "32 word parser" where
  "parse_hex_quad s =
     (if length (snd s) < 4 then fail s ''incomplete unicode escape'' else hex_digits 4 0 s)"

text \<open>The \<open>u\<close> escape, entered after the \<open>u\<close>, with the low half of a surrogate pair.\<close>

definition parse_unicode :: "string parser" where
  "parse_unicode s =
     rbind (parse_hex_quad s) (\<lambda>(cp, s1).
       if 0xd800 \<le> cp \<and> cp \<le> 0xdbff then
         (if take 2 (snd s1) \<noteq> [CHR 0x5C, CHR ''u''] then
            fail s1 ''missing low unicode surrogate''
          else
            rbind (parse_hex_quad (fst s1 + 2, drop 2 (snd s1))) (\<lambda>(low, s2).
              if low < 0xdc00 \<or> 0xdfff < low then fail s2 ''invalid low unicode surrogate''
              else Inr (append_utf8 (0x10000 + push_bit 10 (cp - 0xd800) + (low - 0xdc00)), s2)))
       else Inr (append_utf8 cp, s1))"

text \<open>The rest of an escape sequence, after the backslash.\<close>

fun parse_escape :: "string parser" where
  "parse_escape (p, []) = fail (p, []) ''incomplete escape sequence''"
| "parse_escape (p, c # cs) =
     (let s = (Suc p, cs) in
      if c = CHR 0x22 then Inr ([CHR 0x22], s)
      else if c = CHR 0x5C then Inr ([CHR 0x5C], s)
      else if c = CHR ''/'' then Inr ([CHR ''/''], s)
      else if c = CHR ''b'' then Inr ([CHR 0x08], s)
      else if c = CHR ''f'' then Inr ([CHR 0x0C], s)
      else if c = CHR ''n'' then Inr ([CHR 0x0A], s)
      else if c = CHR ''r'' then Inr ([CHR 0x0D], s)
      else if c = CHR ''t'' then Inr ([CHR 0x09], s)
      else if c = CHR ''u'' then parse_unicode s
      else fail s ''invalid escape sequence'')"

lemma hex_digits_suffix:
  "hex_digits n r s = Inr (w, s') \<Longrightarrow> length (snd s) = length (snd s') + n \<and>
     fst s' = fst s + n \<and> (\<exists>t. snd s = t @ snd s')"
  by (induction n r s arbitrary: w s' rule: hex_digits.induct)
    (fastforce simp: fail_def split: option.splits)+

lemma parse_hex_quad_suffix:
  "parse_hex_quad s = Inr (w, s') \<Longrightarrow> length (snd s) = length (snd s') + 4 \<and>
     fst s' = fst s + 4 \<and> (\<exists>t. snd s = t @ snd s')"
  using hex_digits_suffix [of 4 0 s w s'] by (simp add: parse_hex_quad_def fail_def split: if_splits)

lemma parse_unicode_shorter:
  "parse_unicode s = Inr (b, s') \<Longrightarrow> length (snd s') < length (snd s)"
  by (auto simp: parse_unicode_def rbind_eq_Inr fail_def dest!: parse_hex_quad_suffix
      split: if_splits)

lemma parse_escape_shorter:
  "parse_escape s = Inr (b, s') \<Longrightarrow> length (snd s') < length (snd s)"
  by (cases s rule: parse_escape.cases)
    (auto simp: fail_def Let_def dest!: parse_unicode_shorter split: if_splits)

function string_body :: "string \<Rightarrow> string parser" where
  "string_body result (p, []) = fail (p, []) ''unterminated string''"
| "string_body result (p, c # cs) =
     (if c = CHR 0x22 then Inr (result, (Suc p, cs))
      else if (of_char c :: nat) < 32 then
        fail (Suc p, cs) ''unescaped control character in string''
      else if c \<noteq> CHR 0x5C then string_body (result @ [c]) (Suc p, cs)
      else
        case parse_escape (Suc p, cs) of
          Inl e \<Rightarrow> Inl e
        | Inr (bytes, s') \<Rightarrow> string_body (result @ bytes) s')"
  by pat_completeness auto
termination
  by (relation "measure (\<lambda>(result, s). length (snd s))")
    (auto dest: parse_escape_shorter less_SucI)

definition parse_string :: "string parser" where
  "parse_string s = rbind (expect CHR 0x22 s) (string_body [])"

section \<open>Numbers\<close>

fun digits_end :: "cursor \<Rightarrow> cursor" where
  "digits_end (p, []) = (p, [])"
| "digits_end (p, c # cs) = (if is_digit c then digits_end (Suc p, cs) else (p, c # cs))"

definition at_digit :: "cursor \<Rightarrow> bool" where
  "at_digit s \<longleftrightarrow> (case snd s of [] \<Rightarrow> False | c # _ \<Rightarrow> is_digit c)"

definition scan_integer :: "cursor \<Rightarrow> parse_error + cursor" where
  "scan_integer s =
     (let s1 = (case consume CHR ''-'' s of Some s' \<Rightarrow> s' | None \<Rightarrow> s) in
      if consume CHR ''-'' s \<noteq> None \<and> snd s1 = [] then fail s1 ''incomplete number''
      else
        case consume CHR ''0'' s1 of
          Some s2 \<Rightarrow> Inr s2
        | None \<Rightarrow> if \<not> at_digit s1 then fail s1 ''invalid number'' else Inr (digits_end s1))"

definition scan_fraction :: "cursor \<Rightarrow> parse_error + cursor" where
  "scan_fraction s =
     (case consume CHR ''.'' s of
        None \<Rightarrow> Inr s
      | Some s1 \<Rightarrow>
          if \<not> at_digit s1 then fail s1 ''invalid fractional part'' else Inr (digits_end s1))"

definition scan_exponent :: "cursor \<Rightarrow> parse_error + cursor" where
  "scan_exponent s =
     (case snd s of
        [] \<Rightarrow> Inr s
      | c # cs \<Rightarrow>
          if c = CHR ''e'' \<or> c = CHR ''E'' then
            let s1 = (Suc (fst s), cs);
                s2 = (case snd s1 of
                        [] \<Rightarrow> s1
                      | d # ds \<Rightarrow> if d = CHR ''+'' \<or> d = CHR ''-'' then (Suc (fst s1), ds) else s1)
            in if \<not> at_digit s2 then fail s2 ''invalid exponent'' else Inr (digits_end s2)
          else Inr s)"

fun bit_length :: "nat \<Rightarrow> nat" where
  "bit_length n = (if n = 0 then 0 else Suc (bit_length (n div 2)))"

declare bit_length.simps [simp del]

definition round_half_even :: "nat \<Rightarrow> nat \<Rightarrow> nat" where
  "round_half_even n d =
     (if 2 * (n mod d) < d \<or> (2 * (n mod d) = d \<and> even (n div d)) then n div d
      else Suc (n div d))"

definition scale_ratio :: "nat \<Rightarrow> nat \<Rightarrow> int \<Rightarrow> nat \<times> nat" where
  "scale_ratio n d e = (if 0 \<le> e then (n, d * 2 ^ nat e) else (n * 2 ^ nat (- e), d))"

text \<open>The double nearest to \<open>n / d\<close>, ties to even; \<open>None\<close> when it is out of range.\<close>

definition nearest_double :: "nat \<Rightarrow> nat \<Rightarrow> rat option" where
  "nearest_double n d =
     (if n = 0 then Some 0
      else
        let e0 = max (int (bit_length n) - int (bit_length d) - 53) (- 1074);
            (n0, d0) = scale_ratio n d e0;
            e = (if 2 ^ 53 * d0 \<le> n0 then e0 + 1 else e0);
            (n1, d1) = scale_ratio n d e;
            m = round_half_even n1 d1
        in if m = 0 then None
           else if 0 \<le> e then
             (if 2 ^ 1024 \<le> m * 2 ^ nat e then None else Some (of_nat (m * 2 ^ nat e)))
           else Some (of_nat m / of_nat (2 ^ nat (- e))))"

text \<open>\<open>std::from_chars\<close> on a token of the scanned shape.\<close>

definition from_chars_double :: "string \<Rightarrow> rat option" where
  "from_chars_double token =
     (let negative = (take 1 token = ''-'');
          t1 = (if negative then drop 1 token else token);
          whole = takeWhile is_digit t1; t2 = dropWhile is_digit t1;
          fraction = (if take 1 t2 = ''.'' then takeWhile is_digit (drop 1 t2) else []);
          t3 = (if take 1 t2 = ''.'' then dropWhile is_digit (drop 1 t2) else t2);
          t4 = drop 1 t3;
          exponent = (if t3 = [] then 0
                      else if take 1 t4 = ''-'' then - int (decimal_value (drop 1 t4))
                      else if take 1 t4 = ''+'' then int (decimal_value (drop 1 t4))
                      else int (decimal_value t4));
          e = exponent - int (length fraction);
          digits = decimal_value (whole @ fraction)
      in map_option (\<lambda>x. if negative then - x else x)
           (if 0 \<le> e then nearest_double (digits * 10 ^ nat e) 1
            else nearest_double digits (10 ^ nat (- e))))"

definition parse_number :: "json parser" where
  "parse_number s =
     rbind (rbind (rbind (scan_integer s) scan_fraction) scan_exponent) (\<lambda>s'.
       case from_chars_double (take (fst s' - fst s) (snd s)) of
         Some x \<Rightarrow> Inr (JNumber x, s')
       | None \<Rightarrow> fail s' ''number is not representable'')"

section \<open>Values, arrays and objects\<close>

text \<open>\<open>std::map::emplace\<close>: \<open>None\<close> when the key is already there.\<close>

fun obj_emplace :: "string \<Rightarrow> json \<Rightarrow> (string \<times> json) list \<Rightarrow> (string \<times> json) list option" where
  "obj_emplace k v [] = Some [(k, v)]"
| "obj_emplace k v ((k', v') # kvs) =
     (if k < k' then Some ((k, v) # (k', v') # kvs)
      else if k = k' then None
      else map_option (\<lambda>r. (k', v') # r) (obj_emplace k v kvs))"

text \<open>
  Each step must leave less input than it found; the recursion below is total because of it.
\<close>

lemma skip_space_length: "length (snd (skip_space s)) \<le> length (snd s)"
  by (induction s rule: skip_space.induct) auto

lemma consume_length: "consume c s = Some s' \<Longrightarrow> length (snd s) = Suc (length (snd s'))"
  by (cases s rule: skip_space.cases) (auto split: if_splits)

lemma expect_length: "expect c s = Inr s' \<Longrightarrow> length (snd s) = Suc (length (snd s'))"
  by (auto simp: expect_def fail_def dest: consume_length split: option.splits)

lemma string_body_length:
  "string_body r s = Inr (t, s') \<Longrightarrow> length (snd s') < length (snd s)"
proof (induction r s rule: string_body.induct)
  case (2 r p c cs)
  then show ?case
    by (auto simp: fail_def dest: parse_escape_shorter split: if_splits sum.splits)
      (fastforce dest: parse_escape_shorter)
qed (simp add: fail_def)

lemma parse_string_length:
  "parse_string s = Inr (t, s') \<Longrightarrow> length (snd s') < length (snd s)"
  by (auto simp: parse_string_def rbind_eq_Inr dest!: string_body_length expect_length)

lemma parse_literal_length:
  "parse_literal l v s = Inr (t, s') \<Longrightarrow> l \<noteq> [] \<Longrightarrow> length (snd s') < length (snd s)"
  by (cases "snd s") (auto simp: parse_literal_def fail_def split: if_splits)

lemma digits_end_length: "length (snd (digits_end s)) \<le> length (snd s)"
  by (induction s rule: digits_end.induct) auto

lemma digits_end_shorter: "at_digit s \<Longrightarrow> length (snd (digits_end s)) < length (snd s)"
  using digits_end_length by (cases s rule: digits_end.cases)
    (auto simp: at_digit_def le_imp_less_Suc)

lemma scan_integer_length:
  assumes "scan_integer s = Inr s'"
  shows "length (snd s') < length (snd s)"
proof -
  obtain s1 where s1: "s1 = (case consume CHR ''-'' s of Some s' \<Rightarrow> s' | None \<Rightarrow> s)" by blast
  have "length (snd s1) \<le> length (snd s)"
    using consume_length [of "CHR ''-''" s] by (auto simp: s1 split: option.splits)
  moreover have "length (snd s') < length (snd s1)"
    using assms by (auto simp: scan_integer_def fail_def s1 [symmetric] Let_def
        dest: consume_length intro: digits_end_shorter split: if_splits option.splits)
  ultimately show ?thesis by simp
qed

lemma scan_fraction_length: "scan_fraction s = Inr s' \<Longrightarrow> length (snd s') \<le> length (snd s)"
  using digits_end_length [of "the (consume CHR ''.'' s)"] consume_length [of "CHR ''.''" s]
  by (auto simp: scan_fraction_def fail_def split: option.splits if_splits)

lemma scan_exponent_length: "scan_exponent s = Inr s' \<Longrightarrow> length (snd s') \<le> length (snd s)"
  using digits_end_length [of "(Suc (fst s), tl (snd s))"]
    digits_end_length [of "(Suc (Suc (fst s)), tl (tl (snd s)))"]
  by (auto simp: scan_exponent_def fail_def Let_def split: list.splits if_splits)

lemma parse_number_length:
  "parse_number s = Inr (v, s') \<Longrightarrow> length (snd s') < length (snd s)"
  by (fastforce simp: parse_number_def rbind_eq_Inr fail_def split: option.splits
      dest: scan_integer_length scan_fraction_length scan_exponent_length)

function parse_value :: "json parser"
  and parse_elements :: "json list \<Rightarrow> json parser"
  and parse_members :: "(string \<times> json) list \<Rightarrow> json parser" where
  "parse_value s0 =
     (let s = skip_space s0 in
      case snd s of
        [] \<Rightarrow> fail s ''expected a value''
      | c # cs \<Rightarrow>
          if c = CHR ''n'' then parse_literal ''null'' JNull s
          else if c = CHR ''t'' then parse_literal ''true'' (JBool True) s
          else if c = CHR ''f'' then parse_literal ''false'' (JBool False) s
          else if c = CHR 0x22 then rbind (parse_string s) (\<lambda>(t, s'). Inr (JString t, s'))
          else if c = CHR ''['' then
            (let s1 = skip_space (Suc (fst s), cs) in
             case consume CHR '']'' s1 of
               Some s2 \<Rightarrow> Inr (JArray [], s2)
             | None \<Rightarrow> parse_elements [] s1)
          else if c = CHR ''{'' then
            (let s1 = skip_space (Suc (fst s), cs) in
             case consume CHR ''}'' s1 of
               Some s2 \<Rightarrow> Inr (JObject [], s2)
             | None \<Rightarrow> parse_members [] s1)
          else if c = CHR ''-'' \<or> is_digit c then parse_number s
          else fail s ''invalid value'')"
| "parse_elements result s =
     (case parse_value s of
        Inl e \<Rightarrow> Inl e
      | Inr (v, s1) \<Rightarrow>
          let s2 = skip_space s1 in
          case consume CHR '']'' s2 of
            Some s3 \<Rightarrow> Inr (JArray (result @ [v]), s3)
          | None \<Rightarrow>
              (case expect CHR '','' s2 of
                 Inl e \<Rightarrow> Inl e
               | Inr s3 \<Rightarrow> parse_elements (result @ [v]) (skip_space s3)))"
| "parse_members result s =
     (if take 1 (snd s) \<noteq> [CHR 0x22] then fail s ''expected an object key''
      else
        case parse_string s of
          Inl e \<Rightarrow> Inl e
        | Inr (key, s1) \<Rightarrow>
            (case expect CHR '':'' (skip_space s1) of
               Inl e \<Rightarrow> Inl e
             | Inr s2 \<Rightarrow>
                 (case parse_value (skip_space s2) of
                    Inl e \<Rightarrow> Inl e
                  | Inr (v, s3) \<Rightarrow>
                      (case obj_emplace key v result of
                         None \<Rightarrow> fail s3 ''duplicate object key''
                       | Some result' \<Rightarrow>
                           let s4 = skip_space s3 in
                           case consume CHR ''}'' s4 of
                             Some s5 \<Rightarrow> Inr (JObject result', s5)
                           | None \<Rightarrow>
                               (case expect CHR '','' s4 of
                                  Inl e \<Rightarrow> Inl e
                                | Inr s5 \<Rightarrow> parse_members result' (skip_space s5))))))"
  by pat_completeness auto

lemma parse_shorter:
  "parse_value_parse_elements_parse_members_dom (Inl s) \<Longrightarrow>
     parse_value s = Inr (v, s') \<Longrightarrow> length (snd s') < length (snd s)"
  "parse_value_parse_elements_parse_members_dom (Inr (Inl (r, s))) \<Longrightarrow>
     parse_elements r s = Inr (v, s') \<Longrightarrow> length (snd s') < length (snd s)"
  "parse_value_parse_elements_parse_members_dom (Inr (Inr (m, s))) \<Longrightarrow>
     parse_members m s = Inr (v, s') \<Longrightarrow> length (snd s') < length (snd s)"
proof (induction s and r s and m s arbitrary: v s' and v s' and v s'
    rule: parse_value_parse_elements_parse_members.pinduct)
  case (1 s0)
  let ?s = "skip_space s0"
  have le: "length (snd ?s) \<le> length (snd s0)" by (rule skip_space_length)
  from "1.prems" obtain c cs where cs: "snd ?s = c # cs"
    by (cases "snd ?s") (simp_all add: parse_value.psimps [OF "1.hyps"(1)] fail_def Let_def)
  let ?s1 = "skip_space (Suc (fst ?s), cs)"
  have le1: "length (snd ?s1) < length (snd ?s)"
    using skip_space_length [of "(Suc (fst ?s), cs)"] cs by simp
  note eq = parse_value.psimps [OF "1.hyps"(1), unfolded Let_def cs list.case]
  consider "c = CHR ''[''" | "c = CHR ''{''" | "c \<noteq> CHR ''[''" "c \<noteq> CHR ''{''" by blast
  then show ?case
  proof cases
    case 1
    show ?thesis
    proof (cases "consume CHR '']'' ?s1")
      case None
      with "1.prems" 1 eq have "parse_elements [] ?s1 = Inr (v, s')" by simp
      from "1.IH"(1) [OF refl cs _ _ _ _ 1 refl None this] 1 le le1 show ?thesis by simp
    next
      case (Some s2)
      with "1.prems" 1 eq consume_length [OF Some] le le1 show ?thesis by simp
    qed
  next
    case 2
    show ?thesis
    proof (cases "consume CHR ''}'' ?s1")
      case None
      with "1.prems" 2 eq have "parse_members [] ?s1 = Inr (v, s')" by simp
      from "1.IH"(2) [OF refl cs _ _ _ _ _ 2 refl None this] 2 le le1 show ?thesis by simp
    next
      case (Some s2)
      with "1.prems" 2 eq consume_length [OF Some] le le1 show ?thesis by simp
    qed
  next
    case 3
    have "length (snd s') < length (snd ?s)"
      using "1.prems" 3 parse_literal_length [of "''null''" JNull ?s v s']
        parse_literal_length [of "''true''" "JBool True" ?s v s']
        parse_literal_length [of "''false''" "JBool False" ?s v s']
        parse_number_length [of ?s v s'] parse_string_length [of ?s _ s']
      unfolding eq by (simp add: rbind_eq_Inr fail_def split: if_splits prod.splits) blast+
    with le show ?thesis by simp
  qed
next
  case (2 result s)
  from "2.prems" obtain x s1 where v: "parse_value s = Inr (x, s1)"
    by (auto simp: parse_elements.psimps [OF "2.hyps"(1)] split: sum.splits)
  have s1: "length (snd s1) < length (snd s)" by (rule "2.IH"(1) [OF v])
  let ?s2 = "skip_space s1"
  have s2: "length (snd ?s2) < length (snd s)" using s1 skip_space_length [of s1] by simp
  show ?case
  proof (cases "consume CHR '']'' ?s2")
    case (Some s3)
    with "2.prems" v s2 show ?thesis
      by (auto simp: parse_elements.psimps [OF "2.hyps"(1)] dest!: consume_length)
  next
    case None
    with "2.prems" v obtain s3 where s3: "expect CHR '','' ?s2 = Inr s3"
      "parse_elements (result @ [x]) (skip_space s3) = Inr (v, s')"
      by (auto simp: parse_elements.psimps [OF "2.hyps"(1)] split: sum.splits)
    from "2.IH"(2) [OF v refl refl None s3] expect_length [OF s3(1)] s2
      skip_space_length [of s3]
    show ?thesis by simp
  qed
next
  case (3 result s)
  note simps = parse_members.psimps [OF "3.hyps"(1)]
  from "3.prems" have q: "take 1 (snd s) = [CHR 0x22]"
    by (cases "take 1 (snd s) = [CHR 0x22]") (simp_all add: simps fail_def)
  with "3.prems" obtain key s1 where key: "parse_string s = Inr (key, s1)"
    by (auto simp: simps split: sum.splits)
  with q "3.prems" obtain s2 where s2: "expect CHR '':'' (skip_space s1) = Inr s2"
    by (auto simp: simps split: sum.splits)
  with q key "3.prems" obtain x s3 where x: "parse_value (skip_space s2) = Inr (x, s3)"
    by (auto simp: simps split: sum.splits)
  with q key s2 "3.prems" obtain r where r: "obj_emplace key x result = Some r"
    by (auto simp: simps fail_def split: option.splits)
  note so_far = parse_string_length [OF key] expect_length [OF s2] skip_space_length [of s1]
    skip_space_length [of s2] skip_space_length [of s3]
  have s3: "length (snd s3) < length (snd (skip_space s2))"
    using "3.IH"(1) [OF _ key refl s2 x] q by simp
  show ?case
  proof (cases "consume CHR ''}'' (skip_space s3)")
    case (Some s5)
    with "3.prems" q key s2 x r so_far s3 show ?thesis
      by (auto simp: simps dest!: consume_length)
  next
    case None
    with "3.prems" q key s2 x r obtain s5 where s5: "expect CHR '','' (skip_space s3) = Inr s5"
      "parse_members r (skip_space s5) = Inr (v, s')"
      by (auto simp: simps split: sum.splits)
    from "3.IH"(2) [OF _ key refl s2 x refl r refl None s5] q expect_length [OF s5(1)] so_far s3
      skip_space_length [of s5]
    show ?thesis by simp
  qed
qed

termination parse_value
proof (relation "measure (case_sum (\<lambda>s. 2 * length (snd s))
    (case_sum (\<lambda>(r, s). Suc (2 * length (snd s))) (\<lambda>(r, s). Suc (2 * length (snd s)))))", goal_cases)
  case 1
  then show ?case by simp
next
  case (2 s0 x c cs xa)
  then show ?case using skip_space_length [of s0] skip_space_length [of "(Suc (fst x), cs)"] by simp
next
  case (3 s0 x c cs xa)
  then show ?case using skip_space_length [of s0] skip_space_length [of "(Suc (fst x), cs)"] by simp
next
  case (4 result s)
  then show ?case by simp
next
  case (5 result s b x y xa ba)
  then have "length (snd y) < length (snd s)" using parse_shorter(1) by blast
  with 5 show ?case
    using expect_length [OF 5(5)] skip_space_length [of y] skip_space_length [of ba] by simp
next
  case (6 result s b x y ba)
  then show ?case
    using expect_length [OF 6(4)] skip_space_length [of y] skip_space_length [of ba]
      parse_string_length [of s x y] by simp
next
  case (7 result s b x y ba bb xa ya x2 xb bc)
  then have "length (snd ya) < length (snd (skip_space ba))" using parse_shorter(1) by blast
  with 7 show ?case
    using expect_length [OF 7(4)] expect_length [OF 7(10)] skip_space_length [of y]
      skip_space_length [of ba] skip_space_length [of ya] skip_space_length [of bc]
      parse_string_length [of s x y] by simp
qed

definition parse :: "string \<Rightarrow> parse_error + json" where
  "parse input =
     rbind (parse_value (skip_space (0, input))) (\<lambda>(v, s).
       let s' = skip_space s in
       if snd s' \<noteq> [] then fail s' ''unexpected trailing content'' else Inr v)"

section \<open>Writing strings\<close>

definition hex_char :: "nat \<Rightarrow> char" where
  "hex_char n = ''0123456789abcdef'' ! n"

definition escape_char :: "char \<Rightarrow> string" where
  "escape_char c =
     (if c = CHR 0x22 then [CHR 0x5C, CHR 0x22]
      else if c = CHR 0x5C then [CHR 0x5C, CHR 0x5C]
      else if c = CHR 0x08 then [CHR 0x5C, CHR ''b'']
      else if c = CHR 0x0C then [CHR 0x5C, CHR ''f'']
      else if c = CHR 0x0A then [CHR 0x5C, CHR ''n'']
      else if c = CHR 0x0D then [CHR 0x5C, CHR ''r'']
      else if c = CHR 0x09 then [CHR 0x5C, CHR ''t'']
      else if (of_char c :: nat) < 32 then
        [CHR 0x5C, CHR ''u'', CHR ''0'', CHR ''0'',
         hex_char (of_char c div 16), hex_char (of_char c mod 16)]
      else [c])"

definition escape :: "string \<Rightarrow> string" where
  "escape input = concat (map escape_char input)"

end
