(* ===== verification/Json_Facts.thy ===== *)
theory Json_Facts
  imports Json
begin

text \<open>
  What the reader and writer of \<open>src/json.cpp\<close> promise: an escaped string reads back, whole
  numbers below \<open>2 ^ 53\<close> are read exactly, and every well-formed value with such numbers is
  read back from its compact text (\<open>render\<close>, the shape in which the program's writers print).
\<close>

declare parse_value.simps [simp del] parse_elements.simps [simp del] parse_members.simps [simp del]

section \<open>Strings\<close>

lemma string_body_plain:
  "c \<noteq> CHR 0x22 \<Longrightarrow> 32 \<le> (of_char c :: nat) \<Longrightarrow> c \<noteq> CHR 0x5C \<Longrightarrow>
     string_body r (p, c # cs) = string_body (r @ [c]) (Suc p, cs)"
  by simp

lemma below_16: "n < 16 \<Longrightarrow> n \<in> set [0, 1, 2, 3, 4, 5, 6, 7, 8, 9, 10, 11, 12, 13, 14, 15 :: nat]"
  by (simp, presburger)

lemma hex_value_hex_char:
  assumes "n < 16"
  shows "hex_value (hex_char n) = Some (of_nat n)"
  using below_16 [OF assms] by (simp, elim disjE) (simp_all add: hex_value_def hex_char_def)

lemma or_16:
  assumes "n < 16"
  shows "(16 OR of_nat n :: 32 word) = of_nat (16 + n)"
  using below_16 [OF assms] by (simp, elim disjE) simp_all

lemma hex_pair:
  assumes "n < 32"
  shows "(push_bit 4 (of_nat (n div 16)) OR of_nat (n mod 16) :: 32 word) = of_nat n"
proof (cases "n < 16")
  case False
  then have "n div 16 = 1" "n mod 16 = n - 16" using assms by (simp_all add: div_nat_eqI mod_if)
  then show ?thesis using or_16 [of "n - 16"] False assms by simp
qed simp

lemma append_utf8_ascii:
  assumes "n \<le> 127"
  shows "append_utf8 (of_nat n) = [char_of n]"
proof -
  have u: "unat (of_nat n :: 32 word) = n" using assms by (simp add: unat_of_nat)
  have "(of_nat n :: 32 word) \<le> 0x7f" using assms by (simp add: word_le_nat_alt u)
  then show ?thesis by (simp add: append_utf8_def u)
qed

lemma hex_value_zero: "hex_value CHR ''0'' = Some 0"
  by (simp add: hex_value_def)

lemma hex_digits_four:
  assumes "hex_value a = Some a'" "hex_value b = Some b'" "hex_value c = Some c'"
    "hex_value d = Some d'"
  shows "hex_digits 4 r (p, a # b # c # d # cs) =
    Inr (push_bit 4 (push_bit 4 (push_bit 4 (push_bit 4 r OR a') OR b') OR c') OR d', (p + 4, cs))"
proof -
  have four: "4 = Suc (Suc (Suc (Suc 0)))" by simp
  show ?thesis
    by (subst four, simp only: hex_digits.simps assms option.case) simp
qed

lemma parse_hex_quad_pair:
  assumes "n < 32"
  shows "parse_hex_quad (p, CHR ''0'' # CHR ''0'' # hex_char (n div 16) # hex_char (n mod 16) # cs) =
    Inr (of_nat n, (p + 4, cs))"
proof -
  have d: "hex_value (hex_char (n div 16)) = Some (of_nat (n div 16))"
    "hex_value (hex_char (n mod 16)) = Some (of_nat (n mod 16))"
    using assms by (simp_all add: hex_value_hex_char)
  show ?thesis
    by (simp add: parse_hex_quad_def hex_digits_four [OF hex_value_zero hex_value_zero d]
        hex_pair [OF assms])
qed

lemma parse_unicode_control:
  assumes "(of_char c :: nat) < 32"
  shows "parse_unicode (p, CHR ''0'' # CHR ''0'' # hex_char (of_char c div 16) #
      hex_char (of_char c mod 16) # cs) = Inr ([c], (p + 4, cs))"
proof -
  have "\<not> (0xd800 :: 32 word) \<le> of_nat (of_char c)"
    using assms by (simp add: word_le_nat_alt unat_of_nat)
  moreover have "append_utf8 (of_nat (of_char c)) = [c]"
    using append_utf8_ascii [of "of_char c"] assms by simp
  ultimately show ?thesis
    by (simp add: parse_unicode_def parse_hex_quad_pair [OF assms])
qed

lemma string_body_escape_char:
  "string_body r (p, escape_char c @ cs) = string_body (r @ [c]) (p + length (escape_char c), cs)"
proof -
  have "string_body r (p, CHR 0x5C # CHR ''u'' # CHR ''0'' # CHR ''0'' #
      hex_char (of_char c div 16) # hex_char (of_char c mod 16) # cs) =
    string_body (r @ [c]) (Suc (Suc (Suc (Suc (Suc (Suc p))))), cs)" if "(of_char c :: nat) < 32"
  proof -
    have "Suc (Suc p) + 4 = Suc (Suc (Suc (Suc (Suc (Suc p)))))" by simp
    from parse_unicode_control [OF that, of "Suc (Suc p)" cs, unfolded this] show ?thesis by simp
  qed
  then show ?thesis by (simp add: escape_char_def)
qed

lemma string_body_escape:
  "string_body r (p, escape s @ CHR 0x22 # rest) =
     Inr (r @ s, (p + length (escape s) + 1, rest))"
proof (induction s arbitrary: r p)
  case (Cons c s)
  then show ?case by (simp add: escape_def string_body_escape_char)
qed (simp add: escape_def)

definition quoted :: "string \<Rightarrow> string" where
  "quoted s = CHR 0x22 # escape s @ [CHR 0x22]"

lemma parse_string_quoted:
  "parse_string (p, quoted s @ rest) = Inr (s, (p + length (quoted s), rest))"
  using string_body_escape [of "[]" "Suc p" s rest]
  by (simp add: parse_string_def expect_def quoted_def)

section \<open>Whole numbers\<close>

lemma bit_length_simps [simp]: "bit_length 0 = 0" "bit_length (Suc 0) = 1"
  by (simp_all add: bit_length.simps [of 0] bit_length.simps [of "Suc 0"])

lemma bit_length_bounds: "0 < n \<Longrightarrow> 2 ^ (bit_length n - 1) \<le> n \<and> n < 2 ^ bit_length n \<and> 0 < bit_length n"
proof (induction n rule: bit_length.induct)
  case (1 n)
  show ?case
  proof (cases "n = 1")
    case True
    then show ?thesis by simp
  next
    case False
    with 1 have half: "0 < n div 2" by simp
    define k where "k = bit_length (n div 2)"
    have k: "2 ^ (k - 1) \<le> n div 2" "n div 2 < 2 ^ k" "0 < k" "bit_length n = Suc k"
      using 1 half by (simp_all add: k_def bit_length.simps [of n])
    from k(3) have "(2 :: nat) ^ k = 2 * 2 ^ (k - 1)" by (cases k) simp_all
    with k show ?thesis by auto
  qed
qed

lemma nearest_double_nat:
  assumes "n < 2 ^ 53"
  shows "nearest_double n 1 = Some (of_nat n)"
proof (cases "n = 0")
  case False
  let ?b = "bit_length n"
  from False bit_length_bounds [of n] have b: "2 ^ (?b - 1) \<le> n" "n < 2 ^ ?b" "0 < ?b" by auto
  have "?b - 1 < 53"
  proof (rule ccontr)
    assume "\<not> ?b - 1 < 53"
    then have "(2 :: nat) ^ 53 \<le> 2 ^ (?b - 1)" by (intro power_increasing) simp_all
    with b(1) assms show False by simp
  qed
  then have b53: "?b \<le> 53" by simp
  define k where "k = 53 - ?b"
  have e0: "max (int ?b - int (bit_length 1) - 53) (- 1074) = - int (Suc k)"
    using b53 b(3) by (simp add: k_def)
  have pow: "(2 :: nat) ^ 53 = 2 ^ (?b - 1) * 2 ^ Suc k"
    using b53 b(3) by (simp add: k_def flip: power_add)
  have big: "2 ^ 53 \<le> n * 2 ^ Suc k" unfolding pow using b(1) by (rule mult_right_mono) simp
  have scaled: "scale_ratio n 1 (- int (Suc k)) = (n * 2 ^ Suc k, 1)"
    by (simp add: scale_ratio_def nat_add_distrib)
  have e: "- int (Suc k) + 1 = - int k" by simp
  have scaled': "scale_ratio n 1 (- int k) = (n * 2 ^ k, 1)"
    by (cases k) (simp_all add: scale_ratio_def nat_add_distrib)
  have round: "round_half_even (n * 2 ^ k) 1 = n * 2 ^ k" by (simp add: round_half_even_def)
  have "nearest_double n 1 =
      (if n * 2 ^ k = 0 then None
       else if 0 \<le> - int k then
         (if 2 ^ 1024 \<le> n * 2 ^ k * 2 ^ nat (- int k) then None
          else Some (of_nat (n * 2 ^ k * 2 ^ nat (- int k))))
       else Some (of_nat (n * 2 ^ k) / of_nat (2 ^ nat (- (- int k)))))"
    using False big unfolding nearest_double_def Let_def e0 scaled
    by (simp only: prod.case mult_1_right e scaled' round if_True if_False)
  moreover have "\<not> (2 :: nat) ^ 1024 \<le> n"
  proof -
    have "(2 :: nat) ^ 53 \<le> 2 ^ 1024" by (intro power_increasing) simp_all
    with assms show ?thesis by linarith
  qed
  moreover have "of_nat (n * 2 ^ k) / of_nat (2 ^ k) = (of_nat n :: rat)" by simp
  ultimately show ?thesis using False by (cases "k = 0") (simp_all only: nat_int of_nat_0_le_iff, simp_all)
qed (simp add: nearest_double_def)

definition ends_value :: "string \<Rightarrow> bool" where
  "ends_value rest \<longleftrightarrow> (case rest of [] \<Rightarrow> True
     | c # _ \<Rightarrow> \<not> is_digit c \<and> c \<noteq> CHR ''.'' \<and> c \<noteq> CHR ''e'' \<and> c \<noteq> CHR ''E'')"

lemma digits_end_run:
  "(\<forall>c \<in> set ds. is_digit c) \<Longrightarrow> ends_value rest \<Longrightarrow>
     digits_end (p, ds @ rest) = (p + length ds, rest)"
proof (induction ds arbitrary: p)
  case Nil
  then show ?case by (cases rest) (simp_all add: ends_value_def)
qed simp

lemma to_string_nat_zero: "to_string_nat 0 = ''0''"
  by code_simp

lemma scan_integer_nat:
  assumes "ends_value rest"
  shows "scan_integer (p, to_string_nat n @ rest) = Inr (p + length (to_string_nat n), rest)"
proof (cases "n = 0")
  case True
  then show ?thesis by (simp add: to_string_nat_zero scan_integer_def)
next
  case False
  obtain d ds where d: "to_string_nat n = d # ds" by (cases "to_string_nat n") simp_all
  have digits: "\<forall>c \<in> set (d # ds). is_digit c" using to_string_nat_digits [of _ n] d by simp
  then have "is_digit d" by simp
  moreover have "\<not> is_digit CHR ''-''" by (simp add: is_digit_def)
  ultimately have "d \<noteq> CHR ''-''" by blast
  moreover have "d \<noteq> CHR ''0''" using to_string_nat_hd [of n] False d by simp
  ultimately show ?thesis
    using digits_end_run [OF digits assms, of p] digits
    by (simp add: scan_integer_def d at_digit_def)
qed

lemma scan_rest:
  assumes "ends_value rest"
  shows "scan_fraction (p, rest) = Inr (p, rest)" "scan_exponent (p, rest) = Inr (p, rest)"
  using assms by (cases rest; simp add: ends_value_def scan_fraction_def scan_exponent_def)+

lemma from_chars_nat:
  assumes "n < 2 ^ 53"
  shows "from_chars_double (to_string_nat n) = Some (of_nat n)"
proof -
  have all: "c \<in> set (to_string_nat n) \<Longrightarrow> is_digit c" for c by (rule to_string_nat_digits)
  then have run: "takeWhile is_digit (to_string_nat n) = to_string_nat n"
    "dropWhile is_digit (to_string_nat n) = []" by (simp_all add: takeWhile_eq_all_conv)
  have sign: "take 1 (to_string_nat n) \<noteq> ''-''"
  proof
    assume "take 1 (to_string_nat n) = ''-''"
    then have "CHR ''-'' \<in> set (to_string_nat n)" by (metis in_set_takeD list.set_intros(1))
    from all [OF this] show False by (simp add: is_digit_def)
  qed
  show ?thesis
    unfolding from_chars_double_def Let_def run
    using nearest_double_nat [OF assms] sign by (simp add: run)
qed

lemma parse_number_nat:
  assumes "n < 2 ^ 53" "ends_value rest"
  shows "parse_number (p, to_string_nat n @ rest) =
    Inr (JNumber (of_nat n), (p + length (to_string_nat n), rest))"
  by (simp add: parse_number_def scan_integer_nat [OF assms(2)] scan_rest [OF assms(2)]
      from_chars_nat [OF assms(1)])

section \<open>Reading back compact text\<close>

fun comma :: "string list \<Rightarrow> string" where
  "comma [] = []"
| "comma [x] = x"
| "comma (x # y # ys) = x @ CHR '','' # comma (y # ys)"

fun render :: "json \<Rightarrow> string" where
  "render JNull = ''null''"
| "render (JBool b) = (if b then ''true'' else ''false'')"
| "render (JNumber x) = to_string_nat (nat \<lfloor>x\<rfloor>)"
| "render (JString s) = quoted s"
| "render (JArray vs) = CHR ''['' # comma (map render vs) @ '']''"
| "render (JObject kvs) =
     CHR ''{'' # comma (map (\<lambda>(k, v). quoted k @ CHR '':'' # render v) kvs) @ ''}''"

text \<open>Numbers are whole and below \<open>2 ^ 53\<close>; the keys of every object strictly increase.\<close>

fun renderable :: "json \<Rightarrow> bool" where
  "renderable (JNumber x) \<longleftrightarrow> x = of_nat (nat \<lfloor>x\<rfloor>) \<and> nat \<lfloor>x\<rfloor> < 2 ^ 53"
| "renderable (JArray vs) \<longleftrightarrow> list_all renderable vs"
| "renderable (JObject kvs) \<longleftrightarrow>
     sorted_wrt (<) (map fst kvs) \<and> list_all (\<lambda>(k, v). renderable v) kvs"
| "renderable _ \<longleftrightarrow> True"

lemma obj_emplace_last:
  "\<forall>k' \<in> set (map fst kvs). k' < k \<Longrightarrow> obj_emplace k v kvs = Some (kvs @ [(k, v)])"
  by (induction k v kvs rule: obj_emplace.induct) (auto dest: order.asym)

lemma skip_space_solid: "\<not> is_space c \<Longrightarrow> skip_space (p, c # cs) = (p, c # cs)"
  by simp

lemma render_hd:
  "\<exists>c cs. render v = c # cs \<and> \<not> is_space c \<and> c \<noteq> CHR '']''"
proof (cases v)
  case (JNumber x)
  obtain c cs where c: "to_string_nat (nat \<lfloor>x\<rfloor>) = c # cs"
    by (cases "to_string_nat (nat \<lfloor>x\<rfloor>)") simp_all
  then have "is_digit c" using to_string_nat_digits [of c "nat \<lfloor>x\<rfloor>"] by simp
  then show ?thesis using c JNumber by (auto simp: is_digit_def is_space_def)
qed (auto simp: is_space_def quoted_def)

lemma skip_space_render: "skip_space (p, render v @ rest) = (p, render v @ rest)"
  using render_hd [of v] by auto

lemma comma_hd:
  "vs \<noteq> [] \<Longrightarrow> skip_space (p, comma (map render vs) @ rest) = (p, comma (map render vs) @ rest)"
  using skip_space_render by (cases vs rule: comma.cases [of "map render vs", case_product list.exhaust])
    (auto simp: skip_space_render)

lemma ends_value_marks [simp]:
  "ends_value (CHR '','' # r)" "ends_value (CHR '']'' # r)" "ends_value (CHR ''}'' # r)"
  by (simp_all add: ends_value_def is_digit_def)

definition reads :: "json \<Rightarrow> bool" where
  "reads v \<longleftrightarrow> (\<forall>p rest. ends_value rest \<longrightarrow>
     parse_value (p, render v @ rest) = Inr (v, (p + length (render v), rest)))"

lemma parse_elements_render:
  assumes "\<forall>v \<in> set vs. reads v" "vs \<noteq> []"
  shows "parse_elements acc (p, comma (map render vs) @ CHR '']'' # rest) =
    Inr (JArray (acc @ vs), (p + length (comma (map render vs)) + 1, rest))"
  using assms
proof (induction vs arbitrary: acc p)
  case (Cons v vs)
  show ?case
  proof (cases vs)
    case Nil
    with Cons.prems show ?thesis
      by (simp add: parse_elements.simps reads_def is_space_def)
  next
    case (Cons w ws)
    with Cons.prems have "parse_value (p, render v @ CHR '','' # comma (map render vs) @ CHR '']'' # rest) =
      Inr (v, (p + length (render v), CHR '','' # comma (map render vs) @ CHR '']'' # rest))"
      by (simp add: reads_def)
    moreover have "skip_space (q, comma (map render vs) @ r) = (q, comma (map render vs) @ r)" for q r
      using comma_hd [of vs q r] Cons by simp
    ultimately show ?thesis
      using Cons.IH [of "acc @ [v]" "Suc (p + length (render v))"] Cons.prems Cons
      by (simp add: parse_elements.simps [of acc] is_space_def expect_def)
  qed
qed simp

definition member_text :: "string \<times> json \<Rightarrow> string" where
  "member_text kv = quoted (fst kv) @ CHR '':'' # render (snd kv)"

lemma render_object: "render (JObject kvs) = CHR ''{'' # comma (map member_text kvs) @ ''}''"
proof -
  have "member_text = (\<lambda>(k, v). quoted k @ CHR '':'' # render v)" by (auto simp: member_text_def)
  then show ?thesis by simp
qed

lemma member_text_hd: "\<exists>cs. comma (map member_text (kv # kvs)) = CHR 0x22 # cs"
  by (cases kvs) (simp_all add: member_text_def quoted_def)

lemma skip_space_members:
  "skip_space (p, comma (map member_text (kv # kvs)) @ rest) =
     (p, comma (map member_text (kv # kvs)) @ rest)"
  using member_text_hd [of kv kvs] by (auto simp: is_space_def)

text \<open>One member, up to the end of its value.\<close>

lemma parse_member:
  assumes "reads v" "ends_value rest"
  shows "take 1 (member_text (k, v) @ rest) = [CHR 0x22]"
    and "parse_string (p, member_text (k, v) @ rest) =
      Inr (k, (p + length (quoted k), CHR '':'' # render v @ rest))"
    and "expect CHR '':'' (skip_space (p + length (quoted k), CHR '':'' # render v @ rest)) =
      Inr (Suc (p + length (quoted k)), render v @ rest)"
    and "parse_value (skip_space (Suc (p + length (quoted k)), render v @ rest)) =
      Inr (v, (p + length (member_text (k, v)), rest))"
  using assms
  by (simp_all add: member_text_def parse_string_quoted skip_space_render reads_def expect_def
      is_space_def) (simp add: quoted_def)

lemma parse_members_render:
  assumes "\<forall>v \<in> snd ` set kvs. reads v" "kvs \<noteq> []" "sorted_wrt (<) (map fst (acc @ kvs))"
  shows "parse_members acc (p, comma (map member_text kvs) @ CHR ''}'' # rest) =
    Inr (JObject (acc @ kvs), (p + length (comma (map member_text kvs)) + 1, rest))"
  using assms
proof (induction kvs arbitrary: acc p)
  case (Cons kv kvs)
  obtain k v where kv: "kv = (k, v)" by force
  have v: "reads v" using Cons.prems(1) kv by simp
  have "\<forall>k' \<in> set (map fst acc). k' < k" using Cons.prems(3) kv by (auto simp: sorted_wrt_append)
  note insert = obj_emplace_last [OF this, of v]
  show ?case
  proof (cases kvs)
    case Nil
    then show ?thesis
      using parse_member [OF v ends_value_marks(3) [of rest]] insert kv
      by (simp add: parse_members.simps [of acc] is_space_def)
  next
    case (Cons kv' kvs')
    let ?tail = "comma (map member_text kvs) @ CHR ''}'' # rest"
    have split: "comma (map member_text (kv # kvs)) @ CHR ''}'' # rest =
      member_text (k, v) @ CHR '','' # ?tail" by (simp add: Cons kv)
    have skip: "skip_space (q, ?tail) = (q, ?tail)" for q
      unfolding Cons by (rule skip_space_members)
    have "sorted_wrt (<) (map fst ((acc @ [(k, v)]) @ kvs))" using Cons.prems(3) kv by simp
    then have IH: "parse_members (acc @ [(k, v)]) (q, ?tail) =
      Inr (JObject (acc @ kv # kvs), (q + length (comma (map member_text kvs)) + 1, rest))" for q
      using Cons.IH [of "acc @ [(k, v)]" q] Cons.prems(1) Cons kv by simp
    note m = parse_member [OF v ends_value_marks(1) [of ?tail]]
    have "parse_members acc (p, member_text (k, v) @ CHR '','' # ?tail) =
        parse_members (acc @ [(k, v)]) (skip_space (Suc (p + length (member_text (k, v))), ?tail))"
      by (subst parse_members.simps, simp only: m fst_conv snd_conv sum.case prod.case insert option.case)
        (simp add: is_space_def expect_def)
    then show ?thesis unfolding split skip IH by (simp add: Cons kv)
  qed
qed simp

text \<open>Every renderable value is read back, whatever follows it.\<close>

lemma render_reads: "renderable v \<Longrightarrow> reads v"
proof (induction v)
  case JNull
  then show ?case
    by (simp add: reads_def parse_value.simps parse_literal_def is_space_def Let_def)
next
  case (JBool b)
  then show ?case
    by (cases b) (simp_all add: reads_def parse_value.simps parse_literal_def is_space_def Let_def)
next
  case (JNumber x)
  let ?n = "nat \<lfloor>x\<rfloor>"
  from JNumber have x: "JNumber x = JNumber (of_nat ?n)" and n: "?n < 2 ^ 53" by simp_all
  obtain d ds where d: "to_string_nat ?n = d # ds" by (cases "to_string_nat ?n") simp_all
  then have dig: "is_digit d" using to_string_nat_digits [of d ?n] by simp
  then have "d \<noteq> CHR ''n''" "d \<noteq> CHR ''t''" "d \<noteq> CHR ''f''" "d \<noteq> CHR 0x22" "d \<noteq> CHR ''[''"
    "d \<noteq> CHR ''{''" "\<not> is_space d" by (auto simp: is_digit_def is_space_def)
  then show ?case
    using parse_number_nat [OF n] x dig
    by (simp add: reads_def parse_value.simps d Let_def)
next
  case (JString s)
  then show ?case
    by (simp add: reads_def parse_value.simps Let_def is_space_def quoted_def
        parse_string_quoted [unfolded quoted_def, simplified])
next
  case (JArray vs)
  then have all: "\<forall>v \<in> set vs. reads v" by (auto simp: list_all_iff)
  show ?case
  proof (cases "vs = []")
    case True
    then show ?thesis by (simp add: reads_def parse_value.simps is_space_def Let_def)
  next
    case False
    obtain w ws where "vs = w # ws" using False by (cases vs) simp_all
    then obtain c cs where c: "comma (map render vs) = c # cs" "\<not> is_space c" "c \<noteq> CHR '']''"
      using render_hd [of w] by (cases ws) auto
    then show ?thesis
      using parse_elements_render [OF all False, of "[]"]
      by (simp add: reads_def parse_value.simps is_space_def [of "CHR ''[''"] Let_def)
  qed
next
  case (JObject kvs)
  then have all: "\<forall>v \<in> snd ` set kvs. reads v" by (force simp: list_all_iff)
  show ?case
  proof (cases kvs)
    case Nil
    then show ?thesis by (simp add: reads_def parse_value.simps is_space_def Let_def)
  next
    case (Cons kv kvs')
    obtain cs where cs: "comma (map member_text kvs) = CHR 0x22 # cs"
      using member_text_hd [of kv kvs'] Cons by auto
    have sorted: "sorted_wrt (<) (map fst ([] @ kvs))" using JObject.prems by simp
    from Cons have "kvs \<noteq> []" by simp
    from parse_members_render [OF all this sorted] show ?thesis
      by (simp add: reads_def parse_value.simps is_space_def Let_def render_object cs
          del: render.simps)
  qed
qed

text \<open>
  C19: Reading inverts writing: every value whose numbers are whole and below \<open>2 ^ 53\<close> and
  whose objects have strictly increasing keys is what the parser returns for its compact
  text, strings with quotes, backslashes and control characters included.
\<close>
theorem parse_render:
  assumes "renderable v"
  shows "parse (render v) = Inr v"
proof -
  have "ends_value []" by (simp add: ends_value_def)
  from render_reads [OF assms, unfolded reads_def, rule_format, OF this, of 0]
  show ?thesis using skip_space_render [of 0 v "[]"] by (simp add: parse_def)
qed

lemma parse_render_witness:
  "parse (render (JObject [(''line'', JNumber 12), (''name'', JArray [JString [CHR 0x22], JNull])])) =
     Inr (JObject [(''line'', JNumber 12), (''name'', JArray [JString [CHR 0x22], JNull])])"
  by (rule parse_render) simp

end
