(* ===== verification/Paths.thy ===== *)
theory Paths
  imports Prelude
begin

text \<open>
  \<open>std::filesystem::path\<close> on POSIX, as far as the program uses it: a path is a byte string;
  the operations are those of the C++ standard's generic format without root names. What
  depends on the machine (the working directory, file contents, canonical names) is the
  record \<open>filesystem\<close>, an argument of the definitions that touch files.
\<close>

datatype read_result = Cannot_Open | Read_Failed | Contents string

record filesystem =
  fs_cwd :: string
  fs_read :: "string \<Rightarrow> read_result"
  fs_size :: "string \<Rightarrow> nat option"
  fs_regular :: "string \<Rightarrow> bool"
  fs_canonical :: "string \<Rightarrow> string"

definition is_absolute :: "string \<Rightarrow> bool" where
  "is_absolute p \<longleftrightarrow> take 1 p = ''/''"

text \<open>The operator \<open>/\<close>.\<close>

definition path_append :: "string \<Rightarrow> string \<Rightarrow> string" where
  "path_append p q =
     (if is_absolute q then q
      else if p = [] \<or> last p = CHR ''/'' then p @ q
      else p @ ''/'' @ q)"

definition absolute :: "filesystem \<Rightarrow> string \<Rightarrow> string" where
  "absolute fs p = (if is_absolute p then p else path_append (fs_cwd fs) p)"

text \<open>The components between separators; consecutive separators enclose empty ones.\<close>

fun split_at :: "char \<Rightarrow> string \<Rightarrow> string list" where
  "split_at d [] = [[]]"
| "split_at d (c # cs) =
     (if c = d then [] # split_at d cs
      else (c # hd (split_at d cs)) # tl (split_at d cs))"

fun join_with :: "string \<Rightarrow> string list \<Rightarrow> string" where
  "join_with d [] = []"
| "join_with d [x] = x"
| "join_with d (x # y # ys) = x @ d @ join_with d (y # ys)"

definition components :: "string \<Rightarrow> string list" where
  "components p = filter (\<lambda>c. c \<noteq> []) (split_at CHR ''/'' p)"

definition filename :: "string \<Rightarrow> string" where
  "filename p = last (split_at CHR ''/'' p)"

definition parent_path :: "string \<Rightarrow> string" where
  "parent_path p =
     (let base = take (length p - length (filename p)) p;
          stripped = rev (dropWhile (\<lambda>c. c = CHR ''/'') (rev base))
      in if base \<noteq> [] \<and> stripped = [] then ''/'' else stripped)"

text \<open>
  The steps of \<open>lexically_normal\<close>: drop dots, cancel a name with the dot-dot after it, drop
  dot-dots at the root. The stack is reversed.
\<close>

definition dot :: string where "dot = ''.''"
definition dot_dot :: string where "dot_dot = ''..''"

fun normal_step :: "bool \<Rightarrow> string \<Rightarrow> string list \<Rightarrow> string list" where
  "normal_step rooted c stack =
     (if c = [] \<or> c = dot then stack
      else if c = dot_dot then
        (case stack of
           [] \<Rightarrow> if rooted then [] else [c]
         | t # ts \<Rightarrow> if t = dot_dot then c # stack else ts)
      else c # stack)"

definition lexically_normal :: "string \<Rightarrow> string" where
  "lexically_normal p =
     (if p = [] then []
      else
        let rooted = is_absolute p;
            parts = split_at CHR ''/'' p;
            stack = fold (normal_step rooted) parts [];
            directory = (last parts = [] \<or> last parts = dot \<or> last parts = dot_dot) \<and>
                        stack \<noteq> [] \<and> hd stack \<noteq> dot_dot;
            body = join_with ''/'' (rev stack) @ (if directory then ''/'' else [])
        in if rooted then CHR ''/'' # body else if body = [] then dot else body)"

text \<open>The elements of a path after its root; a trailing separator is an empty element.\<close>

definition path_names :: "string \<Rightarrow> string list" where
  "path_names p = components p @ (if components p \<noteq> [] \<and> filename p = [] then [[]] else [])"

text \<open>\<open>lexically_relative\<close>: up from what is left of the base, then down to what is left of the path.\<close>

fun drop_common :: "'a list \<Rightarrow> 'a list \<Rightarrow> 'a list \<times> 'a list" where
  "drop_common (x # xs) (y # ys) = (if x = y then drop_common xs ys else (x # xs, y # ys))"
| "drop_common xs ys = (xs, ys)"

definition name_levels :: "string list \<Rightarrow> int" where
  "name_levels names = sum_list (map (\<lambda>c. if c = dot_dot then -1 else if c = [] \<or> c = dot then 0 else 1) names)"

definition lexically_relative :: "string \<Rightarrow> string \<Rightarrow> string" where
  "lexically_relative p base =
     (if is_absolute p \<noteq> is_absolute base then []
      else
        let (a, b) = drop_common (path_names p) (path_names base) in
        if a = [] \<and> b = [] then dot
        else if name_levels b = 0 \<and> (a = [] \<or> hd a = []) then dot
        else if name_levels b < 0 then []
        else fold (\<lambda>c r. path_append r c) (replicate (nat (name_levels b)) dot_dot @ a) [])"

text \<open>Paths are ordered by their elements: relative before absolute, then name by name.\<close>

definition path_key :: "string \<Rightarrow> bool \<times> string list" where
  "path_key p = (is_absolute p, path_names p)"

section \<open>Facts\<close>

lemma split_at_nonempty [simp]: "split_at d s \<noteq> []"
  by (induction s) auto

lemma split_at_code [code]:
  "split_at d [] = [[]]"
  "split_at d (c # cs) =
     (case split_at d cs of [] \<Rightarrow> [] | x # xs \<Rightarrow> if c = d then [] # x # xs else (c # x) # xs)"
  by (simp, cases "split_at d cs") auto

lemma split_at_no_sep: "c \<in> set (split_at d s) \<Longrightarrow> d \<notin> set c"
proof (induction s arbitrary: c)
  case (Cons x s)
  have "hd (split_at d s) \<in> set (split_at d s)" by simp
  moreover have "set (tl (split_at d s)) \<subseteq> set (split_at d s)" by (cases "split_at d s") auto
  ultimately show ?case using Cons by (auto split: if_splits)
qed simp

lemma join_split [simp]: "join_with [d] (split_at d s) = s"
proof (induction s)
  case (Cons c s)
  obtain x xs where x: "split_at d s = x # xs" by (cases "split_at d s") simp_all
  with Cons show ?case by (cases xs) auto
qed simp

lemma split_append:
  "d \<notin> set x \<Longrightarrow> split_at d (x @ s) = (x @ hd (split_at d s)) # tl (split_at d s)"
  by (induction x) auto

lemma split_join:
  "xs \<noteq> [] \<Longrightarrow> \<forall>x \<in> set xs. d \<notin> set x \<Longrightarrow> split_at d (join_with [d] xs) = xs"
proof (induction "[d]" xs rule: join_with.induct)
  case (2 x)
  then show ?case using split_append [of d x "[]"] by simp
next
  case (3 x y ys)
  then show ?case by (simp add: split_append)
qed simp

lemma filename_no_sep: "CHR ''/'' \<notin> set (filename p)"
  unfolding filename_def by (rule split_at_no_sep [of _ _ p]) simp

text \<open>The stack after the steps: dot-dots only at the bottom, and none under a root.\<close>

definition normal_stack :: "bool \<Rightarrow> string list \<Rightarrow> bool" where
  "normal_stack rooted stack \<longleftrightarrow>
     (\<forall>c \<in> set stack. c \<noteq> [] \<and> c \<noteq> dot \<and> CHR ''/'' \<notin> set c) \<and>
     (rooted \<longrightarrow> dot_dot \<notin> set stack) \<and>
     sorted_wrt (\<lambda>above below. above = dot_dot \<longrightarrow> below = dot_dot) stack"

lemma normal_step_stack:
  assumes "normal_stack rooted stack" "CHR ''/'' \<notin> set c"
  shows "normal_stack rooted (normal_step rooted c stack)"
  using assms by (cases stack) (auto simp: normal_stack_def)

lemma normal_fold_stack:
  "normal_stack rooted stack \<Longrightarrow> \<forall>c \<in> set cs. CHR ''/'' \<notin> set c \<Longrightarrow>
     normal_stack rooted (fold (normal_step rooted) cs stack)"
  by (induction cs arbitrary: stack) (auto intro: normal_step_stack simp del: normal_step.simps)

text \<open>A normal stack is rebuilt unchanged from its own components.\<close>

lemma normal_stack_suffix: "normal_stack rooted (a @ b) \<Longrightarrow> normal_stack rooted b"
  by (auto simp: normal_stack_def sorted_wrt_append)

declare normal_step.simps [simp del]

lemma normal_step_fixed:
  assumes "normal_stack rooted (c # stack)"
  shows "normal_step rooted c stack = c # stack"
proof -
  have c: "c \<noteq> []" "c \<noteq> dot" using assms by (simp_all add: normal_stack_def)
  show ?thesis
  proof (cases "c = dot_dot")
    case True
    have "sorted_wrt (\<lambda>above below. above = dot_dot \<longrightarrow> below = dot_dot) (c # stack)"
      using assms unfolding normal_stack_def by blast
    with True have "\<forall>b \<in> set stack. b = dot_dot" unfolding sorted_wrt.simps by blast
    moreover have "\<not> rooted" using True assms unfolding normal_stack_def by auto
    ultimately show ?thesis using True c by (cases stack) (simp_all add: normal_step.simps)
  next
    case False
    with c show ?thesis by (simp add: normal_step.simps)
  qed
qed

lemma normal_step_empty [simp]: "normal_step rooted [] stack = stack"
  by (simp add: normal_step.simps)

lemma normal_fold_fixed:
  "normal_stack rooted (rev cs @ stack) \<Longrightarrow> fold (normal_step rooted) cs stack = rev cs @ stack"
proof (induction cs arbitrary: stack)
  case (Cons c cs)
  then have "normal_stack rooted (rev cs @ c # stack)" by simp
  with Cons.IH [OF this] normal_step_fixed [OF normal_stack_suffix [OF this]] show ?case by simp
qed simp

definition normal_body :: "string list \<Rightarrow> bool \<Rightarrow> string" where
  "normal_body stack directory = join_with ''/'' (rev stack) @ (if directory then ''/'' else [])"

lemma normal_body_parts:
  assumes "normal_stack rooted stack" "stack \<noteq> []"
  shows "split_at CHR ''/'' (normal_body stack d) = rev stack @ (if d then [[]] else [])"
    and "fold (normal_step rooted) (rev stack @ (if d then [[]] else [])) [] = stack"
proof -
  have sep: "\<forall>x \<in> set (rev stack @ (if d then [[]] else [])). CHR ''/'' \<notin> set x"
    using assms(1) by (auto simp: normal_stack_def)
  have "normal_body stack d = join_with ''/'' (rev stack @ (if d then [[]] else []))"
  proof -
    have "join_with ''/'' xs @ ''/'' = join_with ''/'' (xs @ [[]])" if "xs \<noteq> []" for xs
      using that by (induction "''/''" xs rule: join_with.induct) auto
    then show ?thesis using assms(2) by (simp add: normal_body_def)
  qed
  then show "split_at CHR ''/'' (normal_body stack d) = rev stack @ (if d then [[]] else [])"
    using split_join [OF _ sep] assms(2) by simp
  show "fold (normal_step rooted) (rev stack @ (if d then [[]] else [])) [] = stack"
    using normal_fold_fixed [of rooted "rev stack" "[]"] assms(1) by simp
qed

lemma normal_body_relative:
  assumes "normal_stack False stack" "stack \<noteq> []"
  shows "normal_body stack d \<noteq> []" "\<not> is_absolute (normal_body stack d)"
proof -
  obtain c cs where c: "rev stack = c # cs" using assms(2) by (cases "rev stack") simp_all
  then have "c \<in> set stack" by (metis list.set_intros(1) set_rev)
  then have "c \<noteq> []" "CHR ''/'' \<notin> set c" using assms(1) by (auto simp: normal_stack_def)
  then obtain x xs where "c = x # xs" "x \<noteq> CHR ''/''" by (cases c) auto
  then obtain ys where "normal_body stack d = x # ys"
    by (cases cs) (auto simp: normal_body_def c)
  then show "normal_body stack d \<noteq> []" "\<not> is_absolute (normal_body stack d)"
    using \<open>x \<noteq> CHR ''/''\<close> by (simp_all add: is_absolute_def)
qed

definition is_directory_form :: "string list \<Rightarrow> string list \<Rightarrow> bool" where
  "is_directory_form parts stack \<longleftrightarrow>
     (last parts = [] \<or> last parts = dot \<or> last parts = dot_dot) \<and> stack \<noteq> [] \<and> hd stack \<noteq> dot_dot"

lemma lexically_normal_unfold:
  "p \<noteq> [] \<Longrightarrow> lexically_normal p =
     (let stack = fold (normal_step (is_absolute p)) (split_at CHR ''/'' p) [];
          body = normal_body stack (is_directory_form (split_at CHR ''/'' p) stack)
      in if is_absolute p then CHR ''/'' # body else if body = [] then dot else body)"
  by (simp add: lexically_normal_def normal_body_def is_directory_form_def Let_def)

lemma directory_form_again:
  assumes "normal_stack rooted stack" "stack \<noteq> []" "d \<longrightarrow> hd stack \<noteq> dot_dot"
  shows "is_directory_form (ps @ rev stack @ (if d then [[]] else [])) stack = d"
proof -
  obtain c cs where c: "stack = c # cs" using assms(2) by (cases stack) simp_all
  then have "c \<noteq> []" "c \<noteq> dot" using assms(1) by (auto simp: normal_stack_def)
  then show ?thesis using assms(3) by (auto simp: is_directory_form_def c)
qed

lemma lexically_normal_cases:
  assumes "p \<noteq> []"
  obtains stack d where "normal_stack (is_absolute p) stack"
    "d \<longrightarrow> stack \<noteq> [] \<and> hd stack \<noteq> dot_dot"
    "lexically_normal p =
       (if is_absolute p then CHR ''/'' # normal_body stack d
        else if stack = [] then dot else normal_body stack d)"
proof -
  let ?s = "fold (normal_step (is_absolute p)) (split_at CHR ''/'' p) []"
  let ?d = "is_directory_form (split_at CHR ''/'' p) ?s"
  have "normal_stack (is_absolute p) []" by (simp add: normal_stack_def)
  from normal_fold_stack [OF this] have ns: "normal_stack (is_absolute p) ?s"
    using split_at_no_sep by simp
  have "\<not> is_absolute p \<Longrightarrow> normal_body ?s ?d = [] \<longleftrightarrow> ?s = []"
  proof (cases "?s = []")
    case True
    then show ?thesis unfolding is_directory_form_def normal_body_def by simp
  next
    case False
    moreover assume "\<not> is_absolute p"
    ultimately show ?thesis using normal_body_relative(1) [of ?s ?d] ns by simp
  qed
  then show ?thesis
    using that [OF ns, of ?d] assms
    by (simp add: lexically_normal_unfold Let_def is_directory_form_def [of _ ?s])
qed

lemma lexically_normal_absolute: "is_absolute p \<Longrightarrow> is_absolute (lexically_normal p)"
  by (auto simp: lexically_normal_def is_absolute_def Let_def)

lemma normal_again: "lexically_normal (lexically_normal p) = lexically_normal p"
proof (cases "p = []")
  case True
  then show ?thesis by (simp add: lexically_normal_def)
next
  case False
  then obtain stack d where ns: "normal_stack (is_absolute p) stack"
    and d: "d \<longrightarrow> stack \<noteq> [] \<and> hd stack \<noteq> dot_dot"
    and n: "lexically_normal p =
       (if is_absolute p then CHR ''/'' # normal_body stack d
        else if stack = [] then dot else normal_body stack d)"
    by (rule lexically_normal_cases)
  show ?thesis
  proof (cases "stack = []")
    case True
    have "lexically_normal dot = dot" "lexically_normal ''/'' = ''/''" by code_simp+
    with True d n show ?thesis by (simp add: normal_body_def)
  next
    case ne: False
    note parts = normal_body_parts [OF ns ne, of d]
    show ?thesis
    proof (cases "is_absolute p")
      case True
      with n have q: "lexically_normal p = CHR ''/'' # normal_body stack d" by simp
      have sp: "split_at CHR ''/'' (lexically_normal p) = [[]] @ rev stack @ (if d then [[]] else [])"
        using parts(1) by (simp add: q)
      have abs: "is_absolute (lexically_normal p)" by (simp add: q is_absolute_def)
      have "fold (normal_step True) ([[]] @ rev stack @ (if d then [[]] else [])) [] = stack"
        using parts(2) True by simp
      then show ?thesis
        using directory_form_again [OF ns ne, of d "[[]]"] d q abs
        by (subst lexically_normal_unfold) (simp_all add: parts(1) Let_def del: fold_append)
    next
      case False
      with n ne have q: "lexically_normal p = normal_body stack d" by simp
      have rel: "normal_body stack d \<noteq> []" "\<not> is_absolute (normal_body stack d)"
        using normal_body_relative [of stack d] ns ne False by simp_all
      have "fold (normal_step False) (rev stack @ (if d then [[]] else [])) [] = stack"
        using parts(2) False by simp
      then show ?thesis
        using directory_form_again [OF ns ne, of d "[]"] d q rel parts(1)
        by (subst lexically_normal_unfold) (simp_all add: Let_def del: fold_append)
    qed
  qed
qed

text \<open>Normalizing twice is normalizing once, and no dots are left in an absolute path.\<close>

lemma lexically_normal_idempotent:
  "lexically_normal (lexically_normal p) = lexically_normal p \<and>
   (is_absolute (lexically_normal p) \<longleftrightarrow> is_absolute p) \<and>
   (is_absolute p \<longrightarrow> dot \<notin> set (components (lexically_normal p)) \<and>
      dot_dot \<notin> set (components (lexically_normal p)))"
proof -
  have rel: "is_absolute (lexically_normal p) \<longleftrightarrow> is_absolute p" if ne: "p \<noteq> []"
  proof -
    from ne obtain stack d where ns: "normal_stack (is_absolute p) stack"
      and n: "lexically_normal p =
         (if is_absolute p then CHR ''/'' # normal_body stack d
          else if stack = [] then dot else normal_body stack d)" by (rule lexically_normal_cases)
    have "\<not> is_absolute dot" by code_simp
    then show ?thesis
      using n ns normal_body_relative(2) [of stack d] by (auto simp: is_absolute_def)
  qed
  have "dot \<notin> set (components (lexically_normal p)) \<and> dot_dot \<notin> set (components (lexically_normal p))"
    if abs: "is_absolute p"
  proof -
    from abs have ne: "p \<noteq> []" by (auto simp: is_absolute_def)
    obtain stack d where ns: "normal_stack True stack" and d: "d \<longrightarrow> stack \<noteq> [] \<and> hd stack \<noteq> dot_dot"
      and n: "lexically_normal p = CHR ''/'' # normal_body stack d"
      using lexically_normal_cases [OF ne] abs by auto
    have "set (components (lexically_normal p)) \<subseteq> set stack"
    proof (cases "stack = []")
      case True
      then show ?thesis using d by (auto simp: n components_def normal_body_def)
    next
      case False
      show ?thesis using normal_body_parts(1) [OF ns False, of d]
        by (auto simp: n components_def split: if_splits)
    qed
    then show ?thesis using ns by (auto simp: normal_stack_def)
  qed
  moreover have "lexically_normal [] = []" "\<not> is_absolute []"
    by (simp_all add: lexically_normal_def is_absolute_def)
  ultimately show ?thesis using rel normal_again by (cases "p = []") auto
qed

end
