(* ===== verification/Compile_Database.thy ===== *)
theory Compile_Database
  imports Paths Json
begin

text \<open>
  \<open>src/compile_database.cpp\<close>: splitting a shell command, expanding response files, deciding
  which word is the compiler, dropping the flags that write files, collecting the files a
  command reads, and loading \<open>compile_commands.json\<close>. The file system is a parameter.
\<close>

record compile_command =
  cc_directory :: string
  cc_file :: string
  cc_arguments :: "string list"
  cc_output :: string
  cc_inputs :: "string list"

definition starts_with :: "string \<Rightarrow> string \<Rightarrow> bool" where
  "starts_with p s \<longleftrightarrow> take (length p) s = p"

definition ends_with :: "string \<Rightarrow> string \<Rightarrow> bool" where
  "ends_with p s \<longleftrightarrow> take (length p) (rev s) = rev p"

section \<open>Splitting a command line\<close>

datatype quote = No_Quote | Single_Quote | Double_Quote

record shell_state =
  sh_quote :: quote
  sh_escaped :: bool
  sh_started :: bool
  sh_token :: string
  sh_result :: "string list"

abbreviation single_quote :: char where "single_quote \<equiv> CHR 0x27"
abbreviation double_quote :: char where "double_quote \<equiv> CHR 0x22"
abbreviation backslash :: char where "backslash \<equiv> CHR 0x5C"

definition shell_start :: shell_state where
  "shell_start = \<lparr>sh_quote = No_Quote, sh_escaped = False, sh_started = False, sh_token = [],
     sh_result = []\<rparr>"

definition flush :: "shell_state \<Rightarrow> shell_state" where
  "flush s =
     (if sh_started s
      then s\<lparr>sh_result := sh_result s @ [sh_token s], sh_token := [], sh_started := False\<rparr>
      else s)"

definition push_char :: "char \<Rightarrow> shell_state \<Rightarrow> shell_state" where
  "push_char c s = s\<lparr>sh_token := sh_token s @ [c], sh_started := True\<rparr>"

definition shell_step :: "char \<Rightarrow> shell_state \<Rightarrow> shell_state" where
  "shell_step c s =
     (if sh_escaped s then (push_char c s)\<lparr>sh_escaped := False\<rparr>
      else case sh_quote s of
        Single_Quote \<Rightarrow>
          if c = single_quote then s\<lparr>sh_quote := No_Quote, sh_started := True\<rparr>
          else push_char c s
      | Double_Quote \<Rightarrow>
          if c = double_quote then s\<lparr>sh_quote := No_Quote, sh_started := True\<rparr>
          else if c = backslash then s\<lparr>sh_escaped := True, sh_started := True\<rparr>
          else push_char c s
      | No_Quote \<Rightarrow>
          if c = backslash then s\<lparr>sh_escaped := True, sh_started := True\<rparr>
          else if c = single_quote then s\<lparr>sh_quote := Single_Quote, sh_started := True\<rparr>
          else if c = double_quote then s\<lparr>sh_quote := Double_Quote, sh_started := True\<rparr>
          else if is_space c then flush s
          else push_char c s)"

definition split_shell_command :: "string \<Rightarrow> string list result" where
  "split_shell_command command =
     (let s = fold shell_step command shell_start in
      if sh_escaped s \<or> sh_quote s \<noteq> No_Quote then
        Inl (Runtime_Error ''unterminated quote or escape in compilation command'')
      else Inr (sh_result (flush s)))"

section \<open>Compilers and launchers\<close>

definition is_launcher :: "string \<Rightarrow> bool" where
  "is_launcher argument \<longleftrightarrow>
     filename argument \<in> {''ccache'', ''sccache'', ''distcc'', ''icecc''}"

definition version_suffix :: "string \<Rightarrow> bool" where
  "version_suffix suffix \<longleftrightarrow> suffix \<noteq> [] \<and> list_all (\<lambda>c. is_digit c \<or> c = CHR ''.'') suffix"

definition drop_version :: "string \<Rightarrow> string" where
  "drop_version name =
     (let suffix = rev (takeWhile (\<lambda>c. c \<noteq> CHR ''-'') (rev name)) in
      if length suffix < length name \<and> version_suffix suffix
      then take (length name - length suffix - 1) name else name)"

definition is_compiler :: "string \<Rightarrow> bool" where
  "is_compiler argument \<longleftrightarrow>
     (let name = drop_version (filename argument) in
      list_ex (\<lambda>driver. name = driver \<or> ends_with (CHR ''-'' # driver) name)
        [''clang++'', ''clang'', ''g++'', ''gcc'', ''c++'', ''cc''])"

definition normalized_path :: "filesystem \<Rightarrow> string \<Rightarrow> string \<Rightarrow> string" where
  "normalized_path fs v directory =
     lexically_normal (absolute fs (if is_absolute v then v else path_append directory v))"

section \<open>Response files\<close>

definition max_response_depth :: nat where "max_response_depth = 16"
definition max_response_bytes :: nat where "max_response_bytes = 16 * 1024 * 1024"

record expansion =
  ex_bytes :: nat
  ex_active :: "string list"
  ex_inputs :: "string list"
  ex_output :: "string list"

definition is_response :: "string \<Rightarrow> bool" where
  "is_response argument \<longleftrightarrow> take 1 argument = [CHR 0x40] \<and> length argument \<noteq> 1"

definition response_budget :: "expansion \<Rightarrow> nat" where
  "response_budget st = max_response_bytes - min (ex_bytes st) max_response_bytes"

text \<open>Reading one response file: the words in it and the state with its bytes counted.\<close>

definition read_response ::
    "filesystem \<Rightarrow> string \<Rightarrow> expansion \<Rightarrow> (string list \<times> expansion) result" where
  "read_response fs path st =
     (if fs_read fs path = Cannot_Open then
        Inl (Runtime_Error (''cannot open response file: '' @ path))
      else case fs_size fs path of
        None \<Rightarrow> Inl (Runtime_Error (''cannot inspect response file: '' @ path))
      | Some file_bytes \<Rightarrow>
          if response_budget st < file_bytes then
            Inl (Runtime_Error ''response-file contents exceed 16 MiB'')
          else case fs_read fs path of
            Contents text \<Rightarrow>
              if response_budget st < length text then
                Inl (Runtime_Error ''response-file contents exceed 16 MiB'')
              else
                (case split_shell_command text of
                   Inl e \<Rightarrow>
                     Inl (Runtime_Error (''invalid response file '' @ path @ '': '' @ exn_what e))
                 | Inr arguments \<Rightarrow>
                     Inr (arguments, st\<lparr>ex_bytes := ex_bytes st + length text,
                       ex_inputs := ex_inputs st @ [path]\<rparr>))
          | _ \<Rightarrow> Inl (Runtime_Error (''cannot read response file: '' @ path)))"

text \<open>
  The first number is what is left of the nesting limit, \<open>max_response_depth - depth\<close>.
\<close>

fun expand_response_argument ::
    "filesystem \<Rightarrow> string \<Rightarrow> nat \<Rightarrow> string \<Rightarrow> expansion \<Rightarrow> expansion result" where
  "expand_response_argument fs directory 0 argument st =
     (if \<not> is_response argument then Inr (st\<lparr>ex_output := ex_output st @ [argument]\<rparr>)
      else Inl (Runtime_Error ''response-file nesting exceeds 16 levels''))"
| "expand_response_argument fs directory (Suc levels) argument st =
     (if \<not> is_response argument then Inr (st\<lparr>ex_output := ex_output st @ [argument]\<rparr>)
      else
        let path = normalized_path fs (drop 1 argument) directory in
        if path \<in> set (ex_active st) then
          Inl (Runtime_Error (''cyclic response file: '' @ path))
        else
          rbind (read_response fs path (st\<lparr>ex_active := path # ex_active st\<rparr>)) (\<lambda>(arguments, st1).
          rbind (fold_result (\<lambda>nested s. expand_response_argument fs directory levels nested s)
                   arguments st1) (\<lambda>st2.
          Inr (st2\<lparr>ex_active := remove1 path (ex_active st2)\<rparr>))))"

section \<open>Files a command reads\<close>

definition joined_value :: "string \<Rightarrow> string \<Rightarrow> string option" where
  "joined_value argument option =
     (if starts_with (option @ ''='') argument then Some (drop (length option + 1) argument)
      else None)"

definition strip_module_name :: "string \<Rightarrow> string" where
  "strip_module_name v =
     (let name = takeWhile (\<lambda>c. c \<noteq> CHR ''='') v in
      if length name < length v \<and> name \<noteq> [] \<and> CHR ''/'' \<notin> set name \<and> backslash \<notin> set name
      then drop (length name + 1) v else v)"

definition add_command_input ::
    "filesystem \<Rightarrow> string \<Rightarrow> string \<Rightarrow> compile_command \<Rightarrow> string list \<Rightarrow> string list result" where
  "add_command_input fs v0 option command inputs =
     (let v = (if option = ''-fmodule-file'' then strip_module_name v0 else v0) in
      if v = [] then Inl (Runtime_Error (option @ '' requires a non-empty path''))
      else
        let path = normalized_path fs v (cc_directory command) in
        if \<not> fs_regular fs path then
          Inl (Runtime_Error (''command input for '' @ option @
            '' is not a readable regular file: '' @ path))
        else if fs_read fs path = Cannot_Open then
          Inl (Runtime_Error (''cannot read command input for '' @ option @ '': '' @ path))
        else Inr (inputs @ [path]))"

text \<open>The first listed option the argument is, with its joined value if it has one.\<close>

fun matching_option :: "string \<Rightarrow> string list \<Rightarrow> (string \<times> string option) option" where
  "matching_option argument [] = None"
| "matching_option argument (option # options) =
     (if argument = option then Some (option, None)
      else case joined_value argument option of
        Some v \<Rightarrow> Some (option, Some v)
      | None \<Rightarrow> matching_option argument options)"

definition input_options :: "string list" where
  "input_options = [''-include-pch'', ''-fmodule-file'', ''-fmodule-map-file'']"

fun collect_command_inputs ::
    "filesystem \<Rightarrow> compile_command \<Rightarrow> string list \<Rightarrow> string list \<Rightarrow> string list result" where
  "collect_command_inputs fs command [] inputs = Inr inputs"
| "collect_command_inputs fs command (argument # rest) inputs =
     (case matching_option argument input_options of
        None \<Rightarrow> collect_command_inputs fs command rest inputs
      | Some (option, Some v) \<Rightarrow>
          rbind (add_command_input fs v option command inputs)
            (collect_command_inputs fs command rest)
      | Some (option, None) \<Rightarrow>
          (case rest of
             [] \<Rightarrow> Inl (Runtime_Error (option @ '' requires a path''))
           | v # rest' \<Rightarrow>
               rbind (add_command_input fs v option command inputs)
                 (collect_command_inputs fs command rest')))"

section \<open>Normalizing a command\<close>

definition flags_with_value :: "string list" where
  "flags_with_value = [''-o'', ''--output'', ''-MF'', ''-MT'', ''-MQ'', ''-MJ'',
     ''--serialize-diagnostics'', ''-dependency-file'', ''-fmodule-output'']"

definition removed_flags :: "string list" where
  "removed_flags = [''-c'', ''-S'', ''-E'', ''-MD'', ''-MMD'', ''-MP'', ''-MG'', ''-MM'', ''-M'',
     ''-emit-llvm'']"

definition joined_output_options :: "string list" where
  "joined_output_options = [''--output='', ''-MF'', ''-MT'', ''-MQ'', ''-MJ'',
     ''--serialize-diagnostics='', ''-dependency-file='', ''-fmodule-output='']"

definition is_removed :: "string \<Rightarrow> bool" where
  "is_removed argument \<longleftrightarrow>
     argument \<in> set removed_flags \<or>
     list_ex (\<lambda>p. starts_with p argument \<and> length p < length argument) joined_output_options \<or>
     (starts_with ''-o'' argument \<and> 2 < length argument)"

definition is_source_argument :: "filesystem \<Rightarrow> string \<Rightarrow> compile_command \<Rightarrow> bool" where
  "is_source_argument fs argument command \<longleftrightarrow>
     argument \<noteq> [] \<and> hd argument \<noteq> CHR ''-'' \<and>
     path_key (normalized_path fs argument (cc_directory command)) = path_key (cc_file command)"

definition writes_by_frontend :: "string \<Rightarrow> bool" where
  "writes_by_frontend argument \<longleftrightarrow>
     argument = ''-dependency-file'' \<or> argument = ''-serialize-diagnostic-file''"

fun filter_arguments ::
    "filesystem \<Rightarrow> compile_command \<Rightarrow> string list \<Rightarrow> string list result" where
  "filter_arguments fs command [] = Inr []"
| "filter_arguments fs command (argument # rest) =
     (if argument \<in> set flags_with_value then
        (if rest = [] then
           Inl (Runtime_Error (''compilation flag '' @ argument @ '' requires a value''))
         else filter_arguments fs command (drop 1 rest))
      else if is_removed argument then filter_arguments fs command rest
      else if argument = ''-Xclang'' \<and> rest \<noteq> [] \<and> writes_by_frontend (hd rest) then
        (if 3 \<le> length rest \<and> rest ! 1 = ''-Xclang''
         then filter_arguments fs command (drop 3 rest)
         else filter_arguments fs command (drop 1 rest))
      else if starts_with ''-Wp,-MD,'' argument \<or> starts_with ''-Wp,-MMD,'' argument then
        filter_arguments fs command rest
      else if is_source_argument fs argument command then filter_arguments fs command rest
      else rbind (filter_arguments fs command rest) (\<lambda>kept. Inr (argument # kept)))"

definition resolve_paths :: "filesystem \<Rightarrow> compile_command \<Rightarrow> compile_command" where
  "resolve_paths fs command =
     (let directory = lexically_normal (absolute fs (cc_directory command));
          under = (\<lambda>p. lexically_normal
                     (absolute fs (if is_absolute p then p else path_append directory p)))
      in command\<lparr>cc_directory := directory, cc_file := under (cc_file command),
           cc_output := (if cc_output command = [] then [] else under (cc_output command))\<rparr>)"

definition normalize_compile_command ::
    "filesystem \<Rightarrow> compile_command \<Rightarrow> compile_command result" where
  "normalize_compile_command fs command =
     (if cc_arguments command = [] then
        Inl (Runtime_Error (''empty compilation command for '' @ cc_file command))
      else
        let resolved = resolve_paths fs command;
            words = dropWhile is_launcher (cc_arguments resolved)
        in case words of
          [] \<Rightarrow> Inl (Runtime_Error (''unsupported compiler or launcher command '' @
                  [single_quote] @ hd (cc_arguments resolved) @ [single_quote] @ '' for '' @
                  cc_file resolved))
        | compiler # arguments \<Rightarrow>
            if \<not> is_compiler compiler then
              Inl (Runtime_Error (''unsupported compiler or launcher command '' @
                [single_quote] @ compiler @ [single_quote] @ '' for '' @ cc_file resolved))
            else
              rbind (fold_result (expand_response_argument fs (cc_directory resolved)
                       max_response_depth) arguments
                       \<lparr>ex_bytes = 0, ex_active = [], ex_inputs = [], ex_output = []\<rparr>) (\<lambda>expanded.
              rbind (filter_arguments fs resolved (ex_output expanded)) (\<lambda>kept.
              rbind (collect_command_inputs fs resolved (compiler # kept) (ex_inputs expanded))
                (\<lambda>inputs.
              Inr \<lparr>cc_directory = cc_directory resolved, cc_file = cc_file resolved,
                cc_arguments = (compiler # kept) @ [cc_file resolved],
                cc_output = cc_output resolved,
                cc_inputs = unique_by path_key (sort_key path_key inputs)\<rparr>))))"

section \<open>Loading a compilation database\<close>

definition argument_string :: "json \<Rightarrow> string result" where
  "argument_string v =
     (case v of JString s \<Rightarrow> Inr s
      | _ \<Rightarrow> Inl (Runtime_Error ''compilation database argument must be a string''))"

definition entry_arguments :: "json \<Rightarrow> string list result" where
  "entry_arguments item =
     (case json_find ''arguments'' item of
        Some (JArray arguments) \<Rightarrow> map_result argument_string arguments
      | Some _ \<Rightarrow> Inl (Runtime_Error
          (''compilation database '' @ [single_quote] @ ''arguments'' @ [single_quote] @
           '' must be an array''))
      | None \<Rightarrow>
          (case json_find ''command'' item of
             Some (JString command) \<Rightarrow> split_shell_command command
           | _ \<Rightarrow> Inl (Runtime_Error
               (''compilation database entry needs '' @ [single_quote] @ ''arguments'' @
                [single_quote] @ '' or '' @ [single_quote] @ ''command'' @ [single_quote]))))"

definition load_entry :: "filesystem \<Rightarrow> string \<Rightarrow> json \<Rightarrow> compile_command result" where
  "load_entry fs database_directory item =
     (if \<not> is_object item then
        Inl (Runtime_Error ''each compilation database entry must be an object'')
      else
        let directory0 = string_or ''directory'' [] item; file0 = string_or ''file'' [] item in
        if directory0 = [] \<or> file0 = [] then
          Inl (Runtime_Error ''compilation database entry is missing directory or file'')
        else
          let directory = fs_canonical fs (if is_absolute directory0 then directory0
                            else path_append database_directory directory0);
              file = fs_canonical fs (if is_absolute file0 then file0
                       else path_append directory file0);
              output0 = string_or ''output'' [] item;
              output = (if output0 = [] then []
                        else lexically_normal (absolute fs
                          (if is_absolute output0 then output0
                           else path_append directory output0)))
          in rbind (entry_arguments item) (\<lambda>arguments.
               if arguments = [] then
                 Inl (Runtime_Error (''empty compilation command for '' @ file))
               else Inr \<lparr>cc_directory = directory, cc_file = file, cc_arguments = arguments,
                      cc_output = output, cc_inputs = []\<rparr>))"

definition load_compilation_database :: "filesystem \<Rightarrow> string \<Rightarrow> compile_command list result" where
  "load_compilation_database fs path =
     (case fs_read fs path of
        Contents text \<Rightarrow>
          (case parse text of
             Inl e \<Rightarrow> Inl (Runtime_Error (parse_error_what e))
           | Inr (JArray items) \<Rightarrow>
               map_result (load_entry fs (parent_path (absolute fs path))) items
           | Inr _ \<Rightarrow> Inl (Runtime_Error ''compilation database must contain a JSON array''))
      | _ \<Rightarrow> Inl (Runtime_Error (''cannot open compilation database: '' @ path)))"

end
