(* ===== verification/Compile_Facts.thy ===== *)
theory Compile_Facts
  imports Compile_Database
begin

text \<open>What \<open>src/compile_database.cpp\<close> promises about words, response files and commands.\<close>

section \<open>Words\<close>

definition is_special :: "char \<Rightarrow> bool" where
  "is_special c \<longleftrightarrow> c = backslash \<or> c = single_quote \<or> c = double_quote \<or> is_space c"

text \<open>
  The quoting rules the splitter implements, as a relation between a text without separating
  blanks and the word it stands for.
\<close>

inductive double_quoted :: "string \<Rightarrow> string \<Rightarrow> bool" where
  double_empty: "double_quoted [] []"
| double_plain: "c \<noteq> double_quote \<Longrightarrow> c \<noteq> backslash \<Longrightarrow> double_quoted t w \<Longrightarrow>
    double_quoted (c # t) (c # w)"
| double_escaped: "double_quoted t w \<Longrightarrow> double_quoted (backslash # c # t) (c # w)"

inductive spells :: "string \<Rightarrow> string \<Rightarrow> bool" where
  spells_empty: "spells [] []"
| spells_plain: "\<not> is_special c \<Longrightarrow> spells t w \<Longrightarrow> spells (c # t) (c # w)"
| spells_escaped: "spells t w \<Longrightarrow> spells (backslash # c # t) (c # w)"
| spells_single: "single_quote \<notin> set body \<Longrightarrow> spells t w \<Longrightarrow>
    spells (single_quote # body @ single_quote # t) (body @ w)"
| spells_double: "double_quoted q body \<Longrightarrow> spells t w \<Longrightarrow>
    spells (double_quote # q @ double_quote # t) (body @ w)"

inductive_cases double_quoted_ConsE: "double_quoted (c # t) w"

definition in_word :: "quote \<Rightarrow> shell_state \<Rightarrow> bool" where
  "in_word q s \<longleftrightarrow> sh_quote s = q \<and> \<not> sh_escaped s"

definition emit :: "string \<Rightarrow> shell_state \<Rightarrow> shell_state" where
  "emit w s = s\<lparr>sh_token := sh_token s @ w, sh_started := True\<rparr>"

lemma emit_simps [simp]:
  "emit w (emit v s) = emit (v @ w) s" "in_word q (emit w s) = in_word q s" "sh_started (emit w s)"
  "sh_result (emit w s) = sh_result s" "sh_token (emit w s) = sh_token s @ w"
  by (simp_all add: emit_def in_word_def)

lemma emit_nothing: "sh_started s \<Longrightarrow> emit [] s = s"
  by (cases s) (simp add: emit_def)

lemma push_char_emit: "push_char c s = emit [c] s"
  by (simp add: push_char_def emit_def)

lemma shell_steps:
  "in_word No_Quote s \<Longrightarrow> \<not> is_special c \<Longrightarrow> shell_step c s = emit [c] s"
  "in_word No_Quote s \<Longrightarrow> shell_step c (shell_step backslash s) = emit [c] s"
  "in_word No_Quote s \<Longrightarrow>
     shell_step single_quote s = (emit [] s)\<lparr>sh_quote := Single_Quote\<rparr>"
  "in_word No_Quote s \<Longrightarrow>
     shell_step double_quote s = (emit [] s)\<lparr>sh_quote := Double_Quote\<rparr>"
  "in_word Single_Quote s \<Longrightarrow> c \<noteq> single_quote \<Longrightarrow> shell_step c s = emit [c] s"
  "in_word Single_Quote s \<Longrightarrow> shell_step single_quote s = (emit [] s)\<lparr>sh_quote := No_Quote\<rparr>"
  "in_word Double_Quote s \<Longrightarrow> c \<noteq> double_quote \<Longrightarrow> c \<noteq> backslash \<Longrightarrow> shell_step c s = emit [c] s"
  "in_word Double_Quote s \<Longrightarrow> shell_step c (shell_step backslash s) = emit [c] s"
  "in_word Double_Quote s \<Longrightarrow> shell_step double_quote s = (emit [] s)\<lparr>sh_quote := No_Quote\<rparr>"
  by (simp_all add: shell_step_def in_word_def push_char_def emit_def is_special_def)

lemma run_single:
  "single_quote \<notin> set body \<Longrightarrow> in_word Single_Quote s \<Longrightarrow> sh_started s \<Longrightarrow>
     fold shell_step body s = emit body s"
proof (induction body arbitrary: s)
  case (Cons c body)
  then have "shell_step c s = emit [c] s" by (intro shell_steps(5)) auto
  with Cons show ?case by simp
qed (simp add: emit_nothing)

lemma run_double:
  "double_quoted q body \<Longrightarrow> in_word Double_Quote s \<Longrightarrow> sh_started s \<Longrightarrow>
     fold shell_step q s = emit body s"
  by (induction arbitrary: s rule: double_quoted.induct) (simp_all add: shell_steps emit_nothing)

text \<open>A quoted section, entered and left, adds its body to the token.\<close>

lemma emit_requote:
  "in_word No_Quote s \<Longrightarrow>
     (emit [] (emit body ((emit [] s)\<lparr>sh_quote := q\<rparr>)))\<lparr>sh_quote := No_Quote\<rparr> = emit body s"
  by (cases s) (simp add: emit_def in_word_def)

lemma in_word_requote: "in_word No_Quote s \<Longrightarrow> in_word q ((emit w s)\<lparr>sh_quote := q\<rparr>)"
  by (simp add: in_word_def emit_def)

lemma run_quoted:
  assumes "in_word No_Quote s"
  shows "single_quote \<notin> set body \<Longrightarrow>
      fold shell_step (single_quote # body @ [single_quote]) s = emit body s"
    and "double_quoted q body \<Longrightarrow>
      fold shell_step (double_quote # q @ [double_quote]) s = emit body s"
proof -
  let ?s = "\<lambda>q. (emit [] s)\<lparr>sh_quote := q\<rparr>"
  have st: "sh_started (?s q)" for q by simp
  show "single_quote \<notin> set body \<Longrightarrow>
      fold shell_step (single_quote # body @ [single_quote]) s = emit body s"
    using run_single [OF _ in_word_requote [OF assms] st] emit_requote [OF assms]
      shell_steps(6) [of "emit body (?s Single_Quote)"] in_word_requote [OF assms]
    by (simp add: shell_steps(3) [OF assms])
  show "double_quoted q body \<Longrightarrow>
      fold shell_step (double_quote # q @ [double_quote]) s = emit body s"
    using run_double [OF _ in_word_requote [OF assms] st] emit_requote [OF assms]
      shell_steps(9) [of "emit body (?s Double_Quote)"] in_word_requote [OF assms]
    by (simp add: shell_steps(4) [OF assms])
qed

lemma run_word:
  "spells t w \<Longrightarrow> in_word No_Quote s \<Longrightarrow>
     fold shell_step t s = (if t = [] then s else emit w s) \<and> (t = [] \<longrightarrow> w = [])"
proof (induction arbitrary: s rule: spells.induct)
  case (spells_single body t w)
  have "fold shell_step (single_quote # body @ single_quote # t) s =
      fold shell_step t (fold shell_step (single_quote # body @ [single_quote]) s)" by simp
  then show ?case
    using run_quoted(1) [OF spells_single.prems spells_single.hyps(1)]
      spells_single.IH [of "emit body s"] spells_single.prems by (simp del: fold_append)
next
  case (spells_double q body t w)
  have "fold shell_step (double_quote # q @ double_quote # t) s =
      fold shell_step t (fold shell_step (double_quote # q @ [double_quote]) s)" by simp
  then show ?case
    using run_quoted(2) [OF spells_double.prems spells_double.hyps(1)]
      spells_double.IH [of "emit body s"] spells_double.prems by (simp del: fold_append)
qed (simp_all add: shell_steps)

lemma run_words:
  assumes "list_all2 spells ts ws" "[] \<notin> set ts" "ts \<noteq> []" "in_word No_Quote s" "sh_token s = []"
    "\<not> sh_started s"
  shows "in_word No_Quote (fold shell_step (join_with '' '' ts) s) \<and>
    sh_result (flush (fold shell_step (join_with '' '' ts) s)) = sh_result s @ ws"
  using assms
proof (induction "'' ''" ts arbitrary: s ws rule: join_with.induct)
  case (2 t)
  then obtain w where "ws = [w]" "spells t w" by (auto simp: list_all2_Cons1)
  then show ?case using 2 run_word [of t w s] by (auto simp: flush_def)
next
  case (3 t t' ts)
  from "3.prems"(1) obtain w ws' where w: "ws = w # ws'" "spells t w" "list_all2 spells (t' # ts) ws'"
    by (auto simp: list_all2_Cons1)
  let ?s2 = "s\<lparr>sh_result := sh_result s @ [w], sh_token := [], sh_started := False\<rparr>"
  have "fold shell_step t s = emit w s" using run_word [OF w(2) "3.prems"(4)] "3.prems" by auto
  moreover have "shell_step CHR '' '' (emit w s) = ?s2"
    using "3.prems"(4,5) by (simp add: shell_step_def in_word_def flush_def is_space_def emit_def)
  ultimately show ?case
    using "3.hyps" [OF w(3), of ?s2] "3.prems" w(1) by (simp add: in_word_def)
qed simp

text \<open>
  C21: The command splitter implements the quoting rules: whatever texts spell the words,
  plain, escaped, single or double quoted or a mixture, empty quoted words included, their
  concatenation with blanks splits into exactly those words.
\<close>
theorem split_shell_command_words:
  assumes "list_all2 spells ts ws" "[] \<notin> set ts"
  shows "split_shell_command (join_with '' '' ts) = Inr ws"
proof (cases "ts = []")
  case True
  with assms show ?thesis
    by (simp add: split_shell_command_def shell_start_def flush_def)
next
  case False
  have "in_word No_Quote shell_start" "sh_token shell_start = []" "\<not> sh_started shell_start"
    by (simp_all add: in_word_def shell_start_def)
  from run_words [OF assms False this] show ?thesis
    by (simp add: split_shell_command_def in_word_def shell_start_def Let_def)
qed

lemma split_shell_command_words_witness:
  "split_shell_command (join_with '' '' [''cc'', [single_quote, CHR ''a'', CHR '' '', single_quote]]) =
     Inr [''cc'', ''a '']"
proof (rule split_shell_command_words)
  have "spells ''cc'' ''cc''"
    by (intro spells.intros) (simp_all add: is_special_def is_space_def)
  moreover have "spells (single_quote # ''a '' @ single_quote # []) (''a '' @ [])"
    by (intro spells.intros) simp_all
  ultimately show "list_all2 spells [''cc'', [single_quote, CHR ''a'', CHR '' '', single_quote]] [''cc'', ''a '']"
    by simp
qed simp

section \<open>Response files\<close>

definition expansion_ok :: "string list \<Rightarrow> expansion \<Rightarrow> bool" where
  "expansion_ok active st \<longleftrightarrow> ex_bytes st \<le> max_response_bytes \<and> ex_active st = active \<and>
     list_all (\<lambda>a. \<not> is_response a) (ex_output st)"

lemma read_response_ok:
  assumes "read_response fs path st = Inr (arguments, st')" "expansion_ok active st"
  shows "expansion_ok active st'"
  using assms
  by (auto simp: read_response_def expansion_ok_def response_budget_def
      split: if_splits option.splits read_result.splits sum.splits)

lemma expand_ok:
  "expand_response_argument fs directory levels argument st = Inr st' \<Longrightarrow>
     expansion_ok active st \<Longrightarrow> expansion_ok active st'"
proof (induction fs directory levels argument st arbitrary: active st'
    rule: expand_response_argument.induct)
  case (1 fs directory argument st)
  then show ?case by (auto simp: expansion_ok_def split: if_splits)
next
  case (2 fs directory levels argument st)
  show ?case
  proof (cases "is_response argument")
    case False
    with 2 show ?thesis by (auto simp: expansion_ok_def)
  next
    case True
    let ?path = "normalized_path fs (drop 1 argument) directory"
    from True "2.prems"(1) obtain arguments st1 st2 where
      cyc: "?path \<notin> set (ex_active st)" and
      r: "read_response fs ?path (st\<lparr>ex_active := ?path # ex_active st\<rparr>) = Inr (arguments, st1)"
      "fold_result (\<lambda>nested s. expand_response_argument fs directory levels nested s) arguments st1 = Inr st2"
      "st' = st2\<lparr>ex_active := remove1 ?path (ex_active st2)\<rparr>"
      by (auto simp: Let_def rbind_eq_Inr split: if_splits)
    have "expansion_ok (?path # active) (st\<lparr>ex_active := ?path # ex_active st\<rparr>)"
      using "2.prems"(2) by (simp add: expansion_ok_def)
    from read_response_ok [OF r(1) this] have ok1: "expansion_ok (?path # active) st1" .
    have "expansion_ok (?path # active) st2"
      using r(2)
    proof (rule fold_result_invariant)
      show "expansion_ok (?path # active) st1" by (rule ok1)
      fix a s t
      assume a: "a \<in> set arguments" and s: "expansion_ok (?path # active) s"
        and t: "expand_response_argument fs directory levels a s = Inr t"
      show "expansion_ok (?path # active) t"
        using "2.IH" True cyc r t s by blast
    qed
    then show ?thesis using r(3) by (simp add: expansion_ok_def)
  qed
qed

definition expand_arguments ::
    "filesystem \<Rightarrow> string \<Rightarrow> string list \<Rightarrow> expansion result" where
  "expand_arguments fs directory arguments =
     fold_result (expand_response_argument fs directory max_response_depth) arguments
       \<lparr>ex_bytes = 0, ex_active = [], ex_inputs = [], ex_output = []\<rparr>"

lemma expand_arguments_ok:
  "expand_arguments fs directory arguments = Inr st \<Longrightarrow> expansion_ok [] st"
  unfolding expand_arguments_def
  by (erule fold_result_invariant) (auto simp: expansion_ok_def [of _ "\<lparr>ex_bytes = _, ex_active = _, ex_inputs = _, ex_output = _\<rparr>"]
      intro: expand_ok)


definition sample_files :: filesystem where
  "sample_files = \<lparr>fs_cwd = ''/w'',
     fs_read = (\<lambda>p. if p = ''/w/args'' then Contents ''-O2 -c x.cpp'' else Cannot_Open),
     fs_size = (\<lambda>p. if p = ''/w/args'' then Some 12 else None),
     fs_regular = (\<lambda>p. p = ''/w/args''), fs_canonical = (\<lambda>p. p)\<rparr>"

lemma expand_plain:
  "\<not> is_response a \<Longrightarrow> expand_response_argument fs directory n a st =
     Inr (st\<lparr>ex_output := ex_output st @ [a]\<rparr>)"
  by (cases n) simp_all

lemma expand_reference:
  assumes "is_response a" "0 < n"
  shows "expand_response_argument fs directory n a st =
     (let path = normalized_path fs (drop 1 a) directory in
      if path \<in> set (ex_active st) then Inl (Runtime_Error (''cyclic response file: '' @ path))
      else rbind (read_response fs path (st\<lparr>ex_active := path # ex_active st\<rparr>)) (\<lambda>(arguments, st1).
        rbind (fold_result (\<lambda>nested s. expand_response_argument fs directory (n - 1) nested s)
          arguments st1) (\<lambda>st2. Inr (st2\<lparr>ex_active := remove1 path (ex_active st2)\<rparr>))))"
proof -
  obtain m where n: "n = Suc m" using assms(2) by (cases n) simp_all
  show ?thesis unfolding n diff_Suc_1 using assms(1) by simp
qed

lemma sample_expansion:
  "expand_arguments sample_files ''/w'' [''-g'', CHR 0x40 # ''args''] =
     Inr \<lparr>ex_bytes = 12, ex_active = [], ex_inputs = [''/w/args''],
       ex_output = [''-g'', ''-O2'', ''-c'', ''x.cpp'']\<rparr>"
proof -
  have path: "normalized_path sample_files ''args'' ''/w'' = ''/w/args''" by code_simp
  have words: "split_shell_command ''-O2 -c x.cpp'' = Inr [''-O2'', ''-c'', ''x.cpp'']" by code_simp
  have read: "read_response sample_files ''/w/args''
      \<lparr>ex_bytes = 0, ex_active = [''/w/args''], ex_inputs = [], ex_output = [''-g'']\<rparr> =
    Inr ([''-O2'', ''-c'', ''x.cpp''],
      \<lparr>ex_bytes = 12, ex_active = [''/w/args''], ex_inputs = [''/w/args''], ex_output = [''-g'']\<rparr>)"
    by (simp add: read_response_def sample_files_def response_budget_def max_response_bytes_def words)
  have plain: "\<not> is_response ''-g''" "\<not> is_response ''-O2''" "\<not> is_response ''-c''"
    "\<not> is_response ''x.cpp''" "is_response (CHR 0x40 # ''args'')"
    by (simp_all add: is_response_def)
  show ?thesis
    unfolding expand_arguments_def max_response_depth_def
    by (simp add: expand_plain expand_reference plain path read Let_def)
qed


text \<open>A reference below sixteen levels, and a file that includes itself, are refused.\<close>

lemma response_nesting_limit:
  "is_response argument \<Longrightarrow> expand_response_argument fs directory 0 argument st =
     Inl (Runtime_Error ''response-file nesting exceeds 16 levels'')"
  by simp

lemma response_cycle:
  "is_response argument \<Longrightarrow> normalized_path fs (drop 1 argument) directory \<in> set (ex_active st) \<Longrightarrow>
     \<exists>m. expand_response_argument fs directory (Suc levels) argument st = Inl (Runtime_Error m)"
  by (simp add: Let_def)

section \<open>Normalized commands\<close>

definition is_kept :: "filesystem \<Rightarrow> compile_command \<Rightarrow> string \<Rightarrow> bool" where
  "is_kept fs command a \<longleftrightarrow> a \<notin> set flags_with_value \<and> \<not> is_removed a \<and>
     \<not> starts_with ''-Wp,-MD,'' a \<and> \<not> starts_with ''-Wp,-MMD,'' a \<and>
     \<not> is_source_argument fs a command"

lemma filter_arguments_kept:
  "filter_arguments fs command args = Inr kept \<Longrightarrow>
     set kept \<subseteq> set args \<and> (\<forall>a \<in> set kept. is_kept fs command a)"
proof (induction fs command args arbitrary: kept rule: filter_arguments.induct)
  case (1 fs command)
  then show ?case by simp
next
  case (2 fs command a rest)
  have sub: "set (drop n rest) \<subseteq> set rest" for n by (rule set_drop_subset)
  note simp_rule = filter_arguments.simps(2) [of fs command a rest]
  consider (flag) "a \<in> set flags_with_value" | (removed) "a \<notin> set flags_with_value" "is_removed a"
    | (xclang) "a \<notin> set flags_with_value" "\<not> is_removed a"
        "a = ''-Xclang'' \<and> rest \<noteq> [] \<and> writes_by_frontend (hd rest)"
    | (dropped) "a \<notin> set flags_with_value" "\<not> is_removed a"
        "\<not> (a = ''-Xclang'' \<and> rest \<noteq> [] \<and> writes_by_frontend (hd rest))"
        "starts_with ''-Wp,-MD,'' a \<or> starts_with ''-Wp,-MMD,'' a \<or> is_source_argument fs a command"
    | (kept) "a \<notin> set flags_with_value" "\<not> is_removed a"
        "\<not> (a = ''-Xclang'' \<and> rest \<noteq> [] \<and> writes_by_frontend (hd rest))"
        "\<not> (starts_with ''-Wp,-MD,'' a \<or> starts_with ''-Wp,-MMD,'' a)"
        "\<not> is_source_argument fs a command" by blast
  then show ?case
  proof cases
    case flag
    with "2.prems" have "rest \<noteq> []" "filter_arguments fs command (drop 1 rest) = Inr kept"
      unfolding simp_rule by (auto split: if_splits)
    with "2.IH"(1) [OF flag] sub [of 1] show ?thesis by auto
  next
    case removed
    with "2.prems" "2.IH"(2) [OF removed] show ?thesis unfolding simp_rule by auto
  next
    case xclang
    show ?thesis
    proof (cases "3 \<le> length rest \<and> rest ! 1 = ''-Xclang''")
      case True
      with "2.prems" xclang have "filter_arguments fs command (drop 3 rest) = Inr kept"
        unfolding simp_rule by simp
      with "2.IH"(3) [OF xclang True] sub [of 3] show ?thesis by auto
    next
      case False
      with "2.prems" xclang have "filter_arguments fs command (drop 1 rest) = Inr kept"
        unfolding simp_rule by (simp only: if_False if_True simp_thms)
      with "2.IH"(4) [OF xclang False] sub [of 1] show ?thesis by auto
    qed
  next
    case dropped
    with "2.prems" have "filter_arguments fs command rest = Inr kept"
      unfolding simp_rule by (auto split: if_splits)
    with "2.IH"(5,6) [OF dropped(1-3)] dropped(4) show ?thesis by auto
  next
    case kept
    with "2.prems" obtain k where "filter_arguments fs command rest = Inr k" "kept = a # k"
      unfolding simp_rule by (auto simp: rbind_eq_Inr)
    with "2.IH"(7) [OF kept] kept show ?thesis by (auto simp: is_kept_def)
  qed
qed

lemma normalized_cases:
  assumes "normalize_compile_command fs command = Inr n"
  obtains compiler arguments expanded kept inputs where
    "dropWhile is_launcher (cc_arguments command) = compiler # arguments" "is_compiler compiler"
    "expand_arguments fs (cc_directory (resolve_paths fs command)) arguments = Inr expanded"
    "filter_arguments fs (resolve_paths fs command) (ex_output expanded) = Inr kept"
    "n = \<lparr>cc_directory = cc_directory (resolve_paths fs command),
       cc_file = cc_file (resolve_paths fs command),
       cc_arguments = compiler # kept @ [cc_file (resolve_paths fs command)],
       cc_output = cc_output (resolve_paths fs command),
       cc_inputs = unique_by path_key (sort_key path_key inputs)\<rparr>"
proof -
  have same: "cc_arguments (resolve_paths fs command) = cc_arguments command"
    by (simp add: resolve_paths_def Let_def)
  from assms show ?thesis
    unfolding normalize_compile_command_def Let_def same expand_arguments_def [symmetric]
    by (auto simp: rbind_eq_Inr intro: that split: if_splits list.splits)
qed

text \<open>
  A normalized command compiles one file and writes nothing: it is a known compiler,
  then arguments that were all checked, then the source file, which occurs nowhere else; no
  flag that names an output or a dependency file survives, wherever it came from, and the
  files the command reads are listed once each, in path order.
\<close>
theorem normalize_compile_command_result:
  assumes "normalize_compile_command fs command = Inr n"
  shows "\<exists>compiler kept. cc_arguments n = compiler # kept @ [cc_file n] \<and> is_compiler compiler \<and>
    compiler \<in> set (cc_arguments command) \<and>
    (\<forall>a \<in> set kept. a \<notin> set flags_with_value \<and> \<not> is_removed a \<and> \<not> is_response a \<and>
       \<not> starts_with ''-Wp,-MD,'' a \<and> \<not> starts_with ''-Wp,-MMD,'' a \<and>
       \<not> is_source_argument fs a n) \<and>
    lexically_normal (cc_file n) = cc_file n \<and>
    distinct (map path_key (cc_inputs n)) \<and> sorted (map path_key (cc_inputs n))"
proof -
  from normalized_cases [OF assms] obtain compiler arguments expanded kept inputs where
    words: "dropWhile is_launcher (cc_arguments command) = compiler # arguments"
    and compiler: "is_compiler compiler"
    and expanded: "expand_arguments fs (cc_directory (resolve_paths fs command)) arguments = Inr expanded"
    and kept: "filter_arguments fs (resolve_paths fs command) (ex_output expanded) = Inr kept"
    and n: "n = \<lparr>cc_directory = cc_directory (resolve_paths fs command),
       cc_file = cc_file (resolve_paths fs command),
       cc_arguments = compiler # kept @ [cc_file (resolve_paths fs command)],
       cc_output = cc_output (resolve_paths fs command),
       cc_inputs = unique_by path_key (sort_key path_key inputs)\<rparr>" by blast
  have "compiler \<in> set (cc_arguments command)"
    using words set_dropWhileD [of compiler is_launcher "cc_arguments command"] by simp
  moreover have "is_source_argument fs a n = is_source_argument fs a (resolve_paths fs command)" for a
    by (simp add: n is_source_argument_def)
  moreover have "\<forall>a \<in> set kept. \<not> is_response a"
    using filter_arguments_kept [OF kept] expand_arguments_ok [OF expanded]
    by (auto simp: expansion_ok_def list_all_iff)
  moreover have "lexically_normal (cc_file n) = cc_file n"
    by (simp add: n resolve_paths_def Let_def normal_again)
  moreover have "distinct (map path_key (cc_inputs n)) \<and> sorted (map path_key (cc_inputs n))"
    unfolding n by (simp add: unique_by_sorted_distinct)
  ultimately show ?thesis
    using filter_arguments_kept [OF kept] compiler by (auto simp: n is_kept_def)
qed

definition sample_command :: compile_command where
  "sample_command = \<lparr>cc_directory = ''/w'', cc_file = ''x.cpp'',
     cc_arguments = [''ccache'', ''/usr/bin/clang++-18'', ''-O2'', ''-o'', ''x.o'', ''-c'', ''x.cpp''],
     cc_output = ''x.o'', cc_inputs = []\<rparr>"

lemma sample_normalized:
  "normalize_compile_command sample_files sample_command =
     Inr \<lparr>cc_directory = ''/w'', cc_file = ''/w/x.cpp'',
       cc_arguments = [''/usr/bin/clang++-18'', ''-O2'', ''/w/x.cpp''], cc_output = ''/w/x.o'',
       cc_inputs = []\<rparr>"
  by code_simp

lemma normalize_compile_command_result_witness:
  "\<exists>compiler kept. [''/usr/bin/clang++-18'', ''-O2'', ''/w/x.cpp''] = compiler # kept @ [''/w/x.cpp''] \<and>
     is_compiler compiler \<and> (\<forall>a \<in> set kept. \<not> is_removed a)"
  using normalize_compile_command_result [OF sample_normalized] by auto

section \<open>Normal paths\<close>

text \<open>
  Where the program compares paths it compares normal forms: with an absolute working
  directory, a normalized path is absolute, has no dot elements, and normalizing it again
  from any directory leaves it unchanged.
\<close>
theorem normalized_path_normal:
  assumes "is_absolute (fs_cwd fs)"
  shows "normalized_path fs (normalized_path fs v d) d' = normalized_path fs v d \<and>
    is_absolute (normalized_path fs v d) \<and>
    dot \<notin> set (components (normalized_path fs v d)) \<and>
    dot_dot \<notin> set (components (normalized_path fs v d))"
proof -
  have append: "is_absolute p \<Longrightarrow> is_absolute (path_append p q)" for p q
    by (cases p) (auto simp: path_append_def is_absolute_def)
  have "is_absolute (absolute fs p)" for p
    using assms append by (auto simp: absolute_def)
  then show ?thesis
    using lexically_normal_idempotent
    by (simp add: normalized_path_def absolute_def [of fs "lexically_normal x" for x])
qed

lemma normalized_path_normal_witness:
  "dot_dot \<notin> set (components (normalized_path sample_files ''./lib/../main.cpp'' ''/src''))"
  using normalized_path_normal [of sample_files "''./lib/../main.cpp''" "''/src''" "[]"]
  by (simp add: sample_files_def is_absolute_def)

end
