(* ===== verification/Provider.thy ===== *)
theory Provider
  imports Graph_Canonical Paths
begin

text \<open>
  \<open>src/provider.cpp\<close>: provider policies, read from YAML, resolved against the graph and
  added to it. The YAML library is a parameter: the record \<open>yaml_api\<close> holds what the code
  calls of it.
\<close>

section \<open>Selectors and facts\<close>

record symbol_selector =
  sel_id :: string
  sel_linkage_name :: string
  sel_qualified_name :: string
  sel_signature :: string

record callback_rule =
  cr_callee :: symbol_selector
  cr_argument_index :: nat
  cr_evidence :: evidence
  cr_require_unique :: bool

record root_fact =
  rf_symbol :: symbol_selector
  rf_evidence :: evidence

record edge_fact =
  ef_from :: symbol_selector
  ef_to :: symbol_selector
  ef_evidence :: evidence

record escape_fact =
  xf_symbol :: symbol_selector
  xf_from :: "symbol_selector option"
  xf_evidence :: evidence

record suppression_fact =
  sf_symbol :: symbol_selector
  sf_evidence :: evidence

record provider_policy =
  pp_source :: string
  pp_provider :: string
  pp_roots :: "root_fact list"
  pp_public_api_roots :: "root_fact list"
  pp_edges :: "edge_fact list"
  pp_escapes :: "escape_fact list"
  pp_suppressions :: "suppression_fact list"
  pp_callback_registrations :: "callback_rule list"

section \<open>Reading a policy\<close>

record 'n yaml_api =
  y_load :: "string \<Rightarrow> string + 'n"
  y_is_map :: "'n \<Rightarrow> bool"
  y_is_scalar :: "'n \<Rightarrow> bool"
  y_is_sequence :: "'n \<Rightarrow> bool"
  y_entries :: "'n \<Rightarrow> ('n \<times> 'n) list"
  y_items :: "'n \<Rightarrow> 'n list"
  y_lookup :: "'n \<Rightarrow> string \<Rightarrow> 'n option"
  y_string :: "'n \<Rightarrow> string"
  y_int :: "'n \<Rightarrow> int option"
  y_size :: "'n \<Rightarrow> nat option"

abbreviation apostrophe :: string where "apostrophe \<equiv> [CHR 0x27]"

definition context_at :: "string \<Rightarrow> string \<Rightarrow> string" where
  "context_at path context = path @ '': '' @ context"

definition require_mapping ::
    "'n yaml_api \<Rightarrow> 'n \<Rightarrow> string list \<Rightarrow> string \<Rightarrow> string \<Rightarrow> unit result" where
  "require_mapping api node allowed path context =
     (if \<not> y_is_map api node then
        Inl (Runtime_Error (context_at path context @ '' must be a mapping''))
      else
        rbind (fold_result (\<lambda>(k, v) seen.
            if \<not> y_is_scalar api k then
              Inl (Runtime_Error (context_at path context @ '' contains a non-scalar key''))
            else
              let key = y_string api k in
              if key \<notin> set allowed then
                Inl (Runtime_Error (context_at path context @ '' contains unknown key '' @
                  apostrophe @ key @ apostrophe))
              else if key \<in> set seen then
                Inl (Runtime_Error (context_at path context @ '' contains duplicate key '' @
                  apostrophe @ key @ apostrophe))
              else Inr (key # seen)) (y_entries api node) [])
          (\<lambda>_. Inr ()))"

definition require_node ::
    "'n yaml_api \<Rightarrow> 'n \<Rightarrow> string \<Rightarrow> string \<Rightarrow> string \<Rightarrow> 'n result" where
  "require_node api mapping key path context =
     (case y_lookup api mapping key of
        Some node \<Rightarrow> Inr node
      | None \<Rightarrow> Inl (Runtime_Error (context_at path context @ '' requires '' @ apostrophe @ key @
                  apostrophe)))"

definition require_string ::
    "'n yaml_api \<Rightarrow> 'n \<Rightarrow> string \<Rightarrow> string \<Rightarrow> string \<Rightarrow> string result" where
  "require_string api mapping key path context =
     rbind (require_node api mapping key path context) (\<lambda>node.
       if \<not> y_is_scalar api node then
         Inl (Runtime_Error (context_at path context @ ''.'' @ key @ '' must be a string''))
       else
         let v = y_string api node in
         if v = [] then
           Inl (Runtime_Error (context_at path context @ ''.'' @ key @ '' cannot be empty''))
         else Inr v)"

definition optional_string ::
    "'n yaml_api \<Rightarrow> 'n \<Rightarrow> string \<Rightarrow> string \<Rightarrow> string \<Rightarrow> string result" where
  "optional_string api node key path context =
     (if y_lookup api node key \<noteq> None then require_string api node key path context else Inr [])"

definition identities :: "symbol_selector \<Rightarrow> nat" where
  "identities s = of_bool (sel_id s \<noteq> []) + of_bool (sel_linkage_name s \<noteq> []) +
     of_bool (sel_qualified_name s \<noteq> [])"

definition parse_selector ::
    "'n yaml_api \<Rightarrow> 'n \<Rightarrow> string \<Rightarrow> string \<Rightarrow> symbol_selector result" where
  "parse_selector api node path context =
     rbind (require_mapping api node [''id'', ''linkage_name'', ''qualified_name'', ''signature'']
              path context) (\<lambda>_.
     rbind (optional_string api node ''id'' path context) (\<lambda>i.
     rbind (optional_string api node ''linkage_name'' path context) (\<lambda>l.
     rbind (optional_string api node ''qualified_name'' path context) (\<lambda>q.
     rbind (optional_string api node ''signature'' path context) (\<lambda>s.
     let selector = \<lparr>sel_id = i, sel_linkage_name = l, sel_qualified_name = q, sel_signature = s\<rparr> in
     if identities selector \<noteq> 1 then
       Inl (Runtime_Error (context_at path context @
         '' must set exactly one of id, linkage_name, or qualified_name''))
     else if s \<noteq> [] \<and> q = [] then
       Inl (Runtime_Error (context_at path context @ ''.signature requires qualified_name''))
     else Inr selector)))))"

definition parse_evidence ::
    "'n yaml_api \<Rightarrow> 'n \<Rightarrow> string \<Rightarrow> string \<Rightarrow> string \<Rightarrow> evidence result" where
  "parse_evidence api node provider path context =
     rbind (require_string api node ''reason'' path context) (\<lambda>reason.
       Inr \<lparr>ev_provider = provider, ev_reason = reason\<rparr>)"

text \<open>Parsing the items of a sequence in order, each with its context.\<close>

definition parse_sequence ::
    "'n yaml_api \<Rightarrow> 'n \<Rightarrow> string \<Rightarrow> string \<Rightarrow> ('n \<Rightarrow> string \<Rightarrow> 'a result) \<Rightarrow> 'a list result" where
  "parse_sequence api document key path parse_item =
     (case y_lookup api document key of
        None \<Rightarrow> Inr []
      | Some sequence \<Rightarrow>
          if \<not> y_is_sequence api sequence then
            Inl (Runtime_Error (context_at path key @ '' must be a sequence''))
          else
            map_result (\<lambda>(index, item).
              parse_item item (key @ ''['' @ to_string_nat index @ '']''))
              (enumerate 0 (y_items api sequence)))"

definition parse_field ::
    "'n yaml_api \<Rightarrow> 'n \<Rightarrow> string \<Rightarrow> string \<Rightarrow> string \<Rightarrow> symbol_selector result" where
  "parse_field api item field path context =
     rbind (require_node api item field path context) (\<lambda>node.
       parse_selector api node path (context @ ''.'' @ field))"

definition parse_root_fact ::
    "'n yaml_api \<Rightarrow> string \<Rightarrow> string \<Rightarrow> 'n \<Rightarrow> string \<Rightarrow> root_fact result" where
  "parse_root_fact api provider path item context =
     rbind (require_mapping api item [''symbol'', ''reason''] path context) (\<lambda>_.
     rbind (parse_field api item ''symbol'' path context) (\<lambda>s.
     rbind (parse_evidence api item provider path context) (\<lambda>e.
     Inr \<lparr>rf_symbol = s, rf_evidence = e\<rparr>)))"

definition parse_edge_fact ::
    "'n yaml_api \<Rightarrow> string \<Rightarrow> string \<Rightarrow> 'n \<Rightarrow> string \<Rightarrow> edge_fact result" where
  "parse_edge_fact api provider path item context =
     rbind (require_mapping api item [''from'', ''to'', ''reason''] path context) (\<lambda>_.
     rbind (parse_field api item ''from'' path context) (\<lambda>f.
     rbind (parse_field api item ''to'' path context) (\<lambda>t.
     rbind (parse_evidence api item provider path context) (\<lambda>e.
     Inr \<lparr>ef_from = f, ef_to = t, ef_evidence = e\<rparr>))))"

definition parse_escape_fact ::
    "'n yaml_api \<Rightarrow> string \<Rightarrow> string \<Rightarrow> 'n \<Rightarrow> string \<Rightarrow> escape_fact result" where
  "parse_escape_fact api provider path item context =
     rbind (require_mapping api item [''symbol'', ''from'', ''reason''] path context) (\<lambda>_.
     rbind (parse_field api item ''symbol'' path context) (\<lambda>s.
     rbind (parse_evidence api item provider path context) (\<lambda>e.
     case y_lookup api item ''from'' of
       None \<Rightarrow> Inr \<lparr>xf_symbol = s, xf_from = None, xf_evidence = e\<rparr>
     | Some node \<Rightarrow>
         rbind (parse_selector api node path (context @ ''.from'')) (\<lambda>f.
           Inr \<lparr>xf_symbol = s, xf_from = Some f, xf_evidence = e\<rparr>))))"

definition parse_suppression_fact ::
    "'n yaml_api \<Rightarrow> string \<Rightarrow> string \<Rightarrow> 'n \<Rightarrow> string \<Rightarrow> suppression_fact result" where
  "parse_suppression_fact api provider path item context =
     rbind (require_mapping api item [''symbol'', ''reason''] path context) (\<lambda>_.
     rbind (parse_field api item ''symbol'' path context) (\<lambda>s.
     rbind (parse_evidence api item provider path context) (\<lambda>e.
     Inr \<lparr>sf_symbol = s, sf_evidence = e\<rparr>)))"

definition parse_callback_rule ::
    "'n yaml_api \<Rightarrow> string \<Rightarrow> string \<Rightarrow> 'n \<Rightarrow> string \<Rightarrow> callback_rule result" where
  "parse_callback_rule api provider path item context =
     rbind (require_mapping api item [''callee'', ''argument_index'', ''reason''] path context) (\<lambda>_.
     rbind (require_node api item ''argument_index'' path context) (\<lambda>index_node.
     case y_size api index_node of
       None \<Rightarrow> Inl (Runtime_Error (context_at path context @
                 ''.argument_index must be a non-negative integer''))
     | Some index \<Rightarrow>
         rbind (parse_field api item ''callee'' path context) (\<lambda>c.
         rbind (parse_evidence api item provider path context) (\<lambda>e.
         Inr \<lparr>cr_callee = c, cr_argument_index = index, cr_evidence = e,
           cr_require_unique = True\<rparr>))))"

definition to_string_int :: "int \<Rightarrow> string" where
  "to_string_int i = (if i < 0 then ''-'' @ to_string_nat (nat (- i)) else to_string_nat (nat i))"

definition load_provider_config ::
    "'n yaml_api \<Rightarrow> filesystem \<Rightarrow> string \<Rightarrow> provider_policy result" where
  "load_provider_config api fs path =
     (case y_load api path of
        Inl what \<Rightarrow> Inl (Runtime_Error (path @ '': invalid YAML: '' @ what))
      | Inr document \<Rightarrow>
          rbind (require_mapping api document
            [''schema_version'', ''provider'', ''roots'', ''edges'', ''escapes'', ''suppressions'',
             ''callback_registrations'', ''public_api_roots''] path ''document'') (\<lambda>_.
          rbind (require_node api document ''schema_version'' path ''document'') (\<lambda>version_node.
          case y_int api version_node of
            None \<Rightarrow> Inl (Runtime_Error (path @ '': schema_version must be an integer''))
          | Some version \<Rightarrow>
              if version \<noteq> 1 \<and> version \<noteq> 2 then
                Inl (Runtime_Error (path @ '': unsupported provider schema_version '' @
                  to_string_int version))
              else
                rbind (require_string api document ''provider'' path ''document'') (\<lambda>provider.
                if version = 1 \<and> y_lookup api document ''public_api_roots'' \<noteq> None then
                  Inl (Runtime_Error (path @ '': public_api_roots requires schema_version 2''))
                else
                  rbind (parse_sequence api document ''roots'' path
                    (parse_root_fact api provider path)) (\<lambda>roots.
                  rbind (parse_sequence api document ''public_api_roots'' path
                    (parse_root_fact api provider path)) (\<lambda>public_roots.
                  rbind (parse_sequence api document ''edges'' path
                    (parse_edge_fact api provider path)) (\<lambda>edges.
                  rbind (parse_sequence api document ''escapes'' path
                    (parse_escape_fact api provider path)) (\<lambda>escapes.
                  rbind (parse_sequence api document ''suppressions'' path
                    (parse_suppression_fact api provider path)) (\<lambda>suppressions.
                  rbind (parse_sequence api document ''callback_registrations'' path
                    (parse_callback_rule api provider path)) (\<lambda>rules.
                  Inr \<lparr>pp_source = lexically_normal (absolute fs path), pp_provider = provider,
                    pp_roots = roots, pp_public_api_roots = public_roots, pp_edges = edges,
                    pp_escapes = escapes, pp_suppressions = suppressions,
                    pp_callback_registrations = rules\<rparr>))))))))))"

section \<open>Resolving selectors\<close>

definition matches :: "symbol \<Rightarrow> symbol_selector \<Rightarrow> bool" where
  "matches s selector \<longleftrightarrow>
     (sel_id selector = [] \<or> sym_key s = sel_id selector) \<and>
     (sel_linkage_name selector = [] \<or>
        si_linkage_name (sym_identity s) = sel_linkage_name selector) \<and>
     (sel_qualified_name selector = [] \<or> sym_qualified_name s = sel_qualified_name selector) \<and>
     (sel_signature selector = [] \<or> sym_signature s = sel_signature selector)"

definition describe :: "symbol_selector \<Rightarrow> string" where
  "describe s =
     (if sel_id s \<noteq> [] then ''id '' @ apostrophe @ sel_id s @ apostrophe
      else if sel_linkage_name s \<noteq> [] then
        ''linkage_name '' @ apostrophe @ sel_linkage_name s @ apostrophe
      else ''qualified_name '' @ apostrophe @ sel_qualified_name s @ apostrophe @
        (if sel_signature s = [] then []
         else '' with signature '' @ apostrophe @ sel_signature s @ apostrophe))"

definition matches_found :: "symbol list \<Rightarrow> symbol_selector \<Rightarrow> nat list" where
  "matches_found symbols selector = filter (\<lambda>i. matches (symbols ! i) selector) [0..<length symbols]"

definition resolve_unique :: "graph \<Rightarrow> symbol_selector \<Rightarrow> string \<Rightarrow> nat result" where
  "resolve_unique g selector context =
     (let found = matches_found (g_symbols g) selector in
      if length found \<noteq> 1 then
        Inl (Runtime_Error (context @ '' selector '' @ describe selector @ '' matched '' @
          to_string_nat (length found) @ '' symbols; expected exactly one''))
      else Inr (hd found))"

definition selector_key :: "symbol_selector \<Rightarrow> string \<times> string \<times> string \<times> string" where
  "selector_key s = (sel_id s, sel_linkage_name s, sel_qualified_name s, sel_signature s)"

definition callback_key ::
    "callback_rule \<Rightarrow> (string \<times> string \<times> string \<times> string) \<times> nat \<times> string \<times> string \<times> bool" where
  "callback_key r = (selector_key (cr_callee r), cr_argument_index r,
     ev_provider (cr_evidence r), ev_reason (cr_evidence r), cr_require_unique r)"

definition canonicalize_callback_registration_rules ::
    "callback_rule list \<Rightarrow> callback_rule list" where
  "canonicalize_callback_registration_rules rules = remdups_adj (sort_key callback_key rules)"

section \<open>Applying policies\<close>

definition apply_policy :: "provider_policy \<Rightarrow> graph \<Rightarrow> graph result" where
  "apply_policy policy g =
     (let source = pp_source policy in
      rbind (fold_result (\<lambda>rule g.
          if cr_require_unique rule
          then rbind (resolve_unique g (cr_callee rule) (source @ '': callback'')) (\<lambda>_. Inr g)
          else Inr g) (pp_callback_registrations policy) g) (\<lambda>g.
      rbind (fold_result (\<lambda>fact g.
          rbind (resolve_unique g (rf_symbol fact) (source @ '': root'')) (\<lambda>i.
            add_root i Provider_Root (rf_evidence fact) g)) (pp_roots policy) g) (\<lambda>g.
      rbind (fold_result (\<lambda>fact g.
          rbind (resolve_unique g (rf_symbol fact) (source @ '': public_api_root'')) (\<lambda>i.
            add_root i Public_Api (rf_evidence fact) g)) (pp_public_api_roots policy) g) (\<lambda>g.
      rbind (fold_result (\<lambda>fact g.
          rbind (resolve_unique g (ef_from fact) (source @ '': edge.from'')) (\<lambda>i.
          rbind (resolve_unique g (ef_to fact) (source @ '': edge.to'')) (\<lambda>j.
            add_edge i j Provider_Edge (ef_evidence fact) g))) (pp_edges policy) g) (\<lambda>g.
      rbind (fold_result (\<lambda>fact g.
          rbind (case xf_from fact of
                   None \<Rightarrow> Inr None
                 | Some s \<Rightarrow> rbind (resolve_unique g s (source @ '': escape.from''))
                     (\<lambda>i. Inr (Some i))) (\<lambda>from.
          rbind (resolve_unique g (xf_symbol fact) (source @ '': escape.symbol'')) (\<lambda>i.
            add_escape i Provider_Escape (xf_evidence fact) from g))) (pp_escapes policy) g) (\<lambda>g.
      fold_result (\<lambda>fact g.
          rbind (resolve_unique g (sf_symbol fact) (source @ '': suppression'')) (\<lambda>i.
            add_suppression i (sf_evidence fact) g)) (pp_suppressions policy) g))))))"

definition apply_provider_policies :: "graph \<Rightarrow> provider_policy list \<Rightarrow> graph result" where
  "apply_provider_policies g policies =
     (if policies = [] then Inr g
      else rbind (fold_result apply_policy policies g) (\<lambda>g'. Inr (canonicalize g')))"

end
