(* ===== verification/Graph_Facts.thy ===== *)
theory Graph_Facts
  imports Graph_Canonical
begin

text \<open>
  The edges, roots, escapes and suppressions of a graph as one set of facts, and the contract of
  a step that adds facts to a graph without touching its symbols: the locale \<open>fact_source\<close>,
  met by the loops that apply provider policies and by those that read an artifact.
\<close>

section \<open>Adding facts\<close>

datatype graph_fact =
  Edge_Fact edge | Root_Fact root | Escape_Fact escape | Suppression_Fact suppression

definition graph_facts :: "graph \<Rightarrow> graph_fact set" where
  "graph_facts g = Edge_Fact ` set (g_edges g) \<union> Root_Fact ` set (g_roots g) \<union>
     Escape_Fact ` set (g_escapes g) \<union> Suppression_Fact ` set (g_suppressions g)"

definition added :: "graph \<Rightarrow> graph \<Rightarrow> graph_fact set \<Rightarrow> bool" where
  "added g h facts \<longleftrightarrow> graph_wf h \<and> g_symbols h = g_symbols g \<and>
     graph_facts h = graph_facts g \<union> facts"

lemma added_refl: "graph_wf g \<Longrightarrow> added g g {}"
  by (simp add: added_def)

lemma added_trans: "added f g A \<Longrightarrow> added g h B \<Longrightarrow> added f h (A \<union> B)"
  by (auto simp: added_def)

lemma graph_facts_push:
  "graph_facts (g\<lparr>g_edges := push_unique e (g_edges g)\<rparr>) = graph_facts g \<union> {Edge_Fact e}"
  "graph_facts (g\<lparr>g_roots := push_unique r (g_roots g)\<rparr>) = graph_facts g \<union> {Root_Fact r}"
  "graph_facts (g\<lparr>g_escapes := push_unique x (g_escapes g)\<rparr>) = graph_facts g \<union> {Escape_Fact x}"
  "graph_facts (g\<lparr>g_suppressions := push_unique p (g_suppressions g)\<rparr>) =
     graph_facts g \<union> {Suppression_Fact p}"
  by (auto simp: graph_facts_def)

lemma graph_facts_eq:
  assumes "graph_facts g = graph_facts h"
  shows "set (g_edges g) = set (g_edges h)" "set (g_roots g) = set (g_roots h)"
    "set (g_escapes g) = set (g_escapes h)" "set (g_suppressions g) = set (g_suppressions h)"
proof -
  have mem: "e \<in> set (g_edges g) \<longleftrightarrow> Edge_Fact e \<in> graph_facts g"
    "r \<in> set (g_roots g) \<longleftrightarrow> Root_Fact r \<in> graph_facts g"
    "x \<in> set (g_escapes g) \<longleftrightarrow> Escape_Fact x \<in> graph_facts g"
    "p \<in> set (g_suppressions g) \<longleftrightarrow> Suppression_Fact p \<in> graph_facts g" for g e r x p
    by (auto simp: graph_facts_def)
  show "set (g_edges g) = set (g_edges h)" "set (g_roots g) = set (g_roots h)"
    "set (g_escapes g) = set (g_escapes h)" "set (g_suppressions g) = set (g_suppressions h)"
    using mem assms by blast+
qed

locale fact_source =
  fixes step :: "'x \<Rightarrow> graph \<Rightarrow> graph result"
    and ok :: "symbol list \<Rightarrow> 'x \<Rightarrow> bool"
    and effect :: "symbol list \<Rightarrow> 'x \<Rightarrow> graph_fact set"
  assumes step_adds: "graph_wf g \<Longrightarrow> ok (g_symbols g) x \<Longrightarrow>
      \<exists>h. step x g = Inr h \<and> added g h (effect (g_symbols g) x)"
begin

lemma loop_adds:
  assumes "graph_wf g" "\<forall>x \<in> set xs. ok (g_symbols g) x"
  shows "\<exists>h. fold_result step xs g = Inr h \<and> added g h (\<Union>x \<in> set xs. effect (g_symbols g) x)"
  using assms
proof (induction xs arbitrary: g)
  case Nil
  then show ?case by (simp add: added_refl)
next
  case (Cons x xs)
  from step_adds [OF Cons.prems(1), of x] Cons.prems(2) obtain h where
    h: "step x g = Inr h" "added g h (effect (g_symbols g) x)" by auto
  then have wf: "graph_wf h" and syms: "g_symbols h = g_symbols g" by (simp_all add: added_def)
  from Cons.IH [OF wf] Cons.prems(2) syms obtain k where
    k: "fold_result step xs h = Inr k" "added h k (\<Union>x \<in> set xs. effect (g_symbols g) x)" by auto
  from added_trans [OF h(2) k(2)] h(1) k(1) show ?case by simp
qed

end

end
