(* ===== verification/Provider_Facts.thy ===== *)
theory Provider_Facts
  imports Provider Graph_Facts
begin

text \<open>
  What applying provider policies does to a graph. Policies never change symbols, so a
  selector means the same before and after; the locale \<open>fact_adder\<close> is the contract of a
  step that either adds a set of facts depending on the symbols only or fails, and it is
  interpreted on each loop of \<open>apply_provider_policies\<close> and on the loop over policies.
\<close>

section \<open>Steps that add facts or fail\<close>

locale fact_adder = fact_source step ok effect
  for step :: "'x \<Rightarrow> graph \<Rightarrow> graph result"
    and ok :: "symbol list \<Rightarrow> 'x \<Rightarrow> bool"
    and effect :: "symbol list \<Rightarrow> 'x \<Rightarrow> graph_fact set" +
  assumes step_fails: "graph_wf g \<Longrightarrow> \<not> ok (g_symbols g) x \<Longrightarrow> \<exists>e. step x g = Inl e"
begin

lemma loop_fails:
  assumes "graph_wf g" "\<exists>x \<in> set xs. \<not> ok (g_symbols g) x"
  shows "\<exists>e. fold_result step xs g = Inl e"
  using assms
proof (induction xs arbitrary: g)
  case Nil
  then show ?case by simp
next
  case (Cons x xs)
  show ?case
  proof (cases "ok (g_symbols g) x")
    case False
    from step_fails [OF Cons.prems(1) False] obtain e where "step x g = Inl e" by blast
    then show ?thesis by simp
  next
    case True
    with step_adds [OF Cons.prems(1)] obtain h where
      h: "step x g = Inr h" "added g h (effect (g_symbols g) x)" by blast
    with Cons True show ?thesis by (auto simp: added_def)
  qed
qed

end

section \<open>Selectors\<close>

definition resolves :: "symbol list \<Rightarrow> symbol_selector \<Rightarrow> bool" where
  "resolves symbols s \<longleftrightarrow> (\<exists>!i. i < length symbols \<and> matches (symbols ! i) s)"

definition resolved :: "symbol list \<Rightarrow> symbol_selector \<Rightarrow> nat" where
  "resolved symbols s = hd (matches_found symbols s)"

lemma set_matches_found:
  "set (matches_found symbols s) = {i. i < length symbols \<and> matches (symbols ! i) s}"
  by (auto simp: matches_found_def)

lemma resolves_length: "resolves symbols s \<longleftrightarrow> length (matches_found symbols s) = 1"
proof -
  have d: "distinct (matches_found symbols s)" by (simp add: matches_found_def)
  have "resolves symbols s \<longleftrightarrow> (\<exists>i. set (matches_found symbols s) = {i})"
    unfolding resolves_def set_matches_found by (auto simp: set_eq_iff Ex1_def)
  also have "\<dots> \<longleftrightarrow> card (set (matches_found symbols s)) = 1" by (simp add: card_1_singleton_iff)
  finally show ?thesis by (simp add: distinct_card [OF d])
qed

lemma resolved_matches:
  assumes "resolves symbols s"
  shows "resolved symbols s < length symbols" "matches (symbols ! resolved symbols s) s"
proof -
  have "resolved symbols s \<in> set (matches_found symbols s)"
    using assms unfolding resolves_length resolved_def by (cases "matches_found symbols s") simp_all
  then show "resolved symbols s < length symbols" "matches (symbols ! resolved symbols s) s"
    by (simp_all add: set_matches_found)
qed

lemma resolve_unique_cases:
  "resolves (g_symbols g) s \<Longrightarrow> resolve_unique g s ctx = Inr (resolved (g_symbols g) s)"
  "\<not> resolves (g_symbols g) s \<Longrightarrow> \<exists>e. resolve_unique g s ctx = Inl e"
  by (simp_all add: resolves_length resolve_unique_def resolved_def Let_def)

section \<open>The loops of \<open>apply_provider_policies\<close>\<close>

definition root_effect :: "root_kind \<Rightarrow> symbol list \<Rightarrow> root_fact \<Rightarrow> graph_fact set" where
  "root_effect kind symbols f =
     {Root_Fact \<lparr>root_symbol = resolved symbols (rf_symbol f), root_kind = kind,
        root_evidence = rf_evidence f\<rparr>}"

definition edge_effect :: "symbol list \<Rightarrow> edge_fact \<Rightarrow> graph_fact set" where
  "edge_effect symbols f =
     {Edge_Fact \<lparr>edge_from = resolved symbols (ef_from f), edge_to = resolved symbols (ef_to f),
        edge_kind = Provider_Edge, edge_evidence = ef_evidence f\<rparr>}"

definition escape_effect :: "symbol list \<Rightarrow> escape_fact \<Rightarrow> graph_fact set" where
  "escape_effect symbols f =
     {Escape_Fact \<lparr>esc_symbol = resolved symbols (xf_symbol f),
        esc_from = map_option (resolved symbols) (xf_from f), esc_kind = Provider_Escape,
        esc_evidence = xf_evidence f\<rparr>}"

definition suppression_effect :: "symbol list \<Rightarrow> suppression_fact \<Rightarrow> graph_fact set" where
  "suppression_effect symbols f =
     {Suppression_Fact \<lparr>sup_symbol = resolved symbols (sf_symbol f), sup_evidence = sf_evidence f\<rparr>}"

lemma rbind_fails: "\<exists>e. m = Inl e \<Longrightarrow> \<exists>e. rbind m f = Inl e"
  by auto

interpretation callbacks: fact_adder
    "\<lambda>rule g. if cr_require_unique rule
       then rbind (resolve_unique g (cr_callee rule) ctx) (\<lambda>_. Inr g) else Inr g"
    "\<lambda>symbols rule. cr_require_unique rule \<longrightarrow> resolves symbols (cr_callee rule)"
    "\<lambda>_ _. {}" for ctx
  by unfold_locales
    (auto simp: added_refl resolve_unique_cases(1) intro!: rbind_fails resolve_unique_cases(2))

interpretation roots: fact_adder
    "\<lambda>fact g. rbind (resolve_unique g (rf_symbol fact) ctx) (\<lambda>i. add_root i kind (rf_evidence fact) g)"
    "\<lambda>symbols fact. resolves symbols (rf_symbol fact)" "root_effect kind" for ctx kind
proof (unfold_locales, goal_cases)
  case (1 g x)
  with resolved_matches(1) [OF 1(2)] show ?case
    by (simp add: resolve_unique_cases(1) add_root_def added_def graph_wf_push(2) graph_facts_push
        root_effect_def)
qed (intro rbind_fails resolve_unique_cases(2))

interpretation edges: fact_adder
    "\<lambda>fact g. rbind (resolve_unique g (ef_from fact) ctx) (\<lambda>i.
       rbind (resolve_unique g (ef_to fact) ctx') (\<lambda>j.
         add_edge i j Provider_Edge (ef_evidence fact) g))"
    "\<lambda>symbols fact. resolves symbols (ef_from fact) \<and> resolves symbols (ef_to fact)"
    edge_effect for ctx ctx'
proof (unfold_locales, goal_cases)
  case (1 g x)
  then have r: "resolves (g_symbols g) (ef_from x)" "resolves (g_symbols g) (ef_to x)" by simp_all
  with 1(1) resolved_matches(1) [OF r(1)] resolved_matches(1) [OF r(2)] show ?case
    by (simp add: resolve_unique_cases(1) add_edge_def added_def graph_wf_push(1) graph_facts_push
        edge_effect_def)
next
  case (2 g x)
  show ?case
  proof (cases "resolves (g_symbols g) (ef_from x)")
    case True
    with 2 show ?thesis
      by (auto simp: resolve_unique_cases(1) intro!: rbind_fails resolve_unique_cases(2))
  qed (intro rbind_fails resolve_unique_cases(2))
qed

interpretation escapes: fact_adder
    "\<lambda>fact g. rbind (case xf_from fact of None \<Rightarrow> Inr None
         | Some s \<Rightarrow> rbind (resolve_unique g s ctx) (\<lambda>i. Inr (Some i))) (\<lambda>from.
       rbind (resolve_unique g (xf_symbol fact) ctx') (\<lambda>i.
         add_escape i Provider_Escape (xf_evidence fact) from g))"
    "\<lambda>symbols fact. resolves symbols (xf_symbol fact) \<and>
       (\<forall>s. xf_from fact = Some s \<longrightarrow> resolves symbols s)"
    escape_effect for ctx ctx'
proof (unfold_locales, goal_cases)
  case (1 g x)
  note r = resolved_matches(1) [OF 1(2) [THEN conjunct1]]
  from 1 r show ?case
  proof (cases "xf_from x")
    case None
    with 1 r show ?thesis
      by (simp add: resolve_unique_cases(1) add_escape_def added_def graph_facts_push
          escape_effect_def) (rule graph_wf_push(3), simp_all)
  next
    case (Some s)
    with 1 have s: "resolves (g_symbols g) s" by simp
    with Some 1 r resolved_matches(1) [OF s] show ?thesis
      by (simp add: resolve_unique_cases(1) add_escape_def added_def graph_facts_push
          escape_effect_def) (rule graph_wf_push(3), simp_all)
  qed
next
  case (2 g x)
  show ?case
  proof (cases "xf_from x")
    case None
    with 2 show ?thesis by (auto intro!: rbind_fails resolve_unique_cases(2))
  next
    case (Some s)
    show ?thesis
    proof (cases "resolves (g_symbols g) s")
      case True
      with 2 Some show ?thesis
        by (auto simp: resolve_unique_cases(1) intro!: rbind_fails resolve_unique_cases(2))
    next
      case False
      with resolve_unique_cases(2) [OF False, of ctx] Some show ?thesis by auto
    qed
  qed
qed

interpretation suppressions: fact_adder
    "\<lambda>fact g. rbind (resolve_unique g (sf_symbol fact) ctx) (\<lambda>i. add_suppression i (sf_evidence fact) g)"
    "\<lambda>symbols fact. resolves symbols (sf_symbol fact)" suppression_effect for ctx
proof (unfold_locales, goal_cases)
  case (1 g x)
  with resolved_matches(1) [OF 1(2)] show ?case
    by (simp add: resolve_unique_cases(1) add_suppression_def added_def graph_wf_push(4)
        graph_facts_push suppression_effect_def)
qed (intro rbind_fails resolve_unique_cases(2))

section \<open>Whole policies\<close>

definition policy_ok :: "symbol list \<Rightarrow> provider_policy \<Rightarrow> bool" where
  "policy_ok symbols p \<longleftrightarrow>
     (\<forall>r \<in> set (pp_callback_registrations p). cr_require_unique r \<longrightarrow> resolves symbols (cr_callee r)) \<and>
     (\<forall>f \<in> set (pp_roots p). resolves symbols (rf_symbol f)) \<and>
     (\<forall>f \<in> set (pp_public_api_roots p). resolves symbols (rf_symbol f)) \<and>
     (\<forall>f \<in> set (pp_edges p). resolves symbols (ef_from f) \<and> resolves symbols (ef_to f)) \<and>
     (\<forall>f \<in> set (pp_escapes p). resolves symbols (xf_symbol f) \<and>
        (\<forall>s. xf_from f = Some s \<longrightarrow> resolves symbols s)) \<and>
     (\<forall>f \<in> set (pp_suppressions p). resolves symbols (sf_symbol f))"

definition policy_effect :: "symbol list \<Rightarrow> provider_policy \<Rightarrow> graph_fact set" where
  "policy_effect symbols p =
     (\<Union>f \<in> set (pp_roots p). root_effect Provider_Root symbols f) \<union>
     (\<Union>f \<in> set (pp_public_api_roots p). root_effect Public_Api symbols f) \<union>
     (\<Union>f \<in> set (pp_edges p). edge_effect symbols f) \<union>
     (\<Union>f \<in> set (pp_escapes p). escape_effect symbols f) \<union>
     (\<Union>f \<in> set (pp_suppressions p). suppression_effect symbols f)"

text \<open>Two steps that add one after the other add both; the first failure is the result.\<close>

definition adds :: "(graph \<Rightarrow> graph result) \<Rightarrow> (symbol list \<Rightarrow> bool) \<Rightarrow> (symbol list \<Rightarrow> graph_fact set) \<Rightarrow> bool" where
  "adds f ok effect \<longleftrightarrow> (\<forall>g. graph_wf g \<longrightarrow>
     (if ok (g_symbols g) then \<exists>h. f g = Inr h \<and> added g h (effect (g_symbols g))
      else \<exists>e. f g = Inl e))"

lemma adds_bind:
  assumes "adds f ok effect" "adds f' ok' effect'"
  shows "adds (\<lambda>g. rbind (f g) f') (\<lambda>s. ok s \<and> ok' s) (\<lambda>s. effect s \<union> effect' s)"
  unfolding adds_def
proof (intro allI impI)
  fix g :: graph
  assume wf: "graph_wf g"
  note 1 = assms(1) [unfolded adds_def, rule_format, OF wf]
  show "if ok (g_symbols g) \<and> ok' (g_symbols g)
      then \<exists>h. rbind (f g) f' = Inr h \<and> added g h (effect (g_symbols g) \<union> effect' (g_symbols g))
      else \<exists>e. rbind (f g) f' = Inl e"
  proof (cases "ok (g_symbols g)")
    case True
    with 1 obtain h where h: "f g = Inr h" "added g h (effect (g_symbols g))" by auto
    then have "graph_wf h" "g_symbols h = g_symbols g" by (simp_all add: added_def)
    with assms(2) [unfolded adds_def, rule_format, of h] h True added_trans [OF h(2)]
    show ?thesis by (auto split: if_splits)
  next
    case False
    with 1 show ?thesis by auto
  qed
qed

context fact_adder begin

lemma adds_loop:
  "adds (fold_result step xs) (\<lambda>s. \<forall>x \<in> set xs. ok s x) (\<lambda>s. \<Union>x \<in> set xs. effect s x)"
  unfolding adds_def using loop_adds loop_fails by auto

end

lemma apply_policy_adds: "adds (apply_policy p) (\<lambda>s. policy_ok s p) (\<lambda>s. policy_effect s p)"
proof -
  note loops = adds_bind [OF callbacks.adds_loop adds_bind [OF roots.adds_loop
      adds_bind [OF roots.adds_loop adds_bind [OF edges.adds_loop
      adds_bind [OF escapes.adds_loop suppressions.adds_loop]]]]]
  show ?thesis
    unfolding apply_policy_def Let_def policy_ok_def policy_effect_def
    using loops [of "pp_source p @ '': callback''" "pp_callback_registrations p"
        "pp_source p @ '': root''" Provider_Root "pp_roots p"
        "pp_source p @ '': public_api_root''" Public_Api "pp_public_api_roots p"
        "pp_source p @ '': edge.from''" "pp_source p @ '': edge.to''" "pp_edges p"
        "pp_source p @ '': escape.from''" "pp_source p @ '': escape.symbol''" "pp_escapes p"
        "pp_source p @ '': suppression''" "pp_suppressions p"]
    by (simp add: Un_assoc)
qed

interpretation policies: fact_adder apply_policy policy_ok policy_effect
  using apply_policy_adds unfolding adds_def
  by unfold_locales (auto split: if_splits dest!: spec)

lemma apply_policies_cases:
  assumes "graph_wf g" "policies \<noteq> []"
  shows "\<forall>p \<in> set policies. policy_ok (g_symbols g) p \<Longrightarrow>
      \<exists>h. apply_provider_policies g policies = Inr (canonicalize h) \<and>
        added g h (\<Union>p \<in> set policies. policy_effect (g_symbols g) p)"
    and "\<exists>p \<in> set policies. \<not> policy_ok (g_symbols g) p \<Longrightarrow>
      \<exists>e. apply_provider_policies g policies = Inl e"
  using policies.loop_adds [OF assms(1), of policies] policies.loop_fails [OF assms(1), of policies]
    assms(2)
  by (auto simp: apply_provider_policies_def)

lemma apply_policies_success:
  assumes "graph_wf g" "apply_provider_policies g policies = Inr h" "policies \<noteq> []"
  shows "(\<forall>p \<in> set policies. policy_ok (g_symbols g) p) \<and>
    (\<exists>k. h = canonicalize k \<and> added g k (\<Union>p \<in> set policies. policy_effect (g_symbols g) p))"
proof -
  have ok: "\<forall>p \<in> set policies. policy_ok (g_symbols g) p"
    using apply_policies_cases(2) [OF assms(1,3)] assms(2) by force
  with apply_policies_cases(1) [OF assms(1,3) ok] assms(2) show ?thesis by auto
qed

lemma same_facts_same_content:
  assumes "added g h F" "added g k F"
  shows "same_content h k"
proof -
  have "graph_facts h = graph_facts k" "g_symbols h = g_symbols k"
    using assms by (simp_all add: added_def)
  then show ?thesis
    using graph_facts_eq [of h k]
    by (simp add: same_content_def edge_facts_def root_facts_def escape_facts_def
        suppression_facts_def edge_label_def [abs_def] root_label_def [abs_def]
        escape_label_def [abs_def] suppression_label_def [abs_def] key_at_def [abs_def])
qed

text \<open>
  The order of provider policy files does not matter, nor does naming one twice: two
  lists with the same policies produce the same graph, or both are refused.
\<close>
theorem provider_order_irrelevant:
  assumes "graph_wf g" "set policies = set policies'"
  shows "apply_provider_policies g policies = apply_provider_policies g policies' \<or>
    (\<exists>e e'. apply_provider_policies g policies = Inl e \<and>
       apply_provider_policies g policies' = Inl e')"
proof (cases "policies = []")
  case True
  with assms(2) show ?thesis by simp
next
  case False
  then have ne: "policies' \<noteq> []" using assms(2) by auto
  show ?thesis
  proof (cases "\<forall>p \<in> set policies. policy_ok (g_symbols g) p")
    case True
    with apply_policies_cases(1) [OF assms(1) False] obtain h where
      h: "apply_provider_policies g policies = Inr (canonicalize h)"
      "added g h (\<Union>p \<in> set policies. policy_effect (g_symbols g) p)" by blast
    from True apply_policies_cases(1) [OF assms(1) ne] obtain k where
      k: "apply_provider_policies g policies' = Inr (canonicalize k)"
      "added g k (\<Union>p \<in> set policies. policy_effect (g_symbols g) p)"
      unfolding assms(2) by blast
    have "canonicalize h = canonicalize k"
      using same_facts_same_content [OF h(2) k(2)] h(2) k(2)
      by (intro canonical_form_unique) (simp_all add: added_def)
    with h(1) k(1) show ?thesis by simp
  next
    case False
    then show ?thesis
      using apply_policies_cases(2) [OF assms(1) \<open>policies \<noteq> []\<close>]
        apply_policies_cases(2) [OF assms(1) ne] unfolding assms(2) by blast
  qed
qed

lemma image_setcompr3: "f ` {a x y z | x y z. P x y z} = {f (a x y z) | x y z. P x y z}"
  by blast

lemma image_setcompr2: "f ` {a x y | x y. P x y} = {f (a x y) | x y. P x y}"
  by blast


definition select_id :: "string \<Rightarrow> symbol_selector" where
  "select_id key = \<lparr>sel_id = key, sel_linkage_name = [], sel_qualified_name = [], sel_signature = []\<rparr>"

definition sample_policy :: "string \<Rightarrow> provider_policy" where
  "sample_policy key = \<lparr>pp_source = ''/p.yaml'', pp_provider = ''plugin'',
     pp_roots = [\<lparr>rf_symbol = select_id key, rf_evidence = sample_evidence\<rparr>],
     pp_public_api_roots = [], pp_edges = [], pp_escapes = [], pp_suppressions = [],
     pp_callback_registrations = []\<rparr>"

lemma sample_policy_ok:
  "policy_ok (g_symbols sample_program) (sample_policy ''left'')"
  "policy_ok (g_symbols sample_program) (sample_policy ''right'')"
  by (simp_all add: policy_ok_def sample_policy_def resolves_length matches_found_def matches_def
      select_id_def sample_program_def sample_symbol_def)

lemma provider_order_irrelevant_witness:
  "apply_provider_policies sample_program [sample_policy ''left'', sample_policy ''right''] =
     apply_provider_policies sample_program [sample_policy ''right'', sample_policy ''left'']"
proof -
  have "\<exists>h. apply_provider_policies sample_program [sample_policy ''left'', sample_policy ''right''] = Inr h"
    using apply_policies_cases(1) [OF sample_program_wf, of "[sample_policy ''left'', sample_policy ''right'']"]
      sample_policy_ok by auto
  then show ?thesis
    using provider_order_irrelevant [OF sample_program_wf,
        of "[sample_policy ''left'', sample_policy ''right'']"
          "[sample_policy ''right'', sample_policy ''left'']"] by (auto simp: insert_commute)
qed


section \<open>Loaded policies are well formed\<close>

definition selector_valid :: "symbol_selector \<Rightarrow> bool" where
  "selector_valid s \<longleftrightarrow> identities s = 1 \<and> (sel_signature s \<noteq> [] \<longrightarrow> sel_qualified_name s \<noteq> [])"

definition evidence_valid :: "string \<Rightarrow> evidence \<Rightarrow> bool" where
  "evidence_valid provider e \<longleftrightarrow> ev_provider e = provider \<and> ev_reason e \<noteq> []"

definition policy_valid :: "provider_policy \<Rightarrow> bool" where
  "policy_valid p \<longleftrightarrow> pp_provider p \<noteq> [] \<and>
     (\<forall>f \<in> set (pp_roots p) \<union> set (pp_public_api_roots p).
        selector_valid (rf_symbol f) \<and> evidence_valid (pp_provider p) (rf_evidence f)) \<and>
     (\<forall>f \<in> set (pp_edges p). selector_valid (ef_from f) \<and> selector_valid (ef_to f) \<and>
        evidence_valid (pp_provider p) (ef_evidence f)) \<and>
     (\<forall>f \<in> set (pp_escapes p). selector_valid (xf_symbol f) \<and>
        (\<forall>s. xf_from f = Some s \<longrightarrow> selector_valid s) \<and> evidence_valid (pp_provider p) (xf_evidence f)) \<and>
     (\<forall>f \<in> set (pp_suppressions p). selector_valid (sf_symbol f) \<and>
        evidence_valid (pp_provider p) (sf_evidence f)) \<and>
     (\<forall>r \<in> set (pp_callback_registrations p). selector_valid (cr_callee r) \<and>
        evidence_valid (pp_provider p) (cr_evidence r) \<and> cr_require_unique r)"

lemma parse_selector_valid: "parse_selector api node path ctx = Inr s \<Longrightarrow> selector_valid s"
  by (auto simp: parse_selector_def selector_valid_def rbind_eq_Inr Let_def split: if_splits)

lemma parse_field_valid: "parse_field api item field path ctx = Inr s \<Longrightarrow> selector_valid s"
  by (auto simp: parse_field_def rbind_eq_Inr dest: parse_selector_valid)

lemma require_string_nonempty: "require_string api m key path ctx = Inr v \<Longrightarrow> v \<noteq> []"
  by (auto simp: require_string_def rbind_eq_Inr Let_def split: if_splits)

lemma parse_evidence_valid: "parse_evidence api item provider path ctx = Inr e \<Longrightarrow> evidence_valid provider e"
  by (auto simp: parse_evidence_def evidence_valid_def rbind_eq_Inr dest: require_string_nonempty)

lemma parse_sequence_items:
  assumes "parse_sequence api document key path item = Inr xs" "x \<in> set xs"
  shows "\<exists>node ctx. item node ctx = Inr x"
proof (cases "y_lookup api document key")
  case None
  with assms show ?thesis by (simp add: parse_sequence_def)
next
  case (Some sequence)
  with assms(1) have "list_all2 (\<lambda>x y. (case x of (index, i) \<Rightarrow>
      item i (key @ ''['' @ to_string_nat index @ '']'')) = Inr y) (enumerate 0 (y_items api sequence)) xs"
    by (simp add: parse_sequence_def map_result_Inr split: if_splits)
  moreover from assms(2) obtain k where "k < length xs" "xs ! k = x" by (auto simp: in_set_conv_nth)
  ultimately have "(case enumerate 0 (y_items api sequence) ! k of (index, i) \<Rightarrow>
      item i (key @ ''['' @ to_string_nat index @ '']'')) = Inr x"
    using list_all2_nthD2 by fastforce
  then show ?thesis by (auto split: prod.splits)
qed

lemma items_valid:
  "parse_root_fact api provider path node ctx = Inr rf \<Longrightarrow>
     selector_valid (rf_symbol rf) \<and> evidence_valid provider (rf_evidence rf)"
  "parse_edge_fact api provider path node ctx = Inr ef \<Longrightarrow> selector_valid (ef_from ef) \<and>
     selector_valid (ef_to ef) \<and> evidence_valid provider (ef_evidence ef)"
  "parse_escape_fact api provider path node ctx = Inr xf \<Longrightarrow> selector_valid (xf_symbol xf) \<and>
     (\<forall>s. xf_from xf = Some s \<longrightarrow> selector_valid s) \<and> evidence_valid provider (xf_evidence xf)"
  "parse_suppression_fact api provider path node ctx = Inr sf \<Longrightarrow>
     selector_valid (sf_symbol sf) \<and> evidence_valid provider (sf_evidence sf)"
  "parse_callback_rule api provider path node ctx = Inr cr \<Longrightarrow>
     selector_valid (cr_callee cr) \<and> evidence_valid provider (cr_evidence cr) \<and> cr_require_unique cr"
  by ((auto simp: parse_root_fact_def parse_edge_fact_def parse_escape_fact_def
      parse_suppression_fact_def parse_callback_rule_def rbind_eq_Inr split: option.splits)[1];
      erule parse_field_valid parse_selector_valid parse_evidence_valid)+

text \<open>
  Every loaded policy is well formed: it names its provider, each selector sets exactly
  one of the three identities and a signature only beside a qualified name, every fact
  carries a reason and the policy's provider, and every callback rule must match uniquely.
\<close>
theorem load_provider_config_valid:
  assumes "load_provider_config api fs path = Inr p"
  shows "policy_valid p"
proof -
  from assms obtain document provider where
    provider: "require_string api document ''provider'' path ''document'' = Inr provider"
      "pp_provider p = provider" and
    seqs: "parse_sequence api document ''roots'' path (parse_root_fact api provider path) = Inr (pp_roots p)"
      "parse_sequence api document ''public_api_roots'' path (parse_root_fact api provider path) =
         Inr (pp_public_api_roots p)"
      "parse_sequence api document ''edges'' path (parse_edge_fact api provider path) = Inr (pp_edges p)"
      "parse_sequence api document ''escapes'' path (parse_escape_fact api provider path) = Inr (pp_escapes p)"
      "parse_sequence api document ''suppressions'' path (parse_suppression_fact api provider path) =
         Inr (pp_suppressions p)"
      "parse_sequence api document ''callback_registrations'' path (parse_callback_rule api provider path) =
         Inr (pp_callback_registrations p)"
    unfolding load_provider_config_def
    by (auto simp: rbind_eq_Inr split: sum.splits option.splits if_splits)
  note items = seqs [THEN parse_sequence_items]
  show ?thesis
    unfolding policy_valid_def provider(2)
    using require_string_nonempty [OF provider(1)]
    by (auto dest!: items items_valid)
qed

text \<open>A document with a version and a provider only; nodes are strings.\<close>

definition sample_api :: "string yaml_api" where
  "sample_api = \<lparr>y_load = (\<lambda>_. Inr ''doc''), y_is_map = (\<lambda>n. n = ''doc''), y_is_scalar = (\<lambda>n. n \<noteq> ''doc''),
     y_is_sequence = (\<lambda>_. False),
     y_entries = (\<lambda>_. [(''schema_version'', ''one''), (''provider'', ''plugin'')]), y_items = (\<lambda>_. []),
     y_lookup = (\<lambda>n k. if n = ''doc'' then map_of [(''schema_version'', ''one''), (''provider'', ''plugin'')] k
        else None),
     y_string = (\<lambda>n. n), y_int = (\<lambda>n. if n = ''one'' then Some 1 else None), y_size = (\<lambda>_. None)\<rparr>"

definition sample_disk :: filesystem where
  "sample_disk = \<lparr>fs_cwd = ''/'', fs_read = (\<lambda>_. Cannot_Open), fs_size = (\<lambda>_. None),
     fs_regular = (\<lambda>_. False), fs_canonical = (\<lambda>p. p)\<rparr>"

lemma load_provider_config_valid_witness:
  "\<exists>p. load_provider_config sample_api sample_disk ''/p.yaml'' = Inr p \<and> policy_valid p"
proof -
  have "\<exists>p. load_provider_config sample_api sample_disk ''/p.yaml'' = Inr p"
    by (simp add: load_provider_config_def sample_api_def require_mapping_def require_node_def
        require_string_def parse_sequence_def Let_def)
  then show ?thesis using load_provider_config_valid by blast
qed

section \<open>Callback rules\<close>

lemma callback_key_inject: "callback_key r = callback_key r' \<longleftrightarrow> r = r'"
  by (cases r; cases r'; cases "cr_evidence r"; cases "cr_evidence r'"; cases "cr_callee r";
      cases "cr_callee r'") (auto simp: callback_key_def selector_key_def)

text \<open>
  The canonical list of callback rules is a function of the set of rules, and of nothing
  else: neither the order in which policies supply them nor repetitions are visible to the
  indexer or to a cache key.
\<close>
theorem callback_rules_canonical:
  "canonicalize_callback_registration_rules rules = canonicalize_callback_registration_rules rules' \<longleftrightarrow>
   set rules = set rules'"
proof
  assume "canonicalize_callback_registration_rules rules = canonicalize_callback_registration_rules rules'"
  then have "set (canonicalize_callback_registration_rules rules) =
    set (canonicalize_callback_registration_rules rules')" by simp
  then show "set rules = set rules'" by (simp add: canonicalize_callback_registration_rules_def)
next
  assume eq: "set rules = set rules'"
  have d: "distinct (remdups_adj (sort_key callback_key xs)) \<and>
      sorted (map callback_key (remdups_adj (sort_key callback_key xs)))" for xs
  proof -
    have sorted: "sorted (map callback_key (remdups_adj ys))" if "sorted (map callback_key ys)" for ys
      using that by (induction ys rule: remdups_adj.induct) auto
    have "distinct (remdups_adj ys)" if "sorted (map callback_key ys)" for ys
      using that
    proof (induction ys rule: remdups_adj.induct)
      case (3 x y ys)
      show ?case
      proof (cases "x = y")
        case False
        have "x \<notin> set (y # ys)"
        proof
          assume "x \<in> set (y # ys)"
          with "3.prems" have "callback_key y \<le> callback_key x" "callback_key x \<le> callback_key y" by auto
          then have "callback_key x = callback_key y" by (rule order_antisym [rotated])
          with False show False by (simp add: callback_key_inject)
        qed
        with 3 False show ?thesis by simp
      qed (use 3 in simp)
    qed simp_all
    with sorted show ?thesis by simp
  qed
  show "canonicalize_callback_registration_rules rules = canonicalize_callback_registration_rules rules'"
    unfolding canonicalize_callback_registration_rules_def
    by (rule sorted_list_unique [where f = callback_key]) (use d eq in \<open>simp_all add: callback_key_inject\<close>)
qed

end
