(* ===== verification/Containers.thy ===== *)
theory Containers
  imports Prelude
begin

text \<open>
  Standard containers and algorithms the reports and artifacts share: \<open>std::ranges::sort\<close> with
  a comparison function that need not be a comparison of keys, and \<open>std::map\<close> from keys to
  vectors, kept as an association list in key order because the code iterates over it.
\<close>

section \<open>Sorting with a comparison function\<close>

fun insort_by :: "('a \<Rightarrow> 'a \<Rightarrow> bool) \<Rightarrow> 'a \<Rightarrow> 'a list \<Rightarrow> 'a list" where
  "insort_by lt x [] = [x]"
| "insort_by lt x (y # ys) = (if lt y x then y # insort_by lt x ys else x # y # ys)"

definition sort_by :: "('a \<Rightarrow> 'a \<Rightarrow> bool) \<Rightarrow> 'a list \<Rightarrow> 'a list" where
  "sort_by lt xs = foldr (insort_by lt) xs []"

lemma mset_insort_by [simp]: "mset (insort_by lt x ys) = add_mset x (mset ys)"
  by (induction ys) auto

lemma mset_sort_by [simp]: "mset (sort_by lt xs) = mset xs"
  unfolding sort_by_def by (induction xs) auto

lemma set_sort_by [simp]: "set (sort_by lt xs) = set xs"
  by (metis mset_sort_by set_mset_mset)

text \<open>Where the comparison is that of a key the result is the sorted list of the library.\<close>

lemma insort_by_key:
  assumes "\<And>y. y \<in> set ys \<Longrightarrow> lt y x \<longleftrightarrow> f y < f x"
  shows "insort_by lt x ys = insort_key f x ys"
  using assms by (induction ys) (auto simp: not_less)

lemma sort_by_key:
  assumes "\<And>x y. x \<in> set xs \<Longrightarrow> y \<in> set xs \<Longrightarrow> lt x y \<longleftrightarrow> f x < f y"
  shows "sort_by lt xs = sort_key f xs"
  using assms
proof (induction xs)
  case Nil
  then show ?case by (simp add: sort_by_def)
next
  case (Cons x xs)
  then have "sort_by lt xs = sort_key f xs" by simp
  then have "sort_by lt (x # xs) = insort_by lt x (sort_key f xs)" by (simp add: sort_by_def)
  also have "\<dots> = insort_key f x (sort_key f xs)"
    by (rule insort_by_key) (use Cons.prems in auto)
  finally show ?case by simp
qed

section \<open>Maps from keys to vectors\<close>

text \<open>\<open>grouped[k].push_back(v)\<close>.\<close>

fun group_push :: "'k::linorder \<Rightarrow> 'v \<Rightarrow> ('k \<times> 'v list) list \<Rightarrow> ('k \<times> 'v list) list" where
  "group_push k v [] = [(k, [v])]"
| "group_push k v ((k', vs) # m) =
     (if k < k' then (k, [v]) # (k', vs) # m
      else if k = k' then (k', vs @ [v]) # m
      else (k', vs) # group_push k v m)"

definition group_at :: "('k \<times> 'v list) list \<Rightarrow> 'k \<Rightarrow> 'v list" where
  "group_at m k = (case map_of m k of None \<Rightarrow> [] | Some vs \<Rightarrow> vs)"

definition group_ok :: "('k::linorder \<times> 'v list) list \<Rightarrow> bool" where
  "group_ok m \<longleftrightarrow> sorted_wrt (<) (map fst m) \<and> (\<forall>(k, vs) \<in> set m. vs \<noteq> [])"

lemma group_push_keys [simp]: "fst ` set (group_push k v m) = insert k (fst ` set m)"
  by (induction k v m rule: group_push.induct) auto

lemma group_push_ok:
  "group_ok m \<Longrightarrow> group_ok (group_push k v m)"
proof (induction k v m rule: group_push.induct)
  case (2 k v k' vs m)
  have keys: "\<forall>x \<in> set (map fst (group_push k v m)). x = k \<or> x \<in> fst ` set m" by simp
  from 2 show ?case using keys by (auto simp: group_ok_def)
qed (simp add: group_ok_def)

lemma group_push_at:
  "sorted_wrt (<) (map fst m) \<Longrightarrow>
     group_at (group_push k v m) j = (if j = k then group_at m k @ [v] else group_at m j)"
proof (induction k v m rule: group_push.induct)
  case (2 k v k' vs m)
  have "map_of m k = None" if "k \<le> k'"
  proof -
    have "k \<notin> fst ` set m" using 2(2) that by auto
    then show ?thesis by (simp add: map_of_eq_None_iff)
  qed
  then show ?case using 2 by (auto simp: group_at_def)
qed (simp add: group_at_def)

lemma group_at_mem:
  fixes m :: "('k::linorder \<times> 'v list) list"
  assumes "sorted_wrt (<) (map fst m)" "(k, vs) \<in> set m"
  shows "group_at m k = vs"
proof -
  have "distinct (map fst m)" using assms(1) by (simp add: strict_sorted_iff)
  then show ?thesis using assms(2) by (simp add: group_at_def map_of_is_SomeI)
qed

text \<open>Grouping a list by a partial label: every group holds its elements in order.\<close>

lemma group_fold:
  assumes "group_ok m"
  shows "group_ok (fold (\<lambda>x m. group_push (f x) (g x) m) xs m) \<and>
    group_at (fold (\<lambda>x m. group_push (f x) (g x) m) xs m) k =
      group_at m k @ map g (filter (\<lambda>x. f x = k) xs) \<and>
    fst ` set (fold (\<lambda>x m. group_push (f x) (g x) m) xs m) = fst ` set m \<union> f ` set xs"
  using assms
proof (induction xs arbitrary: m)
  case (Cons x xs)
  from Cons.IH [OF group_push_ok [OF Cons.prems, of "f x" "g x"]] Cons.prems show ?case
    by (auto simp: group_push_at group_ok_def)
qed simp

end
