(* ===== verification/Report.thy ===== *)
theory Report
  imports Weak_Components Containers Paths
begin

text \<open>
  The analysis report of \<open>include/cxx_dead/report.h\<close> and \<open>src/report.cpp\<close>: classification
  of unreachable definitions, line estimates by merging source ranges, ownership summaries,
  and \<open>build_report\<close>, which tallies the symbols and groups findings by weak component.
  Line numbers and counters (\<open>std::size_t\<close>) are natural numbers.
\<close>

section \<open>Data\<close>

datatype classification = Dead | Likely_Dead | Possibly_Dead | Dynamically_Referenced

datatype finding_evidence_kind =
  No_Reachable_Path | Internal_Linkage | Virtual_Dispatch_Uncertainty | Escape_Evidence

record finding_evidence =
  fe_kind :: finding_evidence_kind
  fe_evidence :: evidence
  fe_escape_kind :: "escape_kind option"
  fe_from :: "nat option"

record finding =
  fi_symbol :: nat
  fi_classification :: classification
  fi_evidence :: "finding_evidence list"

record provider_reachability =
  pr_symbol :: nat
  pr_from :: "nat option"
  pr_evidence :: evidence

record suppressed_finding =
  sf_finding :: finding
  sf_suppressions :: "evidence list"

datatype disposition = Actionable | Suppressed

record aggregate_member =
  am_symbol :: nat
  am_disposition :: disposition

record line_estimate =
  le_loc :: nat
  le_unmeasured :: nat

record ownership_summary =
  os_label :: string
  os_members :: "aggregate_member list"
  os_lines :: line_estimate

record unreachable_aggregate =
  ua_weak_component :: nat
  ua_sccs :: "nat list"
  ua_edges :: "condensation_edge list"
  ua_members :: "aggregate_member list"
  ua_lines :: line_estimate
  ua_types :: "ownership_summary list"
  ua_files :: "ownership_summary list"
  ua_directories :: "ownership_summary list"

record analysis_report =
  ar_findings :: "finding list"
  ar_reportable_symbols :: nat
  ar_indexed_symbols :: nat
  ar_external_opaque_symbols :: nat
  ar_defined_symbols :: nat
  ar_reachable_symbols :: nat
  ar_structurally_reachable_symbols :: nat
  ar_provider_reachable_symbols :: nat
  ar_unreachable_symbols :: nat
  ar_actionable_unreachable_symbols :: nat
  ar_suppressed_symbols :: nat
  ar_public_api_symbols :: nat
  ar_internal_live_symbols :: nat
  ar_internal_unreachable_symbols :: nat
  ar_public_api :: "provider_reachability list"
  ar_provider_reachable :: "provider_reachability list"
  ar_suppressed_findings :: "suppressed_finding list"
  ar_unreachable_components :: "unreachable_aggregate list"

definition empty_report :: analysis_report where
  "empty_report = \<lparr>ar_findings = [], ar_reportable_symbols = 0, ar_indexed_symbols = 0,
     ar_external_opaque_symbols = 0, ar_defined_symbols = 0, ar_reachable_symbols = 0,
     ar_structurally_reachable_symbols = 0, ar_provider_reachable_symbols = 0,
     ar_unreachable_symbols = 0, ar_actionable_unreachable_symbols = 0,
     ar_suppressed_symbols = 0, ar_public_api_symbols = 0, ar_internal_live_symbols = 0,
     ar_internal_unreachable_symbols = 0, ar_public_api = [], ar_provider_reachable = [],
     ar_suppressed_findings = [], ar_unreachable_components = []\<rparr>"

fun classification_to_string :: "classification \<Rightarrow> string" where
  "classification_to_string Dead = ''dead''"
| "classification_to_string Likely_Dead = ''likely_dead''"
| "classification_to_string Possibly_Dead = ''possibly_dead''"
| "classification_to_string Dynamically_Referenced = ''dynamically_referenced''"

fun finding_evidence_kind_to_string :: "finding_evidence_kind \<Rightarrow> string" where
  "finding_evidence_kind_to_string No_Reachable_Path = ''no_reachable_path''"
| "finding_evidence_kind_to_string Internal_Linkage = ''internal_linkage''"
| "finding_evidence_kind_to_string Virtual_Dispatch_Uncertainty =
     ''virtual_dispatch_uncertainty''"
| "finding_evidence_kind_to_string Escape_Evidence = ''escape''"

section \<open>Classification\<close>

definition policy_evidence ::
    "finding_evidence_kind \<Rightarrow> string \<Rightarrow> string \<Rightarrow> finding_evidence" where
  "policy_evidence kind provider reason =
     \<lparr>fe_kind = kind, fe_evidence = \<lparr>ev_provider = provider, ev_reason = reason\<rparr>,
      fe_escape_kind = None, fe_from = None\<rparr>"

definition classify :: "graph \<Rightarrow> nat \<Rightarrow> symbol \<Rightarrow> finding" where
  "classify g i s =
     (let base = policy_evidence No_Reachable_Path ''reachability_analysis''
            ''no path from an application root'';
          (escaped, evidence) = fold (\<lambda>x (escaped, evidence).
            if esc_symbol x \<noteq> i then (escaped, evidence)
            else (True, evidence @ [\<lparr>fe_kind = Escape_Evidence, fe_evidence = esc_evidence x,
              fe_escape_kind = Some (esc_kind x), fe_from = esc_from x\<rparr>]))
            (g_escapes g) (False, [base])
      in if escaped then
           \<lparr>fi_symbol = i, fi_classification = Dynamically_Referenced, fi_evidence = evidence\<rparr>
         else if sym_is_virtual s then
           \<lparr>fi_symbol = i, fi_classification = Possibly_Dead,
            fi_evidence = evidence @ [policy_evidence Virtual_Dispatch_Uncertainty
              ''classification_policy'' ''virtual dispatch requires conservative review'']\<rparr>
         else if sym_internal_linkage s then
           \<lparr>fi_symbol = i, fi_classification = Dead,
            fi_evidence = evidence @ [policy_evidence Internal_Linkage
              ''classification_policy'' ''symbol has internal linkage'']\<rparr>
         else
           \<lparr>fi_symbol = i, fi_classification = Likely_Dead, fi_evidence = evidence\<rparr>)"

definition find_finding :: "analysis_report \<Rightarrow> nat \<Rightarrow> finding option" where
  "find_finding report i = find (\<lambda>f. fi_symbol f = i) (ar_findings report)"

section \<open>Line estimates\<close>

definition measured :: "source_extent \<Rightarrow> bool" where
  "measured x \<longleftrightarrow> \<not> (sp_file (sx_begin x) = [] \<or>
     path_key (sp_file (sx_begin x)) \<noteq> path_key (sp_file (sx_end x)) \<or>
     sp_line (sx_begin x) = 0 \<or> sp_line (sx_end x) < sp_line (sx_begin x))"

text \<open>The inner loop over the sorted ranges of one file.\<close>

fun merge_ranges :: "nat \<Rightarrow> nat \<Rightarrow> nat \<Rightarrow> (nat \<times> nat) list \<Rightarrow> nat" where
  "merge_ranges b e loc [] = loc + (e - b + 1)"
| "merge_ranges b e loc ((f, l) # ranges) =
     (if f \<le> e \<or> f - 1 = e then merge_ranges b (max e l) loc ranges
      else merge_ranges f l (loc + (e - b + 1)) ranges)"

definition file_lines :: "(nat \<times> nat) list \<Rightarrow> nat \<Rightarrow> nat" where
  "file_lines ranges loc =
     (let sorted_ranges = sort ranges;
          (b, e) = hd sorted_ranges
      in merge_ranges b e loc (tl sorted_ranges))"

definition estimate_lines :: "graph \<Rightarrow> aggregate_member list \<Rightarrow> line_estimate" where
  "estimate_lines g members =
     (let (ranges_by_file, unmeasured) = fold (\<lambda>m (ranges_by_file, unmeasured).
            let extent = primary_source_extent (g_symbols g ! am_symbol m) in
            if \<not> measured extent then (ranges_by_file, Suc unmeasured)
            else (group_push (sp_file (sx_begin extent))
                   (sp_line (sx_begin extent), sp_line (sx_end extent)) ranges_by_file,
                  unmeasured))
            members ([], 0)
      in \<lparr>le_loc = fold (\<lambda>(file, ranges) loc. file_lines ranges loc) ranges_by_file 0,
          le_unmeasured = unmeasured\<rparr>)"

section \<open>Ownership\<close>

definition summarize_ownership ::
    "graph \<Rightarrow> aggregate_member list \<Rightarrow> (symbol \<Rightarrow> string) \<Rightarrow> ownership_summary list" where
  "summarize_ownership g members label_for =
     (let grouped = fold (\<lambda>m grouped.
            let label = label_for (g_symbols g ! am_symbol m) in
            if label \<noteq> [] then group_push label m grouped else grouped) members []
      in map (\<lambda>(label, grouped_members).
           \<lparr>os_label = label, os_members = grouped_members,
            os_lines = estimate_lines g grouped_members\<rparr>) grouped)"

definition owner_file :: "symbol \<Rightarrow> string" where
  "owner_file s =
     (let extent = primary_source_extent s in
      if sp_file (sx_location extent) = [] then sp_file (sx_begin extent)
      else sp_file (sx_location extent))"

definition owner_directory :: "symbol \<Rightarrow> string" where
  "owner_directory s = (if owner_file s = [] then [] else parent_path (owner_file s))"

section \<open>The report\<close>

definition collect_public_api :: "graph \<Rightarrow> bool list \<times> provider_reachability list" where
  "collect_public_api g =
     fold (\<lambda>r (flags, retained).
         if \<not> is_public_api (root_kind r) then (flags, retained)
         else
           (flags[root_symbol r := True],
            if is_reportable (sym_scope (g_symbols g ! root_symbol r)) then
              retained @ [\<lparr>pr_symbol = root_symbol r, pr_from = None,
                           pr_evidence = root_evidence r\<rparr>]
            else retained))
       (g_roots g) (replicate (length (g_symbols g)) False, [])"

definition count_scope :: "symbol_scope \<Rightarrow> analysis_report \<Rightarrow> analysis_report" where
  "count_scope scope report =
     (case scope of
        Reportable \<Rightarrow> report\<lparr>ar_reportable_symbols := Suc (ar_reportable_symbols report)\<rparr>
      | Indexed \<Rightarrow> report\<lparr>ar_indexed_symbols := Suc (ar_indexed_symbols report)\<rparr>
      | External_Opaque \<Rightarrow>
          report\<lparr>ar_external_opaque_symbols := Suc (ar_external_opaque_symbols report)\<rparr>
      | Excluded \<Rightarrow> report)"

definition suppressions_of :: "graph \<Rightarrow> nat \<Rightarrow> evidence list" where
  "suppressions_of g i =
     map sup_evidence (filter (\<lambda>p. sup_symbol p = i) (g_suppressions g))"

definition count_reached :: "bool \<Rightarrow> bool \<Rightarrow> analysis_report \<Rightarrow> analysis_report" where
  "count_reached public by_provider report =
     (let r1 = report\<lparr>ar_reachable_symbols := Suc (ar_reachable_symbols report)\<rparr>;
          r2 = (if public then r1
                else r1\<lparr>ar_internal_live_symbols := Suc (ar_internal_live_symbols r1)\<rparr>)
      in if by_provider then
           r2\<lparr>ar_provider_reachable_symbols := Suc (ar_provider_reachable_symbols r2)\<rparr>
         else
           r2\<lparr>ar_structurally_reachable_symbols :=
               Suc (ar_structurally_reachable_symbols r2)\<rparr>)"

definition count_unreached ::
    "graph \<Rightarrow> nat \<Rightarrow> analysis_report \<times> bool list \<Rightarrow> analysis_report \<times> bool list" where
  "count_unreached g i = (\<lambda>(report, suppressed).
     let finding = classify g i (g_symbols g ! i);
         suppressions = suppressions_of g i;
         r1 = report\<lparr>ar_unreachable_symbols := Suc (ar_unreachable_symbols report),
                ar_internal_unreachable_symbols := Suc (ar_internal_unreachable_symbols report)\<rparr>
     in if suppressions = [] then
          (r1\<lparr>ar_actionable_unreachable_symbols := Suc (ar_actionable_unreachable_symbols r1),
              ar_findings := ar_findings r1 @ [finding]\<rparr>, suppressed)
        else
          (r1\<lparr>ar_suppressed_symbols := Suc (ar_suppressed_symbols r1),
              ar_suppressed_findings := ar_suppressed_findings r1 @
                [\<lparr>sf_finding = finding, sf_suppressions = suppressions\<rparr>]\<rparr>,
           suppressed[i := True]))"

text \<open>One iteration of the loop over all symbols.\<close>

definition tally_symbol ::
    "graph \<Rightarrow> reachability_result \<Rightarrow> bool list \<Rightarrow> nat \<Rightarrow>
       analysis_report \<times> bool list \<Rightarrow> analysis_report \<times> bool list" where
  "tally_symbol g result public_root i = (\<lambda>(report, suppressed).
     let s = g_symbols g ! i;
         r1 = count_scope (sym_scope s) report
     in if \<not> sym_defined s \<or> \<not> is_reportable (sym_scope s) \<or> sym_kind s = Synthetic then
          (r1, suppressed)
        else
          let r2 = r1\<lparr>ar_defined_symbols := Suc (ar_defined_symbols r1)\<rparr>;
              r3 = (if public_root ! i
                    then r2\<lparr>ar_public_api_symbols := Suc (ar_public_api_symbols r2)\<rparr> else r2)
          in if rr_reachable result ! i then
               (count_reached (public_root ! i) (rr_provider_reachable result ! i) r3, suppressed)
             else count_unreached g i (r3, suppressed))"

definition collect_provider_reachable ::
    "graph \<Rightarrow> reachability_result \<Rightarrow> provider_reachability list" where
  "collect_provider_reachable g result =
     (let shown = (\<lambda>i. sym_defined (g_symbols g ! i) \<and> is_reportable (sym_scope (g_symbols g ! i)));
          from_edges = fold (\<lambda>e items.
            if \<not> is_provider_edge (edge_kind e) \<or> \<not> rr_reachable result ! edge_from e \<or>
               \<not> rr_provider_reachable result ! edge_to e then items
            else if shown (edge_to e) then
              items @ [\<lparr>pr_symbol = edge_to e, pr_from = Some (edge_from e),
                        pr_evidence = edge_evidence e\<rparr>]
            else items) (g_edges g) [];
          with_roots = fold (\<lambda>r items.
            if \<not> is_provider_root (root_kind r) \<or> \<not> rr_provider_reachable result ! root_symbol r
            then items
            else if shown (root_symbol r) then
              items @ [\<lparr>pr_symbol = root_symbol r, pr_from = None,
                        pr_evidence = root_evidence r\<rparr>]
            else items) (g_roots g) from_edges;
          key = (\<lambda>i. sym_key (g_symbols g ! i))
      in unique_by (\<lambda>p. (pr_symbol p, pr_from p, ev_provider (pr_evidence p),
             ev_reason (pr_evidence p)))
           (sort_key (\<lambda>p. (key (pr_symbol p), case pr_from p of None \<Rightarrow> [] | Some f \<Rightarrow> key f,
               ev_provider (pr_evidence p), ev_reason (pr_evidence p))) with_roots))"

definition order_public_api ::
    "graph \<Rightarrow> provider_reachability list \<Rightarrow> provider_reachability list" where
  "order_public_api g items =
     unique_by (\<lambda>p. (pr_symbol p, ev_provider (pr_evidence p), ev_reason (pr_evidence p)))
       (sort_key (\<lambda>p. (sym_key (g_symbols g ! pr_symbol p), ev_provider (pr_evidence p),
          ev_reason (pr_evidence p))) items)"

text \<open>
  The comparison of findings compares the files as paths for equality but as strings for
  order; that of suppressed findings compares them as strings only.
\<close>

definition finding_before :: "graph \<Rightarrow> finding \<Rightarrow> finding \<Rightarrow> bool" where
  "finding_before g left right =
     (let lhs = g_symbols g ! fi_symbol left; rhs = g_symbols g ! fi_symbol right;
          l = sx_location (primary_source_extent lhs); r = sx_location (primary_source_extent rhs)
      in if path_key (sp_file l) \<noteq> path_key (sp_file r) then sp_file l < sp_file r
         else if sp_line l \<noteq> sp_line r then sp_line l < sp_line r
         else if sym_qualified_name lhs \<noteq> sym_qualified_name rhs
           then sym_qualified_name lhs < sym_qualified_name rhs
         else sym_signature lhs < sym_signature rhs)"

definition location_key :: "graph \<Rightarrow> nat \<Rightarrow> string \<times> nat \<times> string \<times> string" where
  "location_key g i =
     (let s = g_symbols g ! i; l = sx_location (primary_source_extent s)
      in (sp_file l, sp_line l, sym_qualified_name s, sym_signature s))"

definition aggregate_component ::
    "graph \<Rightarrow> reachability_result \<Rightarrow> bool list \<Rightarrow> nat \<Rightarrow> nat list \<Rightarrow> unreachable_aggregate" where
  "aggregate_component g result suppressed component_id sccs =
     (let members = sort_key (\<lambda>m. sym_key (g_symbols g ! am_symbol m))
            (concat (map (\<lambda>scc. map (\<lambda>i.
               \<lparr>am_symbol = i, am_disposition = (if suppressed ! i then Suppressed else Actionable)\<rparr>)
               (rr_unreachable_sccs result ! scc)) sccs))
      in \<lparr>ua_weak_component = component_id, ua_sccs = sccs, ua_edges = [], ua_members = members,
          ua_lines = estimate_lines g members,
          ua_types = summarize_ownership g members sym_class_name,
          ua_files = summarize_ownership g members owner_file,
          ua_directories = summarize_ownership g members owner_directory\<rparr>)"

definition weak_component_by_scc :: "reachability_result \<Rightarrow> nat list" where
  "weak_component_by_scc result =
     fold (\<lambda>(component, sccs) v. fold (\<lambda>scc v. v[scc := component]) sccs v)
       (enumerate 0 (rr_weak_components result))
       (replicate (length (rr_unreachable_sccs result)) 0)"

definition place_edge ::
    "nat list \<Rightarrow> condensation_edge \<Rightarrow> unreachable_aggregate list \<Rightarrow> unreachable_aggregate list" where
  "place_edge weak_of e aggregates =
     (let component = weak_of ! ce_from e in
      if component = weak_of ! ce_to e then
        aggregates[component :=
          (aggregates ! component)\<lparr>ua_edges := ua_edges (aggregates ! component) @ [e]\<rparr>]
      else aggregates)"

definition build_report :: "graph \<Rightarrow> reachability_result \<Rightarrow> analysis_report" where
  "build_report g result =
     (let n = length (g_symbols g);
          (public_root, public_api) = collect_public_api g;
          (tallied, suppressed) = fold (tally_symbol g result public_root) [0..<n]
            (empty_report\<lparr>ar_public_api := public_api\<rparr>, replicate n False);
          aggregates = map (\<lambda>(i, sccs). aggregate_component g result suppressed i sccs)
            (enumerate 0 (rr_weak_components result))
      in tallied\<lparr>
           ar_provider_reachable := collect_provider_reachable g result,
           ar_public_api := order_public_api g (ar_public_api tallied),
           ar_findings := sort_by (finding_before g) (ar_findings tallied),
           ar_suppressed_findings := sort_key (\<lambda>f. location_key g (fi_symbol (sf_finding f)))
             (ar_suppressed_findings tallied),
           ar_unreachable_components := fold (place_edge (weak_component_by_scc result))
             (rr_condensation_edges result) aggregates\<rparr>)"

end
