(* ===== verification/Report_Facts.thy ===== *)
theory Report_Facts
  imports Report Samples
begin

text \<open>
  What the report promises: line estimates count distinct source lines, findings are exactly
  the unreachable definitions, the counters add up, and the aggregates partition the findings
  along the weak components of the condensation.
\<close>

section \<open>Line estimates\<close>

definition range_lines :: "nat \<times> nat \<Rightarrow> nat set" where
  "range_lines r = {fst r..snd r}"

lemma merge_ranges_card:
  assumes "sorted (map fst ((b, e) # ranges))" "\<forall>r \<in> set ((b, e) # ranges). fst r \<le> snd r"
  shows "merge_ranges b e loc ranges =
    loc + card (\<Union>r \<in> set ((b, e) # ranges). range_lines r)"
  using assms
proof (induction b e loc ranges rule: merge_ranges.induct)
  case (1 b e loc)
  then show ?case by (simp add: range_lines_def)
next
  case (2 b e loc f l ranges)
  then have bf: "b \<le> f" and fl: "f \<le> l" and be: "b \<le> e" by auto
  show ?case
  proof (cases "f \<le> e \<or> f - 1 = e")
    case True
    then have "{b..e} \<union> {f..l} = {b..max e l}" using bf fl by auto
    then have "(\<Union>r \<in> set ((b, e) # (f, l) # ranges). range_lines r) =
      (\<Union>r \<in> set ((b, max e l) # ranges). range_lines r)" by (auto simp: range_lines_def)
    with 2 True show ?thesis by (auto simp: le_max_iff_disj)
  next
    case False
    let ?rest = "\<Union>r \<in> set ((f, l) # ranges). range_lines r"
    have "range_lines (b, e) \<inter> ?rest = {}"
      using "2.prems"(1) False by (fastforce simp: range_lines_def)
    then have "card (range_lines (b, e) \<union> ?rest) = card (range_lines (b, e)) + card ?rest"
      by (intro card_Un_disjoint) (auto simp: range_lines_def)
    moreover have "card (range_lines (b, e)) = e - b + 1" using be by (simp add: range_lines_def)
    ultimately show ?thesis using 2 False by simp
  qed
qed

lemma sorted_fst:
  fixes xs :: "('a::linorder \<times> 'b::linorder) list"
  shows "sorted xs \<Longrightarrow> sorted (map fst xs)"
  unfolding sorted_map by (erule sorted_wrt_mono_rel [rotated]) (auto simp: less_eq_prod_def)

lemma file_lines_card:
  assumes "ranges \<noteq> []" "\<forall>r \<in> set ranges. fst r \<le> snd r"
  shows "file_lines ranges loc = loc + card (\<Union>r \<in> set ranges. range_lines r)"
proof -
  from assms(1) obtain b e rest where s: "sort ranges = (b, e) # rest"
    by (metis list.set_cases list.set_sel(1) set_empty set_sort surj_pair list.exhaust)
  have sorted: "sorted (sort ranges)" by simp
  then have "sorted (map fst ((b, e) # rest))"
    unfolding s by (rule sorted_fst)
  moreover have set: "set ((b, e) # rest) = set ranges" by (metis s set_sort)
  ultimately show ?thesis
    using merge_ranges_card [of b e rest loc] assms(2) by (simp add: file_lines_def s del: set_simps)
qed

abbreviation extent_of :: "graph \<Rightarrow> aggregate_member \<Rightarrow> source_extent" where
  "extent_of g m \<equiv> primary_source_extent (g_symbols g ! am_symbol m)"

definition covered_lines :: "graph \<Rightarrow> aggregate_member list \<Rightarrow> (string \<times> nat) set" where
  "covered_lines g members =
     {(file, line). \<exists>m \<in> set members. measured (extent_of g m) \<and>
        file = sp_file (sx_begin (extent_of g m)) \<and>
        sp_line (sx_begin (extent_of g m)) \<le> line \<and> line \<le> sp_line (sx_end (extent_of g m))}"

lemma estimate_fold:
  "fold (\<lambda>m (ranges, unmeasured).
      let extent = extent_of g m in
      if \<not> measured extent then (ranges, Suc unmeasured)
      else (group_push (sp_file (sx_begin extent)) (sp_line (sx_begin extent), sp_line (sx_end extent))
              ranges, unmeasured)) members (r0, u0) =
   (fold (\<lambda>m. group_push (sp_file (sx_begin (extent_of g m)))
        (sp_line (sx_begin (extent_of g m)), sp_line (sx_end (extent_of g m))))
      (filter (\<lambda>m. measured (extent_of g m)) members) r0,
    u0 + length (filter (\<lambda>m. \<not> measured (extent_of g m)) members))"
  by (induction members arbitrary: r0 u0) (auto simp: Let_def)

lemma total_lines:
  fixes m :: "(string \<times> (nat \<times> nat) list) list"
  assumes "group_ok m" "\<forall>(k, rs) \<in> set m. \<forall>r \<in> set rs. fst r \<le> snd r"
  shows "fold (\<lambda>(file, ranges) loc. file_lines ranges loc) m loc =
    loc + card {(k, line). \<exists>rs. (k, rs) \<in> set m \<and> line \<in> (\<Union>r \<in> set rs. range_lines r)}"
  using assms
proof (induction m arbitrary: loc)
  case Nil
  then show ?case by simp
next
  case (Cons p m)
  obtain k rs where p: "p = (k, rs)" by (cases p)
  from Cons.prems have ok: "group_ok m" "\<forall>(k, rs) \<in> set m. \<forall>r \<in> set rs. fst r \<le> snd r"
    and fresh: "k \<notin> fst ` set m" and rs: "rs \<noteq> []" "\<forall>r \<in> set rs. fst r \<le> snd r"
    by (auto simp: group_ok_def p)
  let ?S = "{(k, line). \<exists>rs. (k, rs) \<in> set m \<and> line \<in> (\<Union>r \<in> set rs. range_lines r)}"
  let ?T = "Pair k ` (\<Union>r \<in> set rs. range_lines r)"
  have "?S = (\<Union>(k, rs) \<in> set m. Pair k ` (\<Union>r \<in> set rs. range_lines r))" by auto
  then have "finite ?S" by (auto simp: range_lines_def)
  moreover have "?T \<inter> ?S = {}" using fresh by force
  moreover have "finite ?T" by (auto simp: range_lines_def)
  ultimately have "card (?T \<union> ?S) = card ?T + card ?S" by (intro card_Un_disjoint)
  moreover have "card ?T = card (\<Union>r \<in> set rs. range_lines r)"
    by (intro card_image) (auto simp: inj_on_def)
  moreover have "{(k', line). \<exists>rs'. (k', rs') \<in> set (p # m) \<and> line \<in> (\<Union>r \<in> set rs'. range_lines r)} =
    ?T \<union> ?S" by (auto simp: p)
  ultimately show ?case
    using Cons.IH [OF ok] file_lines_card [OF rs] by (simp add: p)
qed

text \<open>
  Line estimates are exact and never count a line twice: the estimate of a group of
  symbols is the number of distinct lines, file by file, that lie in the range of some
  measurable member, however the ranges overlap, touch or nest; every other member is counted
  as unmeasured.
\<close>
theorem estimate_lines_exact:
  "estimate_lines g members =
     \<lparr>le_loc = card (covered_lines g members),
      le_unmeasured = length (filter (\<lambda>m. \<not> measured (extent_of g m)) members)\<rparr>"
proof -
  let ?ms = "filter (\<lambda>m. measured (extent_of g m)) members"
  let ?file = "\<lambda>m. sp_file (sx_begin (extent_of g m))"
  let ?range = "\<lambda>m. (sp_line (sx_begin (extent_of g m)), sp_line (sx_end (extent_of g m)))"
  let ?m = "fold (\<lambda>m. group_push (?file m) (?range m)) ?ms []"
  have "group_ok ([] :: (string \<times> (nat \<times> nat) list) list)" by (simp add: group_ok_def)
  note fold = group_fold [OF this, of ?file ?range ?ms]
  have ok: "group_ok ?m" and keys: "fst ` set ?m = ?file ` set ?ms" using fold by simp_all
  have entry: "rs = map ?range (filter (\<lambda>m. ?file m = k) ?ms)" if "(k, rs) \<in> set ?m" for k rs
    using group_at_mem [OF _ that] ok conjunct1 [OF conjunct2 [OF fold], of k]
    by (simp add: group_ok_def group_at_def)
  have "\<forall>(k, rs) \<in> set ?m. \<forall>r \<in> set rs. fst r \<le> snd r"
    using entry by (fastforce simp: measured_def)
  from total_lines [OF ok this, of 0]
  have "le_loc (estimate_lines g members) =
    card {(k, line). \<exists>rs. (k, rs) \<in> set ?m \<and> line \<in> (\<Union>r \<in> set rs. range_lines r)}"
    unfolding estimate_lines_def estimate_fold by simp
  also have "{(k, line). \<exists>rs. (k, rs) \<in> set ?m \<and> line \<in> (\<Union>r \<in> set rs. range_lines r)} =
    covered_lines g members"
  proof -
    have "(k, map ?range (filter (\<lambda>m. ?file m = k) ?ms)) \<in> set ?m" if "k \<in> ?file ` set ?ms" for k
    proof -
      from that [folded keys] obtain rs where k: "(k, rs) \<in> set ?m" by auto
      show ?thesis using k unfolding entry [OF k] .
    qed
    note filled = this
    have groups: "(k, rs) \<in> set ?m \<longleftrightarrow>
        k \<in> ?file ` set ?ms \<and> rs = map ?range (filter (\<lambda>m. ?file m = k) ?ms)" for k rs
    proof
      assume k: "(k, rs) \<in> set ?m"
      from imageI [OF this, of fst] have "k \<in> ?file ` set ?ms" unfolding keys by simp
      with entry [OF k] show "k \<in> ?file ` set ?ms \<and>
          rs = map ?range (filter (\<lambda>m. ?file m = k) ?ms)" by blast
    next
      assume "k \<in> ?file ` set ?ms \<and> rs = map ?range (filter (\<lambda>m. ?file m = k) ?ms)"
      then show "(k, rs) \<in> set ?m" using filled [of k] by simp
    qed
    have "(\<exists>rs. (k, rs) \<in> set ?m \<and> line \<in> (\<Union>r \<in> set rs. range_lines r)) \<longleftrightarrow>
      (\<exists>m \<in> set ?ms. ?file m = k \<and> line \<in> range_lines (?range m))" for k line
      unfolding groups by auto
    then show ?thesis unfolding covered_lines_def by (auto simp: range_lines_def)
  qed
  finally show ?thesis
    unfolding estimate_lines_def estimate_fold by simp
qed

section \<open>The loop over all symbols\<close>

text \<open>The definitions the report counts, and how the loop classifies them.\<close>

definition counted :: "graph \<Rightarrow> nat \<Rightarrow> bool" where
  "counted g i \<longleftrightarrow> sym_defined (g_symbols g ! i) \<and> sym_scope (g_symbols g ! i) = Reportable \<and>
     sym_kind (g_symbols g ! i) \<noteq> Synthetic"

definition how_many :: "nat \<Rightarrow> (nat \<Rightarrow> bool) \<Rightarrow> nat" where
  "how_many k P = length (filter P [0..<k])"

lemma how_many_simps [simp]:
  "how_many 0 P = 0"
  "how_many (Suc k) P = (if P k then Suc (how_many k P) else how_many k P)"
  by (simp_all add: how_many_def)

lemma how_many_split:
  assumes "\<And>i. i < k \<Longrightarrow> P i \<longleftrightarrow> Q i \<or> R i" "\<And>i. i < k \<Longrightarrow> \<not> (Q i \<and> R i)"
  shows "how_many k P = how_many k Q + how_many k R"
  using assms by (induction k) (auto simp: less_Suc_eq)

definition tallied ::
    "graph \<Rightarrow> reachability_result \<Rightarrow> bool list \<Rightarrow> provider_reachability list \<Rightarrow> nat \<Rightarrow> analysis_report" where
  "tallied g result public_root retained k =
     (let dead = (\<lambda>i. counted g i \<and> \<not> rr_reachable result ! i);
          live = (\<lambda>i. counted g i \<and> rr_reachable result ! i)
      in empty_report\<lparr>
        ar_public_api := retained,
        ar_reportable_symbols := how_many k (\<lambda>i. sym_scope (g_symbols g ! i) = Reportable),
        ar_indexed_symbols := how_many k (\<lambda>i. sym_scope (g_symbols g ! i) = Indexed),
        ar_external_opaque_symbols := how_many k (\<lambda>i. sym_scope (g_symbols g ! i) = External_Opaque),
        ar_defined_symbols := how_many k (counted g),
        ar_public_api_symbols := how_many k (\<lambda>i. counted g i \<and> public_root ! i),
        ar_reachable_symbols := how_many k live,
        ar_internal_live_symbols := how_many k (\<lambda>i. live i \<and> \<not> public_root ! i),
        ar_provider_reachable_symbols := how_many k (\<lambda>i. live i \<and> rr_provider_reachable result ! i),
        ar_structurally_reachable_symbols :=
          how_many k (\<lambda>i. live i \<and> \<not> rr_provider_reachable result ! i),
        ar_unreachable_symbols := how_many k dead,
        ar_internal_unreachable_symbols := how_many k dead,
        ar_actionable_unreachable_symbols := how_many k (\<lambda>i. dead i \<and> suppressions_of g i = []),
        ar_suppressed_symbols := how_many k (\<lambda>i. dead i \<and> suppressions_of g i \<noteq> []),
        ar_findings := map (\<lambda>i. classify g i (g_symbols g ! i))
          (filter (\<lambda>i. dead i \<and> suppressions_of g i = []) [0..<k]),
        ar_suppressed_findings := map (\<lambda>i. \<lparr>sf_finding = classify g i (g_symbols g ! i),
            sf_suppressions = suppressions_of g i\<rparr>)
          (filter (\<lambda>i. dead i \<and> suppressions_of g i \<noteq> []) [0..<k])\<rparr>)"

definition suppressed_dead :: "graph \<Rightarrow> reachability_result \<Rightarrow> nat \<Rightarrow> bool" where
  "suppressed_dead g result i \<longleftrightarrow>
     counted g i \<and> \<not> rr_reachable result ! i \<and> suppressions_of g i \<noteq> []"

lemma tally_step:
  assumes "k < length flags"
  shows "tally_symbol g result public_root k (tallied g result public_root retained k, flags) =
    (tallied g result public_root retained (Suc k),
     if suppressed_dead g result k then flags[k := True] else flags)"
  by (cases "sym_scope (g_symbols g ! k)")
    (simp_all add: tally_symbol_def tallied_def count_scope_def count_reached_def
      count_unreached_def counted_def suppressed_dead_def empty_report_def Let_def)

lemma tally_fold:
  assumes "k \<le> n"
  shows "\<exists>flags. fold (tally_symbol g result public_root) [0..<k]
      (empty_report\<lparr>ar_public_api := retained\<rparr>, replicate n False) =
        (tallied g result public_root retained k, flags) \<and>
      length flags = n \<and> (\<forall>i < n. flags ! i \<longleftrightarrow> i < k \<and> suppressed_dead g result i)"
  using assms
proof (induction k)
  case 0
  then show ?case by (simp add: tallied_def empty_report_def)
next
  case (Suc k)
  then obtain flags where flags: "fold (tally_symbol g result public_root) [0..<k]
      (empty_report\<lparr>ar_public_api := retained\<rparr>, replicate n False) =
        (tallied g result public_root retained k, flags)"
    "length flags = n" "\<forall>i < n. flags ! i \<longleftrightarrow> i < k \<and> suppressed_dead g result i" by auto
  with Suc.prems tally_step [of k flags g result public_root retained] show ?case
    by (auto simp: nth_list_update less_Suc_eq)
qed

section \<open>Findings\<close>

lemma public_root_fold:
  assumes "\<forall>r \<in> set rs. root_symbol r < length flags"
  shows "length (fst (fold (\<lambda>r (flags, retained).
      if \<not> is_public_api (root_kind r) then (flags, retained)
      else (flags[root_symbol r := True],
        if is_reportable (sym_scope (g_symbols g ! root_symbol r)) then
          retained @ [\<lparr>pr_symbol = root_symbol r, pr_from = None, pr_evidence = root_evidence r\<rparr>]
        else retained)) rs (flags, retained))) = length flags \<and>
    (i < length flags \<longrightarrow> fst (fold (\<lambda>r (flags, retained).
      if \<not> is_public_api (root_kind r) then (flags, retained)
      else (flags[root_symbol r := True],
        if is_reportable (sym_scope (g_symbols g ! root_symbol r)) then
          retained @ [\<lparr>pr_symbol = root_symbol r, pr_from = None, pr_evidence = root_evidence r\<rparr>]
        else retained)) rs (flags, retained)) ! i =
      (flags ! i \<or> (\<exists>r \<in> set rs. is_public_api (root_kind r) \<and> root_symbol r = i)))"
  using assms
  by (induction rs arbitrary: flags retained) (auto simp: nth_list_update)

lemma public_root_flags:
  assumes "graph_wf g" "i < length (g_symbols g)"
  shows "fst (collect_public_api g) ! i \<longleftrightarrow>
    (\<exists>r \<in> set (g_roots g). is_public_api (root_kind r) \<and> root_symbol r = i)"
proof -
  have "\<forall>r \<in> set (g_roots g). root_symbol r < length (replicate (length (g_symbols g)) False)"
    using assms(1) by (simp add: graph_wf_def)
  from public_root_fold [OF this, where g = g and retained = "[]" and i = i] assms(2) show ?thesis by (simp add: collect_public_api_def)
qed

lemma analyzed:
  assumes "analyze_reachability g = Some result"
  shows "rr_reachable result = reachable g" "rr_provider_reachable result = provider_reachable g"
    "unreachable_sccs g = Some (rr_unreachable_sccs result)"
    "rr_condensation_edges result = condensation_edges g (rr_unreachable_sccs result)"
    "rr_weak_components result =
       weak_components (length (rr_unreachable_sccs result)) (rr_condensation_edges result)"
  using assms by (auto simp: analyze_reachability_def Let_def)

lemma tallied_lists:
  "ar_public_api (tallied g result public_root retained k) = retained"
  "ar_findings (tallied g result public_root retained k) =
     map (\<lambda>i. classify g i (g_symbols g ! i))
       (filter (\<lambda>i. counted g i \<and> \<not> rr_reachable result ! i \<and> suppressions_of g i = []) [0..<k])"
  "ar_suppressed_findings (tallied g result public_root retained k) =
     map (\<lambda>i. \<lparr>sf_finding = classify g i (g_symbols g ! i), sf_suppressions = suppressions_of g i\<rparr>)
       (filter (suppressed_dead g result) [0..<k])"
  by (simp_all add: tallied_def Let_def suppressed_dead_def [abs_def])

lemma build_report_unfold:
  obtains flags where
    "build_report g result =
       (tallied g result (fst (collect_public_api g)) (snd (collect_public_api g)) (length (g_symbols g)))
       \<lparr>ar_provider_reachable := collect_provider_reachable g result,
        ar_public_api := order_public_api g (snd (collect_public_api g)),
        ar_findings := sort_by (finding_before g)
          (map (\<lambda>i. classify g i (g_symbols g ! i))
            (filter (\<lambda>i. counted g i \<and> \<not> rr_reachable result ! i \<and> suppressions_of g i = [])
              [0..<length (g_symbols g)])),
        ar_suppressed_findings := sort_key (\<lambda>f. location_key g (fi_symbol (sf_finding f)))
          (map (\<lambda>i. \<lparr>sf_finding = classify g i (g_symbols g ! i),
              sf_suppressions = suppressions_of g i\<rparr>)
            (filter (suppressed_dead g result) [0..<length (g_symbols g)])),
        ar_unreachable_components := fold (place_edge (weak_component_by_scc result))
          (rr_condensation_edges result)
          (map (\<lambda>(i, sccs). aggregate_component g result flags i sccs)
            (enumerate 0 (rr_weak_components result)))\<rparr>"
    "length flags = length (g_symbols g)"
    "\<forall>i < length (g_symbols g). flags ! i \<longleftrightarrow> suppressed_dead g result i"
proof -
  let ?n = "length (g_symbols g)"
  obtain roots retained where c: "collect_public_api g = (roots, retained)" by (cases "collect_public_api g")
  from tally_fold [of ?n ?n g result roots retained] obtain flags where f:
    "fold (tally_symbol g result roots) [0..<?n]
      (empty_report\<lparr>ar_public_api := retained\<rparr>, replicate ?n False) =
        (tallied g result roots retained ?n, flags)"
    "length flags = ?n" "\<forall>i < ?n. flags ! i \<longleftrightarrow> i < ?n \<and> suppressed_dead g result i" by auto
  show thesis
    by (rule that [of flags])
      (use f in \<open>simp_all add: build_report_def c Let_def tallied_lists\<close>)
qed

lemma fi_symbol_classify [simp]: "fi_symbol (classify g i s) = i"
  by (simp add: classify_def Let_def split: prod.split)

lemma classify_escapes:
  "fold (\<lambda>x (escaped, evidence).
      if esc_symbol x \<noteq> i then (escaped, evidence)
      else (True, evidence @ [\<lparr>fe_kind = Escape_Evidence, fe_evidence = esc_evidence x,
        fe_escape_kind = Some (esc_kind x), fe_from = esc_from x\<rparr>])) xs (b, evidence) =
   (b \<or> (\<exists>x \<in> set xs. esc_symbol x = i),
    evidence @ map (\<lambda>x. \<lparr>fe_kind = Escape_Evidence, fe_evidence = esc_evidence x,
        fe_escape_kind = Some (esc_kind x), fe_from = esc_from x\<rparr>)
      (filter (\<lambda>x. esc_symbol x = i) xs))"
  by (induction xs arbitrary: b evidence) auto

lemma classify_dead:
  "fi_classification (classify g i s) = Dead \<longleftrightarrow>
     sym_internal_linkage s \<and> \<not> sym_is_virtual s \<and> (\<forall>x \<in> set (g_escapes g). esc_symbol x \<noteq> i)"
  by (auto simp: classify_def classify_escapes Let_def)

lemma candidate_counted:
  assumes "analyze_reachability g = Some result"
  shows "is_candidate g (reachable g) i \<longleftrightarrow>
    i < length (g_symbols g) \<and> counted g i \<and> \<not> rr_reachable result ! i"
  using analyzed(1) [OF assms] by (auto simp: is_candidate_def counted_def)

lemma suppressions_of_empty: "suppressions_of g i = [] \<longleftrightarrow> (\<forall>p \<in> set (g_suppressions g). sup_symbol p \<noteq> i)"
  by (auto simp: suppressions_of_def filter_empty_conv)

lemma report_finding_lists:
  assumes "analyze_reachability g = Some result"
  shows "mset (ar_findings (build_report g result)) =
      mset (map (\<lambda>i. classify g i (g_symbols g ! i))
        (filter (\<lambda>i. counted g i \<and> \<not> rr_reachable result ! i \<and> suppressions_of g i = [])
          [0..<length (g_symbols g)]))"
    and "mset (ar_suppressed_findings (build_report g result)) =
      mset (map (\<lambda>i. \<lparr>sf_finding = classify g i (g_symbols g ! i), sf_suppressions = suppressions_of g i\<rparr>)
        (filter (suppressed_dead g result) [0..<length (g_symbols g)]))"
  by (rule build_report_unfold [of g result], simp)+

lemma reachable_iff:
  assumes "graph_wf g" "i < length (g_symbols g)"
  shows "reachable g ! i \<longleftrightarrow> (\<exists>r \<in> set (g_roots g). (root_symbol r, i) \<in> (call_arcs g)\<^sup>*)"
  using assms reachable_flagged [OF assms(1)] by (auto simp: nth_flagged start_symbols_def)

text \<open>A definition the report must account for: no root has a path to it.\<close>

definition unreachable_definition :: "graph \<Rightarrow> nat \<Rightarrow> bool" where
  "unreachable_definition g i \<longleftrightarrow> i < length (g_symbols g) \<and> counted g i \<and>
     \<not> (\<exists>r \<in> set (g_roots g). (root_symbol r, i) \<in> (call_arcs g)\<^sup>*)"

definition is_suppressed :: "graph \<Rightarrow> nat \<Rightarrow> bool" where
  "is_suppressed g i \<longleftrightarrow> (\<exists>p \<in> set (g_suppressions g). sup_symbol p = i)"

lemma unreachable_definition_result:
  assumes "graph_wf g" "analyze_reachability g = Some result"
  shows "unreachable_definition g i \<longleftrightarrow>
      i < length (g_symbols g) \<and> counted g i \<and> \<not> rr_reachable result ! i"
    and "suppressed_dead g result i \<longleftrightarrow>
      counted g i \<and> \<not> rr_reachable result ! i \<and> is_suppressed g i"
    and "suppressions_of g i = [] \<longleftrightarrow> \<not> is_suppressed g i"
  using reachable_iff [OF assms(1), of i] analyzed(1) [OF assms(2)] suppressions_of_empty [of g i]
  by (auto simp: unreachable_definition_def suppressed_dead_def is_suppressed_def)

lemma report_findings_sets:
  assumes "graph_wf g" "analyze_reachability g = Some result"
  shows "set (ar_findings (build_report g result)) =
      (\<lambda>i. classify g i (g_symbols g ! i)) ` {i. unreachable_definition g i \<and> \<not> is_suppressed g i}"
    and "set (ar_suppressed_findings (build_report g result)) =
      (\<lambda>i. \<lparr>sf_finding = classify g i (g_symbols g ! i), sf_suppressions = suppressions_of g i\<rparr>) `
        {i. unreachable_definition g i \<and> is_suppressed g i}"
proof -
  note lists = report_finding_lists [OF assms(2), THEN mset_eq_setD]
  note result = unreachable_definition_result [OF assms]
  show "set (ar_findings (build_report g result)) =
      (\<lambda>i. classify g i (g_symbols g ! i)) ` {i. unreachable_definition g i \<and> \<not> is_suppressed g i}"
    unfolding lists by (rule set_eqI) (auto simp: result)
  show "set (ar_suppressed_findings (build_report g result)) =
      (\<lambda>i. \<lparr>sf_finding = classify g i (g_symbols g ! i), sf_suppressions = suppressions_of g i\<rparr>) `
        {i. unreachable_definition g i \<and> is_suppressed g i}"
    unfolding lists by (rule set_eqI) (auto simp: result)
qed

lemma report_findings_distinct:
  assumes "analyze_reachability g = Some result"
  shows "distinct (map fi_symbol (ar_findings (build_report g result)))"
    and "distinct (map (\<lambda>f. fi_symbol (sf_finding f)) (ar_suppressed_findings (build_report g result)))"
proof -
  note lists = report_finding_lists [OF assms]
  from arg_cong [OF lists(1), of "image_mset fi_symbol"]
  have "mset (map fi_symbol (ar_findings (build_report g result))) =
    mset (filter (\<lambda>i. counted g i \<and> \<not> rr_reachable result ! i \<and> suppressions_of g i = [])
      [0..<length (g_symbols g)])"
    by (simp add: image_mset.compositionality o_def)
  then show "distinct (map fi_symbol (ar_findings (build_report g result)))"
    by (metis distinct_filter distinct_upt mset_eq_imp_distinct_iff)
  from arg_cong [OF lists(2), of "image_mset (\<lambda>f. fi_symbol (sf_finding f))"]
  have "mset (map (\<lambda>f. fi_symbol (sf_finding f)) (ar_suppressed_findings (build_report g result))) =
    mset (filter (suppressed_dead g result) [0..<length (g_symbols g)])"
    by (simp add: image_mset.compositionality o_def)
  then show "distinct (map (\<lambda>f. fi_symbol (sf_finding f)) (ar_suppressed_findings (build_report g result)))"
    by (metis distinct_filter distinct_upt mset_eq_imp_distinct_iff)
qed

text \<open>
  C25: The report accounts for every unreachable definition exactly once: the findings are the
  classified definitions that no root reaches and no policy suppresses, the suppressed findings
  those that a policy suppresses, and nothing else is listed. A definition is called dead only
  if it has internal linkage, is not virtual and its address never escapes.
\<close>
theorem report_findings_exact:
  assumes "graph_wf g" "analyze_reachability g = Some result"
  shows "distinct (map fi_symbol (ar_findings (build_report g result))) \<and>
    distinct (map (\<lambda>f. fi_symbol (sf_finding f)) (ar_suppressed_findings (build_report g result))) \<and>
    set (ar_findings (build_report g result)) =
      (\<lambda>i. classify g i (g_symbols g ! i)) ` {i. unreachable_definition g i \<and> \<not> is_suppressed g i} \<and>
    set (ar_suppressed_findings (build_report g result)) =
      (\<lambda>i. \<lparr>sf_finding = classify g i (g_symbols g ! i), sf_suppressions = suppressions_of g i\<rparr>) `
        {i. unreachable_definition g i \<and> is_suppressed g i} \<and>
    (\<forall>f \<in> set (ar_findings (build_report g result)). fi_classification f = Dead \<longrightarrow>
       sym_internal_linkage (g_symbols g ! fi_symbol f) \<and>
       \<not> sym_is_virtual (g_symbols g ! fi_symbol f) \<and>
       (\<forall>x \<in> set (g_escapes g). esc_symbol x \<noteq> fi_symbol f))"
proof -
  have "\<forall>f \<in> set (ar_findings (build_report g result)). fi_classification f = Dead \<longrightarrow>
       sym_internal_linkage (g_symbols g ! fi_symbol f) \<and>
       \<not> sym_is_virtual (g_symbols g ! fi_symbol f) \<and>
       (\<forall>x \<in> set (g_escapes g). esc_symbol x \<noteq> fi_symbol f)"
    unfolding report_findings_sets(1) [OF assms] by (auto simp: classify_dead)
  then show ?thesis
    using report_findings_distinct [OF assms(2)] report_findings_sets [OF assms] by blast
qed

definition sample_result :: reachability_result where
  "sample_result = \<lparr>rr_reachable = [True, True, False, False],
     rr_structurally_reachable = [True, True, False, False],
     rr_provider_reachable = [False, False, False, False],
     rr_unreachable_sccs = [[2, 3]], rr_condensation_edges = [], rr_weak_components = [[0]]\<rparr>"

lemma sample_analysis: "analyze_reachability sample_program = Some sample_result"
  by code_simp

lemma report_findings_exact_witness:
  "distinct (map fi_symbol (ar_findings (build_report sample_program sample_result))) \<and>
   length (ar_findings (build_report sample_program sample_result)) = 2"
proof (rule conjI)
  show "distinct (map fi_symbol (ar_findings (build_report sample_program sample_result)))"
    using report_findings_exact [OF sample_program_wf sample_analysis] by blast
qed code_simp

section \<open>Counters\<close>

lemma how_many_card: "how_many k P = card {i. i < k \<and> P i}"
proof -
  have "how_many k P = card (set (filter P [0..<k]))"
    by (simp add: how_many_def distinct_card [of "filter P [0..<k]"] del: set_filter)
  moreover have "set (filter P [0..<k]) = {i. i < k \<and> P i}" by auto
  ultimately show ?thesis by simp
qed

lemma public_root_reached:
  assumes "graph_wf g" "analyze_reachability g = Some result" "i < length (g_symbols g)"
    and "fst (collect_public_api g) ! i"
  shows "rr_reachable result ! i"
  using assms public_root_flags [OF assms(1,3)] reachable_iff [OF assms(1,3)] analyzed(1) [OF assms(2)]
  by auto

lemma tallied_counters:
  "ar_reportable_symbols (tallied g result roots retained k) =
     how_many k (\<lambda>i. sym_scope (g_symbols g ! i) = Reportable)"
  "ar_indexed_symbols (tallied g result roots retained k) =
     how_many k (\<lambda>i. sym_scope (g_symbols g ! i) = Indexed)"
  "ar_external_opaque_symbols (tallied g result roots retained k) =
     how_many k (\<lambda>i. sym_scope (g_symbols g ! i) = External_Opaque)"
  "ar_defined_symbols (tallied g result roots retained k) =
     how_many k (counted g)"
  "ar_reachable_symbols (tallied g result roots retained k) =
     how_many k (\<lambda>i. counted g i \<and> rr_reachable result ! i)"
  "ar_structurally_reachable_symbols (tallied g result roots retained k) =
     how_many k (\<lambda>i. (counted g i \<and> rr_reachable result ! i) \<and> \<not> rr_provider_reachable result ! i)"
  "ar_provider_reachable_symbols (tallied g result roots retained k) =
     how_many k (\<lambda>i. (counted g i \<and> rr_reachable result ! i) \<and> rr_provider_reachable result ! i)"
  "ar_unreachable_symbols (tallied g result roots retained k) =
     how_many k (\<lambda>i. counted g i \<and> \<not> rr_reachable result ! i)"
  "ar_actionable_unreachable_symbols (tallied g result roots retained k) =
     how_many k (\<lambda>i. (counted g i \<and> \<not> rr_reachable result ! i) \<and> suppressions_of g i = [])"
  "ar_suppressed_symbols (tallied g result roots retained k) =
     how_many k (\<lambda>i. (counted g i \<and> \<not> rr_reachable result ! i) \<and> suppressions_of g i \<noteq> [])"
  "ar_public_api_symbols (tallied g result roots retained k) =
     how_many k (\<lambda>i. counted g i \<and> roots ! i)"
  "ar_internal_live_symbols (tallied g result roots retained k) =
     how_many k (\<lambda>i. (counted g i \<and> rr_reachable result ! i) \<and> \<not> roots ! i)"
  "ar_internal_unreachable_symbols (tallied g result roots retained k) =
     how_many k (\<lambda>i. counted g i \<and> \<not> rr_reachable result ! i)"
  by (simp_all add: tallied_def Let_def empty_report_def conj_assoc)

lemma report_counters:
  "ar_reportable_symbols (build_report g result) =
     how_many (length (g_symbols g)) (\<lambda>i. sym_scope (g_symbols g ! i) = Reportable)"
  "ar_indexed_symbols (build_report g result) =
     how_many (length (g_symbols g)) (\<lambda>i. sym_scope (g_symbols g ! i) = Indexed)"
  "ar_external_opaque_symbols (build_report g result) =
     how_many (length (g_symbols g)) (\<lambda>i. sym_scope (g_symbols g ! i) = External_Opaque)"
  "ar_defined_symbols (build_report g result) =
     how_many (length (g_symbols g)) (counted g)"
  "ar_reachable_symbols (build_report g result) =
     how_many (length (g_symbols g)) (\<lambda>i. counted g i \<and> rr_reachable result ! i)"
  "ar_structurally_reachable_symbols (build_report g result) =
     how_many (length (g_symbols g)) (\<lambda>i. (counted g i \<and> rr_reachable result ! i) \<and> \<not> rr_provider_reachable result ! i)"
  "ar_provider_reachable_symbols (build_report g result) =
     how_many (length (g_symbols g)) (\<lambda>i. (counted g i \<and> rr_reachable result ! i) \<and> rr_provider_reachable result ! i)"
  "ar_unreachable_symbols (build_report g result) =
     how_many (length (g_symbols g)) (\<lambda>i. counted g i \<and> \<not> rr_reachable result ! i)"
  "ar_actionable_unreachable_symbols (build_report g result) =
     how_many (length (g_symbols g)) (\<lambda>i. (counted g i \<and> \<not> rr_reachable result ! i) \<and> suppressions_of g i = [])"
  "ar_suppressed_symbols (build_report g result) =
     how_many (length (g_symbols g)) (\<lambda>i. (counted g i \<and> \<not> rr_reachable result ! i) \<and> suppressions_of g i \<noteq> [])"
  "ar_public_api_symbols (build_report g result) =
     how_many (length (g_symbols g)) (\<lambda>i. counted g i \<and> fst (collect_public_api g) ! i)"
  "ar_internal_live_symbols (build_report g result) =
     how_many (length (g_symbols g)) (\<lambda>i. (counted g i \<and> rr_reachable result ! i) \<and> \<not> fst (collect_public_api g) ! i)"
  "ar_internal_unreachable_symbols (build_report g result) =
     how_many (length (g_symbols g)) (\<lambda>i. counted g i \<and> \<not> rr_reachable result ! i)"
  by (rule build_report_unfold [of g result], simp add: tallied_counters)+

text \<open>
  The summary adds up. Every graph symbol is counted in one scope; the reported definitions
  are the reachable and the unreachable ones; the reachable ones are kept alive structurally or
  by a provider; the unreachable ones are listed as actionable or as suppressed; and public API,
  internal live and internal unreachable definitions are again all of them, because a public
  root is always reachable.
\<close>
theorem report_counters_consistent:
  assumes "graph_wf g" "analyze_reachability g = Some result" "report = build_report g result"
  shows "ar_defined_symbols report = card {i. i < length (g_symbols g) \<and> counted g i} \<and>
    ar_unreachable_symbols report = card {i. unreachable_definition g i} \<and>
    ar_reportable_symbols report + ar_indexed_symbols report + ar_external_opaque_symbols report =
      length (g_symbols g) \<and>
    ar_defined_symbols report = ar_reachable_symbols report + ar_unreachable_symbols report \<and>
    ar_reachable_symbols report =
      ar_structurally_reachable_symbols report + ar_provider_reachable_symbols report \<and>
    ar_unreachable_symbols report =
      ar_actionable_unreachable_symbols report + ar_suppressed_symbols report \<and>
    ar_actionable_unreachable_symbols report = length (ar_findings report) \<and>
    ar_suppressed_symbols report = length (ar_suppressed_findings report) \<and>
    ar_defined_symbols report = ar_public_api_symbols report + ar_internal_live_symbols report +
      ar_internal_unreachable_symbols report"
proof -
  let ?n = "length (g_symbols g)"
  let ?roots = "fst (collect_public_api g)"
  let ?live = "\<lambda>i. counted g i \<and> rr_reachable result ! i"
  let ?dead = "\<lambda>i. counted g i \<and> \<not> rr_reachable result ! i"
  have scopes: "?n = how_many ?n (\<lambda>i. sym_scope (g_symbols g ! i) = Reportable) +
      how_many ?n (\<lambda>i. sym_scope (g_symbols g ! i) = Indexed) +
      how_many ?n (\<lambda>i. sym_scope (g_symbols g ! i) = External_Opaque)"
  proof -
    have not_excluded: "sym_scope (g_symbols g ! i) \<noteq> Excluded" if "i < ?n" for i
      using assms(1) that by (simp add: graph_wf_def)
    have "?n = how_many ?n (\<lambda>i. True)" by (simp add: how_many_def)
    also have "\<dots> = how_many ?n (\<lambda>i. sym_scope (g_symbols g ! i) \<noteq> External_Opaque) +
        how_many ?n (\<lambda>i. sym_scope (g_symbols g ! i) = External_Opaque)"
      by (rule how_many_split) auto
    also have "how_many ?n (\<lambda>i. sym_scope (g_symbols g ! i) \<noteq> External_Opaque) =
        how_many ?n (\<lambda>i. sym_scope (g_symbols g ! i) = Reportable) +
        how_many ?n (\<lambda>i. sym_scope (g_symbols g ! i) = Indexed)"
      by (rule how_many_split) (use not_excluded symbol_scope.exhaust in auto)
    finally show ?thesis .
  qed
  have public: "how_many ?n ?live =
      how_many ?n (\<lambda>i. counted g i \<and> ?roots ! i) + how_many ?n (\<lambda>i. ?live i \<and> \<not> ?roots ! i)"
    by (rule how_many_split) (use public_root_reached [OF assms(1,2)] in auto)
  have split: "how_many ?n (counted g) = how_many ?n ?live + how_many ?n ?dead"
    "how_many ?n ?live = how_many ?n (\<lambda>i. ?live i \<and> \<not> rr_provider_reachable result ! i) +
       how_many ?n (\<lambda>i. ?live i \<and> rr_provider_reachable result ! i)"
    "how_many ?n ?dead = how_many ?n (\<lambda>i. ?dead i \<and> suppressions_of g i = []) +
       how_many ?n (\<lambda>i. ?dead i \<and> suppressions_of g i \<noteq> [])"
    by (rule how_many_split; blast)+
  have cards: "how_many ?n (counted g) = card {i. i < ?n \<and> counted g i}"
    "how_many ?n ?dead = card {i. unreachable_definition g i}"
    by (simp_all add: how_many_card unreachable_definition_result [OF assms(1,2)])
  from report_finding_lists [OF assms(2), THEN mset_eq_length]
  have "length (ar_findings report) = how_many ?n (\<lambda>i. ?dead i \<and> suppressions_of g i = [])"
    "length (ar_suppressed_findings report) = how_many ?n (\<lambda>i. ?dead i \<and> suppressions_of g i \<noteq> [])"
    by (simp_all add: how_many_def assms(3) suppressed_dead_def [abs_def])
  then show ?thesis
    using scopes public split cards
    by (simp add: assms(3) report_counters conj_assoc)
qed

lemma report_counters_consistent_witness:
  "ar_defined_symbols (build_report sample_program sample_result) =
     ar_reachable_symbols (build_report sample_program sample_result) +
     ar_unreachable_symbols (build_report sample_program sample_result)"
  using report_counters_consistent [OF sample_program_wf sample_analysis refl] by blast

section \<open>Aggregates\<close>

lemma place_edges:
  "length (fold (place_edge w) es aggregates) = length aggregates \<and>
   (i < length aggregates \<longrightarrow> fold (place_edge w) es aggregates ! i =
      (aggregates ! i)\<lparr>ua_edges := ua_edges (aggregates ! i) @
         filter (\<lambda>e. w ! ce_from e = i \<and> w ! ce_to e = i) es\<rparr>)"
proof (induction es arbitrary: aggregates)
  case Nil
  then show ?case by simp
next
  case (Cons e es)
  let ?a = "place_edge w e aggregates"
  have "length ?a = length aggregates" by (simp add: place_edge_def Let_def)
  moreover have "i < length aggregates \<longrightarrow> ?a ! i = (aggregates ! i)\<lparr>ua_edges := ua_edges (aggregates ! i) @
      (if w ! ce_from e = i \<and> w ! ce_to e = i then [e] else [])\<rparr>"
    by (auto simp: place_edge_def Let_def nth_list_update)
  ultimately show ?case using Cons.IH [of ?a] by auto
qed

lemma edges_by_component:
  "mset (concat (map (\<lambda>i. filter (\<lambda>e. w ! ce_from e = i \<and> w ! ce_to e = i) es) [0..<k])) =
   mset (filter (\<lambda>e. w ! ce_from e = w ! ce_to e \<and> w ! ce_from e < k) es)"
proof (induction k)
  case (Suc k)
  have "mset (filter (\<lambda>e. w ! ce_from e = w ! ce_to e \<and> w ! ce_from e < Suc k) es) =
    mset (filter (\<lambda>e. w ! ce_from e = w ! ce_to e \<and> w ! ce_from e < k) es) +
    mset (filter (\<lambda>e. w ! ce_from e = k \<and> w ! ce_to e = k) es)"
    by (induction es) auto
  with Suc show ?case by simp
qed simp

lemma weak_component_index:
  assumes "distinct (concat (rr_weak_components result))"
    and "set (concat (rr_weak_components result)) = {..<length (rr_unreachable_sccs result)}"
    and "i < length (rr_unreachable_sccs result)"
  shows "weak_component_by_scc result ! i = x \<longleftrightarrow>
    x < length (rr_weak_components result) \<and> i \<in> set (rr_weak_components result ! x)"
proof -
  have "weak_component_by_scc result ! i = x \<longleftrightarrow>
    (\<exists>k < length (rr_weak_components result). i \<in> set (rr_weak_components result ! k) \<and> x = 0 + k) \<or>
    i \<notin> set (concat (rr_weak_components result)) \<and>
      x = replicate (length (rr_unreachable_sccs result)) 0 ! i"
    unfolding weak_component_by_scc_def
    using write_components [OF assms(1), where h = "\<lambda>k. k" and m = 0 and i = i and x = x
        and v = "replicate (length (rr_unreachable_sccs result)) 0"] assms(3) by simp
  moreover have "i \<in> set (concat (rr_weak_components result))" using assms(2,3) by simp
  ultimately show ?thesis by auto
qed

lemma analysis_shape:
  assumes "graph_wf g" "analyze_reachability g = Some result"
  shows "distinct (concat (rr_unreachable_sccs result))"
    and "set (concat (rr_unreachable_sccs result)) = {i. unreachable_definition g i}"
    and "distinct (concat (rr_weak_components result))"
    and "set (concat (rr_weak_components result)) = {..<length (rr_unreachable_sccs result)}"
    and "e \<in> set (rr_condensation_edges result) \<Longrightarrow>
      ce_from e < length (rr_unreachable_sccs result) \<and> ce_to e < length (rr_unreachable_sccs result) \<and>
      weak_component_by_scc result ! ce_from e = weak_component_by_scc result ! ce_to e"
proof -
  note a = analyzed [OF assms(2)]
  from unreachable_sccs_spec [OF assms(1)] a(3)
  show d: "distinct (concat (rr_unreachable_sccs result))"
    and "set (concat (rr_unreachable_sccs result)) = {i. unreachable_definition g i}"
    using candidate_counted [OF assms(2)] unreachable_definition_result(1) [OF assms] by auto
  note ok = weak_ok_condensation [OF assms(1) a(3), folded a(4)]
  from weak_components_spec [OF ok] a(5)
  show w: "distinct (concat (rr_weak_components result))"
    "set (concat (rr_weak_components result)) = {..<length (rr_unreachable_sccs result)}" by simp_all
  assume e: "e \<in> set (rr_condensation_edges result)"
  with ok have r: "ce_from e < length (rr_unreachable_sccs result)"
    "ce_to e < length (rr_unreachable_sccs result)" by (auto simp: weak_ok_def)
  have "(ce_from e, ce_to e) \<in> (joined (rr_condensation_edges result))\<^sup>*"
    using e by (auto simp: joined_def)
  with weak_classes [OF ok r] a(5) obtain c where
    c: "c \<in> set (rr_weak_components result)" "ce_from e \<in> set c" "ce_to e \<in> set c" by auto
  then obtain x where x: "x < length (rr_weak_components result)" "rr_weak_components result ! x = c"
    by (metis in_set_conv_nth)
  have "weak_component_by_scc result ! ce_from e = x"
    using weak_component_index [OF w r(1), of x] c x by simp
  moreover have "weak_component_by_scc result ! ce_to e = x"
    using weak_component_index [OF w r(2), of x] c x by simp
  ultimately show "ce_from e < length (rr_unreachable_sccs result) \<and>
      ce_to e < length (rr_unreachable_sccs result) \<and>
      weak_component_by_scc result ! ce_from e = weak_component_by_scc result ! ce_to e"
    using r by simp
qed

lemma mset_concat_map_concat:
  "mset (concat (map (\<lambda>c. concat (map f c)) cs)) = mset (concat (map f (concat cs)))"
  by (induction cs) simp_all

lemma aggregate_symbols:
  "mset (map am_symbol (ua_members (aggregate_component g result flags k sccs))) =
   mset (concat (map ((!) (rr_unreachable_sccs result)) sccs))"
  "m \<in> set (ua_members (aggregate_component g result flags k sccs)) \<Longrightarrow>
     am_disposition m = (if flags ! am_symbol m then Suppressed else Actionable)"
proof -
  have "mset (map am_symbol (sort_key f xs)) = mset (map am_symbol xs)"
    for f :: "aggregate_member \<Rightarrow> string" and xs by simp
  moreover have "map am_symbol (concat (map (\<lambda>scc. map (\<lambda>i. \<lparr>am_symbol = i,
      am_disposition = (if flags ! i then Suppressed else Actionable)\<rparr>) (sccs' ! scc)) sccs)) =
    concat (map ((!) sccs') sccs)" for sccs'
    by (simp add: map_concat o_def)
  ultimately show "mset (map am_symbol (ua_members (aggregate_component g result flags k sccs))) =
      mset (concat (map ((!) (rr_unreachable_sccs result)) sccs))"
    by (simp only: aggregate_component_def Let_def unreachable_aggregate.simps)
  show "m \<in> set (ua_members (aggregate_component g result flags k sccs)) \<Longrightarrow>
      am_disposition m = (if flags ! am_symbol m then Suppressed else Actionable)"
    by (auto simp: aggregate_component_def Let_def)
qed

lemma mset_concat_cong:
  "list_all2 (\<lambda>x y. mset x = mset y) xs ys \<Longrightarrow> mset (concat xs) = mset (concat ys)"
  by (induction rule: list_all2_induct) auto

lemma report_aggregates_nth:
  obtains flags where
    "length flags = length (g_symbols g)"
    "\<forall>i < length (g_symbols g). flags ! i \<longleftrightarrow> suppressed_dead g result i"
    "length (ar_unreachable_components (build_report g result)) = length (rr_weak_components result)"
    "\<And>k. k < length (rr_weak_components result) \<Longrightarrow>
       ar_unreachable_components (build_report g result) ! k =
       (aggregate_component g result flags k (rr_weak_components result ! k))
         \<lparr>ua_edges := filter (\<lambda>e. weak_component_by_scc result ! ce_from e = k \<and>
            weak_component_by_scc result ! ce_to e = k) (rr_condensation_edges result)\<rparr>"
proof (rule build_report_unfold [of g result], goal_cases)
  case (1 flags)
  let ?aggs = "map (\<lambda>(i, sccs). aggregate_component g result flags i sccs)
    (enumerate 0 (rr_weak_components result))"
  have "ua_edges (aggregate_component g result flags k c) = []" for k c
    by (simp add: aggregate_component_def Let_def)
  then show ?case
    using 1(2-4) place_edges [of "weak_component_by_scc result" "rr_condensation_edges result" ?aggs]
    by (intro 1(1) [of flags]) (simp_all add: nth_enumerate_eq)
qed

lemma aggregate_members_partition:
  assumes "graph_wf g" "analyze_reachability g = Some result"
    and "aggregates = ar_unreachable_components (build_report g result)"
  shows "map ua_sccs aggregates = rr_weak_components result"
    and "distinct (concat (map (\<lambda>a. map am_symbol (ua_members a)) aggregates))"
    and "set (concat (map (\<lambda>a. map am_symbol (ua_members a)) aggregates)) = {i. unreachable_definition g i}"
    and "\<forall>a \<in> set aggregates. \<forall>m \<in> set (ua_members a).
       am_disposition m = (if is_suppressed g (am_symbol m) then Suppressed else Actionable)"
    and "length aggregates = length (rr_weak_components result)"
    and "k < length aggregates \<Longrightarrow> ua_weak_component (aggregates ! k) = k"
proof -
  note shape = analysis_shape [OF assms(1,2)]
  let ?weak = "rr_weak_components result" and ?sccs = "rr_unreachable_sccs result"
  let ?w = "weak_component_by_scc result" and ?edges = "rr_condensation_edges result"
  let ?on = "\<lambda>k. filter (\<lambda>e. ?w ! ce_from e = k \<and> ?w ! ce_to e = k) ?edges"
  obtain flags where "length flags = length (g_symbols g)"
    and flags: "\<forall>i < length (g_symbols g). flags ! i \<longleftrightarrow> suppressed_dead g result i"
    and len: "length aggregates = length ?weak"
    and nth: "\<And>k. k < length ?weak \<Longrightarrow> aggregates ! k =
      (aggregate_component g result flags k (?weak ! k))\<lparr>ua_edges := ?on k\<rparr>"
    unfolding assms(3) by (rule report_aggregates_nth [of g result]) blast
  have sccs: "map ua_sccs aggregates = ?weak"
    by (rule nth_equalityI) (simp_all add: len nth aggregate_component_def Let_def)
  have "mset (concat (map (\<lambda>a. map am_symbol (ua_members a)) aggregates)) =
      mset (concat (map (\<lambda>c. concat (map ((!) ?sccs) c)) ?weak))"
    by (rule mset_concat_cong)
      (simp add: list_all2_conv_all_nth len nth aggregate_symbols(1) [unfolded mset_map])
  also have "\<dots> = mset (concat (map ((!) ?sccs) (concat ?weak)))" by (rule mset_concat_map_concat)
  also have "\<dots> = sum_mset (image_mset mset (image_mset ((!) ?sccs) (mset (concat ?weak))))"
    by (simp only: mset_concat_sum mset_map)
  also have "mset (concat ?weak) = mset [0..<length ?sccs]"
    using shape(3,4) set_eq_iff_mset_eq_distinct [OF shape(3), of "[0..<length ?sccs]"]
    by (simp add: atLeast0LessThan)
  also have "sum_mset (image_mset mset (image_mset ((!) ?sccs) (mset [0..<length ?sccs]))) =
      mset (concat ?sccs)"
    by (simp only: mset_concat_sum flip: mset_map) (simp only: map_nth)
  finally have members: "mset (concat (map (\<lambda>a. map am_symbol (ua_members a)) aggregates)) =
      mset (concat ?sccs)" .
  then have sym: "distinct (concat (map (\<lambda>a. map am_symbol (ua_members a)) aggregates))"
    "set (concat (map (\<lambda>a. map am_symbol (ua_members a)) aggregates)) = {i. unreachable_definition g i}"
    using shape(1) mset_eq_imp_distinct_iff apply blast
    using mset_eq_setD [OF members] shape(2) by simp
  have disp: "am_disposition m = (if is_suppressed g (am_symbol m) then Suppressed else Actionable)"
    if a: "a \<in> set aggregates" "m \<in> set (ua_members a)" for a m
  proof -
    from a(1) len obtain k where k: "k < length ?weak" "a = aggregates ! k" by (metis in_set_conv_nth)
    with a(2) nth have "m \<in> set (ua_members (aggregate_component g result flags k (?weak ! k)))" by simp
    note d = aggregate_symbols(2) [OF this]
    have "am_symbol m \<in> set (concat (map (\<lambda>a. map am_symbol (ua_members a)) aggregates))" using a by auto
    then have u: "unreachable_definition g (am_symbol m)" using sym(2) by blast
    then have "flags ! am_symbol m \<longleftrightarrow> suppressed_dead g result (am_symbol m)"
      using flags by (simp add: unreachable_definition_def)
    with d u show ?thesis using unreachable_definition_result [OF assms(1,2), of "am_symbol m"] by simp
  qed
  show "map ua_sccs aggregates = ?weak" by (rule sccs)
  show "distinct (concat (map (\<lambda>a. map am_symbol (ua_members a)) aggregates))" by (rule sym)
  show "set (concat (map (\<lambda>a. map am_symbol (ua_members a)) aggregates)) = {i. unreachable_definition g i}"
    by (rule sym)
  show "\<forall>a \<in> set aggregates. \<forall>m \<in> set (ua_members a).
       am_disposition m = (if is_suppressed g (am_symbol m) then Suppressed else Actionable)"
    using disp by blast
  show "length aggregates = length ?weak" by (rule len)
  show "ua_weak_component (aggregates ! k) = k" if "k < length aggregates"
    using that by (simp add: len nth aggregate_component_def Let_def)
qed

lemma aggregate_edges_partition:
  assumes "graph_wf g" "analyze_reachability g = Some result"
    and "aggregates = ar_unreachable_components (build_report g result)"
  shows "mset (concat (map ua_edges aggregates)) = mset (rr_condensation_edges result)"
    and "a \<in> set aggregates \<Longrightarrow> e \<in> set (ua_edges a) \<Longrightarrow> ce_from e \<in> set (ua_sccs a) \<and> ce_to e \<in> set (ua_sccs a)"
proof -
  note shape = analysis_shape [OF assms(1,2)]
  let ?weak = "rr_weak_components result" and ?sccs = "rr_unreachable_sccs result"
  let ?w = "weak_component_by_scc result" and ?edges = "rr_condensation_edges result"
  let ?on = "\<lambda>k. filter (\<lambda>e. ?w ! ce_from e = k \<and> ?w ! ce_to e = k) ?edges"
  obtain flags where "length flags = length (g_symbols g)"
    and flags: "\<forall>i < length (g_symbols g). flags ! i \<longleftrightarrow> suppressed_dead g result i"
    and len: "length aggregates = length ?weak"
    and nth: "\<And>k. k < length ?weak \<Longrightarrow> aggregates ! k =
      (aggregate_component g result flags k (?weak ! k))\<lparr>ua_edges := ?on k\<rparr>"
    unfolding assms(3) by (rule report_aggregates_nth [of g result]) blast
  note sccs = aggregate_members_partition(1) [OF assms]
  have "map ua_edges aggregates = map ?on [0..<length ?weak]"
    by (rule nth_equalityI) (simp_all add: len nth)
  then show "mset (concat (map ua_edges aggregates)) = mset ?edges"
  proof -
    have "?w ! ce_from e = ?w ! ce_to e \<and> ?w ! ce_from e < length ?weak" if "e \<in> set ?edges" for e
      using shape(5) [OF that] weak_component_index [OF shape(3,4), of "ce_from e"] by blast
    then have "filter (\<lambda>e. ?w ! ce_from e = ?w ! ce_to e \<and> ?w ! ce_from e < length ?weak) ?edges = ?edges"
      by (intro filter_True) blast
    with edges_by_component [of ?w ?edges "length ?weak"] show ?thesis
      by (simp only: \<open>map ua_edges aggregates = map ?on [0..<length ?weak]\<close>)
  qed
  show "ce_from e \<in> set (ua_sccs a) \<and> ce_to e \<in> set (ua_sccs a)"
    if a: "a \<in> set aggregates" "e \<in> set (ua_edges a)" 
  proof -
    from a(1) len obtain k where k: "k < length ?weak" "a = aggregates ! k" by (metis in_set_conv_nth)
    with a(2) nth have e: "e \<in> set ?edges" "?w ! ce_from e = k" "?w ! ce_to e = k" by auto
    moreover have "ua_sccs a = ?weak ! k" using sccs k len by (metis nth_map)
    ultimately show ?thesis
      using shape(5) [OF e(1)] weak_component_index [OF shape(3,4)] by metis
  qed
qed

text \<open>
  The aggregates partition the findings along the call structure: there is one per weak
  component; together their members are the unreachable definitions, each once; a member is
  marked suppressed exactly if a policy suppresses it; and every condensation edge is listed in
  exactly one aggregate, the one that holds both of its components.
\<close>
theorem report_aggregates_partition:
  assumes "graph_wf g" "analyze_reachability g = Some result"
    and "aggregates = ar_unreachable_components (build_report g result)"
  shows "map ua_sccs aggregates = rr_weak_components result \<and>
    distinct (concat (map (\<lambda>a. map am_symbol (ua_members a)) aggregates)) \<and>
    set (concat (map (\<lambda>a. map am_symbol (ua_members a)) aggregates)) =
      {i. unreachable_definition g i} \<and>
    (\<forall>a \<in> set aggregates. \<forall>m \<in> set (ua_members a).
       am_disposition m = (if is_suppressed g (am_symbol m) then Suppressed else Actionable)) \<and>
    mset (concat (map ua_edges aggregates)) = mset (rr_condensation_edges result) \<and>
    (\<forall>a \<in> set aggregates. \<forall>e \<in> set (ua_edges a).
       ce_from e \<in> set (ua_sccs a) \<and> ce_to e \<in> set (ua_sccs a))"
  using aggregate_members_partition(1-4) [OF assms] aggregate_edges_partition [OF assms] by blast

lemma report_aggregates_partition_witness:
  "distinct (concat (map (\<lambda>a. map am_symbol (ua_members a))
     (ar_unreachable_components (build_report sample_program sample_result)))) \<and>
   map ua_sccs (ar_unreachable_components (build_report sample_program sample_result)) = [[0]]"
  using report_aggregates_partition [OF sample_program_wf sample_analysis refl]
  by (simp add: sample_result_def)

section \<open>Ownership\<close>

text \<open>
  Ownership summaries are exact: there is one for each non-empty label, in strictly
  increasing order of labels, and it holds the members with that label, in their order, with
  their own line estimate.
\<close>
theorem summarize_ownership_exact:
  "sorted_wrt (<) (map os_label (summarize_ownership g members label_for)) \<and>
   set (map os_label (summarize_ownership g members label_for)) =
     (\<lambda>m. label_for (g_symbols g ! am_symbol m)) ` set members - {[]} \<and>
   (\<forall>s \<in> set (summarize_ownership g members label_for).
      os_members s = filter (\<lambda>m. label_for (g_symbols g ! am_symbol m) = os_label s) members \<and>
      os_lines s = estimate_lines g (os_members s))"
proof -
  let ?label = "\<lambda>m. label_for (g_symbols g ! am_symbol m)"
  let ?ms = "filter (\<lambda>m. ?label m \<noteq> []) members"
  let ?m = "fold (\<lambda>m. group_push (?label m) m) ?ms []"
  have "fold (\<lambda>m grouped. let label = ?label m in
      if label \<noteq> [] then group_push label m grouped else grouped) members m0 =
    fold (\<lambda>m. group_push (?label m) m) ?ms m0" for m0
    by (induction members arbitrary: m0) (auto simp: Let_def)
  then have unfold: "summarize_ownership g members label_for =
    map (\<lambda>(label, ms). \<lparr>os_label = label, os_members = ms, os_lines = estimate_lines g ms\<rparr>) ?m"
    by (simp add: summarize_ownership_def)
  have "group_ok ([] :: (string \<times> aggregate_member list) list)" by (simp add: group_ok_def)
  note fold = group_fold [OF this, where f = ?label and g = "\<lambda>m. m" and xs = ?ms]
  have labels: "map os_label (summarize_ownership g members label_for) = map fst ?m"
    unfolding unfold by auto
  have entry: "ms = filter (\<lambda>m. ?label m = k) ?ms \<and> k \<noteq> []" if "(k, ms) \<in> set ?m" for k ms
  proof -
    from imageI [OF that, of fst] fold have "k \<noteq> []" by auto
    moreover have "group_at ?m k = ms"
      using group_at_mem [OF _ that] fold by (simp add: group_ok_def)
    ultimately show ?thesis using conjunct1 [OF conjunct2 [OF fold], of k] by (simp add: group_at_def)
  qed
  have that: "k \<noteq> [] \<Longrightarrow> filter (\<lambda>m. ?label m = k) ?ms = filter (\<lambda>m. ?label m = k) members" for k
    by (auto intro: filter_cong)
  have "\<forall>s \<in> set (summarize_ownership g members label_for).
      os_members s = filter (\<lambda>m. ?label m = os_label s) members \<and>
      os_lines s = estimate_lines g (os_members s)"
  proof (intro ballI)
    fix s
    assume "s \<in> set (summarize_ownership g members label_for)"
    then obtain k ms where k: "(k, ms) \<in> set ?m"
      and s: "s = \<lparr>os_label = k, os_members = ms, os_lines = estimate_lines g ms\<rparr>"
      unfolding unfold by auto
    from entry [OF k] that [of k] have "ms = filter (\<lambda>m. ?label m = k) members" by argo
    then show "os_members s = filter (\<lambda>m. ?label m = os_label s) members \<and>
        os_lines s = estimate_lines g (os_members s)" by (simp add: s)
  qed
  moreover have "sorted_wrt (<) (map fst ?m)" using fold by (simp add: group_ok_def)
  moreover have "set (map fst ?m) = ?label ` set members - {[]}" using fold by auto
  ultimately show ?thesis unfolding labels by blast
qed

definition sample_owned :: "ownership_summary list" where
  "sample_owned = summarize_ownership sample_program
     [\<lparr>am_symbol = 2, am_disposition = Actionable\<rparr>, \<lparr>am_symbol = 0, am_disposition = Actionable\<rparr>]
     owner_file"

lemma summarize_ownership_exact_witness:
  "map os_label sample_owned = [''a.cpp'', ''b.cpp''] \<and>
   os_lines (sample_owned ! 0) = estimate_lines sample_program (os_members (sample_owned ! 0))"
proof (rule conjI)
  show labels: "map os_label sample_owned = [''a.cpp'', ''b.cpp'']" by code_simp
  from arg_cong [OF labels, of length] have "sample_owned ! 0 \<in> set sample_owned"
    by (intro nth_mem) simp
  then show "os_lines (sample_owned ! 0) = estimate_lines sample_program (os_members (sample_owned ! 0))"
    using summarize_ownership_exact unfolding sample_owned_def by blast
qed

section \<open>Order of findings\<close>

lemma less_by_first:
  fixes a :: "'a::linorder" and b :: "'b::linorder"
  shows "(a, b) < (a', b') \<longleftrightarrow> (if a \<noteq> a' then a < a' else b < b')"
  by (cases a a' rule: linorder_cases) auto

text \<open>
  Where no two spellings of one path occur among the locations, findings are listed by file,
  line, qualified name and signature, as the suppressed findings always are.
\<close>
theorem findings_sorted:
  assumes "inj_on path_key ((\<lambda>s. sp_file (sx_location (primary_source_extent s))) ` set (g_symbols g))"
    and "graph_wf g" "analyze_reachability g = Some result"
  shows "sorted (map (\<lambda>f. location_key g (fi_symbol f)) (ar_findings (build_report g result))) \<and>
    sorted (map (\<lambda>f. location_key g (fi_symbol (sf_finding f)))
      (ar_suppressed_findings (build_report g result)))"
proof -
  let ?list = "map (\<lambda>i. classify g i (g_symbols g ! i))
    (filter (\<lambda>i. counted g i \<and> \<not> rr_reachable result ! i \<and> suppressions_of g i = [])
      [0..<length (g_symbols g)])"
  have "sort_by (finding_before g) ?list = sort_key (\<lambda>f. location_key g (fi_symbol f)) ?list"
  proof (rule sort_by_key)
    fix a b
    let ?file = "\<lambda>i. sp_file (sx_location (primary_source_extent (g_symbols g ! i)))"
    assume "a \<in> set ?list" "b \<in> set ?list"
    then have "fi_symbol a < length (g_symbols g)" "fi_symbol b < length (g_symbols g)" by auto
    then have "?file (fi_symbol a) = ?file (fi_symbol b) \<longleftrightarrow>
        path_key (?file (fi_symbol a)) = path_key (?file (fi_symbol b))"
      using assms(1) by (auto dest: inj_onD)
    then show "finding_before g a b \<longleftrightarrow> location_key g (fi_symbol a) < location_key g (fi_symbol b)"
      by (simp only: finding_before_def location_key_def Let_def less_by_first)
  qed
  note order = this
  show ?thesis by (rule build_report_unfold [of g result]) (simp add: order)
qed

lemma findings_sorted_witness:
  "sorted (map (\<lambda>f. location_key sample_program (fi_symbol f))
     (ar_findings (build_report sample_program sample_result)))"
  using findings_sorted [OF _ sample_program_wf sample_analysis]
  by (simp add: inj_on_def sample_program_def sample_defs primary_source_extent_def path_key_def path_names_def
      is_absolute_def components_def)

text \<open>
  Without that condition the comparison of findings is not an order: files are compared as
  paths for equality and as strings for order, and three findings can come before each other in
  a circle. The paths of an analysed program are normalized, those of an artifact need not be.
\<close>

definition unnormalized_graph :: graph where
  "unnormalized_graph = empty_graph\<lparr>g_symbols := [sample_symbol ''x'' ''a//b'' 2 3,
     sample_symbol ''y'' ''a/0'' 1 2, sample_symbol ''z'' ''a/b'' 1 2]\<rparr>"

lemma finding_before_cycle:
  "let f = (\<lambda>i. classify unnormalized_graph i (g_symbols unnormalized_graph ! i)) in
   finding_before unnormalized_graph (f 0) (f 1) \<and> finding_before unnormalized_graph (f 1) (f 2) \<and>
   finding_before unnormalized_graph (f 2) (f 0)"
  by code_simp

end
