(* ===== verification/Json_Text.thy ===== *)
theory Json_Text
  imports Json_Facts Paths
begin

text \<open>
  The JSON texts the writers of the program produce, with their line breaks and indentation.
  A text \<open>spells\<close> a value if the parser reads it back as that value, whatever follows; the
  layouts of arrays and objects preserve this. An object may list its members in any order:
  its value holds them in key order, as \<open>std::map\<close> does.
\<close>

section \<open>Layouts\<close>

text \<open>White space after the opening bracket, after each comma, and before the closing one.\<close>

record layout =
  lay_open :: string
  lay_sep :: string
  lay_close :: string

definition inline :: layout where
  "inline = \<lparr>lay_open = [], lay_sep = '' '', lay_close = []\<rparr>"

definition newline :: string where "newline = [CHR 0x0A]"

definition member :: "string \<times> string \<Rightarrow> string" where
  "member kt = quoted (fst kt) @ '': '' @ snd kt"

definition object_text :: "layout \<Rightarrow> (string \<times> string) list \<Rightarrow> string" where
  "object_text l members =
     ''{'' @ lay_open l @ join_with ('','' @ lay_sep l) (map member members) @ lay_close l @ ''}''"

text \<open>An empty array is written with white space of its own.\<close>

definition array_text :: "layout \<Rightarrow> string \<Rightarrow> string list \<Rightarrow> string" where
  "array_text l none items =
     (if items = [] then ''['' @ none @ '']''
      else ''['' @ lay_open l @ join_with ('','' @ lay_sep l) items @ lay_close l @ '']'')"

definition bool_text :: "bool \<Rightarrow> string" where
  "bool_text b = (if b then ''true'' else ''false'')"

definition blank :: "string \<Rightarrow> bool" where
  "blank w \<longleftrightarrow> list_all is_space w"

definition blank_layout :: "layout \<Rightarrow> bool" where
  "blank_layout l \<longleftrightarrow> blank (lay_open l) \<and> blank (lay_sep l) \<and> blank (lay_close l)"

lemma blank_inline [simp]: "blank_layout inline"
  by (simp add: blank_layout_def blank_def inline_def is_space_def)

section \<open>Spelling a value\<close>

definition spells :: "json \<Rightarrow> string \<Rightarrow> bool" where
  "spells v t \<longleftrightarrow> (\<exists>c cs. t = c # cs \<and> \<not> is_space c \<and> c \<noteq> CHR '']'') \<and>
     (\<forall>p rest. ends_value rest \<longrightarrow> parse_value (p, t @ rest) = Inr (v, (p + length t, rest)))"

lemma skip_blank: "blank w \<Longrightarrow> skip_space (p, w @ rest) = skip_space (p + length w, rest)"
  by (induction w arbitrary: p) (auto simp: blank_def)

lemma skip_spelled: "spells v t \<Longrightarrow> skip_space (p, t @ rest) = (p, t @ rest)"
  by (auto simp: spells_def)

lemma spells_parse:
  "spells v t \<Longrightarrow> ends_value rest \<Longrightarrow> parse_value (p, t @ rest) = Inr (v, (p + length t, rest))"
  by (simp add: spells_def)

lemma spells_renderable:
  assumes "renderable v"
  shows "spells v (render v)"
  using render_reads [OF assms] render_hd [of v] by (auto simp: spells_def reads_def)

lemma spells_string [simp]: "spells (JString s) (quoted s)"
  using spells_renderable [of "JString s"] by simp

lemma spells_null [simp]: "spells JNull ''null''"
  using spells_renderable [of JNull] by simp

lemma spells_bool [simp]: "spells (JBool b) (bool_text b)"
  using spells_renderable [of "JBool b"] by (simp add: bool_text_def)

lemma spells_nat: "n < 2 ^ 53 \<Longrightarrow> spells (JNumber (of_nat n)) (to_string_nat n)"
  using spells_renderable [of "JNumber (of_nat n)"] by simp

lemma ends_value_blank: "blank w \<Longrightarrow> ends_value rest \<Longrightarrow> ends_value (w @ rest)"
  by (cases w) (auto simp: blank_def ends_value_def is_space_def is_digit_def)

section \<open>Arrays\<close>

lemma parse_elements_spelled:
  assumes "list_all2 spells vs ts" "ts \<noteq> []" "blank sep" "blank close"
  shows "parse_elements acc (p, join_with ('','' @ sep) ts @ close @ CHR '']'' # rest) =
    Inr (JArray (acc @ vs), (p + length (join_with ('','' @ sep) ts @ close) + 1, rest))"
  using assms
proof (induction vs ts arbitrary: acc p rule: list_all2_induct)
  case (Cons v vs' t ts)
  note vs = Cons.hyps
  show ?case
  proof (cases ts)
    case Nil
    have "ends_value (close @ CHR '']'' # rest)" by (rule ends_value_blank [OF Cons.prems(3)]) simp
    moreover have "vs' = []" using vs(2) Nil by simp
    ultimately show ?thesis
      using Nil spells_parse [OF vs(1), of "close @ CHR '']'' # rest" p] Cons.prems(3)
      by (simp add: parse_elements.simps skip_blank is_space_def)
  next
    case tail: (Cons t' ts')
    let ?tail = "join_with ('','' @ sep) ts @ close @ CHR '']'' # rest"
    from vs(2) tail obtain v' where t': "spells v' t'" by (auto simp: list_all2_Cons2)
    have skip: "skip_space (q, ?tail) = (q, ?tail)" for q
      using skip_spelled [OF t'] tail by (cases ts') simp_all
    from spells_parse [OF vs(1), of "CHR '','' # sep @ ?tail" p]
    have "parse_elements acc (p, t @ CHR '','' # sep @ ?tail) =
        parse_elements (acc @ [v]) (skip_space (Suc (p + length t), sep @ ?tail))"
      by (simp add: parse_elements.simps [of acc] is_space_def expect_def)
    also have "skip_space (Suc (p + length t), sep @ ?tail) = (Suc (p + length t) + length sep, ?tail)"
      using skip_blank [OF Cons.prems(2), of _ ?tail] skip by simp
    finally show ?thesis
      using Cons.IH [OF _ Cons.prems(2,3), of "acc @ [v]" "Suc (p + length t) + length sep"] tail
      by (simp add: ac_simps)
  qed
qed simp

lemma spells_array:
  assumes "list_all2 spells vs ts" "blank_layout l" "blank none"
  shows "spells (JArray vs) (array_text l none ts)"
proof (cases ts)
  case Nil
  then show ?thesis
    using assms by (auto simp: spells_def array_text_def parse_value.simps skip_blank is_space_def Let_def)
next
  case (Cons t ts')
  then obtain v where t: "spells v t" using assms(1) by (auto simp: list_all2_Cons2)
  let ?body = "join_with ('','' @ lay_sep l) ts"
  have l: "blank (lay_open l)" "blank (lay_sep l)" "blank (lay_close l)"
    using assms(2) by (simp_all add: blank_layout_def)
  have hd: "\<exists>c cs. ?body = c # cs \<and> \<not> is_space c \<and> c \<noteq> CHR '']''"
    using t Cons by (cases ts') (auto simp: spells_def)
  then have skip: "skip_space (q, ?body @ r) = (q, ?body @ r)"
    and consume: "consume CHR '']'' (q, ?body @ r) = None" for q r by auto
  from Cons have "ts \<noteq> []" by simp
  note elements = parse_elements_spelled [OF assms(1) this l(2,3)]
  show ?thesis
    unfolding spells_def
    by (auto simp: array_text_def \<open>ts \<noteq> []\<close> parse_value.simps is_space_def skip_blank [OF l(1)]
        skip [simplified] consume [simplified] elements [simplified] Let_def)
qed

section \<open>Objects\<close>

definition object_of :: "(string \<times> json) list \<Rightarrow> json" where
  "object_of kvs = JObject (fold (insort_key fst) kvs [])"

lemma set_fold_insort [simp]:
  "set (fold (insort_key fst) kvs acc) = set kvs \<union> set (acc :: (string \<times> json) list)"
  by (induction kvs arbitrary: acc) (auto simp: set_insort_key)

lemma sorted_fold_insort:
  "sorted_wrt (<) (map fst acc) \<Longrightarrow> distinct (map fst (acc @ kvs)) \<Longrightarrow>
     sorted_wrt (<) (map fst (fold (insort_key fst) kvs acc))"
proof (induction kvs arbitrary: acc)
  case (Cons kv kvs)
  have "sorted_wrt (<) (map fst (insort_key fst kv acc))"
    using Cons.prems by (simp add: strict_sorted_iff sorted_insort_key distinct_insort_key)
  moreover have "mset (insort_key fst kv acc) = mset (acc @ [kv])" by simp
  then have "distinct (map fst (insort_key fst kv acc @ kvs))"
    using Cons.prems(2) by (metis append.assoc append_Cons append_Nil map_append mset_append mset_eq_imp_distinct_iff mset_map)
  ultimately show ?case using Cons.IH by simp
qed simp

lemma obj_emplace_fresh:
  "k \<notin> fst ` set kvs \<Longrightarrow> obj_emplace k v kvs = Some (insort_key fst (k, v) kvs)"
  by (induction k v kvs rule: obj_emplace.induct) auto

definition spelled :: "(string \<times> json) list \<Rightarrow> (string \<times> string) list \<Rightarrow> bool" where
  "spelled kvs kts \<longleftrightarrow> list_all2 (\<lambda>kv kt. fst kv = fst kt \<and> spells (snd kv) (snd kt)) kvs kts"

lemma spelled_simps [simp]:
  "spelled [] []"
  "spelled ((k, v) # kvs) ((k', t) # kts) \<longleftrightarrow> k = k' \<and> spells v t \<and> spelled kvs kts"
  by (simp_all add: spelled_def)

lemma parse_members_spelled:
  assumes "spelled kvs kts" "kts \<noteq> []" "distinct (map fst (acc @ kvs))" "blank sep" "blank close"
  shows "parse_members acc (p, join_with ('','' @ sep) (map member kts) @ close @ CHR ''}'' # rest) =
    Inr (JObject (fold (insort_key fst) kvs acc),
      (p + length (join_with ('','' @ sep) (map member kts) @ close) + 1, rest))"
  using assms(1) [unfolded spelled_def] assms(2-)
proof (induction kvs kts arbitrary: acc p rule: list_all2_induct)
  case (Cons kv kvs kt kts)
  obtain k v t where kv: "kv = (k, v)" "kt = (k, t)" "spells v t"
    using Cons.hyps(1) by (cases kv; cases kt) auto
  have fresh: "k \<notin> fst ` set acc" and d: "distinct (map fst (insort_key fst (k, v) acc @ kvs))"
  proof -
    show "k \<notin> fst ` set acc" using Cons.prems(2) kv by simp
    have "mset (map fst (insort_key fst (k, v) acc @ kvs)) = mset (map fst (acc @ (k, v) # kvs))" by simp
    then show "distinct (map fst (insort_key fst (k, v) acc @ kvs))"
      using Cons.prems(2) kv mset_eq_imp_distinct_iff by metis
  qed
  note insert = obj_emplace_fresh [OF fresh, of v]
  have head: "take 1 (member (k, t) @ r) = [CHR 0x22]"
    "parse_string (q, member (k, t) @ r) = Inr (k, (q + length (quoted k), '': '' @ t @ r))" for q r
    by (simp_all add: member_def parse_string_quoted) (simp add: quoted_def)
  have colon: "expect CHR '':'' (skip_space (q, '': '' @ t @ r)) = Inr (Suc q, CHR '' '' # t @ r)" for q r
    by (simp add: is_space_def expect_def)
  have gap: "skip_space (q, CHR '' '' # t @ r) = (Suc q, t @ r)" for q r
    using skip_spelled [OF kv(3), of "Suc q" r] by (simp add: is_space_def)
  have step: "parse_members acc (p, member (k, t) @ r) =
     (case consume CHR ''}'' (skip_space (p + length (member (k, t)), r)) of
        Some s5 \<Rightarrow> Inr (JObject (insort_key fst (k, v) acc), s5)
      | None \<Rightarrow>
          (case expect CHR '','' (skip_space (p + length (member (k, t)), r)) of
             Inl e \<Rightarrow> Inl e
           | Inr s5 \<Rightarrow> parse_members (insort_key fst (k, v) acc) (skip_space s5)))"
    if "ends_value r" for r
  proof -
    have "parse_value (Suc (Suc (p + length (quoted k))), t @ r) =
        Inr (v, (p + length (member (k, t)), r))"
      using spells_parse [OF kv(3) that, of "Suc (Suc (p + length (quoted k)))"]
      by (simp add: member_def)
    then show ?thesis
      by (simp only: parse_members.simps [of acc] head colon gap insert fst_conv snd_conv prod.case
          sum.case option.case Let_def if_False not_True_eq_False)
        (simp add: head)
  qed
  show ?case
  proof (cases kts)
    case Nil
    have "ends_value (close @ CHR ''}'' # rest)" by (rule ends_value_blank [OF Cons.prems(4)]) simp
    note step = step [OF this]
    moreover have "kvs = []" using Cons.hyps(2) Nil by simp
    ultimately show ?thesis
      using Nil kv Cons.prems(4) by (simp add: skip_blank is_space_def)
  next
    case tail: (Cons kt' kts')
    let ?tail = "join_with ('','' @ sep) (map member kts) @ close @ CHR ''}'' # rest"
    have "\<exists>cs. ?tail = CHR 0x22 # cs"
      using tail by (cases kts') (auto simp: member_def quoted_def)
    then have skip: "skip_space (q, ?tail) = (q, ?tail)" for q
      by (auto simp: is_space_def)
    have "parse_members acc (p, member (k, t) @ CHR '','' # sep @ ?tail) =
        parse_members (insort_key fst (k, v) acc) (skip_space (Suc (p + length (member (k, t))), sep @ ?tail))"
      by (subst step) (simp_all add: is_space_def expect_def)
    also have "skip_space (Suc (p + length (member (k, t))), sep @ ?tail) =
        (Suc (p + length (member (k, t))) + length sep, ?tail)"
      using skip_blank [OF Cons.prems(3), of _ ?tail] skip by simp
    finally show ?thesis
      using Cons.IH [OF _ d Cons.prems(3,4), of "Suc (p + length (member (k, t))) + length sep"] tail kv
      by (simp add: ac_simps)
  qed
qed simp

lemma spells_object:
  assumes "spelled kvs kts" "distinct (map fst kts)" "blank_layout l"
  shows "spells (object_of kvs) (object_text l kts)"
proof -
  have keys: "map fst kvs = map fst kts"
    using assms(1) unfolding spelled_def by (induction rule: list_all2_induct) simp_all
  have l: "blank (lay_open l)" "blank (lay_sep l)" "blank (lay_close l)"
    using assms(3) by (simp_all add: blank_layout_def)
  show ?thesis
  proof (cases kts)
    case Nil
    then show ?thesis
      using assms(1) l skip_blank [of "lay_open l @ lay_close l"]
      by (simp add: spelled_def spells_def object_text_def object_of_def parse_value.simps is_space_def
          blank_def Let_def)
  next
    case (Cons kt kts')
    let ?body = "join_with ('','' @ lay_sep l) (map member kts)"
    have "\<exists>cs. ?body = CHR 0x22 # cs"
      using Cons by (cases kts') (auto simp: member_def quoted_def)
    then have skip: "skip_space (q, ?body @ r) = (q, ?body @ r)"
      and consume: "consume CHR ''}'' (q, ?body @ r) = None" for q r by (auto simp: is_space_def)
    from Cons have ne: "kts \<noteq> []" by simp
    have d: "distinct (map fst ([] @ kvs))" using assms(2) keys by simp
    note members = parse_members_spelled [OF assms(1) ne d l(2,3)]
    show ?thesis
      unfolding spells_def
      by (auto simp: object_text_def object_of_def parse_value.simps is_space_def skip_blank [OF l(1)]
          skip [simplified] consume [simplified] members [simplified] Let_def)
  qed
qed

text \<open>What a reader finds in such an object.\<close>

definition json_keys :: "json \<Rightarrow> string list" where
  "json_keys v = (case v of JObject kvs \<Rightarrow> map fst kvs | _ \<Rightarrow> [])"

lemma is_object_object_of [simp]: "is_object (object_of kvs)"
  by (simp add: object_of_def)

lemma set_json_keys [simp]: "set (json_keys (object_of kvs)) = fst ` set kvs"
  by (simp add: json_keys_def object_of_def image_Un)

lemma json_find_object_of:
  assumes "distinct (map fst kvs)"
  shows "json_find k (object_of kvs) = map_of kvs k"
proof -
  let ?s = "fold (insort_key fst) kvs []"
  have "distinct (map fst ?s)"
    using sorted_fold_insort [of "[]" kvs] assms by (simp add: strict_sorted_iff)
  moreover have "set ?s = set kvs" by simp
  ultimately have "map_of ?s = map_of kvs" using assms by (intro map_of_inject_set [THEN iffD2])
  then show ?thesis by (simp add: object_of_def)
qed

lemma parse_spelled:
  assumes "spells v t" "blank before" "blank after"
  shows "parse (before @ t @ after) = Inr v"
proof -
  have "ends_value after" using ends_value_blank [OF assms(3), of "[]"] by (simp add: ends_value_def)
  from spells_parse [OF assms(1) this] show ?thesis
    using skip_spelled [OF assms(1)] skip_blank [OF assms(3), of _ "[]"]
    by (simp add: parse_def skip_blank [OF assms(2)])
qed

end
