(* ===== verification/Artifact.thy ===== *)
theory Artifact
  imports Json_Text Graph_Canonical
begin

text \<open>
  Graph artifacts, \<open>src/artifact.cpp\<close>: the text in which a graph is stored, with the schema
  versions, the analysis context and the diagnostics, and the reader that checks and restores
  it. The text is a string, the streams it goes through are not modelled. A \<open>std::size_t\<close> is a
  natural number; the reader refuses numbers above \<open>2 ^ 53 - 1\<close>.
\<close>

section \<open>Data\<close>

datatype index_frontend = Ast_Json | Lib_Tooling

fun index_frontend_to_string :: "index_frontend \<Rightarrow> string" where
  "index_frontend_to_string Ast_Json = ''ast-json''"
| "index_frontend_to_string Lib_Tooling = ''libtooling''"

record artifact_metadata =
  gm_configuration_id :: string
  gm_configuration :: string
  gm_target_id :: string
  gm_target_name :: string
  gm_target_kind :: string
  gm_closure_targets :: "string list"
  gm_frontend :: index_frontend
  gm_translation_units :: nat

record graph_artifact =
  ga_graph :: graph
  ga_metadata :: artifact_metadata
  ga_diagnostics :: "string list"

definition graph_artifact_schema_version :: nat where "graph_artifact_schema_version = 7"
definition symbol_identity_schema_version :: nat where "symbol_identity_schema_version = 1"

section \<open>Writing\<close>

definition source_point_text :: "source_point \<Rightarrow> string" where
  "source_point_text p = object_text inline
     [(''file'', quoted (sp_file p)), (''line'', to_string_nat (sp_line p)),
      (''column'', to_string_nat (sp_column p)), (''offset'', to_string_nat (sp_offset p)),
      (''token_length'', to_string_nat (sp_token_length p))]"

definition source_extent_text :: "source_extent \<Rightarrow> string" where
  "source_extent_text x = object_text inline
     [(''location'', source_point_text (sx_location x)),
      (''range'', object_text inline [(''begin'', source_point_text (sx_begin x)),
         (''end'', source_point_text (sx_end x))])]"

definition source_text :: "symbol_source \<Rightarrow> string" where
  "source_text s = object_text inline
     [(''spelling'', source_extent_text (ss_spelling s)),
      (''expansion'', case ss_expansion s of Some x \<Rightarrow> source_extent_text x | None \<Rightarrow> ''null'')]"

definition evidence_text :: "evidence \<Rightarrow> string" where
  "evidence_text e = object_text inline
     [(''provider'', quoted (ev_provider e)), (''reason'', quoted (ev_reason e))]"

definition nullable_text :: "string \<Rightarrow> string" where
  "nullable_text s = (if s = [] then ''null'' else quoted s)"

definition symbol_layout :: layout where
  "symbol_layout = \<lparr>lay_open = newline @ ''      '', lay_sep = newline @ ''      '',
     lay_close = newline @ ''    ''\<rparr>"

definition section_layout :: layout where
  "section_layout = \<lparr>lay_open = newline @ ''    '', lay_sep = newline @ ''    '',
     lay_close = newline @ ''  ''\<rparr>"

definition document_layout :: layout where
  "document_layout = \<lparr>lay_open = newline @ ''  '', lay_sep = newline @ ''  '',
     lay_close = newline\<rparr>"

definition section_text :: "string list \<Rightarrow> string" where
  "section_text items = array_text section_layout ''  '' items"

definition identity_text :: "symbol_identity \<Rightarrow> string" where
  "identity_text i = object_text inline
     [(''quality'', quoted (identity_quality_to_string (si_quality i))),
      (''configuration_id'', quoted (si_configuration_id i)), (''usr'', quoted (si_usr i)),
      (''linkage_name'', quoted (si_linkage_name i)),
      (''translation_unit'', quoted (si_translation_unit i)),
      (''fallback_anchor'', quoted (si_fallback_anchor i))]"

definition symbol_text :: "symbol \<Rightarrow> string" where
  "symbol_text s = object_text symbol_layout
     [(''id'', quoted (sym_key s)), (''identity'', identity_text (sym_identity s)),
      (''name'', quoted (sym_name s)), (''qualified_name'', quoted (sym_qualified_name s)),
      (''class_name'', quoted (sym_class_name s)), (''signature'', quoted (sym_signature s)),
      (''kind'', quoted (symbol_kind_to_string (sym_kind s))),
      (''scope'', quoted (symbol_scope_to_string (sym_scope s))),
      (''defined'', bool_text (sym_defined s)),
      (''internal_linkage'', bool_text (sym_internal_linkage s)),
      (''virtual'', bool_text (sym_is_virtual s)), (''source'', source_text (sym_source s))]"

definition edge_text :: "graph \<Rightarrow> edge \<Rightarrow> string" where
  "edge_text g e = object_text inline
     [(''from'', quoted (sym_key (g_symbols g ! edge_from e))),
      (''to'', quoted (sym_key (g_symbols g ! edge_to e))),
      (''kind'', quoted (edge_kind_to_string (edge_kind e))),
      (''evidence'', evidence_text (edge_evidence e))]"

definition root_text :: "graph \<Rightarrow> root \<Rightarrow> string" where
  "root_text g r = object_text inline
     [(''symbol'', quoted (sym_key (g_symbols g ! root_symbol r))),
      (''kind'', quoted (root_kind_to_string (root_kind r))),
      (''evidence'', evidence_text (root_evidence r))]"

definition escape_text :: "graph \<Rightarrow> escape \<Rightarrow> string" where
  "escape_text g x = object_text inline
     [(''symbol'', quoted (sym_key (g_symbols g ! esc_symbol x))),
      (''from'', case esc_from x of Some f \<Rightarrow> quoted (sym_key (g_symbols g ! f)) | None \<Rightarrow> ''null''),
      (''kind'', quoted (escape_kind_to_string (esc_kind x))),
      (''evidence'', evidence_text (esc_evidence x))]"

definition suppression_text :: "graph \<Rightarrow> suppression \<Rightarrow> string" where
  "suppression_text g p = object_text inline
     [(''symbol'', quoted (sym_key (g_symbols g ! sup_symbol p))),
      (''evidence'', evidence_text (sup_evidence p))]"

definition sorted_symbols :: "graph \<Rightarrow> nat list" where
  "sorted_symbols g = sort_key (\<lambda>i. sym_key (g_symbols g ! i)) [0..<length (g_symbols g)]"

definition artifact_edges :: "graph \<Rightarrow> edge list" where
  "artifact_edges g = sort_key (\<lambda>e. (sym_key (g_symbols g ! edge_from e),
     sym_key (g_symbols g ! edge_to e), edge_kind e, ev_provider (edge_evidence e),
     ev_reason (edge_evidence e))) (g_edges g)"

definition artifact_roots :: "graph \<Rightarrow> root list" where
  "artifact_roots g = sort_key (\<lambda>r. (sym_key (g_symbols g ! root_symbol r), root_kind r,
     ev_provider (root_evidence r), ev_reason (root_evidence r))) (g_roots g)"

definition artifact_escapes :: "graph \<Rightarrow> escape list" where
  "artifact_escapes g = sort_key (\<lambda>x. (sym_key (g_symbols g ! esc_symbol x),
     case esc_from x of Some f \<Rightarrow> sym_key (g_symbols g ! f) | None \<Rightarrow> [], esc_kind x,
     ev_provider (esc_evidence x), ev_reason (esc_evidence x))) (g_escapes g)"

definition artifact_suppressions :: "graph \<Rightarrow> suppression list" where
  "artifact_suppressions g = sort_key (\<lambda>p. (sym_key (g_symbols g ! sup_symbol p),
     ev_provider (sup_evidence p), ev_reason (sup_evidence p))) (g_suppressions g)"

definition context_text :: "artifact_metadata \<Rightarrow> string" where
  "context_text m = object_text inline
     [(''configuration'', quoted (gm_configuration m)),
      (''target_id'', nullable_text (gm_target_id m)),
      (''target_name'', nullable_text (gm_target_name m)),
      (''target_kind'', nullable_text (gm_target_kind m)),
      (''closure_targets'', array_text inline [] (map quoted (gm_closure_targets m)))]"

definition document_text :: "graph \<Rightarrow> artifact_metadata \<Rightarrow> string list \<Rightarrow> string" where
  "document_text g m diagnostics = object_text document_layout
    [(''artifact_schema_version'', to_string_nat graph_artifact_schema_version),
     (''identity_schema_version'', to_string_nat symbol_identity_schema_version),
     (''configuration_id'', quoted (gm_configuration_id m)),
     (''analysis_context'', context_text m),
     (''frontend'', quoted (index_frontend_to_string (gm_frontend m))),
     (''translation_units'', to_string_nat (gm_translation_units m)),
     (''symbols'', section_text (map (\<lambda>i. symbol_text (g_symbols g ! i)) (sorted_symbols g))),
     (''edges'', section_text (map (edge_text g) (artifact_edges g))),
     (''roots'', section_text (map (root_text g) (artifact_roots g))),
     (''escapes'', section_text (map (escape_text g) (artifact_escapes g))),
     (''suppressions'', section_text (map (suppression_text g) (artifact_suppressions g))),
     (''diagnostics'', section_text (map quoted (remdups_adj (sort diagnostics))))]"

definition write_graph_artifact ::
    "graph \<Rightarrow> artifact_metadata \<Rightarrow> string list \<Rightarrow> string result" where
  "write_graph_artifact g m diagnostics =
     (if gm_configuration_id m = [] then
        Inl (Invalid_Argument ''graph artifact configuration identity cannot be empty'')
      else
        (case find (\<lambda>s. si_configuration_id (sym_identity s) \<noteq> gm_configuration_id m) (g_symbols g) of
           Some s \<Rightarrow> Inl (Invalid_Argument
             (''graph artifact configuration does not match symbol identity: '' @ sym_key s))
         | None \<Rightarrow> Inr (document_text g m diagnostics @ newline)))"

section \<open>Checked access to the fields of an object\<close>

definition tick :: "string \<Rightarrow> string" where
  "tick s = [CHR 0x27] @ s @ [CHR 0x27]"

definition invalid_artifact :: "string \<Rightarrow> string \<Rightarrow> exn" where
  "invalid_artifact ctx message =
     Runtime_Error (''invalid graph artifact '' @ ctx @ '': '' @ message)"

definition require_object :: "json \<Rightarrow> string \<Rightarrow> (string \<times> json) list result" where
  "require_object v ctx =
     (case as_object v of
        Some kvs \<Rightarrow> Inr kvs
      | None \<Rightarrow> Inl (invalid_artifact ctx ''must be an object''))"

definition require_keys :: "json \<Rightarrow> string list \<Rightarrow> string list \<Rightarrow> string \<Rightarrow> unit result" where
  "require_keys v required opt ctx =
     rbind (require_object v ctx) (\<lambda>object.
       case find (\<lambda>k. k \<notin> fst ` set object) required of
         Some k \<Rightarrow> Inl (invalid_artifact ctx (''requires '' @ tick k))
       | None \<Rightarrow>
           (case find (\<lambda>(k, unused). k \<notin> set required \<and> k \<notin> set opt) object of
              Some (k, unused) \<Rightarrow> Inl (invalid_artifact ctx (''contains unknown key '' @ tick k))
            | None \<Rightarrow> Inr ()))"

definition require_value :: "json \<Rightarrow> string \<Rightarrow> string \<Rightarrow> json result" where
  "require_value v key ctx =
     rbind (require_object v ctx) (\<lambda>object.
       case map_of object key of
         None \<Rightarrow> Inl (invalid_artifact ctx (''requires '' @ tick key))
       | Some field \<Rightarrow> Inr field)"

definition require_string_field :: "json \<Rightarrow> string \<Rightarrow> string \<Rightarrow> bool \<Rightarrow> string result" where
  "require_string_field v key ctx allow_empty =
     rbind (require_value v key ctx) (\<lambda>field.
       case as_string field of
         None \<Rightarrow> Inl (invalid_artifact ctx (tick key @ '' must be a string''))
       | Some s \<Rightarrow>
           if \<not> allow_empty \<and> s = [] then
             Inl (invalid_artifact ctx (tick key @ '' cannot be empty''))
           else Inr s)"

definition nullable_string :: "json \<Rightarrow> string \<Rightarrow> string \<Rightarrow> string result" where
  "nullable_string v key ctx =
     rbind (require_value v key ctx) (\<lambda>field.
       if is_null field then Inr []
       else
         case as_string field of
           Some (c # cs) \<Rightarrow> Inr (c # cs)
         | _ \<Rightarrow> Inl (invalid_artifact ctx (tick key @ '' must be null or a non-empty string'')))"

definition require_bool :: "json \<Rightarrow> string \<Rightarrow> string \<Rightarrow> bool result" where
  "require_bool v key ctx =
     rbind (require_value v key ctx) (\<lambda>field.
       case as_bool field of
         None \<Rightarrow> Inl (invalid_artifact ctx (tick key @ '' must be a boolean''))
       | Some b \<Rightarrow> Inr b)"

definition largest_exact_json_integer :: rat where
  "largest_exact_json_integer = 9007199254740991"

definition require_size :: "json \<Rightarrow> string \<Rightarrow> string \<Rightarrow> nat result" where
  "require_size v key ctx =
     rbind (require_value v key ctx) (\<lambda>field.
       case as_number field of
         None \<Rightarrow> Inl (invalid_artifact ctx (tick key @ '' must be a non-negative integer''))
       | Some x \<Rightarrow>
           if x < 0 \<or> of_int \<lfloor>x\<rfloor> \<noteq> x \<or> largest_exact_json_integer < x then
             Inl (invalid_artifact ctx (tick key @ '' must be a non-negative integer''))
           else Inr (nat \<lfloor>x\<rfloor>))"

definition require_array :: "json \<Rightarrow> string \<Rightarrow> string \<Rightarrow> json list result" where
  "require_array v key ctx =
     rbind (require_value v key ctx) (\<lambda>field.
       case as_array field of
         None \<Rightarrow> Inl (invalid_artifact ctx (tick key @ '' must be an array''))
       | Some vs \<Rightarrow> Inr vs)"

definition parse_enum :: "string \<Rightarrow> (string \<times> 'a) list \<Rightarrow> string \<Rightarrow> 'a result" where
  "parse_enum v table ctx =
     (case map_of table v of
        None \<Rightarrow> Inl (invalid_artifact ctx (''contains unsupported value '' @ tick v))
      | Some e \<Rightarrow> Inr e)"

section \<open>Reading\<close>

definition parse_source_point :: "json \<Rightarrow> string \<Rightarrow> source_point result" where
  "parse_source_point v ctx =
     rbind (require_keys v [''file'', ''line'', ''column'', ''offset'', ''token_length''] [] ctx) (\<lambda>_.
     rbind (require_string_field v ''file'' ctx True) (\<lambda>file.
     rbind (require_size v ''line'' ctx) (\<lambda>line.
     rbind (require_size v ''column'' ctx) (\<lambda>column.
     rbind (require_size v ''offset'' ctx) (\<lambda>offset.
     rbind (require_size v ''token_length'' ctx) (\<lambda>token_length.
     Inr \<lparr>sp_file = file, sp_line = line, sp_column = column, sp_offset = offset,
          sp_token_length = token_length\<rparr>))))))"

definition parse_source_extent :: "json \<Rightarrow> string \<Rightarrow> source_extent result" where
  "parse_source_extent v ctx =
     rbind (require_keys v [''location'', ''range''] [] ctx) (\<lambda>_.
     rbind (require_value v ''range'' ctx) (\<lambda>range.
     rbind (require_keys range [''begin'', ''end''] [] (ctx @ ''.range'')) (\<lambda>_.
     rbind (rbind (require_value v ''location'' ctx)
              (\<lambda>x. parse_source_point x (ctx @ ''.location''))) (\<lambda>location.
     rbind (rbind (require_value range ''begin'' ctx)
              (\<lambda>x. parse_source_point x (ctx @ ''.range.begin''))) (\<lambda>b.
     rbind (rbind (require_value range ''end'' ctx)
              (\<lambda>x. parse_source_point x (ctx @ ''.range.end''))) (\<lambda>e.
     Inr \<lparr>sx_location = location, sx_begin = b, sx_end = e\<rparr>))))))"

definition parse_source :: "json \<Rightarrow> string \<Rightarrow> symbol_source result" where
  "parse_source v ctx =
     rbind (require_keys v [''spelling'', ''expansion''] [] ctx) (\<lambda>_.
     rbind (rbind (require_value v ''spelling'' ctx)
              (\<lambda>x. parse_source_extent x (ctx @ ''.spelling''))) (\<lambda>spelling.
     rbind (require_value v ''expansion'' ctx) (\<lambda>expansion.
     if is_null expansion then Inr \<lparr>ss_spelling = spelling, ss_expansion = None\<rparr>
     else
       rbind (parse_source_extent expansion (ctx @ ''.expansion'')) (\<lambda>x.
       Inr \<lparr>ss_spelling = spelling, ss_expansion = Some x\<rparr>))))"

definition parse_evidence_object :: "json \<Rightarrow> string \<Rightarrow> evidence result" where
  "parse_evidence_object v ctx =
     rbind (require_keys v [''provider'', ''reason''] [] ctx) (\<lambda>_.
     rbind (require_string_field v ''provider'' ctx True) (\<lambda>provider.
     rbind (require_string_field v ''reason'' ctx True) (\<lambda>reason.
     Inr \<lparr>ev_provider = provider, ev_reason = reason\<rparr>)))"

definition parse_frontend :: "string \<Rightarrow> string \<Rightarrow> index_frontend result" where
  "parse_frontend v ctx = parse_enum v [(''ast-json'', Ast_Json), (''libtooling'', Lib_Tooling)] ctx"

definition parse_identity :: "json \<Rightarrow> string \<Rightarrow> symbol_identity result" where
  "parse_identity v ctx =
     rbind (require_keys v [''quality'', ''configuration_id'', ''usr'', ''linkage_name'',
              ''translation_unit'', ''fallback_anchor''] [] ctx) (\<lambda>_.
     rbind (require_string_field v ''configuration_id'' ctx False) (\<lambda>configuration_id.
     rbind (require_string_field v ''usr'' ctx True) (\<lambda>usr.
     rbind (require_string_field v ''linkage_name'' ctx True) (\<lambda>linkage_name.
     rbind (require_string_field v ''translation_unit'' ctx True) (\<lambda>translation_unit.
     rbind (require_string_field v ''fallback_anchor'' ctx True) (\<lambda>fallback_anchor.
     rbind (rbind (require_string_field v ''quality'' ctx False)
              (\<lambda>q. parse_enum q [(''stable'', Stable), (''fallback'', Fallback)] (ctx @ ''.quality'')))
       (\<lambda>quality.
     Inr \<lparr>si_configuration_id = configuration_id, si_usr = usr, si_linkage_name = linkage_name,
          si_translation_unit = translation_unit, si_fallback_anchor = fallback_anchor,
          si_quality = quality\<rparr>)))))))"

definition symbol_kinds :: "(string \<times> symbol_kind) list" where
  "symbol_kinds = [(''function'', Function), (''method'', Method), (''constructor'', Constructor),
     (''destructor'', Destructor), (''synthetic'', Synthetic)]"

definition symbol_scopes :: "(string \<times> symbol_scope) list" where
  "symbol_scopes = [(''reportable'', Reportable), (''indexed'', Indexed),
     (''external_opaque'', External_Opaque)]"

definition check_symbol :: "symbol \<Rightarrow> string \<Rightarrow> symbol result" where
  "check_symbol s ctx =
     (let i = sym_identity s in
      case make_symbol_identity (si_configuration_id i) (si_usr i) (si_linkage_name i)
          (si_translation_unit i) (si_fallback_anchor i) of
        Inl e \<Rightarrow> Inl (invalid_artifact ctx (exn_what e))
      | Inr validated \<Rightarrow>
          if si_quality validated \<noteq> si_quality i then
            Inl (invalid_artifact ctx ''identity quality does not match its identity fields'')
          else if stable_symbol_key i \<noteq> sym_key s then
            Inl (invalid_artifact ctx ''symbol id does not match its identity fields'')
          else Inr s)"

definition parse_symbol :: "json \<Rightarrow> string \<Rightarrow> symbol result" where
  "parse_symbol v ctx =
     rbind (require_keys v [''id'', ''identity'', ''name'', ''qualified_name'', ''class_name'',
              ''signature'', ''kind'', ''scope'', ''defined'', ''internal_linkage'', ''virtual'',
              ''source''] [] ctx) (\<lambda>_.
     rbind (require_value v ''identity'' ctx) (\<lambda>identity_value.
     rbind (parse_identity identity_value (ctx @ ''.identity'')) (\<lambda>identity.
     rbind (require_string_field v ''id'' ctx False) (\<lambda>key.
     rbind (require_string_field v ''name'' ctx True) (\<lambda>name.
     rbind (require_string_field v ''qualified_name'' ctx True) (\<lambda>qualified_name.
     rbind (require_string_field v ''class_name'' ctx True) (\<lambda>class_name.
     rbind (require_string_field v ''signature'' ctx True) (\<lambda>signature.
     rbind (rbind (require_value v ''source'' ctx) (\<lambda>x. parse_source x (ctx @ ''.source''))) (\<lambda>source.
     rbind (rbind (require_string_field v ''kind'' ctx False)
              (\<lambda>k. parse_enum k symbol_kinds (ctx @ ''.kind''))) (\<lambda>kind.
     rbind (rbind (require_string_field v ''scope'' ctx False)
              (\<lambda>k. parse_enum k symbol_scopes (ctx @ ''.scope''))) (\<lambda>scope.
     rbind (require_bool v ''defined'' ctx) (\<lambda>defined.
     rbind (require_bool v ''internal_linkage'' ctx) (\<lambda>internal_linkage.
     rbind (require_bool v ''virtual'' ctx) (\<lambda>is_virtual.
     check_symbol \<lparr>sym_key = key, sym_identity = identity, sym_name = name,
       sym_qualified_name = qualified_name, sym_class_name = class_name, sym_signature = signature,
       sym_source = source, sym_kind = kind, sym_scope = scope, sym_defined = defined,
       sym_internal_linkage = internal_linkage, sym_is_virtual = is_virtual\<rparr> ctx))))))))))))))"

definition item_context :: "string \<Rightarrow> nat \<Rightarrow> string" where
  "item_context section_name index =
     ''document.'' @ section_name @ ''['' @ to_string_nat index @ '']''"

type_synonym ids = "string \<rightharpoonup> nat"

definition read_symbol ::
    "artifact_metadata \<Rightarrow> nat \<times> json \<Rightarrow> ids \<times> graph \<Rightarrow> (ids \<times> graph) result" where
  "read_symbol m item = (\<lambda>(ids, g).
     let ctx = item_context ''symbols'' (fst item) in
     rbind (parse_symbol (snd item) ctx) (\<lambda>s.
       if si_configuration_id (sym_identity s) \<noteq> gm_configuration_id m then
         Inl (invalid_artifact ctx ''configuration identity does not match the artifact'')
       else if ids (sym_key s) \<noteq> None then
         Inl (invalid_artifact ctx ''duplicate symbol id'')
       else
         rbind (add_or_merge_symbol s g) (\<lambda>(i, g'). Inr (emplace (sym_key s) i ids, g'))))"

definition symbol_id :: "ids \<Rightarrow> string \<Rightarrow> string \<Rightarrow> nat result" where
  "symbol_id ids key ctx =
     (case ids key of
        None \<Rightarrow> Inl (invalid_artifact ctx (''references unknown symbol '' @ tick key))
      | Some i \<Rightarrow> Inr i)"

definition referenced :: "ids \<Rightarrow> json \<Rightarrow> string \<Rightarrow> string \<Rightarrow> nat result" where
  "referenced ids v key ctx =
     rbind (require_string_field v key ctx False) (\<lambda>s. symbol_id ids s (ctx @ ''.'' @ key))"

definition evidence_field :: "json \<Rightarrow> string \<Rightarrow> evidence result" where
  "evidence_field v ctx =
     rbind (require_value v ''evidence'' ctx) (\<lambda>x. parse_evidence_object x (ctx @ ''.evidence''))"

definition edge_kinds :: "(string \<times> edge_kind) list" where
  "edge_kinds = [(''direct_call'', Direct_Call), (''constructs'', Constructs),
     (''virtual_dispatch'', Virtual_Dispatch), (''callback_registration'', Callback_Edge),
     (''provider'', Provider_Edge)]"

definition root_kinds :: "(string \<times> root_kind) list" where
  "root_kinds = [(''application_entry_point'', Application_Entry_Point),
     (''global_initializer'', Global_Initializer), (''manual'', Manual),
     (''callback_registration'', Callback_Root), (''provider'', Provider_Root),
     (''public_api'', Public_Api)]"

definition escape_kinds :: "(string \<times> escape_kind) list" where
  "escape_kinds = [(''address_taken'', Address_Taken), (''callable_object'', Callable_Object),
     (''provider'', Provider_Escape)]"

definition kind_field :: "json \<Rightarrow> (string \<times> 'a) list \<Rightarrow> string \<Rightarrow> 'a result" where
  "kind_field v table ctx =
     rbind (require_string_field v ''kind'' ctx False) (\<lambda>k. parse_enum k table (ctx @ ''.kind''))"

definition read_edge :: "ids \<Rightarrow> nat \<times> json \<Rightarrow> graph \<Rightarrow> graph result" where
  "read_edge ids item g =
     (let ctx = item_context ''edges'' (fst item); v = snd item in
      rbind (require_keys v [''from'', ''to'', ''kind'', ''evidence''] [] ctx) (\<lambda>_.
      rbind (referenced ids v ''from'' ctx) (\<lambda>from.
      rbind (referenced ids v ''to'' ctx) (\<lambda>to.
      rbind (kind_field v edge_kinds ctx) (\<lambda>kind.
      rbind (evidence_field v ctx) (\<lambda>evidence.
      add_edge from to kind evidence g))))))"

definition read_root :: "ids \<Rightarrow> nat \<times> json \<Rightarrow> graph \<Rightarrow> graph result" where
  "read_root ids item g =
     (let ctx = item_context ''roots'' (fst item); v = snd item in
      rbind (require_keys v [''symbol'', ''kind'', ''evidence''] [] ctx) (\<lambda>_.
      rbind (referenced ids v ''symbol'' ctx) (\<lambda>i.
      rbind (kind_field v root_kinds ctx) (\<lambda>kind.
      rbind (evidence_field v ctx) (\<lambda>evidence.
      add_root i kind evidence g)))))"

definition read_escape :: "ids \<Rightarrow> nat \<times> json \<Rightarrow> graph \<Rightarrow> graph result" where
  "read_escape ids item g =
     (let ctx = item_context ''escapes'' (fst item); v = snd item in
      rbind (require_keys v [''symbol'', ''from'', ''kind'', ''evidence''] [] ctx) (\<lambda>_.
      rbind (require_value v ''from'' ctx) (\<lambda>from.
      rbind (if is_null from then Inr None
             else
               case as_string from of
                 Some (c # cs) \<Rightarrow>
                   rbind (symbol_id ids (c # cs) (ctx @ ''.from'')) (\<lambda>i. Inr (Some i))
               | _ \<Rightarrow> Inl (invalid_artifact (ctx @ ''.from'') ''must be null or a symbol id''))
        (\<lambda>from_id.
      rbind (referenced ids v ''symbol'' ctx) (\<lambda>i.
      rbind (kind_field v escape_kinds ctx) (\<lambda>kind.
      rbind (evidence_field v ctx) (\<lambda>evidence.
      add_escape i kind evidence from_id g)))))))"

definition read_suppression :: "ids \<Rightarrow> nat \<times> json \<Rightarrow> graph \<Rightarrow> graph result" where
  "read_suppression ids item g =
     (let ctx = item_context ''suppressions'' (fst item); v = snd item in
      rbind (require_keys v [''symbol'', ''evidence''] [] ctx) (\<lambda>_.
      rbind (referenced ids v ''symbol'' ctx) (\<lambda>i.
      rbind (evidence_field v ctx) (\<lambda>evidence.
      add_suppression i evidence g))))"

definition target_kinds :: "string list" where
  "target_kinds = [''executable'', ''static_library'', ''shared_library'', ''module_library'',
     ''object_library'', ''interface_library'', ''utility'']"

definition read_metadata :: "json \<Rightarrow> artifact_metadata result" where
  "read_metadata doc =
     rbind (require_string_field doc ''configuration_id'' ''document'' False) (\<lambda>configuration_id.
     rbind (rbind (require_string_field doc ''frontend'' ''document'' False)
              (\<lambda>f. parse_frontend f ''document.frontend'')) (\<lambda>frontend.
     rbind (require_size doc ''translation_units'' ''document'') (\<lambda>translation_units.
     rbind (require_value doc ''analysis_context'' ''document'') (\<lambda>c.
     rbind (require_keys c [''configuration'', ''target_id'', ''target_name'', ''target_kind'',
              ''closure_targets''] [] ''document.analysis_context'') (\<lambda>_.
     rbind (require_string_field c ''configuration'' ''analysis_context'' True) (\<lambda>configuration.
     rbind (nullable_string c ''target_id'' ''analysis_context'') (\<lambda>target_id.
     rbind (nullable_string c ''target_name'' ''analysis_context'') (\<lambda>target_name.
     rbind (nullable_string c ''target_kind'' ''analysis_context'') (\<lambda>target_kind.
     let target_fields = of_bool (target_id \<noteq> []) + of_bool (target_name \<noteq> []) +
           of_bool (target_kind \<noteq> []) :: nat in
     if target_fields \<noteq> 0 \<and> target_fields \<noteq> 3 then
       Inl (invalid_artifact ''analysis_context''
         ''target id, name, and kind must appear together'')
     else if target_kind \<noteq> [] \<and> target_kind \<notin> set target_kinds then
       Inl (invalid_artifact ''analysis_context.target_kind''
         ''contains an unsupported target kind'')
     else
       rbind (require_array c ''closure_targets'' ''analysis_context'') (\<lambda>vs.
       rbind (map_result (\<lambda>v. case as_string v of
           Some (x # xs) \<Rightarrow> Inr (x # xs)
         | _ \<Rightarrow> Inl (invalid_artifact ''analysis_context.closure_targets''
                 ''entries must be non-empty strings'')) vs) (\<lambda>closure_targets.
       Inr \<lparr>gm_configuration_id = configuration_id, gm_configuration = configuration,
            gm_target_id = target_id, gm_target_name = target_name, gm_target_kind = target_kind,
            gm_closure_targets = closure_targets, gm_frontend = frontend,
            gm_translation_units = translation_units\<rparr>)))))))))))"

definition require_version :: "json \<Rightarrow> string \<Rightarrow> nat \<Rightarrow> unit result" where
  "require_version doc key version =
     rbind (require_size doc key ''document'') (\<lambda>n.
       if n \<noteq> version then Inl (invalid_artifact ''document'' (''unsupported '' @ key))
       else Inr ())"

definition read_section ::
    "json \<Rightarrow> string \<Rightarrow> (nat \<times> json \<Rightarrow> 's \<Rightarrow> 's result) \<Rightarrow> 's \<Rightarrow> 's result" where
  "read_section doc key step s =
     rbind (require_array doc key ''document'') (\<lambda>vs. fold_result step (enumerate 0 vs) s)"

definition read_document :: "json \<Rightarrow> graph_artifact result" where
  "read_document doc =
     rbind (require_keys doc [''artifact_schema_version'', ''identity_schema_version'',
              ''configuration_id'', ''analysis_context'', ''frontend'', ''translation_units'',
              ''symbols'', ''edges'', ''roots'', ''escapes'', ''suppressions'', ''diagnostics'']
            [] ''document'') (\<lambda>_.
     rbind (require_version doc ''artifact_schema_version'' graph_artifact_schema_version) (\<lambda>_.
     rbind (require_version doc ''identity_schema_version'' symbol_identity_schema_version) (\<lambda>_.
     rbind (read_metadata doc) (\<lambda>m.
     rbind (read_section doc ''symbols'' (read_symbol m) (Map.empty, empty_graph)) (\<lambda>(ids, g0).
     rbind (read_section doc ''edges'' (read_edge ids) g0) (\<lambda>g1.
     rbind (read_section doc ''roots'' (read_root ids) g1) (\<lambda>g2.
     rbind (read_section doc ''escapes'' (read_escape ids) g2) (\<lambda>g3.
     rbind (read_section doc ''suppressions'' (read_suppression ids) g3) (\<lambda>g4.
     rbind (require_array doc ''diagnostics'' ''document'') (\<lambda>vs.
     rbind (map_result (\<lambda>v. case as_string v of
         None \<Rightarrow> Inl (invalid_artifact ''document.diagnostics'' ''entries must be strings'')
       | Some s \<Rightarrow> Inr s) vs) (\<lambda>diagnostics.
     Inr \<lparr>ga_graph = canonicalize g4, ga_metadata = m, ga_diagnostics = diagnostics\<rparr>)))))))))))"

definition read_graph_artifact :: "string \<Rightarrow> graph_artifact result" where
  "read_graph_artifact document =
     (case parse document of
        Inl e \<Rightarrow> Inl (Runtime_Error (''invalid graph artifact JSON: '' @ parse_error_what e))
      | Inr doc \<Rightarrow> read_document doc)"

end
