(* ===== verification/Artifact_Facts.thy ===== *)
theory Artifact_Facts
  imports Artifact Graph_Facts Samples
begin

text \<open>
  The artifact round trip: the text of a graph spells one JSON value, and the reader turns that
  value back into the canonical form of the graph.
\<close>

section \<open>The value a text spells\<close>

definition size_json :: "nat \<Rightarrow> json" where "size_json n = JNumber (of_nat n)"

definition source_point_json :: "source_point \<Rightarrow> json" where
  "source_point_json p = object_of
     [(''file'', JString (sp_file p)), (''line'', size_json (sp_line p)),
      (''column'', size_json (sp_column p)), (''offset'', size_json (sp_offset p)),
      (''token_length'', size_json (sp_token_length p))]"

definition range_json :: "source_extent \<Rightarrow> json" where
  "range_json x = object_of [(''begin'', source_point_json (sx_begin x)),
     (''end'', source_point_json (sx_end x))]"

definition source_extent_json :: "source_extent \<Rightarrow> json" where
  "source_extent_json x = object_of
     [(''location'', source_point_json (sx_location x)), (''range'', range_json x)]"

definition source_json :: "symbol_source \<Rightarrow> json" where
  "source_json s = object_of
     [(''spelling'', source_extent_json (ss_spelling s)),
      (''expansion'', case ss_expansion s of Some x \<Rightarrow> source_extent_json x | None \<Rightarrow> JNull)]"

definition evidence_json :: "evidence \<Rightarrow> json" where
  "evidence_json e = object_of
     [(''provider'', JString (ev_provider e)), (''reason'', JString (ev_reason e))]"

definition nullable_json :: "string \<Rightarrow> json" where
  "nullable_json s = (if s = [] then JNull else JString s)"

definition identity_json :: "symbol_identity \<Rightarrow> json" where
  "identity_json i = object_of
     [(''quality'', JString (identity_quality_to_string (si_quality i))),
      (''configuration_id'', JString (si_configuration_id i)), (''usr'', JString (si_usr i)),
      (''linkage_name'', JString (si_linkage_name i)),
      (''translation_unit'', JString (si_translation_unit i)),
      (''fallback_anchor'', JString (si_fallback_anchor i))]"

definition symbol_json :: "symbol \<Rightarrow> json" where
  "symbol_json s = object_of
     [(''id'', JString (sym_key s)), (''identity'', identity_json (sym_identity s)),
      (''name'', JString (sym_name s)), (''qualified_name'', JString (sym_qualified_name s)),
      (''class_name'', JString (sym_class_name s)), (''signature'', JString (sym_signature s)),
      (''kind'', JString (symbol_kind_to_string (sym_kind s))),
      (''scope'', JString (symbol_scope_to_string (sym_scope s))),
      (''defined'', JBool (sym_defined s)), (''internal_linkage'', JBool (sym_internal_linkage s)),
      (''virtual'', JBool (sym_is_virtual s)), (''source'', source_json (sym_source s))]"

definition edge_json :: "graph \<Rightarrow> edge \<Rightarrow> json" where
  "edge_json g e = object_of
     [(''from'', JString (key_at g (edge_from e))), (''to'', JString (key_at g (edge_to e))),
      (''kind'', JString (edge_kind_to_string (edge_kind e))),
      (''evidence'', evidence_json (edge_evidence e))]"

definition root_json :: "graph \<Rightarrow> root \<Rightarrow> json" where
  "root_json g r = object_of
     [(''symbol'', JString (key_at g (root_symbol r))),
      (''kind'', JString (root_kind_to_string (root_kind r))),
      (''evidence'', evidence_json (root_evidence r))]"

definition escape_json :: "graph \<Rightarrow> escape \<Rightarrow> json" where
  "escape_json g x = object_of
     [(''symbol'', JString (key_at g (esc_symbol x))),
      (''from'', case esc_from x of Some f \<Rightarrow> JString (key_at g f) | None \<Rightarrow> JNull),
      (''kind'', JString (escape_kind_to_string (esc_kind x))),
      (''evidence'', evidence_json (esc_evidence x))]"

definition suppression_json :: "graph \<Rightarrow> suppression \<Rightarrow> json" where
  "suppression_json g p = object_of
     [(''symbol'', JString (key_at g (sup_symbol p))), (''evidence'', evidence_json (sup_evidence p))]"

definition context_json :: "artifact_metadata \<Rightarrow> json" where
  "context_json m = object_of
     [(''configuration'', JString (gm_configuration m)),
      (''target_id'', nullable_json (gm_target_id m)),
      (''target_name'', nullable_json (gm_target_name m)),
      (''target_kind'', nullable_json (gm_target_kind m)),
      (''closure_targets'', JArray (map JString (gm_closure_targets m)))]"

definition artifact_json :: "graph \<Rightarrow> artifact_metadata \<Rightarrow> string list \<Rightarrow> json" where
  "artifact_json g m diagnostics = object_of
     [(''artifact_schema_version'', size_json graph_artifact_schema_version),
      (''identity_schema_version'', size_json symbol_identity_schema_version),
      (''configuration_id'', JString (gm_configuration_id m)),
      (''analysis_context'', context_json m),
      (''frontend'', JString (index_frontend_to_string (gm_frontend m))),
      (''translation_units'', size_json (gm_translation_units m)),
      (''symbols'', JArray (map (\<lambda>i. symbol_json (g_symbols g ! i)) (sorted_symbols g))),
      (''edges'', JArray (map (edge_json g) (artifact_edges g))),
      (''roots'', JArray (map (root_json g) (artifact_roots g))),
      (''escapes'', JArray (map (escape_json g) (artifact_escapes g))),
      (''suppressions'', JArray (map (suppression_json g) (artifact_suppressions g))),
      (''diagnostics'', JArray (map JString (remdups_adj (sort diagnostics))))]"

text \<open>Sizes are exact as doubles.\<close>

definition point_ok :: "source_point \<Rightarrow> bool" where
  "point_ok p \<longleftrightarrow> sp_line p < 2 ^ 53 \<and> sp_column p < 2 ^ 53 \<and> sp_offset p < 2 ^ 53 \<and>
     sp_token_length p < 2 ^ 53"

definition extent_ok :: "source_extent \<Rightarrow> bool" where
  "extent_ok x \<longleftrightarrow> point_ok (sx_location x) \<and> point_ok (sx_begin x) \<and> point_ok (sx_end x)"

definition source_ok :: "symbol_source \<Rightarrow> bool" where
  "source_ok s \<longleftrightarrow> extent_ok (ss_spelling s) \<and> (\<forall>x. ss_expansion s = Some x \<longrightarrow> extent_ok x)"

lemma spells_size: "n < 2 ^ 53 \<Longrightarrow> spells (size_json n) (to_string_nat n)"
  by (simp add: size_json_def spells_nat)

lemma blank_artifact_layouts [simp]:
  "blank_layout symbol_layout" "blank_layout section_layout" "blank_layout document_layout"
  "blank []" "blank '' ''" "blank ''  ''"
  by (simp_all add: blank_layout_def blank_def symbol_layout_def section_layout_def
      document_layout_def newline_def is_space_def)

lemma spells_point: "point_ok p \<Longrightarrow> spells (source_point_json p) (source_point_text p)"
  unfolding source_point_json_def source_point_text_def point_ok_def
  by (rule spells_object) (simp_all add: spells_size)

lemma spells_extent: "extent_ok x \<Longrightarrow> spells (source_extent_json x) (source_extent_text x)"
  unfolding source_extent_json_def source_extent_text_def extent_ok_def range_json_def
  by (rule spells_object) (simp_all add: spells_point spells_object)

lemma spells_source: "source_ok s \<Longrightarrow> spells (source_json s) (source_text s)"
  unfolding source_json_def source_text_def source_ok_def
  by (rule spells_object) (simp_all add: spells_extent split: option.split)

lemma spells_evidence [simp]: "spells (evidence_json e) (evidence_text e)"
  unfolding evidence_json_def evidence_text_def by (rule spells_object) simp_all

lemma spells_nullable [simp]: "spells (nullable_json s) (nullable_text s)"
  by (simp add: nullable_json_def nullable_text_def)

lemma spells_identity [simp]: "spells (identity_json i) (identity_text i)"
  unfolding identity_json_def identity_text_def by (rule spells_object) simp_all

lemma spells_symbol: "source_ok (sym_source s) \<Longrightarrow> spells (symbol_json s) (symbol_text s)"
  unfolding symbol_json_def symbol_text_def by (rule spells_object) (simp_all add: spells_source)

lemma spells_facts [simp]:
  "spells (edge_json g e) (edge_text g e)" "spells (root_json g r) (root_text g r)"
  "spells (escape_json g x) (escape_text g x)" "spells (suppression_json g p) (suppression_text g p)"
  unfolding edge_json_def edge_text_def root_json_def root_text_def escape_json_def escape_text_def
    suppression_json_def suppression_text_def key_at_def
  by (rule spells_object; simp split: option.split)+

lemma spells_list:
  "(\<And>x. x \<in> set xs \<Longrightarrow> spells (f x) (t x)) \<Longrightarrow> list_all2 spells (map f xs) (map t xs)"
  by (simp add: list_all2_conv_all_nth)

lemma spells_section:
  "(\<And>x. x \<in> set xs \<Longrightarrow> spells (f x) (t x)) \<Longrightarrow>
     spells (JArray (map f xs)) (section_text (map t xs))"
  unfolding section_text_def by (rule spells_array [OF spells_list]) simp_all

lemma spells_context [simp]: "spells (context_json m) (context_text m)"
  unfolding context_json_def context_text_def
  by (rule spells_object) (simp_all add: spells_array spells_list)

definition writable :: "graph \<Rightarrow> artifact_metadata \<Rightarrow> bool" where
  "writable g m \<longleftrightarrow> gm_configuration_id m \<noteq> [] \<and> gm_translation_units m < 2 ^ 53 \<and>
     (\<forall>s \<in> set (g_symbols g). si_configuration_id (sym_identity s) = gm_configuration_id m \<and>
        source_ok (sym_source s))"

lemma spells_document:
  assumes "writable g m"
  shows "spells (artifact_json g m diagnostics) (document_text g m diagnostics)"
proof -
  have "spells (symbol_json (g_symbols g ! i)) (symbol_text (g_symbols g ! i))"
    if "i \<in> set (sorted_symbols g)" for i
    by (rule spells_symbol) (use that assms in \<open>auto simp: sorted_symbols_def writable_def\<close>)
  then show ?thesis
    unfolding artifact_json_def document_text_def
    by (intro spells_object)
      (use assms in \<open>simp_all add: spells_section spells_size writable_def
        graph_artifact_schema_version_def symbol_identity_schema_version_def\<close>)
qed

lemma write_writable:
  "writable g m \<Longrightarrow>
     write_graph_artifact g m diagnostics = Inr (document_text g m diagnostics @ newline)"
  by (auto simp: write_graph_artifact_def writable_def find_None_iff split: option.splits
      dest!: find_Some_iff [THEN iffD1] nth_mem)

section \<open>Reading the value back\<close>

lemma require_object_object_of:
  "require_object (object_of kvs) ctx = Inr (fold (insort_key fst) kvs [])"
  by (simp add: require_object_def object_of_def)

lemma require_value_object_of [simp]:
  assumes "distinct (map fst kvs)"
  shows "require_value (object_of kvs) key ctx =
    (case map_of kvs key of
       None \<Rightarrow> Inl (invalid_artifact ctx (''requires '' @ tick key))
     | Some field \<Rightarrow> Inr field)"
  using json_find_object_of [OF assms, of key]
  by (simp add: require_value_def require_object_object_of) (simp add: object_of_def)

lemma require_keys_object_of [simp]:
  assumes "set required = fst ` set kvs"
  shows "require_keys (object_of kvs) required [] ctx = Inr ()"
proof -
  have "find (\<lambda>k. k \<notin> fst ` set kvs) required = None"
    using assms by (auto simp: find_None_iff)
  moreover have "find (\<lambda>(k, unused). k \<notin> set required \<and> k \<notin> set []) (fold (insort_key fst) kvs []) = None"
    using assms by (force simp: find_None_iff)
  ultimately show ?thesis
    by (simp add: require_keys_def require_object_object_of)
qed

lemmas require_field_defs = require_string_field_def require_bool_def nullable_string_def
  require_size_def require_array_def

lemma size_json_exact:
  "n < 2 ^ 53 \<Longrightarrow> (case as_number (size_json n) of
       None \<Rightarrow> Inl e
     | Some x \<Rightarrow>
         if x < 0 \<or> of_int \<lfloor>x\<rfloor> \<noteq> x \<or> largest_exact_json_integer < x then Inl e
         else Inr (nat \<lfloor>x\<rfloor>)) = Inr n"
proof -
  assume "n < 2 ^ 53"
  then have "n \<le> 9007199254740991" by simp
  then have "(of_nat n :: rat) \<le> of_nat 9007199254740991" by (simp only: of_nat_le_iff)
  then show ?thesis by (simp add: size_json_def largest_exact_json_integer_def)
qed

lemma read_point: "point_ok p \<Longrightarrow> parse_source_point (source_point_json p) ctx = Inr p"
  by (simp add: parse_source_point_def source_point_json_def require_field_defs size_json_exact
      point_ok_def)

lemma read_extent: "extent_ok x \<Longrightarrow> parse_source_extent (source_extent_json x) ctx = Inr x"
  by (simp add: parse_source_extent_def source_extent_json_def range_json_def read_point
      extent_ok_def)

lemma is_null_object_of [simp]: "\<not> is_null (object_of kvs)"
  by (simp add: object_of_def)

lemma read_source: "source_ok s \<Longrightarrow> parse_source (source_json s) ctx = Inr s"
  by (cases "ss_expansion s")
    (simp_all add: parse_source_def source_json_def read_extent source_ok_def,
     simp add: source_extent_json_def)

lemma read_evidence: "parse_evidence_object (evidence_json e) ctx = Inr e"
  by (simp add: parse_evidence_object_def evidence_json_def require_field_defs)

lemma read_identity:
  assumes "si_configuration_id i \<noteq> []"
  shows "parse_identity (identity_json i) ctx = Inr i"
  using assms by (cases "si_quality i")
    (simp_all add: parse_identity_def identity_json_def require_field_defs parse_enum_def)

text \<open>A symbol that the reader accepts: its identity is complete and its key is the stable key.\<close>

definition symbol_ok :: "symbol \<Rightarrow> bool" where
  "symbol_ok s \<longleftrightarrow> source_ok (sym_source s) \<and> sym_scope s \<noteq> Excluded \<and>
     sym_key s = stable_symbol_key (sym_identity s) \<and>
     (let i = sym_identity s in
      make_symbol_identity (si_configuration_id i) (si_usr i) (si_linkage_name i)
        (si_translation_unit i) (si_fallback_anchor i) = Inr i)"

lemma stable_symbol_key_nonempty: "stable_symbol_key i \<noteq> []"
  by (simp add: stable_symbol_key_def append_component_def Let_def)

lemma read_symbol_value:
  assumes "symbol_ok s"
  shows "parse_symbol (symbol_json s) ctx = Inr s"
proof -
  from assms have c: "si_configuration_id (sym_identity s) \<noteq> []"
    by (auto simp: symbol_ok_def make_symbol_identity_def Let_def split: if_splits)
  have key: "sym_key s \<noteq> []" using assms by (simp add: symbol_ok_def stable_symbol_key_nonempty)
  have kind: "parse_enum (symbol_kind_to_string (sym_kind s)) symbol_kinds ctx = Inr (sym_kind s)"
    "symbol_kind_to_string (sym_kind s) \<noteq> []" for ctx
    by (cases "sym_kind s"; simp add: parse_enum_def symbol_kinds_def)+
  have scope: "parse_enum (symbol_scope_to_string (sym_scope s)) symbol_scopes ctx = Inr (sym_scope s)"
    "symbol_scope_to_string (sym_scope s) \<noteq> []" for ctx
    using assms by (cases "sym_scope s"; simp add: parse_enum_def symbol_scopes_def symbol_ok_def)+
  have "check_symbol s ctx = Inr s"
    using assms by (simp add: check_symbol_def symbol_ok_def Let_def)
  moreover have "source_ok (sym_source s)" using assms by (simp add: symbol_ok_def)
  ultimately show ?thesis
    using c key kind scope
    by (cases s) (simp add: parse_symbol_def symbol_json_def require_field_defs read_identity read_source)
qed

section \<open>The loops of the reader\<close>

lemma add_fresh_symbol:
  assumes "graph_wf h" "sym_key s \<noteq> []" "sym_scope s \<noteq> Excluded" "sym_key s \<notin> set (keys_of h)"
  obtains h' where "add_or_merge_symbol s h = Inr (length (g_symbols h), h')" "graph_wf h'"
    "g_symbols h' = g_symbols h @ [s]" "graph_facts h' = graph_facts h"
    "g_key_to_id h' = emplace (sym_key s) (length (g_symbols h)) (g_key_to_id h)"
proof -
  let ?h = "h\<lparr>g_key_to_id := emplace (sym_key s) (length (g_symbols h)) (g_key_to_id h),
    g_symbols := g_symbols h @ [s]\<rparr>"
  have "g_key_to_id h (sym_key s) = None" using graph_wf_index_None [OF assms(1)] assms(4) by blast
  then have eq: "add_or_merge_symbol s h = Inr (length (g_symbols h), ?h)"
    using assms(2,3) by (simp add: add_or_merge_symbol_def Let_def)
  from add_or_merge_symbol_wf [OF assms(1) eq] have "graph_wf ?h" by blast
  with eq show thesis by (intro that [of ?h]) (simp_all add: graph_facts_def)
qed

lemma read_symbols:
  assumes "graph_wf h" "\<forall>s \<in> set ss. symbol_ok s \<and>
      si_configuration_id (sym_identity s) = gm_configuration_id m"
    and "distinct (map sym_key ss)" "set (map sym_key ss) \<inter> set (keys_of h) = {}"
  shows "\<exists>h'. fold_result (read_symbol m) (enumerate n (map symbol_json ss)) (g_key_to_id h, h) =
      Inr (g_key_to_id h', h') \<and> graph_wf h' \<and> g_symbols h' = g_symbols h @ ss \<and>
      graph_facts h' = graph_facts h"
  using assms
proof (induction ss arbitrary: h n)
  case Nil
  then show ?case by simp
next
  case (Cons s ss)
  have s: "symbol_ok s" "sym_key s \<noteq> []" "sym_scope s \<noteq> Excluded" "sym_key s \<notin> set (keys_of h)"
    using Cons.prems by (simp_all add: symbol_ok_def stable_symbol_key_nonempty)
  from add_fresh_symbol [OF Cons.prems(1) s(2-4)] obtain h' where
    h': "add_or_merge_symbol s h = Inr (length (g_symbols h), h')" "graph_wf h'"
      "g_symbols h' = g_symbols h @ [s]" "graph_facts h' = graph_facts h"
      "g_key_to_id h' = emplace (sym_key s) (length (g_symbols h)) (g_key_to_id h)" .
  have "g_key_to_id h (sym_key s) = None" using graph_wf_index_None [OF Cons.prems(1)] s(4) by simp
  then have step: "read_symbol m (n, symbol_json s) (g_key_to_id h, h) = Inr (g_key_to_id h', h')"
    using Cons.prems(2) s(1) h'(1,5) by (simp add: read_symbol_def read_symbol_value)
  have "set (keys_of h') = insert (sym_key s) (set (keys_of h))"
    by (simp add: keys_of_def h'(3))
  with Cons.prems have "set (map sym_key ss) \<inter> set (keys_of h') = {}" by auto
  with Cons.IH [OF h'(2) _ _ this, of "Suc n"] Cons.prems step h' show ?case by auto
qed

definition locate :: "ids \<Rightarrow> graph \<Rightarrow> nat \<Rightarrow> nat" where
  "locate ids g i = the (ids (key_at g i))"

definition located :: "ids \<Rightarrow> graph \<Rightarrow> symbol list \<Rightarrow> nat \<Rightarrow> bool" where
  "located ids g symbols i \<longleftrightarrow> key_at g i \<noteq> [] \<and>
     (\<exists>j < length symbols. ids (key_at g i) = Some j)"

lemma symbol_id_located:
  assumes "located ids g symbols i"
  shows "symbol_id ids (key_at g i) ctx = Inr (locate ids g i)"
    and "locate ids g i < length symbols" "\<not> length symbols \<le> locate ids g i" "key_at g i \<noteq> []"
  using assms by (auto simp: located_def symbol_id_def locate_def)

lemma read_kinds:
  "parse_enum (edge_kind_to_string k) edge_kinds ctx = Inr k" "edge_kind_to_string k \<noteq> []"
  "parse_enum (root_kind_to_string rk) root_kinds ctx = Inr rk" "root_kind_to_string rk \<noteq> []"
  "parse_enum (escape_kind_to_string ek) escape_kinds ctx = Inr ek" "escape_kind_to_string ek \<noteq> []"
  by (cases k; cases rk; cases ek;
      simp add: parse_enum_def edge_kinds_def root_kinds_def escape_kinds_def)+

lemmas read_fact_defs = referenced_def kind_field_def evidence_field_def require_string_field_def
  read_evidence read_kinds

interpretation stored_edges: fact_source
    "\<lambda>(n, e). read_edge ids (n, edge_json g e)"
    "\<lambda>symbols (n, e). located ids g symbols (edge_from e) \<and> located ids g symbols (edge_to e)"
    "\<lambda>_ (n, e). {Edge_Fact (e\<lparr>edge_from := locate ids g (edge_from e),
       edge_to := locate ids g (edge_to e)\<rparr>)}" for ids g
proof (unfold_locales, goal_cases)
  case (1 h x)
  obtain n e where x: "x = (n, e)" by force
  with 1(2) have "located ids g (g_symbols h) (edge_from e)" "located ids g (g_symbols h) (edge_to e)"
    by simp_all
  note i = symbol_id_located [OF this(1)] symbol_id_located [OF this(2)]
  with x 1(1) show ?case
    by (cases e) (auto simp: read_edge_def edge_json_def read_fact_defs add_edge_def added_def
        graph_wf_push(1) graph_facts_push Let_def)
qed

interpretation stored_roots: fact_source
    "\<lambda>(n, r). read_root ids (n, root_json g r)"
    "\<lambda>symbols (n, r). located ids g symbols (root_symbol r)"
    "\<lambda>_ (n, r). {Root_Fact (r\<lparr>root_symbol := locate ids g (root_symbol r)\<rparr>)}" for ids g
proof (unfold_locales, goal_cases)
  case (1 h x)
  obtain n r where x: "x = (n, r)" by force
  with 1(2) have "located ids g (g_symbols h) (root_symbol r)" by simp
  note i = symbol_id_located [OF this]
  with x 1(1) show ?case
    by (cases r) (auto simp: read_root_def root_json_def read_fact_defs add_root_def added_def
        graph_wf_push(2) graph_facts_push Let_def)
qed

interpretation stored_suppressions: fact_source
    "\<lambda>(n, p). read_suppression ids (n, suppression_json g p)"
    "\<lambda>symbols (n, p). located ids g symbols (sup_symbol p)"
    "\<lambda>_ (n, p). {Suppression_Fact (p\<lparr>sup_symbol := locate ids g (sup_symbol p)\<rparr>)}" for ids g
proof (unfold_locales, goal_cases)
  case (1 h x)
  obtain n p where x: "x = (n, p)" by force
  with 1(2) have "located ids g (g_symbols h) (sup_symbol p)" by simp
  note i = symbol_id_located [OF this]
  with x 1(1) show ?case
    by (cases p) (auto simp: read_suppression_def suppression_json_def read_fact_defs
        add_suppression_def added_def graph_wf_push(4) graph_facts_push Let_def)
qed

interpretation stored_escapes: fact_source
    "\<lambda>(n, x). read_escape ids (n, escape_json g x)"
    "\<lambda>symbols (n, x). located ids g symbols (esc_symbol x) \<and>
       (\<forall>f. esc_from x = Some f \<longrightarrow> located ids g symbols f)"
    "\<lambda>_ (n, x). {Escape_Fact (x\<lparr>esc_symbol := locate ids g (esc_symbol x),
       esc_from := map_option (locate ids g) (esc_from x)\<rparr>)}" for ids g
proof (unfold_locales, goal_cases)
  case (1 h y)
  obtain n x where y: "y = (n, x)" by force
  with 1(2) have i: "located ids g (g_symbols h) (esc_symbol x)" by simp
  note i = symbol_id_located [OF i]
  let ?x = "x\<lparr>esc_symbol := locate ids g (esc_symbol x),
    esc_from := map_option (locate ids g) (esc_from x)\<rparr>"
  have from_: "located ids g (g_symbols h) f" if "esc_from x = Some f" for f
    using 1(2) y that by simp
  have eq: "read_escape ids (n, escape_json g x) h = Inr (h\<lparr>g_escapes := push_unique ?x (g_escapes h)\<rparr>)"
  proof (cases "esc_from x")
    case None
    with i show ?thesis
      by (cases x) (simp add: read_escape_def escape_json_def read_fact_defs add_escape_def Let_def)
  next
    case (Some f)
    note f = symbol_id_located [OF from_ [OF Some]]
    then obtain c cs where "key_at g f = c # cs" by (cases "key_at g f") auto
    with Some f i show ?thesis
      by (cases x) (simp add: read_escape_def escape_json_def read_fact_defs add_escape_def Let_def)
  qed
  have "graph_wf (h\<lparr>g_escapes := push_unique ?x (g_escapes h)\<rparr>)"
    by (rule graph_wf_push(3) [OF 1(1)]) (use i symbol_id_located(2) [OF from_] in auto)
  then show ?case by (simp add: y eq added_def graph_facts_push)
qed

section \<open>The round trip\<close>

text \<open>The metadata an analysis context can have.\<close>

definition metadata_ok :: "artifact_metadata \<Rightarrow> bool" where
  "metadata_ok m \<longleftrightarrow> gm_configuration_id m \<noteq> [] \<and> gm_translation_units m < 2 ^ 53 \<and>
     [] \<notin> set (gm_closure_targets m) \<and>
     (gm_target_id m = [] \<longleftrightarrow> gm_target_name m = []) \<and>
     (gm_target_id m = [] \<longleftrightarrow> gm_target_kind m = []) \<and>
     (gm_target_kind m \<noteq> [] \<longrightarrow> gm_target_kind m \<in> set target_kinds)"

definition storable :: "graph \<Rightarrow> artifact_metadata \<Rightarrow> bool" where
  "storable g m \<longleftrightarrow> graph_wf g \<and> metadata_ok m \<and>
     (\<forall>s \<in> set (g_symbols g). symbol_ok s \<and>
        si_configuration_id (sym_identity s) = gm_configuration_id m)"

lemma storable_writable: "storable g m \<Longrightarrow> writable g m"
  by (auto simp: storable_def writable_def metadata_ok_def symbol_ok_def)

lemma nullable_read:
  "(if is_null (nullable_json s) then Inr []
    else case as_string (nullable_json s) of Some (c # cs) \<Rightarrow> Inr (c # cs) | _ \<Rightarrow> Inl e) = Inr s"
  by (cases s) (simp_all add: nullable_json_def)

lemma closure_read:
  "[] \<notin> set ts \<Longrightarrow> map_result (\<lambda>v. case as_string v of
       Some (x # xs) \<Rightarrow> Inr (x # xs) | _ \<Rightarrow> Inl e) (map JString ts) = Inr ts"
proof (induction ts)
  case (Cons t ts)
  then show ?case by (cases t) simp_all
qed simp

lemma diagnostics_read:
  "map_result (\<lambda>v. case as_string v of None \<Rightarrow> Inl e | Some s \<Rightarrow> Inr s) (map JString ds) = Inr ds"
  by (induction ds) simp_all

lemma frontend_read:
  "parse_frontend (index_frontend_to_string f) ctx = Inr f" "index_frontend_to_string f \<noteq> []"
  by (cases f; simp add: parse_frontend_def parse_enum_def)+

lemma read_context:
  assumes "metadata_ok m"
  shows "read_metadata (artifact_json g m diagnostics) = Inr m"
proof -
  have fields: "\<not> (of_bool (gm_target_id m \<noteq> []) + of_bool (gm_target_name m \<noteq> []) +
      of_bool (gm_target_kind m \<noteq> []) \<noteq> (0 :: nat) \<and>
      of_bool (gm_target_id m \<noteq> []) + of_bool (gm_target_name m \<noteq> []) +
      of_bool (gm_target_kind m \<noteq> []) \<noteq> (3 :: nat))"
    "\<not> (gm_target_kind m \<noteq> [] \<and> gm_target_kind m \<notin> set target_kinds)"
    using assms by (auto simp: metadata_ok_def)
  have m: "gm_configuration_id m \<noteq> []" "gm_translation_units m < 2 ^ 53" "[] \<notin> set (gm_closure_targets m)"
    using assms by (simp_all add: metadata_ok_def)
  let ?doc = "artifact_json g m diagnostics" and ?c = "context_json m"
  have doc: "require_string_field ?doc ''configuration_id'' ''document'' False = Inr (gm_configuration_id m)"
    "require_string_field ?doc ''frontend'' ''document'' False =
       Inr (index_frontend_to_string (gm_frontend m))"
    "require_size ?doc ''translation_units'' ''document'' = Inr (gm_translation_units m)"
    "require_value ?doc ''analysis_context'' ''document'' = Inr ?c"
    using m(1,2) by (simp_all add: artifact_json_def require_field_defs size_json_exact frontend_read)
  have ctx: "require_keys ?c [''configuration'', ''target_id'', ''target_name'', ''target_kind'',
      ''closure_targets''] [] ''document.analysis_context'' = Inr ()"
    "require_string_field ?c ''configuration'' ''analysis_context'' True = Inr (gm_configuration m)"
    "nullable_string ?c ''target_id'' ''analysis_context'' = Inr (gm_target_id m)"
    "nullable_string ?c ''target_name'' ''analysis_context'' = Inr (gm_target_name m)"
    "nullable_string ?c ''target_kind'' ''analysis_context'' = Inr (gm_target_kind m)"
    "require_array ?c ''closure_targets'' ''analysis_context'' =
       Inr (map JString (gm_closure_targets m))"
    by (simp_all add: context_json_def require_field_defs nullable_read)
  show ?thesis
    unfolding read_metadata_def doc ctx rbind_simps frontend_read Let_def if_not_P [OF fields(1)]
      if_not_P [OF fields(2)] closure_read [OF m(3)] by simp
qed

lemma read_sections:
  "read_section (artifact_json g m diagnostics) ''symbols'' step s =
     fold_result step (enumerate 0 (map (\<lambda>i. symbol_json (g_symbols g ! i)) (sorted_symbols g))) s"
  "read_section (artifact_json g m diagnostics) ''edges'' step' s' =
     fold_result step' (enumerate 0 (map (edge_json g) (artifact_edges g))) s'"
  "read_section (artifact_json g m diagnostics) ''roots'' step' s' =
     fold_result step' (enumerate 0 (map (root_json g) (artifact_roots g))) s'"
  "read_section (artifact_json g m diagnostics) ''escapes'' step' s' =
     fold_result step' (enumerate 0 (map (escape_json g) (artifact_escapes g))) s'"
  "read_section (artifact_json g m diagnostics) ''suppressions'' step' s' =
     fold_result step' (enumerate 0 (map (suppression_json g) (artifact_suppressions g))) s'"
  "require_array (artifact_json g m diagnostics) ''diagnostics'' ctx =
     Inr (map JString (remdups_adj (sort diagnostics)))"
  by (simp_all add: read_section_def artifact_json_def require_array_def)

lemma read_versions:
  "require_keys (artifact_json g m diagnostics) [''artifact_schema_version'',
     ''identity_schema_version'', ''configuration_id'', ''analysis_context'', ''frontend'',
     ''translation_units'', ''symbols'', ''edges'', ''roots'', ''escapes'', ''suppressions'',
     ''diagnostics''] [] ctx = Inr ()"
  "require_version (artifact_json g m diagnostics) ''artifact_schema_version''
     graph_artifact_schema_version = Inr ()"
  "require_version (artifact_json g m diagnostics) ''identity_schema_version''
     symbol_identity_schema_version = Inr ()"
  by (simp_all add: artifact_json_def require_version_def require_size_def size_json_exact
      graph_artifact_schema_version_def symbol_identity_schema_version_def)

lemma fold_enumerate_map:
  "fold_result step (enumerate n (map f xs)) s =
     fold_result (\<lambda>(n, x). step (n, f x)) (enumerate n xs) s"
  by (induction xs arbitrary: n s) (auto intro!: rbind_cong)

lemma set_sorted_symbols: "set (sorted_symbols g) = {..<length (g_symbols g)}"
  by (auto simp: sorted_symbols_def)

lemma stored_symbols:
  assumes "graph_wf g"
  shows "set (map (\<lambda>i. g_symbols g ! i) (sorted_symbols g)) = set (g_symbols g)"
    and "distinct (map sym_key (map (\<lambda>i. g_symbols g ! i) (sorted_symbols g)))"
proof -
  have idx: "set (sorted_symbols g) = {..<length (g_symbols g)}" "distinct (sorted_symbols g)"
    by (auto simp: sorted_symbols_def)
  then show "set (map (\<lambda>i. g_symbols g ! i) (sorted_symbols g)) = set (g_symbols g)"
    using nth_image [of "length (g_symbols g)" "g_symbols g"] by (simp add: lessThan_atLeast0)
  have "inj_on (key_at g) {..<length (g_symbols g)}"
    by (rule inj_onI, rule graph_wf_key_inj [OF assms]) auto
  then have "distinct (map (key_at g) (sorted_symbols g))"
    unfolding distinct_map idx(1) using idx(2) by blast
  moreover have "map (key_at g) is = map sym_key (map (\<lambda>i. g_symbols g ! i) is)" for "is"
    by (simp add: key_at_def)
  ultimately show "distinct (map sym_key (map (\<lambda>i. g_symbols g ! i) (sorted_symbols g)))"
    by metis
qed

text \<open>The facts of the graph that is read, written with the new ids.\<close>

definition moved_edge where
  "moved_edge ids g e = e\<lparr>edge_from := locate ids g (edge_from e), edge_to := locate ids g (edge_to e)\<rparr>"
definition moved_root where
  "moved_root ids g r = r\<lparr>root_symbol := locate ids g (root_symbol r)\<rparr>"
definition moved_escape where
  "moved_escape ids g x = x\<lparr>esc_symbol := locate ids g (esc_symbol x),
     esc_from := map_option (locate ids g) (esc_from x)\<rparr>"
definition moved_suppression where
  "moved_suppression ids g p = p\<lparr>sup_symbol := locate ids g (sup_symbol p)\<rparr>"

lemmas moved_defs = moved_edge_def moved_root_def moved_escape_def moved_suppression_def

lemma located_all:
  assumes g: "graph_wf g" and h: "graph_wf h" and keys: "set (keys_of h) = set (keys_of g)"
    and i: "i < length (g_symbols g)"
  shows "located (g_key_to_id h) g (g_symbols h) i" "key_at h (locate (g_key_to_id h) g i) = key_at g i"
proof -
  have ne: "key_at g i \<noteq> []" using g i by (simp add: graph_wf_def key_at_def)
  have "key_at g i \<in> set (keys_of h)" unfolding keys using i by (metis length_keys_of nth_keys_of nth_mem)
  with graph_wf_index_None [OF h] obtain j where j: "g_key_to_id h (key_at g i) = Some j" by blast
  with graph_wf_index [OF h] have "j < length (g_symbols h)" "key_at h j = key_at g i" by blast+
  with j ne show "located (g_key_to_id h) g (g_symbols h) i"
    "key_at h (locate (g_key_to_id h) g i) = key_at g i" by (auto simp: located_def locate_def)
qed

lemma read_back_content:
  assumes g: "graph_wf g" and h: "graph_wf h" "set (g_symbols h) = set (g_symbols g)"
    and k: "graph_wf k" "g_symbols k = g_symbols h"
    and facts: "graph_facts k =
      Edge_Fact ` moved_edge (g_key_to_id h) g ` set (g_edges g) \<union>
      Root_Fact ` moved_root (g_key_to_id h) g ` set (g_roots g) \<union>
      Escape_Fact ` moved_escape (g_key_to_id h) g ` set (g_escapes g) \<union>
      Suppression_Fact ` moved_suppression (g_key_to_id h) g ` set (g_suppressions g)"
  shows "same_content k g"
proof -
  have "set (keys_of h) = set (keys_of g)" by (simp add: keys_of_def h(2))
  note at = located_all(2) [OF g h(1) this]
  have key: "key_at k i = key_at h i" for i by (simp add: key_at_def k(2))
  have sets: "set (g_edges k) = moved_edge (g_key_to_id h) g ` set (g_edges g)"
    "set (g_roots k) = moved_root (g_key_to_id h) g ` set (g_roots g)"
    "set (g_escapes k) = moved_escape (g_key_to_id h) g ` set (g_escapes g)"
    "set (g_suppressions k) = moved_suppression (g_key_to_id h) g ` set (g_suppressions g)"
  proof -
    have mem: "e \<in> set (g_edges k) \<longleftrightarrow> Edge_Fact e \<in> graph_facts k"
      "r \<in> set (g_roots k) \<longleftrightarrow> Root_Fact r \<in> graph_facts k"
      "x \<in> set (g_escapes k) \<longleftrightarrow> Escape_Fact x \<in> graph_facts k"
      "p \<in> set (g_suppressions k) \<longleftrightarrow> Suppression_Fact p \<in> graph_facts k" for e r x p
      by (auto simp: graph_facts_def)
    show "set (g_edges k) = moved_edge (g_key_to_id h) g ` set (g_edges g)"
      "set (g_roots k) = moved_root (g_key_to_id h) g ` set (g_roots g)"
      "set (g_escapes k) = moved_escape (g_key_to_id h) g ` set (g_escapes g)"
      "set (g_suppressions k) = moved_suppression (g_key_to_id h) g ` set (g_suppressions g)"
      unfolding set_eq_iff mem facts by auto
  qed
  note range = g [unfolded graph_wf_def]
  have "edge_label k (moved_edge (g_key_to_id h) g e) = edge_label g e" if "e \<in> set (g_edges g)" for e
    using that range at by (simp add: edge_label_def moved_defs key)
  moreover have "root_label k (moved_root (g_key_to_id h) g r) = root_label g r"
    if "r \<in> set (g_roots g)" for r
    using that range at by (simp add: root_label_def moved_defs key)
  moreover have "escape_label k (moved_escape (g_key_to_id h) g x) = escape_label g x"
    if "x \<in> set (g_escapes g)" for x
    using that range at by (cases "esc_from x") (simp_all add: escape_label_def moved_defs key)
  moreover have "suppression_label k (moved_suppression (g_key_to_id h) g p) = suppression_label g p"
    if "p \<in> set (g_suppressions g)" for p
    using that range at by (simp add: suppression_label_def moved_defs key)
  ultimately show ?thesis
    unfolding same_content_def edge_facts_def root_facts_def escape_facts_def suppression_facts_def
    by (simp add: sets image_image k(2) h(2) cong: image_cong_simp)
qed

lemma set_artifact_lists [simp]:
  "set (artifact_edges g) = set (g_edges g)" "set (artifact_roots g) = set (g_roots g)"
  "set (artifact_escapes g) = set (g_escapes g)"
  "set (artifact_suppressions g) = set (g_suppressions g)"
  by (simp_all add: artifact_edges_def artifact_roots_def artifact_escapes_def
      artifact_suppressions_def)

lemma enumerate_all: "(\<forall>(n, x) \<in> set (enumerate k xs). P x) \<longleftrightarrow> (\<forall>x \<in> set xs. P x)"
  by (induction xs arbitrary: k) auto

lemma enumerate_union: "(\<Union>(n, x) \<in> set (enumerate k xs). {F x}) = F ` set xs"
  by (induction xs arbitrary: k) auto

text \<open>The four loops over facts, one after the other.\<close>

lemma read_fact_sections:
  fixes m :: artifact_metadata and diagnostics :: "string list"
  assumes g: "graph_wf g" and h: "graph_wf h" "set (g_symbols h) = set (g_symbols g)"
    and empty: "graph_facts h = {}"
  defines "ids \<equiv> g_key_to_id h" and "doc \<equiv> artifact_json g m diagnostics"
  obtains k1 k2 k3 k4 where
    "read_section doc ''edges'' (read_edge ids) h = Inr k1"
    "read_section doc ''roots'' (read_root ids) k1 = Inr k2"
    "read_section doc ''escapes'' (read_escape ids) k2 = Inr k3"
    "read_section doc ''suppressions'' (read_suppression ids) k3 = Inr k4"
    "graph_wf k4" "same_content k4 g"
proof -
  have "set (keys_of h) = set (keys_of g)" by (simp add: keys_of_def h(2))
  note at = located_all(1) [OF g h(1) this, folded ids_def]
  note range = g [unfolded graph_wf_def]
  have ok: "\<forall>(n, e) \<in> set (enumerate 0 (artifact_edges g)).
      located ids g (g_symbols h) (edge_from e) \<and> located ids g (g_symbols h) (edge_to e)"
    "\<forall>(n, r) \<in> set (enumerate 0 (artifact_roots g)). located ids g (g_symbols h) (root_symbol r)"
    "\<forall>(n, x) \<in> set (enumerate 0 (artifact_escapes g)). located ids g (g_symbols h) (esc_symbol x) \<and>
      (\<forall>f. esc_from x = Some f \<longrightarrow> located ids g (g_symbols h) f)"
    "\<forall>(n, p) \<in> set (enumerate 0 (artifact_suppressions g)). located ids g (g_symbols h) (sup_symbol p)"
    unfolding enumerate_all using range at by simp_all
  from stored_edges.loop_adds [OF h(1) ok(1)] obtain k1 where
    k1: "read_section doc ''edges'' (read_edge ids) h = Inr k1"
      "added h k1 (Edge_Fact ` moved_edge ids g ` set (g_edges g))"
    by (auto simp: doc_def read_sections fold_enumerate_map enumerate_union image_image moved_edge_def)
  then have w1: "graph_wf k1" "g_symbols k1 = g_symbols h" by (simp_all add: added_def)
  from stored_roots.loop_adds [OF w1(1), unfolded w1(2), OF ok(2)] obtain k2 where
    k2: "read_section doc ''roots'' (read_root ids) k1 = Inr k2"
      "added k1 k2 (Root_Fact ` moved_root ids g ` set (g_roots g))"
    by (auto simp: doc_def read_sections fold_enumerate_map enumerate_union image_image moved_root_def)
  then have w2: "graph_wf k2" "g_symbols k2 = g_symbols h" using w1 by (simp_all add: added_def)
  from stored_escapes.loop_adds [OF w2(1), unfolded w2(2), OF ok(3)] obtain k3 where
    k3: "read_section doc ''escapes'' (read_escape ids) k2 = Inr k3"
      "added k2 k3 (Escape_Fact ` moved_escape ids g ` set (g_escapes g))"
    by (auto simp: doc_def read_sections fold_enumerate_map enumerate_union image_image moved_escape_def)
  then have w3: "graph_wf k3" "g_symbols k3 = g_symbols h" using w2 by (simp_all add: added_def)
  from stored_suppressions.loop_adds [OF w3(1), unfolded w3(2), OF ok(4)] obtain k4 where
    k4: "read_section doc ''suppressions'' (read_suppression ids) k3 = Inr k4"
      "added k3 k4 (Suppression_Fact ` moved_suppression ids g ` set (g_suppressions g))"
    by (auto simp: doc_def read_sections fold_enumerate_map enumerate_union image_image
        moved_suppression_def)
  from added_trans [OF added_trans [OF added_trans [OF k1(2) k2(2)] k3(2)] k4(2)]
  have all: "graph_wf k4" "g_symbols k4 = g_symbols h"
    "graph_facts k4 = Edge_Fact ` moved_edge ids g ` set (g_edges g) \<union>
      Root_Fact ` moved_root ids g ` set (g_roots g) \<union>
      Escape_Fact ` moved_escape ids g ` set (g_escapes g) \<union>
      Suppression_Fact ` moved_suppression ids g ` set (g_suppressions g)"
    using empty by (simp_all add: added_def)
  from read_back_content [OF g h all [unfolded ids_def]]
  show thesis by (rule that [OF k1(1) k2(1) k3(1) k4(1) all(1)])
qed

lemma stored_artifact_read:
  assumes "storable g m"
  shows "\<exists>document. write_graph_artifact g m diagnostics = Inr document \<and>
    read_graph_artifact document = Inr \<lparr>ga_graph = canonicalize g, ga_metadata = m,
      ga_diagnostics = remdups_adj (sort diagnostics)\<rparr>"
proof -
  have g: "graph_wf g" and m: "metadata_ok m" using assms by (simp_all add: storable_def)
  note writable = storable_writable [OF assms]
  let ?ss = "map (\<lambda>i. g_symbols g ! i) (sorted_symbols g)" and ?doc = "artifact_json g m diagnostics"
  note stored = stored_symbols [OF g]
  have "\<forall>s \<in> set ?ss. symbol_ok s \<and> si_configuration_id (sym_identity s) = gm_configuration_id m"
    unfolding stored(1) using assms by (simp add: storable_def)
  from read_symbols [OF graph_wf_empty this stored(2), of 0] obtain h where
    h: "fold_result (read_symbol m) (enumerate 0 (map symbol_json ?ss)) (Map.empty, empty_graph) =
        Inr (g_key_to_id h, h)" "graph_wf h" "g_symbols h = ?ss" "graph_facts h = {}"
    by (auto simp: empty_graph_def keys_of_def graph_facts_def)
  have symbols: "read_section ?doc ''symbols'' (read_symbol m) (Map.empty, empty_graph) =
      Inr (g_key_to_id h, h)"
    using h(1) by (simp add: read_sections comp_def)
  have "set (g_symbols h) = set (g_symbols g)" using stored(1) h(3) by simp
  then obtain k1 k2 k3 k4 where k:
    "read_section ?doc ''edges'' (read_edge (g_key_to_id h)) h = Inr k1"
    "read_section ?doc ''roots'' (read_root (g_key_to_id h)) k1 = Inr k2"
    "read_section ?doc ''escapes'' (read_escape (g_key_to_id h)) k2 = Inr k3"
    "read_section ?doc ''suppressions'' (read_suppression (g_key_to_id h)) k3 = Inr k4"
    "graph_wf k4" "same_content k4 g"
    by (rule read_fact_sections [OF g h(2) _ h(4)])
  have "read_document ?doc = Inr \<lparr>ga_graph = canonicalize k4, ga_metadata = m,
      ga_diagnostics = remdups_adj (sort diagnostics)\<rparr>"
    unfolding read_document_def read_versions read_context [OF m] rbind_simps symbols prod.case k
      read_sections(6) diagnostics_read ..
  moreover have "canonicalize k4 = canonicalize g" by (rule canonical_form_unique [OF k(5) g k(6)])
  moreover have "parse (document_text g m diagnostics @ newline) = Inr ?doc"
    using parse_spelled [OF spells_document [OF writable], of "[]" newline]
    by (simp add: blank_def newline_def is_space_def)
  ultimately show ?thesis
    by (intro exI [of _ "document_text g m diagnostics @ newline"])
      (simp add: write_writable [OF writable] read_graph_artifact_def)
qed

text \<open>
  C23: Artifacts round trip: reading the text written for a storable graph yields the graph in
  canonical form, with its metadata, and its diagnostics sorted and without repetitions. No
  symbol, edge, root, escape, suppression or piece of evidence is lost, whatever bytes occur in
  names and paths.
\<close>
theorem artifact_round_trip:
  assumes "storable g m"
  shows "\<exists>document. write_graph_artifact g m diagnostics = Inr document \<and>
    read_graph_artifact document = Inr \<lparr>ga_graph = canonicalize g, ga_metadata = m,
      ga_diagnostics = remdups_adj (sort diagnostics)\<rparr>"
  by (rule stored_artifact_read [OF assms])

definition stored_symbol :: "string \<Rightarrow> nat \<Rightarrow> symbol" where
  "stored_symbol name line = (sample_symbol name ''a.cpp'' line (line + 3))
     \<lparr>sym_key := stable_symbol_key (sample_identity name)\<rparr>"

definition stored_graph :: graph where
  "stored_graph = empty_graph\<lparr>
     g_symbols := [stored_symbol ''main'' 1, stored_symbol ''helper'' 9],
     g_edges := [sample_edge 0 1 Direct_Call],
     g_key_to_id := [stable_symbol_key (sample_identity ''main'') \<mapsto> 0,
       stable_symbol_key (sample_identity ''helper'') \<mapsto> 1],
     g_roots := [sample_root 0 Application_Entry_Point]\<rparr>"

definition stored_metadata :: artifact_metadata where
  "stored_metadata = \<lparr>gm_configuration_id = ''debug'', gm_configuration = [], gm_target_id = [],
     gm_target_name = [], gm_target_kind = [], gm_closure_targets = [], gm_frontend = Ast_Json,
     gm_translation_units = 1\<rparr>"

lemma stored_keys: "stable_symbol_key (sample_identity ''main'') \<noteq> stable_symbol_key (sample_identity ''helper'')"
  by code_simp

lemma stored_graph_storable: "storable stored_graph stored_metadata"
proof -
  have "graph_wf stored_graph"
    unfolding graph_wf_def
    by (intro conjI allI wf_by_index)
      (use stored_keys stable_symbol_key_nonempty in \<open>auto simp: stored_graph_def empty_graph_def
        stored_symbol_def sample_symbol_def sample_edge_def sample_root_def keys_of_def key_at_def less_Suc_eq\<close>)
  moreover have "symbol_ok (stored_symbol ''main'' 1)" "symbol_ok (stored_symbol ''helper'' 9)"
    by (simp_all add: symbol_ok_def stored_symbol_def sample_defs source_ok_def extent_ok_def
        point_ok_def make_symbol_identity_def Let_def)
  ultimately show ?thesis
    by (simp add: storable_def metadata_ok_def stored_metadata_def stored_graph_def stored_symbol_def
        sample_defs)
qed

lemma artifact_round_trip_witness:
  "\<exists>document. write_graph_artifact stored_graph stored_metadata [''note''] = Inr document \<and>
     read_graph_artifact document = Inr \<lparr>ga_graph = canonicalize stored_graph,
       ga_metadata = stored_metadata, ga_diagnostics = [''note'']\<rparr>"
  using artifact_round_trip [OF stored_graph_storable, of "[''note'']"] by simp

section \<open>The text depends on the content only\<close>

lemma distinct_remdups_adj_sorted: "sorted (xs :: string list) \<Longrightarrow> distinct (remdups_adj xs)"
  by (induction xs rule: remdups_adj.induct) (auto dest: order.antisym)

lemma insort_key_map: "insort_key k (f x) (map f xs) = map f (insort_key (\<lambda>x. k (f x)) x xs)"
  by (induction xs) auto

lemma sort_key_map: "sort_key k (map f xs) = map f (sort_key (\<lambda>x. k (f x)) xs)"
  by (induction xs) (auto simp: insort_key_map)

lemma sorted_labels_unique:
  assumes "label ` set xs = label' ` set ys" "distinct xs" "distinct ys"
    and "inj_on label (set xs)" "inj_on label' (set ys)" "inj_on k (label ` set xs)"
  shows "map label (sort_key (\<lambda>x. k (label x)) xs) = map label' (sort_key (\<lambda>y. k (label' y)) ys)"
  unfolding sort_key_map [symmetric]
  by (rule sort_key_unique) (use assms in \<open>auto simp: distinct_map\<close>)

text \<open>What the writer prints of a fact is a function of its label.\<close>

definition edge_label_text where
  "edge_label_text = (\<lambda>(a, b, kind, evidence). object_text inline
     [(''from'', quoted a), (''to'', quoted b), (''kind'', quoted (edge_kind_to_string kind)),
      (''evidence'', evidence_text evidence)])"
definition root_label_text where
  "root_label_text = (\<lambda>(a, kind, evidence). object_text inline
     [(''symbol'', quoted a), (''kind'', quoted (root_kind_to_string kind)),
      (''evidence'', evidence_text evidence)])"
definition escape_label_text where
  "escape_label_text = (\<lambda>(a, from, kind, evidence). object_text inline
     [(''symbol'', quoted a), (''from'', case from of Some f \<Rightarrow> quoted f | None \<Rightarrow> ''null''),
      (''kind'', quoted (escape_kind_to_string kind)), (''evidence'', evidence_text evidence)])"
definition suppression_label_text where
  "suppression_label_text = (\<lambda>(a, evidence). object_text inline
     [(''symbol'', quoted a), (''evidence'', evidence_text evidence)])"

lemma label_texts:
  "edge_text g e = edge_label_text (edge_label g e)"
  "root_text g r = root_label_text (root_label g r)"
  "escape_text g x = escape_label_text (escape_label g x)"
  "suppression_text g p = suppression_label_text (suppression_label g p)"
  by (simp_all add: edge_text_def edge_label_text_def edge_label_def root_text_def
      root_label_text_def root_label_def escape_text_def escape_label_text_def escape_label_def
      suppression_text_def suppression_label_text_def suppression_label_def key_at_def
      split: option.split)

definition edge_order where
  "edge_order = (\<lambda>(a :: string, b :: string, kind :: edge_kind, evidence :: evidence).
     (a, b, kind, ev_provider evidence, ev_reason evidence))"
definition root_order where
  "root_order = (\<lambda>(a :: string, kind :: root_kind, evidence :: evidence).
     (a, kind, ev_provider evidence, ev_reason evidence))"
definition escape_order where
  "escape_order = (\<lambda>(a :: string, from :: string option, kind :: escape_kind, evidence :: evidence).
     (a, case from of Some f \<Rightarrow> f | None \<Rightarrow> [], kind, ev_provider evidence, ev_reason evidence))"
definition suppression_order where
  "suppression_order = (\<lambda>(a :: string, evidence :: evidence). (a, ev_provider evidence, ev_reason evidence))"

lemma escape_order_label:
  "escape_order (escape_label g x) = (sym_key (g_symbols g ! esc_symbol x),
     case esc_from x of Some f \<Rightarrow> sym_key (g_symbols g ! f) | None \<Rightarrow> [], esc_kind x,
     ev_provider (esc_evidence x), ev_reason (esc_evidence x))"
  by (cases "esc_from x") (simp_all add: escape_order_def escape_label_def key_at_def)

lemma artifact_orders:
  "artifact_edges g = sort_key (\<lambda>e. edge_order (edge_label g e)) (g_edges g)"
  "artifact_roots g = sort_key (\<lambda>r. root_order (root_label g r)) (g_roots g)"
  "artifact_escapes g = sort_key (\<lambda>x. escape_order (escape_label g x)) (g_escapes g)"
  "artifact_suppressions g = sort_key (\<lambda>p. suppression_order (suppression_label g p)) (g_suppressions g)"
  unfolding artifact_escapes_def escape_order_label
  by (simp_all add: artifact_edges_def edge_order_def edge_label_def artifact_roots_def root_order_def
      root_label_def artifact_suppressions_def suppression_order_def suppression_label_def key_at_def)

lemma orders_inj:
  "inj edge_order" "inj root_order" "inj suppression_order"
  "inj_on escape_order {(a, from, kind, evidence). from \<noteq> Some []}"
proof -
  have ev: "e = e'" if "ev_provider e = ev_provider e'" "ev_reason e = ev_reason e'" for e e' :: evidence
    using that by (cases e; cases e') simp
  show "inj edge_order" "inj root_order" "inj suppression_order"
    by (auto simp: inj_def edge_order_def root_order_def suppression_order_def intro: ev)
  show "inj_on escape_order {(a, from, kind, evidence). from \<noteq> Some []}"
    by (auto simp: inj_on_def escape_order_def intro: ev split: option.splits)
qed

lemma escape_labels_nonempty:
  assumes "graph_wf g"
  shows "escape_label g ` set (g_escapes g) \<subseteq> {(a, from, kind, evidence). from \<noteq> Some []}"
proof
  fix l
  assume "l \<in> escape_label g ` set (g_escapes g)"
  then obtain x where x: "x \<in> set (g_escapes g)" "l = escape_label g x" by blast
  have "key_at g f \<noteq> []" if "esc_from x = Some f" for f
    using assms x(1) that by (simp add: graph_wf_def key_at_def)
  then show "l \<in> {(a, from, kind, evidence). from \<noteq> Some []}"
    unfolding x(2) escape_label_def by (cases "esc_from x") auto
qed

text \<open>
  Artifact texts are reproducible: two graphs with the same content, however their symbols
  are numbered and their facts ordered, and the same set of diagnostics, are stored as the same
  text, byte for byte.
\<close>
theorem artifact_text_canonical:
  assumes "graph_wf g" "graph_wf h" "same_content g h" "set ds = set ds'" "writable g m"
  shows "write_graph_artifact g m ds = write_graph_artifact h m ds'"
proof -
  note same = assms(3) [unfolded same_content_def]
  have "writable h m" using assms(5) same by (simp add: writable_def)
  note dg = assms(1) [unfolded graph_wf_def] and dh = assms(2) [unfolded graph_wf_def]
  have "map (edge_label g) (artifact_edges g) = map (edge_label h) (artifact_edges h)"
    unfolding artifact_orders using same dg dh
    by (intro sorted_labels_unique edge_label_inj assms(1,2) inj_on_subset [OF orders_inj(1)])
      (simp_all add: edge_facts_def)
  moreover have "map (root_label g) (artifact_roots g) = map (root_label h) (artifact_roots h)"
    unfolding artifact_orders using same dg dh
    by (intro sorted_labels_unique root_label_inj assms(1,2) inj_on_subset [OF orders_inj(2)])
      (simp_all add: root_facts_def)
  moreover have "map (escape_label g) (artifact_escapes g) = map (escape_label h) (artifact_escapes h)"
    unfolding artifact_orders using same dg dh
    by (intro sorted_labels_unique escape_label_inj assms(1,2) inj_on_subset [OF orders_inj(4)]
        escape_labels_nonempty) (simp_all add: escape_facts_def)
  moreover have "map (suppression_label g) (artifact_suppressions g) =
      map (suppression_label h) (artifact_suppressions h)"
    unfolding artifact_orders using same dg dh
    by (intro sorted_labels_unique suppression_label_inj assms(1,2) inj_on_subset [OF orders_inj(3)])
      (simp_all add: suppression_facts_def)
  ultimately have facts: "map (edge_text g) (artifact_edges g) = map (edge_text h) (artifact_edges h)"
    "map (root_text g) (artifact_roots g) = map (root_text h) (artifact_roots h)"
    "map (escape_text g) (artifact_escapes g) = map (escape_text h) (artifact_escapes h)"
    "map (suppression_text g) (artifact_suppressions g) = map (suppression_text h) (artifact_suppressions h)"
    unfolding label_texts map_map [symmetric, unfolded comp_def] by metis+
  have "map (\<lambda>i. g_symbols g ! i) (sorted_symbols g) = sort_key sym_key (g_symbols g)" for g
    by (simp add: sorted_symbols_def map_nth flip: sort_key_map [of sym_key "\<lambda>i. g_symbols g ! i"])
  moreover have "sort_key sym_key (g_symbols g) = sort_key sym_key (g_symbols h)"
    using same graph_wf_distinct_keys [OF assms(1)] graph_wf_distinct_keys [OF assms(2)]
    by (intro sort_key_unique) (auto simp: keys_of_def distinct_map)
  ultimately have "map (\<lambda>i. symbol_text (g_symbols g ! i)) (sorted_symbols g) =
      map (\<lambda>i. symbol_text (g_symbols h ! i)) (sorted_symbols h)"
    by (metis (no_types, lifting) list.map_comp comp_apply map_eq_conv)
  moreover have "remdups_adj (sort ds) = remdups_adj (sort ds')"
    by (rule sorted_distinct_set_unique)
      (use assms(4) in \<open>simp_all add: distinct_remdups_adj_sorted\<close>)
  ultimately show ?thesis
    using facts by (simp add: write_writable [OF assms(5)] write_writable [OF \<open>writable h m\<close>] document_text_def)
qed

lemma artifact_text_canonical_witness:
  "write_graph_artifact (canonicalize stored_graph) stored_metadata [''b'', ''a''] =
     write_graph_artifact stored_graph stored_metadata [''a'', ''b'', ''a'']"
proof -
  have wf: "graph_wf stored_graph" using stored_graph_storable by (simp add: storable_def)
  have "writable (canonicalize stored_graph) stored_metadata"
    using storable_writable [OF stored_graph_storable]
    by (simp add: writable_def set_canonicalize_symbols)
  then show ?thesis
    by (intro artifact_text_canonical graph_wf_canonicalize same_content_canonicalize wf) auto
qed

end
