(* ===== verification/Differential.thy ===== *)
theory Differential
  imports Artifact Report Provider
begin

text \<open>
  Differential reports, \<open>src/differential.cpp\<close>: the policy file (read through the YAML interface
  of the provider component), and the comparison of a stored baseline with the current analysis.
  The baseline is analysed again from its graph. \<open>Differential_Text\<close> holds the writers.
\<close>

section \<open>Data\<close>

datatype change_kind = New_Symbol | Newly_Unreachable | Removed | Became_Reachable

record differential_policy =
  dp_source :: string
  dp_changes :: "change_kind list"
  dp_classifications :: "classification list"
  dp_targets :: "string list"

record differential_evidence =
  de_kind :: finding_evidence_kind
  de_evidence :: evidence
  de_escape_kind :: "escape_kind option"
  de_from_symbol :: string

record symbol_state =
  st_present :: bool
  st_reachable :: bool
  st_suppressed :: bool
  st_classification :: "classification option"
  st_evidence :: "differential_evidence list"
  st_suppressions :: "evidence list"

record differential_change =
  dc_kind :: change_kind
  dc_symbol :: symbol
  dc_baseline :: symbol_state
  dc_current :: symbol_state
  dc_policy_match :: bool

record differential_report =
  dr_baseline :: artifact_metadata
  dr_current :: artifact_metadata
  dr_changes :: "differential_change list"
  dr_new_symbols :: nat
  dr_newly_unreachable :: nat
  dr_removed :: nat
  dr_became_reachable :: nat
  dr_policy_matches :: nat

fun change_kind_to_string :: "change_kind \<Rightarrow> string" where
  "change_kind_to_string New_Symbol = ''new_symbol''"
| "change_kind_to_string Newly_Unreachable = ''newly_unreachable''"
| "change_kind_to_string Removed = ''removed''"
| "change_kind_to_string Became_Reachable = ''became_reachable''"

section \<open>The policy file\<close>

definition default_policy :: differential_policy where
  "default_policy = \<lparr>dp_source = [], dp_changes = [New_Symbol, Newly_Unreachable],
     dp_classifications = [Dead, Likely_Dead, Possibly_Dead, Dynamically_Referenced],
     dp_targets = []\<rparr>"

text \<open>A list of names, each parsed by \<open>read\<close>; not empty and without repetitions.\<close>

definition parse_policy_enum_list ::
    "'n yaml_api \<Rightarrow> 'n \<Rightarrow> string \<Rightarrow> string \<Rightarrow> (string \<Rightarrow> 'e result) \<Rightarrow> 'e list result" where
  "parse_policy_enum_list api doc key path read =
     (case y_lookup api doc key of
        None \<Rightarrow> Inr []
      | Some sequence \<Rightarrow>
          if \<not> y_is_sequence api sequence \<or> y_items api sequence = [] then
            Inl (Runtime_Error (context_at path key @ '' must be a non-empty sequence''))
          else
            fold_result (\<lambda>(index, item) so_far.
              if \<not> y_is_scalar api item then
                Inl (Runtime_Error (context_at path
                  (key @ ''['' @ to_string_nat index @ ''] must be a string'')))
              else
                rbind (read (y_string api item)) (\<lambda>parsed.
                  if parsed \<in> set so_far then
                    Inl (Runtime_Error (context_at path key @ '' contains duplicate value '' @
                      apostrophe @ y_string api item @ apostrophe))
                  else Inr (so_far @ [parsed])))
              (enumerate 0 (y_items api sequence)) [])"

definition parse_classification :: "string \<Rightarrow> string \<Rightarrow> classification result" where
  "parse_classification path v =
     (if v = ''dead'' then Inr Dead
      else if v = ''likely_dead'' then Inr Likely_Dead
      else if v = ''possibly_dead'' then Inr Possibly_Dead
      else if v = ''dynamically_referenced'' then Inr Dynamically_Referenced
      else Inl (Runtime_Error (context_at path ''classifications'' @
        '' contains unsupported value '' @ apostrophe @ v @ apostrophe)))"

definition parse_policy_change :: "string \<Rightarrow> string \<Rightarrow> change_kind result" where
  "parse_policy_change path v =
     (if v = ''new_symbol'' then Inr New_Symbol
      else if v = ''newly_unreachable'' then Inr Newly_Unreachable
      else Inl (Runtime_Error (context_at path ''changes'' @
        '' contains unsupported value '' @ apostrophe @ v @ apostrophe)))"

definition parse_policy_targets :: "'n yaml_api \<Rightarrow> 'n \<Rightarrow> string \<Rightarrow> string list result" where
  "parse_policy_targets api sequence path =
     (if \<not> y_is_sequence api sequence \<or> y_items api sequence = [] then
        Inl (Runtime_Error (context_at path ''targets'' @ '' must be a non-empty sequence''))
      else
        fold_result (\<lambda>item so_far.
          if \<not> y_is_scalar api item then
            Inl (Runtime_Error (context_at path ''targets'' @ '' entries must be strings''))
          else
            let target = y_string api item in
            if target = [] then
              Inl (Runtime_Error (context_at path ''targets'' @ '' entries cannot be empty''))
            else if target \<in> set so_far then
              Inl (Runtime_Error (context_at path ''targets'' @ '' contains duplicate value '' @
                apostrophe @ target @ apostrophe))
            else Inr (so_far @ [target]))
          (y_items api sequence) [])"

text \<open>A list the file leaves out keeps its default.\<close>

definition read_policy_list ::
    "'n yaml_api \<Rightarrow> 'n \<Rightarrow> string \<Rightarrow> string \<Rightarrow> (string \<Rightarrow> 'e result) \<Rightarrow> 'e list \<Rightarrow> 'e list result" where
  "read_policy_list api doc key path read otherwise =
     (if y_lookup api doc key \<noteq> None then parse_policy_enum_list api doc key path read else Inr otherwise)"

definition read_policy_targets :: "'n yaml_api \<Rightarrow> 'n \<Rightarrow> string \<Rightarrow> string list result" where
  "read_policy_targets api doc path =
     (case y_lookup api doc ''targets'' of
        None \<Rightarrow> Inr [] | Some sequence \<Rightarrow> parse_policy_targets api sequence path)"

definition differential_policy_schema_version :: int where
  "differential_policy_schema_version = 2"

definition load_differential_policy ::
    "'n yaml_api \<Rightarrow> filesystem \<Rightarrow> string \<Rightarrow> differential_policy result" where
  "load_differential_policy api fs path =
     (case y_load api path of
        Inl e \<Rightarrow> Inl (Runtime_Error (path @ '': invalid YAML: '' @ e))
      | Inr doc \<Rightarrow>
          rbind (require_mapping api doc [''schema_version'', ''changes'', ''classifications'',
                   ''targets''] path ''document'') (\<lambda>_.
          case y_lookup api doc ''schema_version'' of
            None \<Rightarrow> Inl (Runtime_Error (path @ '': document requires '' @ apostrophe @
              ''schema_version'' @ apostrophe))
          | Some node \<Rightarrow>
              (case y_int api node of
                 None \<Rightarrow> Inl (Runtime_Error (path @ '': schema_version must be an integer''))
               | Some version \<Rightarrow>
                   if version \<noteq> differential_policy_schema_version then
                     Inl (Runtime_Error (path @ '': unsupported differential schema_version '' @
                       to_string_int version))
                   else
                     rbind (read_policy_list api doc ''changes'' path (parse_policy_change path)
                       (dp_changes default_policy)) (\<lambda>changes.
                     rbind (read_policy_list api doc ''classifications'' path (parse_classification path)
                       (dp_classifications default_policy)) (\<lambda>classifications.
                     rbind (read_policy_targets api doc path) (\<lambda>targets.
                     Inr \<lparr>dp_source = lexically_normal (absolute fs path), dp_changes = changes,
                          dp_classifications = classifications, dp_targets = targets\<rparr>))))))"

section \<open>The state of a symbol\<close>

definition eligible_symbol :: "symbol \<Rightarrow> bool" where
  "eligible_symbol s \<longleftrightarrow> sym_defined s \<and> is_reportable (sym_scope s) \<and> sym_kind s \<noteq> Synthetic"

text \<open>The finding of a symbol, and the suppressed finding it was taken from, if any.\<close>

definition lookup_finding ::
    "analysis_report \<Rightarrow> nat \<Rightarrow> finding option \<times> suppressed_finding option" where
  "lookup_finding report i =
     (case find (\<lambda>f. fi_symbol f = i) (ar_findings report) of
        Some f \<Rightarrow> (Some f, None)
      | None \<Rightarrow>
          (case find (\<lambda>f. fi_symbol (sf_finding f) = i) (ar_suppressed_findings report) of
             Some s \<Rightarrow> (Some (sf_finding s), Some s)
           | None \<Rightarrow> (None, None)))"

definition absent_state :: symbol_state where
  "absent_state = \<lparr>st_present = False, st_reachable = False, st_suppressed = False,
     st_classification = None, st_evidence = [], st_suppressions = []\<rparr>"

definition symbol_state_of ::
    "graph \<Rightarrow> reachability_result \<Rightarrow> analysis_report \<Rightarrow> nat option \<Rightarrow> symbol_state" where
  "symbol_state_of g result report i =
     (case i of
        None \<Rightarrow> absent_state
      | Some i \<Rightarrow>
          let present = absent_state\<lparr>st_present := True, st_reachable := rr_reachable result ! i\<rparr> in
          (case lookup_finding report i of
             (None, _) \<Rightarrow> present
           | (Some finding, suppressed) \<Rightarrow>
               present\<lparr>st_classification := Some (fi_classification finding),
                 st_suppressed := (suppressed \<noteq> None),
                 st_suppressions := (case suppressed of None \<Rightarrow> [] | Some s \<Rightarrow> sf_suppressions s),
                 st_evidence := map (\<lambda>item.
                   \<lparr>de_kind = fe_kind item, de_evidence = fe_evidence item,
                    de_escape_kind = fe_escape_kind item,
                    de_from_symbol = (case fe_from item of
                        Some f \<Rightarrow> sym_key (g_symbols g ! f) | None \<Rightarrow> [])\<rparr>)
                   (fi_evidence finding)\<rparr>))"

section \<open>The report\<close>

definition require_compatible_context ::
    "artifact_metadata \<Rightarrow> artifact_metadata \<Rightarrow> unit result" where
  "require_compatible_context baseline current =
     (if gm_configuration_id baseline \<noteq> gm_configuration_id current then
        Inl (Runtime_Error ''baseline/current configuration identities differ'')
      else if gm_frontend baseline \<noteq> gm_frontend current then
        Inl (Runtime_Error ''baseline/current index frontends differ'')
      else if gm_target_id baseline \<noteq> gm_target_id current \<or>
          gm_target_name baseline \<noteq> gm_target_name current \<or>
          gm_target_kind baseline \<noteq> gm_target_kind current then
        Inl (Runtime_Error ''baseline/current target identities differ'')
      else Inr ())"

definition policy_matches ::
    "differential_policy \<Rightarrow> artifact_metadata \<Rightarrow> differential_change \<Rightarrow> bool" where
  "policy_matches policy current change =
     (if dc_kind change \<notin> set (dp_changes policy) \<or> st_suppressed (dc_current change) \<or>
         (case st_classification (dc_current change) of
            None \<Rightarrow> True | Some c \<Rightarrow> c \<notin> set (dp_classifications policy))
      then False
      else dp_targets policy = [] \<or> gm_target_name current \<in> set (dp_targets policy))"

definition eligible_symbols :: "graph \<Rightarrow> string \<rightharpoonup> nat" where
  "eligible_symbols g = fold (\<lambda>i m.
     if eligible_symbol (g_symbols g ! i) then emplace (sym_key (g_symbols g ! i)) i m else m)
     [0..<length (g_symbols g)] Map.empty"

text \<open>The keys of both maps, as the code collects them in an ordered set.\<close>

definition compared_keys :: "graph \<Rightarrow> graph \<Rightarrow> string list" where
  "compared_keys baseline current =
     remdups_adj (sort (map sym_key (filter eligible_symbol (g_symbols baseline)) @
       map sym_key (filter eligible_symbol (g_symbols current))))"

definition change_of ::
    "bool list \<Rightarrow> bool list \<Rightarrow> nat option \<Rightarrow> nat option \<Rightarrow> change_kind option" where
  "change_of baseline_reachable current_reachable baseline_id current_id =
     (case (baseline_id, current_id) of
        (None, _) \<Rightarrow> Some New_Symbol
      | (Some b, None) \<Rightarrow> Some Removed
      | (Some b, Some c) \<Rightarrow>
          if baseline_reachable ! b \<and> \<not> current_reachable ! c then Some Newly_Unreachable
          else if \<not> baseline_reachable ! b \<and> current_reachable ! c then Some Became_Reachable
          else None)"

definition count_change :: "change_kind \<Rightarrow> differential_report \<Rightarrow> differential_report" where
  "count_change kind r =
     (case kind of
        New_Symbol \<Rightarrow> r\<lparr>dr_new_symbols := Suc (dr_new_symbols r)\<rparr>
      | Newly_Unreachable \<Rightarrow> r\<lparr>dr_newly_unreachable := Suc (dr_newly_unreachable r)\<rparr>
      | Removed \<Rightarrow> r\<lparr>dr_removed := Suc (dr_removed r)\<rparr>
      | Became_Reachable \<Rightarrow> r\<lparr>dr_became_reachable := Suc (dr_became_reachable r)\<rparr>)"

text \<open>One key, in the loop over the keys of both sides.\<close>

definition compare_key ::
    "graph \<times> reachability_result \<times> analysis_report \<Rightarrow> graph \<times> reachability_result \<times> analysis_report \<Rightarrow>
     artifact_metadata \<Rightarrow> differential_policy option \<Rightarrow> string \<Rightarrow>
     differential_report \<Rightarrow> differential_report" where
  "compare_key baseline current metadata policy key r =
     (let (baseline_graph, baseline_result, baseline_report) = baseline;
          (current_graph, current_result, current_report) = current;
          baseline_id = eligible_symbols baseline_graph key;
          current_id = eligible_symbols current_graph key
      in case change_of (rr_reachable baseline_result) (rr_reachable current_result)
           baseline_id current_id of
           None \<Rightarrow> r
         | Some kind \<Rightarrow>
             let change = \<lparr>dc_kind = kind,
                   dc_symbol = (case current_id of Some c \<Rightarrow> g_symbols current_graph ! c
                     | None \<Rightarrow> g_symbols baseline_graph ! the baseline_id),
                   dc_baseline = symbol_state_of baseline_graph baseline_result baseline_report baseline_id,
                   dc_current = symbol_state_of current_graph current_result current_report current_id,
                   dc_policy_match = False\<rparr>;
                 change' = (case policy of None \<Rightarrow> change
                   | Some p \<Rightarrow> change\<lparr>dc_policy_match := policy_matches p metadata change\<rparr>);
                 r1 = count_change kind r;
                 r2 = (if dc_policy_match change'
                       then r1\<lparr>dr_policy_matches := Suc (dr_policy_matches r1)\<rparr> else r1)
             in r2\<lparr>dr_changes := dr_changes r2 @ [change']\<rparr>)"

text \<open>
  The result is \<open>None\<close> if the analysis of the baseline does not return; the reader of artifacts
  builds well-formed graphs, on which it does.
\<close>

definition build_differential_report ::
    "graph_artifact \<Rightarrow> graph \<Rightarrow> reachability_result \<Rightarrow> analysis_report \<Rightarrow> artifact_metadata \<Rightarrow>
     differential_policy option \<Rightarrow> differential_report result option" where
  "build_differential_report baseline g result report metadata policy =
     (case require_compatible_context (ga_metadata baseline) metadata of
        Inl e \<Rightarrow> Some (Inl e)
      | Inr _ \<Rightarrow>
          if (case policy of None \<Rightarrow> False
              | Some p \<Rightarrow> dp_targets p \<noteq> [] \<and>
                  (gm_target_name metadata = [] \<or> gm_target_name metadata \<notin> set (dp_targets p)))
          then Some (Inl (Runtime_Error (''differential policy does not apply to current target '' @
                 apostrophe @ gm_target_name metadata @ apostrophe)))
          else
            map_option (\<lambda>baseline_result.
              let baseline_report = build_report (ga_graph baseline) baseline_result in
              Inr (fold (compare_key (ga_graph baseline, baseline_result, baseline_report)
                     (g, result, report) metadata policy)
                (compared_keys (ga_graph baseline) g)
                \<lparr>dr_baseline = ga_metadata baseline, dr_current = metadata, dr_changes = [],
                 dr_new_symbols = 0, dr_newly_unreachable = 0, dr_removed = 0,
                 dr_became_reachable = 0, dr_policy_matches = 0\<rparr>))
              (analyze_reachability (ga_graph baseline)))"

end
