(* ===== verification/Differential_Text.thy ===== *)
theory Differential_Text
  imports Differential
begin

text \<open>
  The texts of a differential report: the human-readable summary, the JSON document and the
  SARIF log, \<open>src/differential.cpp\<close>. Each writer is the text it sends to the stream.
\<close>

section \<open>Parts shared by the formats\<close>

definition display_name :: "symbol \<Rightarrow> string" where
  "display_name s = (if sym_qualified_name s = [] then sym_name s else sym_qualified_name s)"

definition metadata_text :: "artifact_metadata \<Rightarrow> string" where
  "metadata_text m = object_text inline
     [(''configuration_id'', quoted (gm_configuration_id m)),
      (''configuration'', quoted (gm_configuration m)),
      (''target_id'', nullable_text (gm_target_id m)),
      (''target_name'', nullable_text (gm_target_name m)),
      (''target_kind'', nullable_text (gm_target_kind m)),
      (''frontend'', quoted (index_frontend_to_string (gm_frontend m))),
      (''translation_units'', to_string_nat (gm_translation_units m)),
      (''closure_targets'', array_text inline [] (map quoted (gm_closure_targets m)))]"

definition state_evidence_text :: "differential_evidence \<Rightarrow> string" where
  "state_evidence_text x = object_text inline
     [(''kind'', quoted (finding_evidence_kind_to_string (de_kind x))),
      (''provider'', quoted (ev_provider (de_evidence x))),
      (''reason'', quoted (ev_reason (de_evidence x))),
      (''escape_kind'', case de_escape_kind x of
          Some kind \<Rightarrow> quoted (escape_kind_to_string kind) | None \<Rightarrow> ''null''),
      (''from_symbol'', nullable_text (de_from_symbol x))]"

definition state_text :: "symbol_state \<Rightarrow> string" where
  "state_text s = object_text inline
     [(''present'', bool_text (st_present s)), (''reachable'', bool_text (st_reachable s)),
      (''suppressed'', bool_text (st_suppressed s)),
      (''classification'', case st_classification s of
          Some c \<Rightarrow> quoted (classification_to_string c) | None \<Rightarrow> ''null''),
      (''evidence'', array_text inline [] (map state_evidence_text (st_evidence s))),
      (''suppressions'', array_text inline [] (map evidence_text (st_suppressions s)))]"

section \<open>The human-readable report\<close>

definition human_change_text :: "differential_change \<Rightarrow> string" where
  "human_change_text c =
     (let location = sx_location (primary_source_extent (dc_symbol c)) in
      change_kind_to_string (dc_kind c) @ (if dc_policy_match c then '' [policy_match]'' else []) @
      newline @ ''  '' @ display_name (dc_symbol c) @ '' : '' @ sym_signature (dc_symbol c) @ newline @
      ''  Stable ID: '' @ sym_key (dc_symbol c) @ newline @
      (if sp_file location \<noteq> [] then
         ''  Location: '' @ sp_file location @ '':'' @ to_string_nat (sp_line location) @ '':'' @
         to_string_nat (sp_column location) @ newline
       else []) @
      (case st_classification (dc_current c) of
         None \<Rightarrow> []
       | Some classification \<Rightarrow>
           ''  Current: '' @ classification_to_string classification @
           (if st_suppressed (dc_current c) then '' [suppressed]'' else []) @ newline) @
      newline)"

definition write_human_differential_report :: "differential_report \<Rightarrow> string" where
  "write_human_differential_report r =
     ''cxx-dead differential reachability report'' @ newline @ newline @ ''Context: '' @
     (if gm_target_name (dr_current r) = [] then ''application'' else gm_target_name (dr_current r)) @
     '' ['' @ gm_configuration_id (dr_current r) @ '']'' @ newline @
     ''Frontend: '' @ index_frontend_to_string (gm_frontend (dr_current r)) @ newline @ newline @
     ''SUMMARY'' @ newline @
     ''  New symbols:          '' @ to_string_nat (dr_new_symbols r) @ newline @
     ''  Newly unreachable:    '' @ to_string_nat (dr_newly_unreachable r) @ newline @
     ''  Removed:              '' @ to_string_nat (dr_removed r) @ newline @
     ''  Became reachable:     '' @ to_string_nat (dr_became_reachable r) @ newline @
     ''  Policy matches:       '' @ to_string_nat (dr_policy_matches r) @ newline @ newline @
     (if dr_changes r = [] then ''No reportable reachability changes found.'' @ newline
      else concat (map human_change_text (dr_changes r)))"

section \<open>The JSON report\<close>

definition differential_report_schema_version :: nat where
  "differential_report_schema_version = 2"

definition changed_symbol_text :: "symbol \<Rightarrow> string" where
  "changed_symbol_text s = object_text inline
     [(''id'', quoted (sym_key s)), (''qualified_name'', quoted (sym_qualified_name s)),
      (''signature'', quoted (sym_signature s)),
      (''kind'', quoted (symbol_kind_to_string (sym_kind s))),
      (''location'', source_point_text (sx_location (primary_source_extent s)))]"

definition change_text :: "differential_change \<Rightarrow> string" where
  "change_text c = object_text inline
     [(''kind'', quoted (change_kind_to_string (dc_kind c))),
      (''policy_match'', bool_text (dc_policy_match c)),
      (''symbol'', changed_symbol_text (dc_symbol c)),
      (''baseline'', state_text (dc_baseline c)), (''current'', state_text (dc_current c))]"

definition summary_text :: "differential_report \<Rightarrow> string" where
  "summary_text r = object_text inline
     [(''new_symbols'', to_string_nat (dr_new_symbols r)),
      (''newly_unreachable'', to_string_nat (dr_newly_unreachable r)),
      (''removed'', to_string_nat (dr_removed r)),
      (''became_reachable'', to_string_nat (dr_became_reachable r)),
      (''policy_matches'', to_string_nat (dr_policy_matches r))]"

definition write_json_differential_report :: "differential_report \<Rightarrow> string" where
  "write_json_differential_report r = object_text document_layout
     [(''diff_schema_version'', to_string_nat differential_report_schema_version),
      (''baseline'', metadata_text (dr_baseline r)), (''current'', metadata_text (dr_current r)),
      (''summary'', summary_text r),
      (''changes'', section_text (map change_text (dr_changes r)))] @ newline"

section \<open>SARIF\<close>

text \<open>
  The classification is read without a check: the rules are those of changes that match the
  policy, which have one.
\<close>

definition sarif_rule :: "differential_change \<Rightarrow> string" where
  "sarif_rule c = ''cxx-dead.'' @ change_kind_to_string (dc_kind c) @ ''.'' @
     classification_to_string (the (st_classification (dc_current c)))"

definition hex_digit :: "nat \<Rightarrow> char" where
  "hex_digit n = ''0123456789ABCDEF'' ! n"

definition uri_plain :: "char \<Rightarrow> bool" where
  "uri_plain c \<longleftrightarrow> is_digit c \<or> (CHR ''A'' \<le> c \<and> c \<le> CHR ''Z'') \<or> (CHR ''a'' \<le> c \<and> c \<le> CHR ''z'') \<or>
     c \<in> set ''/._-~''"

definition uri_encode :: "string \<Rightarrow> string" where
  "uri_encode path = concat (map (\<lambda>c.
     if uri_plain c then [c]
     else [CHR 0x25, hex_digit (of_char c div 16), hex_digit (of_char c mod 16)]) path)"

text \<open>A file inside the project is named relative to its root.\<close>

definition sarif_path :: "string \<Rightarrow> string \<Rightarrow> string" where
  "sarif_path file project_root =
     (let normalized = lexically_normal file in
      if is_absolute normalized then
        let relative = lexically_relative normalized (lexically_normal project_root) in
        if relative \<noteq> [] \<and> \<not> is_absolute relative \<and> hd (path_names relative) \<noteq> dot_dot
        then relative else normalized
      else normalized)"

definition sarif_uri :: "string \<Rightarrow> string \<Rightarrow> string" where
  "sarif_uri file project_root =
     (if file = [] then [] else uri_encode (sarif_path file project_root))"

definition sarif_region :: "source_extent \<Rightarrow> (string \<times> string) list" where
  "sarif_region x =
     [(''startLine'', to_string_nat (sp_line (sx_location x)))] @
     (if sp_column (sx_location x) \<noteq> 0
      then [(''startColumn'', to_string_nat (sp_column (sx_location x)))] else []) @
     (if sp_line (sx_end x) \<noteq> 0 then [(''endLine'', to_string_nat (sp_line (sx_end x)))] else []) @
     (if sp_column (sx_end x) \<noteq> 0
      then [(''endColumn'', to_string_nat (sp_column (sx_end x) + sp_token_length (sx_end x)))] else [])"

definition sarif_locations :: "string \<Rightarrow> symbol \<Rightarrow> (string \<times> string) list" where
  "sarif_locations project_root s =
     (let extent = primary_source_extent s;
          uri = sarif_uri (sp_file (sx_location extent)) project_root
      in if uri \<noteq> [] \<and> sp_line (sx_location extent) \<noteq> 0 then
           [(''locations'', array_text inline [] [object_text inline
              [(''physicalLocation'', object_text inline
                 [(''artifactLocation'', object_text inline [(''uri'', quoted uri)]),
                  (''region'', object_text inline (sarif_region extent))])]])]
         else [])"

definition sarif_message :: "differential_change \<Rightarrow> string" where
  "sarif_message c = display_name (dc_symbol c) @ '' is '' @
     classification_to_string (the (st_classification (dc_current c))) @ '' ('' @
     change_kind_to_string (dc_kind c) @ '')''"

definition sarif_result :: "string \<Rightarrow> string \<Rightarrow> differential_change \<Rightarrow> string" where
  "sarif_result target project_root c = object_text inline
     ([(''ruleId'', quoted (sarif_rule c)), (''level'', quoted ''warning''),
       (''message'', object_text inline [(''text'', quoted (sarif_message c))]),
       (''partialFingerprints'',
          object_text inline [(''cxxDeadSymbolId/v1'', quoted (sym_key (dc_symbol c)))]),
       (''properties'', object_text inline
          [(''change'', quoted (change_kind_to_string (dc_kind c))),
           (''classification'',
              quoted (classification_to_string (the (st_classification (dc_current c))))),
           (''target'', nullable_text target)])] @
      sarif_locations project_root (dc_symbol c))"

definition sarif_rules :: "differential_report \<Rightarrow> string list" where
  "sarif_rules r = remdups_adj (sort (map sarif_rule (filter dc_policy_match (dr_changes r))))"

definition sarif_rule_text :: "string \<Rightarrow> string" where
  "sarif_rule_text rule = object_text inline
     [(''id'', quoted rule),
      (''shortDescription'', object_text inline [(''text'', quoted ''New dead-code debt'')])]"

definition run_layout :: layout where
  "run_layout = \<lparr>lay_open = newline @ ''    '', lay_sep = newline @ ''    '',
     lay_close = newline @ ''  ''\<rparr>"

definition results_layout :: layout where
  "results_layout = \<lparr>lay_open = newline @ ''      '', lay_sep = newline @ ''      '',
     lay_close = newline @ ''    ''\<rparr>"

definition write_sarif_differential_report :: "differential_report \<Rightarrow> string \<Rightarrow> string \<Rightarrow> string" where
  "write_sarif_differential_report r project_root tool_version = object_text document_layout
     [(''$schema'', quoted ''https://json.schemastore.org/sarif-2.1.0.json''),
      (''version'', quoted ''2.1.0''),
      (''runs'', array_text inline [] [object_text run_layout
         [(''tool'', object_text inline
             [(''driver'', object_text inline
                [(''name'', quoted ''cxx-dead''), (''version'', quoted tool_version),
                 (''informationUri'', quoted ''https://github.com/gobha-me/cxx-dead''),
                 (''rules'', array_text inline [] (map sarif_rule_text (sarif_rules r)))])]),
          (''results'', array_text results_layout ''    ''
             (map (sarif_result (gm_target_name (dr_current r)) project_root)
               (filter dc_policy_match (dr_changes r))))]])] @ newline"

end
