(* ===== verification/Live_Keys.thy ===== *)
theory Live_Keys
  imports Graph_Canonical Report_Facts
begin

text \<open>
  Reachability without ids: which keys are alive depends on the content of a graph only, the
  facts about its keys, however the symbols are numbered. This is the abstract view on which
  graphs of two runs are compared.
\<close>

definition symbols_at :: "graph \<Rightarrow> (symbol \<Rightarrow> bool) \<Rightarrow> string set" where
  "symbols_at g P = sym_key ` {s \<in> set (g_symbols g). P s}"

definition key_calls :: "graph \<Rightarrow> (string \<times> string) set" where
  "key_calls g = {(a, b). a \<in> symbols_at g (\<lambda>s. has_indexed_body (sym_scope s)) \<and>
     (\<exists>kind evidence. (a, b, kind, evidence) \<in> edge_facts g)}"

definition live :: "graph \<Rightarrow> string \<Rightarrow> bool" where
  "live g k \<longleftrightarrow> (\<exists>(a, kind, evidence) \<in> root_facts g. (a, k) \<in> (key_calls g)\<^sup>*)"

lemma live_content: "same_content g h \<Longrightarrow> live g k \<longleftrightarrow> live h k"
  by (simp add: live_def key_calls_def symbols_at_def same_content_def)

lemma symbols_at_content: "same_content g h \<Longrightarrow> symbols_at g P = symbols_at h P"
  by (simp add: symbols_at_def same_content_def)

lemma symbols_at_key:
  assumes "graph_wf g" "i < length (g_symbols g)"
  shows "key_at g i \<in> symbols_at g P \<longleftrightarrow> P (g_symbols g ! i)"
proof
  assume "key_at g i \<in> symbols_at g P"
  then obtain j where j: "j < length (g_symbols g)" "P (g_symbols g ! j)" "key_at g j = key_at g i"
    by (auto simp: symbols_at_def key_at_def in_set_conv_nth)
  with graph_wf_key_inj [OF assms(1) j(1) assms(2)] show "P (g_symbols g ! i)" by simp
qed (use assms(2) in \<open>auto simp: symbols_at_def key_at_def\<close>)

lemma key_calls_arcs:
  assumes "graph_wf g" "i < length (g_symbols g)"
  shows "(key_at g i, b) \<in> key_calls g \<longleftrightarrow>
    (\<exists>j < length (g_symbols g). b = key_at g j \<and> (i, j) \<in> call_arcs g)"
proof
  assume "(key_at g i, b) \<in> key_calls g"
  then obtain e where e: "e \<in> set (g_edges g)" "key_at g (edge_from e) = key_at g i"
      "b = key_at g (edge_to e)" and body: "has_indexed_body (sym_scope (g_symbols g ! i))"
    by (auto simp: key_calls_def edge_facts_def edge_label_def symbols_at_key [OF assms])
  have range: "edge_from e < length (g_symbols g)" "edge_to e < length (g_symbols g)"
    using assms(1) e(1) by (auto simp: graph_wf_def)
  have "edge_from e = i" by (rule graph_wf_key_inj [OF assms(1) range(1) assms(2) e(2)])
  with e(1) body have "(i, edge_to e) \<in> call_arcs g" by (auto simp: call_arcs_def scope_at_def)
  with range(2) e(3) show "\<exists>j < length (g_symbols g). b = key_at g j \<and> (i, j) \<in> call_arcs g" by blast
next
  assume "\<exists>j < length (g_symbols g). b = key_at g j \<and> (i, j) \<in> call_arcs g"
  then obtain e where e: "e \<in> set (g_edges g)" "i = edge_from e" "b = key_at g (edge_to e)"
      "has_indexed_body (scope_at g i)"
    by (auto simp: call_arcs_def)
  have "edge_label g e \<in> edge_facts g" using e(1) by (simp add: edge_facts_def)
  moreover have "key_at g i \<in> symbols_at g (\<lambda>s. has_indexed_body (sym_scope s))"
    using e(4) by (simp only: symbols_at_key [OF assms] scope_at_def)
  ultimately show "(key_at g i, b) \<in> key_calls g"
    using e(2,3) by (auto simp: key_calls_def edge_label_def)
qed

lemma key_calls_paths:
  assumes "graph_wf g" "i < length (g_symbols g)"
  shows "(key_at g i, b) \<in> (key_calls g)\<^sup>* \<longleftrightarrow>
    (\<exists>j < length (g_symbols g). b = key_at g j \<and> (i, j) \<in> (call_arcs g)\<^sup>*)"
proof
  assume "(key_at g i, b) \<in> (key_calls g)\<^sup>*"
  then show "\<exists>j < length (g_symbols g). b = key_at g j \<and> (i, j) \<in> (call_arcs g)\<^sup>*"
  proof induction
    case base
    then show ?case using assms(2) by blast
  next
    case (step a b)
    then obtain j where j: "j < length (g_symbols g)" "a = key_at g j" "(i, j) \<in> (call_arcs g)\<^sup>*" by blast
    from step.hyps(2) obtain k where
      k: "k < length (g_symbols g)" "b = key_at g k" "(j, k) \<in> call_arcs g"
      unfolding j(2) key_calls_arcs [OF assms(1) j(1)] by blast
    from j(3) k(3) have "(i, k) \<in> (call_arcs g)\<^sup>*" by (rule rtrancl.rtrancl_into_rtrancl)
    with k(1,2) show ?case by blast
  qed
next
  assume "\<exists>j < length (g_symbols g). b = key_at g j \<and> (i, j) \<in> (call_arcs g)\<^sup>*"
  then obtain j where "b = key_at g j" "(i, j) \<in> (call_arcs g)\<^sup>*" by blast
  moreover have "(key_at g i, key_at g j) \<in> (key_calls g)\<^sup>*" if "(i, j) \<in> (call_arcs g)\<^sup>*" for j
    using that
  proof induction
    case (step j k)
    with call_arcs_range [OF assms(1)] have "(key_at g j, key_at g k) \<in> key_calls g"
      by (subst key_calls_arcs [OF assms(1)]) blast+
    with step.IH show ?case by (rule rtrancl.rtrancl_into_rtrancl)
  qed simp
  ultimately show "(key_at g i, b) \<in> (key_calls g)\<^sup>*" by blast
qed

text \<open>The analysis marks exactly the symbols whose keys are alive.\<close>

lemma live_reachable:
  assumes "graph_wf g" "i < length (g_symbols g)"
  shows "live g (key_at g i) \<longleftrightarrow> reachable g ! i"
proof -
  have range: "root_symbol r < length (g_symbols g)" if "r \<in> set (g_roots g)" for r
    using assms(1) that by (auto simp: graph_wf_def)
  have "live g (key_at g i) \<longleftrightarrow>
      (\<exists>r \<in> set (g_roots g). (key_at g (root_symbol r), key_at g i) \<in> (key_calls g)\<^sup>*)"
    by (auto simp: live_def root_facts_def root_label_def)
  also have "\<dots> \<longleftrightarrow> (\<exists>r \<in> set (g_roots g). (root_symbol r, i) \<in> (call_arcs g)\<^sup>*)"
    using range key_calls_paths [OF assms(1)] graph_wf_key_inj [OF assms(1) assms(2)] assms(2)
    by (metis (lifting))
  finally show ?thesis by (simp add: reachable_iff [OF assms])
qed

end
