(* ===== verification/Differential_Facts.thy ===== *)
theory Differential_Facts
  imports Differential Live_Keys Artifact_Facts Provider_Facts
begin

text \<open>
  What the comparison of two graphs promises: one change for every key whose state differs,
  counters that agree with the list, no change between graphs of the same content, and policy
  matches only for actionable findings of the current report.
\<close>

section \<open>Eligible symbols and compared keys\<close>

definition eligible :: "graph \<Rightarrow> string set" where
  "eligible g = symbols_at g eligible_symbol"

lemma eligible_symbols_fold:
  fixes g :: graph
  assumes "distinct (map (key_at g) is)"
  shows "fold (\<lambda>i m. if eligible_symbol (g_symbols g ! i)
      then emplace (sym_key (g_symbols g ! i)) i m else m) is m k = Some i \<longleftrightarrow>
    m k = Some i \<or> (m k = None \<and> i \<in> set is \<and> eligible_symbol (g_symbols g ! i) \<and> key_at g i = k)"
  using assms
proof (induction "is" arbitrary: m)
  case (Cons j js)
  have fresh: "key_at g i \<noteq> key_at g j" if "i \<in> set js" for i
    using Cons.prems imageI [OF that, of "key_at g"] by auto
  have step: "fold (\<lambda>i m. if eligible_symbol (g_symbols g ! i)
      then emplace (sym_key (g_symbols g ! i)) i m else m) js m' k = Some i \<longleftrightarrow>
    m' k = Some i \<or> (m' k = None \<and> i \<in> set js \<and> eligible_symbol (g_symbols g ! i) \<and> key_at g i = k)" for m'
    using Cons by simp
  show ?case
    unfolding fold_simps comp_def step using fresh
    by (auto simp: emplace_apply key_at_def)
qed simp

lemma eligible_symbols_Some:
  assumes "graph_wf g"
  shows "eligible_symbols g k = Some i \<longleftrightarrow>
    i < length (g_symbols g) \<and> eligible_symbol (g_symbols g ! i) \<and> key_at g i = k"
proof -
  have "map (key_at g) [0..<length (g_symbols g)] = keys_of g"
    by (rule nth_equalityI) (simp_all add: nth_keys_of)
  then have "distinct (map (key_at g) [0..<length (g_symbols g)])"
    using graph_wf_distinct_keys [OF assms] by simp
  from eligible_symbols_fold [OF this, of Map.empty k i] show ?thesis
    by (auto simp: eligible_symbols_def)
qed

lemma eligible_key:
  assumes "graph_wf g"
  shows "k \<in> eligible g \<longleftrightarrow> (\<exists>i. eligible_symbols g k = Some i)"
  unfolding eligible_symbols_Some [OF assms]
  by (auto simp: eligible_def symbols_at_def key_at_def in_set_conv_nth)

lemma eligible_none: "graph_wf g \<Longrightarrow> eligible_symbols g k = None \<longleftrightarrow> k \<notin> eligible g"
  by (simp add: eligible_key)

lemma set_compared_keys [simp]: "set (compared_keys g h) = eligible g \<union> eligible h"
  by (auto simp: compared_keys_def eligible_def symbols_at_def)

lemma compared_keys_sorted: "sorted_wrt (<) (compared_keys g h)"
proof -
  have "sorted (compared_keys g h)" by (simp add: compared_keys_def)
  moreover have "distinct (compared_keys g h)"
    unfolding compared_keys_def by (rule distinct_remdups_adj_sorted) simp
  ultimately show ?thesis by (simp add: strict_sorted_iff)
qed

section \<open>The changes of a report\<close>

text \<open>The change of one key, if there is one.\<close>

definition change_for ::
    "graph \<times> reachability_result \<times> analysis_report \<Rightarrow> graph \<times> reachability_result \<times> analysis_report \<Rightarrow>
     artifact_metadata \<Rightarrow> differential_policy option \<Rightarrow> string \<Rightarrow> differential_change option" where
  "change_for baseline current metadata policy key =
     (let (bg, br, brep) = baseline; (cg, cr, crep) = current;
          b = eligible_symbols bg key; c = eligible_symbols cg key
      in map_option (\<lambda>kind.
           let change = \<lparr>dc_kind = kind,
                 dc_symbol = (case c of Some c \<Rightarrow> g_symbols cg ! c | None \<Rightarrow> g_symbols bg ! the b),
                 dc_baseline = symbol_state_of bg br brep b,
                 dc_current = symbol_state_of cg cr crep c, dc_policy_match = False\<rparr>
           in case policy of None \<Rightarrow> change
              | Some p \<Rightarrow> change\<lparr>dc_policy_match := policy_matches p metadata change\<rparr>)
         (change_of (rr_reachable br) (rr_reachable cr) b c))"

definition record_change :: "differential_change \<Rightarrow> differential_report \<Rightarrow> differential_report" where
  "record_change c r =
     (let r1 = count_change (dc_kind c) r;
          r2 = (if dc_policy_match c then r1\<lparr>dr_policy_matches := Suc (dr_policy_matches r1)\<rparr> else r1)
      in r2\<lparr>dr_changes := dr_changes r2 @ [c]\<rparr>)"

lemma compare_key_record:
  "compare_key baseline current metadata policy key r =
     (case change_for baseline current metadata policy key of None \<Rightarrow> r | Some c \<Rightarrow> record_change c r)"
  by (cases baseline; cases current)
    (simp add: compare_key_def change_for_def record_change_def Let_def split: option.split)

definition of_kind :: "change_kind \<Rightarrow> differential_change list \<Rightarrow> nat" where
  "of_kind kind cs = length (filter (\<lambda>c. dc_kind c = kind) cs)"

definition counters_agree :: "differential_report \<Rightarrow> bool" where
  "counters_agree r \<longleftrightarrow>
     dr_new_symbols r = of_kind New_Symbol (dr_changes r) \<and>
     dr_newly_unreachable r = of_kind Newly_Unreachable (dr_changes r) \<and>
     dr_removed r = of_kind Removed (dr_changes r) \<and>
     dr_became_reachable r = of_kind Became_Reachable (dr_changes r) \<and>
     dr_policy_matches r = length (filter dc_policy_match (dr_changes r))"

lemma record_change_counters: "counters_agree r \<Longrightarrow> counters_agree (record_change c r)"
  by (cases "dc_kind c") (simp_all add: counters_agree_def of_kind_def record_change_def count_change_def Let_def)

lemma record_change_fields [simp]:
  "dr_changes (record_change c r) = dr_changes r @ [c]"
  "dr_baseline (record_change c r) = dr_baseline r" "dr_current (record_change c r) = dr_current r"
  by (cases "dc_kind c"; simp add: record_change_def count_change_def Let_def)+

lemma compare_keys:
  "dr_changes (fold (compare_key b c m p) keys r) =
     dr_changes r @ List.map_filter (change_for b c m p) keys \<and>
   dr_baseline (fold (compare_key b c m p) keys r) = dr_baseline r \<and>
   dr_current (fold (compare_key b c m p) keys r) = dr_current r \<and>
   (counters_agree r \<longrightarrow> counters_agree (fold (compare_key b c m p) keys r))"
proof (induction keys arbitrary: r)
  case (Cons k keys)
  then show ?case
    by (cases "change_for b c m p k")
      (simp_all add: compare_key_record List.map_filter_simps record_change_counters)
qed simp

text \<open>A successful comparison.\<close>

lemma differential_report_cases:
  assumes "build_differential_report baseline g result report m policy = Some (Inr r)"
  obtains base where "analyze_reachability (ga_graph baseline) = Some base"
    "dr_changes r = List.map_filter
       (change_for (ga_graph baseline, base, build_report (ga_graph baseline) base) (g, result, report)
         m policy) (compared_keys (ga_graph baseline) g)"
    "counters_agree r" "dr_baseline r = ga_metadata baseline" "dr_current r = m"
proof -
  from assms obtain base where base: "analyze_reachability (ga_graph baseline) = Some base"
    and r: "r = fold (compare_key (ga_graph baseline, base, build_report (ga_graph baseline) base)
       (g, result, report) m policy) (compared_keys (ga_graph baseline) g)
       \<lparr>dr_baseline = ga_metadata baseline, dr_current = m, dr_changes = [],
        dr_new_symbols = 0, dr_newly_unreachable = 0, dr_removed = 0,
        dr_became_reachable = 0, dr_policy_matches = 0\<rparr>"
    by (auto simp: build_differential_report_def Let_def split: sum.splits if_splits)
  let ?empty = "\<lparr>dr_baseline = ga_metadata baseline, dr_current = m, dr_changes = [],
    dr_new_symbols = 0, dr_newly_unreachable = 0, dr_removed = 0,
    dr_became_reachable = 0, dr_policy_matches = 0\<rparr> :: differential_report"
  have "counters_agree ?empty" by (simp add: counters_agree_def of_kind_def)
  then have "counters_agree r" unfolding r by (blast intro: compare_keys [THEN conjunct2, THEN conjunct2, THEN conjunct2, THEN mp])
  then show ?thesis by (rule that [OF base, rotated]) (simp_all add: r compare_keys)
qed

text \<open>What should have changed, in terms of the content of the two graphs alone.\<close>

definition key_change :: "graph \<Rightarrow> graph \<Rightarrow> string \<Rightarrow> change_kind option" where
  "key_change b g k =
     (if k \<in> eligible b then
        (if k \<notin> eligible g then Some Removed
         else if live b k \<and> \<not> live g k then Some Newly_Unreachable
         else if \<not> live b k \<and> live g k then Some Became_Reachable
         else None)
      else if k \<in> eligible g then Some New_Symbol else None)"

lemma change_for_kind:
  assumes "graph_wf b" "analyze_reachability b = Some br" "graph_wf g" "analyze_reachability g = Some gr"
    and "k \<in> eligible b \<union> eligible g"
  shows "map_option dc_kind (change_for (b, br, brep) (g, gr, grep) m policy k) = key_change b g k"
    and "change_for (b, br, brep) (g, gr, grep) m policy k = Some c \<Longrightarrow> sym_key (dc_symbol c) = k"
proof -
  have live: "rr_reachable r ! i \<longleftrightarrow> live h k"
    if "graph_wf h" "analyze_reachability h = Some r" "eligible_symbols h k = Some i" for h r i
    using that live_reachable [OF that(1), of i] analyzed(1) [OF that(2)]
    by (auto simp: eligible_symbols_Some [OF that(1)])
  note none = eligible_none [OF assms(1), of k] eligible_none [OF assms(3), of k]
  show "map_option dc_kind (change_for (b, br, brep) (g, gr, grep) m policy k) = key_change b g k"
    using none assms(5) live [OF assms(1,2)] live [OF assms(3,4)]
    by (auto simp: change_for_def change_of_def key_change_def option.map_comp o_def Let_def
        split: option.split)
  assume "change_for (b, br, brep) (g, gr, grep) m policy k = Some c"
  then have "dc_symbol c = (case eligible_symbols g k of Some i \<Rightarrow> g_symbols g ! i
      | None \<Rightarrow> g_symbols b ! the (eligible_symbols b k))"
    by (auto simp: change_for_def Let_def split: option.splits)
  moreover have "sym_key (g_symbols g ! i) = k" if "eligible_symbols g k = Some i" for i
    using that by (simp add: eligible_symbols_Some [OF assms(3)] key_at_def)
  moreover have "sym_key (g_symbols b ! i) = k" if "eligible_symbols b k = Some i" for i
    using that by (simp add: eligible_symbols_Some [OF assms(1)] key_at_def)
  ultimately show "sym_key (dc_symbol c) = k"
    using none assms(5) by (cases "eligible_symbols g k"; cases "eligible_symbols b k") auto
qed

lemma map_filter_keys:
  assumes "\<And>k c. k \<in> set ks \<Longrightarrow> f k = Some c \<Longrightarrow> h c = k"
  shows "map h (List.map_filter f ks) = filter (\<lambda>k. f k \<noteq> None) ks"
  using assms by (induction ks) (auto simp: List.map_filter_simps split: option.split)

lemma set_map_filter_option: "set (List.map_filter f ks) = {c. \<exists>k \<in> set ks. f k = Some c}"
  by (force simp: List.map_filter_def)

lemma differential_changes_spec:
  assumes "graph_wf (ga_graph baseline)" "graph_wf g" "analyze_reachability g = Some result"
    and "build_differential_report baseline g result report m policy = Some (Inr r)"
  shows "sorted_wrt (<) (map (\<lambda>c. sym_key (dc_symbol c)) (dr_changes r))"
    and "(\<exists>c \<in> set (dr_changes r). sym_key (dc_symbol c) = k \<and> dc_kind c = kind) \<longleftrightarrow>
      key_change (ga_graph baseline) g k = Some kind"
    and "counters_agree r"
proof -
  obtain base where base: "analyze_reachability (ga_graph baseline) = Some base"
    and changes: "dr_changes r = List.map_filter
       (change_for (ga_graph baseline, base, build_report (ga_graph baseline) base) (g, result, report)
         m policy) (compared_keys (ga_graph baseline) g)"
    and agree: "counters_agree r"
    by (rule differential_report_cases [OF assms(4)]) blast
  let ?f = "change_for (ga_graph baseline, base, build_report (ga_graph baseline) base)
    (g, result, report) m policy"
  note kind = change_for_kind [OF assms(1) base assms(2,3)]
  have "map (\<lambda>c. sym_key (dc_symbol c)) (dr_changes r) =
    filter (\<lambda>k. ?f k \<noteq> None) (compared_keys (ga_graph baseline) g)"
    unfolding changes by (rule map_filter_keys, rule kind(2)) auto
  then show "sorted_wrt (<) (map (\<lambda>c. sym_key (dc_symbol c)) (dr_changes r))"
    using compared_keys_sorted by (simp add: sorted_wrt_filter)
  show "counters_agree r" by (rule agree)
  have outside: "key_change (ga_graph baseline) g k = None"
    if "k \<notin> eligible (ga_graph baseline) \<union> eligible g"
    using that by (simp add: key_change_def)
  show "(\<exists>c \<in> set (dr_changes r). sym_key (dc_symbol c) = k \<and> dc_kind c = kind) \<longleftrightarrow>
      key_change (ga_graph baseline) g k = Some kind"
  proof
    assume "\<exists>c \<in> set (dr_changes r). sym_key (dc_symbol c) = k \<and> dc_kind c = kind"
    then obtain c l where c: "l \<in> eligible (ga_graph baseline) \<union> eligible g" "?f l = Some c"
        "sym_key (dc_symbol c) = k" "dc_kind c = kind"
      unfolding changes set_map_filter_option by auto
    then have "l = k" using kind(2) by blast
    with kind(1) [OF c(1), of "build_report (ga_graph baseline) base" report m policy] c
    show "key_change (ga_graph baseline) g k = Some kind" by simp
  next
    assume change: "key_change (ga_graph baseline) g k = Some kind"
    with outside have k: "k \<in> eligible (ga_graph baseline) \<union> eligible g" by fastforce
    with kind(1) [OF k, of "build_report (ga_graph baseline) base" report m policy] change
    obtain c where c: "?f k = Some c" "dc_kind c = kind" by auto
    then show "\<exists>c \<in> set (dr_changes r). sym_key (dc_symbol c) = k \<and> dc_kind c = kind"
      unfolding changes set_map_filter_option using k kind(2) [OF k c(1)] by auto
  qed
qed

text \<open>
  C27: Differential reports are exact. There is one change for every key that is new, removed,
  newly unreachable or became reachable, of that kind, and no other; the changes are listed in
  strictly increasing order of keys. Whether a key is alive is a matter of the call paths between
  keys, not of the numbering of either graph; and the counters count the listed changes.
\<close>
theorem differential_changes_exact:
  assumes "graph_wf (ga_graph baseline)" "graph_wf g" "analyze_reachability g = Some result"
    and "build_differential_report baseline g result report m policy = Some (Inr r)"
  shows "sorted_wrt (<) (map (\<lambda>c. sym_key (dc_symbol c)) (dr_changes r)) \<and>
    (\<forall>k kind. (\<exists>c \<in> set (dr_changes r). sym_key (dc_symbol c) = k \<and> dc_kind c = kind) \<longleftrightarrow>
       key_change (ga_graph baseline) g k = Some kind) \<and>
    dr_new_symbols r = of_kind New_Symbol (dr_changes r) \<and>
    dr_newly_unreachable r = of_kind Newly_Unreachable (dr_changes r) \<and>
    dr_removed r = of_kind Removed (dr_changes r) \<and>
    dr_became_reachable r = of_kind Became_Reachable (dr_changes r) \<and>
    dr_policy_matches r = length (filter dc_policy_match (dr_changes r))"
  using differential_changes_spec [OF assms] unfolding counters_agree_def by blast

text \<open>The sample program before \<open>main\<close> stopped calling \<open>left\<close> and before \<open>helper\<close> was added.\<close>

definition earlier_program :: graph where
  "earlier_program =
     \<lparr>g_symbols = [sample_symbol ''main'' ''a.cpp'' 1 5, sample_symbol ''left'' ''b.cpp'' 10 12,
        sample_symbol ''right'' ''b.cpp'' 12 20, sample_symbol ''gone'' ''b.cpp'' 30 31],
      g_edges = [sample_edge 0 1 Direct_Call, sample_edge 1 2 Direct_Call],
      g_key_to_id = [''main'' \<mapsto> 0, ''left'' \<mapsto> 1, ''right'' \<mapsto> 2, ''gone'' \<mapsto> 3],
      g_roots = [sample_root 0 Application_Entry_Point],
      g_escapes = [], g_suppressions = []\<rparr>"

definition earlier_artifact :: graph_artifact where
  "earlier_artifact = \<lparr>ga_graph = earlier_program, ga_metadata = stored_metadata, ga_diagnostics = []\<rparr>"

definition sample_difference :: "differential_report result option" where
  "sample_difference = build_differential_report earlier_artifact sample_program sample_result
     (build_report sample_program sample_result) stored_metadata (Some default_policy)"

lemma earlier_program_wf [simp]: "graph_wf earlier_program"
  unfolding graph_wf_def
  by (intro conjI allI wf_by_index)
    (auto simp: earlier_program_def sample_defs keys_of_def key_at_def less_Suc_eq)

lemma sample_difference_changes:
  "map_option (map_sum id (\<lambda>r. map (\<lambda>c. (sym_key (dc_symbol c), dc_kind c, dc_policy_match c))
     (dr_changes r))) sample_difference =
   Some (Inr [(''gone'', Removed, False), (''helper'', New_Symbol, False),
     (''left'', Newly_Unreachable, True), (''right'', Newly_Unreachable, True)])"
  by code_simp

lemma sample_differs:
  obtains r where "sample_difference = Some (Inr r)"
    "map (\<lambda>c. (sym_key (dc_symbol c), dc_kind c, dc_policy_match c)) (dr_changes r) =
      [(''gone'', Removed, False), (''helper'', New_Symbol, False),
       (''left'', Newly_Unreachable, True), (''right'', Newly_Unreachable, True)]"
proof (cases sample_difference)
  case (Some x)
  show ?thesis using sample_difference_changes that unfolding Some by (cases x) auto
qed (use sample_difference_changes in simp)

lemma differential_changes_exact_witness:
  "key_change earlier_program sample_program ''left'' = Some Newly_Unreachable \<and>
   key_change earlier_program sample_program ''main'' = None"
proof (rule sample_differs)
  fix r
  assume r: "sample_difference = Some (Inr r)"
    "map (\<lambda>c. (sym_key (dc_symbol c), dc_kind c, dc_policy_match c)) (dr_changes r) =
      [(''gone'', Removed, False), (''helper'', New_Symbol, False),
       (''left'', Newly_Unreachable, True), (''right'', Newly_Unreachable, True)]"
  have exact: "(\<exists>c \<in> set (dr_changes r). sym_key (dc_symbol c) = k \<and> dc_kind c = kind) \<longleftrightarrow>
      key_change earlier_program sample_program k = Some kind" for k kind
    using differential_changes_exact [of earlier_artifact, OF _ sample_program_wf sample_analysis
        r(1) [unfolded sample_difference_def]]
    by (simp add: earlier_artifact_def)
  have "map (\<lambda>c. (sym_key (dc_symbol c), dc_kind c)) (dr_changes r) =
      map (\<lambda>(k, kind, m). (k, kind)) (map (\<lambda>c. (sym_key (dc_symbol c), dc_kind c, dc_policy_match c)) (dr_changes r))"
    by simp
  also have "\<dots> = [(''gone'', Removed), (''helper'', New_Symbol),
        (''left'', Newly_Unreachable), (''right'', Newly_Unreachable)]"
    unfolding r(2) by simp
  finally have pairs: "map (\<lambda>c. (sym_key (dc_symbol c), dc_kind c)) (dr_changes r) = \<dots>" .
  have listed: "key_change earlier_program sample_program k = Some kind \<longleftrightarrow>
      (k, kind) \<in> set [(''gone'', Removed), (''helper'', New_Symbol),
        (''left'', Newly_Unreachable), (''right'', Newly_Unreachable)]" for k kind
    unfolding exact [symmetric] pairs [symmetric] by auto
  show ?thesis
    using listed [of "''left''" Newly_Unreachable] listed [of "''main''"]
    by (cases "key_change earlier_program sample_program ''main''") auto
qed

section \<open>When a comparison fails\<close>

definition policy_applies :: "differential_policy option \<Rightarrow> artifact_metadata \<Rightarrow> bool" where
  "policy_applies policy m \<longleftrightarrow> (\<forall>p. policy = Some p \<longrightarrow> dp_targets p = [] \<or>
     (gm_target_name m \<noteq> [] \<and> gm_target_name m \<in> set (dp_targets p)))"

definition same_context :: "artifact_metadata \<Rightarrow> artifact_metadata \<Rightarrow> bool" where
  "same_context a b \<longleftrightarrow> gm_configuration_id a = gm_configuration_id b \<and>
     gm_frontend a = gm_frontend b \<and> gm_target_id a = gm_target_id b \<and>
     gm_target_name a = gm_target_name b \<and> gm_target_kind a = gm_target_kind b"

lemma analyzed_total: "graph_wf g \<Longrightarrow> \<exists>r. analyze_reachability g = Some r"
  using unreachable_sccs_spec [of g] by (auto simp: analyze_reachability_def)

lemma differential_returns:
  assumes "graph_wf (ga_graph baseline)"
  shows "\<exists>x. build_differential_report baseline g result report m policy = Some x \<and>
    ((\<exists>r. x = Inr r) \<longleftrightarrow> same_context (ga_metadata baseline) m \<and> policy_applies policy m)"
proof -
  obtain base where "analyze_reachability (ga_graph baseline) = Some base"
    using analyzed_total [OF assms] by blast
  then show ?thesis
    by (cases policy) (auto simp: build_differential_report_def require_compatible_context_def same_context_def
        policy_applies_def Let_def)
qed

text \<open>
  A comparison returns on every well-formed baseline, such as the artifact reader delivers,
  and it is refused exactly if the two sides differ in configuration, frontend or target or the
  policy lists targets and not this one.
\<close>
theorem differential_report_returns:
  assumes "graph_wf (ga_graph baseline)"
  shows "\<exists>x. build_differential_report baseline g result report m policy = Some x \<and>
    ((\<exists>r. x = Inr r) \<longleftrightarrow> same_context (ga_metadata baseline) m \<and> policy_applies policy m)"
  by (rule differential_returns [OF assms])

lemma differential_report_returns_witness:
  "\<exists>x. build_differential_report earlier_artifact sample_program sample_result
     (build_report sample_program sample_result) (stored_metadata\<lparr>gm_frontend := Lib_Tooling\<rparr>) None = Some x \<and>
   (\<nexists>r. x = Inr r)"
  using differential_report_returns [of earlier_artifact sample_program sample_result
      "build_report sample_program sample_result" "stored_metadata\<lparr>gm_frontend := Lib_Tooling\<rparr>" None]
  by (simp add: earlier_artifact_def same_context_def stored_metadata_def)

section \<open>Graphs of the same content\<close>

text \<open>
  A program is never reported to differ from itself: against a baseline of the same content,
  however its symbols are numbered and its facts are ordered, no change is listed and every
  counter is zero.
\<close>
theorem unchanged_program_no_changes:
  assumes "graph_wf (ga_graph baseline)" "graph_wf g" "analyze_reachability g = Some result"
    and "same_content (ga_graph baseline) g" "same_context (ga_metadata baseline) m" "policy_applies policy m"
  shows "build_differential_report baseline g result report m policy =
    Some (Inr \<lparr>dr_baseline = ga_metadata baseline, dr_current = m, dr_changes = [],
      dr_new_symbols = 0, dr_newly_unreachable = 0, dr_removed = 0, dr_became_reachable = 0,
      dr_policy_matches = 0\<rparr>)"
proof -
  obtain r where r: "build_differential_report baseline g result report m policy = Some (Inr r)"
    using differential_returns [OF assms(1)] assms(5,6) by blast
  have "key_change (ga_graph baseline) g k = None" for k
    using assms(4) by (simp add: key_change_def live_content symbols_at_content eligible_def)
  then have none: "dr_changes r = []"
    using differential_changes_spec(2) [OF assms(1-3) r] by (cases "dr_changes r") auto
  from differential_report_cases [OF r] have "dr_baseline r = ga_metadata baseline" "dr_current r = m" by blast+
  with none differential_changes_spec(3) [OF assms(1-3) r]
  show ?thesis unfolding r by (cases r) (simp add: counters_agree_def of_kind_def)
qed

lemma unchanged_program_no_changes_witness:
  "\<exists>r. build_differential_report
     \<lparr>ga_graph = canonicalize sample_program, ga_metadata = stored_metadata, ga_diagnostics = []\<rparr>
     sample_program sample_result (build_report sample_program sample_result) stored_metadata None =
     Some (Inr r) \<and> dr_changes r = []"
  using unchanged_program_no_changes [of
      "\<lparr>ga_graph = canonicalize sample_program, ga_metadata = stored_metadata, ga_diagnostics = []\<rparr>"
      sample_program sample_result stored_metadata None "build_report sample_program sample_result"]
    graph_wf_canonicalize [OF sample_program_wf] same_content_canonicalize [OF sample_program_wf]
    sample_analysis
  by (simp add: same_context_def policy_applies_def)

section \<open>Policy matches\<close>

lemma find_distinct:
  assumes "distinct (map f xs)"
  shows "find (\<lambda>x. f x = i) xs = Some x \<longleftrightarrow> x \<in> set xs \<and> f x = i"
  using assms by (induction xs) auto

lemma state_actionable:
  assumes "distinct (map fi_symbol (ar_findings report))"
  shows "\<not> st_suppressed (symbol_state_of g result report (Some i)) \<and>
      st_classification (symbol_state_of g result report (Some i)) = Some c \<longleftrightarrow>
    (\<exists>f \<in> set (ar_findings report). fi_symbol f = i \<and> fi_classification f = c)"
proof (cases "find (\<lambda>f. fi_symbol f = i) (ar_findings report)")
  case None
  then have none: "\<forall>f \<in> set (ar_findings report). fi_symbol f \<noteq> i" by (simp add: find_None_iff)
  have "lookup_finding report i = (None, None) \<or> (\<exists>s. lookup_finding report i = (Some (sf_finding s), Some s))"
    using None by (simp add: lookup_finding_def split: option.split)
  then have "st_suppressed (symbol_state_of g result report (Some i)) \<or>
      st_classification (symbol_state_of g result report (Some i)) = None"
    by (auto simp: symbol_state_of_def absent_state_def)
  with none show ?thesis by auto
next
  case (Some f)
  with find_distinct [OF assms, of i f] have f: "f \<in> set (ar_findings report)" "fi_symbol f = i" by simp_all
  have unique: "f' = f" if "f' \<in> set (ar_findings report)" "fi_symbol f' = i" for f'
    using find_distinct [OF assms, of i f'] that Some by simp
  have "lookup_finding report i = (Some f, None)" by (simp add: lookup_finding_def Some)
  then have "\<not> st_suppressed (symbol_state_of g result report (Some i)) \<and>
      st_classification (symbol_state_of g result report (Some i)) = Some (fi_classification f)"
    by (simp add: symbol_state_of_def absent_state_def)
  moreover have "(\<exists>f' \<in> set (ar_findings report). fi_symbol f' = i \<and> fi_classification f' = c) \<longleftrightarrow>
      fi_classification f = c"
    using f unique by blast
  ultimately show ?thesis by simp
qed

lemma finding_eligible:
  assumes "graph_wf g" "analyze_reachability g = Some result" "f \<in> set (ar_findings (build_report g result))"
  shows "eligible_symbols g (key_at g (fi_symbol f)) = Some (fi_symbol f)"
    and "\<not> live g (key_at g (fi_symbol f))"
proof -
  have "fi_symbol (classify g i s) = i" for i s by (simp add: classify_def Let_def split: prod.split)
  then obtain i where i: "fi_symbol f = i" "unreachable_definition g i"
    using assms(3) report_findings_sets(1) [OF assms(1,2)] by auto
  then have n: "i < length (g_symbols g)" "\<not> rr_reachable result ! i"
    by (simp_all add: unreachable_definition_result(1) [OF assms(1,2)])
  show "eligible_symbols g (key_at g (fi_symbol f)) = Some (fi_symbol f)"
    using i n by (simp add: eligible_symbols_Some [OF assms(1)] eligible_symbol_def
        unreachable_definition_def counted_def)
  show "\<not> live g (key_at g (fi_symbol f))"
    using live_reachable [OF assms(1) n(1)] n(2) i(1) analyzed(1) [OF assms(2)] by simp
qed

lemma policy_matches_iff:
  assumes "policy_applies (Some p) m"
  shows "policy_matches p m c \<longleftrightarrow> dc_kind c \<in> set (dp_changes p) \<and>
    (\<exists>k \<in> set (dp_classifications p). \<not> st_suppressed (dc_current c) \<and>
       st_classification (dc_current c) = Some k)"
  using assms by (auto simp: policy_matches_def policy_applies_def split: option.splits)

lemma policy_matches_flag: "policy_matches p m (c\<lparr>dc_policy_match := b\<rparr>) = policy_matches p m c"
  by (simp add: policy_matches_def)

text \<open>
  C28: The policy fires for actionable findings only. A change matches exactly if the policy names
  its kind and the current report has a finding of that key, not a suppressed one, with a
  classification the policy names; such a symbol is dead in the current program. In particular
  removed symbols never match.
\<close>
theorem policy_match_actionable:
  assumes "graph_wf (ga_graph baseline)" "graph_wf g" "analyze_reachability g = Some result"
    and "build_differential_report baseline g result (build_report g result) m (Some p) = Some (Inr r)"
    and "c \<in> set (dr_changes r)"
  shows "dc_policy_match c \<longleftrightarrow> dc_kind c \<in> set (dp_changes p) \<and> \<not> live g (sym_key (dc_symbol c)) \<and>
    (\<exists>f \<in> set (ar_findings (build_report g result)).
       key_at g (fi_symbol f) = sym_key (dc_symbol c) \<and> fi_classification f \<in> set (dp_classifications p))"
proof -
  let ?report = "build_report g result"
  have applies: "policy_applies (Some p) m"
    using differential_returns [OF assms(1), of g result ?report m "Some p"] assms(4) by auto
  obtain base where base: "analyze_reachability (ga_graph baseline) = Some base"
    and changes: "dr_changes r = List.map_filter
       (change_for (ga_graph baseline, base, build_report (ga_graph baseline) base) (g, result, ?report)
         m (Some p)) (compared_keys (ga_graph baseline) g)"
    by (rule differential_report_cases [OF assms(4)]) blast
  from assms(5) obtain k where k: "k \<in> eligible (ga_graph baseline) \<union> eligible g"
    and c: "change_for (ga_graph baseline, base, build_report (ga_graph baseline) base)
      (g, result, ?report) m (Some p) k = Some c"
    unfolding changes set_map_filter_option by auto
  have key: "sym_key (dc_symbol c) = k" by (rule change_for_kind(2) [OF assms(1) base assms(2,3) k c])
  from c have match: "dc_policy_match c = policy_matches p m c"
    and current: "dc_current c = symbol_state_of g result ?report (eligible_symbols g k)"
    by (auto simp: change_for_def Let_def policy_matches_def split: option.splits)
  note found = finding_eligible [OF assms(2,3)]
  have "(\<exists>cl \<in> set (dp_classifications p). \<not> st_suppressed (dc_current c) \<and>
      st_classification (dc_current c) = Some cl) \<longleftrightarrow>
    (\<exists>f \<in> set (ar_findings ?report). key_at g (fi_symbol f) = k \<and>
      fi_classification f \<in> set (dp_classifications p))"
  proof (cases "eligible_symbols g k")
    case None
    with found(1) show ?thesis unfolding current by (auto simp: symbol_state_of_def absent_state_def)
  next
    case (Some i)
    then have "key_at g (fi_symbol f) = k \<longleftrightarrow> fi_symbol f = i" if "f \<in> set (ar_findings ?report)" for f
      using found(1) [OF that] graph_wf_key_inj [OF assms(2)]
      by (auto simp: eligible_symbols_Some [OF assms(2)])
    then show ?thesis
      unfolding current Some state_actionable [OF report_findings_distinct(1) [OF assms(3)]] by blast
  qed
  then show ?thesis
    unfolding match policy_matches_iff [OF applies] key using found(2) by blast
qed

lemma policy_match_actionable_witness:
  "\<not> live sample_program ''left'' \<and> (\<exists>f \<in> set (ar_findings (build_report sample_program sample_result)).
     key_at sample_program (fi_symbol f) = ''left'')"
proof (rule sample_differs)
  fix r
  assume r: "sample_difference = Some (Inr r)"
    "map (\<lambda>c. (sym_key (dc_symbol c), dc_kind c, dc_policy_match c)) (dr_changes r) =
      [(''gone'', Removed, False), (''helper'', New_Symbol, False),
       (''left'', Newly_Unreachable, True), (''right'', Newly_Unreachable, True)]"
  from arg_cong [OF r(2), of length] have "length (dr_changes r) = 4" by simp
  then have c: "dr_changes r ! 2 \<in> set (dr_changes r)" by simp
  from arg_cong [OF r(2), of "\<lambda>xs. xs ! 2"] \<open>length (dr_changes r) = 4\<close>
  have "sym_key (dc_symbol (dr_changes r ! 2)) = ''left''" "dc_policy_match (dr_changes r ! 2)" by simp_all
  with policy_match_actionable [of earlier_artifact, OF _ sample_program_wf sample_analysis
      r(1) [unfolded sample_difference_def] c]
  show ?thesis by (auto simp: earlier_artifact_def)
qed

section \<open>Loading a policy\<close>

lemma distinct_items:
  assumes "fold_result f xs ys = Inr zs" "distinct ys" "\<forall>y \<in> set ys. P y"
    and "\<And>x s t. f x s = Inr t \<Longrightarrow> \<exists>y. t = s @ [y] \<and> y \<notin> set s \<and> P y"
  shows "distinct zs \<and> (\<forall>z \<in> set zs. P z) \<and> length zs = length ys + length xs"
  using assms(1-3)
proof (induction xs arbitrary: ys)
  case (Cons x xs)
  from Cons.prems(1) obtain t where t: "f x ys = Inr t" "fold_result f xs t = Inr zs"
    by (auto simp: rbind_eq_Inr)
  from assms(4) [OF t(1)] obtain y where "t = ys @ [y]" "y \<notin> set ys" "P y" by blast
  with Cons.IH [OF t(2)] Cons.prems(2,3) show ?case by simp
qed simp

definition policy_ok :: "differential_policy \<Rightarrow> bool" where
  "policy_ok p \<longleftrightarrow> dp_changes p \<noteq> [] \<and> distinct (dp_changes p) \<and>
     set (dp_changes p) \<subseteq> {New_Symbol, Newly_Unreachable} \<and>
     dp_classifications p \<noteq> [] \<and> distinct (dp_classifications p) \<and>
     distinct (dp_targets p) \<and> [] \<notin> set (dp_targets p)"

lemma parse_policy_enum_list_ok:
  assumes "parse_policy_enum_list api doc key path read = Inr xs" "y_lookup api doc key \<noteq> None"
    and "\<And>s y. read s = Inr y \<Longrightarrow> P y"
  shows "xs \<noteq> [] \<and> distinct xs \<and> (\<forall>x \<in> set xs. P x)"
proof -
  from assms(1,2) obtain sequence where items: "y_items api sequence \<noteq> []"
    and fold: "fold_result (\<lambda>(index, item) so_far.
              if \<not> y_is_scalar api item then
                Inl (Runtime_Error (context_at path
                  (key @ ''['' @ to_string_nat index @ ''] must be a string'')))
              else
                rbind (read (y_string api item)) (\<lambda>parsed.
                  if parsed \<in> set so_far then
                    Inl (Runtime_Error (context_at path key @ '' contains duplicate value '' @
                      apostrophe @ y_string api item @ apostrophe))
                  else Inr (so_far @ [parsed])))
              (enumerate 0 (y_items api sequence)) [] = Inr xs"
    by (auto simp: parse_policy_enum_list_def split: option.splits if_splits)
  have "distinct xs \<and> (\<forall>x \<in> set xs. P x) \<and> length xs = length ([] :: 'a list) + length (enumerate 0 (y_items api sequence))"
    by (rule distinct_items [OF fold])
      (auto simp: rbind_eq_Inr split: if_splits, erule assms(3))
  with items show ?thesis by auto
qed

text \<open>
  Every policy that loads is usable: it lists at least one kind of change and at least one
  classification, each once, only changes that add debt, and no empty or repeated target.
\<close>
theorem load_differential_policy_valid:
  assumes "load_differential_policy api fs path = Inr p"
  shows "policy_ok p"
proof -
  from assms obtain doc where
    changes: "read_policy_list api doc ''changes'' path (parse_policy_change path)
      (dp_changes default_policy) = Inr (dp_changes p)" and
    classes: "read_policy_list api doc ''classifications'' path (parse_classification path)
      (dp_classifications default_policy) = Inr (dp_classifications p)" and
    targets: "read_policy_targets api doc path = Inr (dp_targets p)"
    unfolding load_differential_policy_def
    by (auto simp: rbind_eq_Inr split: sum.splits option.splits if_splits)
  note lists = changes [unfolded read_policy_list_def] classes [unfolded read_policy_list_def]
  note targets = targets [unfolded read_policy_targets_def]
  have "dp_changes p \<noteq> [] \<and> distinct (dp_changes p) \<and>
      (\<forall>c \<in> set (dp_changes p). c \<in> {New_Symbol, Newly_Unreachable})"
  proof (cases "y_lookup api doc ''changes''")
    case (Some n)
    with lists(1) show ?thesis
      by (intro parse_policy_enum_list_ok) (auto simp: parse_policy_change_def split: if_splits)
  qed (use lists in \<open>auto simp: default_policy_def dest: sym\<close>)
  moreover have "dp_classifications p \<noteq> [] \<and> distinct (dp_classifications p) \<and>
      (\<forall>c \<in> set (dp_classifications p). True)"
  proof (cases "y_lookup api doc ''classifications''")
    case (Some n)
    with lists(2) show ?thesis by (intro parse_policy_enum_list_ok) auto
  qed (use lists in \<open>auto simp: default_policy_def dest: sym\<close>)
  moreover have "distinct (dp_targets p) \<and> (\<forall>t \<in> set (dp_targets p). t \<noteq> [])"
  proof (cases "y_lookup api doc ''targets''")
    case (Some sequence)
    with targets have fold: "fold_result (\<lambda>item so_far.
          if \<not> y_is_scalar api item then
            Inl (Runtime_Error (context_at path ''targets'' @ '' entries must be strings''))
          else
            let target = y_string api item in
            if target = [] then
              Inl (Runtime_Error (context_at path ''targets'' @ '' entries cannot be empty''))
            else if target \<in> set so_far then
              Inl (Runtime_Error (context_at path ''targets'' @ '' contains duplicate value '' @
                apostrophe @ target @ apostrophe))
            else Inr (so_far @ [target])) (y_items api sequence) [] = Inr (dp_targets p)"
      by (simp add: parse_policy_targets_def split: if_splits)
    have "distinct (dp_targets p) \<and> (\<forall>t \<in> set (dp_targets p). t \<noteq> []) \<and>
        length (dp_targets p) = length ([] :: string list) + length (y_items api sequence)"
      by (rule distinct_items [OF fold]) (auto simp: Let_def split: if_splits)
    then show ?thesis by blast
  qed (use targets in auto)
  ultimately show ?thesis by (auto simp: policy_ok_def)
qed

text \<open>A document that lists one kind of change; nodes are strings.\<close>

definition policy_api :: "string yaml_api" where
  "policy_api = \<lparr>y_load = (\<lambda>_. Inr ''doc''), y_is_map = (\<lambda>n. n = ''doc''), y_is_scalar = (\<lambda>n. n \<noteq> ''doc''),
     y_is_sequence = (\<lambda>n. n = ''list''),
     y_entries = (\<lambda>_. [(''schema_version'', ''two''), (''changes'', ''list'')]),
     y_items = (\<lambda>n. if n = ''list'' then [''new_symbol''] else []),
     y_lookup = (\<lambda>n k. if n = ''doc'' then map_of [(''schema_version'', ''two''), (''changes'', ''list'')] k
        else None),
     y_string = (\<lambda>n. n), y_int = (\<lambda>n. if n = ''two'' then Some 2 else None), y_size = (\<lambda>_. None)\<rparr>"

lemma load_differential_policy_valid_witness:
  "\<exists>p. load_differential_policy policy_api sample_disk ''/p.yaml'' = Inr p \<and> policy_ok p \<and>
     dp_changes p = [New_Symbol]"
proof -
  have "\<exists>p. load_differential_policy policy_api sample_disk ''/p.yaml'' = Inr p \<and> dp_changes p = [New_Symbol]"
    by (simp add: load_differential_policy_def policy_api_def require_mapping_def Let_def
        differential_policy_schema_version_def parse_policy_enum_list_def parse_policy_change_def
        read_policy_list_def read_policy_targets_def)
  then show ?thesis using load_differential_policy_valid by blast
qed

end
