(* ===== verification/Json_Readable.thy ===== *)
theory Json_Readable
  imports Json_Text
begin

text \<open>
  Reading the reports back: a text is \<open>readable\<close> if the parser accepts it wherever a value may
  stand, and \<open>text_value\<close> is the value it reads. The layouts of arrays and objects are
  transparent: members and items are found under their names with the values of their texts.
\<close>

definition text_value :: "string \<Rightarrow> json" where
  "text_value t = (case parse t of Inr v \<Rightarrow> v | Inl _ \<Rightarrow> JNull)"

definition readable :: "string \<Rightarrow> bool" where
  "readable t \<longleftrightarrow> spells (text_value t) t"

lemma spells_value: "spells v t \<Longrightarrow> text_value t = v"
  using parse_spelled [of v t "[]" "[]"] by (simp add: text_value_def blank_def)

lemma spells_readable: "spells v t \<Longrightarrow> readable t"
  by (simp add: readable_def spells_value)

lemma readable_values [simp]:
  "text_value (quoted s) = JString s" "readable (quoted s)"
  "text_value ''null'' = JNull" "readable ''null''"
  "text_value (bool_text b) = JBool b" "readable (bool_text b)"
  by (blast intro: spells_value spells_readable spells_string spells_null spells_bool)+

lemma readable_nat [simp]:
  "n < 2 ^ 53 \<Longrightarrow> text_value (to_string_nat n) = JNumber (of_nat n)"
  "n < 2 ^ 53 \<Longrightarrow> readable (to_string_nat n)"
  by (blast intro: spells_value spells_readable spells_nat)+

lemma spelled_values:
  "\<forall>(k, t) \<in> set kts. readable t \<Longrightarrow> spelled (map (\<lambda>(k, t). (k, text_value t)) kts) kts"
  by (induction kts) (auto simp: readable_def)

lemma object_spells:
  assumes "\<forall>(k, t) \<in> set kts. readable t" "distinct (map fst kts)" "blank_layout l"
  shows "spells (object_of (map (\<lambda>(k, t). (k, text_value t)) kts)) (object_text l kts)"
  by (rule spells_object [OF spelled_values [OF assms(1)] assms(2,3)])

lemma readable_object:
  assumes "\<forall>(k, t) \<in> set kts. readable t" "distinct (map fst kts)" "blank_layout l"
  shows "readable (object_text l kts)"
  using object_spells [OF assms] by (rule spells_readable)

lemma json_find_text:
  assumes "\<forall>(k, t) \<in> set kts. readable t" "distinct (map fst kts)" "blank_layout l"
  shows "json_find k (text_value (object_text l kts)) = map_option text_value (map_of kts k)"
proof -
  let ?kvs = "map (\<lambda>(k, t). (k, text_value t)) kts"
  have "map fst ?kvs = map fst kts" by auto
  then have "distinct (map fst ?kvs)" using assms(2) by (simp only:)
  from json_find_object_of [OF this]
  show ?thesis by (simp add: spells_value [OF object_spells [OF assms]] map_of_map)
qed

lemma array_spells:
  assumes "\<forall>t \<in> set ts. readable t" "blank_layout l" "blank none"
  shows "spells (JArray (map text_value ts)) (array_text l none ts)"
  by (rule spells_array [OF _ assms(2,3)])
    (use assms(1) in \<open>induction ts, auto simp: readable_def\<close>)

lemma readable_array:
  assumes "\<forall>t \<in> set ts. readable t" "blank_layout l" "blank none"
  shows "readable (array_text l none ts)" "text_value (array_text l none ts) = JArray (map text_value ts)"
  using array_spells [OF assms] by (auto intro: spells_readable spells_value)

text \<open>Following a path of member names.\<close>

fun json_at :: "string list \<Rightarrow> json \<Rightarrow> json option" where
  "json_at [] v = Some v"
| "json_at (k # ks) v = (case json_find k v of None \<Rightarrow> None | Some w \<Rightarrow> json_at ks w)"

lemma parse_document:
  assumes "readable t"
  shows "parse (t @ newline) = Inr (text_value t)"
  using parse_spelled [of "text_value t" t "[]" newline] assms
  by (simp add: readable_def blank_def newline_def is_space_def)

end
