(* ===== verification/Differential_Text_Facts.thy ===== *)
theory Differential_Text_Facts
  imports Differential_Text Differential_Facts Json_Readable
begin

text \<open>
  The machine-readable forms of a differential report are JSON documents that state the report:
  every counter, change and policy match can be read back from the text, whatever bytes occur in
  names and paths, and the locations of the SARIF log are URIs that decode to the paths.
\<close>

section \<open>The JSON report\<close>

definition difference_ok :: "differential_report \<Rightarrow> bool" where
  "difference_ok r \<longleftrightarrow>
     dr_new_symbols r < 2 ^ 53 \<and> dr_newly_unreachable r < 2 ^ 53 \<and> dr_removed r < 2 ^ 53 \<and>
     dr_became_reachable r < 2 ^ 53 \<and> dr_policy_matches r < 2 ^ 53 \<and>
     gm_translation_units (dr_baseline r) < 2 ^ 53 \<and> gm_translation_units (dr_current r) < 2 ^ 53 \<and>
     (\<forall>c \<in> set (dr_changes r). extent_ok (primary_source_extent (dc_symbol c)))"

named_theorems readable_parts

lemmas text_rules = readable_object json_find_text readable_array

lemma readable_shared [readable_parts]:
  "readable (nullable_text s)" "readable (evidence_text e)" "point_ok p \<Longrightarrow> readable (source_point_text p)"
  by (blast intro: spells_readable spells_nullable spells_evidence spells_point)+

lemma value_nullable [simp]: "text_value (nullable_text s) = (if s = [] then JNull else JString s)"
  by (simp add: nullable_text_def)

lemma readable_metadata [readable_parts]:
  "gm_translation_units m < 2 ^ 53 \<Longrightarrow> readable (metadata_text m)"
  by (simp add: metadata_text_def text_rules readable_parts)

lemma readable_state_evidence [readable_parts]: "readable (state_evidence_text x)"
  by (simp add: state_evidence_text_def text_rules readable_parts split: option.split)

lemma readable_state [readable_parts]: "readable (state_text s)"
  by (simp add: state_text_def text_rules readable_parts split: option.split)

lemma value_state:
  "json_find ''reachable'' (text_value (state_text s)) = Some (JBool (st_reachable s))"
  "json_find ''present'' (text_value (state_text s)) = Some (JBool (st_present s))"
  "json_find ''suppressed'' (text_value (state_text s)) = Some (JBool (st_suppressed s))"
  by (simp_all add: state_text_def text_rules readable_parts split: option.split)

lemma readable_changed_symbol [readable_parts]:
  "extent_ok (primary_source_extent s) \<Longrightarrow> readable (changed_symbol_text s)"
  by (simp add: changed_symbol_text_def text_rules readable_parts extent_ok_def)

lemma readable_change [readable_parts]:
  "extent_ok (primary_source_extent (dc_symbol c)) \<Longrightarrow> readable (change_text c)"
  by (simp add: change_text_def text_rules readable_parts)

text \<open>What a consumer finds in the entry of a change.\<close>

definition states_change :: "json \<Rightarrow> differential_change \<Rightarrow> bool" where
  "states_change v c \<longleftrightarrow>
     json_at [''kind''] v = Some (JString (change_kind_to_string (dc_kind c))) \<and>
     json_at [''policy_match''] v = Some (JBool (dc_policy_match c)) \<and>
     json_at [''symbol'', ''id''] v = Some (JString (sym_key (dc_symbol c))) \<and>
     json_at [''symbol'', ''qualified_name''] v = Some (JString (sym_qualified_name (dc_symbol c))) \<and>
     json_at [''baseline'', ''reachable''] v = Some (JBool (st_reachable (dc_baseline c))) \<and>
     json_at [''current'', ''reachable''] v = Some (JBool (st_reachable (dc_current c))) \<and>
     json_at [''current'', ''suppressed''] v = Some (JBool (st_suppressed (dc_current c)))"

lemma change_text_states:
  assumes "extent_ok (primary_source_extent (dc_symbol c))"
  shows "states_change (text_value (change_text c)) c"
proof -
  have "json_find ''id'' (text_value (changed_symbol_text (dc_symbol c))) = Some (JString (sym_key (dc_symbol c)))"
    "json_find ''qualified_name'' (text_value (changed_symbol_text (dc_symbol c))) =
       Some (JString (sym_qualified_name (dc_symbol c)))"
    using assms by (simp_all add: changed_symbol_text_def text_rules readable_parts extent_ok_def)
  with assms show ?thesis
    by (simp add: states_change_def change_text_def text_rules readable_parts value_state)
qed

lemma readable_summary [readable_parts]: "difference_ok r \<Longrightarrow> readable (summary_text r)"
  by (simp add: summary_text_def difference_ok_def text_rules)

lemma value_summary:
  assumes "difference_ok r"
  shows "json_find ''new_symbols'' (text_value (summary_text r)) =
      Some (JNumber (of_nat (dr_new_symbols r)))"
    "json_find ''newly_unreachable'' (text_value (summary_text r)) =
      Some (JNumber (of_nat (dr_newly_unreachable r)))"
    "json_find ''removed'' (text_value (summary_text r)) = Some (JNumber (of_nat (dr_removed r)))"
    "json_find ''became_reachable'' (text_value (summary_text r)) =
      Some (JNumber (of_nat (dr_became_reachable r)))"
    "json_find ''policy_matches'' (text_value (summary_text r)) =
      Some (JNumber (of_nat (dr_policy_matches r)))"
  using assms by (simp_all add: summary_text_def difference_ok_def text_rules)

text \<open>
  The JSON report is valid JSON, whatever bytes occur in names, reasons and paths, and states
  the comparison: its summary holds the five counters, and its list of changes has one entry for
  each change, in order, with its kind, symbol, reachability on both sides and policy match.
\<close>
theorem differential_json_faithful:
  assumes "difference_ok r"
  shows "\<exists>doc changes. parse (write_json_differential_report r) = Inr doc \<and>
    json_at [''summary'', ''new_symbols''] doc = Some (JNumber (of_nat (dr_new_symbols r))) \<and>
    json_at [''summary'', ''newly_unreachable''] doc = Some (JNumber (of_nat (dr_newly_unreachable r))) \<and>
    json_at [''summary'', ''removed''] doc = Some (JNumber (of_nat (dr_removed r))) \<and>
    json_at [''summary'', ''became_reachable''] doc = Some (JNumber (of_nat (dr_became_reachable r))) \<and>
    json_at [''summary'', ''policy_matches''] doc = Some (JNumber (of_nat (dr_policy_matches r))) \<and>
    json_at [''changes''] doc = Some (JArray changes) \<and>
    list_all2 states_change changes (dr_changes r)"
proof -
  have ok: "\<forall>c \<in> set (dr_changes r). extent_ok (primary_source_extent (dc_symbol c))"
    "gm_translation_units (dr_baseline r) < 2 ^ 53" "gm_translation_units (dr_current r) < 2 ^ 53"
    using assms by (simp_all add: difference_ok_def)
  let ?changes = "map (\<lambda>c. text_value (change_text c)) (dr_changes r)"
  have entries: "readable (section_text (map change_text (dr_changes r)))"
    "text_value (section_text (map change_text (dr_changes r))) = JArray ?changes"
    using ok(1) by (simp_all add: section_text_def text_rules readable_parts o_def)
  have version: "readable (to_string_nat differential_report_schema_version)"
    by (simp add: differential_report_schema_version_def)
  have all2: "list_all2 states_change ?changes (dr_changes r)"
    using ok(1) by (auto simp: list_all2_conv_all_nth change_text_states)
  show ?thesis
    unfolding write_json_differential_report_def
    by (subst parse_document)
      (use assms ok(2,3) entries version all2 value_summary [OF assms] in
        \<open>auto simp: text_rules readable_parts\<close>)
qed

definition shown_difference :: differential_report where
  "shown_difference = \<lparr>dr_baseline = stored_metadata, dr_current = stored_metadata,
     dr_changes = [\<lparr>dc_kind = New_Symbol, dc_symbol = sample_symbol ''a\"b'' ''/p/a b.cpp'' 1 5,
       dc_baseline = absent_state,
       dc_current = absent_state\<lparr>st_present := True, st_classification := Some Dead\<rparr>,
       dc_policy_match = True\<rparr>],
     dr_new_symbols = 1, dr_newly_unreachable = 0, dr_removed = 0, dr_became_reachable = 0,
     dr_policy_matches = 1\<rparr>"

lemma shown_difference_ok: "difference_ok shown_difference"
  by (simp add: difference_ok_def shown_difference_def stored_metadata_def extent_ok_def point_ok_def
      primary_source_extent_def sample_defs)

lemma differential_json_faithful_witness:
  "\<exists>doc. parse (write_json_differential_report shown_difference) = Inr doc \<and>
     json_at [''summary'', ''new_symbols''] doc = Some (JNumber 1)"
  using differential_json_faithful [OF shown_difference_ok] by (auto simp: shown_difference_def)

section \<open>URIs\<close>

definition uri_hex :: "char \<Rightarrow> nat" where
  "uri_hex c = (if is_digit c then of_char c - 48 else of_char c - 55)"

fun uri_decode :: "string \<Rightarrow> string" where
  "uri_decode (c # a # b # s) =
     (if c = CHR 0x25 then char_of (16 * uri_hex a + uri_hex b) # uri_decode s
      else c # uri_decode (a # b # s))"
| "uri_decode s = s"

lemma uri_hex_digit:
  assumes "n < 16"
  shows "uri_hex (hex_digit n) = n" "uri_plain (hex_digit n)"
  using below_16 [OF assms]
  by (simp, elim disjE, simp_all add: uri_hex_def hex_digit_def uri_plain_def is_digit_def)+

lemma char_nibbles: "(of_char c :: nat) div 16 < 16" "(of_char c :: nat) mod 16 < 16"
proof -
  have "(of_char c :: nat) < 256" by simp
  then show "(of_char c :: nat) div 16 < 16" by presburger
qed simp

lemma uri_decode_plain: "c \<noteq> CHR 0x25 \<Longrightarrow> uri_decode (c # s) = c # uri_decode s"
  by (cases s rule: uri_decode.cases) auto

lemma uri_plain_not_percent: "uri_plain c \<Longrightarrow> c \<noteq> CHR 0x25"
  by (auto simp: uri_plain_def is_digit_def)

lemma uri_decode_encode [simp]: "uri_decode (uri_encode p) = p"
proof (induction p)
  case (Cons c p)
  have "16 * (of_char c div 16) + of_char c mod 16 = (of_char c :: nat)" by simp
  then have "char_of (16 * (of_char c div 16) + of_char c mod 16 :: nat) = c" by simp
  moreover have "uri_hex (hex_digit (of_char c div 16)) = of_char c div 16"
    "uri_hex (hex_digit (of_char c mod 16)) = of_char c mod 16"
    by (simp_all only: uri_hex_digit(1) char_nibbles)
  ultimately have "uri_decode ([CHR 0x25, hex_digit (of_char c div 16), hex_digit (of_char c mod 16)] @ s) =
      c # uri_decode s" for s by simp
  with Cons show ?case
    by (auto simp: uri_encode_def uri_decode_plain uri_plain_not_percent)
qed (simp add: uri_encode_def)

lemma uri_encode_alphabet: "c \<in> set (uri_encode p) \<Longrightarrow> uri_plain c \<or> c = CHR 0x25"
proof -
  assume "c \<in> set (uri_encode p)"
  then obtain d where "c = d \<and> uri_plain d \<or>
      c \<in> {CHR 0x25, hex_digit (of_char d div 16), hex_digit (of_char d mod 16)}"
    by (auto simp: uri_encode_def split: if_splits)
  then show ?thesis using uri_hex_digit(2) char_nibbles by blast
qed

lemma uri_encode_empty [simp]: "uri_encode p = [] \<longleftrightarrow> p = []"
  by (cases p) (auto simp: uri_encode_def)

lemma split_at_append:
  "split_at d (xs @ d # ys) = split_at d xs @ split_at d ys"
  by (induction xs) auto

lemma last_split_at: "last (split_at d s) = [] \<longleftrightarrow> s = [] \<or> last s = d"
proof (induction s)
  case (Cons c s)
  then show ?case
    by (cases "split_at d s"; cases s) (auto split: if_splits)
qed simp

lemma path_names_join:
  assumes "names \<noteq> []" "\<forall>n \<in> set names. n \<noteq> [] \<and> CHR ''/'' \<notin> set n"
  shows "split_at CHR ''/'' (join_with ''/'' names) = names" "path_names (join_with ''/'' names) = names"
proof -
  show split: "split_at CHR ''/'' (join_with ''/'' names) = names"
    using assms by (intro split_join) auto
  have "filter (\<lambda>c. c \<noteq> []) names = names" using assms(2) by (simp add: filter_id_conv)
  moreover have "last names \<noteq> []" using assms by simp
  ultimately show "path_names (join_with ''/'' names) = names"
    by (simp add: path_names_def components_def filename_def split)
qed

lemma drop_common_prefix [simp]: "drop_common (xs @ ys) xs = (ys, [])"
  by (induction xs) (cases ys, auto)

lemma join_with_append:
  "xs \<noteq> [] \<Longrightarrow> join_with d (xs @ [y]) = join_with d xs @ d @ y"
  by (induction d xs rule: join_with.induct) auto

lemma join_hd: "names \<noteq> [] \<Longrightarrow> hd names \<noteq> [] \<Longrightarrow> \<exists>c cs. join_with d names = c # cs \<and> c = hd (hd names)"
  by (cases names; cases "hd names"; cases "tl names") auto

lemma join_last: "names \<noteq> [] \<Longrightarrow> last names \<noteq> [] \<Longrightarrow>
    join_with d names \<noteq> [] \<and> last (join_with d names) = last (last names)"
  by (induction d names rule: join_with.induct) (auto split: if_splits)

lemma fold_path_append:
  assumes "names \<noteq> []" "\<forall>n \<in> set names. n \<noteq> [] \<and> CHR ''/'' \<notin> set n"
  shows "fold (\<lambda>c r. path_append r c) names [] = join_with ''/'' names"
  using assms
proof (induction names rule: rev_induct)
  case (snoc n names)
  then have n: "\<not> is_absolute n" by (cases n) (auto simp: is_absolute_def)
  show ?case
  proof (cases "names = []")
    case True
    with n show ?thesis by (simp add: path_append_def)
  next
    case False
    have ok: "last names \<noteq> []" "CHR ''/'' \<notin> set (last names)"
      using False snoc.prems(2) by auto
    then have "last (last names) \<noteq> CHR ''/''" using last_in_set [of "last names"] by metis
    then have "last (join_with ''/'' names) \<noteq> CHR ''/''"
      using join_last [OF False ok(1), of "''/''"] by metis
    moreover have "join_with ''/'' names \<noteq> []"
      using join_hd [of names "''/''"] False snoc.prems(2) by auto
    ultimately show ?thesis
      using False snoc n by (simp add: path_append_def join_with_append)
  qed
qed simp

text \<open>
  Locations in the SARIF log are usable as relative URIs. A file below the project root is
  named by its path from the root, any other by its own normal form; the encoding uses unreserved
  characters, slashes and escapes only, and decodes to that path byte for byte.
\<close>
theorem sarif_uri_locates:
  assumes "lexically_normal project_root = base" "is_absolute base" "last base \<noteq> CHR ''/''"
    and "lexically_normal file = base @ ''/'' @ join_with ''/'' names"
    and "names \<noteq> []" "\<forall>n \<in> set names. n \<noteq> [] \<and> CHR ''/'' \<notin> set n \<and> n \<noteq> dot_dot"
  shows "uri_decode (sarif_uri file project_root) = join_with ''/'' names \<and>
    (\<forall>c \<in> set (sarif_uri file project_root). uri_plain c \<or> c = CHR 0x25)"
proof -
  let ?rel = "join_with ''/'' names"
  have names: "\<forall>n \<in> set names. n \<noteq> [] \<and> CHR ''/'' \<notin> set n" using assms(6) by blast
  note rel = path_names_join [OF assms(5) names]
  have base: "base \<noteq> []" using assms(2) by (auto simp: is_absolute_def)
  have "file \<noteq> []" using assms(4) by (auto simp: lexically_normal_def)
  have split: "split_at CHR ''/'' (base @ ''/'' @ ?rel) = split_at CHR ''/'' base @ names"
    by (simp add: split_at_append rel(1))
  have "last names \<noteq> []" using names assms(5) by simp
  then have full: "path_names (base @ ''/'' @ ?rel) = components base @ names"
    using names assms(5) unfolding path_names_def components_def filename_def split
    by (auto simp: filter_id_conv)
  have "last (split_at CHR ''/'' base) \<noteq> []"
    using base assms(3) by (simp add: last_split_at)
  then have root: "path_names base = components base"
    by (simp add: path_names_def filename_def)
  have hd: "?rel \<noteq> []" "\<not> is_absolute ?rel"
  proof -
    obtain n where n: "n \<in> set names" "n = hd names" using assms(5) by simp
    with names have ok: "n \<noteq> []" "hd n \<noteq> CHR ''/''" using hd_in_set [of n] by metis+
    with join_hd [of names "''/''"] assms(5) n show "?rel \<noteq> []" "\<not> is_absolute ?rel"
      by (auto simp: is_absolute_def)
  qed
  have "is_absolute (base @ ''/'' @ ?rel)" using assms(2) base by (cases base) (auto simp: is_absolute_def)
  then have "lexically_relative (base @ ''/'' @ ?rel) base = ?rel"
    using assms(2,5) names fold_path_append [OF assms(5) names]
    by (auto simp: lexically_relative_def full [simplified] root name_levels_def)
  moreover have "hd names \<noteq> dot_dot" using assms(5,6) by simp
  ultimately have "sarif_path file project_root = ?rel"
    using hd \<open>is_absolute (base @ ''/'' @ ?rel)\<close> by (simp add: sarif_path_def assms(1,4) rel(2) Let_def)
  then show ?thesis
    using \<open>file \<noteq> []\<close> by (simp add: sarif_uri_def) (blast dest: uri_encode_alphabet)
qed

lemma sarif_uri_locates_witness:
  "uri_decode (sarif_uri ''/p/src/a b.cpp'' ''/p'') = ''src/a b.cpp''"
proof -
  have "lexically_normal ''/p'' = ''/p''" "lexically_normal ''/p/src/a b.cpp'' = ''/p/src/a b.cpp''"
    by code_simp+
  then show ?thesis
    using sarif_uri_locates [of "''/p''" "''/p''" "''/p/src/a b.cpp''" "[''src'', ''a b.cpp'']"]
    by (simp add: is_absolute_def dot_dot_def)
qed

section \<open>The SARIF log\<close>

text \<open>What a consumer finds in the result of a change.\<close>

definition states_result :: "string \<Rightarrow> string \<Rightarrow> json \<Rightarrow> differential_change \<Rightarrow> bool" where
  "states_result target project_root v c \<longleftrightarrow>
     json_at [''ruleId''] v = Some (JString (sarif_rule c)) \<and>
     json_at [''level''] v = Some (JString ''warning'') \<and>
     json_at [''message'', ''text''] v = Some (JString (sarif_message c)) \<and>
     json_at [''partialFingerprints'', ''cxxDeadSymbolId/v1''] v = Some (JString (sym_key (dc_symbol c))) \<and>
     json_at [''properties'', ''target''] v = Some (if target = [] then JNull else JString target) \<and>
     (let extent = primary_source_extent (dc_symbol c); location = sx_location extent in
      if sarif_uri (sp_file location) project_root \<noteq> [] \<and> sp_line location \<noteq> 0 then
        \<exists>place. json_at [''locations''] v = Some (JArray [place]) \<and>
          json_at [''physicalLocation'', ''artifactLocation'', ''uri''] place =
            Some (JString (sarif_uri (sp_file location) project_root)) \<and>
          json_at [''physicalLocation'', ''region'', ''startLine''] place =
            Some (JNumber (of_nat (sp_line location)))
      else json_at [''locations''] v = None)"

definition sarif_ok :: "differential_report \<Rightarrow> bool" where
  "sarif_ok r \<longleftrightarrow> (\<forall>c \<in> set (dr_changes r). extent_ok (primary_source_extent (dc_symbol c)) \<and>
     sp_column (sx_end (primary_source_extent (dc_symbol c))) +
       sp_token_length (sx_end (primary_source_extent (dc_symbol c))) < 2 ^ 53)"

lemma readable_region:
  assumes "extent_ok x" "sp_column (sx_end x) + sp_token_length (sx_end x) < 2 ^ 53"
  shows "readable (object_text inline (sarif_region x))"
    and "json_find ''startLine'' (text_value (object_text inline (sarif_region x))) =
      Some (JNumber (of_nat (sp_line (sx_location x))))"
  using assms
  by (subst readable_object json_find_text; auto simp: sarif_region_def extent_ok_def point_ok_def)+

lemma sarif_result_states:
  assumes "extent_ok (primary_source_extent (dc_symbol c))"
    and "sp_column (sx_end (primary_source_extent (dc_symbol c))) +
       sp_token_length (sx_end (primary_source_extent (dc_symbol c))) < 2 ^ 53"
  shows "readable (sarif_result target project_root c)"
    "states_result target project_root (text_value (sarif_result target project_root c)) c"
proof -
  note region = readable_region [OF assms]
  show "readable (sarif_result target project_root c)"
    by (simp add: sarif_result_def sarif_locations_def Let_def text_rules readable_parts region)
  show "states_result target project_root (text_value (sarif_result target project_root c)) c"
    by (simp add: states_result_def sarif_result_def sarif_locations_def Let_def text_rules
        readable_parts region)
qed

lemma blank_sarif_layouts [simp]: "blank_layout run_layout" "blank_layout results_layout" "blank ''    ''"
  by (simp_all add: blank_layout_def blank_def run_layout_def results_layout_def newline_def is_space_def)

lemma value_sarif_rule [readable_parts]:
  "readable (sarif_rule_text rule)"
  "json_find ''id'' (text_value (sarif_rule_text rule)) = Some (JString rule)"
  by (simp_all add: sarif_rule_text_def text_rules)

text \<open>
  C29: The SARIF log is valid JSON with one run. Its results are the changes that match the policy,
  in order and nothing else, each with its rule, message, fingerprint and, where the symbol has a
  position, its location; and its rules are exactly those the results refer to, sorted, each once.
\<close>
theorem sarif_faithful:
  assumes "sarif_ok r"
  shows "\<exists>doc run rules results.
    parse (write_sarif_differential_report r project_root tool_version) = Inr doc \<and>
    json_at [''version''] doc = Some (JString ''2.1.0'') \<and> json_at [''runs''] doc = Some (JArray [run]) \<and>
    json_at [''tool'', ''driver'', ''version''] run = Some (JString tool_version) \<and>
    json_at [''tool'', ''driver'', ''rules''] run = Some (JArray rules) \<and>
    json_at [''results''] run = Some (JArray results) \<and>
    list_all2 (states_result (gm_target_name (dr_current r)) project_root) results
      (filter dc_policy_match (dr_changes r)) \<and>
    map (json_at [''id'']) rules = map (\<lambda>rule. Some (JString rule)) (sarif_rules r) \<and>
    sorted_wrt (<) (sarif_rules r) \<and>
    set (sarif_rules r) = sarif_rule ` set (filter dc_policy_match (dr_changes r))"
proof -
  let ?target = "gm_target_name (dr_current r)" and ?matches = "filter dc_policy_match (dr_changes r)"
  have ok: "readable (sarif_result ?target project_root c)"
    "states_result ?target project_root (text_value (sarif_result ?target project_root c)) c"
    if "c \<in> set ?matches" for c
    using that assms by (auto simp: sarif_ok_def intro: sarif_result_states)
  let ?results = "array_text results_layout ''    '' (map (sarif_result ?target project_root) ?matches)"
    and ?rules = "array_text inline [] (map sarif_rule_text (sarif_rules r))"
  have results: "readable ?results" "text_value ?results =
      JArray (map (\<lambda>c. text_value (sarif_result ?target project_root c)) ?matches)"
    using ok(1) by (simp_all add: text_rules o_def)
  have rules: "readable ?rules" "text_value ?rules =
      JArray (map (\<lambda>rule. text_value (sarif_rule_text rule)) (sarif_rules r))"
    by (simp_all add: text_rules readable_parts o_def)
  have ids: "map (json_at [''id'']) (map (\<lambda>rule. text_value (sarif_rule_text rule)) (sarif_rules r)) =
      map (\<lambda>rule. Some (JString rule)) (sarif_rules r)"
    by (simp add: readable_parts o_def)
  have all2: "list_all2 (states_result ?target project_root)
      (map (\<lambda>c. text_value (sarif_result ?target project_root c)) ?matches) ?matches"
    unfolding list_all2_map1 by (rule list.rel_refl_strong) (rule ok(2))
  have "sorted (sarif_rules r)" "distinct (sarif_rules r)"
    by (simp_all add: sarif_rules_def distinct_remdups_adj_sorted)
  then have sorted: "sorted_wrt (<) (sarif_rules r)" by (simp add: strict_sorted_iff)
  have refers: "set (sarif_rules r) = sarif_rule ` set ?matches" by (simp add: sarif_rules_def)
  show ?thesis
    unfolding write_sarif_differential_report_def
    by (subst parse_document)
      (use results rules ids all2 sorted refers in \<open>auto simp: text_rules\<close>)
qed

lemma sarif_faithful_witness:
  "\<exists>doc. parse (write_sarif_differential_report shown_difference ''/p'' ''1.0'') = Inr doc \<and>
     json_at [''version''] doc = Some (JString ''2.1.0'')"
proof -
  have "sarif_ok shown_difference"
    by (simp add: sarif_ok_def shown_difference_def extent_ok_def point_ok_def primary_source_extent_def
        sample_defs)
  from sarif_faithful [OF this, of "''/p''" "''1.0''"] show ?thesis by blast
qed

end
