(* ===== verification/Build_Model.thy ===== *)
theory Build_Model
  imports Compile_Database Containers Provider
begin

text \<open>
  \<open>src/build_model.cpp\<close>: the targets of a build, read from the CMake File API or from a target
  manifest, and the selection of the compilation commands that belong to one target and the
  targets it depends on. The directory listing is a parameter, like the files.
\<close>

section \<open>Data\<close>

datatype target_kind =
    Executable | Static_Library | Shared_Library | Module_Library | Object_Library
  | Interface_Library | Utility

record build_target =
  bt_id :: string
  bt_name :: string
  bt_kind :: target_kind
  bt_sources :: "string list"
  bt_dependencies :: "string list"
  bt_artifacts :: "string list"
  bt_public_headers :: "string list"

record build_configuration =
  bc_name :: string
  bc_targets :: "build_target list"

record build_model =
  bm_source_root :: string
  bm_build_root :: string
  bm_configurations :: "build_configuration list"

record target_context =
  tc_configuration :: string
  tc_target_id :: string
  tc_target_name :: string
  tc_target_kind :: target_kind
  tc_closure_targets :: "string list"
  tc_selected_sources :: "string list"
  tc_public_headers :: "string list"

record target_selection =
  ts_context :: target_context
  ts_commands :: "compile_command list"
  ts_diagnostics :: "string list"

fun target_kind_to_string :: "target_kind \<Rightarrow> string" where
  "target_kind_to_string Executable = ''executable''"
| "target_kind_to_string Static_Library = ''static_library''"
| "target_kind_to_string Shared_Library = ''shared_library''"
| "target_kind_to_string Module_Library = ''module_library''"
| "target_kind_to_string Object_Library = ''object_library''"
| "target_kind_to_string Interface_Library = ''interface_library''"
| "target_kind_to_string Utility = ''utility''"

text \<open>What a directory iterator shows of an entry.\<close>

record directory_entry =
  en_path :: string
  en_regular :: bool
  en_modified :: int

type_synonym directories = "string \<Rightarrow> directory_entry list option"

section \<open>Checked access\<close>

text \<open>A file that opens but cannot be read leaves the stream, and so the text, empty.\<close>

definition read_json :: "filesystem \<Rightarrow> string \<Rightarrow> json result" where
  "read_json fs path =
     (if fs_read fs path = Cannot_Open then
        Inl (Runtime_Error (''cannot open build metadata: '' @ path))
      else
        case parse (case fs_read fs path of Contents text \<Rightarrow> text | _ \<Rightarrow> []) of
          Inl e \<Rightarrow> Inl (Runtime_Error (''invalid build metadata '' @ path @ '': '' @ parse_error_what e))
        | Inr v \<Rightarrow> Inr v)"

definition require_member :: "json \<Rightarrow> string \<Rightarrow> string \<Rightarrow> json result" where
  "require_member v key ctx =
     (case json_find key v of
        None \<Rightarrow> Inl (Runtime_Error (ctx @ '' is missing '' @ apostrophe @ key @ apostrophe))
      | Some w \<Rightarrow> Inr w)"

definition require_array_member :: "json \<Rightarrow> string \<Rightarrow> string \<Rightarrow> json list result" where
  "require_array_member v key ctx =
     rbind (require_member v key ctx) (\<lambda>w.
       case w of JArray items \<Rightarrow> Inr items
       | _ \<Rightarrow> Inl (Runtime_Error (ctx @ '' '' @ apostrophe @ key @ apostrophe @ '' must be an array'')))"

definition require_name :: "json \<Rightarrow> string \<Rightarrow> string \<Rightarrow> string result" where
  "require_name v key ctx =
     rbind (require_member v key ctx) (\<lambda>w.
       case w of
         JString (c # cs) \<Rightarrow> Inr (c # cs)
       | _ \<Rightarrow> Inl (Runtime_Error (ctx @ '' '' @ apostrophe @ key @ apostrophe @
           '' must be a non-empty string'')))"

definition require_index :: "json \<Rightarrow> string \<Rightarrow> nat result" where
  "require_index v ctx =
     (case v of
        JNumber x \<Rightarrow>
          if x < 0 \<or> of_int \<lfloor>x\<rfloor> \<noteq> x then
            Inl (Runtime_Error (ctx @ '' must be a non-negative integer''))
          else Inr (nat \<lfloor>x\<rfloor>)
      | _ \<Rightarrow> Inl (Runtime_Error (ctx @ '' must be a non-negative integer'')))"

definition metadata_path :: "filesystem \<Rightarrow> string \<Rightarrow> string \<Rightarrow> string" where
  "metadata_path fs path base =
     (let joined = (if is_absolute path then path else path_append base path)
      in lexically_normal (absolute fs joined))"

definition referenced_file :: "string \<Rightarrow> string \<Rightarrow> string result" where
  "referenced_file directory name =
     (if name = [] \<or> is_absolute name then
        Inl (Runtime_Error ''CMake File API reply contains an invalid jsonFile path'')
      else
        let result = lexically_normal (path_append directory name);
            relation = lexically_relative result directory
        in if relation = [] \<or> is_absolute relation \<or> hd (path_names relation) = dot_dot then
             Inl (Runtime_Error ''CMake File API jsonFile escapes the reply directory'')
           else Inr result)"

definition parse_target_kind :: "string \<Rightarrow> target_kind result" where
  "parse_target_kind kind =
     (if kind = ''EXECUTABLE'' \<or> kind = ''executable'' then Inr Executable
      else if kind = ''STATIC_LIBRARY'' \<or> kind = ''static_library'' then Inr Static_Library
      else if kind = ''SHARED_LIBRARY'' \<or> kind = ''shared_library'' then Inr Shared_Library
      else if kind = ''MODULE_LIBRARY'' \<or> kind = ''module_library'' then Inr Module_Library
      else if kind = ''OBJECT_LIBRARY'' \<or> kind = ''object_library'' then Inr Object_Library
      else if kind = ''INTERFACE_LIBRARY'' \<or> kind = ''interface_library'' then Inr Interface_Library
      else if kind = ''UTILITY'' \<or> kind = ''utility'' then Inr Utility
      else Inl (Runtime_Error (''unsupported build target type: '' @ kind)))"

text \<open>An optional list: nothing to do if it is left out, an error if it is not a list.\<close>

definition optional_items :: "json \<Rightarrow> string \<Rightarrow> string \<Rightarrow> json list result" where
  "optional_items v key message =
     (case json_find key v of
        None \<Rightarrow> Inr []
      | Some (JArray items) \<Rightarrow> Inr items
      | Some _ \<Rightarrow> Inl (Runtime_Error message))"

definition sorted_paths :: "string list \<Rightarrow> string list" where
  "sorted_paths paths = unique_by path_key (sort_key path_key paths)"

section \<open>A target of the CMake File API\<close>

definition dependency_is_linked :: "json \<Rightarrow> json \<Rightarrow> bool result" where
  "dependency_is_linked target dependency =
     (case (json_find ''backtrace'' dependency, json_find ''backtraceGraph'' target) of
        (Some backtrace, Some graph) \<Rightarrow>
          (case (is_object graph, json_find ''nodes'' graph, json_find ''commands'' graph) of
             (True, Some (JArray nodes), Some (JArray commands)) \<Rightarrow>
               if \<not> is_number backtrace then Inr True
               else
                 rbind (require_index backtrace ''dependency backtrace'') (\<lambda>node.
                 if length nodes \<le> node then Inr True
                 else
                   case json_find ''command'' (nodes ! node) of
                     None \<Rightarrow> Inr True
                   | Some command \<Rightarrow>
                       if \<not> is_number command then Inr True
                       else
                         rbind (require_index command ''backtrace command'') (\<lambda>index.
                         if length commands \<le> index then Inr True
                         else Inr (case commands ! index of
                             JString name \<Rightarrow> name \<noteq> ''add_dependencies'' | _ \<Rightarrow> True)))
           | _ \<Rightarrow> Inr True)
      | _ \<Rightarrow> Inr True)"

text \<open>The indexes of the list entries that satisfy a condition.\<close>

definition indexes_of :: "(json \<Rightarrow> bool) \<Rightarrow> json list \<Rightarrow> nat set" where
  "indexes_of P items = set (map fst (filter (\<lambda>(i, v). P v) (enumerate 0 items)))"

definition public_file_set :: "json \<Rightarrow> bool" where
  "public_file_set v \<longleftrightarrow> string_or ''type'' [] v = ''HEADERS'' \<and>
     string_or ''visibility'' [] v \<in> {''PUBLIC'', ''INTERFACE''}"

text \<open>One source entry: it may be a public header, a compiled source, both or neither.\<close>

definition add_cmake_source ::
    "filesystem \<Rightarrow> string \<Rightarrow> nat set \<Rightarrow> nat set \<Rightarrow> json \<Rightarrow> build_target \<Rightarrow> build_target result" where
  "add_cmake_source fs source_root header_sets cxx_groups source t =
     rbind (case json_find ''fileSetIndex'' source of
              None \<Rightarrow> Inr t
            | Some file_set \<Rightarrow>
                rbind (require_index file_set ''fileSetIndex'') (\<lambda>i.
                if i \<in> header_sets then
                  rbind (require_name source ''path'' ''CMake target source'') (\<lambda>path.
                  Inr (t\<lparr>bt_public_headers := bt_public_headers t @ [metadata_path fs path source_root]\<rparr>))
                else Inr t)) (\<lambda>t.
     case json_find ''compileGroupIndex'' source of
       None \<Rightarrow> Inr t
     | Some grp \<Rightarrow>
         if \<not> is_number grp then Inr t
         else
           rbind (require_index grp ''compileGroupIndex'') (\<lambda>i.
           if i \<notin> cxx_groups then Inr t
           else
             rbind (require_name source ''path'' ''CMake target source'') (\<lambda>path.
             Inr (t\<lparr>bt_sources := bt_sources t @ [metadata_path fs path source_root]\<rparr>))))"

definition add_cmake_dependency :: "json \<Rightarrow> json \<Rightarrow> build_target \<Rightarrow> build_target result" where
  "add_cmake_dependency document dependency t =
     rbind (dependency_is_linked document dependency) (\<lambda>linked.
     if linked then
       rbind (require_name dependency ''id'' ''CMake target dependency'') (\<lambda>i.
       Inr (t\<lparr>bt_dependencies := bt_dependencies t @ [i]\<rparr>))
     else Inr t)"

definition add_cmake_artifact :: "filesystem \<Rightarrow> string \<Rightarrow> json \<Rightarrow> build_target \<Rightarrow> build_target result" where
  "add_cmake_artifact fs build_root artifact t =
     rbind (require_name artifact ''path'' ''CMake target artifact'') (\<lambda>path.
     Inr (t\<lparr>bt_artifacts := bt_artifacts t @ [metadata_path fs path build_root]\<rparr>))"

definition parse_cmake_target ::
    "filesystem \<Rightarrow> string \<Rightarrow> string \<Rightarrow> string \<Rightarrow> build_target result" where
  "parse_cmake_target fs target_file source_root build_root =
     rbind (read_json fs target_file) (\<lambda>document.
     if \<not> is_object document then
       Inl (Runtime_Error (''CMake target reply must be an object: '' @ target_file))
     else
       rbind (require_name document ''id'' ''CMake target'') (\<lambda>target_id.
       rbind (require_name document ''name'' ''CMake target'') (\<lambda>name.
       rbind (require_name document ''type'' ''CMake target'') (\<lambda>type.
       rbind (parse_target_kind type) (\<lambda>kind.
       rbind (optional_items document ''fileSets'' ''CMake target fileSets must be an array'') (\<lambda>file_sets.
       rbind (optional_items document ''compileGroups''
                ''CMake target compileGroups must be an array'') (\<lambda>groups.
       rbind (optional_items document ''sources'' ''CMake target sources must be an array'') (\<lambda>sources.
       rbind (fold_result (add_cmake_source fs source_root (indexes_of public_file_set file_sets)
                (indexes_of (\<lambda>v. string_or ''language'' [] v = ''CXX'') groups)) sources
                \<lparr>bt_id = target_id, bt_name = name, bt_kind = kind, bt_sources = [],
                 bt_dependencies = [], bt_artifacts = [], bt_public_headers = []\<rparr>) (\<lambda>t.
       rbind (optional_items document ''dependencies''
                ''CMake target dependencies must be an array'') (\<lambda>dependencies.
       rbind (fold_result (add_cmake_dependency document) dependencies t) (\<lambda>t.
       rbind (optional_items document ''artifacts'' ''CMake target artifacts must be an array'') (\<lambda>artifacts.
       rbind (fold_result (add_cmake_artifact fs build_root) artifacts t) (\<lambda>t.
       Inr (t\<lparr>bt_sources := sorted_paths (bt_sources t),
              bt_dependencies := remdups_adj (sort (bt_dependencies t)),
              bt_public_headers := sorted_paths (bt_public_headers t)\<rparr>))))))))))))))"

section \<open>The CMake File API\<close>

definition extension :: "string \<Rightarrow> string" where
  "extension path =
     (let name = filename path;
          tail = rev (takeWhile (\<lambda>c. c \<noteq> CHR ''.'') (rev name))
      in if name = dot \<or> name = dot_dot \<or> length name \<le> Suc (length tail) then []
         else CHR ''.'' # tail)"

text \<open>The latest index, the greatest name among equally late ones.\<close>

definition consider_index :: "directory_entry \<Rightarrow> directory_entry option \<Rightarrow> directory_entry option" where
  "consider_index entry selected =
     (if \<not> en_regular entry \<or> \<not> starts_with ''index-'' (filename (en_path entry)) \<or>
         extension (en_path entry) \<noteq> ''.json'' then selected
      else
        case selected of
          None \<Rightarrow> Some entry
        | Some best \<Rightarrow>
            if en_modified best < en_modified entry \<or>
               (en_modified entry = en_modified best \<and>
                path_key (filename (en_path best)) < path_key (filename (en_path entry)))
            then Some entry else selected)"

definition newest_index :: "string \<Rightarrow> directory_entry list \<Rightarrow> string result" where
  "newest_index reply_directory entries =
     (case fold consider_index entries None of
        None \<Rightarrow> Inl (Runtime_Error (''no CMake File API index reply found in '' @ reply_directory))
      | Some entry \<Rightarrow> Inr (en_path entry))"

definition is_codemodel :: "json \<Rightarrow> bool" where
  "is_codemodel v \<longleftrightarrow> string_or ''kind'' [] v = ''codemodel'' \<and>
     (case json_find ''version'' v of
        None \<Rightarrow> False
      | Some version \<Rightarrow> json_find ''major'' version = Some (JNumber 2))"

definition load_cmake_target ::
    "filesystem \<Rightarrow> string \<Rightarrow> string \<Rightarrow> string \<Rightarrow> json \<Rightarrow> build_target result" where
  "load_cmake_target fs reply_directory source_root build_root reference =
     rbind (require_name reference ''jsonFile'' ''CMake target reference'') (\<lambda>name.
     rbind (referenced_file reply_directory name) (\<lambda>target_file.
     rbind (parse_cmake_target fs target_file source_root build_root) (\<lambda>t.
     rbind (require_name reference ''id'' ''CMake target reference'') (\<lambda>target_id.
     let mismatch = Inl (Runtime_Error (''CMake target reference does not match target reply: '' @
           target_file))
     in if bt_id t \<noteq> target_id then mismatch
        else
          rbind (require_name reference ''name'' ''CMake target reference'') (\<lambda>name.
          if bt_name t \<noteq> name then mismatch else Inr t)))))"

definition load_cmake_configuration ::
    "filesystem \<Rightarrow> string \<Rightarrow> string \<Rightarrow> string \<Rightarrow> json \<Rightarrow> build_configuration result" where
  "load_cmake_configuration fs reply_directory source_root build_root v =
     rbind (require_array_member v ''targets'' ''CMake configuration'') (\<lambda>references.
     rbind (map_result (load_cmake_target fs reply_directory source_root build_root) references) (\<lambda>targets.
     Inr \<lparr>bc_name = string_or ''name'' [] v, bc_targets = targets\<rparr>))"

definition load_cmake_file_api :: "filesystem \<Rightarrow> directories \<Rightarrow> string \<Rightarrow> build_model result" where
  "load_cmake_file_api fs dirs build_directory =
     (let build_root = lexically_normal (absolute fs build_directory);
          reply_directory = fold (\<lambda>name p. path_append p name) [''.cmake'', ''api'', ''v1'', ''reply''] build_root
      in case dirs reply_directory of
           None \<Rightarrow> Inl (Runtime_Error (''CMake File API reply directory does not exist: '' @ reply_directory))
         | Some entries \<Rightarrow>
             rbind (newest_index reply_directory entries) (\<lambda>index_file.
             rbind (read_json fs index_file) (\<lambda>index.
             rbind (require_array_member index ''objects'' ''CMake File API index'') (\<lambda>objects.
             case find is_codemodel objects of
               None \<Rightarrow> Inl (Runtime_Error ''CMake File API index has no codemodel-v2 reply'')
             | Some reference \<Rightarrow>
                 rbind (require_name reference ''jsonFile'' ''CMake codemodel reference'') (\<lambda>name.
                 rbind (referenced_file reply_directory name) (\<lambda>codemodel_file.
                 rbind (read_json fs codemodel_file) (\<lambda>codemodel.
                 rbind (require_member codemodel ''paths'' ''CMake codemodel'') (\<lambda>paths.
                 rbind (require_name paths ''source'' ''CMake codemodel paths'') (\<lambda>source.
                 rbind (require_name paths ''build'' ''CMake codemodel paths'') (\<lambda>build.
                 let source_root = metadata_path fs source (parent_path codemodel_file);
                     built_in = metadata_path fs build (parent_path codemodel_file)
                 in rbind (require_array_member codemodel ''configurations'' ''CMake codemodel'') (\<lambda>values.
                    rbind (map_result (load_cmake_configuration fs reply_directory source_root built_in)
                             values) (\<lambda>configurations.
                    if configurations = [] then
                      Inl (Runtime_Error ''CMake codemodel has no configurations'')
                    else Inr \<lparr>bm_source_root = source_root, bm_build_root = built_in,
                           bm_configurations = configurations\<rparr>))))))))))))"

section \<open>Target manifests\<close>

definition manifest_paths ::
    "filesystem \<Rightarrow> string \<Rightarrow> bool \<Rightarrow> string \<Rightarrow> json list \<Rightarrow> string list result" where
  "manifest_paths fs base nonempty message items =
     map_result (\<lambda>v. case v of
         JString s \<Rightarrow> if nonempty \<and> s = [] then Inl (Runtime_Error message)
           else Inr (metadata_path fs s base)
       | _ \<Rightarrow> Inl (Runtime_Error message)) items"

definition manifest_dependency :: "json \<Rightarrow> string result" where
  "manifest_dependency v =
     (case v of JString (c # cs) \<Rightarrow> Inr (c # cs)
      | _ \<Rightarrow> Inl (Runtime_Error ''manifest target dependency must be a string''))"

definition manifest_headers :: "filesystem \<Rightarrow> string \<Rightarrow> rat \<Rightarrow> json \<Rightarrow> string list result" where
  "manifest_headers fs source_root version v =
     (case json_find ''public_headers'' v of
        None \<Rightarrow> Inr []
      | Some headers \<Rightarrow>
          if version < 2 then
            Inl (Runtime_Error ''manifest target public_headers requires schema_version 2'')
          else
            case headers of
              JArray items \<Rightarrow>
                rbind (manifest_paths fs source_root True ''manifest public header must be a string''
                  items) (\<lambda>paths. Inr (sorted_paths paths))
            | _ \<Rightarrow> Inl (Runtime_Error ''manifest target public_headers must be an array''))"

definition load_manifest_target ::
    "filesystem \<Rightarrow> string \<Rightarrow> string \<Rightarrow> rat \<Rightarrow> json \<Rightarrow> build_target result" where
  "load_manifest_target fs source_root build_root version v =
     rbind (require_name v ''id'' ''manifest target'') (\<lambda>target_id.
     rbind (require_name v ''name'' ''manifest target'') (\<lambda>name.
     rbind (require_name v ''type'' ''manifest target'') (\<lambda>type.
     rbind (parse_target_kind type) (\<lambda>kind.
     rbind (require_array_member v ''sources'' ''manifest target'') (\<lambda>source_items.
     rbind (manifest_paths fs source_root False ''manifest target source must be a string''
              source_items) (\<lambda>sources.
     rbind (optional_items v ''dependencies'' ''manifest target dependencies must be an array'')
       (\<lambda>dependency_items.
     rbind (map_result manifest_dependency dependency_items) (\<lambda>dependencies.
     rbind (optional_items v ''artifacts'' ''manifest target artifacts must be an array'')
       (\<lambda>artifact_items.
     rbind (manifest_paths fs build_root False ''manifest target artifact must be a string''
              artifact_items) (\<lambda>artifacts.
     rbind (manifest_headers fs source_root version v) (\<lambda>headers.
     Inr \<lparr>bt_id = target_id, bt_name = name, bt_kind = kind, bt_sources = sources,
          bt_dependencies = dependencies, bt_artifacts = artifacts, bt_public_headers = headers\<rparr>)))))))))))"

definition load_manifest_configuration ::
    "filesystem \<Rightarrow> string \<Rightarrow> string \<Rightarrow> rat \<Rightarrow> json \<Rightarrow> build_configuration result" where
  "load_manifest_configuration fs source_root build_root version v =
     rbind (require_name v ''name'' ''manifest configuration'') (\<lambda>name.
     rbind (require_array_member v ''targets'' ''manifest configuration'') (\<lambda>items.
     rbind (map_result (load_manifest_target fs source_root build_root version) items) (\<lambda>targets.
     Inr \<lparr>bc_name = name, bc_targets = targets\<rparr>)))"

definition load_target_manifest :: "filesystem \<Rightarrow> string \<Rightarrow> build_model result" where
  "load_target_manifest fs manifest =
     (let manifest_path = lexically_normal (absolute fs manifest) in
      rbind (read_json fs manifest_path) (\<lambda>document.
      rbind (require_member document ''schema_version'' ''target manifest'') (\<lambda>schema.
      case schema of
        JNumber version \<Rightarrow>
          if version \<noteq> 1 \<and> version \<noteq> 2 then
            Inl (Runtime_Error ''target manifest schema_version must be 1 or 2'')
          else
            rbind (require_name document ''source_root'' ''target manifest'') (\<lambda>source.
            rbind (require_name document ''build_root'' ''target manifest'') (\<lambda>build.
            let source_root = metadata_path fs source (parent_path manifest_path);
                build_root = metadata_path fs build (parent_path manifest_path)
            in rbind (require_array_member document ''configurations'' ''target manifest'') (\<lambda>values.
               rbind (map_result (load_manifest_configuration fs source_root build_root version) values)
                 (\<lambda>configurations.
               if configurations = [] then
                 Inl (Runtime_Error ''target manifest has no configurations'')
               else Inr \<lparr>bm_source_root = source_root, bm_build_root = build_root,
                      bm_configurations = configurations\<rparr>))))
      | _ \<Rightarrow> Inl (Runtime_Error ''target manifest schema_version must be 1 or 2''))))"

section \<open>Selecting a target\<close>

definition select_configuration :: "build_model \<Rightarrow> string \<Rightarrow> build_configuration result" where
  "select_configuration model requested =
     (if requested \<noteq> [] then
        (case find (\<lambda>c. bc_name c = requested) (bm_configurations model) of
           None \<Rightarrow> Inl (Runtime_Error (''build configuration not found: '' @ requested))
         | Some c \<Rightarrow> Inr c)
      else
        (case bm_configurations model of
           [c] \<Rightarrow> Inr c
         | _ \<Rightarrow> Inl (Runtime_Error (''build metadata has multiple configurations; select one with '' @
             ''--configuration''))))"

text \<open>The only target that satisfies a condition; a second match is an error where it is met.\<close>

definition only_target ::
    "(build_target \<Rightarrow> bool) \<Rightarrow> exn \<Rightarrow> build_target list \<Rightarrow> build_target option result" where
  "only_target P ambiguous targets =
     fold_result (\<lambda>t match.
         if \<not> P t then Inr match
         else case match of None \<Rightarrow> Inr (Some t) | Some _ \<Rightarrow> Inl ambiguous)
       targets None"

definition select_target :: "build_configuration \<Rightarrow> string \<Rightarrow> build_target result" where
  "select_target configuration requested =
     (if requested \<noteq> [] then
        rbind (only_target (\<lambda>t. bt_name t = requested \<or> bt_id t = requested)
                 (Runtime_Error (''target name is ambiguous; select by target id: '' @ requested))
                 (bc_targets configuration)) (\<lambda>match.
        case match of
          None \<Rightarrow> Inl (Runtime_Error (''build target not found: '' @ requested))
        | Some t \<Rightarrow> Inr t)
      else
        rbind (only_target (\<lambda>t. bt_kind t = Executable)
                 (Runtime_Error (''build metadata has multiple executable targets; select one '' @
                    ''with --target'')) (bc_targets configuration)) (\<lambda>match.
        case match of
          None \<Rightarrow> Inl (Runtime_Error (''build metadata has no executable target; select a library with '' @
            ''--target and provide an explicit --root''))
        | Some t \<Rightarrow> Inr t))"

section \<open>The commands of a target\<close>

fun find_text :: "string \<Rightarrow> string \<Rightarrow> nat option" where
  "find_text p [] = (if p = [] then Some 0 else None)"
| "find_text p (c # cs) =
     (if starts_with p (c # cs) then Some 0 else map_option Suc (find_text p cs))"

definition target_marker :: "build_target \<Rightarrow> string" where
  "target_marker t = ''/CMakeFiles/'' @ bt_name t @ ''.dir/''"

definition command_matches_target :: "compile_command \<Rightarrow> build_target \<Rightarrow> bool" where
  "command_matches_target command t \<longleftrightarrow> cc_output command \<noteq> [] \<and>
     find_text (target_marker t) (''/'' @ cc_output command) \<noteq> None"

definition command_matches_configuration :: "compile_command \<Rightarrow> build_target \<Rightarrow> string \<Rightarrow> bool" where
  "command_matches_configuration command t configuration \<longleftrightarrow>
     \<not> (configuration = [] \<or> cc_output command = []) \<and>
     (let output = ''/'' @ cc_output command in
      case find_text (target_marker t) output of
        None \<Rightarrow> False
      | Some position \<Rightarrow>
          starts_with (configuration @ ''/'') (drop (position + length (target_marker t)) output))"

definition equivalent_commands :: "compile_command \<Rightarrow> compile_command \<Rightarrow> bool" where
  "equivalent_commands a b \<longleftrightarrow> path_key (cc_directory a) = path_key (cc_directory b) \<and>
     path_key (cc_file a) = path_key (cc_file b) \<and> cc_arguments a = cc_arguments b"

section \<open>The closure over dependencies\<close>

record closure_state =
  cl_visited :: "string set"
  cl_closure :: "build_target list"
  cl_diagnostics :: "string list"

definition missing_dependency :: "string \<Rightarrow> build_target \<Rightarrow> string" where
  "missing_dependency dep t =
     ''build metadata omits dependency target '' @ dep @ '' referenced by '' @ bt_name t"

text \<open>
  The recursive lambda; the number bounds its nesting. A target is visited once, so one more
  than the number of targets is enough.
\<close>

fun visit_target :: "nat \<Rightarrow> (string \<rightharpoonup> build_target) \<Rightarrow> build_target \<Rightarrow> closure_state \<Rightarrow> closure_state option" where
  "visit_target 0 by_id t s = None"
| "visit_target (Suc n) by_id t s =
     (if bt_id t \<in> cl_visited s then Some s
      else
        fold (\<lambda>dep so_far. Option.bind so_far (\<lambda>s.
            case by_id dep of
              None \<Rightarrow> Some (s\<lparr>cl_diagnostics := cl_diagnostics s @ [missing_dependency dep t]\<rparr>)
            | Some d \<Rightarrow> visit_target n by_id d s))
          (bt_dependencies t)
          (Some (s\<lparr>cl_visited := insert (bt_id t) (cl_visited s),
                   cl_closure := cl_closure s @ [t]\<rparr>)))"

definition index_targets :: "build_target list \<Rightarrow> (string \<rightharpoonup> build_target) result" where
  "index_targets targets =
     fold_result (\<lambda>t m.
         if m (bt_id t) \<noteq> None then
           Inl (Runtime_Error (''duplicate target id in build configuration: '' @ bt_id t))
         else Inr (m(bt_id t \<mapsto> t))) targets Map.empty"

definition static_library_note :: "build_target \<Rightarrow> string" where
  "static_library_note t = ''static-library target '' @ bt_name t @
     '' is analyzed with all translation units present; archive-member extraction is '' @
     ''not modeled''"

text \<open>The commands of one source of one target: all that compile it, narrowed down by output.\<close>

definition usable_commands ::
    "compile_command list \<Rightarrow> string \<Rightarrow> build_target \<Rightarrow> string \<Rightarrow> nat list" where
  "usable_commands commands configuration t source =
     (let candidates = filter (\<lambda>i. path_key (cc_file (commands ! i)) = path_key source)
            [0..<length commands];
          owned = filter (\<lambda>i. command_matches_target (commands ! i) t) candidates;
          configured = filter (\<lambda>i. command_matches_configuration (commands ! i) t configuration) owned
      in if configured \<noteq> [] then configured else if owned = [] then candidates else owned)"

definition select_source ::
    "compile_command list \<Rightarrow> string \<Rightarrow> build_target \<Rightarrow> string \<Rightarrow> nat set \<Rightarrow> nat set result" where
  "select_source commands configuration t source selected =
     (let usable = usable_commands commands configuration t source in
      if usable = [] then
        Inl (Runtime_Error (''no compilation command for target source '' @ source @ '' in '' @ bt_name t))
      else if 1 < length usable \<and>
          \<not> list_all (\<lambda>i. equivalent_commands (commands ! hd usable) (commands ! i)) usable then
        Inl (Runtime_Error (''ambiguous compilation commands for target source '' @ source @ '' in '' @
          bt_name t))
      else Inr (insert (hd usable) selected))"

definition compiled_kind :: "target_kind \<Rightarrow> bool" where
  "compiled_kind kind \<longleftrightarrow> kind \<noteq> Utility \<and> kind \<noteq> Interface_Library"

definition select_sources ::
    "compile_command list \<Rightarrow> string \<Rightarrow> build_target list \<Rightarrow> nat set result" where
  "select_sources commands configuration closure =
     fold_result (\<lambda>t selected.
         if \<not> compiled_kind (bt_kind t) then Inr selected
         else fold_result (select_source commands configuration t) (bt_sources t) selected)
       closure {}"

definition closure_of :: "build_target list \<Rightarrow> (string \<rightharpoonup> build_target) \<Rightarrow> build_target \<Rightarrow> closure_state option" where
  "closure_of targets by_id t =
     visit_target (Suc (length targets)) by_id t \<lparr>cl_visited = {}, cl_closure = [], cl_diagnostics = []\<rparr>"

definition make_selection ::
    "build_configuration \<Rightarrow> build_target \<Rightarrow> compile_command list \<Rightarrow> closure_state \<Rightarrow>
     target_selection result" where
  "make_selection configuration t commands state =
     (let closure = sort_key bt_name (cl_closure state);
          diagnostics = cl_diagnostics state @
            map static_library_note (filter (\<lambda>t. bt_kind t = Static_Library) closure)
      in rbind (select_sources commands (bc_name configuration) closure) (\<lambda>selected.
         let chosen = map (\<lambda>i. commands ! i) (sorted_list_of_set selected) in
         if chosen = [] \<and> bt_kind t \<noteq> Interface_Library then
           Inl (Runtime_Error ''selected target closure contains no C++ compilation commands'')
         else
           Inr \<lparr>ts_context = \<lparr>tc_configuration = bc_name configuration, tc_target_id = bt_id t,
                  tc_target_name = bt_name t, tc_target_kind = bt_kind t,
                  tc_closure_targets = map bt_name closure, tc_selected_sources = bt_sources t,
                  tc_public_headers = bt_public_headers t\<rparr>,
                ts_commands = chosen, ts_diagnostics = sort diagnostics\<rparr>))"

text \<open>\<open>None\<close> would mean that the recursion over dependencies does not end.\<close>

definition select_target_commands ::
    "build_model \<Rightarrow> string \<Rightarrow> string \<Rightarrow> compile_command list \<Rightarrow> target_selection result option" where
  "select_target_commands model configuration_name target_name commands =
     (case rbind (select_configuration model configuration_name) (\<lambda>configuration.
           rbind (select_target configuration target_name) (\<lambda>t.
           if bt_kind t = Utility then
             Inl (Runtime_Error (''utility targets cannot be analyzed: '' @ bt_name t))
           else rbind (index_targets (bc_targets configuration)) (\<lambda>by_id. Inr (configuration, t, by_id)))) of
        Inl e \<Rightarrow> Some (Inl e)
      | Inr (configuration, t, by_id) \<Rightarrow>
          map_option (make_selection configuration t commands)
            (closure_of (bc_targets configuration) by_id t))"

end
