(* ===== verification/Build_Facts.thy ===== *)
theory Build_Facts
  imports Build_Model Compile_Facts
begin

text \<open>
  What target selection promises: the recursion over dependencies ends and collects exactly the
  targets the selected one depends on, each once; every source of the closure is compiled by one
  of the selected commands, and every selected command compiles one of them; and no file outside
  the reply directory of CMake is followed.
\<close>

section \<open>The closure over dependencies\<close>

definition depends :: "(string \<rightharpoonup> build_target) \<Rightarrow> (string \<times> string) set" where
  "depends by_id = {(a, b). b \<in> dom by_id \<and> (\<exists>t. by_id a = Some t \<and> b \<in> set (bt_dependencies t))}"

definition missing_of :: "(string \<rightharpoonup> build_target) \<Rightarrow> build_target \<Rightarrow> string set" where
  "missing_of by_id t = {missing_dependency d t | d. d \<in> set (bt_dependencies t) \<and> by_id d = None}"

text \<open>
  What one call, or a loop of calls, does to the state: it adds targets reachable from \<open>R\<close>, each
  once, and leaves every dependency of an added target visited.
\<close>

definition grows :: "(string \<rightharpoonup> build_target) \<Rightarrow> string set \<Rightarrow> closure_state \<Rightarrow> closure_state \<Rightarrow> build_target list \<Rightarrow> bool" where
  "grows by_id R s s' new \<longleftrightarrow>
     cl_visited s' = cl_visited s \<union> bt_id ` set new \<and>
     cl_closure s' = cl_closure s @ new \<and> distinct (map bt_id new) \<and>
     bt_id ` set new \<inter> cl_visited s = {} \<and>
     (\<forall>t \<in> set new. by_id (bt_id t) = Some t \<and> bt_id t \<in> (depends by_id)\<^sup>* `` R)"

definition settled :: "(string \<rightharpoonup> build_target) \<Rightarrow> closure_state \<Rightarrow> closure_state \<Rightarrow> build_target list \<Rightarrow> bool" where
  "settled by_id s s' new \<longleftrightarrow>
     (\<forall>t \<in> set new. \<forall>d \<in> set (bt_dependencies t). d \<in> dom by_id \<longrightarrow> d \<in> cl_visited s') \<and>
     (\<exists>extra. cl_diagnostics s' = cl_diagnostics s @ extra \<and> set extra = (\<Union>t \<in> set new. missing_of by_id t))"

lemma grows_trans:
  assumes "grows by_id R s s1 new" "grows by_id R s1 s2 new'"
  shows "grows by_id R s s2 (new @ new')"
proof -
  have 1: "cl_visited s1 = cl_visited s \<union> bt_id ` set new" "cl_closure s1 = cl_closure s @ new"
    "distinct (map bt_id new)" "bt_id ` set new \<inter> cl_visited s = {}"
    "\<forall>t \<in> set new. by_id (bt_id t) = Some t \<and> bt_id t \<in> (depends by_id)\<^sup>* `` R"
    using assms(1) unfolding grows_def by blast+
  have 2: "cl_visited s2 = cl_visited s1 \<union> bt_id ` set new'" "cl_closure s2 = cl_closure s1 @ new'"
    "distinct (map bt_id new')" "bt_id ` set new' \<inter> cl_visited s1 = {}"
    "\<forall>t \<in> set new'. by_id (bt_id t) = Some t \<and> bt_id t \<in> (depends by_id)\<^sup>* `` R"
    using assms(2) unfolding grows_def by blast+
  have "bt_id ` set new' \<inter> bt_id ` set new = {}" "bt_id ` set new' \<inter> cl_visited s = {}"
    using 2(4) 1(1) by blast+
  then show ?thesis
    unfolding grows_def
    using 1(3-5) 2(3,5) by (simp add: 1(1,2) 2(1,2) image_Un Un_assoc) blast
qed

definition ids_ok :: "(string \<rightharpoonup> build_target) \<Rightarrow> bool" where
  "ids_ok by_id \<longleftrightarrow> finite (dom by_id) \<and> (\<forall>k t. by_id k = Some t \<longrightarrow> bt_id t = k)"

text \<open>The loop over the dependencies of one target, given what the calls in it do.\<close>

lemma visit_loop:
  assumes call: "\<forall>d s. by_id (bt_id d) = Some d \<and> card (dom by_id - cl_visited s) < n \<longrightarrow>
      (\<exists>s' new. visit_target n by_id d s = Some s' \<and> grows by_id {bt_id d} s s' new \<and>
        settled by_id s s' new \<and> bt_id d \<in> cl_visited s')"
    and "ids_ok by_id" "card (dom by_id - cl_visited s) < n" "set deps \<subseteq> set (bt_dependencies t)"
  shows "\<exists>s' new extra. fold (\<lambda>dep so_far. Option.bind so_far (\<lambda>s.
            case by_id dep of
              None \<Rightarrow> Some (s\<lparr>cl_diagnostics := cl_diagnostics s @ [missing_dependency dep t]\<rparr>)
            | Some d \<Rightarrow> visit_target n by_id d s)) deps (Some s) = Some s' \<and>
      grows by_id (set deps \<inter> dom by_id) s s' new \<and>
      (\<forall>x \<in> set new. \<forall>d \<in> set (bt_dependencies x). d \<in> dom by_id \<longrightarrow> d \<in> cl_visited s') \<and>
      set deps \<inter> dom by_id \<subseteq> cl_visited s' \<and>
      cl_diagnostics s' = cl_diagnostics s @ extra \<and>
      set extra = (\<Union>x \<in> set new. missing_of by_id x) \<union>
        {missing_dependency d t | d. d \<in> set deps \<and> by_id d = None}"
  using assms(3,4)
proof (induction deps arbitrary: s)
  case Nil
  then show ?case by (intro exI [of _ s] exI [of _ "[]"]) (simp add: grows_def)
next
  case (Cons dep deps)
  let ?f = "\<lambda>dep so_far. Option.bind so_far (\<lambda>s.
            case by_id dep of
              None \<Rightarrow> Some (s\<lparr>cl_diagnostics := cl_diagnostics s @ [missing_dependency dep t]\<rparr>)
            | Some d \<Rightarrow> visit_target n by_id d s)"
  show ?case
  proof (cases "by_id dep")
    case None
    let ?s = "s\<lparr>cl_diagnostics := cl_diagnostics s @ [missing_dependency dep t]\<rparr>"
    from Cons.IH [of ?s] Cons.prems obtain s' new extra where
      IH: "fold ?f deps (Some ?s) = Some s'" "grows by_id (set deps \<inter> dom by_id) ?s s' new"
        "\<forall>x \<in> set new. \<forall>d \<in> set (bt_dependencies x). d \<in> dom by_id \<longrightarrow> d \<in> cl_visited s'"
        "set deps \<inter> dom by_id \<subseteq> cl_visited s'"
        "cl_diagnostics s' = cl_diagnostics ?s @ extra"
        "set extra = (\<Union>x \<in> set new. missing_of by_id x) \<union>
          {missing_dependency d t | d. d \<in> set deps \<and> by_id d = None}"
      by auto
    have "set (dep # deps) \<inter> dom by_id = set deps \<inter> dom by_id" using None by auto
    then show ?thesis
      using IH None
      by (intro exI [of _ s'] exI [of _ new] exI [of _ "missing_dependency dep t # extra"])
        (auto simp: grows_def)
  next
    case (Some d)
    then have d: "bt_id d = dep" using assms(2) by (auto simp: ids_ok_def)
    obtain s1 new1 where 1: "visit_target n by_id d s = Some s1" "grows by_id {dep} s s1 new1"
        "settled by_id s s1 new1" "dep \<in> cl_visited s1"
      using call [rule_format, of d s] Cons.prems(1) Some d by auto
    have sub: "cl_visited s \<subseteq> cl_visited s1" using 1(2) by (auto simp: grows_def)
    have "card (dom by_id - cl_visited s1) \<le> card (dom by_id - cl_visited s)"
      using assms(2) sub by (intro card_mono) (auto simp: ids_ok_def)
    then obtain s' new extra where
      IH: "fold ?f deps (Some s1) = Some s'" "grows by_id (set deps \<inter> dom by_id) s1 s' new"
        "\<forall>x \<in> set new. \<forall>d \<in> set (bt_dependencies x). d \<in> dom by_id \<longrightarrow> d \<in> cl_visited s'"
        "set deps \<inter> dom by_id \<subseteq> cl_visited s'"
        "cl_diagnostics s' = cl_diagnostics s1 @ extra"
        "set extra = (\<Union>x \<in> set new. missing_of by_id x) \<union>
          {missing_dependency d t | d. d \<in> set deps \<and> by_id d = None}"
      using Cons.IH [of s1] Cons.prems by auto
    have sub': "cl_visited s1 \<subseteq> cl_visited s'" using IH(2) by (auto simp: grows_def)
    from 1(3) obtain e1 where e1: "cl_diagnostics s1 = cl_diagnostics s @ e1"
        "set e1 = (\<Union>x \<in> set new1. missing_of by_id x)"
        "\<forall>x \<in> set new1. \<forall>d \<in> set (bt_dependencies x). d \<in> dom by_id \<longrightarrow> d \<in> cl_visited s1"
      by (auto simp: settled_def)
    have "grows by_id (set (dep # deps) \<inter> dom by_id) s s1 new1"
      "grows by_id (set (dep # deps) \<inter> dom by_id) s1 s' new"
      using 1(2) IH(2) Some by (fastforce simp: grows_def)+
    note g = grows_trans [OF this]
    have "\<forall>x \<in> set (new1 @ new). \<forall>d \<in> set (bt_dependencies x). d \<in> dom by_id \<longrightarrow> d \<in> cl_visited s'"
      using e1(3) sub' IH(3) unfolding set_append by blast
    moreover have "set (dep # deps) \<inter> dom by_id \<subseteq> cl_visited s'"
      using 1(4) sub' IH(4) by (simp only: list.set) blast
    moreover have "cl_diagnostics s' = cl_diagnostics s @ (e1 @ extra)" using IH(5) e1(1) by simp
    moreover have "set (e1 @ extra) = (\<Union>x \<in> set (new1 @ new). missing_of by_id x) \<union>
        {missing_dependency d t | d. d \<in> set (dep # deps) \<and> by_id d = None}"
    proof -
      have "{missing_dependency d t | d. d \<in> set (dep # deps) \<and> by_id d = None} =
          {missing_dependency d t | d. d \<in> set deps \<and> by_id d = None}"
        using Some by (simp only: list.set) force
      then show ?thesis using IH(6) e1(2) by (simp add: Un_assoc)
    qed
    moreover have "fold ?f (dep # deps) (Some s) = Some s'" using 1(1) IH(1) Some by simp
    ultimately show ?thesis using g by blast
  qed
qed

lemma visit_target_spec:
  assumes "ids_ok by_id" "by_id (bt_id t) = Some t" "card (dom by_id - cl_visited s) < n"
  shows "\<exists>s' new. visit_target n by_id t s = Some s' \<and> grows by_id {bt_id t} s s' new \<and>
    settled by_id s s' new \<and> bt_id t \<in> cl_visited s'"
  using assms(2,3)
proof (induction n arbitrary: t s)
  case (Suc n)
  show ?case
  proof (cases "bt_id t \<in> cl_visited s")
    case True
    then show ?thesis
      by (intro exI [of _ s] exI [of _ "[]"]) (simp add: grows_def settled_def)
  next
    case False
    let ?s = "s\<lparr>cl_visited := insert (bt_id t) (cl_visited s), cl_closure := cl_closure s @ [t]\<rparr>"
    have "dom by_id - cl_visited ?s = (dom by_id - cl_visited s) - {bt_id t}" by auto
    moreover have "bt_id t \<in> dom by_id - cl_visited s" using False Suc.prems(1) by auto
    moreover have "finite (dom by_id - cl_visited s)" using assms(1) by (simp add: ids_ok_def)
    ultimately have "card (dom by_id - cl_visited ?s) < card (dom by_id - cl_visited s)"
      by (metis card_Diff1_less)
    with Suc.prems(2) have fuel: "card (dom by_id - cl_visited ?s) < n" by simp
    have "\<forall>d s. by_id (bt_id d) = Some d \<and> card (dom by_id - cl_visited s) < n \<longrightarrow>
        (\<exists>s' new. visit_target n by_id d s = Some s' \<and> grows by_id {bt_id d} s s' new \<and>
          settled by_id s s' new \<and> bt_id d \<in> cl_visited s')"
      using Suc.IH by blast
    from visit_loop [OF this assms(1) fuel, of "bt_dependencies t" t, OF order_refl] obtain s' new extra where
      loop: "fold (\<lambda>dep so_far. Option.bind so_far (\<lambda>s.
            case by_id dep of
              None \<Rightarrow> Some (s\<lparr>cl_diagnostics := cl_diagnostics s @ [missing_dependency dep t]\<rparr>)
            | Some d \<Rightarrow> visit_target n by_id d s)) (bt_dependencies t) (Some ?s) = Some s'"
        "grows by_id (set (bt_dependencies t) \<inter> dom by_id) ?s s' new"
        "\<forall>x \<in> set new. \<forall>d \<in> set (bt_dependencies x). d \<in> dom by_id \<longrightarrow> d \<in> cl_visited s'"
        "set (bt_dependencies t) \<inter> dom by_id \<subseteq> cl_visited s'"
        "cl_diagnostics s' = cl_diagnostics ?s @ extra"
        "set extra = (\<Union>x \<in> set new. missing_of by_id x) \<union>
          {missing_dependency d t | d. d \<in> set (bt_dependencies t) \<and> by_id d = None}"
      by - (elim exE conjE, rule that, assumption+)
    have deps: "(depends by_id)\<^sup>* `` (set (bt_dependencies t) \<inter> dom by_id) \<subseteq> (depends by_id)\<^sup>* `` {bt_id t}"
    proof
      fix b assume "b \<in> (depends by_id)\<^sup>* `` (set (bt_dependencies t) \<inter> dom by_id)"
      then obtain a where a: "a \<in> set (bt_dependencies t)" "a \<in> dom by_id" "(a, b) \<in> (depends by_id)\<^sup>*"
        by blast
      then have "(bt_id t, a) \<in> depends by_id" using Suc.prems(1) unfolding depends_def by blast
      then have "(bt_id t, b) \<in> (depends by_id)\<^sup>*" using a(3) by (rule converse_rtrancl_into_rtrancl)
      then show "b \<in> (depends by_id)\<^sup>* `` {bt_id t}" by blast
    qed
    have "grows by_id {bt_id t} s s' (t # new)"
    proof -
      have g: "cl_visited s' = insert (bt_id t) (cl_visited s) \<union> bt_id ` set new"
        "cl_closure s' = cl_closure s @ [t] @ new" "distinct (map bt_id new)"
        "bt_id ` set new \<inter> insert (bt_id t) (cl_visited s) = {}"
        "\<forall>x \<in> set new. by_id (bt_id x) = Some x \<and>
          bt_id x \<in> (depends by_id)\<^sup>* `` (set (bt_dependencies t) \<inter> dom by_id)"
        using loop(2) by (simp_all add: grows_def)
      have "\<forall>x \<in> set (t # new). by_id (bt_id x) = Some x \<and> bt_id x \<in> (depends by_id)\<^sup>* `` {bt_id t}"
      proof
        fix x assume "x \<in> set (t # new)"
        then consider "x = t" | "x \<in> set new" by auto
        then show "by_id (bt_id x) = Some x \<and> bt_id x \<in> (depends by_id)\<^sup>* `` {bt_id t}"
        proof cases
          case 1
          then show ?thesis using Suc.prems(1) by simp
        next
          case 2
          with g(5) have "by_id (bt_id x) = Some x"
            "bt_id x \<in> (depends by_id)\<^sup>* `` (set (bt_dependencies t) \<inter> dom by_id)" by simp_all
          then show ?thesis using deps by blast
        qed
      qed
      moreover have "bt_id t \<notin> bt_id ` set new" "bt_id ` set new \<inter> cl_visited s = {}" using g(4) by blast+
      ultimately show ?thesis
        unfolding grows_def using g(3) False by (simp add: g(1,2))
    qed
    moreover have "settled by_id s s' (t # new)"
    proof -
      have "\<forall>x \<in> set (t # new). \<forall>d \<in> set (bt_dependencies x). d \<in> dom by_id \<longrightarrow> d \<in> cl_visited s'"
        using loop(3,4) by (simp only: list.set) blast
      moreover have "cl_diagnostics s' = cl_diagnostics s @ extra" using loop(5) by simp
      moreover have "set extra = (\<Union>x \<in> set (t # new). missing_of by_id x)"
        using loop(6) by (simp add: missing_of_def Un_commute)
      ultimately show ?thesis unfolding settled_def by blast
    qed
    moreover have "bt_id t \<in> cl_visited s'" using loop(2) by (auto simp: grows_def)
    ultimately show ?thesis using loop(1) False by auto
  qed
qed simp

text \<open>The whole recursion, from the selected target.\<close>

lemma closure_of_spec:
  assumes "ids_ok by_id" "by_id (bt_id t) = Some t" "card (dom by_id) \<le> length targets"
  obtains state where "closure_of targets by_id t = Some state"
    "distinct (map bt_id (cl_closure state))"
    "bt_id ` set (cl_closure state) = (depends by_id)\<^sup>* `` {bt_id t}"
    "\<forall>x \<in> set (cl_closure state). by_id (bt_id x) = Some x"
    "set (cl_diagnostics state) = (\<Union>x \<in> set (cl_closure state). missing_of by_id x)"
proof -
  let ?s = "\<lparr>cl_visited = {}, cl_closure = [], cl_diagnostics = []\<rparr> :: closure_state"
  from visit_target_spec [OF assms(1,2), of ?s "Suc (length targets)"] assms(3)
  obtain s' new where s': "visit_target (Suc (length targets)) by_id t ?s = Some s'"
    "grows by_id {bt_id t} ?s s' new" "settled by_id ?s s' new" "bt_id t \<in> cl_visited s'"
    by auto
  then have new: "cl_closure s' = new" "cl_visited s' = bt_id ` set new" "distinct (map bt_id new)"
    "\<forall>x \<in> set new. by_id (bt_id x) = Some x \<and> bt_id x \<in> (depends by_id)\<^sup>* `` {bt_id t}"
    by (simp_all add: grows_def)
  have "b \<in> cl_visited s'" if "(bt_id t, b) \<in> (depends by_id)\<^sup>*" for b
    using that
  proof induction
    case (step a b)
    then obtain x where x: "x \<in> set new" "bt_id x = a" using new(2) by auto
    from step.hyps(2) obtain y where y: "by_id a = Some y" "b \<in> set (bt_dependencies y)" "b \<in> dom by_id"
      unfolding depends_def by blast
    have "by_id a = Some x" using x new(4) by blast
    then have "x = y" using y(1) by simp
    moreover have "\<forall>d \<in> set (bt_dependencies x). d \<in> dom by_id \<longrightarrow> d \<in> cl_visited s'"
      using s'(3) x(1) unfolding settled_def by blast
    ultimately show ?case using y(2,3) by blast
  qed (rule s'(4))
  then have "bt_id ` set new = (depends by_id)\<^sup>* `` {bt_id t}" using new(2,4) by auto
  then show ?thesis
    using that [of s'] s' new by (auto simp: closure_of_def settled_def)
qed

section \<open>Looking targets up\<close>

definition target_by_id :: "build_configuration \<Rightarrow> string \<rightharpoonup> build_target" where
  "target_by_id configuration = map_of (map (\<lambda>t. (bt_id t, t)) (bc_targets configuration))"

lemma index_targets_from:
  assumes "fold_result (\<lambda>t m.
         if m (bt_id t) \<noteq> None then
           Inl (Runtime_Error (''duplicate target id in build configuration: '' @ bt_id t))
         else Inr (m(bt_id t \<mapsto> t))) targets m = Inr m'"
  shows "m' = m ++ map_of (map (\<lambda>t. (bt_id t, t)) targets) \<and> distinct (map bt_id targets) \<and>
    bt_id ` set targets \<inter> dom m = {}"
  using assms
proof (induction targets arbitrary: m)
  case (Cons t targets)
  from Cons.prems have new: "m (bt_id t) = None" by (auto split: if_splits)
  then have "fold_result (\<lambda>t m.
         if m (bt_id t) \<noteq> None then
           Inl (Runtime_Error (''duplicate target id in build configuration: '' @ bt_id t))
         else Inr (m(bt_id t \<mapsto> t))) targets (m(bt_id t \<mapsto> t)) = Inr m'"
    using Cons.prems by simp
  from Cons.IH [OF this]
  have IH: "m' = m(bt_id t \<mapsto> t) ++ map_of (map (\<lambda>t. (bt_id t, t)) targets)"
    "distinct (map bt_id targets)" "bt_id ` set targets \<inter> dom (m(bt_id t \<mapsto> t)) = {}"
    by blast+
  have "map_of (map (\<lambda>t. (bt_id t, t)) targets) (bt_id t) = None"
    using IH(3) by (fastforce simp: map_of_eq_None_iff)
  then have "m' = m ++ map_of (map (\<lambda>t. (bt_id t, t)) (t # targets))"
    unfolding IH(1) by (auto simp: fun_eq_iff map_add_def split: option.splits)
  moreover have "distinct (map bt_id (t # targets)) \<and> bt_id ` set (t # targets) \<inter> dom m = {}"
    using IH(2,3) new by auto
  ultimately show ?case by blast
qed simp

lemma index_targets_spec:
  assumes "index_targets (bc_targets configuration) = Inr by_id"
  shows "by_id = target_by_id configuration" "distinct (map bt_id (bc_targets configuration))"
  using index_targets_from [OF assms [unfolded index_targets_def]] by (simp_all add: target_by_id_def)

lemma target_by_id_some:
  "distinct (map bt_id (bc_targets configuration)) \<Longrightarrow>
     target_by_id configuration i = Some t \<longleftrightarrow> t \<in> set (bc_targets configuration) \<and> bt_id t = i"
proof -
  assume "distinct (map bt_id (bc_targets configuration))"
  then have "distinct (map fst (map (\<lambda>t. (bt_id t, t)) (bc_targets configuration)))" by (simp add: comp_def)
  from map_of_eq_Some_iff [OF this] show ?thesis unfolding target_by_id_def by auto
qed

lemma target_by_id_ok:
  assumes "distinct (map bt_id (bc_targets configuration))"
  shows "ids_ok (target_by_id configuration)"
    "card (dom (target_by_id configuration)) \<le> length (bc_targets configuration)"
proof -
  show "ids_ok (target_by_id configuration)"
    using target_by_id_some [OF assms] by (auto simp: ids_ok_def target_by_id_def finite_dom_map_of)
  have "dom (target_by_id configuration) = bt_id ` set (bc_targets configuration)"
    by (auto simp: target_by_id_def dom_map_of_conv_image_fst image_image)
  then show "card (dom (target_by_id configuration)) \<le> length (bc_targets configuration)"
    by (metis card_image_le card_length finite_set le_trans)
qed

lemma only_target_from:
  "fold_result (\<lambda>t match. if \<not> P t then Inr match
       else case match of None \<Rightarrow> Inr (Some t) | Some _ \<Rightarrow> Inl e) targets m = Inr (Some t) \<Longrightarrow>
     m = Some t \<or> t \<in> set targets"
  by (induction targets arbitrary: m) (fastforce split: if_splits option.splits)+

lemma only_target_member: "only_target P e targets = Inr (Some t) \<Longrightarrow> t \<in> set targets"
  unfolding only_target_def by (drule only_target_from) simp

lemma select_target_member:
  "select_target configuration name = Inr t \<Longrightarrow> t \<in> set (bc_targets configuration)"
  by (auto simp: select_target_def rbind_eq_Inr dest: only_target_member split: if_splits option.splits)

lemma select_configuration_member:
  "select_configuration model name = Inr c \<Longrightarrow> c \<in> set (bm_configurations model)"
  by (auto simp: select_configuration_def find_Some_iff split: if_splits option.splits list.splits)

text \<open>Everything that happened before the selection is made.\<close>

lemma select_target_commands_cases:
  obtains e where "select_target_commands model c t commands = Some (Inl e)"
  | configuration target state where
    "select_target_commands model c t commands =
       Some (make_selection configuration target commands state)"
    "configuration \<in> set (bm_configurations model)" "target \<in> set (bc_targets configuration)"
    "bt_kind target \<noteq> Utility" "distinct (map bt_id (bc_targets configuration))"
    "distinct (map bt_id (cl_closure state))"
    "bt_id ` set (cl_closure state) = (depends (target_by_id configuration))\<^sup>* `` {bt_id target}"
    "set (cl_closure state) \<subseteq> set (bc_targets configuration)"
    "set (cl_diagnostics state) =
       (\<Union>x \<in> set (cl_closure state). missing_of (target_by_id configuration) x)"
proof (cases "rbind (select_configuration model c) (\<lambda>configuration.
           rbind (select_target configuration t) (\<lambda>t.
           if bt_kind t = Utility then
             Inl (Runtime_Error (''utility targets cannot be analyzed: '' @ bt_name t))
           else rbind (index_targets (bc_targets configuration)) (\<lambda>by_id. Inr (configuration, t, by_id))))")
  case (Inl e)
  then show ?thesis using that(1) by (simp add: select_target_commands_def)
next
  case (Inr r)
  then obtain configuration target by_id where r: "r = (configuration, target, by_id)"
    "select_configuration model c = Inr configuration" "select_target configuration t = Inr target"
    "bt_kind target \<noteq> Utility" "index_targets (bc_targets configuration) = Inr by_id"
    by (auto simp: rbind_eq_Inr split: if_splits)
  note index = index_targets_spec [OF r(5)]
  note some = target_by_id_some [OF index(2)]
  have "target_by_id configuration (bt_id target) = Some target"
    using select_target_member [OF r(3)] some by simp
  from closure_of_spec [OF target_by_id_ok(1) [OF index(2)] this target_by_id_ok(2) [OF index(2)]]
  obtain state where state: "closure_of (bc_targets configuration) by_id target = Some state"
    "distinct (map bt_id (cl_closure state))"
    "bt_id ` set (cl_closure state) = (depends (target_by_id configuration))\<^sup>* `` {bt_id target}"
    "\<forall>x \<in> set (cl_closure state). target_by_id configuration (bt_id x) = Some x"
    "set (cl_diagnostics state) = (\<Union>x \<in> set (cl_closure state). missing_of (target_by_id configuration) x)"
    unfolding index(1) by blast
  have "set (cl_closure state) \<subseteq> set (bc_targets configuration)" using state(4) some by blast
  moreover have "select_target_commands model c t commands =
      Some (make_selection configuration target commands state)"
    unfolding select_target_commands_def Inr r(1) by (simp add: state(1))
  ultimately show ?thesis
    using that(2) state(2,3,5) r(4) index(2) select_target_member [OF r(3)]
      select_configuration_member [OF r(2)] by blast
qed

text \<open>
  Selecting a target always ends, whatever the cycles among the dependencies.
\<close>
theorem select_target_commands_returns: "select_target_commands model c t commands \<noteq> None"
  by (rule select_target_commands_cases [of model c t commands]) simp_all

section \<open>What is selected\<close>

text \<open>The targets a target depends on, itself included.\<close>

definition needed_targets :: "build_configuration \<Rightarrow> string \<Rightarrow> build_target set" where
  "needed_targets configuration i =
     {x \<in> set (bc_targets configuration). (i, bt_id x) \<in> (depends (target_by_id configuration))\<^sup>*}"

lemma needed_targets_eq:
  assumes "distinct (map bt_id (bc_targets configuration))" "set closure \<subseteq> set (bc_targets configuration)"
    "bt_id ` set closure = (depends (target_by_id configuration))\<^sup>* `` {i}"
  shows "set closure = needed_targets configuration i"
proof -
  have "x \<in> set closure" if "x \<in> set (bc_targets configuration)" "bt_id x \<in> bt_id ` set closure" for x
    using that assms(1,2) by (auto simp: distinct_map inj_on_def)
  then show ?thesis using assms(2,3) by (auto simp: needed_targets_def)
qed

definition selection_notes :: "build_configuration \<Rightarrow> build_target set \<Rightarrow> string set" where
  "selection_notes configuration targets =
     (\<Union>x \<in> targets. missing_of (target_by_id configuration) x) \<union>
     static_library_note ` {x \<in> targets. bt_kind x = Static_Library}"

text \<open>Which command stands for a source, and when the choice is settled.\<close>

definition chosen_command :: "compile_command list \<Rightarrow> string \<Rightarrow> build_target \<Rightarrow> string \<Rightarrow> nat" where
  "chosen_command commands configuration t source = hd (usable_commands commands configuration t source)"

definition choice_settled :: "compile_command list \<Rightarrow> string \<Rightarrow> build_target \<Rightarrow> string \<Rightarrow> bool" where
  "choice_settled commands configuration t source \<longleftrightarrow>
     usable_commands commands configuration t source \<noteq> [] \<and>
     list_all (\<lambda>i. equivalent_commands (commands ! chosen_command commands configuration t source)
       (commands ! i)) (usable_commands commands configuration t source)"

lemma select_source_spec:
  "select_source commands configuration t source selected = Inr selected' \<longleftrightarrow>
     choice_settled commands configuration t source \<and>
     selected' = insert (chosen_command commands configuration t source) selected"
proof -
  have "list_all (\<lambda>i. equivalent_commands (commands ! hd us) (commands ! i)) us"
    if "us \<noteq> []" "\<not> 1 < length us" for us
    using that by (cases us) (auto simp: equivalent_commands_def)
  then show ?thesis
    by (auto simp: select_source_def choice_settled_def chosen_command_def Let_def)
qed

definition compiled_sources :: "build_target list \<Rightarrow> (build_target \<times> string) set" where
  "compiled_sources targets =
     {(t, source). t \<in> set targets \<and> compiled_kind (bt_kind t) \<and> source \<in> set (bt_sources t)}"

lemma select_source_fold:
  "fold_result (select_source commands configuration t) sources selected = Inr selected' \<longleftrightarrow>
     (\<forall>source \<in> set sources. choice_settled commands configuration t source) \<and>
     selected' = selected \<union> chosen_command commands configuration t ` set sources"
  by (induction sources arbitrary: selected) (auto simp: rbind_eq_Inr select_source_spec)

lemma select_sources_from:
  "fold_result (\<lambda>t selected.
         if \<not> compiled_kind (bt_kind t) then Inr selected
         else fold_result (select_source commands configuration t) (bt_sources t) selected)
       closure selected = Inr selected' \<longleftrightarrow>
     (\<forall>(t, source) \<in> compiled_sources closure. choice_settled commands configuration t source) \<and>
     selected' = selected \<union> (\<lambda>(t, source). chosen_command commands configuration t source) `
       compiled_sources closure"
proof (induction closure arbitrary: selected)
  case Nil
  then show ?case by (auto simp: compiled_sources_def)
next
  case (Cons t closure)
  have split: "compiled_sources (t # closure) =
      (if compiled_kind (bt_kind t) then Pair t ` set (bt_sources t) else {}) \<union> compiled_sources closure"
    by (auto simp: compiled_sources_def)
  show ?case
  proof (cases "compiled_kind (bt_kind t)")
    case True
    have "(\<lambda>(t, source). chosen_command commands configuration t source) ` Pair t ` set (bt_sources t) =
        chosen_command commands configuration t ` set (bt_sources t)"
      by (simp add: image_image)
    then show ?thesis
      using True
      by (simp add: rbind_eq_Inr select_source_fold Cons.IH split image_Un Un_assoc ball_Un)
  next
    case False
    then show ?thesis by (simp add: Cons.IH split)
  qed
qed

lemma select_sources_spec:
  "select_sources commands configuration closure = Inr selected \<longleftrightarrow>
     (\<forall>(t, source) \<in> compiled_sources closure. choice_settled commands configuration t source) \<and>
     selected = (\<lambda>(t, source). chosen_command commands configuration t source) ` compiled_sources closure"
  unfolding select_sources_def select_sources_from by simp

lemma usable_commands_sound:
  "i \<in> set (usable_commands commands configuration t source) \<Longrightarrow>
     i < length commands \<and> path_key (cc_file (commands ! i)) = path_key source"
  by (auto simp: usable_commands_def Let_def split: if_splits)

lemma chosen_command_usable:
  "choice_settled commands configuration t source \<Longrightarrow>
     chosen_command commands configuration t source \<in> set (usable_commands commands configuration t source)"
  by (simp add: choice_settled_def chosen_command_def)

lemma compiled_sources_finite [simp]: "finite (compiled_sources targets)"
proof -
  have "compiled_sources targets \<subseteq> (\<Union>t \<in> set targets. Pair t ` set (bt_sources t))"
    by (auto simp: compiled_sources_def)
  then show ?thesis by (rule finite_subset) simp
qed

lemma make_selection_spec:
  assumes "make_selection configuration t commands state = Inr s"
  defines "closure \<equiv> sort_key bt_name (cl_closure state)"
  shows "tc_target_id (ts_context s) = bt_id t" "tc_configuration (ts_context s) = bc_name configuration"
    "tc_closure_targets (ts_context s) = map bt_name closure"
    "set (ts_diagnostics s) = set (cl_diagnostics state) \<union>
       static_library_note ` {x \<in> set closure. bt_kind x = Static_Library}"
    "\<forall>(x, source) \<in> compiled_sources closure.
       choice_settled commands (bc_name configuration) x source"
    "set (ts_commands s) = (\<lambda>(x, source). commands ! chosen_command commands (bc_name configuration) x source) `
       compiled_sources closure"
proof -
  obtain selected where selected: "select_sources commands (bc_name configuration) closure = Inr selected"
    and s: "s = \<lparr>ts_context = \<lparr>tc_configuration = bc_name configuration, tc_target_id = bt_id t,
                  tc_target_name = bt_name t, tc_target_kind = bt_kind t,
                  tc_closure_targets = map bt_name closure, tc_selected_sources = bt_sources t,
                  tc_public_headers = bt_public_headers t\<rparr>,
                ts_commands = map (\<lambda>i. commands ! i) (sorted_list_of_set selected),
                ts_diagnostics = sort (cl_diagnostics state @
                  map static_library_note (filter (\<lambda>t. bt_kind t = Static_Library) closure))\<rparr>"
    using assms(1) unfolding make_selection_def closure_def [symmetric]
    by (auto simp: Let_def rbind_eq_Inr split: if_splits)
  note sel = select_sources_spec [THEN iffD1, OF selected]
  show "tc_target_id (ts_context s) = bt_id t" "tc_configuration (ts_context s) = bc_name configuration"
    "tc_closure_targets (ts_context s) = map bt_name closure" by (simp_all add: s)
  show "set (ts_diagnostics s) = set (cl_diagnostics state) \<union>
       static_library_note ` {x \<in> set closure. bt_kind x = Static_Library}" by (auto simp: s)
  show "\<forall>(x, source) \<in> compiled_sources closure.
       choice_settled commands (bc_name configuration) x source" using sel by blast
  have "finite selected" using sel by simp
  then show "set (ts_commands s) = (\<lambda>(x, source). commands ! chosen_command commands (bc_name configuration) x source) `
       compiled_sources closure"
    using sel by (auto simp: s)
qed

lemma selection_made:
  assumes "select_target_commands model c name commands = Some (Inr s)"
  obtains configuration closure where "configuration \<in> set (bm_configurations model)"
    "set closure = needed_targets configuration (tc_target_id (ts_context s))"
    "distinct (map bt_id closure)" "sorted (map bt_name closure)"
    "tc_closure_targets (ts_context s) = map bt_name closure"
    "set (ts_diagnostics s) = selection_notes configuration (set closure)"
    "\<forall>(t, source) \<in> compiled_sources closure. choice_settled commands (bc_name configuration) t source"
    "set (ts_commands s) = (\<lambda>(t, source). commands ! chosen_command commands (bc_name configuration) t source) `
       compiled_sources closure"
proof (rule select_target_commands_cases [of model c name commands])
  fix configuration target state
  assume a: "select_target_commands model c name commands =
       Some (make_selection configuration target commands state)"
    "configuration \<in> set (bm_configurations model)" "target \<in> set (bc_targets configuration)"
    "bt_kind target \<noteq> Utility" "distinct (map bt_id (bc_targets configuration))"
    "distinct (map bt_id (cl_closure state))"
    "bt_id ` set (cl_closure state) = (depends (target_by_id configuration))\<^sup>* `` {bt_id target}"
    "set (cl_closure state) \<subseteq> set (bc_targets configuration)"
    "set (cl_diagnostics state) =
       (\<Union>x \<in> set (cl_closure state). missing_of (target_by_id configuration) x)"
  then have "make_selection configuration target commands state = Inr s" using assms by simp
  note s = make_selection_spec [OF this]
  let ?closure = "sort_key bt_name (cl_closure state)"
  have "set ?closure = needed_targets configuration (tc_target_id (ts_context s))"
    using needed_targets_eq [OF a(5,8,7)] s(1) by simp
  moreover have "distinct (map bt_id ?closure)" using a(6) by (auto simp: distinct_map)
  moreover have "sorted (map bt_name ?closure)" by simp
  moreover have "set (ts_diagnostics s) = selection_notes configuration (set ?closure)"
    using s(4) a(9) by (simp add: selection_notes_def)
  ultimately show thesis using that a(2) s(3,5,6) by blast
qed (use assms in simp)

text \<open>
  C30: The closure is exactly the set of targets the selected one depends on, directly or not, each
  once and by name; the diagnostics are exactly the dependencies that the metadata leaves out
  and the notes about static libraries.
\<close>
theorem target_closure_exact:
  assumes "select_target_commands model c name commands = Some (Inr s)"
  shows "\<exists>configuration closure. configuration \<in> set (bm_configurations model) \<and>
    set closure = needed_targets configuration (tc_target_id (ts_context s)) \<and>
    distinct (map bt_id closure) \<and> sorted (map bt_name closure) \<and>
    tc_closure_targets (ts_context s) = map bt_name closure \<and>
    set (ts_diagnostics s) = selection_notes configuration (set closure)"
  by (rule selection_made [OF assms]) blast

text \<open>
  C31: Every C++ source of the closure is compiled by one of the selected commands, which stands for
  all commands left for that source once those of other targets and configurations are put
  aside; and every selected command compiles such a source: nothing else is analyzed.
\<close>
theorem target_commands_exact:
  assumes "select_target_commands model c name commands = Some (Inr s)"
  shows "\<exists>configuration sources. configuration \<in> set (bm_configurations model) \<and>
    sources = {(t, f). t \<in> needed_targets configuration (tc_target_id (ts_context s)) \<and>
      compiled_kind (bt_kind t) \<and> f \<in> set (bt_sources t)} \<and>
    (\<forall>(t, f) \<in> sources. \<exists>i \<in> set (usable_commands commands (bc_name configuration) t f).
      commands ! i \<in> set (ts_commands s) \<and> path_key (cc_file (commands ! i)) = path_key f \<and>
      (\<forall>j \<in> set (usable_commands commands (bc_name configuration) t f).
        equivalent_commands (commands ! i) (commands ! j))) \<and>
    (\<forall>k \<in> set (ts_commands s). k \<in> set commands \<and>
      (\<exists>(t, f) \<in> sources. path_key (cc_file k) = path_key f))"
proof (rule selection_made [OF assms])
  fix configuration closure
  assume s: "configuration \<in> set (bm_configurations model)"
    "set closure = needed_targets configuration (tc_target_id (ts_context s))"
    "\<forall>(t, source) \<in> compiled_sources closure. choice_settled commands (bc_name configuration) t source"
    "set (ts_commands s) = (\<lambda>(t, source). commands ! chosen_command commands (bc_name configuration) t source) `
       compiled_sources closure"
  let ?choice = "chosen_command commands (bc_name configuration)"
  let ?usable = "usable_commands commands (bc_name configuration)"
  have usable: "?choice t f \<in> set (?usable t f)" if "(t, f) \<in> compiled_sources closure" for t f
    using that s(3) chosen_command_usable by blast
  have "\<exists>i \<in> set (?usable t f). commands ! i \<in> set (ts_commands s) \<and>
      path_key (cc_file (commands ! i)) = path_key f \<and>
      (\<forall>j \<in> set (?usable t f). equivalent_commands (commands ! i) (commands ! j))"
    if m: "(t, f) \<in> compiled_sources closure" for t f
  proof (intro bexI [OF _ usable [OF m]] conjI)
    show "commands ! ?choice t f \<in> set (ts_commands s)" unfolding s(4) using m by force
    show "path_key (cc_file (commands ! ?choice t f)) = path_key f"
      using usable_commands_sound [OF usable [OF m]] by simp
    show "\<forall>j \<in> set (?usable t f). equivalent_commands (commands ! ?choice t f) (commands ! j)"
      using s(3) m by (auto simp: choice_settled_def list_all_iff)
  qed
  moreover have "k \<in> set commands \<and> (\<exists>(t, f) \<in> compiled_sources closure. path_key (cc_file k) = path_key f)"
    if "k \<in> set (ts_commands s)" for k
  proof -
    from that obtain t f where m: "(t, f) \<in> compiled_sources closure" "k = commands ! ?choice t f"
      unfolding s(4) by auto
    note sound = usable_commands_sound [OF usable [OF m(1)]]
    have "k \<in> set commands" using sound m(2) by simp
    moreover have "path_key (cc_file k) = path_key f" using sound m(2) by simp
    ultimately show ?thesis using m(1) by blast
  qed
  moreover have "compiled_sources closure =
      {(t, f). t \<in> needed_targets configuration (tc_target_id (ts_context s)) \<and>
        compiled_kind (bt_kind t) \<and> f \<in> set (bt_sources t)}"
    using s(2) by (simp add: compiled_sources_def)
  ultimately show ?thesis
    by (intro exI [of _ configuration] exI [of _ "compiled_sources closure"] conjI s(1)) blast+
qed

section \<open>A build with a cycle\<close>

definition sample_target :: "string \<Rightarrow> target_kind \<Rightarrow> string list \<Rightarrow> string list \<Rightarrow> build_target" where
  "sample_target name kind sources dependencies = \<lparr>bt_id = name, bt_name = name, bt_kind = kind,
     bt_sources = sources, bt_dependencies = dependencies, bt_artifacts = [], bt_public_headers = []\<rparr>"

definition sample_build :: build_model where
  "sample_build = \<lparr>bm_source_root = ''/s'', bm_build_root = ''/b'', bm_configurations =
     [\<lparr>bc_name = ''Debug'', bc_targets =
        [sample_target ''app'' Executable [''/s/a.cc''] [''lib''],
         sample_target ''lib'' Static_Library [''/s/l.cc'', ''/s/x.cc''] [''app'', ''gone''],
         sample_target ''tool'' Executable [''/s/t.cc''] []]\<rparr>]\<rparr>"

definition sample_compile :: "string \<Rightarrow> string \<Rightarrow> compile_command" where
  "sample_compile source output = \<lparr>cc_directory = ''/b'', cc_file = source, cc_arguments = [output],
     cc_output = output, cc_inputs = []\<rparr>"

definition sample_compiles :: "compile_command list" where
  "sample_compiles =
     [sample_compile ''/s/t.cc'' ''CMakeFiles/tool.dir/t.o'', sample_compile ''/s/x.cc'' ''CMakeFiles/tool.dir/x.o'',
      sample_compile ''/s/x.cc'' ''CMakeFiles/lib.dir/x.o'', sample_compile ''/s/l.cc'' ''CMakeFiles/lib.dir/l.o'',
      sample_compile ''/s/a.cc'' ''CMakeFiles/app.dir/a.o'']"

definition sample_selection :: target_selection where
  "sample_selection = \<lparr>ts_context = \<lparr>tc_configuration = ''Debug'', tc_target_id = ''app'',
       tc_target_name = ''app'', tc_target_kind = Executable, tc_closure_targets = [''app'', ''lib''],
       tc_selected_sources = [''/s/a.cc''], tc_public_headers = []\<rparr>,
     ts_commands = [sample_compiles ! 2, sample_compiles ! 3, sample_compiles ! 4],
     ts_diagnostics = [''build metadata omits dependency target gone referenced by lib'',
       ''static-library target lib is analyzed with all translation units present; archive-member extraction is not modeled'']\<rparr>"

lemma sample_selected:
  "select_target_commands sample_build [] ''app'' sample_compiles = Some (Inr sample_selection)"
  by code_simp

lemma sample_selection_fields:
  "tc_target_id (ts_context sample_selection) = ''app''"
  "tc_closure_targets (ts_context sample_selection) = [''app'', ''lib'']"
  "sample_compile ''/s/a.cc'' ''CMakeFiles/app.dir/a.o'' \<in> set (ts_commands sample_selection)"
  "cc_file (sample_compile a b) = a"
  by (simp_all add: sample_selection_def sample_compiles_def sample_compile_def)

lemma target_closure_exact_witness:
  "\<exists>configuration closure. configuration \<in> set (bm_configurations sample_build) \<and>
    set closure = needed_targets configuration ''app'' \<and> distinct (map bt_id closure) \<and>
    map bt_name closure = [''app'', ''lib'']"
proof -
  from target_closure_exact [OF sample_selected, unfolded sample_selection_fields]
  obtain configuration closure where c: "configuration \<in> set (bm_configurations sample_build)"
    "set closure = needed_targets configuration ''app''" "distinct (map bt_id closure)"
    "[''app'', ''lib''] = map bt_name closure"
    by - (elim exE conjE, rule that, assumption+)
  show ?thesis
    by (intro exI [of _ configuration] exI [of _ closure] conjI c c(4) [symmetric])
qed

lemma target_commands_exact_witness:
  "\<exists>configuration t f. configuration \<in> set (bm_configurations sample_build) \<and>
      t \<in> needed_targets configuration ''app'' \<and> f \<in> set (bt_sources t) \<and> path_key ''/s/a.cc'' = path_key f"
proof -
  obtain configuration sources where s: "configuration \<in> set (bm_configurations sample_build)"
    "sources = {(t, f). t \<in> needed_targets configuration ''app'' \<and> compiled_kind (bt_kind t) \<and>
      f \<in> set (bt_sources t)}"
    "\<forall>k \<in> set (ts_commands sample_selection). k \<in> set sample_compiles \<and>
      (\<exists>(t, f) \<in> sources. path_key (cc_file k) = path_key f)"
    using target_commands_exact [OF sample_selected] unfolding sample_selection_fields by blast
  from s(3) sample_selection_fields(3) obtain t f where "(t, f) \<in> sources"
    "path_key (cc_file (sample_compile ''/s/a.cc'' ''CMakeFiles/app.dir/a.o'')) = path_key f" by blast
  then show ?thesis using s(1,2) unfolding sample_selection_fields by blast
qed

section \<open>Files of the reply directory\<close>

lemma drop_common_split:
  "drop_common xs ys = (a, b) \<Longrightarrow> \<exists>zs. xs = zs @ a \<and> ys = zs @ b"
proof (induction xs ys rule: drop_common.induct)
  case (1 x xs y ys)
  show ?case
  proof (cases "x = y")
    case True
    with 1 obtain zs where "xs = zs @ a" "ys = zs @ b" by auto
    then show ?thesis using True by (intro exI [of _ "x # zs"]) simp
  next
    case False
    then show ?thesis using 1 by (intro exI [of _ "[]"]) simp
  qed
qed simp_all

lemma components_append_sep:
  assumes "CHR ''/'' \<notin> set x" "x \<noteq> []"
  shows "components (x @ CHR ''/'' # s) = x # components s"
  using assms split_append [of "CHR ''/''" x "CHR ''/'' # s"] by (simp add: components_def)

definition climbs :: "string \<Rightarrow> bool" where
  "climbs r \<longleftrightarrow> r = dot_dot \<or> (\<exists>s. r = dot_dot @ CHR ''/'' # s)"

lemma climbs_head: "climbs r \<Longrightarrow> hd (path_names r) = dot_dot"
proof -
  have d: "CHR ''/'' \<notin> set dot_dot" "dot_dot \<noteq> []" by (simp_all add: dot_dot_def)
  assume "climbs r"
  then consider "r = dot_dot" | s where "r = dot_dot @ CHR ''/'' # s" unfolding climbs_def by blast
  then show ?thesis
  proof cases
    case 1
    moreover have "hd (path_names dot_dot) = dot_dot" by code_simp
    ultimately show ?thesis by simp
  next
    case 2
    then show ?thesis using components_append_sep [OF d, of s] by (simp add: path_names_def)
  qed
qed

lemma climbs_append: "climbs r \<Longrightarrow> CHR ''/'' \<notin> set c \<Longrightarrow> climbs (path_append r c)"
  by (cases c) (auto simp: climbs_def path_append_def is_absolute_def dot_dot_def)

lemma climbs_fold:
  "climbs r \<Longrightarrow> \<forall>c \<in> set cs. CHR ''/'' \<notin> set c \<Longrightarrow> climbs (fold (\<lambda>c r. path_append r c) cs r)"
  by (induction cs arbitrary: r) (auto intro: climbs_append)

lemma path_names_no_sep: "c \<in> set (path_names p) \<Longrightarrow> CHR ''/'' \<notin> set c"
  using split_at_no_sep [of c "CHR ''/''" p] by (auto simp: path_names_def components_def split: if_splits)

lemma name_levels_plain:
  "\<forall>c \<in> set names. c \<noteq> dot_dot \<and> c \<noteq> dot \<and> c \<noteq> [] \<Longrightarrow> name_levels names = int (length names)"
  by (induction names) (auto simp: name_levels_def)

lemma relative_within:
  assumes "is_absolute p" "is_absolute base"
    "\<forall>c \<in> set (path_names base). c \<noteq> dot_dot \<and> c \<noteq> dot \<and> c \<noteq> []"
    "lexically_relative p base \<noteq> []" "hd (path_names (lexically_relative p base)) \<noteq> dot_dot"
  shows "\<exists>rest. path_names p = path_names base @ rest"
proof -
  obtain a b where ab: "drop_common (path_names p) (path_names base) = (a, b)" by force
  from drop_common_split [OF this] obtain zs where zs: "path_names p = zs @ a" "path_names base = zs @ b"
    by blast
  have "b = []"
  proof (rule ccontr)
    assume ne: "b \<noteq> []"
    have "name_levels b = int (length b)" using assms(3) zs(2) by (intro name_levels_plain) simp
    then have rel: "lexically_relative p base =
        fold (\<lambda>c r. path_append r c) (replicate (length b) dot_dot @ a) []"
      using assms(1,2) ne by (simp add: lexically_relative_def ab)
    obtain n where n: "length b = Suc n" using ne by (cases b) simp_all
    have "path_append [] dot_dot = dot_dot" by code_simp
    then have "lexically_relative p base = fold (\<lambda>c r. path_append r c) (replicate n dot_dot @ a) dot_dot"
      by (simp add: rel n)
    moreover have "CHR ''/'' \<notin> set dot_dot" by (simp add: dot_dot_def)
    then have "\<forall>c \<in> set (replicate n dot_dot @ a). CHR ''/'' \<notin> set c"
      using path_names_no_sep [of _ p] zs(1) by auto
    ultimately have "climbs (lexically_relative p base)"
      using climbs_fold [of dot_dot "replicate n dot_dot @ a"] by (simp add: climbs_def)
    from climbs_head [OF this] show False using assms(5) by simp
  qed
  then show ?thesis using zs by auto
qed

text \<open>
  A name in a reply of CMake never leads out of the reply directory: the file that is opened
  lies below it, with no step upwards left in its path.
\<close>
theorem referenced_file_within:
  assumes "is_absolute directory" "filename directory \<noteq> []"
    "dot \<notin> set (components directory)" "dot_dot \<notin> set (components directory)"
    and "referenced_file directory name = Inr path"
  shows "\<exists>rest. components path = components directory @ rest \<and> dot_dot \<notin> set rest"
proof -
  have names: "path_names directory = components directory" using assms(2) by (simp add: path_names_def)
  have path: "path = lexically_normal (path_append directory name)" "\<not> is_absolute name"
    "lexically_relative path directory \<noteq> []" "hd (path_names (lexically_relative path directory)) \<noteq> dot_dot"
    using assms(5) by (auto simp: referenced_file_def Let_def split: if_splits)
  have "is_absolute (path_append directory name)"
    using assms(1) path(2) by (cases directory) (auto simp: path_append_def is_absolute_def)
  then have abs: "is_absolute path" and no_dots: "dot_dot \<notin> set (components path)"
    using lexically_normal_idempotent [of "path_append directory name"] by (simp_all add: path(1))
  have ne: "[] \<notin> set (components directory)" by (simp add: components_def)
  then have "\<forall>c \<in> set (path_names directory). c \<noteq> dot_dot \<and> c \<noteq> dot \<and> c \<noteq> []"
    using assms(3,4) unfolding names by metis
  from relative_within [OF abs assms(1) this path(3,4)] obtain rest where
    rest: "path_names path = components directory @ rest" unfolding names by blast
  then have "filter (\<lambda>c. c \<noteq> []) (path_names path) = components directory @ filter (\<lambda>c. c \<noteq> []) rest"
    by (simp add: components_def)
  moreover have "filter (\<lambda>c. c \<noteq> []) (path_names path) = components path"
    by (simp add: path_names_def components_def)
  ultimately have "components path = components directory @ filter (\<lambda>c. c \<noteq> []) rest" by simp
  then show ?thesis using no_dots by auto
qed

lemma referenced_file_within_witness:
  "components ''/b/reply/target-1.json'' = components ''/b/reply'' @ [''target-1.json''] \<and>
   (\<exists>rest. components ''/b/reply/target-1.json'' = components ''/b/reply'' @ rest \<and> dot_dot \<notin> set rest) \<and>
   referenced_file ''/b/reply'' ''x/../../reply2'' =
     Inl (Runtime_Error ''CMake File API jsonFile escapes the reply directory'')"
proof -
  have "is_absolute ''/b/reply''" "filename ''/b/reply'' \<noteq> []" "dot \<notin> set (components ''/b/reply'')"
    "dot_dot \<notin> set (components ''/b/reply'')"
    "referenced_file ''/b/reply'' ''./x/../target-1.json'' = Inr ''/b/reply/target-1.json''"
    by code_simp+
  from referenced_file_within [OF this]
  have "\<exists>rest. components ''/b/reply/target-1.json'' = components ''/b/reply'' @ rest \<and> dot_dot \<notin> set rest" .
  moreover have "components ''/b/reply/target-1.json'' = components ''/b/reply'' @ [''target-1.json'']"
    "referenced_file ''/b/reply'' ''x/../../reply2'' =
     Inl (Runtime_Error ''CMake File API jsonFile escapes the reply directory'')"
    by code_simp+
  ultimately show ?thesis by blast
qed

end
