(* ===== verification/Cache_Entry.thy ===== *)
theory Cache_Entry
  imports Graph_Canonical Paths
begin

text \<open>
  Cache entries of \<open>src/cache.cpp\<close>: the text in which the facts of one translation unit are
  stored, and the reader of that text. Both go through C++ streams. A reader is a function of the
  characters left in the stream; an extraction that fails leaves the stream in a failed state,
  and the code throws as soon as it looks at it, so a failed extraction is the exception.
\<close>

section \<open>Streams\<close>

text \<open>White space of the classic locale.\<close>

definition stream_space :: "char \<Rightarrow> bool" where
  "stream_space c \<longleftrightarrow> c = CHR '' '' \<or> (9 \<le> (of_char c :: nat) \<and> (of_char c :: nat) \<le> 13)"

definition skip_ws :: "string \<Rightarrow> string" where
  "skip_ws s = dropWhile stream_space s"

type_synonym 'a reader = "string \<Rightarrow> ('a \<times> string) result"

definition give :: "'a \<Rightarrow> 'a reader" where
  "give x s = Inr (x, s)"

definition reject :: "exn \<Rightarrow> 'a reader" where
  "reject e s = Inl e"

definition and_then :: "'a reader \<Rightarrow> ('a \<Rightarrow> 'b reader) \<Rightarrow> 'b reader" where
  "and_then m f s = rbind (m s) (\<lambda>(x, rest). f x rest)"

text \<open>An extraction, and what is thrown if it fails.\<close>

definition extraction :: "(string \<Rightarrow> ('a \<times> string) option) \<Rightarrow> string \<Rightarrow> 'a reader" where
  "extraction get message s =
     (case get s of None \<Rightarrow> Inl (Runtime_Error message) | Some r \<Rightarrow> Inr r)"

definition get_word :: "string \<Rightarrow> (string \<times> string) option" where
  "get_word s =
     (let s = skip_ws s in
      if s = [] then None
      else Some (takeWhile (\<lambda>c. \<not> stream_space c) s, dropWhile (\<lambda>c. \<not> stream_space c) s))"

text \<open>\<open>std::quoted\<close>: without an opening quote it reads a word.\<close>

definition quote_mark :: char where "quote_mark = CHR 0x22"
definition escape_mark :: char where "escape_mark = CHR 0x5C"

fun get_quoted_body :: "string \<Rightarrow> (string \<times> string) option" where
  "get_quoted_body [] = None"
| "get_quoted_body (c # cs) =
     (if c = escape_mark then
        (case cs of [] \<Rightarrow> None | d # ds \<Rightarrow> map_option (\<lambda>(s, rest). (d # s, rest)) (get_quoted_body ds))
      else if c = quote_mark then Some ([], cs)
      else map_option (\<lambda>(s, rest). (c # s, rest)) (get_quoted_body cs))"

definition get_quoted :: "string \<Rightarrow> (string \<times> string) option" where
  "get_quoted s =
     (case skip_ws s of
        [] \<Rightarrow> None
      | c # cs \<Rightarrow> if c = quote_mark then get_quoted_body cs else get_word (c # cs))"

definition put_quoted :: "string \<Rightarrow> string" where
  "put_quoted s = quote_mark #
     concat (map (\<lambda>c. if c = escape_mark \<or> c = quote_mark then [escape_mark, c] else [c]) s) @ [quote_mark]"

text \<open>
  Numbers: an optional sign and decimal digits. A negative number wraps around when it is read
  as unsigned; one that is out of range fails.
\<close>

definition get_digits :: "string \<Rightarrow> (bool \<times> nat \<times> string) option" where
  "get_digits s =
     (let s = skip_ws s;
          negative = (s \<noteq> [] \<and> hd s = CHR ''-'');
          unsigned = (if s \<noteq> [] \<and> (hd s = CHR ''-'' \<or> hd s = CHR ''+'') then tl s else s);
          digits = takeWhile is_digit unsigned
      in if digits = [] then None
         else Some (negative, decimal_value digits, dropWhile is_digit unsigned))"

definition get_size :: "string \<Rightarrow> (nat \<times> string) option" where
  "get_size s =
     (case get_digits s of
        None \<Rightarrow> None
      | Some (negative, n, rest) \<Rightarrow>
          if 2 ^ 64 \<le> n then None
          else Some (if negative then (2 ^ 64 - n) mod 2 ^ 64 else n, rest))"

definition get_integer :: "int \<Rightarrow> int \<Rightarrow> string \<Rightarrow> (int \<times> string) option" where
  "get_integer least greatest s =
     (case get_digits s of
        None \<Rightarrow> None
      | Some (negative, n, rest) \<Rightarrow>
          let i = (if negative then - int n else int n) in
          if least \<le> i \<and> i \<le> greatest then Some (i, rest) else None)"

definition get_int :: "string \<Rightarrow> (int \<times> string) option" where
  "get_int = get_integer (- (2 ^ 31)) (2 ^ 31 - 1)"

definition get_bool :: "string \<Rightarrow> (bool \<times> string) option" where
  "get_bool s = map_option (\<lambda>(i, rest). (i = 1, rest)) (get_integer 0 1 s)"

definition put_bool :: "bool \<Rightarrow> string" where
  "put_bool b = (if b then ''1'' else ''0'')"

definition line_end :: string where "line_end = [CHR 0x0A]"
definition blank_sep :: string where "blank_sep = '' ''"

section \<open>Entries\<close>

record cached_record =
  rh_name :: string
  rh_bases :: "string list"

record cache_dependency =
  cd_path :: string
  cd_digest :: string

record cache_entry =
  te_graph :: graph
  te_diagnostics :: "string list"
  te_matches :: "bool list"
  te_hierarchy :: "cached_record list"
  te_dependencies :: "cache_dependency list"
  te_ast_bytes :: nat
  te_fact_bytes :: nat

definition cache_schema :: nat where "cache_schema = 1"

text \<open>Enumerators in the order of declaration; the position is the integer an enumerator is cast to.\<close>

definition kind_codes where "kind_codes = [Function, Method, Constructor, Destructor, Synthetic]"
definition scope_codes where "scope_codes = [Reportable, Indexed, External_Opaque, Excluded]"
definition quality_codes where "quality_codes = [Stable, Fallback]"
definition edge_codes where
  "edge_codes = [Direct_Call, Constructs, Virtual_Dispatch, Callback_Edge, Provider_Edge]"
definition root_codes where
  "root_codes = [Application_Entry_Point, Global_Initializer, Manual, Callback_Root, Provider_Root, Public_Api]"
definition escape_codes where "escape_codes = [Address_Taken, Callable_Object, Provider_Escape]"

definition enum_code :: "'a list \<Rightarrow> 'a \<Rightarrow> nat" where
  "enum_code xs x = length (takeWhile (\<lambda>y. y \<noteq> x) xs)"

definition put_enum :: "'a list \<Rightarrow> 'a \<Rightarrow> string" where
  "put_enum xs x = to_string_nat (enum_code xs x)"

section \<open>The writer\<close>

definition write_point :: "source_point \<Rightarrow> string" where
  "write_point p = put_quoted (sp_file p) @ blank_sep @ to_string_nat (sp_line p) @ blank_sep @
     to_string_nat (sp_column p) @ blank_sep @ to_string_nat (sp_offset p) @ blank_sep @
     to_string_nat (sp_token_length p) @ line_end"

definition write_extent :: "source_extent \<Rightarrow> string" where
  "write_extent x = write_point (sx_location x) @ write_point (sx_begin x) @ write_point (sx_end x)"

definition write_evidence :: "evidence \<Rightarrow> string" where
  "write_evidence e = put_quoted (ev_provider e) @ blank_sep @ put_quoted (ev_reason e) @ line_end"

definition write_list :: "('a \<Rightarrow> string) \<Rightarrow> 'a list \<Rightarrow> string" where
  "write_list write xs = to_string_nat (length xs) @ line_end @ concat (map write xs)"

definition write_record :: "cached_record \<Rightarrow> string" where
  "write_record r = put_quoted (rh_name r) @ blank_sep @ to_string_nat (length (rh_bases r)) @ line_end @
     concat (map (\<lambda>b. put_quoted b @ line_end) (rh_bases r))"

definition write_symbol :: "symbol \<Rightarrow> string" where
  "write_symbol s =
     put_quoted (sym_key s) @ line_end @
     put_quoted (si_configuration_id (sym_identity s)) @ line_end @
     put_quoted (si_usr (sym_identity s)) @ line_end @
     put_quoted (si_linkage_name (sym_identity s)) @ line_end @
     put_quoted (si_translation_unit (sym_identity s)) @ line_end @
     put_quoted (si_fallback_anchor (sym_identity s)) @ line_end @
     put_enum quality_codes (si_quality (sym_identity s)) @ line_end @
     put_quoted (sym_name s) @ line_end @
     put_quoted (sym_qualified_name s) @ line_end @
     put_quoted (sym_class_name s) @ line_end @
     put_quoted (sym_signature s) @ line_end @
     put_enum kind_codes (sym_kind s) @ blank_sep @ put_enum scope_codes (sym_scope s) @ blank_sep @
     put_bool (sym_defined s) @ blank_sep @ put_bool (sym_internal_linkage s) @ blank_sep @
     put_bool (sym_is_virtual s) @ line_end @
     write_extent (ss_spelling (sym_source s)) @
     (case ss_expansion (sym_source s) of
        None \<Rightarrow> put_bool False @ line_end
      | Some x \<Rightarrow> put_bool True @ line_end @ write_extent x)"

definition write_edge :: "edge \<Rightarrow> string" where
  "write_edge e = to_string_nat (edge_from e) @ blank_sep @ to_string_nat (edge_to e) @ blank_sep @
     put_enum edge_codes (edge_kind e) @ line_end @ write_evidence (edge_evidence e)"

definition write_root :: "root \<Rightarrow> string" where
  "write_root r = to_string_nat (root_symbol r) @ blank_sep @ put_enum root_codes (root_kind r) @
     line_end @ write_evidence (root_evidence r)"

definition write_escape :: "escape \<Rightarrow> string" where
  "write_escape x = to_string_nat (esc_symbol x) @ blank_sep @ put_bool (esc_from x \<noteq> None) @ blank_sep @
     to_string_nat (case esc_from x of None \<Rightarrow> 0 | Some f \<Rightarrow> f) @ blank_sep @
     put_enum escape_codes (esc_kind x) @ line_end @ write_evidence (esc_evidence x)"

definition write_suppression :: "suppression \<Rightarrow> string" where
  "write_suppression p = to_string_nat (sup_symbol p) @ line_end @ write_evidence (sup_evidence p)"

definition write_entry :: "string \<Rightarrow> cache_entry \<Rightarrow> string" where
  "write_entry key entry =
     (let g = canonicalize (te_graph entry) in
      ''cxx-dead-tu-cache '' @ to_string_nat cache_schema @ line_end @
      put_quoted key @ line_end @
      to_string_nat (te_ast_bytes entry) @ blank_sep @ to_string_nat (te_fact_bytes entry) @ line_end @
      write_list (\<lambda>d. put_quoted (cd_path d) @ blank_sep @ put_quoted (cd_digest d) @ line_end)
        (te_dependencies entry) @
      write_list (\<lambda>b. put_bool b @ line_end) (te_matches entry) @
      write_list write_record (te_hierarchy entry) @
      write_list (\<lambda>d. put_quoted d @ line_end) (te_diagnostics entry) @
      write_list write_symbol (g_symbols g) @
      write_list write_edge (g_edges g) @
      write_list write_root (g_roots g) @
      write_list write_escape (g_escapes g) @
      write_list write_suppression (g_suppressions g))"

section \<open>The reader\<close>

definition lifted :: "'a result \<Rightarrow> 'a reader" where
  "lifted r s = rbind r (\<lambda>x. Inr (x, s))"

fun read_items :: "nat \<Rightarrow> 'a reader \<Rightarrow> 'a list reader" where
  "read_items 0 item = give []"
| "read_items (Suc n) item =
     and_then item (\<lambda>x. and_then (read_items n item) (\<lambda>xs. give (x # xs)))"

text \<open>A loop whose body reads something and adds it to a graph.\<close>

fun read_into :: "nat \<Rightarrow> (graph \<Rightarrow> graph reader) \<Rightarrow> graph \<Rightarrow> graph reader" where
  "read_into 0 item g = give g"
| "read_into (Suc n) item g = and_then (item g) (read_into n item)"

definition checked_count :: "string \<Rightarrow> nat reader" where
  "checked_count field =
     (let message = ''invalid cached '' @ field @ '' count'' in
      and_then (extraction get_size message) (\<lambda>n.
        if 10000000 < n then reject (Runtime_Error message) else give n))"

definition checked_enum :: "'a list \<Rightarrow> int \<Rightarrow> int \<Rightarrow> string \<Rightarrow> 'a result" where
  "checked_enum enumerators code maximum field =
     (if code < 0 \<or> maximum < code then Inl (Runtime_Error (''invalid cached '' @ field))
      else Inr (enumerators ! nat code))"

definition read_point :: "source_point reader" where
  "read_point =
     (let message = ''invalid cached source point'' in
      and_then (extraction get_quoted message) (\<lambda>path.
      and_then (extraction get_size message) (\<lambda>line.
      and_then (extraction get_size message) (\<lambda>column.
      and_then (extraction get_size message) (\<lambda>offset.
      and_then (extraction get_size message) (\<lambda>token_length.
      give \<lparr>sp_file = path, sp_line = line, sp_column = column, sp_offset = offset,
            sp_token_length = token_length\<rparr>))))))"

definition read_extent :: "source_extent reader" where
  "read_extent =
     and_then read_point (\<lambda>location. and_then read_point (\<lambda>b. and_then read_point (\<lambda>e.
     give \<lparr>sx_location = location, sx_begin = b, sx_end = e\<rparr>)))"

definition read_evidence :: "evidence reader" where
  "read_evidence =
     (let message = ''invalid cached evidence'' in
      and_then (extraction get_quoted message) (\<lambda>provider.
      and_then (extraction get_quoted message) (\<lambda>reason.
      give \<lparr>ev_provider = provider, ev_reason = reason\<rparr>)))"

definition read_header :: "string \<Rightarrow> unit reader" where
  "read_header expected_key =
     (let message = ''cache header, schema, or key mismatch'' in
      and_then (extraction get_word message) (\<lambda>magic.
      and_then (extraction get_int message) (\<lambda>schema.
      and_then (extraction get_quoted message) (\<lambda>key.
      if magic \<noteq> ''cxx-dead-tu-cache'' \<or> schema \<noteq> int cache_schema \<or> key \<noteq> expected_key
      then reject (Runtime_Error message) else give ()))))"

definition read_dependency :: "cache_dependency reader" where
  "read_dependency =
     (let message = ''invalid cached dependency'' in
      and_then (extraction get_quoted message) (\<lambda>path.
      and_then (extraction get_quoted message) (\<lambda>digest.
      give \<lparr>cd_path = path, cd_digest = digest\<rparr>)))"

definition read_match :: "bool reader" where
  "read_match =
     (let message = ''invalid cached callback match'' in
      and_then (extraction get_int message) (\<lambda>matched.
      if matched \<noteq> 0 \<and> matched \<noteq> 1 then reject (Runtime_Error message) else give (matched \<noteq> 0)))"

definition read_record :: "cached_record reader" where
  "read_record =
     (let message = ''invalid cached record hierarchy'' in
      and_then (extraction get_quoted message) (\<lambda>name.
      and_then (extraction get_size message) (\<lambda>base_count.
      if 1000000 < base_count then reject (Runtime_Error message)
      else and_then (read_items base_count (extraction get_quoted ''invalid cached base record'')) (\<lambda>bases.
        give \<lparr>rh_name = name, rh_bases = bases\<rparr>))))"

definition read_expansion :: "source_extent option reader" where
  "read_expansion =
     and_then (extraction get_bool ''invalid cached expansion marker'') (\<lambda>has_expansion.
     if has_expansion then and_then read_extent (\<lambda>x. give (Some x)) else give None)"

definition read_symbol_fields :: "symbol reader" where
  "read_symbol_fields =
     (let message = ''invalid cached symbol'' in
      and_then (extraction get_quoted message) (\<lambda>key.
      and_then (extraction get_quoted message) (\<lambda>configuration_id.
      and_then (extraction get_quoted message) (\<lambda>usr.
      and_then (extraction get_quoted message) (\<lambda>linkage_name.
      and_then (extraction get_quoted message) (\<lambda>translation_unit.
      and_then (extraction get_quoted message) (\<lambda>fallback_anchor.
      and_then (extraction get_int message) (\<lambda>quality.
      and_then (extraction get_quoted message) (\<lambda>name.
      and_then (extraction get_quoted message) (\<lambda>qualified_name.
      and_then (extraction get_quoted message) (\<lambda>class_name.
      and_then (extraction get_quoted message) (\<lambda>signature.
      and_then (extraction get_int message) (\<lambda>kind.
      and_then (extraction get_int message) (\<lambda>scope.
      and_then (extraction get_bool message) (\<lambda>is_defined.
      and_then (extraction get_bool message) (\<lambda>internal_linkage.
      and_then (extraction get_bool message) (\<lambda>is_virtual.
      and_then (lifted (checked_enum quality_codes quality 1 ''identity quality'')) (\<lambda>quality.
      and_then (lifted (checked_enum kind_codes kind 4 ''symbol kind'')) (\<lambda>kind.
      and_then (lifted (checked_enum scope_codes scope 3 ''symbol scope'')) (\<lambda>scope.
      and_then read_extent (\<lambda>spelling.
      and_then read_expansion (\<lambda>expansion.
      give \<lparr>sym_key = key,
            sym_identity = \<lparr>si_configuration_id = configuration_id, si_usr = usr,
              si_linkage_name = linkage_name, si_translation_unit = translation_unit,
              si_fallback_anchor = fallback_anchor, si_quality = quality\<rparr>,
            sym_name = name, sym_qualified_name = qualified_name, sym_class_name = class_name,
            sym_signature = signature,
            sym_source = \<lparr>ss_spelling = spelling, ss_expansion = expansion\<rparr>,
            sym_kind = kind, sym_scope = scope, sym_defined = is_defined,
            sym_internal_linkage = internal_linkage, sym_is_virtual = is_virtual\<rparr>))))))))))))))))))))))"

definition read_symbol_into :: "graph \<Rightarrow> graph reader" where
  "read_symbol_into g =
     and_then read_symbol_fields (\<lambda>s. lifted (rbind (add_or_merge_symbol s g) (\<lambda>(i, g). Inr g)))"

definition read_edge_into :: "graph \<Rightarrow> graph reader" where
  "read_edge_into g =
     (let message = ''invalid cached edge'' in
      and_then (extraction get_size message) (\<lambda>from.
      and_then (extraction get_size message) (\<lambda>to.
      and_then (extraction get_int message) (\<lambda>kind.
      and_then (lifted (checked_enum edge_codes kind 4 ''edge kind'')) (\<lambda>kind.
      and_then read_evidence (\<lambda>evidence. lifted (add_edge from to kind evidence g)))))))"

definition read_root_into :: "graph \<Rightarrow> graph reader" where
  "read_root_into g =
     (let message = ''invalid cached root'' in
      and_then (extraction get_size message) (\<lambda>symbol.
      and_then (extraction get_int message) (\<lambda>kind.
      and_then (lifted (checked_enum root_codes kind 5 ''root kind'')) (\<lambda>kind.
      and_then read_evidence (\<lambda>evidence. lifted (add_root symbol kind evidence g))))))"

definition read_escape_into :: "graph \<Rightarrow> graph reader" where
  "read_escape_into g =
     (let message = ''invalid cached escape'' in
      and_then (extraction get_size message) (\<lambda>symbol.
      and_then (extraction get_bool message) (\<lambda>has_from.
      and_then (extraction get_size message) (\<lambda>from.
      and_then (extraction get_int message) (\<lambda>kind.
      and_then (lifted (checked_enum escape_codes kind 2 ''escape kind'')) (\<lambda>kind.
      and_then read_evidence (\<lambda>evidence.
      lifted (add_escape symbol kind evidence (if has_from then Some from else None) g))))))))"

definition read_suppression_into :: "graph \<Rightarrow> graph reader" where
  "read_suppression_into g =
     and_then (extraction get_size ''invalid cached suppression'') (\<lambda>symbol.
     and_then read_evidence (\<lambda>evidence. lifted (add_suppression symbol evidence g)))"

definition read_graph :: "graph reader" where
  "read_graph =
     and_then (checked_count ''symbol'') (\<lambda>n. and_then (read_into n read_symbol_into empty_graph) (\<lambda>g.
     and_then (checked_count ''edge'') (\<lambda>n. and_then (read_into n read_edge_into g) (\<lambda>g.
     and_then (checked_count ''root'') (\<lambda>n. and_then (read_into n read_root_into g) (\<lambda>g.
     and_then (checked_count ''escape'') (\<lambda>n. and_then (read_into n read_escape_into g) (\<lambda>g.
     and_then (checked_count ''suppression'') (\<lambda>n. read_into n read_suppression_into g)))))))))"

definition read_fields :: "string \<Rightarrow> cache_entry reader" where
  "read_fields expected_key =
     and_then (read_header expected_key) (\<lambda>_.
     and_then (extraction get_size ''invalid cached byte counters'') (\<lambda>ast_bytes.
     and_then (extraction get_size ''invalid cached byte counters'') (\<lambda>fact_bytes.
     and_then (checked_count ''dependency'') (\<lambda>n. and_then (read_items n read_dependency) (\<lambda>dependencies.
     and_then (checked_count ''callback match'') (\<lambda>n. and_then (read_items n read_match) (\<lambda>matches.
     and_then (checked_count ''record hierarchy'') (\<lambda>n. and_then (read_items n read_record) (\<lambda>hierarchy.
     and_then (checked_count ''diagnostic'') (\<lambda>n.
     and_then (read_items n (extraction get_quoted ''invalid cached diagnostic'')) (\<lambda>diagnostics.
     and_then read_graph (\<lambda>g.
     give \<lparr>te_graph = g, te_diagnostics = diagnostics, te_matches = matches, te_hierarchy = hierarchy,
           te_dependencies = dependencies, te_ast_bytes = ast_bytes, te_fact_bytes = fact_bytes\<rparr>))))))))))))"

definition read_entry :: "string \<Rightarrow> string \<Rightarrow> cache_entry result" where
  "read_entry text expected_key =
     rbind (read_fields expected_key text) (\<lambda>(entry, rest).
     if skip_ws rest \<noteq> [] then Inl (Runtime_Error ''unexpected trailing cache data'') else Inr entry)"

end
