(* ===== verification/Sha256.thy ===== *)
theory Sha256
  imports Prelude "HOL-Library.Word"
begin

text \<open>
  SHA-256 as the class \<open>Sha256\<close> of \<open>src/cache.cpp\<close> computes it: a buffer of 64 bytes that is
  filled byte by byte and folded into eight words whenever it is full. All arithmetic is that of
  the machine: words of 32 bits, bytes, and a count of bits that wraps around at 64 bits.
\<close>

unbundle bit_operations_syntax

type_synonym word32 = "32 word"
type_synonym byte = "8 word"

section \<open>The class\<close>

record sha256_hash =
  hs_state :: "word32 list"
  hs_buffer :: "byte list"
  hs_size :: nat
  hs_bits :: "64 word"

definition sha_constants :: "word32 list" where
  "sha_constants =
     concat
      [[0x428a2f98, 0x71374491, 0xb5c0fbcf, 0xe9b5dba5, 0x3956c25b, 0x59f111f1, 0x923f82a4],
       [0xab1c5ed5, 0xd807aa98, 0x12835b01, 0x243185be, 0x550c7dc3, 0x72be5d74, 0x80deb1fe],
       [0x9bdc06a7, 0xc19bf174, 0xe49b69c1, 0xefbe4786, 0x0fc19dc6, 0x240ca1cc, 0x2de92c6f],
       [0x4a7484aa, 0x5cb0a9dc, 0x76f988da, 0x983e5152, 0xa831c66d, 0xb00327c8, 0xbf597fc7],
       [0xc6e00bf3, 0xd5a79147, 0x06ca6351, 0x14292967, 0x27b70a85, 0x2e1b2138, 0x4d2c6dfc],
       [0x53380d13, 0x650a7354, 0x766a0abb, 0x81c2c92e, 0x92722c85, 0xa2bfe8a1, 0xa81a664b],
       [0xc24b8b70, 0xc76c51a3, 0xd192e819, 0xd6990624, 0xf40e3585, 0x106aa070, 0x19a4c116],
       [0x1e376c08, 0x2748774c, 0x34b0bcb5, 0x391c0cb3, 0x4ed8aa4a, 0x5b9cca4f, 0x682e6ff3],
       [0x748f82ee, 0x78a5636f, 0x84c87814, 0x8cc70208, 0x90befffa, 0xa4506ceb, 0xbef9a3f7],
       [0xc67178f2]]"

definition sha_initial :: "word32 list" where
  "sha_initial = [0x6a09e667, 0xbb67ae85, 0x3c6ef372, 0xa54ff53a,
                  0x510e527f, 0x9b05688c, 0x1f83d9ab, 0x5be0cd19]"

definition sha_start :: sha256_hash where
  "sha_start = \<lparr>hs_state = sha_initial, hs_buffer = replicate 64 0, hs_size = 0, hs_bits = 0\<rparr>"

definition big_endian_word :: "byte list \<Rightarrow> nat \<Rightarrow> word32" where
  "big_endian_word buffer offset =
     push_bit 24 (ucast (buffer ! offset)) OR push_bit 16 (ucast (buffer ! (offset + 1))) OR
     push_bit 8 (ucast (buffer ! (offset + 2))) OR ucast (buffer ! (offset + 3))"

definition expand_step :: "nat \<Rightarrow> word32 list \<Rightarrow> word32 list" where
  "expand_step i ws =
     (let s0 = word_rotr 7 (ws ! (i - 15)) XOR word_rotr 18 (ws ! (i - 15)) XOR drop_bit 3 (ws ! (i - 15));
          s1 = word_rotr 17 (ws ! (i - 2)) XOR word_rotr 19 (ws ! (i - 2)) XOR drop_bit 10 (ws ! (i - 2))
      in ws[i := ws ! (i - 16) + s0 + ws ! (i - 7) + s1])"

definition expand_words :: "byte list \<Rightarrow> word32 list" where
  "expand_words buffer =
     fold expand_step [16..<64]
       (fold (\<lambda>i ws. ws[i := big_endian_word buffer (i * 4)]) [0..<16] (replicate 64 0))"

type_synonym working =
  "word32 \<times> word32 \<times> word32 \<times> word32 \<times> word32 \<times> word32 \<times> word32 \<times> word32"

definition round_step :: "word32 list \<Rightarrow> nat \<Rightarrow> working \<Rightarrow> working" where
  "round_step ws i = (\<lambda>(a, b, c, d, e, f, g, h).
     let sum1 = word_rotr 6 e XOR word_rotr 11 e XOR word_rotr 25 e;
         choice = (e AND f) XOR (NOT e AND g);
         temporary1 = h + sum1 + choice + sha_constants ! i + ws ! i;
         sum0 = word_rotr 2 a XOR word_rotr 13 a XOR word_rotr 22 a;
         majority = (a AND b) XOR (a AND c) XOR (b AND c);
         temporary2 = sum0 + majority
     in (temporary1 + temporary2, a, b, c, d + temporary1, e, f, g))"

definition transform :: "sha256_hash \<Rightarrow> sha256_hash" where
  "transform s =
     (let ws = expand_words (hs_buffer s);
          st = hs_state s;
          (a, b, c, d, e, f, g, h) = fold (round_step ws) [0..<64]
            (st ! 0, st ! 1, st ! 2, st ! 3, st ! 4, st ! 5, st ! 6, st ! 7)
      in s\<lparr>hs_state := [st ! 0 + a, st ! 1 + b, st ! 2 + c, st ! 3 + d,
                        st ! 4 + e, st ! 5 + f, st ! 6 + g, st ! 7 + h]\<rparr>)"

definition push_byte :: "byte \<Rightarrow> sha256_hash \<Rightarrow> sha256_hash" where
  "push_byte b s = s\<lparr>hs_buffer := (hs_buffer s)[hs_size s := b], hs_size := hs_size s + 1\<rparr>"

definition update_byte :: "char \<Rightarrow> sha256_hash \<Rightarrow> sha256_hash" where
  "update_byte c s =
     (let s = push_byte (of_char c) s in
      if hs_size s = 64 then (transform s)\<lparr>hs_bits := hs_bits s + 512, hs_size := 0\<rparr> else s)"

definition sha_update :: "string \<Rightarrow> sha256_hash \<Rightarrow> sha256_hash" where
  "sha_update input = fold update_byte input"

text \<open>\<open>while (buffer_size_ < n) buffer_[buffer_size_++] = 0;\<close>\<close>

definition fill_zeros :: "nat \<Rightarrow> sha256_hash \<Rightarrow> sha256_hash" where
  "fill_zeros n s = fold (\<lambda>_. push_byte 0) [hs_size s..<n] s"

text \<open>A stream with \<open>std::hex\<close>, filled with zeros to a width of eight.\<close>

definition lower_hex :: "nat \<Rightarrow> char" where
  "lower_hex n = ''0123456789abcdef'' ! n"

fun hex_numeral :: "nat \<Rightarrow> string" where
  "hex_numeral n = (if n < 16 then [lower_hex n] else hex_numeral (n div 16) @ [lower_hex (n mod 16)])"

declare hex_numeral.simps [simp del]

definition hex_padded :: "word32 \<Rightarrow> string" where
  "hex_padded w = replicate (8 - length (hex_numeral (unat w))) CHR ''0'' @ hex_numeral (unat w)"

definition sha_finish :: "sha256_hash \<Rightarrow> string" where
  "sha_finish s =
     (let s = s\<lparr>hs_bits := hs_bits s + of_nat (hs_size s) * 8\<rparr>;
          s = push_byte 0x80 s;
          s = (if hs_size s > 56 then (transform (fill_zeros 64 s))\<lparr>hs_size := 0\<rparr> else s);
          s = fill_zeros 56 s;
          s = fold (\<lambda>shift s. push_byte (ucast (drop_bit shift (hs_bits s))) s) [56, 48, 40, 32, 24, 16, 8, 0] s;
          s = transform s
      in concat (map hex_padded (hs_state s)))"

definition sha256 :: "string \<Rightarrow> string" where
  "sha256 input = sha_finish (sha_update input sha_start)"

end
