(* ===== verification/Cache.thy ===== *)
theory Cache
  imports Cache_Entry Sha256 Artifact Compile_Database Provider
begin

text \<open>
  The translation-unit cache of \<open>src/cache.cpp\<close>: digests of files, the key under which the facts
  of one compilation are stored, validation of an entry when it is loaded, staging and publishing
  of a new entry, and the dependency files of the compiler. The machine is a parameter: files,
  environment variables, time stamps.
\<close>

section \<open>Options\<close>

text \<open>\<open>IndexOptions\<close> without the callback that asks for cancellation; durations in milliseconds.\<close>

record index_options =
  ix_project_root :: string
  ix_configuration_id :: string
  ix_report_paths :: "string list"
  ix_excluded_paths :: "string list"
  ix_clang_executable :: string
  ix_ast_filter :: string
  ix_manual_roots :: "string list"
  ix_callback_rules :: "callback_rule list"
  ix_provider_policies :: "provider_policy list"
  ix_selected_target_sources :: "string list"
  ix_public_headers :: "string list"
  ix_translation_unit_timeout :: int
  ix_index_timeout :: int
  ix_max_ast_bytes :: nat
  ix_cache_directory :: "string option"
  ix_verbose :: bool
  ix_infer_exports :: bool
  ix_require_api :: bool

text \<open>What the machine shows besides the contents of files; \<open>None\<close> stands for an error.\<close>

record machine =
  mc_files :: filesystem
  mc_exists :: "string \<Rightarrow> bool"
  mc_modified :: "string \<Rightarrow> int option"
  mc_symlink :: "string \<Rightarrow> string option"
  mc_variable :: "string \<Rightarrow> string option"

section \<open>Digests\<close>

text \<open>A file is read in pieces of 64 KiB.\<close>

fun pieces :: "nat \<Rightarrow> string \<Rightarrow> string list" where
  "pieces n s = (if n = 0 \<or> s = [] then [] else take n s # pieces n (drop n s))"

declare pieces.simps [simp del]

definition sha256_file :: "filesystem \<Rightarrow> string \<Rightarrow> string result" where
  "sha256_file fs path =
     (case fs_read fs path of
        Cannot_Open \<Rightarrow> Inl (Runtime_Error (''cannot hash cache dependency: '' @ path))
      | Read_Failed \<Rightarrow> Inl (Runtime_Error (''cannot read cache dependency: '' @ path))
      | Contents contents \<Rightarrow> Inr (sha_finish (fold sha_update (pieces 65536 contents) sha_start)))"

text \<open>\<open>None\<close> is an error of the file system; the caller catches it.\<close>

definition tool_fingerprint :: "machine \<Rightarrow> string \<Rightarrow> string option" where
  "tool_fingerprint mc raw_path =
     Option.bind (if path_key raw_path = path_key ''/proc/self/exe'' then mc_symlink mc raw_path else Some raw_path)
       (\<lambda>path.
     let path = lexically_normal (absolute (mc_files mc) path) in
     Option.bind (mc_modified mc path) (\<lambda>timestamp.
     Option.bind (fs_size (mc_files mc) path) (\<lambda>size.
     Some (sha256 (path @ line_end @ to_string_nat size @ line_end @ to_string_int timestamp)))))"

definition search_path :: "machine \<Rightarrow> string \<Rightarrow> string \<Rightarrow> string option" where
  "search_path mc search name =
     map_option (\<lambda>candidate. lexically_normal (absolute (mc_files mc) candidate))
       (find (mc_exists mc)
          (map (\<lambda>d. path_append (if d = [] then fs_cwd (mc_files mc) else d) name) (split_at CHR '':'' search)))"

definition resolve_executable :: "machine \<Rightarrow> string \<Rightarrow> string option" where
  "resolve_executable mc executable =
     (if parent_path executable \<noteq> [] then
        let path = absolute (mc_files mc) executable in
        if mc_exists mc path then Some (lexically_normal path) else None
      else
        case mc_variable mc ''PATH'' of
          None \<Rightarrow> None
        | Some search \<Rightarrow> search_path mc search executable)"

section \<open>Keys\<close>

definition key_component :: "string \<Rightarrow> string \<Rightarrow> string" where
  "key_component name val = to_string_nat (length name) @ '':'' @ name @ to_string_nat (length val) @ '':'' @ val"

text \<open>The components in the order in which they are appended.\<close>

type_synonym key_parts = "(string \<times> string) list"

definition path_components :: "string \<Rightarrow> string \<Rightarrow> string list \<Rightarrow> key_parts" where
  "path_components item name paths =
     (name, to_string_nat (length paths)) # map (\<lambda>p. (item, p)) paths"

definition flag :: "bool \<Rightarrow> string" where "flag b = (if b then ''1'' else ''0'')"

definition or_unavailable :: "string option \<Rightarrow> string" where
  "or_unavailable digest = (case digest of None \<Rightarrow> ''unavailable'' | Some d \<Rightarrow> d)"

definition compiler_components :: "machine \<Rightarrow> index_options \<Rightarrow> key_parts" where
  "compiler_components mc options =
     (case resolve_executable mc (ix_clang_executable options) of
        None \<Rightarrow> []
      | Some compiler \<Rightarrow>
          [(''clang_path'', compiler), (''clang_digest'', or_unavailable (tool_fingerprint mc compiler))])"

definition rule_components :: "callback_rule \<Rightarrow> key_parts" where
  "rule_components rule =
     [(''callback'', describe (cr_callee rule)), (''argument'', to_string_nat (cr_argument_index rule)),
      (''provider'', ev_provider (cr_evidence rule)), (''reason'', ev_reason (cr_evidence rule))]"

definition key_variables :: "string list" where
  "key_variables =
     [''PATH'', ''CPATH'', ''CPLUS_INCLUDE_PATH'', ''C_INCLUDE_PATH'', ''OBJC_INCLUDE_PATH'',
      ''GCC_EXEC_PREFIX'', ''COMPILER_PATH'', ''LIBRARY_PATH'', ''SDKROOT'', ''MACOSX_DEPLOYMENT_TARGET'',
      ''SOURCE_DATE_EPOCH'', ''CLANG_CONFIG_FILE_SYSTEM_DIR'', ''CLANG_CONFIG_FILE_USER_DIR'', ''LANG'',
      ''LC_ALL'']"

definition variable_components :: "machine \<Rightarrow> key_parts" where
  "variable_components mc =
     concat (map (\<lambda>name. case mc_variable mc name of None \<Rightarrow> [] | Some v \<Rightarrow> [(name, v)]) key_variables)"

definition key_components :: "machine \<Rightarrow> compile_command \<Rightarrow> index_options \<Rightarrow> index_frontend \<Rightarrow> key_parts result" where
  "key_components mc command options frontend =
     rbind (map_result (\<lambda>input. rbind (sha256_file (mc_files mc) input) (\<lambda>d.
              Inr [(''command_input_path'', input), (''command_input_digest'', d)])) (cc_inputs command)) (\<lambda>inputs.
     Inr ([(''cache_schema'', to_string_nat cache_schema), (''extractor'', ''cxx-dead-0.18''),
           (''cxx_dead_binary'', or_unavailable (tool_fingerprint mc ''/proc/self/exe'')),
           (''frontend'', index_frontend_to_string frontend),
           (''directory'', cc_directory command), (''file'', cc_file command),
           (''configuration'', ix_configuration_id options), (''project_root'', ix_project_root options),
           (''clang'', ix_clang_executable options)] @
          (if frontend = Ast_Json then compiler_components mc options else []) @
          [(''ast_filter'', ix_ast_filter options), (''verbose'', flag (ix_verbose options)),
           (''infer_exports'', flag (ix_infer_exports options)),
           (''require_api'', flag (ix_require_api options))] @
          path_components ''value'' ''arguments'' (cc_arguments command) @
          concat inputs @
          path_components ''path'' ''report_paths'' (ix_report_paths options) @
          path_components ''path'' ''excluded_paths'' (ix_excluded_paths options) @
          path_components ''path'' ''selected_sources'' (ix_selected_target_sources options) @
          path_components ''path'' ''public_headers'' (ix_public_headers options) @
          concat (map rule_components (ix_callback_rules options)) @
          variable_components mc))"

definition components_text :: "key_parts \<Rightarrow> string" where
  "components_text cs = concat (map (\<lambda>(name, val). key_component name val) cs)"

definition translation_unit_cache_key ::
    "machine \<Rightarrow> compile_command \<Rightarrow> index_options \<Rightarrow> index_frontend \<Rightarrow> string result" where
  "translation_unit_cache_key mc command options frontend =
     rbind (key_components mc command options frontend) (\<lambda>cs. Inr (sha256 (components_text cs)))"

definition entry_path :: "string \<Rightarrow> string \<Rightarrow> string" where
  "entry_path directory key =
     path_append (path_append (path_append directory (''v'' @ to_string_nat cache_schema)) (take 2 key))
       (key @ ''.cache'')"

section \<open>Looking an entry up\<close>

record lookup_result =
  lr_entry :: "cache_entry option"
  lr_warnings :: "string list"
  lr_bytes :: nat

definition digest_form :: "string \<Rightarrow> bool" where
  "digest_form d \<longleftrightarrow> length d = 64 \<and>
     list_all (\<lambda>c. (CHR ''0'' \<le> c \<and> c \<le> CHR ''9'') \<or> (CHR ''a'' \<le> c \<and> c \<le> CHR ''f'')) d"

text \<open>Whether all files still have the digests that were recorded; it stops at the first that has not.\<close>

fun dependencies_current :: "filesystem \<Rightarrow> cache_dependency list \<Rightarrow> bool result" where
  "dependencies_current fs [] = Inr True"
| "dependencies_current fs (d # ds) =
     (if \<not> digest_form (cd_digest d) then Inl (Runtime_Error ''invalid cache dependency digest'')
      else rbind (sha256_file fs (cd_path d)) (\<lambda>digest.
        if digest \<noteq> cd_digest d then Inr False else dependencies_current fs ds))"

definition validate_entry :: "filesystem \<Rightarrow> string \<Rightarrow> string \<Rightarrow> string \<Rightarrow> cache_entry option result" where
  "validate_entry fs serialized key required_source =
     rbind (read_entry serialized key) (\<lambda>entry.
     let normalized_source = lexically_normal (absolute fs required_source) in
     if te_dependencies entry = [] \<or>
        \<not> list_ex (\<lambda>d. path_key (cd_path d) = path_key normalized_source) (te_dependencies entry) then
       Inl (Runtime_Error ''cache dependency manifest omitted the primary source'')
     else rbind (dependencies_current fs (te_dependencies entry)) (\<lambda>current.
       Inr (if current then Some entry else None)))"

definition load_translation_unit_cache ::
    "machine \<Rightarrow> string \<Rightarrow> string \<Rightarrow> string \<Rightarrow> lookup_result" where
  "load_translation_unit_cache mc directory key required_source =
     (let path = entry_path directory key;
          warn = \<lambda>bytes e. \<lparr>lr_entry = None, lr_warnings =
            [''ignored unusable translation-unit cache entry '' @ path @ '': '' @ exn_what e], lr_bytes = bytes\<rparr>
      in if \<not> mc_exists mc path then \<lparr>lr_entry = None, lr_warnings = [], lr_bytes = 0\<rparr>
         else
           case fs_read (mc_files mc) path of
             Cannot_Open \<Rightarrow> warn 0 (Runtime_Error ''cannot open cache entry'')
           | contents \<Rightarrow>
               let serialized = (case contents of Contents text \<Rightarrow> text | _ \<Rightarrow> []) in
               case validate_entry (mc_files mc) serialized key required_source of
                 Inl e \<Rightarrow> warn (length serialized) e
               | Inr entry \<Rightarrow> \<lparr>lr_entry = entry, lr_warnings = [], lr_bytes = length serialized\<rparr>)"

section \<open>Dependencies\<close>

definition hash_cache_dependencies :: "filesystem \<Rightarrow> string list \<Rightarrow> cache_dependency list result" where
  "hash_cache_dependencies fs paths =
     map_result (\<lambda>path. rbind (sha256_file fs path) (\<lambda>d. Inr \<lparr>cd_path = path, cd_digest = d\<rparr>))
       (unique_by path_key (sort_key path_key (map (\<lambda>p. lexically_normal (absolute fs p)) paths)))"

text \<open>A backslash before a line end joins two lines.\<close>

fun join_lines :: "string \<Rightarrow> string" where
  "join_lines (c # d # s) =
     (if c = escape_mark \<and> d = CHR 0x0A then CHR '' '' # join_lines s else c # join_lines (d # s))"
| "join_lines s = s"

record make_state =
  mk_escaped :: bool
  mk_after_target :: bool
  mk_token :: string
  mk_result :: "string list"

definition dependency_path :: "filesystem \<Rightarrow> string \<Rightarrow> string \<Rightarrow> string" where
  "dependency_path fs working_directory token =
     lexically_normal (absolute fs (if is_absolute token then token else path_append working_directory token))"

definition make_flush :: "filesystem \<Rightarrow> string \<Rightarrow> make_state \<Rightarrow> make_state" where
  "make_flush fs working_directory s =
     (if \<not> mk_after_target s \<or> mk_token s = [] then s\<lparr>mk_token := []\<rparr>
      else s\<lparr>mk_result := mk_result s @ [dependency_path fs working_directory (mk_token s)], mk_token := []\<rparr>)"

definition make_step :: "filesystem \<Rightarrow> string \<Rightarrow> char \<Rightarrow> make_state \<Rightarrow> make_state" where
  "make_step fs working_directory c s =
     (if mk_escaped s then s\<lparr>mk_token := mk_token s @ [c], mk_escaped := False\<rparr>
      else if c = escape_mark then s\<lparr>mk_escaped := True\<rparr>
      else if \<not> mk_after_target s \<and> c = CHR '':'' then s\<lparr>mk_token := [], mk_after_target := True\<rparr>
      else if c = CHR '' '' \<or> c = CHR 0x09 \<or> c = CHR 0x0D \<or> c = CHR 0x0A then
        make_flush fs working_directory s
      else s\<lparr>mk_token := mk_token s @ [c]\<rparr>)"

definition parse_make_dependencies :: "filesystem \<Rightarrow> string \<Rightarrow> string \<Rightarrow> string list result" where
  "parse_make_dependencies fs depfile working_directory =
     (if fs_read fs depfile = Cannot_Open then
        Inl (Runtime_Error (''cannot read compiler dependency file: '' @ depfile))
      else
        let contents = (case fs_read fs depfile of Contents t \<Rightarrow> t | _ \<Rightarrow> []);
            s = fold (make_step fs working_directory) (join_lines contents)
              \<lparr>mk_escaped = False, mk_after_target = False, mk_token = [], mk_result = []\<rparr>;
            s = (if mk_escaped s then s\<lparr>mk_token := mk_token s @ [escape_mark]\<rparr> else s);
            s = make_flush fs working_directory s
        in if \<not> mk_after_target s \<or> mk_result s = [] then
             Inl (Runtime_Error ''compiler dependency file contained no dependencies'')
           else Inr (mk_result s))"

end
