(* ===== verification/Cache_Entry_Facts.thy ===== *)
theory Cache_Entry_Facts
  imports Cache_Entry Samples
begin

text \<open>
  Cache entries survive the round trip through their text, whatever bytes the names hold, and no
  text whatsoever makes the reader build an ill-formed graph. A text \<open>gives\<close> a value if the reader
  turns it into that value wherever it stands in the stream; the rules for sequences let each
  part of the format be checked on its own.
\<close>

section \<open>What a text gives\<close>

definition gives :: "'a reader \<Rightarrow> 'a \<Rightarrow> string \<Rightarrow> bool" where
  "gives m x t \<longleftrightarrow> (\<forall>ws rest. list_all stream_space ws \<longrightarrow>
     (\<exists>ws'. list_all stream_space ws' \<and> m (ws @ t @ rest) = Inr (x, ws' @ rest)))"

lemma gives_pair:
  assumes "gives m x t" "gives (f x) y t'"
  shows "gives (and_then m f) y (t @ t')"
  unfolding gives_def
proof (intro allI impI)
  fix ws rest assume "list_all stream_space ws"
  with assms(1) obtain ws' where 1: "list_all stream_space ws'" "m (ws @ t @ t' @ rest) = Inr (x, ws' @ t' @ rest)"
    unfolding gives_def by blast
  with assms(2) obtain ws'' where 2: "list_all stream_space ws''" "f x (ws' @ t' @ rest) = Inr (y, ws'' @ rest)"
    unfolding gives_def by blast
  show "\<exists>ws'. list_all stream_space ws' \<and> and_then m f (ws @ (t @ t') @ rest) = Inr (y, ws' @ rest)"
    using 1(2) 2 by (intro exI [of _ ws'']) (simp add: and_then_def)
qed

lemma gives_seq:
  "gives m x (t @ sep) \<Longrightarrow> gives (f x) y t' \<Longrightarrow> gives (and_then m f) y (t @ sep @ t')"
  using gives_pair [of m x "t @ sep" f y t'] by simp

lemma gives_last: "gives m x t \<Longrightarrow> gives (f x) y [] \<Longrightarrow> gives (and_then m f) y t"
  using gives_pair [of m x t f y "[]"] by simp

lemma gives_none: "gives m x [] \<Longrightarrow> gives (f x) y t \<Longrightarrow> gives (and_then m f) y t"
  using gives_pair [of m x "[]" f y t] by simp

lemma gives_give: "gives (give x) x []"
  by (auto simp: gives_def give_def)

lemma gives_give_eq: "x = y \<Longrightarrow> gives (give x) y []"
  by (simp add: gives_give)

lemma gives_lifted: "r = Inr x \<Longrightarrow> gives (lifted r) x []"
  by (auto simp: gives_def lifted_def)

section \<open>Extractions\<close>

lemma separators [simp]: "list_all stream_space blank_sep" "list_all stream_space line_end"
    "blank_sep \<noteq> []" "line_end \<noteq> []"
  by (simp_all add: blank_sep_def line_end_def stream_space_def)

lemma skip_ws_before: "list_all stream_space ws \<Longrightarrow> \<not> stream_space c \<Longrightarrow> skip_ws (ws @ c # s) = c # s"
  by (induction ws) (simp_all add: skip_ws_def)

lemma get_quoted_body_put:
  "get_quoted_body (concat (map (\<lambda>c. if c = escape_mark \<or> c = quote_mark then [escape_mark, c] else [c]) s) @
     quote_mark # rest) = Some (s, rest)"
  by (induction s) (auto simp: escape_mark_def quote_mark_def)

lemma gives_quoted:
  assumes "list_all stream_space sep"
  shows "gives (extraction get_quoted m) s (put_quoted s @ sep)"
  unfolding gives_def
proof (intro allI impI exI [of _ sep] conjI assms)
  fix ws rest assume "list_all stream_space ws"
  moreover have "\<not> stream_space quote_mark" by (simp add: quote_mark_def stream_space_def)
  ultimately show "extraction get_quoted m (ws @ (put_quoted s @ sep) @ rest) = Inr (s, sep @ rest)"
    by (simp add: extraction_def get_quoted_def put_quoted_def skip_ws_before get_quoted_body_put)
qed

lemma digit_not_space: "is_digit c \<Longrightarrow> \<not> stream_space c" "is_digit c \<Longrightarrow> c \<noteq> CHR ''-'' \<and> c \<noteq> CHR ''+''"
  by (auto simp: is_digit_def stream_space_def)

lemma get_digits_number:
  assumes "list_all stream_space ws" "list_all stream_space sep" "sep \<noteq> []"
  shows "get_digits (ws @ to_string_nat n @ sep @ rest) = Some (False, n, sep @ rest)"
proof -
  obtain c cs where c: "to_string_nat n = c # cs" by (cases "to_string_nat n") simp_all
  have d: "\<forall>x \<in> set (c # cs). is_digit x" using to_string_nat_digits [of _ n] c by metis
  obtain b bs where b: "sep = b # bs" using assms(3) by (cases sep) simp_all
  have nb: "\<not> is_digit b" using assms(2) digit_not_space(1) [of b] by (auto simp: b)
  have skip: "skip_ws (ws @ to_string_nat n @ sep @ rest) = c # cs @ sep @ rest"
    using skip_ws_before [OF assms(1), of c] d digit_not_space(1) by (simp add: c)
  have tw: "takeWhile is_digit (c # cs @ sep @ rest) = c # cs" "dropWhile is_digit (c # cs @ sep @ rest) = sep @ rest"
    using d nb takeWhile_append2 [of "c # cs" is_digit "sep @ rest"] dropWhile_append2 [of "c # cs" is_digit "sep @ rest"]
    by (auto simp: b)
  have "decimal_value (c # cs) = n" using decimal_value_to_string [of n] by (simp add: c)
  then show ?thesis
    unfolding get_digits_def skip Let_def
    using digit_not_space(2) [of c] d tw by (simp split del: if_split)
qed

lemma gives_size:
  assumes "list_all stream_space sep" "sep \<noteq> []" "n < 2 ^ 64"
  shows "gives (extraction get_size m) n (to_string_nat n @ sep)"
  unfolding gives_def
  using assms get_digits_number by (intro allI impI exI [of _ sep]) (simp add: extraction_def get_size_def)

lemma gives_count:
  assumes "list_all stream_space sep" "sep \<noteq> []" "n \<le> 10000000"
  shows "gives (checked_count field) n (to_string_nat n @ sep)"
  unfolding checked_count_def Let_def
  by (rule gives_last, rule gives_size) (use assms in \<open>simp_all add: gives_give\<close>)

lemma gives_integer:
  assumes "list_all stream_space sep" "sep \<noteq> []" "least \<le> int n" "int n \<le> greatest"
  shows "gives (extraction (get_integer least greatest) m) (int n) (to_string_nat n @ sep)"
  unfolding gives_def
  using assms get_digits_number by (intro allI impI exI [of _ sep]) (simp add: extraction_def get_integer_def)

lemma gives_enum:
  assumes "list_all stream_space sep" "sep \<noteq> []" "enum_code xs x < 2 ^ 31"
  shows "gives (extraction get_int m) (int (enum_code xs x)) (put_enum xs x @ sep)"
  unfolding put_enum_def get_int_def by (rule gives_integer) (use assms in simp_all)

lemma put_bool_number: "put_bool b = to_string_nat (if b then 1 else 0)"
proof (cases b)
  case True
  have "put_bool True = to_string_nat (if True then 1 else 0)" by code_simp
  then show ?thesis using True by simp
next
  case False
  have "put_bool False = to_string_nat (if False then 1 else 0)" by code_simp
  then show ?thesis using False by simp
qed

lemma gives_bool:
  assumes "list_all stream_space sep" "sep \<noteq> []"
  shows "gives (extraction get_bool m) b (put_bool b @ sep)"
proof -
  show ?thesis
    unfolding gives_def put_bool_number using assms get_digits_number [where sep = sep]
    by (intro allI impI exI [of _ sep]) (simp add: extraction_def get_bool_def get_integer_def)
qed

section \<open>Loops\<close>

lemma gives_items:
  "\<forall>x \<in> set xs. gives item x (w x) \<Longrightarrow> gives (read_items (length xs) item) xs (concat (map w xs))"
proof (induction xs)
  case (Cons x xs)
  then have "gives item x (w x)" "gives (read_items (length xs) item) xs (concat (map w xs))" by simp_all
  then show ?case
    by (simp, intro gives_pair [of item x] gives_last [of "read_items (length xs) item" xs]) (simp_all add: gives_give)
qed (simp add: gives_give)

lemma gives_list:
  assumes "\<forall>x \<in> set xs. gives item x (w x)" "length xs \<le> 10000000" "gives (f xs) y t"
  shows "gives (and_then (checked_count field) (\<lambda>n. and_then (read_items n item) f)) y (write_list w xs @ t)"
  unfolding write_list_def append.assoc
  by (rule gives_seq [OF gives_count], simp, simp, rule assms(2), rule gives_pair [OF gives_items], rule assms(1), rule assms(3))

lemma gives_into:
  assumes "\<And>x g g'. x \<in> set xs \<Longrightarrow> step x g = Inr g' \<Longrightarrow> gives (item g) g' (w x)"
    and "fold_result step xs g = Inr g'"
  shows "gives (read_into (length xs) item g) g' (concat (map w xs))"
  using assms
proof (induction xs arbitrary: g)
  case (Cons x xs)
  from Cons.prems(2) obtain h where h: "step x g = Inr h" "fold_result step xs h = Inr g'"
    by (auto simp: rbind_eq_Inr)
  have "gives (read_into (length xs) item h) g' (concat (map w xs))"
    using Cons.IH [OF _ h(2)] Cons.prems(1) by simp
  with Cons.prems(1) [OF _ h(1)] show ?case by (simp add: gives_pair)
qed (simp add: gives_give)

lemma gives_facts:
  assumes "\<And>x g g'. x \<in> set xs \<Longrightarrow> step x g = Inr g' \<Longrightarrow> gives (item g) g' (w x)"
    and "fold_result step xs g = Inr g'" "length xs \<le> 10000000" "gives (f g') y t"
  shows "gives (and_then (checked_count field) (\<lambda>n. and_then (read_into n item g) f)) y (write_list w xs @ t)"
  unfolding write_list_def append.assoc
  by (rule gives_seq [OF gives_count], simp, simp, rule assms(3), rule gives_pair [OF gives_into], rule assms(1),
      assumption, assumption, rule assms(2), rule assms(4))

lemma gives_last_facts:
  assumes "\<And>x g g'. x \<in> set xs \<Longrightarrow> step x g = Inr g' \<Longrightarrow> gives (item g) g' (w x)"
    and "fold_result step xs g = Inr g'" "length xs \<le> 10000000"
  shows "gives (and_then (checked_count field) (\<lambda>n. read_into n item g)) g' (write_list w xs)"
  unfolding write_list_def
  by (rule gives_seq [OF gives_count], simp, simp, rule assms(3), rule gives_into, rule assms(1),
      assumption, assumption, rule assms(2))

lemmas seq_quoted = gives_seq [OF gives_quoted]
lemmas last_quoted = gives_last [OF gives_quoted]
lemmas seq_size = gives_seq [OF gives_size]
lemmas last_size = gives_last [OF gives_size]
lemmas seq_enum = gives_seq [OF gives_enum]
lemmas last_enum = gives_last [OF gives_enum]
lemmas seq_bool = gives_seq [OF gives_bool]
lemmas last_bool = gives_last [OF gives_bool]
lemmas gives_rules = seq_quoted last_quoted seq_size last_size seq_enum last_enum seq_bool last_bool gives_give_eq

section \<open>Parts of an entry\<close>

definition small_point :: "source_point \<Rightarrow> bool" where
  "small_point p \<longleftrightarrow> sp_line p < 2 ^ 64 \<and> sp_column p < 2 ^ 64 \<and> sp_offset p < 2 ^ 64 \<and>
     sp_token_length p < 2 ^ 64"

definition small_extent :: "source_extent \<Rightarrow> bool" where
  "small_extent x \<longleftrightarrow> small_point (sx_location x) \<and> small_point (sx_begin x) \<and> small_point (sx_end x)"

definition small_symbol :: "symbol \<Rightarrow> bool" where
  "small_symbol s \<longleftrightarrow> small_extent (ss_spelling (sym_source s)) \<and>
     (case ss_expansion (sym_source s) of None \<Rightarrow> True | Some x \<Rightarrow> small_extent x)"

lemma gives_point: "small_point p \<Longrightarrow> gives read_point p (write_point p)"
  unfolding read_point_def write_point_def Let_def small_point_def
  by (rule gives_rules, (simp; fail)+)+

lemma gives_evidence: "gives read_evidence e (write_evidence e)"
  unfolding read_evidence_def write_evidence_def Let_def
  by (rule gives_rules, (simp; fail)+)+

lemma gives_extent: "small_extent x \<Longrightarrow> gives read_extent x (write_extent x)"
  unfolding read_extent_def write_extent_def small_extent_def
  by (rule gives_pair [OF gives_point], simp, rule gives_pair [OF gives_point], simp,
      rule gives_last [OF gives_point], simp, rule gives_give_eq, simp)

lemma gives_dependency:
  "gives read_dependency d (put_quoted (cd_path d) @ blank_sep @ put_quoted (cd_digest d) @ line_end)"
  unfolding read_dependency_def Let_def
  by (rule gives_rules, (simp; fail)+)+

lemma gives_match: "gives read_match b (put_bool b @ line_end)"
  unfolding read_match_def Let_def get_int_def put_bool_number
  by (rule gives_last [OF gives_integer]) (simp_all add: gives_give_eq)

lemma gives_record:
  assumes "length (rh_bases r) \<le> 1000000"
  shows "gives read_record r (write_record r)"
proof -
  have "gives (read_items (length (rh_bases r)) (extraction get_quoted ''invalid cached base record''))
      (rh_bases r) (concat (map (\<lambda>b. put_quoted b @ line_end) (rh_bases r)))"
    by (rule gives_items) (simp add: gives_quoted)
  then have "gives (and_then (read_items (length (rh_bases r)) (extraction get_quoted ''invalid cached base record''))
        (\<lambda>bases. give \<lparr>rh_name = rh_name r, rh_bases = bases\<rparr>)) r
      (concat (map (\<lambda>b. put_quoted b @ line_end) (rh_bases r)))"
    by (rule gives_last) (simp add: gives_give_eq)
  then show ?thesis
    unfolding read_record_def write_record_def Let_def
    by (intro seq_quoted seq_size) (use assms in simp_all)
qed

lemma gives_header: "gives (read_header key) ()
    (''cxx-dead-tu-cache '' @ to_string_nat cache_schema @ line_end @ put_quoted key @ line_end)"
proof -
  let ?magic = "''cxx-dead-tu-cache''"
  have magic: "gives (extraction get_word m) ?magic (?magic @ blank_sep)" for m
    unfolding gives_def
  proof (intro allI impI exI [of _ blank_sep] conjI)
    fix ws rest assume ws: "list_all stream_space ws"
    have solid: "list_all (\<lambda>c. \<not> stream_space c) ?magic" by code_simp
    have "skip_ws (ws @ (?magic @ blank_sep) @ rest) = ?magic @ blank_sep @ rest"
      using skip_ws_before [OF ws, of "CHR ''c''" "''xx-dead-tu-cache'' @ blank_sep @ rest"] by (simp add: stream_space_def)
    moreover have "takeWhile (\<lambda>c. \<not> stream_space c) (?magic @ blank_sep @ rest) = ?magic"
      "dropWhile (\<lambda>c. \<not> stream_space c) (?magic @ blank_sep @ rest) = blank_sep @ rest"
      by (simp_all add: stream_space_def blank_sep_def)
    ultimately show "extraction get_word m (ws @ (?magic @ blank_sep) @ rest) = Inr (?magic, blank_sep @ rest)"
      by (simp add: extraction_def get_word_def Let_def)
  qed simp
  have "gives (read_header key) () ((?magic @ blank_sep) @ to_string_nat cache_schema @ line_end @ put_quoted key @ line_end)"
    unfolding read_header_def Let_def get_int_def
    by (rule gives_pair [OF magic], rule gives_seq [OF gives_integer], simp, simp, simp, simp add: cache_schema_def,
        rule last_quoted, simp, simp add: gives_give)
  moreover have "''cxx-dead-tu-cache '' = ?magic @ blank_sep" by (simp add: blank_sep_def)
  ultimately show ?thesis by simp
qed

text \<open>Every enumerator is read back.\<close>

lemma enum_code_nth: "x \<in> set xs \<Longrightarrow> enum_code xs x < length xs \<and> xs ! enum_code xs x = x"
proof (induction xs)
  case (Cons y xs)
  then show ?case by (auto simp: enum_code_def)
qed simp

lemma checked_enum_code:
  "x \<in> set xs \<Longrightarrow> maximum = int (length xs) - 1 \<Longrightarrow> checked_enum xs (int (enum_code xs x)) maximum field = Inr x"
  using enum_code_nth [of x xs] by (simp add: checked_enum_def)

lemma all_enumerators:
  "x1 \<in> set kind_codes" "x2 \<in> set scope_codes" "x3 \<in> set quality_codes"
  "x4 \<in> set edge_codes" "x5 \<in> set root_codes" "x6 \<in> set escape_codes"
proof -
  show "x1 \<in> set kind_codes" by (cases x1) (simp_all add: kind_codes_def)
  show "x2 \<in> set scope_codes" by (cases x2) (simp_all add: scope_codes_def)
  show "x3 \<in> set quality_codes" by (cases x3) (simp_all add: quality_codes_def)
  show "x4 \<in> set edge_codes" by (cases x4) (simp_all add: edge_codes_def)
  show "x5 \<in> set root_codes" by (cases x5) (simp_all add: root_codes_def)
  show "x6 \<in> set escape_codes" by (cases x6) (simp_all add: escape_codes_def)
qed

lemma small_codes:
  "enum_code kind_codes x1 < 2147483648" "enum_code scope_codes x2 < 2147483648"
  "enum_code quality_codes x3 < 2147483648" "enum_code edge_codes x4 < 2147483648"
  "enum_code root_codes x5 < 2147483648" "enum_code escape_codes x6 < 2147483648"
proof -
  show "enum_code kind_codes x1 < 2147483648"
    by (cases x1) (simp_all add: enum_code_def kind_codes_def)
  show "enum_code scope_codes x2 < 2147483648"
    by (cases x2) (simp_all add: enum_code_def scope_codes_def)
  show "enum_code quality_codes x3 < 2147483648"
    by (cases x3) (simp_all add: enum_code_def quality_codes_def)
  show "enum_code edge_codes x4 < 2147483648"
    by (cases x4) (simp_all add: enum_code_def edge_codes_def)
  show "enum_code root_codes x5 < 2147483648"
    by (cases x5) (simp_all add: enum_code_def root_codes_def)
  show "enum_code escape_codes x6 < 2147483648"
    by (cases x6) (simp_all add: enum_code_def escape_codes_def)
qed

lemma gives_checked_enum:
  assumes "x \<in> set xs" "maximum = int (length xs) - 1" "gives (f x) y t"
  shows "gives (and_then (lifted (checked_enum xs (int (enum_code xs x)) maximum field)) f) y t"
  by (rule gives_none [OF gives_lifted]) (use checked_enum_code [OF assms(1,2)] assms(3) in simp_all)

lemma gives_expansion:
  assumes "case e of None \<Rightarrow> True | Some x \<Rightarrow> small_extent x"
  shows "gives read_expansion e
    (case e of None \<Rightarrow> put_bool False @ line_end | Some x \<Rightarrow> put_bool True @ line_end @ write_extent x)"
proof (cases e)
  case None
  then show ?thesis
    unfolding read_expansion_def by (simp, intro last_bool) (simp_all add: gives_give)
next
  case (Some x)
  have "gives (and_then read_extent (\<lambda>x. give (Some x))) (Some x) (write_extent x)"
    by (rule gives_last [OF gives_extent]) (use assms Some in \<open>simp_all add: gives_give\<close>)
  then show ?thesis
    unfolding read_expansion_def using Some by (simp, intro seq_bool) simp_all
qed

lemma gives_symbol:
  assumes "small_symbol s"
  shows "gives read_symbol_fields s (write_symbol s)"
proof -
  have extents: "small_extent (ss_spelling (sym_source s))"
    "case ss_expansion (sym_source s) of None \<Rightarrow> True | Some x \<Rightarrow> small_extent x"
    using assms by (simp_all add: small_symbol_def)
  have tail: "gives (and_then read_extent (\<lambda>spelling. and_then read_expansion (\<lambda>expansion. F spelling expansion))) y
      (write_extent (ss_spelling (sym_source s)) @
       (case ss_expansion (sym_source s) of None \<Rightarrow> put_bool False @ line_end
        | Some x \<Rightarrow> put_bool True @ line_end @ write_extent x))"
    if "F (ss_spelling (sym_source s)) (ss_expansion (sym_source s)) = give y" for F and y :: symbol
    by (rule gives_pair [OF gives_extent [OF extents(1)]], rule gives_last [OF gives_expansion [OF extents(2)]],
        simp add: that gives_give)
  show ?thesis
    unfolding read_symbol_fields_def write_symbol_def Let_def
    apply ((rule gives_rules, (simp add: small_codes; fail)+)+)
    apply (rule gives_checked_enum, rule all_enumerators, simp add: quality_codes_def)
    apply (rule gives_checked_enum, rule all_enumerators, simp add: kind_codes_def)
    apply (rule gives_checked_enum, rule all_enumerators, simp add: scope_codes_def)
    apply (rule tail)
    apply (cases s; cases "sym_identity s"; cases "sym_source s"; simp)
    done
qed

section \<open>Rebuilding the graph\<close>

definition put_symbol :: "symbol \<Rightarrow> graph \<Rightarrow> graph result" where
  "put_symbol s g = rbind (add_or_merge_symbol s g) (\<lambda>(i, g). Inr g)"

definition put_edge :: "edge \<Rightarrow> graph \<Rightarrow> graph result" where
  "put_edge e = add_edge (edge_from e) (edge_to e) (edge_kind e) (edge_evidence e)"

definition put_root :: "root \<Rightarrow> graph \<Rightarrow> graph result" where
  "put_root r = add_root (root_symbol r) (root_kind r) (root_evidence r)"

definition put_escape :: "escape \<Rightarrow> graph \<Rightarrow> graph result" where
  "put_escape x = add_escape (esc_symbol x) (esc_kind x) (esc_evidence x) (esc_from x)"

definition put_suppression :: "suppression \<Rightarrow> graph \<Rightarrow> graph result" where
  "put_suppression p = add_suppression (sup_symbol p) (sup_evidence p)"

lemma gives_put_symbol:
  "small_symbol s \<Longrightarrow> put_symbol s g = Inr g' \<Longrightarrow> gives (read_symbol_into g) g' (write_symbol s)"
  unfolding read_symbol_into_def put_symbol_def
  by (rule gives_last [OF gives_symbol], assumption) (rule gives_lifted)

lemma gives_put_edge:
  assumes "edge_from e < 2 ^ 64" "edge_to e < 2 ^ 64" "put_edge e g = Inr g'"
  shows "gives (read_edge_into g) g' (write_edge e)"
  unfolding read_edge_into_def write_edge_def Let_def
  apply ((rule gives_rules, (use assms(1,2) small_codes in \<open>simp; fail\<close>)+)+)
  apply (rule gives_checked_enum, rule all_enumerators, simp add: edge_codes_def)
  apply (rule gives_last [OF gives_evidence], rule gives_lifted)
  apply (use assms(3) in \<open>simp add: put_edge_def\<close>)
  done

lemma gives_put_root:
  assumes "root_symbol r < 2 ^ 64" "put_root r g = Inr g'"
  shows "gives (read_root_into g) g' (write_root r)"
  unfolding read_root_into_def write_root_def Let_def
  apply ((rule gives_rules, (use assms(1) small_codes in \<open>simp; fail\<close>)+)+)
  apply (rule gives_checked_enum, rule all_enumerators, simp add: root_codes_def)
  apply (rule gives_last [OF gives_evidence], rule gives_lifted)
  apply (use assms(2) in \<open>simp add: put_root_def\<close>)
  done

lemma gives_put_escape:
  assumes "esc_symbol x < 2 ^ 64" "case esc_from x of None \<Rightarrow> True | Some f \<Rightarrow> f < 2 ^ 64"
    "put_escape x g = Inr g'"
  shows "gives (read_escape_into g) g' (write_escape x)"
  unfolding read_escape_into_def write_escape_def Let_def
  apply ((rule gives_rules, (use assms(1,2) small_codes in \<open>simp split: option.splits; fail\<close>)+)+)
  apply (rule gives_checked_enum, rule all_enumerators, simp add: escape_codes_def)
  apply (rule gives_last [OF gives_evidence], rule gives_lifted)
  apply (use assms(3) in \<open>cases "esc_from x"; simp add: put_escape_def\<close>)
  done

lemma gives_put_suppression:
  assumes "sup_symbol p < 2 ^ 64" "put_suppression p g = Inr g'"
  shows "gives (read_suppression_into g) g' (write_suppression p)"
  unfolding read_suppression_into_def write_suppression_def
  by (rule seq_size, simp, simp, rule assms(1), rule gives_last [OF gives_evidence], rule gives_lifted)
    (use assms(2) in \<open>simp add: put_suppression_def\<close>)

text \<open>Adding the symbols of a well-formed graph one after the other gives them their old ids.\<close>

lemma put_symbols:
  assumes "graph_wf h" "\<forall>s \<in> set ss. sym_key s \<noteq> [] \<and> sym_scope s \<noteq> Excluded"
    "distinct (keys_of h @ map sym_key ss)"
  shows "\<exists>h'. fold_result put_symbol ss h = Inr h' \<and> graph_wf h' \<and> g_symbols h' = g_symbols h @ ss \<and>
    g_edges h' = g_edges h \<and> g_roots h' = g_roots h \<and> g_escapes h' = g_escapes h \<and>
    g_suppressions h' = g_suppressions h"
  using assms
proof (induction ss arbitrary: h)
  case (Cons s ss)
  let ?h = "h\<lparr>g_key_to_id := emplace (sym_key s) (length (g_symbols h)) (g_key_to_id h),
    g_symbols := g_symbols h @ [s]\<rparr>"
  have new: "sym_key s \<notin> set (keys_of h)" "sym_key s \<noteq> []" "sym_scope s \<noteq> Excluded"
    using Cons.prems(2,3) by simp_all
  have "g_key_to_id h (sym_key s) = None" using new(1) graph_wf_index_None [OF Cons.prems(1)] by simp
  then have eq: "add_or_merge_symbol s h = Inr (length (g_symbols h), ?h)"
    using new(2,3) by (simp add: add_or_merge_symbol_def Let_def)
  then have step: "put_symbol s h = Inr ?h" by (simp add: put_symbol_def)
  have "graph_wf ?h" using add_or_merge_symbol_wf [OF Cons.prems(1) eq] by blast
  moreover have "distinct (keys_of ?h @ map sym_key ss)" using Cons.prems(3) by (simp add: keys_of_def)
  ultimately have "\<exists>h'. fold_result put_symbol ss ?h = Inr h' \<and> graph_wf h' \<and> g_symbols h' = g_symbols ?h @ ss \<and>
    g_edges h' = g_edges ?h \<and> g_roots h' = g_roots ?h \<and> g_escapes h' = g_escapes ?h \<and>
    g_suppressions h' = g_suppressions ?h"
    using Cons.prems(2) by (intro Cons.IH) simp_all
  then show ?case using step by simp
qed simp

lemma fact_eta:
  "\<lparr>edge_from = edge_from e, edge_to = edge_to e, edge_kind = edge_kind e, edge_evidence = edge_evidence e\<rparr> = e"
  "\<lparr>root_symbol = root_symbol r, root_kind = root_kind r, root_evidence = root_evidence r\<rparr> = r"
  "\<lparr>esc_symbol = esc_symbol x, esc_from = esc_from x, esc_kind = esc_kind x, esc_evidence = esc_evidence x\<rparr> = x"
  "\<lparr>sup_symbol = sup_symbol p, sup_evidence = sup_evidence p\<rparr> = p"
  by (cases e, simp) (cases r, simp, cases x, simp, cases p, simp)

lemma push_unique_new: "x \<notin> set xs \<Longrightarrow> push_unique x xs = xs @ [x]"
  by (simp add: push_unique_def)

lemma put_edges:
  "\<forall>e \<in> set es. edge_from e < length (g_symbols h) \<and> edge_to e < length (g_symbols h) \<Longrightarrow>
   distinct (g_edges h @ es) \<Longrightarrow> fold_result put_edge es h = Inr (h\<lparr>g_edges := g_edges h @ es\<rparr>)"
  by (induction es arbitrary: h) (simp_all add: put_edge_def add_edge_def push_unique_new fact_eta)

lemma put_roots:
  "\<forall>r \<in> set rs. root_symbol r < length (g_symbols h) \<Longrightarrow>
   distinct (g_roots h @ rs) \<Longrightarrow> fold_result put_root rs h = Inr (h\<lparr>g_roots := g_roots h @ rs\<rparr>)"
  by (induction rs arbitrary: h) (simp_all add: put_root_def add_root_def push_unique_new fact_eta)

lemma put_escapes:
  "\<forall>x \<in> set xs. esc_symbol x < length (g_symbols h) \<and> (\<forall>f. esc_from x = Some f \<longrightarrow> f < length (g_symbols h)) \<Longrightarrow>
   distinct (g_escapes h @ xs) \<Longrightarrow> fold_result put_escape xs h = Inr (h\<lparr>g_escapes := g_escapes h @ xs\<rparr>)"
  by (induction xs arbitrary: h)
    (auto simp: put_escape_def add_escape_def push_unique_new fact_eta split: option.splits)

lemma put_suppressions:
  "\<forall>p \<in> set ps. sup_symbol p < length (g_symbols h) \<Longrightarrow>
   distinct (g_suppressions h @ ps) \<Longrightarrow>
   fold_result put_suppression ps h = Inr (h\<lparr>g_suppressions := g_suppressions h @ ps\<rparr>)"
  by (induction ps arbitrary: h) (simp_all add: put_suppression_def add_suppression_def push_unique_new fact_eta)

text \<open>The index of a well-formed graph is determined by its symbols.\<close>

lemma graph_wf_index_unique:
  assumes "graph_wf g" "graph_wf h" "g_symbols g = g_symbols h"
  shows "g_key_to_id g = g_key_to_id h"
proof
  fix k
  have "g_key_to_id g k = Some i \<longleftrightarrow> g_key_to_id h k = Some i" for i
    unfolding graph_wf_index [OF assms(1)] graph_wf_index [OF assms(2)] by (simp add: assms(3) key_at_def)
  then show "g_key_to_id g k = g_key_to_id h k" by (metis not_Some_eq)
qed

lemma rebuild:
  assumes "graph_wf g"
  obtains h where "fold_result put_symbol (g_symbols g) empty_graph = Inr h"
    "fold_result put_edge (g_edges g) h = Inr (h\<lparr>g_edges := g_edges g\<rparr>)"
    "fold_result put_root (g_roots g) (h\<lparr>g_edges := g_edges g\<rparr>) =
       Inr (h\<lparr>g_edges := g_edges g, g_roots := g_roots g\<rparr>)"
    "fold_result put_escape (g_escapes g) (h\<lparr>g_edges := g_edges g, g_roots := g_roots g\<rparr>) =
       Inr (h\<lparr>g_edges := g_edges g, g_roots := g_roots g, g_escapes := g_escapes g\<rparr>)"
    "fold_result put_suppression (g_suppressions g)
       (h\<lparr>g_edges := g_edges g, g_roots := g_roots g, g_escapes := g_escapes g\<rparr>) = Inr g"
proof -
  have wf: "\<forall>s \<in> set (g_symbols g). sym_key s \<noteq> [] \<and> sym_scope s \<noteq> Excluded"
    "\<forall>e \<in> set (g_edges g). edge_from e < length (g_symbols g) \<and> edge_to e < length (g_symbols g)"
    "\<forall>r \<in> set (g_roots g). root_symbol r < length (g_symbols g)"
    "\<forall>x \<in> set (g_escapes g). esc_symbol x < length (g_symbols g) \<and>
        (\<forall>f. esc_from x = Some f \<longrightarrow> f < length (g_symbols g))"
    "\<forall>p \<in> set (g_suppressions g). sup_symbol p < length (g_symbols g)"
    "distinct (g_edges g)" "distinct (g_roots g)" "distinct (g_escapes g)" "distinct (g_suppressions g)"
    using assms unfolding graph_wf_def by blast+
  have "distinct (keys_of empty_graph @ map sym_key (g_symbols g))"
    using graph_wf_distinct_keys [OF assms] by (simp add: keys_of_def empty_graph_def)
  from put_symbols [OF graph_wf_empty wf(1) this] obtain h where
    h: "fold_result put_symbol (g_symbols g) empty_graph = Inr h" "graph_wf h" "g_symbols h = g_symbols g"
      "g_edges h = []" "g_roots h = []" "g_escapes h = []" "g_suppressions h = []"
    by (auto simp: empty_graph_def)
  have "g = \<lparr>g_symbols = g_symbols h, g_edges = g_edges g, g_key_to_id = g_key_to_id h, g_roots = g_roots g,
      g_escapes = g_escapes g, g_suppressions = g_suppressions g\<rparr>"
    using graph_wf_index_unique [OF assms h(2)] h(3) by simp
  moreover have "h\<lparr>g_edges := g_edges g, g_roots := g_roots g, g_escapes := g_escapes g,
      g_suppressions := g_suppressions g\<rparr> = \<lparr>g_symbols = g_symbols h, g_edges = g_edges g,
      g_key_to_id = g_key_to_id h, g_roots = g_roots g, g_escapes = g_escapes g,
      g_suppressions = g_suppressions g\<rparr>" by (cases h) simp
  ultimately have g: "h\<lparr>g_edges := g_edges g, g_roots := g_roots g, g_escapes := g_escapes g,
      g_suppressions := g_suppressions g\<rparr> = g" by simp
  show thesis
    by (rule that [of h, OF h(1)]) (use wf h(3-7) put_edges put_roots put_escapes put_suppressions g in simp_all)
qed

section \<open>The round trip\<close>

text \<open>The limits of the format: counts it accepts, and sizes that fit a \<open>size_t\<close>.\<close>

definition small_graph :: "graph \<Rightarrow> bool" where
  "small_graph g \<longleftrightarrow> length (g_symbols g) \<le> 10000000 \<and> length (g_edges g) \<le> 10000000 \<and>
     length (g_roots g) \<le> 10000000 \<and> length (g_escapes g) \<le> 10000000 \<and>
     length (g_suppressions g) \<le> 10000000 \<and> list_all small_symbol (g_symbols g)"

definition small_entry :: "cache_entry \<Rightarrow> bool" where
  "small_entry e \<longleftrightarrow> te_ast_bytes e < 2 ^ 64 \<and> te_fact_bytes e < 2 ^ 64 \<and>
     length (te_dependencies e) \<le> 10000000 \<and> length (te_matches e) \<le> 10000000 \<and>
     length (te_hierarchy e) \<le> 10000000 \<and> length (te_diagnostics e) \<le> 10000000 \<and>
     list_all (\<lambda>r. length (rh_bases r) \<le> 1000000) (te_hierarchy e) \<and> small_graph (te_graph e)"

lemma small_graph_canonicalize: "small_graph g \<Longrightarrow> small_graph (canonicalize g)"
  by (auto simp: small_graph_def list_all_iff set_canonicalize_symbols canonicalize_def Let_def)

definition write_graph :: "graph \<Rightarrow> string" where
  "write_graph g = write_list write_symbol (g_symbols g) @ write_list write_edge (g_edges g) @
     write_list write_root (g_roots g) @ write_list write_escape (g_escapes g) @
     write_list write_suppression (g_suppressions g)"

lemma gives_graph:
  assumes "graph_wf g" "small_graph g"
  shows "gives read_graph g (write_graph g)"
proof -
  have wf: "\<forall>e \<in> set (g_edges g). edge_from e < length (g_symbols g) \<and> edge_to e < length (g_symbols g)"
    "\<forall>r \<in> set (g_roots g). root_symbol r < length (g_symbols g)"
    "\<forall>x \<in> set (g_escapes g). esc_symbol x < length (g_symbols g) \<and>
        (\<forall>f. esc_from x = Some f \<longrightarrow> f < length (g_symbols g))"
    "\<forall>p \<in> set (g_suppressions g). sup_symbol p < length (g_symbols g)"
    using assms(1) unfolding graph_wf_def by blast+
  have small: "length (g_symbols g) \<le> 10000000" "length (g_edges g) \<le> 10000000"
     "length (g_roots g) \<le> 10000000" "length (g_escapes g) \<le> 10000000"
     "length (g_suppressions g) \<le> 10000000" "\<forall>s \<in> set (g_symbols g). small_symbol s"
    using assms(2) by (simp_all add: small_graph_def list_all_iff)
  have ids: "i < length (g_symbols g) \<Longrightarrow> i < 2 ^ 64" for i using small(1) by simp
  have escape_ids: "esc_symbol x < 2 ^ 64" "case esc_from x of None \<Rightarrow> True | Some f \<Rightarrow> f < 2 ^ 64"
    if "x \<in> set (g_escapes g)" for x
    using that wf(3) ids by (auto split: option.splits)
  from rebuild [OF assms(1)] obtain h where
    h: "fold_result put_symbol (g_symbols g) empty_graph = Inr h"
    "fold_result put_edge (g_edges g) h = Inr (h\<lparr>g_edges := g_edges g\<rparr>)"
    "fold_result put_root (g_roots g) (h\<lparr>g_edges := g_edges g\<rparr>) =
       Inr (h\<lparr>g_edges := g_edges g, g_roots := g_roots g\<rparr>)"
    "fold_result put_escape (g_escapes g) (h\<lparr>g_edges := g_edges g, g_roots := g_roots g\<rparr>) =
       Inr (h\<lparr>g_edges := g_edges g, g_roots := g_roots g, g_escapes := g_escapes g\<rparr>)"
    "fold_result put_suppression (g_suppressions g)
       (h\<lparr>g_edges := g_edges g, g_roots := g_roots g, g_escapes := g_escapes g\<rparr>) = Inr g" .
  show ?thesis
    unfolding read_graph_def write_graph_def
    apply (rule gives_facts [OF gives_put_symbol h(1) small(1)], use small(6) in blast, assumption)
    apply (rule gives_facts [OF gives_put_edge h(2) small(2)], use wf(1) ids in blast, use wf(1) ids in blast, assumption)
    apply (rule gives_facts [OF gives_put_root h(3) small(3)], use wf(2) ids in blast, assumption)
    apply (rule gives_facts [OF gives_put_escape h(4) small(4)], rule escape_ids(1), assumption,
        rule escape_ids(2), assumption, assumption)
    apply (rule gives_last_facts [OF gives_put_suppression h(5) small(5)], use wf(4) ids in blast, assumption)
    done
qed

lemma gives_entry:
  assumes "graph_wf (te_graph e)" "small_entry e"
  shows "gives (read_fields key) (e\<lparr>te_graph := canonicalize (te_graph e)\<rparr>) (write_entry key e)"
proof -
  let ?g = "canonicalize (te_graph e)"
  have small: "te_ast_bytes e < 2 ^ 64" "te_fact_bytes e < 2 ^ 64" "length (te_dependencies e) \<le> 10000000"
    "length (te_matches e) \<le> 10000000" "length (te_hierarchy e) \<le> 10000000"
    "length (te_diagnostics e) \<le> 10000000" "\<forall>r \<in> set (te_hierarchy e). length (rh_bases r) \<le> 1000000"
    using assms(2) by (simp_all add: small_entry_def list_all_iff)
  have g: "gives read_graph ?g (write_graph ?g)"
    using gives_graph [OF graph_wf_canonicalize small_graph_canonicalize] assms by (simp add: small_entry_def)
  have spelled: "write_entry key e =
      (''cxx-dead-tu-cache '' @ to_string_nat cache_schema @ line_end @ put_quoted key @ line_end) @
      to_string_nat (te_ast_bytes e) @ blank_sep @ to_string_nat (te_fact_bytes e) @ line_end @
      write_list (\<lambda>d. put_quoted (cd_path d) @ blank_sep @ put_quoted (cd_digest d) @ line_end) (te_dependencies e) @
      write_list (\<lambda>b. put_bool b @ line_end) (te_matches e) @ write_list write_record (te_hierarchy e) @
      write_list (\<lambda>d. put_quoted d @ line_end) (te_diagnostics e) @ write_graph ?g"
    by (simp add: write_entry_def write_graph_def Let_def)
  show ?thesis
    unfolding read_fields_def spelled
    apply (rule gives_pair [OF gives_header])
    apply (rule seq_size, simp, simp, rule small(1), rule seq_size, simp, simp, rule small(2))
    apply (rule gives_list, simp add: gives_dependency, rule small(3))
    apply (rule gives_list, simp add: gives_match, rule small(4))
    apply (rule gives_list, use small(7) gives_record in blast, rule small(5))
    apply (rule gives_list, simp add: gives_quoted, rule small(6))
    apply (rule gives_last [OF g], rule gives_give_eq, simp)
    done
qed

lemma read_back_entry:
  assumes "graph_wf (te_graph e)" "small_entry e"
  shows "read_entry (write_entry key e) key = Inr (e\<lparr>te_graph := canonicalize (te_graph e)\<rparr>)"
proof -
  have "list_all stream_space []" by simp
  with gives_entry [OF assms, of key] obtain ws where "list_all stream_space ws"
    "read_fields key ([] @ write_entry key e @ []) = Inr (e\<lparr>te_graph := canonicalize (te_graph e)\<rparr>, ws @ [])"
    unfolding gives_def by blast
  moreover from this(1) have "skip_ws ws = []" by (simp add: skip_ws_def list_all_iff)
  ultimately show ?thesis by (simp add: read_entry_def)
qed

text \<open>
  C37: A stored entry reads back: the graph in canonical form and everything else unchanged,
  whatever bytes occur in the key, the names and the paths.
\<close>
theorem cache_entry_round_trip:
  assumes "graph_wf (te_graph e)" "small_entry e"
  shows "read_entry (write_entry key e) key = Inr (e\<lparr>te_graph := canonicalize (te_graph e)\<rparr>)"
  using assms by (rule read_back_entry)

definition sample_entry :: cache_entry where
  "sample_entry = \<lparr>te_graph = sample_unit, te_diagnostics = [''two words''], te_matches = [True, False],
     te_hierarchy = [\<lparr>rh_name = ''B'', rh_bases = [''A'']\<rparr>],
     te_dependencies = [\<lparr>cd_path = ''/a b.cpp'', cd_digest = ''0''\<rparr>], te_ast_bytes = 7, te_fact_bytes = 9\<rparr>"

lemma sample_entry_storable: "graph_wf (te_graph sample_entry)" "small_entry sample_entry"
proof -
  show "graph_wf (te_graph sample_entry)" using sample_unit_wf by (simp add: sample_entry_def)
  have "small_graph sample_unit"
    by (simp add: small_graph_def sample_unit_def small_symbol_def small_extent_def small_point_def sample_defs)
  then show "small_entry sample_entry" by (simp add: small_entry_def sample_entry_def)
qed

lemma cache_entry_round_trip_witness:
  "read_entry (write_entry ''k'' sample_entry) ''k'' =
     Inr (sample_entry\<lparr>te_graph := canonicalize sample_unit\<rparr>)"
  using cache_entry_round_trip [OF sample_entry_storable] by (simp add: sample_entry_def)

section \<open>Any text\<close>

lemma and_then_Inr: "and_then m f s = Inr r \<longleftrightarrow> (\<exists>x rest. m s = Inr (x, rest) \<and> f x rest = Inr r)"
  by (auto simp: and_then_def rbind_eq_Inr)

lemma lifted_Inr: "lifted r s = Inr (x, rest) \<longleftrightarrow> r = Inr x \<and> rest = s"
  by (auto simp: lifted_def rbind_eq_Inr)

definition keeps_wf :: "(graph \<Rightarrow> graph reader) \<Rightarrow> bool" where
  "keeps_wf item \<longleftrightarrow> (\<forall>g s g' s'. graph_wf g \<longrightarrow> item g s = Inr (g', s') \<longrightarrow> graph_wf g')"

lemma keeps_wf_loop:
  assumes "keeps_wf item" "graph_wf g" "read_into n item g s = Inr (g', s')"
  shows "graph_wf g'"
  using assms(2,3)
proof (induction n arbitrary: g s)
  case (Suc n)
  then obtain h t where h: "item g s = Inr (h, t)" "read_into n item h t = Inr (g', s')" by (auto simp: and_then_Inr)
  then have "graph_wf h" using assms(1) Suc.prems(1) unfolding keeps_wf_def by blast
  then show ?case using Suc.IH h(2) by blast
qed (simp add: give_def)

lemma keeps_wf_items:
  "keeps_wf read_symbol_into" "keeps_wf read_edge_into" "keeps_wf read_root_into"
  "keeps_wf read_escape_into" "keeps_wf read_suppression_into"
proof -
  show "keeps_wf read_symbol_into"
    by (auto simp: keeps_wf_def read_symbol_into_def and_then_Inr lifted_Inr rbind_eq_Inr dest: add_or_merge_symbol_wf)
  show "keeps_wf read_edge_into"
    using edge_writer.step_wf by (fastforce simp: keeps_wf_def read_edge_into_def and_then_Inr lifted_Inr Let_def)
  show "keeps_wf read_root_into"
    using root_writer.step_wf by (fastforce simp: keeps_wf_def read_root_into_def and_then_Inr lifted_Inr Let_def)
  show "keeps_wf read_escape_into"
    using escape_writer.step_wf by (fastforce simp: keeps_wf_def read_escape_into_def and_then_Inr lifted_Inr Let_def)
  show "keeps_wf read_suppression_into"
    using suppression_writer.step_wf by (fastforce simp: keeps_wf_def read_suppression_into_def and_then_Inr lifted_Inr)
qed

lemma read_graph_wf:
  assumes "read_graph s = Inr (g, s')"
  shows "graph_wf g"
proof -
  obtain n1 n2 n3 n4 n5 t1 t2 t3 t4 t5 g1 g2 g3 g4 u1 u2 u3 u4 where
    r: "read_into n1 read_symbol_into empty_graph t1 = Inr (g1, u1)" "read_into n2 read_edge_into g1 t2 = Inr (g2, u2)"
    "read_into n3 read_root_into g2 t3 = Inr (g3, u3)" "read_into n4 read_escape_into g3 t4 = Inr (g4, u4)"
    "read_into n5 read_suppression_into g4 t5 = Inr (g, s')"
    using assms unfolding read_graph_def and_then_Inr by blast
  note wf1 = keeps_wf_loop [OF keeps_wf_items(1) graph_wf_empty r(1)]
  note wf2 = keeps_wf_loop [OF keeps_wf_items(2) wf1 r(2)]
  note wf3 = keeps_wf_loop [OF keeps_wf_items(3) wf2 r(3)]
  note wf4 = keeps_wf_loop [OF keeps_wf_items(4) wf3 r(4)]
  show ?thesis by (rule keeps_wf_loop [OF keeps_wf_items(5) wf4 r(5)])
qed

lemma read_fields_parts:
  assumes "read_fields key t = Inr (e, rest)"
  shows "\<exists>s r r'. read_header key t = Inr s \<and> read_graph r = Inr (te_graph e, r')"
proof -
  obtain s r r' g where h: "read_header key t = Inr s" "read_graph r = Inr (g, r')"
    and e: "\<exists>d m h l a b. Inr (\<lparr>te_graph = g, te_diagnostics = d, te_matches = m, te_hierarchy = h,
      te_dependencies = l, te_ast_bytes = a, te_fact_bytes = b\<rparr>, r') = Inr (e, rest)"
    using assms unfolding read_fields_def and_then_Inr give_def by (elim exE conjE) (rule that, assumption, assumption, blast)
  from e have "te_graph e = g" by (elim exE) (simp, metis cache_entry.select_convs(1))
  then show ?thesis using h by blast
qed

lemma read_entry_parts:
  assumes "read_entry t key = Inr e"
  obtains s r r' where "read_header key t = Inr s" "read_graph r = Inr (te_graph e, r')"
  using assms read_fields_parts by (auto simp: read_entry_def rbind_eq_Inr split: if_splits) blast

lemma read_header_key:
  "read_header key t = Inr r \<Longrightarrow> read_header key' t = Inr r' \<Longrightarrow> key = key'"
  by (auto simp: read_header_def and_then_Inr Let_def reject_def split: if_splits)

lemma reader_safe:
  assumes "read_entry t key = Inr e"
  shows "graph_wf (te_graph e) \<and> (key' \<noteq> key \<longrightarrow> (\<exists>x. read_entry t key' = Inl x))"
proof (rule read_entry_parts [OF assms])
  fix s r r' assume r: "read_header key t = Inr s" "read_graph r = Inr (te_graph e, r')"
  have "key' = key" if "read_entry t key' = Inr e'" for e'
    using read_entry_parts [OF that] read_header_key [OF r(1)] by metis
  then show ?thesis using read_graph_wf [OF r(2)] by (cases "read_entry t key'") auto
qed

text \<open>
  No text makes the reader build an ill-formed graph, and a text is accepted under one key only:
  whatever happened to a file of the cache, it is refused or holds a well-formed entry for the
  key it was stored under.
\<close>
theorem cache_reader_safe:
  assumes "read_entry t key = Inr e"
  shows "graph_wf (te_graph e) \<and> (key' \<noteq> key \<longrightarrow> (\<exists>x. read_entry t key' = Inl x))"
  using assms by (rule reader_safe)


lemma cache_reader_safe_witness:
  "graph_wf (canonicalize sample_unit) \<and> (\<exists>x. read_entry (write_entry ''k'' sample_entry) ''other'' = Inl x)"
  using cache_reader_safe [OF read_back_entry [OF sample_entry_storable, of "''k''"], of "''other''"]
  by (simp add: sample_entry_def)

end
