(* ===== verification/Sha256_Facts.thy ===== *)
theory Sha256_Facts
  imports Sha256
begin

text \<open>
  The class computes the standard's function: the message is padded to whole blocks, the blocks
  are compressed one after the other, and the eight words are printed as 64 digits. The
  reference is written the way FIPS 180-4 states it, on the whole message and without a buffer.
\<close>

section \<open>The standard\<close>

fun message_word :: "byte list \<Rightarrow> nat \<Rightarrow> word32" where
  "message_word m t =
     (if t < 16 then big_endian_word m (4 * t)
      else
        (let small0 = \<lambda>x. word_rotr 7 x XOR word_rotr 18 x XOR drop_bit 3 x;
             small1 = \<lambda>x. word_rotr 17 x XOR word_rotr 19 x XOR drop_bit 10 x
         in small1 (message_word m (t - 2)) + message_word m (t - 7) +
            small0 (message_word m (t - 15)) + message_word m (t - 16)))"

declare message_word.simps [simp del]

definition compress :: "word32 list \<Rightarrow> byte list \<Rightarrow> word32 list" where
  "compress hash m =
     (let round = \<lambda>t (a, b, c, d, e, f, g, h).
            let big0 = word_rotr 2 a XOR word_rotr 13 a XOR word_rotr 22 a;
                big1 = word_rotr 6 e XOR word_rotr 11 e XOR word_rotr 25 e;
                ch = (e AND f) XOR (NOT e AND g);
                maj = (a AND b) XOR (a AND c) XOR (b AND c);
                t1 = h + big1 + ch + sha_constants ! t + message_word m t;
                t2 = big0 + maj
            in (t1 + t2, a, b, c, d + t1, e, f, g);
          (a, b, c, d, e, f, g, h) = fold round [0..<64]
            (hash ! 0, hash ! 1, hash ! 2, hash ! 3, hash ! 4, hash ! 5, hash ! 6, hash ! 7)
      in map2 (+) hash [a, b, c, d, e, f, g, h])"

fun message_blocks :: "byte list \<Rightarrow> byte list list" where
  "message_blocks m = (if length m < 64 then [] else take 64 m # message_blocks (drop 64 m))"

declare message_blocks.simps [simp del]

definition big_endian_64 :: "64 word \<Rightarrow> byte list" where
  "big_endian_64 n = map (\<lambda>shift. ucast (drop_bit shift n)) [56, 48, 40, 32, 24, 16, 8, 0]"

definition zero_padding :: "nat \<Rightarrow> nat" where
  "zero_padding n = (if n mod 64 \<le> 55 then 55 - n mod 64 else 119 - n mod 64)"

definition padded_message :: "string \<Rightarrow> byte list" where
  "padded_message input = map of_char input @ [0x80] @ replicate (zero_padding (length input)) 0 @
     big_endian_64 (of_nat (8 * length input))"

definition lower_hex_word :: "word32 \<Rightarrow> string" where
  "lower_hex_word w = map (\<lambda>k. lower_hex (unat w div 16 ^ k mod 16)) [7, 6, 5, 4, 3, 2, 1, 0]"

definition sha256_standard :: "string \<Rightarrow> string" where
  "sha256_standard input =
     concat (map lower_hex_word (fold (\<lambda>m hash. compress hash m) (message_blocks (padded_message input)) sha_initial))"

text \<open>The padding is the shortest that fills whole blocks.\<close>

lemma zero_padding_least:
  "(n + 1 + zero_padding n) mod 64 = 56 \<and> zero_padding n < 64"
proof -
  have r: "(n + 1 + zero_padding n) mod 64 = (n mod 64 + 1 + zero_padding n) mod 64"
    unfolding add.assoc by (rule mod_add_left_eq [symmetric])
  have "n mod 64 < 64" by simp
  then show ?thesis unfolding r by (auto simp: zero_padding_def)
qed

section \<open>One block\<close>

lemma expand_first:
  "n \<le> 16 \<Longrightarrow> fold (\<lambda>i ws. ws[i := big_endian_word buffer (i * 4)]) [0..<n] (replicate 64 0) =
     map (message_word buffer) [0..<n] @ replicate (64 - n) 0"
proof (induction n)
  case (Suc n)
  then have "replicate (64 - n) (0 :: word32) = 0 # replicate (64 - Suc n) 0"
    by (simp add: Suc_diff_Suc flip: replicate_Suc)
  with Suc show ?case
    by (simp add: list_update_append message_word.simps [of _ n] mult.commute)
qed simp

lemma expand_rest:
  "16 \<le> n \<Longrightarrow> n \<le> 64 \<Longrightarrow> fold expand_step [16..<n] (map (message_word buffer) [0..<16] @ replicate 48 0) =
     map (message_word buffer) [0..<n] @ replicate (64 - n) 0"
proof (induction n rule: dec_induct)
  case (step n)
  then have n: "16 \<le> n" "n < 64" by simp_all
  have r: "replicate (64 - n) (0 :: word32) = 0 # replicate (64 - Suc n) 0"
    using n by (simp add: Suc_diff_Suc flip: replicate_Suc)
  have "message_word buffer n = message_word buffer (n - 16) +
      (word_rotr 7 (message_word buffer (n - 15)) XOR word_rotr 18 (message_word buffer (n - 15)) XOR
        drop_bit 3 (message_word buffer (n - 15))) + message_word buffer (n - 7) +
      (word_rotr 17 (message_word buffer (n - 2)) XOR word_rotr 19 (message_word buffer (n - 2)) XOR
        drop_bit 10 (message_word buffer (n - 2)))"
    using n by (subst message_word.simps) (simp add: Let_def algebra_simps)
  then show ?case
    using step n by (simp add: r expand_step_def nth_append list_update_append Let_def)
qed simp

lemma expand_words_schedule: "expand_words buffer = map (message_word buffer) [0..<64]"
  using expand_first [of 16 buffer] expand_rest [of 64 buffer] by (simp add: expand_words_def)

lemma fold_cong_on:
  "(\<And>x s. x \<in> set xs \<Longrightarrow> f x s = g x s) \<Longrightarrow> fold f xs s = fold g xs s"
  by (induction xs arbitrary: s) auto

lemma transform_compress:
  assumes "length (hs_state s) = 8"
  shows "transform s = s\<lparr>hs_state := compress (hs_state s) (hs_buffer s)\<rparr>"
proof -
  let ?m = "hs_buffer s"
  have "fold (round_step (expand_words ?m)) [0..<64] w =
      fold (\<lambda>t (a, b, c, d, e, f, g, h).
            let big0 = word_rotr 2 a XOR word_rotr 13 a XOR word_rotr 22 a;
                big1 = word_rotr 6 e XOR word_rotr 11 e XOR word_rotr 25 e;
                ch = (e AND f) XOR (NOT e AND g);
                maj = (a AND b) XOR (a AND c) XOR (b AND c);
                t1 = h + big1 + ch + sha_constants ! t + message_word ?m t;
                t2 = big0 + maj
            in (t1 + t2, a, b, c, d + t1, e, f, g)) [0..<64] w" for w
    by (rule fold_cong_on) (simp add: round_step_def expand_words_schedule Let_def split: prod.splits)
  moreover obtain a b c d e f g h where "hs_state s = [a, b, c, d, e, f, g, h]"
    using assms by (auto simp: length_Suc_conv numeral_eq_Suc)
  ultimately show ?thesis
    by (simp add: transform_def compress_def Let_def split: prod.splits)
qed

lemma compress_length [simp]: "length hash = 8 \<Longrightarrow> length (compress hash m) = 8"
  by (simp add: compress_def split: prod.splits)

section \<open>The buffer\<close>

text \<open>
  The state after some input: the complete blocks are folded in, the rest is in the buffer, and
  the count is that of the bits of the complete blocks.
\<close>

definition absorbed :: "byte list \<Rightarrow> sha256_hash \<Rightarrow> bool" where
  "absorbed m s \<longleftrightarrow>
     length (hs_buffer s) = 64 \<and> hs_size s = length m mod 64 \<and>
     take (hs_size s) (hs_buffer s) = drop (length m - length m mod 64) m \<and>
     hs_state s = fold (\<lambda>m hash. compress hash m) (message_blocks (take (length m - length m mod 64) m)) sha_initial \<and>
     hs_bits s = of_nat (8 * (length m - length m mod 64))"

lemma message_blocks_append:
  assumes "length m mod 64 = 0" "length b = 64"
  shows "message_blocks (m @ b) = message_blocks m @ [b]"
  using assms
proof (induction m rule: message_blocks.induct)
  case (1 m)
  show ?case
  proof (cases "length m < 64")
    case True
    then have "m = []" using 1(2) by simp
    then show ?thesis
      using 1(3) by (simp add: message_blocks.simps [of b] message_blocks.simps [of "[]"])
  next
    case False
    then have "length (drop 64 m) mod 64 = 0" using 1(2) by (simp add: mod_if)
    from 1(1) [OF False this 1(3)] show ?thesis
      using False by (simp add: message_blocks.simps [of m] message_blocks.simps [of "m @ b"])
  qed
qed

lemma fold_compress_length [simp]:
  "length hash = 8 \<Longrightarrow> length (fold (\<lambda>m hash. compress hash m) ms hash) = 8"
  by (induction ms arbitrary: hash) simp_all

lemma absorbed_length: "absorbed m s \<Longrightarrow> length (hs_state s) = 8"
  by (simp add: absorbed_def sha_initial_def)

lemma absorbed_start: "absorbed [] sha_start"
  by (simp add: absorbed_def sha_start_def message_blocks.simps)

text \<open>Writing a byte to the buffer, and folding it in when it is full.\<close>

lemma take_update_next: "n < length xs \<Longrightarrow> take (Suc n) (xs[n := x]) = take n xs @ [x]"
  by (simp add: take_Suc_conv_app_nth)

lemma absorbed_byte:
  assumes "absorbed m s"
  shows "absorbed (m @ [of_char c]) (update_byte c s)"
proof -
  let ?n = "length m - length m mod 64"
  have a: "length (hs_buffer s) = 64" "hs_size s = length m mod 64"
    "take (hs_size s) (hs_buffer s) = drop ?n m"
    "hs_state s = fold (\<lambda>m hash. compress hash m) (message_blocks (take ?n m)) sha_initial"
    "hs_bits s = of_nat (8 * ?n)"
    using assms unfolding absorbed_def by blast+
  let ?buffer = "(hs_buffer s)[hs_size s := of_char c]"
  have tk: "take (Suc (hs_size s)) ?buffer = drop ?n m @ [of_char c]"
    using a(1-3) by (simp add: take_update_next)
  show ?thesis
  proof (cases "Suc (length m mod 64) = 64")
    case True
    then have full: "?buffer = drop ?n m @ [of_char c]" using tk a(1,2) by simp
    have len: "length (m @ [of_char c]) mod 64 = 0" using True by (simp add: mod_Suc)
    have "m @ [of_char c] = take ?n m @ ?buffer" unfolding full by simp
    moreover have "length (take ?n m) mod 64 = 0" by (simp add: minus_mod_eq_mult_div)
    ultimately have blocks: "message_blocks (m @ [of_char c]) = message_blocks (take ?n m) @ [?buffer]"
      using message_blocks_append [of "take ?n m" ?buffer] a(1) by simp
    have bits: "8 * length (m @ [of_char c :: byte]) = 8 * ?n + 512"
      using True by (simp add: algebra_simps)
    show ?thesis
      unfolding absorbed_def len
      using a True absorbed_length [OF assms] bits
      by (simp add: update_byte_def push_byte_def transform_compress blocks Let_def)
  next
    case False
    then have len: "length (m @ [of_char c]) mod 64 = Suc (length m mod 64)" by (simp add: mod_Suc)
    have n: "length (m @ [of_char c]) - Suc (length m mod 64) = ?n" by simp
    show ?thesis
      unfolding absorbed_def len n
      using a False tk by (simp add: update_byte_def push_byte_def Let_def)
  qed
qed

lemma absorbed_update: "absorbed m s \<Longrightarrow> absorbed (m @ map of_char input) (sha_update input s)"
proof (induction input arbitrary: m s)
  case (Cons c input)
  from Cons.IH [OF absorbed_byte [OF Cons.prems]] show ?case by (simp add: sha_update_def)
qed (simp add: sha_update_def)

section \<open>Padding\<close>

definition holds :: "byte list \<Rightarrow> word32 list \<Rightarrow> 64 word \<Rightarrow> sha256_hash \<Rightarrow> bool" where
  "holds p st n s \<longleftrightarrow> length (hs_buffer s) = 64 \<and> take (length p) (hs_buffer s) = p \<and>
     hs_size s = length p \<and> hs_state s = st \<and> hs_bits s = n"

lemma holds_push:
  assumes "holds p st n s" "length p < 64"
  shows "holds (p @ [b]) st n (push_byte b s)"
  using assms take_update_next [of "length p" "hs_buffer s" b] by (simp add: holds_def push_byte_def)

lemma holds_zeros:
  assumes "holds p st n s" "length p \<le> k" "k \<le> 64"
  shows "holds (p @ replicate (k - length p) 0) st n (fill_zeros k s)"
proof -
  have "holds (p @ replicate j 0) st n (fold (\<lambda>_. push_byte 0) [length p..<length p + j] s)"
    if "length p + j \<le> 64" for j
    using that
  proof (induction j)
    case (Suc j)
    then have "holds (p @ replicate j 0) st n (fold (\<lambda>_. push_byte 0) [length p..<length p + j] s)"
      by simp
    from holds_push [OF this, of 0] Suc.prems show ?case
      by (simp flip: replicate_append_same)
  qed (use assms(1) in simp)
  from this [of "k - length p"] show ?thesis
    using assms by (simp add: fill_zeros_def holds_def)
qed

lemma holds_length:
  assumes "holds p st n s" "length p = 56"
  shows "holds (p @ big_endian_64 n) st n
    (fold (\<lambda>shift s. push_byte (ucast (drop_bit shift (hs_bits s))) s) [56, 48, 40, 32, 24, 16, 8, 0] s)"
proof -
  have step: "holds (q @ [ucast (drop_bit k n)]) st n (push_byte (ucast (drop_bit k (hs_bits t))) t)"
    if "holds q st n t" "length q < 64" for q k t
    using holds_push [OF that] that(1) by (simp add: holds_def)
  have "holds (p @ map (\<lambda>shift. ucast (drop_bit shift n)) ks) st n
      (fold (\<lambda>shift s. push_byte (ucast (drop_bit shift (hs_bits s))) s) ks s)"
    if "length ks \<le> 8" for ks
    using that
  proof (induction ks rule: rev_induct)
    case (snoc k ks)
    then show ?case using step [of "p @ map (\<lambda>shift. ucast (drop_bit shift n)) ks" _ k] assms(2) by simp
  qed (use assms(1) in simp)
  from this [of "[56, 48, 40, 32, 24, 16, 8, 0]"] show ?thesis
    unfolding big_endian_64_def by (simp only: list.size)
qed

lemma big_endian_64_length [simp]: "length (big_endian_64 n) = 8"
  by (simp add: big_endian_64_def)

lemma holds_transform:
  assumes "holds p st n s" "length p = 64" "length st = 8"
  shows "hs_state (transform s) = compress st p" "holds [] (compress st p) n ((transform s)\<lparr>hs_size := 0\<rparr>)"
proof -
  have "hs_buffer s = p" "hs_state s = st" "hs_bits s = n" "length (hs_buffer s) = 64"
    using assms(1,2) by (auto simp: holds_def)
  then show "hs_state (transform s) = compress st p" "holds [] (compress st p) n ((transform s)\<lparr>hs_size := 0\<rparr>)"
    using assms(3) by (simp_all add: holds_def transform_compress)
qed

text \<open>The words at the end, from the state after the whole input.\<close>

lemma finish_state:
  assumes "holds r st n s" "length r < 64" "length st = 8"
  defines "s1 \<equiv> push_byte 0x80 s"
  defines "s2 \<equiv> (if hs_size s1 > 56 then (transform (fill_zeros 64 s1))\<lparr>hs_size := 0\<rparr> else s1)"
  shows "hs_state (transform (fold (\<lambda>shift s. push_byte (ucast (drop_bit shift (hs_bits s))) s)
      [56, 48, 40, 32, 24, 16, 8, 0] (fill_zeros 56 s2))) =
    (if length r \<le> 55
     then compress st (r @ [0x80] @ replicate (55 - length r) 0 @ big_endian_64 n)
     else compress (compress st (r @ [0x80] @ replicate (63 - length r) 0))
            (replicate 56 0 @ big_endian_64 n))"
proof -
  have s1: "holds (r @ [0x80]) st n s1" using assms(1,2) by (simp add: s1_def holds_push)
  show ?thesis
  proof (cases "length r \<le> 55")
    case True
    then have "s2 = s1" using s1 by (simp add: s2_def holds_def)
    with holds_zeros [OF s1, of 56] True
    have "holds (r @ [0x80] @ replicate (55 - length r) 0) st n (fill_zeros 56 s2)" by simp
    from holds_transform(1) [OF holds_length [OF this]] True assms(3) show ?thesis by simp
  next
    case False
    have "holds (r @ [0x80] @ replicate (63 - length r) 0) st n (fill_zeros 64 s1)"
      using holds_zeros [OF s1, of 64] assms(2) by simp
    from holds_transform(2) [OF this _ assms(3)] False assms(2) s1
    have "holds [] (compress st (r @ [0x80] @ replicate (63 - length r) 0)) n s2"
      by (simp add: s2_def holds_def [of "r @ [0x80]"])
    from holds_zeros [OF this, of 56]
    have "holds (replicate 56 0) (compress st (r @ [0x80] @ replicate (63 - length r) 0)) n (fill_zeros 56 s2)"
      by simp
    from holds_transform(1) [OF holds_length [OF this]] False assms(3) show ?thesis by simp
  qed
qed

section \<open>Digits\<close>

lemma hex_numeral_padded:
  "n < 16 ^ k \<Longrightarrow> 0 < k \<Longrightarrow> length (hex_numeral n) \<le> k \<and>
     replicate (k - length (hex_numeral n)) CHR ''0'' @ hex_numeral n =
     map (\<lambda>j. lower_hex (n div 16 ^ j mod 16)) (rev [0..<k])"
proof (induction n arbitrary: k rule: hex_numeral.induct)
  case (1 n)
  then obtain k' where k: "k = Suc k'" by (cases k) auto
  have shift: "map (\<lambda>j. lower_hex (n div 16 ^ j mod 16)) (rev [0..<k]) =
      map (\<lambda>j. lower_hex (n div 16 div 16 ^ j mod 16)) (rev [0..<k']) @ [lower_hex (n mod 16)]"
    unfolding k upt_conv_Cons [OF zero_less_Suc] map_Suc_upt [symmetric]
    by (simp add: rev_map div_mult2_eq comp_def)
  show ?case
  proof (cases "n < 16")
    case True
    then have "n div 16 = 0" by simp
    moreover have "lower_hex 0 = CHR ''0''" by (simp add: lower_hex_def)
    ultimately have "map (\<lambda>j. lower_hex (n div 16 div 16 ^ j mod 16)) (rev [0..<k']) = replicate k' CHR ''0''"
      by (simp add: map_replicate_const)
    then show ?thesis using True unfolding shift by (simp add: hex_numeral.simps [of n] k)
  next
    case False
    then have k': "0 < k'" using 1(2) by (cases k') (simp_all add: k)
    have "n div 16 < 16 ^ k'" using 1(2) by (simp add: k less_mult_imp_div_less mult.commute)
    from 1(1) [OF False this k'] show ?thesis
      using False unfolding shift by (simp add: hex_numeral.simps [of n] k)
  qed
qed

lemma hex_padded_word: "hex_padded w = lower_hex_word w"
proof -
  have "unat w < 16 ^ 8" using unsigned_less [of w] by simp
  moreover have "rev [0..<8] = [7, 6, 5, 4, 3, 2, 1, 0 :: nat]" by code_simp
  ultimately show ?thesis
    using hex_numeral_padded [of "unat w" 8] unfolding hex_padded_def lower_hex_word_def by simp
qed

section \<open>The whole message\<close>

lemma message_blocks_empty [simp]: "message_blocks [] = []"
  by (simp add: message_blocks.simps)

lemma message_blocks_one: "length b = 64 \<Longrightarrow> message_blocks b = [b]"
  using message_blocks_append [of "[]" b] by simp

text \<open>
  C36: The class computes SHA-256: for every input, of whatever length, the buffer, the padding and
  the wrapping count of bits give the digest that the standard defines on the whole message.
\<close>
theorem sha256_is_standard: "sha256 input = sha256_standard input"
proof -
  let ?m = "map of_char input :: byte list"
  let ?n = "length ?m - length ?m mod 64"
  let ?r = "drop ?n ?m"
  let ?s = "sha_update input sha_start"
  let ?fold = "\<lambda>ms. fold (\<lambda>m hash. compress hash m) ms sha_initial"
  let ?st = "?fold (message_blocks (take ?n ?m))"
  let ?bits = "of_nat (8 * length input) :: 64 word"
  have ab: "absorbed ?m ?s" using absorbed_update [OF absorbed_start, of input] by simp
  have r: "length ?r = length input mod 64" by simp
  have st: "length ?st = 8" by (simp add: sha_initial_def)
  have size: "hs_size ?s = length ?r" using ab by (simp add: absorbed_def)
  have total: "8 * length input = 8 * ?n + length ?r * 8" by (simp add: algebra_simps)
  have "hs_bits ?s = of_nat (8 * ?n)" using ab unfolding absorbed_def by blast
  then have bits: "hs_bits ?s + of_nat (hs_size ?s) * 8 = ?bits"
    unfolding size total by (simp only: of_nat_add of_nat_mult of_nat_numeral)
  have "holds ?r ?st ?bits (?s\<lparr>hs_bits := ?bits\<rparr>)"
  proof -
    have "length (hs_buffer ?s) = 64" "take (hs_size ?s) (hs_buffer ?s) = ?r" "hs_state ?s = ?st"
      using ab unfolding absorbed_def by blast+
    then show ?thesis using size unfolding holds_def by simp
  qed
  note finish = finish_state [OF this _ st]
  have whole: "length (take ?n ?m) mod 64 = 0" by (simp add: minus_mod_eq_mult_div)
  have msg: "padded_message input = take ?n ?m @ (?r @ [0x80] @ replicate (zero_padding (length input)) 0 @ big_endian_64 ?bits)"
  proof -
    have "padded_message input = (take ?n ?m @ ?r) @ [0x80] @ replicate (zero_padding (length input)) 0 @ big_endian_64 ?bits"
      by (simp only: padded_message_def append_take_drop_id)
    then show ?thesis by (simp only: append.assoc)
  qed
  have "sha256 input = concat (map hex_padded (?fold (message_blocks (padded_message input))))"
  proof (cases "length ?r \<le> 55")
    case True
    let ?b = "?r @ [0x80] @ replicate (55 - length ?r) 0 @ big_endian_64 ?bits"
    have "zero_padding (length input) = 55 - length ?r" using True r by (simp add: zero_padding_def)
    then have "padded_message input = take ?n ?m @ ?b" by (simp only: msg)
    moreover have "length ?b = 64" using True by simp
    ultimately have "message_blocks (padded_message input) = message_blocks (take ?n ?m) @ [?b]"
      using message_blocks_append [OF whole, of ?b] by simp
    then show ?thesis
      using finish True unfolding sha256_def sha_finish_def Let_def bits by simp
  next
    case False
    let ?b1 = "?r @ [0x80] @ replicate (63 - length ?r) 0"
    let ?b2 = "replicate 56 0 @ big_endian_64 ?bits"
    have lr: "length ?r < 64" using r by simp
    have "zero_padding (length input) = (63 - length ?r) + 56"
      using False lr r by (simp add: zero_padding_def)
    then have "padded_message input = (take ?n ?m @ ?b1) @ ?b2"
      by (simp only: msg replicate_add append.assoc)
    moreover have l: "length ?b1 = 64" "length ?b2 = 64" using False lr by simp_all
    moreover have "length (take ?n ?m @ ?b1) mod 64 = 0"
      unfolding length_append [of "take ?n ?m" ?b1] l(1) using whole by (simp only: mod_add_self2)
    ultimately have "message_blocks (padded_message input) = message_blocks (take ?n ?m) @ [?b1, ?b2]"
      using message_blocks_append [of "take ?n ?m @ ?b1" ?b2] message_blocks_append [OF whole l(1)] by simp
    then show ?thesis
      using finish False unfolding sha256_def sha_finish_def Let_def bits by simp
  qed
  then show ?thesis by (simp add: sha256_standard_def hex_padded_word cong: map_cong)
qed

lemma lower_hex_word_form:
  "length (lower_hex_word w) = 8 \<and> set (lower_hex_word w) \<subseteq> set ''0123456789abcdef''"
proof -
  have "lower_hex n \<in> set ''0123456789abcdef''" if "n < 16" for n
    unfolding lower_hex_def by (rule nth_mem) (use that in simp)
  then show ?thesis by (auto simp only: lower_hex_word_def list.set_map length_map) auto
qed

lemma sha256_form:
  "length (sha256 input) = 64 \<and> set (sha256 input) \<subseteq> set ''0123456789abcdef''"
proof -
  let ?st = "fold (\<lambda>m hash. compress hash m) (message_blocks (padded_message input)) sha_initial"
  have "length ?st = 8" by (simp add: sha_initial_def)
  then have "length (concat (map lower_hex_word ?st)) = 64"
    using lower_hex_word_form by (simp add: length_concat comp_def sum_list_triv)
  moreover have "set (concat (map lower_hex_word ?st)) \<subseteq> set ''0123456789abcdef''"
    using lower_hex_word_form by (simp only: set_concat set_map) blast
  ultimately show ?thesis by (simp add: sha256_is_standard sha256_standard_def)
qed

end
