(* ===== verification/Cache_Facts.thy ===== *)
theory Cache_Facts
  imports Cache Cache_Entry_Facts Sha256_Facts Symbol_Keys
begin

text \<open>
  What the cache promises: a returned entry is the one stored under the key and every file it
  was computed from is unchanged; the key determines everything that was put into it; the paths
  of a dependency file are read back.
\<close>

section \<open>Digests of files\<close>

lemma concat_pieces: "0 < n \<Longrightarrow> concat (pieces n s) = s"
  by (induction n s rule: pieces.induct) (subst pieces.simps, simp)

lemma sha_update_pieces: "fold sha_update ps s = sha_update (concat ps) s"
  by (induction ps arbitrary: s) (simp_all add: sha_update_def)

lemma sha256_file_Inr:
  "sha256_file fs path = Inr d \<longleftrightarrow> (\<exists>contents. fs_read fs path = Contents contents \<and> d = sha256 contents)"
  by (auto simp: sha256_file_def sha_update_pieces concat_pieces sha256_def split: read_result.splits)

lemma sha256_digest_form: "digest_form (sha256 contents)"
proof -
  have "\<forall>c \<in> set ''0123456789abcdef''. (CHR ''0'' \<le> c \<and> c \<le> CHR ''9'') \<or> (CHR ''a'' \<le> c \<and> c \<le> CHR ''f'')"
    by code_simp
  then show ?thesis
    using sha256_form [of contents] unfolding digest_form_def list_all_iff by blast
qed

section \<open>Looking an entry up\<close>

definition unchanged :: "filesystem \<Rightarrow> cache_dependency \<Rightarrow> bool" where
  "unchanged fs d \<longleftrightarrow> (\<exists>contents. fs_read fs (cd_path d) = Contents contents \<and> sha256 contents = cd_digest d)"

lemma dependencies_current_True:
  "dependencies_current fs ds = Inr True \<longleftrightarrow> (\<forall>d \<in> set ds. unchanged fs d)"
proof (induction ds)
  case (Cons d ds)
  show ?case
  proof (cases "sha256_file fs (cd_path d)")
    case (Inl e)
    then have "\<not> unchanged fs d" by (auto simp: unchanged_def sha256_file_def split: read_result.splits)
    then show ?thesis using Inl by simp
  next
    case (Inr digest)
    then obtain contents where "fs_read fs (cd_path d) = Contents contents" "digest = sha256 contents"
      by (auto simp: sha256_file_Inr)
    then have "unchanged fs d \<longleftrightarrow> digest = cd_digest d" by (auto simp: unchanged_def)
    moreover have "digest = cd_digest d \<Longrightarrow> digest_form (cd_digest d)"
      using sha256_digest_form [of contents] \<open>digest = sha256 contents\<close> by simp
    ultimately show ?thesis using Inr Cons by auto
  qed
qed simp

definition names_source :: "filesystem \<Rightarrow> string \<Rightarrow> cache_entry \<Rightarrow> bool" where
  "names_source fs source e \<longleftrightarrow>
     (\<exists>d \<in> set (te_dependencies e). path_key (cd_path d) = path_key (lexically_normal (absolute fs source)))"

lemma validate_entry_Inr:
  "validate_entry fs serialized key source = Inr (Some e) \<longleftrightarrow>
     read_entry serialized key = Inr e \<and> names_source fs source e \<and> (\<forall>d \<in> set (te_dependencies e). unchanged fs d)"
proof -
  have some: "rbind (dependencies_current fs ds) (\<lambda>current. Inr (if current then Some x else None)) = Inr (Some e) \<longleftrightarrow>
      dependencies_current fs ds = Inr True \<and> x = e" for ds x
    by (auto simp: rbind_eq_Inr split: if_splits)
  show ?thesis
  proof (cases "read_entry serialized key")
    case (Inl x)
    then show ?thesis by (simp add: validate_entry_def)
  next
    case (Inr x)
    have "(te_dependencies x = [] \<or> \<not> list_ex (\<lambda>d. path_key (cd_path d) =
        path_key (lexically_normal (absolute fs source))) (te_dependencies x)) \<longleftrightarrow> \<not> names_source fs source x"
      by (auto simp: names_source_def list_ex_iff)
    then show ?thesis
      using Inr by (auto simp: validate_entry_def some dependencies_current_True Let_def)
  qed
qed

lemma looked_up:
  assumes "lr_entry (load_translation_unit_cache mc directory key source) = Some e"
  shows "\<exists>contents. fs_read (mc_files mc) (entry_path directory key) = Contents contents \<and>
    read_entry contents key = Inr e \<and> names_source (mc_files mc) source e \<and>
    (\<forall>d \<in> set (te_dependencies e). unchanged (mc_files mc) d) \<and> graph_wf (te_graph e)"
proof -
  let ?path = "entry_path directory key"
  have "fs_read (mc_files mc) ?path \<noteq> Cannot_Open"
    using assms by (auto simp: load_translation_unit_cache_def Let_def split: if_splits)
  then obtain contents where contents: "contents = (case fs_read (mc_files mc) ?path of Contents t \<Rightarrow> t | _ \<Rightarrow> [])"
    "validate_entry (mc_files mc) contents key source = Inr (Some e)"
    using assms by (auto simp: load_translation_unit_cache_def Let_def split: if_splits read_result.splits sum.splits)
  note e = contents(2) [unfolded validate_entry_Inr]
  moreover have "graph_wf (te_graph e)" using reader_safe [of contents key e] e by blast
  moreover have "contents \<noteq> []"
  proof
    assume "contents = []"
    then have "read_entry contents key = Inl (Runtime_Error ''cache header, schema, or key mismatch'')"
      by (simp add: read_entry_def read_fields_def read_header_def and_then_def extraction_def get_word_def
          skip_ws_def Let_def)
    with e show False by simp
  qed
  then have "fs_read (mc_files mc) ?path = Contents contents"
    using contents(1) by (cases "fs_read (mc_files mc) ?path") simp_all
  ultimately show ?thesis by blast
qed

text \<open>
  C32: A cache hit is sound: an entry is returned only if the file of that key holds it, it names the
  source that is asked for, and every file the facts were computed from still has the contents
  whose digest was recorded. In particular its graph is well formed.
\<close>
theorem cache_hit_sound:
  assumes "lr_entry (load_translation_unit_cache mc directory key source) = Some e"
  shows "\<exists>contents. fs_read (mc_files mc) (entry_path directory key) = Contents contents \<and>
    read_entry contents key = Inr e \<and> names_source (mc_files mc) source e \<and>
    (\<forall>d \<in> set (te_dependencies e). unchanged (mc_files mc) d) \<and> graph_wf (te_graph e)"
  by (rule looked_up [OF assms])


lemma lookup_stored:
  assumes "graph_wf (te_graph e)" "small_entry e"
    and "mc_exists mc (entry_path directory key)"
    and "fs_read (mc_files mc) (entry_path directory key) = Contents (write_entry key e)"
  shows "lr_entry (load_translation_unit_cache mc directory key source) =
    (if names_source (mc_files mc) source e \<and> (\<forall>d \<in> set (te_dependencies e). unchanged (mc_files mc) d)
     then Some (e\<lparr>te_graph := canonicalize (te_graph e)\<rparr>) else None)"
proof -
  let ?e = "e\<lparr>te_graph := canonicalize (te_graph e)\<rparr>"
  let ?text = "write_entry key e"
  have "validate_entry (mc_files mc) ?text key source = Inr (Some x) \<longleftrightarrow> x = ?e \<and>
      names_source (mc_files mc) source e \<and> (\<forall>d \<in> set (te_dependencies e). unchanged (mc_files mc) d)" for x
    unfolding validate_entry_Inr read_back_entry [OF assms(1,2)] by (auto simp: names_source_def)
  moreover have "lr_entry (load_translation_unit_cache mc directory key source) =
      (case validate_entry (mc_files mc) ?text key source of Inl _ \<Rightarrow> None | Inr x \<Rightarrow> x)"
    using assms(3,4) by (simp add: load_translation_unit_cache_def Let_def split: sum.splits)
  ultimately have hit: "lr_entry (load_translation_unit_cache mc directory key source) = Some x \<longleftrightarrow> x = ?e \<and>
      names_source (mc_files mc) source e \<and> (\<forall>d \<in> set (te_dependencies e). unchanged (mc_files mc) d)" for x
    by (auto split: sum.splits)
  show ?thesis
  proof (cases "lr_entry (load_translation_unit_cache mc directory key source)")
    case None
    then show ?thesis using hit [of ?e] by simp
  next
    case (Some x)
    then show ?thesis using hit [of x] by simp
  qed
qed

text \<open>
  A stored entry is found again exactly as long as it is valid: once its contents is the file of its
  key, a lookup returns it, with the graph in canonical form, if and only if it names the source
  and no dependency has changed.
\<close>
theorem cache_hit_exact:
  assumes "graph_wf (te_graph e)" "small_entry e"
    and "mc_exists mc (entry_path directory key)"
    and "fs_read (mc_files mc) (entry_path directory key) = Contents (write_entry key e)"
  shows "lr_entry (load_translation_unit_cache mc directory key source) =
    (if names_source (mc_files mc) source e \<and> (\<forall>d \<in> set (te_dependencies e). unchanged (mc_files mc) d)
     then Some (e\<lparr>te_graph := canonicalize (te_graph e)\<rparr>) else None)"
  using assms by (rule lookup_stored)

section \<open>A cache with one entry\<close>

definition cached_unit :: cache_entry where
  "cached_unit = sample_entry\<lparr>te_dependencies := [\<lparr>cd_path = ''/s/a.cpp'', cd_digest = sha256 ''int x;''\<rparr>]\<rparr>"

definition cache_files :: filesystem where
  "cache_files = \<lparr>fs_cwd = ''/'',
     fs_read = (\<lambda>p. if p = ''/c/v1/k1/k1.cache'' then Contents (write_entry ''k1'' cached_unit)
       else if p = ''/s/a.cpp'' then Contents ''int x;'' else Cannot_Open),
     fs_size = (\<lambda>p. None), fs_regular = (\<lambda>p. True), fs_canonical = (\<lambda>p. p)\<rparr>"

definition sample_machine :: machine where
  "sample_machine = \<lparr>mc_files = cache_files, mc_exists = (\<lambda>p. p = ''/c/v1/k1/k1.cache''), mc_modified = (\<lambda>p. None),
     mc_symlink = (\<lambda>p. None), mc_variable = (\<lambda>v. if v = ''LANG'' then Some ''C'' else None)\<rparr>"

lemma cached_unit_storable: "graph_wf (te_graph cached_unit)" "small_entry cached_unit"
  using sample_entry_storable by (simp_all add: cached_unit_def small_entry_def)

lemma sample_entry_path: "entry_path ''/c'' ''k1'' = ''/c/v1/k1/k1.cache''"
  by code_simp

lemma sample_stored:
  "mc_exists sample_machine (entry_path ''/c'' ''k1'')"
  "fs_read (mc_files sample_machine) (entry_path ''/c'' ''k1'') = Contents (write_entry ''k1'' cached_unit)"
  "names_source (mc_files sample_machine) ''/s/a.cpp'' cached_unit"
  "\<forall>d \<in> set (te_dependencies cached_unit). unchanged (mc_files sample_machine) d"
proof -
  have "lexically_normal ''/s/a.cpp'' = ''/s/a.cpp''" "is_absolute ''/s/a.cpp''" by code_simp+
  then show "names_source (mc_files sample_machine) ''/s/a.cpp'' cached_unit"
    by (simp add: names_source_def cached_unit_def absolute_def)
qed (simp_all add: sample_machine_def cache_files_def sample_entry_path cached_unit_def unchanged_def)

lemma cache_hit_exact_witness:
  "lr_entry (load_translation_unit_cache sample_machine ''/c'' ''k1'' ''/s/a.cpp'') =
     Some (cached_unit\<lparr>te_graph := canonicalize (te_graph cached_unit)\<rparr>)"
  using cache_hit_exact [OF cached_unit_storable sample_stored(1,2), of "''/s/a.cpp''"] sample_stored(3,4) by simp

lemma cache_hit_sound_witness:
  "graph_wf (canonicalize (te_graph cached_unit)) \<and>
   fs_read (mc_files sample_machine) (entry_path ''/c'' ''k1'') \<noteq> Cannot_Open"
proof -
  have "lr_entry (load_translation_unit_cache sample_machine ''/c'' ''k1'' ''/s/a.cpp'') =
     Some (cached_unit\<lparr>te_graph := canonicalize (te_graph cached_unit)\<rparr>)"
    using lookup_stored [OF cached_unit_storable sample_stored(1,2), of "''/s/a.cpp''"] sample_stored(3,4) by simp
  from cache_hit_sound [OF this] show ?thesis by auto
qed

section \<open>Keys\<close>

lemma key_component_cancel:
  assumes "key_component n v @ r = key_component n' v' @ r'"
  shows "n = n' \<and> v = v' \<and> r = r'"
proof -
  have "n = n' \<and> to_string_nat (length v) @ CHR '':'' # v @ r = to_string_nat (length v') @ CHR '':'' # v' @ r'"
    using assms by (intro length_prefix_cancel) (simp add: key_component_def)
  then show ?thesis using length_prefix_cancel by blast
qed

lemma components_text_inject: "components_text a = components_text b \<Longrightarrow> a = b"
proof (induction a arbitrary: b)
  case Nil
  have "key_component n v \<noteq> []" for n v by (simp add: key_component_def)
  with Nil show ?case by (cases b) (auto simp: components_text_def)
next
  case (Cons p a)
  obtain n v where p: "p = (n, v)" by force
  have "key_component n v \<noteq> []" by (simp add: key_component_def)
  with Cons.prems obtain n' v' b' where b: "b = (n', v') # b'"
    by (cases b) (auto simp: components_text_def p)
  have "key_component n v @ components_text a = key_component n' v' @ components_text b'"
    using Cons.prems by (simp add: components_text_def p b)
  from key_component_cancel [OF this] show ?case using Cons.IH by (simp add: p b)
qed

text \<open>Two lists that agree, each split where the names leave a set, agree part by part.\<close>

lemma split_names:
  assumes "a @ r = b @ s" "fst ` set a \<subseteq> N" "fst ` set b \<subseteq> N"
    "r \<noteq> [] \<Longrightarrow> fst (hd r) \<notin> N" "s \<noteq> [] \<Longrightarrow> fst (hd s) \<notin> N"
  shows "a = b \<and> r = s"
proof -
  have tw: "takeWhile (\<lambda>p. fst p \<in> N) (x @ y) = x" if "fst ` set x \<subseteq> N" "y \<noteq> [] \<Longrightarrow> fst (hd y) \<notin> N"
    for x y :: "('a \<times> 'b) list"
  proof -
    have "takeWhile (\<lambda>p. fst p \<in> N) y = []" using that(2) by (cases y) auto
    moreover have "\<And>p. p \<in> set x \<Longrightarrow> fst p \<in> N" using that(1) by blast
    ultimately show ?thesis using takeWhile_append2 [of x "\<lambda>p. fst p \<in> N" y] by simp
  qed
  have "a = b" using tw [OF assms(2,4)] tw [OF assms(3,5)] assms(1) by simp
  then show ?thesis using assms(1) by simp
qed

lemma path_components_cancel:
  "path_components i n a @ r = path_components i n b @ s \<Longrightarrow> a = b \<and> r = s"
proof -
  assume eq: "path_components i n a @ r = path_components i n b @ s"
  then have len: "length a = length b" and rest: "map (Pair i) a @ r = map (Pair i) b @ s"
    by (simp_all add: path_components_def)
  from rest len have "map (Pair i) a = map (Pair i) b \<and> r = s" by (simp add: append_eq_append_conv)
  moreover have "inj (Pair i :: string \<Rightarrow> _)" by (simp add: inj_def)
  ultimately show "a = b \<and> r = s" by (simp add: inj_map_eq_map)
qed

lemma flag_inject [simp]: "flag a = flag b \<longleftrightarrow> a = b"
  by (simp add: flag_def)

lemma frontend_string_inject [simp]: "index_frontend_to_string a = index_frontend_to_string b \<longleftrightarrow> a = b"
  by (cases a; cases b) simp_all

text \<open>What a rule puts into the key.\<close>

definition rule_view :: "callback_rule \<Rightarrow> string \<times> nat \<times> evidence" where
  "rule_view r = (describe (cr_callee r), cr_argument_index r, cr_evidence r)"

lemma rule_components_view: "rule_components a = rule_components b \<longleftrightarrow> rule_view a = rule_view b"
  by (cases "cr_evidence a"; cases "cr_evidence b") (auto simp: rule_components_def rule_view_def)

lemma rule_components_cancel:
  "rule_components x @ r = rule_components y @ s \<Longrightarrow> rule_components x = rule_components y \<and> r = s"
  by (simp add: rule_components_def)

lemma concat_rules_view:
  "concat (map rule_components a) = concat (map rule_components b) \<Longrightarrow> map rule_view a = map rule_view b"
proof (induction a arbitrary: b)
  case Nil
  then show ?case by (cases b) (simp_all add: rule_components_def)
next
  case (Cons x a)
  then obtain y b' where b: "b = y # b'" by (cases b) (simp_all add: rule_components_def)
  have "rule_components x = rule_components y \<and> concat (map rule_components a) = concat (map rule_components b')"
    using Cons.prems unfolding b by (intro rule_components_cancel) simp
  then show ?case using Cons.IH by (simp add: b rule_components_view)
qed

lemma variables_agree:
  "variable_components mc = variable_components mc' \<Longrightarrow> n \<in> set key_variables \<Longrightarrow> mc_variable mc n = mc_variable mc' n"
proof -
  assume eq: "variable_components mc = variable_components mc'" and n: "n \<in> set key_variables"
  have mem: "(n, v) \<in> set (variable_components m) \<longleftrightarrow> mc_variable m n = Some v" for v m
    using n by (auto simp: variable_components_def split: option.splits)
  show ?thesis using mem [of _ mc] mem [of _ mc'] eq by (metis not_Some_eq)
qed

text \<open>The inputs of the command with their digests.\<close>

definition input_digests :: "filesystem \<Rightarrow> compile_command \<Rightarrow> (string \<times> string result) list" where
  "input_digests fs command = map (\<lambda>p. (p, sha256_file fs p)) (cc_inputs command)"

definition input_parts :: "string \<times> string result \<Rightarrow> key_parts" where
  "input_parts = (\<lambda>(p, d). [(''command_input_path'', p), (''command_input_digest'', case d of Inr d \<Rightarrow> d | Inl _ \<Rightarrow> [])])"

lemma inputs_read:
  "map_result (\<lambda>input. rbind (sha256_file fs input) (\<lambda>d.
      Inr [(''command_input_path'', input), (''command_input_digest'', d)])) inputs = Inr parts \<Longrightarrow>
    (\<forall>p \<in> set inputs. \<exists>d. sha256_file fs p = Inr d) \<and>
    concat parts = concat (map input_parts (map (\<lambda>p. (p, sha256_file fs p)) inputs))"
  by (induction inputs arbitrary: parts) (auto simp: rbind_eq_Inr input_parts_def)

lemma concat_inputs:
  assumes "concat (map input_parts a) = concat (map input_parts b)"
    "\<forall>(p, d) \<in> set a. \<exists>x. d = Inr x" "\<forall>(p, d) \<in> set b. \<exists>x. d = Inr x"
  shows "a = b"
  using assms
proof (induction a arbitrary: b)
  case Nil
  then show ?case by (cases b) (auto simp: input_parts_def)
next
  case (Cons x a)
  then obtain y b' where b: "b = y # b'" by (cases b) (auto simp: input_parts_def)
  obtain p d q e where x: "x = (p, Inr d)" "y = (q, Inr e)" using Cons.prems(2,3) by (auto simp: b)
  have "p = q \<and> d = e \<and> concat (map input_parts a) = concat (map input_parts b')"
    using Cons.prems(1) unfolding b x by (simp add: input_parts_def)
  then show ?case using Cons.IH [of b'] Cons.prems(2,3) by (simp add: b x)
qed

definition compiler_view :: "machine \<Rightarrow> index_options \<Rightarrow> index_frontend \<Rightarrow> key_parts" where
  "compiler_view mc options frontend = (if frontend = Ast_Json then compiler_components mc options else [])"

lemma compiler_names: "fst ` set (compiler_view mc options frontend) \<subseteq> {''clang_path'', ''clang_digest''}"
  by (auto simp: compiler_view_def compiler_components_def split: option.splits)

lemma input_names: "fst ` set (concat (map input_parts a)) \<subseteq> {''command_input_path'', ''command_input_digest''}"
  by (auto simp: input_parts_def)

lemma rule_names: "fst ` set (concat (map rule_components a)) \<subseteq> {''callback'', ''argument'', ''provider'', ''reason''}"
  by (auto simp: rule_components_def)

lemma variable_names:
  assumes "variable_components mc \<noteq> []"
  shows "fst (hd (variable_components mc)) \<notin> {''callback'', ''argument'', ''provider'', ''reason''}"
proof -
  have "fst ` set (variable_components mc) \<subseteq> set key_variables"
    by (auto simp: variable_components_def split: option.splits)
  then have "fst (hd (variable_components mc)) \<in> set key_variables" using assms by auto
  moreover have "set key_variables \<inter> {''callback'', ''argument'', ''provider'', ''reason''} = {}" by code_simp
  ultimately show ?thesis by blast
qed

text \<open>The tail of a key, from the arguments on.\<close>

lemma key_tail_agrees:
  assumes "path_components ''value'' ''arguments'' a @ concat (map input_parts i) @
      path_components ''path'' ''report_paths'' p1 @ path_components ''path'' ''excluded_paths'' p2 @
      path_components ''path'' ''selected_sources'' p3 @ path_components ''path'' ''public_headers'' p4 @
      concat (map rule_components r) @ variable_components mc =
    path_components ''value'' ''arguments'' a' @ concat (map input_parts i') @
      path_components ''path'' ''report_paths'' p1' @ path_components ''path'' ''excluded_paths'' p2' @
      path_components ''path'' ''selected_sources'' p3' @ path_components ''path'' ''public_headers'' p4' @
      concat (map rule_components r') @ variable_components mc'"
    "\<forall>(p, d) \<in> set i. \<exists>x. d = Inr x" "\<forall>(p, d) \<in> set i'. \<exists>x. d = Inr x"
  shows "a = a' \<and> i = i' \<and> p1 = p1' \<and> p2 = p2' \<and> p3 = p3' \<and> p4 = p4' \<and>
    map rule_view r = map rule_view r' \<and> (\<forall>n \<in> set key_variables. mc_variable mc n = mc_variable mc' n)"
proof -
  note 1 = path_components_cancel [OF assms(1)]
  have hd_path: "fst (hd (path_components m n ps @ rest)) = n" for m n ps rest
    by (simp add: path_components_def)
  note 2 = split_names [OF 1 [THEN conjunct2] input_names input_names, unfolded hd_path, simplified]
  note 3 = path_components_cancel [OF 2 [THEN conjunct2]]
  note 4 = path_components_cancel [OF 3 [THEN conjunct2]]
  note 5 = path_components_cancel [OF 4 [THEN conjunct2]]
  note 6 = path_components_cancel [OF 5 [THEN conjunct2]]
  note 7 = split_names [OF 6 [THEN conjunct2] rule_names rule_names variable_names variable_names]
  have "i = i'" using concat_inputs [OF 2 [THEN conjunct1] assms(2,3)] .
  moreover have "map rule_view r = map rule_view r'" using concat_rules_view [OF 7 [THEN conjunct1]] .
  moreover have "\<forall>n \<in> set key_variables. mc_variable mc n = mc_variable mc' n"
    using variables_agree [OF 7 [THEN conjunct2]] by blast
  ultimately show ?thesis using 1 3 4 5 6 by blast
qed

lemma key_components_Inr:
  assumes "key_components mc command options frontend = Inr cs"
  shows "cs = [(''cache_schema'', to_string_nat cache_schema), (''extractor'', ''cxx-dead-0.18''),
           (''cxx_dead_binary'', or_unavailable (tool_fingerprint mc ''/proc/self/exe'')),
           (''frontend'', index_frontend_to_string frontend),
           (''directory'', cc_directory command), (''file'', cc_file command),
           (''configuration'', ix_configuration_id options), (''project_root'', ix_project_root options),
           (''clang'', ix_clang_executable options)] @ compiler_view mc options frontend @
          [(''ast_filter'', ix_ast_filter options), (''verbose'', flag (ix_verbose options)),
           (''infer_exports'', flag (ix_infer_exports options)),
           (''require_api'', flag (ix_require_api options))] @
          path_components ''value'' ''arguments'' (cc_arguments command) @
          concat (map input_parts (input_digests (mc_files mc) command)) @
          path_components ''path'' ''report_paths'' (ix_report_paths options) @
          path_components ''path'' ''excluded_paths'' (ix_excluded_paths options) @
          path_components ''path'' ''selected_sources'' (ix_selected_target_sources options) @
          path_components ''path'' ''public_headers'' (ix_public_headers options) @
          concat (map rule_components (ix_callback_rules options)) @ variable_components mc"
    and "\<forall>(p, d) \<in> set (input_digests (mc_files mc) command). \<exists>x. d = Inr x"
proof -
  obtain parts where parts: "map_result (\<lambda>input. rbind (sha256_file (mc_files mc) input) (\<lambda>d.
      Inr [(''command_input_path'', input), (''command_input_digest'', d)])) (cc_inputs command) = Inr parts"
    using assms unfolding key_components_def rbind_eq_Inr by blast
  note r = inputs_read [OF parts]
  show "\<forall>(p, d) \<in> set (input_digests (mc_files mc) command). \<exists>x. d = Inr x"
    using r by (auto simp: input_digests_def)
  have "concat parts = concat (map input_parts (input_digests (mc_files mc) command))"
    using r unfolding input_digests_def by blast
  with assms show "cs = [(''cache_schema'', to_string_nat cache_schema), (''extractor'', ''cxx-dead-0.18''),
           (''cxx_dead_binary'', or_unavailable (tool_fingerprint mc ''/proc/self/exe'')),
           (''frontend'', index_frontend_to_string frontend),
           (''directory'', cc_directory command), (''file'', cc_file command),
           (''configuration'', ix_configuration_id options), (''project_root'', ix_project_root options),
           (''clang'', ix_clang_executable options)] @ compiler_view mc options frontend @
          [(''ast_filter'', ix_ast_filter options), (''verbose'', flag (ix_verbose options)),
           (''infer_exports'', flag (ix_infer_exports options)),
           (''require_api'', flag (ix_require_api options))] @
          path_components ''value'' ''arguments'' (cc_arguments command) @
          concat (map input_parts (input_digests (mc_files mc) command)) @
          path_components ''path'' ''report_paths'' (ix_report_paths options) @
          path_components ''path'' ''excluded_paths'' (ix_excluded_paths options) @
          path_components ''path'' ''selected_sources'' (ix_selected_target_sources options) @
          path_components ''path'' ''public_headers'' (ix_public_headers options) @
          concat (map rule_components (ix_callback_rules options)) @ variable_components mc"
    unfolding key_components_def parts rbind_simps compiler_view_def by (simp del: append.simps)
qed

text \<open>
  C35: The text behind a key leaves nothing out and nothing runs together: two analyses have the same
  text only if they agree on the frontend, the analyzer binary and the compiler, on every part
  of the command with the digests of the files it reads, on every option that shapes the facts,
  on the callback rules and on every variable of the environment that a compiler looks at.
\<close>
theorem cache_key_determines_inputs:
  assumes "key_components mc command options frontend = Inr cs"
    and "key_components mc' command' options' frontend' = Inr cs'"
    and "components_text cs = components_text cs'"
  shows "frontend = frontend' \<and>
    or_unavailable (tool_fingerprint mc ''/proc/self/exe'') = or_unavailable (tool_fingerprint mc' ''/proc/self/exe'') \<and>
    compiler_view mc options frontend = compiler_view mc' options' frontend' \<and>
    cc_directory command = cc_directory command' \<and> cc_file command = cc_file command' \<and>
    cc_arguments command = cc_arguments command' \<and>
    input_digests (mc_files mc) command = input_digests (mc_files mc') command' \<and>
    ix_configuration_id options = ix_configuration_id options' \<and>
    ix_project_root options = ix_project_root options' \<and>
    ix_clang_executable options = ix_clang_executable options' \<and>
    ix_ast_filter options = ix_ast_filter options' \<and> ix_verbose options = ix_verbose options' \<and>
    ix_infer_exports options = ix_infer_exports options' \<and> ix_require_api options = ix_require_api options' \<and>
    ix_report_paths options = ix_report_paths options' \<and>
    ix_excluded_paths options = ix_excluded_paths options' \<and>
    ix_selected_target_sources options = ix_selected_target_sources options' \<and>
    ix_public_headers options = ix_public_headers options' \<and>
    map rule_view (ix_callback_rules options) = map rule_view (ix_callback_rules options') \<and>
    (\<forall>n \<in> set key_variables. mc_variable mc n = mc_variable mc' n)"
proof -
  note eq = components_text_inject [OF assms(3), unfolded key_components_Inr(1) [OF assms(1)] key_components_Inr(1) [OF assms(2)]]
  note head = eq [simplified]
  have rest: "compiler_view mc options frontend @ (''ast_filter'', ix_ast_filter options) # r =
      compiler_view mc' options' frontend' @ (''ast_filter'', ix_ast_filter options') # s \<Longrightarrow>
      compiler_view mc options frontend = compiler_view mc' options' frontend' \<and>
      ix_ast_filter options = ix_ast_filter options' \<and> r = s" for r s
    using split_names [OF _ compiler_names compiler_names] by fastforce
  note tail = rest [OF head [THEN conjunct2, THEN conjunct2, THEN conjunct2, THEN conjunct2, THEN conjunct2,
      THEN conjunct2, THEN conjunct2]]
  note flags = tail [THEN conjunct2, THEN conjunct2, simplified]
  note parts = key_tail_agrees [OF flags [THEN conjunct2, THEN conjunct2, THEN conjunct2]
      key_components_Inr(2) [OF assms(1)] key_components_Inr(2) [OF assms(2)]]
  show ?thesis using head tail flags parts by blast
qed

definition sample_options :: "string list \<Rightarrow> index_options" where
  "sample_options roots = \<lparr>ix_project_root = ''/s'', ix_configuration_id = ''debug'', ix_report_paths = [''/s''],
     ix_excluded_paths = [], ix_clang_executable = ''clang++'', ix_ast_filter = [], ix_manual_roots = roots,
     ix_callback_rules = [], ix_provider_policies = [], ix_selected_target_sources = [''/s/a.cpp''],
     ix_public_headers = [], ix_translation_unit_timeout = 0, ix_index_timeout = 0, ix_max_ast_bytes = 0,
     ix_cache_directory = Some ''/c'', ix_verbose = False, ix_infer_exports = False, ix_require_api = False\<rparr>"

definition sample_unit_command :: compile_command where
  "sample_unit_command = \<lparr>cc_directory = ''/s'', cc_file = ''/s/a.cpp'', cc_arguments = [''clang++''],
     cc_output = [], cc_inputs = [''/s/a.cpp'']\<rparr>"

lemma cache_key_determines_inputs_witness:
  "\<exists>cs. key_components sample_machine sample_unit_command (sample_options []) Lib_Tooling = Inr cs \<and>
     key_components sample_machine sample_unit_command (sample_options [''main'']) Lib_Tooling = Inr cs \<and>
     compiler_view sample_machine (sample_options []) Lib_Tooling =
       compiler_view sample_machine (sample_options [''main'']) Lib_Tooling"
proof -
  have "sha256_file (mc_files sample_machine) ''/s/a.cpp'' = Inr (sha256 ''int x;'')"
    by (simp add: sha256_file_Inr sample_machine_def cache_files_def)
  then obtain cs where cs: "key_components sample_machine sample_unit_command (sample_options []) Lib_Tooling = Inr cs"
    "key_components sample_machine sample_unit_command (sample_options [''main'']) Lib_Tooling = Inr cs"
    by (simp add: key_components_def sample_unit_command_def sample_options_def)
  from cache_key_determines_inputs [OF cs refl] cs show ?thesis by blast
qed

section \<open>Dependency files\<close>

text \<open>
  How a name is written in a dependency file: blanks, colons and backslashes after a backslash;
  between names a blank, or a blank and a joined line.
\<close>

definition make_special :: "char \<Rightarrow> bool" where
  "make_special c \<longleftrightarrow> c = CHR '' '' \<or> c = CHR 0x09 \<or> c = CHR 0x0D \<or> c = CHR '':'' \<or> c = escape_mark"

definition make_quote :: "string \<Rightarrow> string" where
  "make_quote s = concat (map (\<lambda>c. if make_special c then [escape_mark, c] else [c]) s)"

definition make_separator :: "bool \<Rightarrow> string" where
  "make_separator wrapped = (if wrapped then '' '' @ [escape_mark, CHR 0x0A] @ '' '' else '' '')"

definition make_file :: "string \<Rightarrow> (bool \<times> string) list \<Rightarrow> string" where
  "make_file target names = make_quote target @ '':'' @
     concat (map (\<lambda>(wrapped, name). make_separator wrapped @ make_quote name) names) @ [CHR 0x0A]"

definition make_name :: "string \<Rightarrow> bool" where
  "make_name s \<longleftrightarrow> s \<noteq> [] \<and> CHR 0x0A \<notin> set s \<and> last s \<noteq> escape_mark"

lemma join_lines_append:
  "CHR 0x0A \<notin> set xs \<Longrightarrow> xs = [] \<or> last xs \<noteq> escape_mark \<Longrightarrow> join_lines (xs @ ys) = xs @ join_lines ys"
proof (induction xs)
  case (Cons x xs)
  show ?case
  proof (cases xs)
    case Nil
    then show ?thesis using Cons.prems(2) by (cases ys) simp_all
  next
    case (Cons d ds)
    then show ?thesis using Cons.IH Cons.prems by auto
  qed
qed simp

lemma make_quote_chars:
  "CHR 0x0A \<notin> set s \<Longrightarrow> CHR 0x0A \<notin> set (make_quote s)"
  "s \<noteq> [] \<Longrightarrow> make_quote s \<noteq> [] \<and> last (make_quote s) = last s"
proof -
  show "CHR 0x0A \<notin> set s \<Longrightarrow> CHR 0x0A \<notin> set (make_quote s)"
    by (auto simp: make_quote_def escape_mark_def split: if_splits)
  show "s \<noteq> [] \<Longrightarrow> make_quote s \<noteq> [] \<and> last (make_quote s) = last s"
    by (cases s rule: rev_cases) (simp_all add: make_quote_def)
qed

lemma join_quote: "make_name s \<Longrightarrow> join_lines (make_quote s @ ys) = make_quote s @ join_lines ys"
  using make_quote_chars [of s] by (intro join_lines_append) (auto simp: make_name_def)

definition blanks :: "bool \<Rightarrow> string" where "blanks wrapped = (if wrapped then ''   '' else '' '')"

lemma join_separator: "join_lines (make_separator wrapped @ ys) = blanks wrapped @ join_lines ys"
  using join_lines_append [of "'' ''" ys]
  by (simp add: make_separator_def blanks_def escape_mark_def)

lemma join_names:
  "\<forall>(w, s) \<in> set names. make_name s \<Longrightarrow>
     join_lines (concat (map (\<lambda>(w, s). make_separator w @ make_quote s) names) @ [CHR 0x0A]) =
     concat (map (\<lambda>(w, s). blanks w @ make_quote s) names) @ [CHR 0x0A]"
  by (induction names) (auto simp: join_separator join_quote)

lemma join_make_file:
  assumes "make_name target" "\<forall>(w, s) \<in> set names. make_name s"
  shows "join_lines (make_file target names) = make_quote target @ '':'' @
     concat (map (\<lambda>(w, s). blanks w @ make_quote s) names) @ [CHR 0x0A]"
proof -
  have "join_lines ('':'' @ ys) = '':'' @ join_lines ys" for ys
    by (rule join_lines_append) (simp_all add: escape_mark_def)
  then show ?thesis
    using join_quote [OF assms(1)] join_names [OF assms(2)] by (simp add: make_file_def)
qed

text \<open>The steps over one name, and over the blanks before it.\<close>

lemma step_quote:
  assumes "\<not> mk_escaped s" "CHR 0x0A \<notin> set name"
  shows "fold (make_step fs dir) (make_quote name) s = s\<lparr>mk_token := mk_token s @ name\<rparr>"
  using assms
proof (induction name arbitrary: s)
  case (Cons c name)
  let ?s = "s\<lparr>mk_token := mk_token s @ [c]\<rparr>"
  have "fold (make_step fs dir) (if make_special c then [escape_mark, c] else [c]) s = ?s"
    using Cons.prems by (cases s) (auto simp: make_step_def make_special_def escape_mark_def)
  moreover have "make_quote (c # name) = (if make_special c then [escape_mark, c] else [c]) @ make_quote name"
    by (simp add: make_quote_def)
  ultimately show ?case using Cons.IH [of ?s] Cons.prems by simp
qed (simp add: make_quote_def)

definition after_colon :: "string list \<Rightarrow> string \<Rightarrow> make_state" where
  "after_colon result token = \<lparr>mk_escaped = False, mk_after_target = True, mk_token = token, mk_result = result\<rparr>"

definition finished :: "filesystem \<Rightarrow> string \<Rightarrow> string \<Rightarrow> string list" where
  "finished fs dir token = (if token = [] then [] else [dependency_path fs dir token])"

lemma step_blank:
  "b = CHR '' '' \<or> b = CHR 0x0A \<Longrightarrow>
     make_step fs dir b (after_colon result token) = after_colon (result @ finished fs dir token) []"
  by (auto simp: make_step_def make_flush_def after_colon_def finished_def escape_mark_def)

lemma step_blanks:
  "fold (make_step fs dir) (blanks w) (after_colon result token) = after_colon (result @ finished fs dir token) []"
  by (simp add: blanks_def step_blank finished_def [of _ _ "[]"])

lemma step_names:
  "\<forall>(w, s) \<in> set names. make_name s \<Longrightarrow>
     fold (make_step fs dir) (concat (map (\<lambda>(w, s). blanks w @ make_quote s) names) @ [CHR 0x0A])
       (after_colon result token) =
     after_colon (result @ finished fs dir token @ map (\<lambda>(w, s). dependency_path fs dir s) names) []"
proof (induction names arbitrary: result token)
  case Nil
  show ?case by (simp add: step_blank)
next
  case (Cons p names)
  obtain w s where p: "p = (w, s)" by force
  have s: "CHR 0x0A \<notin> set s" "s \<noteq> []" using Cons.prems by (simp_all add: p make_name_def)
  have "fold (make_step fs dir) (make_quote s) (after_colon r []) = after_colon r s" for r
    using step_quote [OF _ s(1), of "after_colon r []"] by (simp add: after_colon_def)
  then have "fold (make_step fs dir) (blanks w @ make_quote s) (after_colon result token) =
      after_colon (result @ finished fs dir token) s"
    by (simp add: step_blanks)
  then show ?case
    using Cons.IH [of "result @ finished fs dir token" s] Cons.prems s(2) by (simp add: p finished_def)
qed

text \<open>
  The dependencies of a compilation are read back: from a file that names a target and its
  prerequisites, with blanks and backslashes in names escaped and long lines joined, the parser
  returns exactly the prerequisites in order, as normal absolute paths.
\<close>
theorem make_dependencies_read_back:
  assumes "fs_read fs depfile = Contents (make_file target names)" "names \<noteq> []"
    and "make_name target" "\<forall>(w, s) \<in> set names. make_name s"
  shows "parse_make_dependencies fs depfile dir = Inr (map (\<lambda>(w, s). dependency_path fs dir s) names)"
proof -
  let ?start = "\<lparr>mk_escaped = False, mk_after_target = False, mk_token = [], mk_result = []\<rparr>"
  have "CHR 0x0A \<notin> set target" using assms(3) by (simp add: make_name_def)
  from step_quote [OF _ this, of ?start fs dir]
  have "fold (make_step fs dir) (make_quote target @ '':'') ?start = after_colon [] []"
    by (simp add: make_step_def after_colon_def escape_mark_def)
  then have "fold (make_step fs dir) (join_lines (make_file target names)) ?start =
      after_colon (map (\<lambda>(w, s). dependency_path fs dir s) names) []"
    using step_names [OF assms(4), of fs dir "[]" "[]"] unfolding join_make_file [OF assms(3,4)]
    by (simp add: finished_def)
  then show ?thesis
    using assms(1,2) by (simp add: parse_make_dependencies_def Let_def after_colon_def make_flush_def)
qed

lemma make_dependencies_read_back_witness:
  "parse_make_dependencies (cache_files\<lparr>fs_read := (\<lambda>p. Contents (make_file ''a.o'' [(False, ''a b.c''), (True, ''/h'')]))\<rparr>)
     ''/d'' ''/w'' = Inr [''/w/a b.c'', ''/h'']"
proof -
  let ?fs = "cache_files\<lparr>fs_read := (\<lambda>p. Contents (make_file ''a.o'' [(False, ''a b.c''), (True, ''/h'')]))\<rparr>"
  have names: "make_name ''a.o''" "\<forall>(w, s) \<in> set [(False, ''a b.c''), (True, ''/h'')]. make_name s"
    by (simp_all add: make_name_def escape_mark_def)
  have "absolute fs ''/h'' = ''/h''" "absolute fs ''/w/a b.c'' = ''/w/a b.c''" for fs
    by (simp_all add: absolute_def is_absolute_def)
  moreover have "lexically_normal ''/h'' = ''/h''" "lexically_normal ''/w/a b.c'' = ''/w/a b.c''" by code_simp+
  ultimately have "dependency_path ?fs ''/w'' ''a b.c'' = ''/w/a b.c''" "dependency_path ?fs ''/w'' ''/h'' = ''/h''"
    by (simp_all add: dependency_path_def is_absolute_def path_append_def)
  moreover have "fs_read ?fs ''/d'' = Contents (make_file ''a.o'' [(False, ''a b.c''), (True, ''/h'')])" by simp
  ultimately show ?thesis
    using make_dependencies_read_back [OF _ _ names, of ?fs "''/d''" "''/w''"] by simp
qed

text \<open>
  The doubled dollar sign with which compilers write a single one in a dependency file is not undone.
\<close>

lemma make_dollar_kept:
  "parse_make_dependencies \<lparr>fs_cwd = ''/'', fs_read = (\<lambda>p. Contents ''t: /a$$b''), fs_size = (\<lambda>p. None),
      fs_regular = (\<lambda>p. True), fs_canonical = (\<lambda>p. p)\<rparr> ''/d'' ''/w'' = Inr [''/a$$b'']"
  by code_simp

end
