(* ===== verification/Cache_Publish.thy ===== *)
theory Cache_Publish
  imports Cache_Facts
begin

text \<open>
  Publishing entries, \<open>StagedCacheWrite\<close> and \<open>stage_translation_unit_cache\<close> of \<open>src/cache.cpp\<close>.
  An entry is written to a temporary file and renamed to its place. The file system is a store of
  contents; which of its calls fail is an argument. Several processes share one cache directory
  and any of them may be killed at any time: they are the steps of a relation, and a reader sees
  at every moment only complete entries.
\<close>

section \<open>The operations\<close>

type_synonym store = "string \<rightharpoonup> string"

record staged_write =
  sw_temporary :: string
  sw_destination :: string
  sw_bytes :: nat

definition temporary_name :: "string \<Rightarrow> nat \<Rightarrow> nat \<Rightarrow> string" where
  "temporary_name destination pid counter =
     destination @ ''.tmp.'' @ to_string_nat pid @ ''.'' @ to_string_nat counter"

definition rename_file :: "string \<Rightarrow> string \<Rightarrow> store \<Rightarrow> store" where
  "rename_file from to st = st(to := st from, from := None)"

definition remove_file :: "bool \<Rightarrow> string \<Rightarrow> store \<Rightarrow> store" where
  "remove_file works path st = (if works then st(path := None) else st)"

text \<open>Which calls succeed, and the message of the last error.\<close>

record commit_outcome =
  co_rename :: bool
  co_remove :: bool
  co_retry :: bool
  co_discard :: bool
  co_message :: string

definition discard :: "bool \<Rightarrow> staged_write \<Rightarrow> store \<Rightarrow> staged_write \<times> store" where
  "discard works sw st =
     (if sw_temporary sw = [] then (sw, st)
      else (sw\<lparr>sw_temporary := []\<rparr>, remove_file works (sw_temporary sw) st))"

definition commit :: "commit_outcome \<Rightarrow> staged_write \<Rightarrow> string list \<Rightarrow> store \<Rightarrow> staged_write \<times> string list \<times> store" where
  "commit oc sw warnings st =
     (if sw_temporary sw = [] then (sw, warnings, st)
      else if co_rename oc then
        (sw\<lparr>sw_temporary := []\<rparr>, warnings, rename_file (sw_temporary sw) (sw_destination sw) st)
      else
        let st = remove_file (co_remove oc) (sw_destination sw) st in
        if co_retry oc then
          (sw\<lparr>sw_temporary := []\<rparr>, warnings, rename_file (sw_temporary sw) (sw_destination sw) st)
        else
          let (sw, st) = discard (co_discard oc) sw st in
          (sw, warnings @ [''could not publish translation-unit cache entry '' @ sw_destination sw @ '': '' @
             co_message oc], st))"

text \<open>Taking over another staged write gives up the one held before.\<close>

definition move_assign :: "bool \<Rightarrow> staged_write \<Rightarrow> staged_write \<Rightarrow> store \<Rightarrow> staged_write \<times> staged_write \<times> store" where
  "move_assign works sw other st =
     (let (sw, st) = discard works sw st in
      (\<lparr>sw_temporary = sw_temporary other, sw_destination = sw_destination other, sw_bytes = sw_bytes other\<rparr>,
       \<lparr>sw_temporary = [], sw_destination = [], sw_bytes = 0\<rparr>, st))"

text \<open>Names of other temporary files; the directory of the machine is a parameter.\<close>

definition cache_temporary_path :: "string \<Rightarrow> nat \<Rightarrow> nat \<Rightarrow> string \<Rightarrow> string" where
  "cache_temporary_path temporary_directory pid counter suffix =
     path_append temporary_directory
       (''cxx-dead-'' @ to_string_nat pid @ ''-'' @ to_string_nat counter @ suffix)"

text \<open>How far staging gets: the directory, the temporary file, and the number of bytes written.\<close>

datatype stage_outcome =
    No_Directory string
  | No_File bool
  | Written nat bool
  | All_Written

definition stage_translation_unit_cache ::
    "string \<Rightarrow> string \<Rightarrow> cache_entry \<Rightarrow> nat \<Rightarrow> nat \<Rightarrow> stage_outcome \<Rightarrow> string list \<Rightarrow> store \<Rightarrow>
     staged_write option \<times> string list \<times> store" where
  "stage_translation_unit_cache directory key entry pid counter outcome warnings st =
     (let destination = entry_path directory key;
          temporary = temporary_name destination pid counter;
          contents = write_entry key entry;
          failed = \<lambda>what. warnings @ [''could not stage translation-unit cache entry: '' @ what]
      in case outcome of
           No_Directory what \<Rightarrow> (None, failed what, st)
         | No_File works \<Rightarrow>
             (None, failed ''cannot create staged cache entry'', remove_file works temporary st)
         | Written n works \<Rightarrow>
             (None, failed ''cannot write staged cache entry'',
              remove_file works temporary (st(temporary \<mapsto> take n contents)))
         | All_Written \<Rightarrow>
             (Some \<lparr>sw_temporary = temporary, sw_destination = destination, sw_bytes = length contents\<rparr>,
              warnings, st(temporary \<mapsto> contents)))"

section \<open>Processes that share a directory\<close>

datatype phase = Writing nat | Staged | Retrying

record job =
  jb_key :: string
  jb_entry :: cache_entry
  jb_phase :: phase

record world =
  wd_files :: store
  wd_jobs :: "(nat \<times> nat) \<rightharpoonup> job"

definition job_place :: "string \<Rightarrow> job \<Rightarrow> string" where
  "job_place directory j = entry_path directory (jb_key j)"

definition job_temporary :: "string \<Rightarrow> nat \<times> nat \<Rightarrow> job \<Rightarrow> string" where
  "job_temporary directory i j = temporary_name (job_place directory j) (fst i) (snd i)"

definition job_text :: "job \<Rightarrow> string" where
  "job_text j = write_entry (jb_key j) (jb_entry j)"

definition job_ok :: "job \<Rightarrow> bool" where
  "job_ok j \<longleftrightarrow> digest_form (jb_key j) \<and> graph_wf (te_graph (jb_entry j)) \<and> small_entry (jb_entry j)"

text \<open>A job is known by its process and the value of the counter in that process.\<close>

inductive cache_step :: "string \<Rightarrow> world \<Rightarrow> world \<Rightarrow> bool" for directory where
  step_open: "wd_jobs w i = None \<Longrightarrow> job_ok j \<Longrightarrow> jb_phase j = Writing 0 \<Longrightarrow>
    cache_step directory w \<lparr>wd_files = (wd_files w)(job_temporary directory i j \<mapsto> []), wd_jobs = (wd_jobs w)(i \<mapsto> j)\<rparr>"
| step_write: "wd_jobs w i = Some j \<Longrightarrow> jb_phase j = Writing n \<Longrightarrow> n \<le> m \<Longrightarrow>
    cache_step directory w
      \<lparr>wd_files = (wd_files w)(job_temporary directory i j \<mapsto> take m (job_text j)),
       wd_jobs = (wd_jobs w)(i \<mapsto> j\<lparr>jb_phase := Writing m\<rparr>)\<rparr>"
| step_close: "wd_jobs w i = Some j \<Longrightarrow> jb_phase j = Writing n \<Longrightarrow> length (job_text j) \<le> n \<Longrightarrow>
    cache_step directory w (w\<lparr>wd_jobs := (wd_jobs w)(i \<mapsto> j\<lparr>jb_phase := Staged\<rparr>)\<rparr>)"
| step_publish: "wd_jobs w i = Some j \<Longrightarrow> jb_phase j = Staged \<or> jb_phase j = Retrying \<Longrightarrow>
    cache_step directory w
      \<lparr>wd_files = rename_file (job_temporary directory i j) (job_place directory j) (wd_files w),
       wd_jobs = (wd_jobs w)(i := None)\<rparr>"
| step_refused: "wd_jobs w i = Some j \<Longrightarrow> jb_phase j = Staged \<Longrightarrow>
    cache_step directory w
      \<lparr>wd_files = remove_file works (job_place directory j) (wd_files w),
       wd_jobs = (wd_jobs w)(i \<mapsto> j\<lparr>jb_phase := Retrying\<rparr>)\<rparr>"
| step_abandon: "wd_jobs w i = Some j \<Longrightarrow>
    cache_step directory w
      \<lparr>wd_files = remove_file works (job_temporary directory i j) (wd_files w),
       wd_jobs = (wd_jobs w)(i := None)\<rparr>"
| step_clean: "wd_jobs w i = None \<Longrightarrow> job_ok j \<Longrightarrow>
    cache_step directory w (w\<lparr>wd_files := remove_file works (job_temporary directory i j) (wd_files w)\<rparr>)"

definition empty_cache :: world where
  "empty_cache = \<lparr>wd_files = Map.empty, wd_jobs = Map.empty\<rparr>"

definition cache_reachable :: "string \<Rightarrow> world \<Rightarrow> bool" where
  "cache_reachable directory w \<longleftrightarrow> (cache_step directory)\<^sup>*\<^sup>* empty_cache w"

section \<open>Names\<close>

lemma entry_path_end: "digest_form k \<Longrightarrow> \<exists>x. entry_path directory k = x @ k @ ''.cache''"
proof -
  assume "digest_form k"
  then have k: "length k = 64" "list_all (\<lambda>c. (CHR ''0'' \<le> c \<and> c \<le> CHR ''9'') \<or> (CHR ''a'' \<le> c \<and> c \<le> CHR ''f'')) k"
    by (simp_all add: digest_form_def)
  then obtain c cs where c: "k = c # cs" by (cases k) simp_all
  have "\<not> CHR ''0'' \<le> CHR ''/''" "\<not> CHR ''a'' \<le> CHR ''/''" by code_simp+
  then have "c \<noteq> CHR ''/''" using k(2) by (auto simp: c)
  then show ?thesis by (auto simp: entry_path_def path_append_def is_absolute_def c)
qed

lemma entry_path_inject:
  assumes "digest_form k" "digest_form k'" "entry_path directory k = entry_path directory k'"
  shows "k = k'"
proof -
  obtain x x' where "x @ k @ ''.cache'' = x' @ k' @ ''.cache''"
    using entry_path_end [OF assms(1)] entry_path_end [OF assms(2)] assms(3) by metis
  moreover have "length (k @ ''.cache'') = length (k' @ ''.cache'')"
    using assms(1,2) by (simp add: digest_form_def)
  ultimately have "k @ ''.cache'' = k' @ ''.cache''" using append_eq_append_conv by blast
  then show ?thesis by simp
qed

lemma temporary_not_place:
  assumes "digest_form k"
  shows "temporary_name d p c \<noteq> entry_path directory k"
proof
  assume "temporary_name d p c = entry_path directory k"
  then obtain x where "d @ ''.tmp.'' @ to_string_nat p @ ''.'' @ to_string_nat c = x @ k @ ''.cache''"
    using entry_path_end [OF assms] unfolding temporary_name_def by metis
  then have "last (d @ ''.tmp.'' @ to_string_nat p @ ''.'' @ to_string_nat c) = last (x @ k @ ''.cache'')"
    by simp
  then have "last (to_string_nat c) = CHR ''e''" by (simp add: last_append)
  moreover have "is_digit (last (to_string_nat c))" by (rule to_string_nat_digits [of _ c], rule last_in_set) simp
  moreover have "\<not> is_digit CHR ''e''" by (simp add: is_digit_def)
  ultimately show False by simp
qed

lemma digits_suffix:
  assumes "a @ CHR ''.'' # to_string_nat m = b @ CHR ''.'' # to_string_nat n"
  shows "a = b \<and> m = n"
proof -
  have dot: "\<not> is_digit (CHR ''.'')" by (simp add: is_digit_def)
  have tw: "takeWhile is_digit (rev (x @ CHR ''.'' # to_string_nat k)) = rev (to_string_nat k)" for x k
  proof -
    have "takeWhile is_digit (rev (to_string_nat k) @ CHR ''.'' # rev x) =
        rev (to_string_nat k) @ takeWhile is_digit (CHR ''.'' # rev x)"
      by (rule takeWhile_append2) (use to_string_nat_digits [of _ k] in simp)
    then show ?thesis using dot by simp
  qed
  have "to_string_nat m = to_string_nat n" using tw [of a m] tw [of b n] assms by (metis rev_rev_ident)
  then show ?thesis using assms by simp
qed

lemma temporary_name_inject:
  "temporary_name d p c = temporary_name d' p' c' \<longleftrightarrow> d = d' \<and> p = p' \<and> c = c'"
proof
  assume eq: "temporary_name d p c = temporary_name d' p' c'"
  have "(d @ ''.tmp.'' @ to_string_nat p) @ CHR ''.'' # to_string_nat c =
      (d' @ ''.tmp.'' @ to_string_nat p') @ CHR ''.'' # to_string_nat c'"
    using eq by (simp add: temporary_name_def)
  note 1 = digits_suffix [OF this]
  then have "(d @ ''.tmp'') @ CHR ''.'' # to_string_nat p = (d' @ ''.tmp'') @ CHR ''.'' # to_string_nat p'" by simp
  from digits_suffix [OF this] 1 show "d = d' \<and> p = p' \<and> c = c'" by simp
qed simp

section \<open>Only complete entries are visible\<close>

definition complete_text :: "string \<Rightarrow> string \<Rightarrow> bool" where
  "complete_text k t \<longleftrightarrow> (\<exists>e. graph_wf (te_graph e) \<and> small_entry e \<and> t = write_entry k e)"

definition written :: "job \<Rightarrow> string" where
  "written j = (case jb_phase j of Writing n \<Rightarrow> take n (job_text j) | _ \<Rightarrow> job_text j)"

definition cache_invariant :: "string \<Rightarrow> world \<Rightarrow> bool" where
  "cache_invariant directory w \<longleftrightarrow>
     (\<forall>k t. digest_form k \<longrightarrow> wd_files w (entry_path directory k) = Some t \<longrightarrow> complete_text k t) \<and>
     (\<forall>i j. wd_jobs w i = Some j \<longrightarrow>
        job_ok j \<and> wd_files w (job_temporary directory i j) = Some (written j))"

lemma invariant_job:
  "cache_invariant directory w \<Longrightarrow> wd_jobs w i = Some j \<Longrightarrow> job_ok j"
  "cache_invariant directory w \<Longrightarrow> wd_jobs w i = Some j \<Longrightarrow>
     wd_files w (job_temporary directory i j) = Some (written j)"
  unfolding cache_invariant_def by blast+

lemma job_temporary_inject:
  "job_temporary directory i j = job_temporary directory i' j' \<Longrightarrow> i = i'"
  by (simp add: job_temporary_def temporary_name_inject prod_eq_iff)

lemma job_temporary_apart [simp]:
  "digest_form k \<Longrightarrow> job_temporary directory i j \<noteq> entry_path directory k"
  "digest_form k \<Longrightarrow> entry_path directory k \<noteq> job_temporary directory i j"
  using temporary_not_place by (simp_all add: job_temporary_def) metis

lemma job_temporary_phase [simp]: "job_temporary directory i (j\<lparr>jb_phase := ph\<rparr>) = job_temporary directory i j"
    "job_text (j\<lparr>jb_phase := ph\<rparr>) = job_text j" "job_ok (j\<lparr>jb_phase := ph\<rparr>) = job_ok j"
  by (simp_all add: job_temporary_def job_place_def job_text_def job_ok_def)

text \<open>
  What a step may do to the files: only the temporary file of its own job and the place of its
  key change, and a place is emptied or receives the complete text of the job.
\<close>

lemma invariant_preserved:
  assumes inv: "cache_invariant directory w" and j: "job_ok j"
    and other: "\<And>i' j'. i' \<noteq> i \<Longrightarrow> wd_jobs w' i' = Some j' \<Longrightarrow> wd_jobs w i' = Some j'"
    and own: "\<And>j'. wd_jobs w' i = Some j' \<Longrightarrow> job_ok j' \<and> wd_files w' (job_temporary directory i j') = Some (written j')"
    and files: "\<And>p. p \<noteq> job_temporary directory i j \<Longrightarrow> p \<noteq> job_place directory j \<Longrightarrow> wd_files w' p = wd_files w p"
    and place: "wd_files w' (job_place directory j) \<in> {None, wd_files w (job_place directory j), Some (job_text j)}"
  shows "cache_invariant directory w'"
proof -
  have places: "complete_text k t" if k: "digest_form k" "wd_files w' (entry_path directory k) = Some t" for k t
  proof (cases "entry_path directory k = job_place directory j")
    case True
    then have "k = jb_key j"
      using entry_path_inject [of k "jb_key j" directory] k(1) j by (simp add: job_place_def job_ok_def)
    consider "wd_files w (entry_path directory k) = Some t" | "t = job_text j"
      using place k(2) True by auto
    then show ?thesis
    proof cases
      case 1
      then show ?thesis using inv k(1) unfolding cache_invariant_def by blast
    next
      case 2
      then show ?thesis using j \<open>k = jb_key j\<close> by (auto simp: complete_text_def job_ok_def job_text_def)
    qed
  next
    case False
    moreover have "entry_path directory k \<noteq> job_temporary directory i j" using k(1) by (metis job_temporary_apart)
    ultimately show ?thesis using files k inv by (simp add: cache_invariant_def)
  qed
  have jobs: "job_ok j' \<and> wd_files w' (job_temporary directory i' j') = Some (written j')"
    if j': "wd_jobs w' i' = Some j'" for i' j'
  proof (cases "i' = i")
    case True
    then show ?thesis using own j' by simp
  next
    case False
    then have old: "job_ok j' \<and> wd_files w (job_temporary directory i' j') = Some (written j')"
      using inv other [OF False j'] unfolding cache_invariant_def by blast
    moreover have "job_temporary directory i' j' \<noteq> job_temporary directory i j"
      using False job_temporary_inject by blast
    moreover have "job_temporary directory i' j' \<noteq> job_place directory j"
      using j by (simp add: job_place_def job_ok_def)
    ultimately show ?thesis using files by simp
  qed
  show ?thesis unfolding cache_invariant_def using places jobs by blast
qed

lemma cache_step_invariant:
  "cache_step directory w w' \<Longrightarrow> cache_invariant directory w \<Longrightarrow> cache_invariant directory w'"
proof (induction rule: cache_step.induct)
  case (step_open w i j)
  show ?case
    by (rule invariant_preserved [OF step_open.prems step_open.hyps(2), of i])
      (use step_open.hyps in \<open>simp_all add: written_def job_place_def job_ok_def\<close>)
next
  case (step_write w i j n m)
  then have "job_ok j" by (intro invariant_job(1))
  then show ?case
    by (intro invariant_preserved [OF step_write.prems _, of j i])
      (use step_write.hyps in \<open>auto simp: written_def job_place_def job_ok_def\<close>)
next
  case (step_close w i j n)
  note j = invariant_job [OF step_close.prems step_close.hyps(1)]
  then show ?case
    by (intro invariant_preserved [OF step_close.prems _, of j i])
      (use step_close.hyps j in \<open>auto simp: written_def\<close>)
next
  case (step_publish w i j)
  note j = invariant_job [OF step_publish.prems step_publish.hyps(1)]
  have "written j = job_text j" using step_publish.hyps(2) by (auto simp: written_def)
  moreover have "job_place directory j \<noteq> job_temporary directory i j"
    using j(1) by (metis job_temporary_apart job_ok_def job_place_def)
  ultimately show ?case
    by (intro invariant_preserved [OF step_publish.prems j(1), of i])
      (use j(2) in \<open>simp_all add: rename_file_def\<close>)
next
  case (step_refused w i j works)
  note j = invariant_job [OF step_refused.prems step_refused.hyps(1)]
  then have "job_place directory j \<noteq> job_temporary directory i j"
    by (metis job_temporary_apart job_ok_def job_place_def)
  with j show ?case
    by (intro invariant_preserved [OF step_refused.prems j(1), of i])
      (use step_refused.hyps in \<open>auto simp: remove_file_def written_def\<close>)
next
  case (step_abandon w i j works)
  note j = invariant_job(1) [OF step_abandon.prems step_abandon.hyps(1)]
  then have "job_place directory j \<noteq> job_temporary directory i j"
    by (metis job_temporary_apart job_ok_def job_place_def)
  then show ?case
    by (intro invariant_preserved [OF step_abandon.prems j, of i]) (simp_all add: remove_file_def)
next
  case (step_clean w i j works)
  then have "job_place directory j \<noteq> job_temporary directory i j"
    by (metis job_temporary_apart(2) job_ok_def job_place_def)
  then show ?case
    by (intro invariant_preserved [OF step_clean.prems step_clean.hyps(2), of i])
      (use step_clean.hyps in \<open>simp_all add: remove_file_def\<close>)
qed

lemma cache_reachable_invariant:
  assumes "cache_reachable directory w"
  shows "cache_invariant directory w"
  using assms unfolding cache_reachable_def
proof (induction rule: rtranclp_induct)
  case base
  show ?case by (simp add: cache_invariant_def empty_cache_def)
qed (rule cache_step_invariant)

lemma visible_complete:
  assumes "cache_reachable directory w" "digest_form key"
    and "wd_files w (entry_path directory key) = Some contents"
  obtains e where "graph_wf (te_graph e)" "small_entry e" "contents = write_entry key e"
    "read_entry contents key = Inr (e\<lparr>te_graph := canonicalize (te_graph e)\<rparr>)"
proof -
  have "complete_text key contents"
    using cache_reachable_invariant [OF assms(1)] assms(2,3) unfolding cache_invariant_def by blast
  then show thesis using that read_back_entry by (auto simp: complete_text_def)
qed


section \<open>The operations are sequences of steps\<close>

lemma staged_temporary: "temporary_name d p c \<noteq> []"
  by (simp add: temporary_name_def)

lemma one_step:
  "cache_step directory w w' \<Longrightarrow> wd_files w' = st \<Longrightarrow> \<exists>w'. (cache_step directory)\<^sup>*\<^sup>* w w' \<and> wd_files w' = st"
  by blast

lemma commit_is_steps:
  assumes "wd_jobs w i = Some j" "jb_phase j = Staged"
    and "sw = \<lparr>sw_temporary = job_temporary directory i j, sw_destination = job_place directory j, sw_bytes = n\<rparr>"
  shows "\<exists>w'. (cache_step directory)\<^sup>*\<^sup>* w w' \<and> wd_files w' = snd (snd (commit oc sw warnings (wd_files w)))"
proof -
  have ne: "job_temporary directory i j \<noteq> []" by (simp add: job_temporary_def staged_temporary)
  show ?thesis
  proof (cases "co_rename oc")
    case True
    show ?thesis
      by (rule one_step [OF step_publish [OF assms(1)]]) (use assms(2) ne True in \<open>simp_all add: commit_def assms(3)\<close>)
  next
    case False
    let ?w = "\<lparr>wd_files = remove_file (co_remove oc) (job_place directory j) (wd_files w),
      wd_jobs = (wd_jobs w)(i \<mapsto> j\<lparr>jb_phase := Retrying\<rparr>)\<rparr>"
    have 1: "cache_step directory w ?w" by (rule step_refused [OF assms(1,2)])
    have job: "wd_jobs ?w i = Some (j\<lparr>jb_phase := Retrying\<rparr>)" by simp
    have place: "job_place directory (j\<lparr>jb_phase := Retrying\<rparr>) = job_place directory j" by (simp add: job_place_def)
    show ?thesis
    proof (cases "co_retry oc")
      case True
      have "cache_step directory ?w \<lparr>wd_files = rename_file (job_temporary directory i j) (job_place directory j) (wd_files ?w),
          wd_jobs = (wd_jobs ?w)(i := None)\<rparr>"
        using step_publish [OF job, of directory] by (simp add: place)
      with 1 have "(cache_step directory)\<^sup>*\<^sup>* w \<lparr>wd_files = rename_file (job_temporary directory i j)
          (job_place directory j) (wd_files ?w), wd_jobs = (wd_jobs ?w)(i := None)\<rparr>"
        by (meson r_into_rtranclp rtranclp_trans)
      then show ?thesis
        using ne False True by (intro exI conjI) (assumption, simp add: commit_def assms(3) Let_def)
    next
      case no: False
      have "cache_step directory ?w \<lparr>wd_files = remove_file (co_discard oc) (job_temporary directory i j) (wd_files ?w),
          wd_jobs = (wd_jobs ?w)(i := None)\<rparr>"
        using step_abandon [OF job, of directory] by simp
      with 1 have "(cache_step directory)\<^sup>*\<^sup>* w \<lparr>wd_files = remove_file (co_discard oc) (job_temporary directory i j) (wd_files ?w),
          wd_jobs = (wd_jobs ?w)(i := None)\<rparr>"
        by (meson r_into_rtranclp rtranclp_trans)
      then show ?thesis
        using ne False no by (intro exI conjI) (assumption, simp add: commit_def discard_def assms(3) Let_def)
    qed
  qed
qed

lemma stage_is_steps:
  assumes "wd_jobs w i = None" "job_ok j" "jb_phase j = Writing 0"
  shows "\<exists>w'. (cache_step directory)\<^sup>*\<^sup>* w w' \<and> wd_files w' = snd (snd (stage_translation_unit_cache directory
    (jb_key j) (jb_entry j) (fst i) (snd i) outcome warnings (wd_files w)))"
proof -
  let ?temporary = "job_temporary directory i j"
  let ?open = "\<lparr>wd_files = (wd_files w)(?temporary \<mapsto> []), wd_jobs = (wd_jobs w)(i \<mapsto> j)\<rparr>"
  let ?wrote = "\<lambda>n. \<lparr>wd_files = (wd_files w)(?temporary \<mapsto> take n (job_text j)),
    wd_jobs = (wd_jobs w)(i \<mapsto> j\<lparr>jb_phase := Writing n\<rparr>)\<rparr>"
  have "cache_step directory w ?open" by (rule step_open [OF assms])
  moreover have "cache_step directory ?open (?wrote n)" for n
    using step_write [of ?open i j 0 n directory] assms(3) by simp
  ultimately have wrote: "(cache_step directory)\<^sup>*\<^sup>* w (?wrote n)" for n by (meson r_into_rtranclp rtranclp_trans)
  note names = job_temporary_def job_place_def job_text_def
  show ?thesis
  proof (cases outcome)
    case (No_Directory what)
    then show ?thesis by (intro exI [of _ w]) (simp add: stage_translation_unit_cache_def Let_def)
  next
    case (No_File works)
    show ?thesis
      by (rule one_step [OF step_clean [OF assms(1,2), of directory works]])
        (simp add: stage_translation_unit_cache_def Let_def No_File names)
  next
    case (Written n works)
    have "cache_step directory (?wrote n) \<lparr>wd_files = remove_file works ?temporary ((wd_files w)(?temporary \<mapsto> take n (job_text j))),
        wd_jobs = (wd_jobs w)(i := None)\<rparr>"
      using step_abandon [of "?wrote n" i "j\<lparr>jb_phase := Writing n\<rparr>" directory works] by simp
    with wrote [of n] have "(cache_step directory)\<^sup>*\<^sup>* w \<lparr>wd_files = remove_file works ?temporary
        ((wd_files w)(?temporary \<mapsto> take n (job_text j))), wd_jobs = (wd_jobs w)(i := None)\<rparr>"
      by (rule rtranclp.rtrancl_into_rtrancl)
    then show ?thesis
      by (intro exI conjI) (assumption, simp add: stage_translation_unit_cache_def Let_def Written names)
  next
    case All_Written
    show ?thesis
      using wrote [of "length (job_text j)"]
      by (intro exI conjI) (assumption, simp add: stage_translation_unit_cache_def Let_def All_Written names)
  qed
qed

section \<open>The abstract cache\<close>

text \<open>A cache is a map from keys to entries; entries are put under a key and dropped.\<close>

inductive map_step :: "(string \<rightharpoonup> cache_entry) \<Rightarrow> (string \<rightharpoonup> cache_entry) \<Rightarrow> bool" where
  map_stays: "map_step m m"
| map_puts: "graph_wf (te_graph e) \<Longrightarrow> map_step m (m(k \<mapsto> e\<lparr>te_graph := canonicalize (te_graph e)\<rparr>))"
| map_drops: "map_step m (m(k := None))"

definition cached_entries :: "string \<Rightarrow> world \<Rightarrow> string \<rightharpoonup> cache_entry" where
  "cached_entries directory w key =
     (if \<not> digest_form key then None
      else case wd_files w (entry_path directory key) of
        None \<Rightarrow> None
      | Some contents \<Rightarrow> (case read_entry contents key of Inl _ \<Rightarrow> None | Inr e \<Rightarrow> Some e))"

lemma cached_entries_cong:
  "(\<And>k. digest_form k \<Longrightarrow> wd_files w' (entry_path directory k) = wd_files w (entry_path directory k)) \<Longrightarrow>
     cached_entries directory w' = cached_entries directory w"
  by (auto simp: cached_entries_def fun_eq_iff)

lemma cached_entries_place:
  assumes "digest_form k" "\<And>p. p \<noteq> entry_path directory k \<Longrightarrow> (\<forall>i j. p \<noteq> job_temporary directory i j) \<Longrightarrow> wd_files w' p = wd_files w p"
  shows "cached_entries directory w' = (cached_entries directory w)(k := cached_entries directory w' k)"
proof
  fix k'
  show "cached_entries directory w' k' = ((cached_entries directory w)(k := cached_entries directory w' k)) k'"
  proof (cases "k' = k \<or> \<not> digest_form k'")
    case True
    then show ?thesis using assms(1) by (auto simp: cached_entries_def)
  next
    case False
    then have "entry_path directory k' \<noteq> entry_path directory k" using entry_path_inject assms(1) by blast
    then have "wd_files w' (entry_path directory k') = wd_files w (entry_path directory k')"
      using assms(2) False by simp
    then show ?thesis using False by (simp add: cached_entries_def)
  qed
qed

lemma refines:
  assumes "cache_step directory w w'" "cache_invariant directory w"
  shows "map_step (cached_entries directory w) (cached_entries directory w')"
  using assms
proof (induction rule: cache_step.induct)
  case (step_open w i j)
  have "cached_entries directory \<lparr>wd_files = (wd_files w)(job_temporary directory i j \<mapsto> []), wd_jobs = (wd_jobs w)(i \<mapsto> j)\<rparr> =
      cached_entries directory w" by (rule cached_entries_cong) simp
  then show ?case by (simp add: map_stays)
next
  case (step_write w i j n m)
  have "cached_entries directory \<lparr>wd_files = (wd_files w)(job_temporary directory i j \<mapsto> take m (job_text j)),
      wd_jobs = (wd_jobs w)(i \<mapsto> j\<lparr>jb_phase := Writing m\<rparr>)\<rparr> = cached_entries directory w"
    by (rule cached_entries_cong) simp
  then show ?case by (simp add: map_stays)
next
  case (step_close w i j n)
  have "cached_entries directory (w\<lparr>wd_jobs := (wd_jobs w)(i \<mapsto> j\<lparr>jb_phase := Staged\<rparr>)\<rparr>) = cached_entries directory w"
    by (rule cached_entries_cong) simp
  then show ?case by (simp add: map_stays)
next
  case (step_publish w i j)
  let ?w = "\<lparr>wd_files = rename_file (job_temporary directory i j) (job_place directory j) (wd_files w),
      wd_jobs = (wd_jobs w)(i := None)\<rparr>"
  note j = invariant_job [OF step_publish.prems step_publish.hyps(1)]
  have k: "digest_form (jb_key j)" "graph_wf (te_graph (jb_entry j))" "small_entry (jb_entry j)"
    using j(1) by (simp_all add: job_ok_def)
  have "written j = write_entry (jb_key j) (jb_entry j)"
    using step_publish.hyps(2) by (auto simp: written_def job_text_def)
  then have "wd_files ?w (job_place directory j) = Some (write_entry (jb_key j) (jb_entry j))"
    using j(2) k(1) by (simp add: rename_file_def job_place_def)
  then have "cached_entries directory ?w (jb_key j) =
      Some ((jb_entry j)\<lparr>te_graph := canonicalize (te_graph (jb_entry j))\<rparr>)"
    using k by (simp add: cached_entries_def job_place_def read_back_entry)
  moreover have "cached_entries directory ?w = (cached_entries directory w)(jb_key j := cached_entries directory ?w (jb_key j))"
  proof (rule cached_entries_place [OF k(1)])
    fix p assume "p \<noteq> entry_path directory (jb_key j)" "\<forall>i j. p \<noteq> job_temporary directory i j"
    then have "p \<noteq> entry_path directory (jb_key j)" "p \<noteq> job_temporary directory i j" by blast+
    then show "wd_files ?w p = wd_files w p" by (simp add: rename_file_def job_place_def)
  qed
  ultimately show ?case using map_puts [OF k(2)] by metis
next
  case (step_refused w i j works)
  let ?w = "\<lparr>wd_files = remove_file works (job_place directory j) (wd_files w),
      wd_jobs = (wd_jobs w)(i \<mapsto> j\<lparr>jb_phase := Retrying\<rparr>)\<rparr>"
  have k: "digest_form (jb_key j)"
    using invariant_job(1) [OF step_refused.prems step_refused.hyps(1)] by (simp add: job_ok_def)
  show ?case
  proof (cases works)
    case True
    have "cached_entries directory ?w = (cached_entries directory w)(jb_key j := cached_entries directory ?w (jb_key j))"
      by (rule cached_entries_place [OF k]) (simp add: remove_file_def job_place_def)
    moreover have "cached_entries directory ?w (jb_key j) = None"
      using True by (simp add: cached_entries_def remove_file_def job_place_def)
    ultimately show ?thesis using map_drops by metis
  next
    case False
    have "cached_entries directory ?w = cached_entries directory w"
      by (rule cached_entries_cong) (simp add: remove_file_def False)
    then show ?thesis by (simp add: map_stays)
  qed
next
  case (step_abandon w i j works)
  have "cached_entries directory \<lparr>wd_files = remove_file works (job_temporary directory i j) (wd_files w),
      wd_jobs = (wd_jobs w)(i := None)\<rparr> = cached_entries directory w"
    by (rule cached_entries_cong) (simp add: remove_file_def)
  then show ?case by (simp add: map_stays)
next
  case (step_clean w i j works)
  have "cached_entries directory (w\<lparr>wd_files := remove_file works (job_temporary directory i j) (wd_files w)\<rparr>) =
      cached_entries directory w"
    by (rule cached_entries_cong) (simp add: remove_file_def)
  then show ?case by (simp add: map_stays)
qed


section \<open>One published entry\<close>

definition sample_job :: "phase \<Rightarrow> job" where
  "sample_job ph = \<lparr>jb_key = sha256 ''key'', jb_entry = sample_entry, jb_phase = ph\<rparr>"

definition sample_place :: string where "sample_place = entry_path ''/c'' (sha256 ''key'')"

definition staged_world :: world where
  "staged_world = \<lparr>wd_files = [temporary_name sample_place 7 0 \<mapsto> write_entry (sha256 ''key'') sample_entry],
     wd_jobs = [(7, 0) \<mapsto> sample_job Staged]\<rparr>"

definition published_world :: world where
  "published_world = \<lparr>wd_files = rename_file (temporary_name sample_place 7 0) sample_place (wd_files staged_world),
     wd_jobs = Map.empty\<rparr>"

lemma sample_worlds:
  "cache_reachable ''/c'' staged_world" "cache_step ''/c'' staged_world published_world"
  "cache_reachable ''/c'' published_world"
  "wd_files published_world (entry_path ''/c'' (sha256 ''key'')) = Some (write_entry (sha256 ''key'') sample_entry)"
proof -
  let ?t = "write_entry (sha256 ''key'') sample_entry"
  let ?name = "temporary_name sample_place 7 0"
  let ?w0 = "\<lparr>wd_files = [?name \<mapsto> []], wd_jobs = [(7, 0) \<mapsto> sample_job (Writing 0)]\<rparr>"
  let ?w1 = "\<lparr>wd_files = [?name \<mapsto> ?t], wd_jobs = [(7, 0) \<mapsto> sample_job (Writing (length ?t))]\<rparr>"
  have job: "job_ok (sample_job ph)" "job_text (sample_job ph) = ?t" "job_temporary ''/c'' (7, 0) (sample_job ph) = ?name"
    "job_place ''/c'' (sample_job ph) = sample_place" for ph
    using sample_entry_storable sha256_digest_form
    by (simp_all add: job_ok_def sample_job_def job_text_def job_temporary_def job_place_def sample_place_def)
  have "cache_step ''/c'' empty_cache ?w0"
    using step_open [of empty_cache "(7, 0)" "sample_job (Writing 0)" "''/c''"] job(1)
    by (simp add: empty_cache_def job(3)) (simp add: sample_job_def)
  moreover have "cache_step ''/c'' ?w0 ?w1"
    using step_write [of ?w0 "(7, 0)" "sample_job (Writing 0)" 0 "length ?t" "''/c''"]
    by (simp add: job(2,3)) (simp add: sample_job_def)
  moreover have "cache_step ''/c'' ?w1 staged_world"
    using step_close [of ?w1 "(7, 0)" "sample_job (Writing (length ?t))" "length ?t" "''/c''"]
    by (simp add: job(2) staged_world_def) (simp add: sample_job_def)
  ultimately show staged: "cache_reachable ''/c'' staged_world"
    unfolding cache_reachable_def by (meson r_into_rtranclp rtranclp_trans)
  show step: "cache_step ''/c'' staged_world published_world"
    using step_publish [of staged_world "(7, 0)" "sample_job Staged" "''/c''"]
    by (simp add: job(3,4) published_world_def) (simp add: staged_world_def sample_job_def)
  show "cache_reachable ''/c'' published_world"
    using staged step unfolding cache_reachable_def by (rule rtranclp.rtrancl_into_rtrancl)
  have "sample_place \<noteq> ?name"
    using temporary_not_place [OF sha256_digest_form] unfolding sample_place_def by metis
  then show "wd_files published_world (entry_path ''/c'' (sha256 ''key'')) = Some ?t"
    by (simp add: published_world_def rename_file_def staged_world_def flip: sample_place_def)
qed



end
