(* ===== verification/Ast_Values.thy ===== *)
theory Ast_Values
  imports Cache
begin

text \<open>
  How \<open>src/indexer.cpp\<close> reads a node of the syntax tree that Clang prints as JSON: kinds, names,
  types, locations and visibility. The offsets of the lines of a source file are computed once per
  translation unit and kept in a memo.
\<close>

lemma fold_result_cong [fundef_cong]:
  "xs = ys \<Longrightarrow> s = t \<Longrightarrow> (\<And>x s. x \<in> set ys \<Longrightarrow> f x s = g x s) \<Longrightarrow> fold_result f xs s = fold_result g ys t"
  by (induction ys arbitrary: xs s t) (auto intro!: rbind_cong)

section \<open>Nodes\<close>

definition is_function_kind :: "string \<Rightarrow> bool" where
  "is_function_kind kind \<longleftrightarrow>
     kind = ''FunctionDecl'' \<or> kind = ''CXXMethodDecl'' \<or> kind = ''CXXConstructorDecl'' \<or>
     kind = ''CXXDestructorDecl'' \<or> kind = ''CXXConversionDecl''"

definition symbol_kind_of :: "string \<Rightarrow> symbol_kind" where
  "symbol_kind_of kind =
     (if kind = ''CXXConstructorDecl'' then Constructor
      else if kind = ''CXXDestructorDecl'' then Destructor
      else if kind = ''CXXMethodDecl'' \<or> kind = ''CXXConversionDecl'' then Method
      else Function)"

definition is_record_kind :: "string \<Rightarrow> bool" where
  "is_record_kind kind \<longleftrightarrow>
     kind = ''CXXRecordDecl'' \<or> kind = ''RecordDecl'' \<or> kind = ''ClassTemplateSpecializationDecl''"

definition is_call_expression :: "string \<Rightarrow> bool" where
  "is_call_expression kind \<longleftrightarrow>
     kind = ''CallExpr'' \<or> kind = ''CXXMemberCallExpr'' \<or> kind = ''CXXOperatorCallExpr'' \<or>
     kind = ''CUDAKernelCallExpr''"

definition children :: "json \<Rightarrow> json list" where
  "children node = (case json_find ''inner'' node of Some (JArray vs) \<Rightarrow> vs | _ \<Rightarrow> [])"

lemma json_find_size: "json_find key v = Some w \<Longrightarrow> size w < size v"
proof (cases v)
  case (JObject kvs)
  assume "json_find key v = Some w"
  then have "(key, w) \<in> set kvs" using JObject by (simp add: map_of_SomeD)
  then have "size_prod (\<lambda>x. 0) size (key, w) \<le> size_list (size_prod (\<lambda>x. 0) size) kvs"
    by (rule size_list_estimation') simp
  then show ?thesis using JObject by simp
qed simp_all

lemma children_size [termination_simp]: "child \<in> set (children node) \<Longrightarrow> size child < size node"
proof -
  assume child: "child \<in> set (children node)"
  then obtain vs where vs: "json_find ''inner'' node = Some (JArray vs)" "child \<in> set vs"
    unfolding children_def
    by (cases "json_find ''inner'' node"; cases "the (json_find ''inner'' node)") auto
  have "size child \<le> size_list size vs" by (rule size_list_estimation' [OF vs(2)]) simp
  then show ?thesis using json_find_size [OF vs(1)] by simp
qed

definition join_name :: "string \<Rightarrow> string \<Rightarrow> string" where
  "join_name scope name =
     (if name = [] then scope else if scope = [] then name else scope @ ''::'' @ name)"

definition anonymous_scope_name :: "json \<Rightarrow> string" where
  "anonymous_scope_name node =
     (let name = string_or ''name'' [] node in
      if name = [] then ''(anonymous namespace)'' else name)"

section \<open>Locations\<close>

definition absolute_normalized :: "filesystem \<Rightarrow> string \<Rightarrow> string \<Rightarrow> string" where
  "absolute_normalized fs path base =
     (if path = [] then []
      else lexically_normal (absolute fs (if is_absolute path then path else path_append base path)))"

text \<open>A null pointer is \<open>None\<close>.\<close>

function physical_location :: "json \<Rightarrow> json option" where
  "physical_location l =
     (if \<not> is_object l then None
      else if json_find ''file'' l \<noteq> None then Some l
      else
        case (case json_find ''expansionLoc'' l of None \<Rightarrow> None | Some x \<Rightarrow> physical_location x) of
          Some nested \<Rightarrow> Some nested
        | None \<Rightarrow>
            (case (case json_find ''spellingLoc'' l of None \<Rightarrow> None | Some x \<Rightarrow> physical_location x) of
               Some nested \<Rightarrow> Some nested
             | None \<Rightarrow> Some l))"
  by pat_completeness auto
termination by (relation "measure size") (auto dest: json_find_size)

declare physical_location.simps [simp del]

definition node_file :: "filesystem \<Rightarrow> compile_command \<Rightarrow> json \<Rightarrow> string \<Rightarrow> string" where
  "node_file fs command node inherited =
     (case Option.bind (json_find ''loc'' node) physical_location of
        None \<Rightarrow> inherited
      | Some location \<Rightarrow>
          let path = string_or ''file'' [] location in
          if path \<noteq> [] \<and> hd path \<noteq> CHR ''<'' then absolute_normalized fs path (cc_directory command)
          else if json_find ''includedFrom'' location \<noteq> None \<and>
                  path_key inherited = path_key (cc_file command) then []
          else inherited)"

definition numeric_field :: "json option \<Rightarrow> string \<Rightarrow> nat" where
  "numeric_field object key =
     (case Option.bind object (json_find key) of Some (JNumber x) \<Rightarrow> nat \<lfloor>x\<rfloor> | _ \<Rightarrow> 0)"

definition location_variant :: "json option \<Rightarrow> string \<Rightarrow> json option" where
  "location_variant location variant =
     (case location of
        None \<Rightarrow> None
      | Some l \<Rightarrow>
          if \<not> is_object l then None
          else
            case json_find variant l of
              Some (JObject nested) \<Rightarrow> Some (JObject nested)
            | _ \<Rightarrow> if json_find ''spellingLoc'' l = None \<and> json_find ''expansionLoc'' l = None \<and>
                     variant = ''spellingLoc'' then Some l
                  else None)"

text \<open>The lines of a file, by the offsets of their first characters; a file that cannot be opened has none.\<close>

type_synonym line_memo = "string \<rightharpoonup> nat list"

definition line_starts :: "string \<Rightarrow> nat list" where
  "line_starts contents =
     0 # map Suc (filter (\<lambda>i. contents ! i = CHR 0x0A) [0..<length contents])"

definition file_line_offsets :: "filesystem \<Rightarrow> string \<Rightarrow> nat list" where
  "file_line_offsets fs path =
     (case fs_read fs path of
        Cannot_Open \<Rightarrow> []
      | Read_Failed \<Rightarrow> line_starts []
      | Contents contents \<Rightarrow> line_starts contents)"

definition source_line_offsets :: "filesystem \<Rightarrow> string \<Rightarrow> line_memo \<Rightarrow> nat list \<times> line_memo" where
  "source_line_offsets fs path memo =
     (case memo path of
        Some offsets \<Rightarrow> (offsets, memo)
      | None \<Rightarrow>
          let offsets = file_line_offsets fs path in (offsets, memo(path \<mapsto> offsets)))"

text \<open>\<open>upper_bound\<close>: how many lines start at the offset or before it.\<close>

definition line_index :: "nat list \<Rightarrow> nat \<Rightarrow> nat" where
  "line_index offsets offset = length (takeWhile (\<lambda>x. x \<le> offset) offsets)"

definition place_point :: "nat list \<Rightarrow> source_point \<Rightarrow> source_point" where
  "place_point offsets p =
     (if offsets = [] then p
      else
        let i = line_index offsets (sp_offset p) in
        p\<lparr>sp_line := (if sp_line p = 0 then i else sp_line p),
          sp_column := (if sp_column p = 0 \<and> i \<noteq> 0 then sp_offset p - offsets ! (i - 1) + 1
                        else sp_column p)\<rparr>)"

definition unknown_point :: source_point where
  "unknown_point = \<lparr>sp_file = [], sp_line = 0, sp_column = 0, sp_offset = 0, sp_token_length = 0\<rparr>"

definition printed_point :: "filesystem \<Rightarrow> compile_command \<Rightarrow> json \<Rightarrow> string \<Rightarrow> source_point" where
  "printed_point fs command l inherited =
     (let path = string_or ''file'' [] l in
      \<lparr>sp_file =
         (if path \<noteq> [] \<and> hd path \<noteq> CHR ''<'' then absolute_normalized fs path (cc_directory command)
          else if path = [] then inherited else []),
       sp_line = numeric_field (Some l) ''line'', sp_column = numeric_field (Some l) ''col'',
       sp_offset = numeric_field (Some l) ''offset'', sp_token_length = numeric_field (Some l) ''tokLen''\<rparr>)"

definition lacks_line :: "json \<Rightarrow> source_point \<Rightarrow> bool" where
  "lacks_line l p \<longleftrightarrow>
     sp_file p \<noteq> [] \<and> (case json_find ''offset'' l of Some (JNumber x) \<Rightarrow> True | _ \<Rightarrow> False) \<and>
     (sp_line p = 0 \<or> sp_column p = 0)"

definition source_point_of ::
    "filesystem \<Rightarrow> compile_command \<Rightarrow> json option \<Rightarrow> string \<Rightarrow> line_memo \<Rightarrow> source_point \<times> line_memo" where
  "source_point_of fs command location inherited memo =
     (case location of
        None \<Rightarrow> (unknown_point, memo)
      | Some l \<Rightarrow>
          let p = printed_point fs command l inherited in
          if lacks_line l p then
            let (offsets, memo) = source_line_offsets fs (sp_file p) memo in (place_point offsets p, memo)
          else (p, memo))"

definition source_extent_of ::
    "filesystem \<Rightarrow> compile_command \<Rightarrow> json \<Rightarrow> string \<Rightarrow> string \<Rightarrow> line_memo \<Rightarrow> source_extent \<times> line_memo" where
  "source_extent_of fs command node variant inherited memo =
     (let range = json_find ''range'' node;
          (location, memo) = source_point_of fs command (location_variant (json_find ''loc'' node) variant) inherited memo;
          range_file = (if sp_file location \<noteq> [] then sp_file location else inherited);
          (b, memo) = source_point_of fs command (location_variant (Option.bind range (json_find ''begin'')) variant) range_file memo;
          end_file = (if sp_file b \<noteq> [] then sp_file b else range_file);
          (e, memo) = source_point_of fs command (location_variant (Option.bind range (json_find ''end'')) variant) end_file memo;
          location = (if sp_file location = [] then b else location);
          b = (if sp_file b = [] then location else b);
          e = (if sp_file e = [] then b else e)
      in (\<lparr>sx_location = location, sx_begin = b, sx_end = e\<rparr>, memo))"

definition has_expansion_location :: "json \<Rightarrow> bool" where
  "has_expansion_location node \<longleftrightarrow>
     (let expanded = (\<lambda>v. Option.bind v (json_find ''expansionLoc'') \<noteq> None);
          range = json_find ''range'' node
      in expanded (json_find ''loc'' node) \<or> expanded (Option.bind range (json_find ''begin'')) \<or>
         expanded (Option.bind range (json_find ''end'')))"

definition symbol_source_of ::
    "filesystem \<Rightarrow> compile_command \<Rightarrow> json \<Rightarrow> string \<Rightarrow> line_memo \<Rightarrow> symbol_source \<times> line_memo" where
  "symbol_source_of fs command node inherited memo =
     (let (spelling, memo) = source_extent_of fs command node ''spellingLoc'' inherited memo in
      if has_expansion_location node then
        let (expansion, memo) = source_extent_of fs command node ''expansionLoc'' inherited memo in
        (\<lparr>ss_spelling = spelling, ss_expansion = Some expansion\<rparr>, memo)
      else (\<lparr>ss_spelling = spelling, ss_expansion = None\<rparr>, memo))"

section \<open>Paths and scopes\<close>

definition path_is_within :: "string \<Rightarrow> string \<Rightarrow> bool" where
  "path_is_within child parent \<longleftrightarrow>
     (if child = [] \<or> parent = [] then False
      else
        let relative = lexically_relative child parent in
        if relative = [] then path_key child = path_key parent
        else \<not> is_absolute relative \<and> hd (path_names relative) \<noteq> dot_dot)"

definition contains_path :: "string list \<Rightarrow> string \<Rightarrow> bool" where
  "contains_path paths path \<longleftrightarrow> list_ex (\<lambda>p. path_key p = path_key path) paths"

definition public_header_reason :: "string \<Rightarrow> string" where
  "public_header_reason path = ''declaration in public header '' @ path"

definition identity_path :: "string \<Rightarrow> string \<Rightarrow> string" where
  "identity_path path project_root =
     (if path = [] then []
      else if path_is_within path project_root then lexically_relative path project_root
      else lexically_normal path)"

definition fallback_identity_anchor :: "string \<Rightarrow> string \<Rightarrow> symbol_source \<Rightarrow> string \<Rightarrow> string" where
  "fallback_identity_anchor qualified signature source project_root =
     (let location = sx_location (case ss_expansion source of Some x \<Rightarrow> x | None \<Rightarrow> ss_spelling source) in
      qualified @ ''|'' @ signature @ ''|'' @ identity_path (sp_file location) project_root @ '':'' @
      to_string_nat (sp_offset location))"

definition symbol_scope_of :: "index_options \<Rightarrow> string \<Rightarrow> symbol_scope" where
  "symbol_scope_of options path =
     (if list_ex (path_is_within path) (ix_excluded_paths options) then Excluded
      else if \<not> path_is_within path (ix_project_root options) then External_Opaque
      else if list_ex (path_is_within path) (ix_report_paths options) then Reportable
      else Indexed)"

section \<open>Visibility and linkage\<close>

definition explicit_visibility :: "json \<Rightarrow> string option" where
  "explicit_visibility node =
     map_option (string_or ''visibility'' [])
       (find (\<lambda>child. string_or ''kind'' [] child = ''VisibilityAttr'') (children node))"

definition visibility_step :: "string \<Rightarrow> bool \<Rightarrow> bool" where
  "visibility_step argument hidden =
     (if argument = ''-fvisibility=hidden'' then True
      else if argument = ''-fvisibility=default'' \<or> argument = ''-fvisibility=protected'' then False
      else hidden)"

definition command_has_hidden_default_visibility :: "compile_command \<Rightarrow> bool" where
  "command_has_hidden_default_visibility command = fold visibility_step (cc_arguments command) False"

definition is_export_visible :: "json \<Rightarrow> compile_command \<Rightarrow> bool" where
  "is_export_visible node command =
     (case explicit_visibility node of
        Some visibility \<Rightarrow> visibility = ''default'' \<or> visibility = ''protected''
      | None \<Rightarrow> \<not> command_has_hidden_default_visibility command)"

text \<open>What comes before and after the first occurrence of a text.\<close>

fun around :: "string \<Rightarrow> string \<Rightarrow> (string \<times> string) option" where
  "around needle s =
     (if starts_with needle s then Some ([], drop (length needle) s)
      else case s of
             [] \<Rightarrow> None
           | c # cs \<Rightarrow> map_option (\<lambda>(ahead, behind). (c # ahead, behind)) (around needle cs))"

declare around.simps [simp del]

definition has_body :: "json \<Rightarrow> bool" where
  "has_body node \<longleftrightarrow>
     string_or ''explicitlyDefaulted'' [] node \<noteq> [] \<or>
     list_ex (\<lambda>child. let kind = string_or ''kind'' [] child in
       kind = ''CompoundStmt'' \<or> kind = ''CXXTryStmt'' \<or> kind = ''CoroutineBodyStmt'') (children node)"

definition has_override_attribute :: "json \<Rightarrow> bool" where
  "has_override_attribute node \<longleftrightarrow>
     list_ex (\<lambda>child. string_or ''kind'' [] child = ''OverrideAttr'') (children node)"

definition is_internal_symbol :: "json \<Rightarrow> string \<Rightarrow> string \<Rightarrow> string \<Rightarrow> bool" where
  "is_internal_symbol node kind mangled qualified \<longleftrightarrow>
     (kind = ''FunctionDecl'' \<and> string_or ''storageClass'' [] node = ''static'') \<or>
     starts_with ''_ZL'' mangled \<or> around ''GLOBAL__N'' mangled \<noteq> None \<or>
     around ''(anonymous namespace)'' qualified \<noteq> None"

section \<open>Types\<close>

definition type_string :: "json \<Rightarrow> string \<Rightarrow> string" where
  "type_string node field =
     (case json_find field node of None \<Rightarrow> [] | Some t \<Rightarrow> string_or ''qualType'' [] t)"

definition desugared_type_string :: "json \<Rightarrow> string" where
  "desugared_type_string node =
     (case json_find ''type'' node of
        None \<Rightarrow> []
      | Some t \<Rightarrow> string_or ''desugaredQualType'' (string_or ''qualType'' [] t) t)"

lemma around_split: "around needle s = Some (ahead, behind) \<Longrightarrow> s = ahead @ needle @ behind"
proof (induction needle s arbitrary: ahead behind rule: around.induct)
  case (1 needle s)
  show ?case
  proof (cases "starts_with needle s")
    case True
    with "1.prems" have "ahead = []" "behind = drop (length needle) s" by (simp_all add: around.simps [of needle s])
    then show ?thesis using True append_take_drop_id [of "length needle" s] by (simp add: starts_with_def)
  next
    case False
    with "1.prems" obtain c cs b where s: "s = c # cs" "around needle cs = Some (b, behind)" "ahead = c # b"
      by (auto simp: around.simps [of needle s] split: list.splits)
    then show ?thesis using "1.IH" [OF False s(1,2)] by simp
  qed
qed

function erase_all :: "string \<Rightarrow> string \<Rightarrow> string" where
  "erase_all needle s =
     (if needle = [] then s
      else case around needle s of None \<Rightarrow> s | Some (ahead, behind) \<Rightarrow> erase_all needle (ahead @ behind))"
  by pat_completeness auto
termination by (relation "measure (\<lambda>(needle, s). length s)") (auto dest: around_split)

declare erase_all.simps [simp del]

definition normalize_type :: "string \<Rightarrow> string" where
  "normalize_type t =
     (let t = erase_all ''class '' (erase_all ''struct '' (erase_all ''volatile '' (erase_all ''const '' t)));
          t = rev (dropWhile (\<lambda>c. c = CHR ''&'' \<or> c = CHR ''*'' \<or> stream_space c) (rev t))
      in dropWhile stream_space t)"

text \<open>The first argument of a template, up to a comma or bracket at its own depth.\<close>

fun first_argument :: "nat \<Rightarrow> string \<Rightarrow> string option" where
  "first_argument depth [] = None"
| "first_argument depth (c # cs) =
     (if c = CHR ''<'' then map_option ((#) c) (first_argument (Suc depth) cs)
      else if c = CHR ''>'' then
        (if depth = 0 then Some [] else map_option ((#) c) (first_argument (depth - 1) cs))
      else if c = CHR '','' \<and> depth = 0 then Some []
      else map_option ((#) c) (first_argument depth cs))"

definition element_type :: "string \<Rightarrow> string option" where
  "element_type t =
     (let element = normalize_type t in
      if element \<noteq> [] \<and> \<not> ends_with ''[]'' element then Some element else None)"

fun owning_element :: "string list \<Rightarrow> string \<Rightarrow> string option" where
  "owning_element [] normalized = None"
| "owning_element (pointer_name # names) normalized =
     (case around pointer_name normalized of
        None \<Rightarrow> owning_element names normalized
      | Some (ahead, behind) \<Rightarrow>
          if \<not> starts_with ''std::'' ahead \<or> list_ex (\<lambda>c. c \<in> set ''<>, '') ahead then
            owning_element names normalized
          else case first_argument 0 behind of
                 None \<Rightarrow> owning_element names normalized
               | Some argument \<Rightarrow> element_type argument)"

definition owning_pointer_element_type :: "string \<Rightarrow> string option" where
  "owning_pointer_element_type t = owning_element [''unique_ptr<'', ''shared_ptr<''] (normalize_type t)"

definition names_equivalent :: "string \<Rightarrow> string \<Rightarrow> bool" where
  "names_equivalent qualified possibly_relative \<longleftrightarrow>
     qualified = possibly_relative \<or>
     (length possibly_relative < length qualified \<and> ends_with possibly_relative qualified \<and>
      qualified ! (length qualified - length possibly_relative - 1) = CHR '':'')"

end
