(* ===== verification/Ast_Collect.thy ===== *)
theory Ast_Collect
  imports Ast_Values
begin

text \<open>
  The three walks over the syntax tree of a translation unit in \<open>src/indexer.cpp\<close>: names of
  scopes and records, declarations of functions, and uses of functions. They fill a graph of the
  unit's own facts. An \<open>unordered_map\<close> that is only searched is a map; the records, which are
  iterated later, are listed in the order in which they were first met.
\<close>

section \<open>The state of a translation unit\<close>

record record_info =
  ri_name :: string
  ri_bases :: "string list"

record unit_input =
  un_files :: filesystem
  un_command :: compile_command
  un_options :: index_options

record unit_state =
  us_graph :: graph
  us_contexts :: "string \<rightharpoonup> string"
  us_declarations :: "string \<rightharpoonup> nat"
  us_opaque :: "string \<rightharpoonup> symbol"
  us_bindings :: "string \<rightharpoonup> nat list"
  us_records :: "(string \<times> record_info) list"
  us_lines :: line_memo
  us_diagnostics :: "string list"
  us_matches :: "bool list"

definition clang_evidence :: "string \<Rightarrow> evidence" where
  "clang_evidence reason = \<lparr>ev_provider = ''clang_ast'', ev_reason = reason\<rparr>"

definition unit_file :: "unit_input \<Rightarrow> json \<Rightarrow> string \<Rightarrow> string" where
  "unit_file u node inherited = node_file (un_files u) (un_command u) node inherited"

definition kind_of :: "json \<Rightarrow> string" where
  "kind_of node = string_or ''kind'' [] node"

definition id_of :: "json \<Rightarrow> string" where
  "id_of node = string_or ''id'' [] node"

section \<open>Scopes and records\<close>

text \<open>\<open>operator[]\<close> of a hash map, followed by a change of the entry.\<close>

fun map_entry :: "'k \<Rightarrow> 'v \<Rightarrow> ('v \<Rightarrow> 'v) \<Rightarrow> ('k \<times> 'v) list \<Rightarrow> ('k \<times> 'v) list" where
  "map_entry k d f [] = [(k, f d)]"
| "map_entry k d f ((k', v) # kvs) =
     (if k = k' then (k', f v) # kvs else (k', v) # map_entry k d f kvs)"

definition base_names :: "json \<Rightarrow> string list" where
  "base_names node =
     (case json_find ''bases'' node of
        Some (JArray bases) \<Rightarrow> filter (\<lambda>b. b \<noteq> []) (map (\<lambda>base. normalize_type (type_string base ''type'')) bases)
      | _ \<Rightarrow> [])"

definition add_bases :: "string \<Rightarrow> string list \<Rightarrow> record_info \<Rightarrow> record_info" where
  "add_bases name bases r = r\<lparr>ri_name := name, ri_bases := fold push_unique bases (ri_bases r)\<rparr>"

definition set_context :: "json \<Rightarrow> string \<Rightarrow> unit_state \<Rightarrow> unit_state" where
  "set_context node scope st =
     (if id_of node = [] then st else st\<lparr>us_contexts := (us_contexts st)(id_of node \<mapsto> scope)\<rparr>)"

definition enter_context :: "unit_input \<Rightarrow> json \<Rightarrow> string \<Rightarrow> string \<Rightarrow> unit_state \<Rightarrow> string \<times> unit_state" where
  "enter_context u node scope path st =
     (if kind_of node = ''NamespaceDecl'' then
        let child_scope = join_name scope (anonymous_scope_name node) in
        (child_scope, set_context node child_scope st)
      else if is_record_kind (kind_of node) \<and> \<not> bool_or ''isImplicit'' False node \<and>
              string_or ''name'' [] node \<noteq> [] then
        let child_scope = join_name scope (string_or ''name'' [] node) in
        if has_indexed_body (symbol_scope_of (un_options u) path) then
          let st = set_context node child_scope st in
          (child_scope, st\<lparr>us_records :=
             map_entry child_scope \<lparr>ri_name = [], ri_bases = []\<rparr> (add_bases child_scope (base_names node))
               (us_records st)\<rparr>)
        else (child_scope, st)
      else (scope, st))"

fun collect_contexts :: "unit_input \<Rightarrow> string \<Rightarrow> string \<Rightarrow> json \<Rightarrow> unit_state \<Rightarrow> unit_state" where
  "collect_contexts u scope inherited node st =
     (let path = unit_file u node inherited;
          (child_scope, st) = enter_context u node scope path st
      in fold (\<lambda>child st. collect_contexts u child_scope path child st) (children node) st)"

declare collect_contexts.simps [simp del]

section \<open>Declarations\<close>

text \<open>The scope of the children of a node, and whether they are local to the translation unit.\<close>

definition declaration_scope :: "json \<Rightarrow> string \<Rightarrow> bool \<Rightarrow> string \<times> bool" where
  "declaration_scope node scope tu_local =
     (let kind = kind_of node;
          name = string_or ''name'' [] node;
          lambda = (case json_find ''definitionData'' node of
                      Some (JObject d) \<Rightarrow> bool_or ''isLambda'' False (JObject d) | _ \<Rightarrow> False);
          (child_scope, child_local) =
            (if kind = ''NamespaceDecl'' then (join_name scope (anonymous_scope_name node), tu_local)
             else if is_record_kind kind \<and> \<not> bool_or ''isImplicit'' False node then
               (if name \<noteq> [] then join_name scope name else scope, tu_local)
             else if kind = ''CXXRecordDecl'' then (scope, tu_local \<or> lambda)
             else (scope, tu_local))
      in (child_scope, child_local \<or> is_function_kind kind))"

definition owner_scope :: "json \<Rightarrow> string \<Rightarrow> unit_state \<Rightarrow> string" where
  "owner_scope node scope st =
     (let context_id = string_or ''parentDeclContextId'' [] node in
      if context_id = [] then scope
      else case us_contexts st context_id of Some owner \<Rightarrow> owner | None \<Rightarrow> scope)"

text \<open>The roots that the declaration of a symbol of the project gives rise to.\<close>

definition declared_roots :: "unit_input \<Rightarrow> json \<Rightarrow> string \<Rightarrow> bool \<Rightarrow> (root_kind \<times> evidence) list" where
  "declared_roots u node path internal =
     (if \<not> internal \<and> contains_path (ix_public_headers (un_options u)) path then
        [(Public_Api, \<lparr>ev_provider = ''library_api'', ev_reason = public_header_reason path\<rparr>)] else []) @
     (if \<not> internal \<and> ix_infer_exports (un_options u) \<and> has_body node \<and>
         contains_path (ix_selected_target_sources (un_options u)) (cc_file (un_command u)) \<and>
         is_export_visible node (un_command u) then
        [(Public_Api, \<lparr>ev_provider = ''library_api'',
           ev_reason = ''external definition has effective exported visibility''\<rparr>)] else []) @
     (if string_or ''name'' [] node = ''main'' \<and> has_body node then
        [(Application_Entry_Point, \<lparr>ev_provider = ''application_policy'',
           ev_reason = ''defined function named main is an application entry point''\<rparr>)] else [])"

definition declared_symbol ::
    "unit_input \<Rightarrow> json \<Rightarrow> string \<Rightarrow> string \<Rightarrow> bool \<Rightarrow> symbol_source \<Rightarrow> symbol_identity \<Rightarrow> symbol" where
  "declared_symbol u node owner path internal source identity =
     (let kind = kind_of node;
          name = string_or ''name'' [] node;
          scope_kind = symbol_scope_of (un_options u) path
      in \<lparr>sym_key = stable_symbol_key identity, sym_identity = identity, sym_name = name,
           sym_qualified_name = join_name owner name,
           sym_class_name = (if symbol_kind_of kind = Function then [] else owner),
           sym_signature = type_string node ''type'', sym_source = source,
           sym_kind = symbol_kind_of kind, sym_scope = scope_kind,
           sym_defined = (has_indexed_body scope_kind \<and> has_body node \<and>
             string_or ''mangledName'' [] node \<noteq> []),
           sym_internal_linkage = internal,
           sym_is_virtual = (bool_or ''virtual'' False node \<or> has_override_attribute node)\<rparr>)"

definition declare_symbol ::
    "unit_input \<Rightarrow> json \<Rightarrow> string \<Rightarrow> symbol \<Rightarrow> unit_state \<Rightarrow> unit_state result" where
  "declare_symbol u node path symbol st =
     (if id_of node = [] \<or> sym_key symbol = [] \<or> sym_scope symbol = Excluded then Inr st
      else if sym_scope symbol = External_Opaque then
        Inr (st\<lparr>us_opaque := (us_opaque st)(id_of node \<mapsto> symbol)\<rparr>)
      else
        rbind (add_or_merge_symbol symbol (us_graph st)) (\<lambda>(i, g).
        rbind (fold_result (\<lambda>(kind, evidence). add_root i kind evidence)
                 (declared_roots u node path (sym_internal_linkage symbol)) g) (\<lambda>g.
        Inr (st\<lparr>us_graph := g, us_declarations := (us_declarations st)(id_of node \<mapsto> i)\<rparr>))))"

definition declare_function ::
    "unit_input \<Rightarrow> json \<Rightarrow> string \<Rightarrow> string \<Rightarrow> bool \<Rightarrow> unit_state \<Rightarrow> unit_state result" where
  "declare_function u node scope path tu_local st =
     (let options = un_options u;
          mangled = string_or ''mangledName'' [] node;
          owner = owner_scope node scope st;
          qualified = join_name owner (string_or ''name'' [] node);
          internal = is_internal_symbol node (kind_of node) mangled qualified;
          (source, memo) = symbol_source_of (un_files u) (un_command u) node path (us_lines st);
          st = st\<lparr>us_lines := memo\<rparr>
      in rbind (make_symbol_identity (ix_configuration_id options) [] mangled
                  (if internal \<or> tu_local then identity_path (cc_file (un_command u)) (ix_project_root options) else [])
                  (fallback_identity_anchor qualified (type_string node ''type'') source (ix_project_root options)))
           (\<lambda>identity. declare_symbol u node path (declared_symbol u node owner path internal source identity) st))"

fun collect_declarations ::
    "unit_input \<Rightarrow> string \<Rightarrow> string \<Rightarrow> bool \<Rightarrow> json \<Rightarrow> unit_state \<Rightarrow> unit_state result" where
  "collect_declarations u scope inherited tu_local node st =
     (let path = unit_file u node inherited;
          (child_scope, child_local) = declaration_scope node scope tu_local
      in rbind (if is_function_kind (kind_of node) \<and> \<not> bool_or ''isImplicit'' False node then
                  declare_function u node scope path tu_local st
                else Inr st)
           (\<lambda>st. fold_result (\<lambda>child st. collect_declarations u child_scope path child_local child st) (children node) st))"

declare collect_declarations.simps [simp del]

section \<open>References\<close>

text \<open>A referenced declaration, if its kind is as required.\<close>

definition referenced_decl :: "(string \<Rightarrow> bool) \<Rightarrow> json \<Rightarrow> json option" where
  "referenced_decl ok node =
     (case json_find ''referencedDecl'' node of
        Some (JObject d) \<Rightarrow> if ok (kind_of (JObject d)) then Some (JObject d) else None
      | _ \<Rightarrow> None)"

definition own_references :: "json \<Rightarrow> string list" where
  "own_references node =
     (case referenced_decl is_function_kind node of
        Some d \<Rightarrow> if id_of d = [] then [] else [id_of d]
      | None \<Rightarrow> []) @
     (case json_find ''referencedMemberDecl'' node of Some (JString s) \<Rightarrow> [s] | _ \<Rightarrow> [])"

fun collect_reference_ids :: "json \<Rightarrow> string list" where
  "collect_reference_ids node = own_references node @ concat (map collect_reference_ids (children node))"

declare collect_reference_ids.simps [simp del]

text \<open>A list of symbols under construction, and the state.\<close>

type_synonym finding_ids = "nat list \<times> unit_state"

definition resolve_reference :: "string \<Rightarrow> finding_ids \<Rightarrow> finding_ids result" where
  "resolve_reference ast_id = (\<lambda>(found, st).
     case us_declarations st ast_id of
       Some i \<Rightarrow> Inr (push_unique i found, st)
     | None \<Rightarrow>
         (case us_opaque st ast_id of
            None \<Rightarrow> Inr (found, st)
          | Some symbol \<Rightarrow>
              rbind (add_or_merge_symbol symbol (us_graph st)) (\<lambda>(i, g).
              Inr (push_unique i found,
                   st\<lparr>us_graph := g, us_declarations := emplace ast_id i (us_declarations st)\<rparr>))))"

definition resolve_references :: "json \<Rightarrow> unit_state \<Rightarrow> finding_ids result" where
  "resolve_references expression st = fold_result resolve_reference (collect_reference_ids expression) ([], st)"

definition append_unique :: "nat list \<Rightarrow> nat list \<Rightarrow> nat list" where
  "append_unique destination source = fold push_unique source destination"

fun collect_lambda_operators :: "(string \<rightharpoonup> nat) \<Rightarrow> json \<Rightarrow> nat list \<Rightarrow> nat list" where
  "collect_lambda_operators declarations node output =
     (if kind_of node = ''CXXMethodDecl'' \<and> string_or ''name'' [] node = ''operator()'' then
        (case declarations (id_of node) of Some i \<Rightarrow> push_unique i output | None \<Rightarrow> output)
      else fold (\<lambda>child output. collect_lambda_operators declarations child output) (children node) output)"

declare collect_lambda_operators.simps [simp del]

definition bound_targets :: "json \<Rightarrow> unit_state \<Rightarrow> nat list" where
  "bound_targets expression st =
     (if kind_of expression = ''DeclRefExpr'' then
        (case referenced_decl (\<lambda>k. k = ''VarDecl'') expression of
           Some d \<Rightarrow> (case us_bindings st (id_of d) of Some targets \<Rightarrow> append_unique [] targets | None \<Rightarrow> [])
         | None \<Rightarrow> [])
      else [])"

definition call_operators :: "json \<Rightarrow> graph \<Rightarrow> nat list" where
  "call_operators expression g =
     (let callable_type = normalize_type (desugared_type_string expression) in
      if callable_type = [] then []
      else filter (\<lambda>i. sym_name (g_symbols g ! i) = ''operator()'' \<and>
                       names_equivalent (sym_class_name (g_symbols g ! i)) callable_type)
             [0..<length (g_symbols g)])"

fun resolve_callable_targets :: "json \<Rightarrow> unit_state \<Rightarrow> finding_ids result" where
  "resolve_callable_targets expression st =
     (let kind = kind_of expression in
      if kind = ''LambdaExpr'' then
        Inr (collect_lambda_operators (us_declarations st) expression [], st)
      else
        let found = bound_targets expression st in
        rbind (if kind = ''DeclRefExpr'' \<or> kind = ''MemberExpr'' then
                 rbind (resolve_references expression st) (\<lambda>(ids, st). Inr (append_unique found ids, st))
               else Inr (found, st)) (\<lambda>(found, st).
        let found = append_unique found (call_operators expression (us_graph st)) in
        if is_call_expression kind \<or> is_function_kind kind then Inr (found, st)
        else
          fold_result (\<lambda>child (found, st).
              rbind (resolve_callable_targets child st) (\<lambda>(ids, st). Inr (append_unique found ids, st)))
            (children expression) (found, st)))"

declare resolve_callable_targets.simps [simp del]

definition first_nonempty :: "string list \<Rightarrow> string" where
  "first_nonempty names = (case find (\<lambda>n. n \<noteq> []) names of Some n \<Rightarrow> n | None \<Rightarrow> [])"

fun referenced_variable_id :: "json \<Rightarrow> string" where
  "referenced_variable_id expression =
     (case if kind_of expression = ''DeclRefExpr'' then referenced_decl (\<lambda>k. k = ''VarDecl'') expression else None of
        Some d \<Rightarrow> id_of d
      | None \<Rightarrow> first_nonempty (map referenced_variable_id (children expression)))"

declare referenced_variable_id.simps [simp del]

fun referenced_function_name :: "json \<Rightarrow> string" where
  "referenced_function_name node =
     (case referenced_decl is_function_kind node of
        Some d \<Rightarrow> string_or ''name'' [] d
      | None \<Rightarrow> first_nonempty (map referenced_function_name (children node)))"

declare referenced_function_name.simps [simp del]

section \<open>Uses\<close>

text \<open>Where a use stands: in which function, or in the initializer of a variable.\<close>

record position =
  po_caller :: "nat option"
  po_global :: bool

fun use_reason :: "edge_kind \<Rightarrow> string" where
  "use_reason Direct_Call = ''direct call expression''"
| "use_reason Constructs = ''constructor or destructor use''"
| "use_reason Virtual_Dispatch = ''virtual dispatch''"
| "use_reason Callback_Edge = ''configured callback registration''"
| "use_reason Provider_Edge = ''configured provider edge''"

definition add_use :: "position \<Rightarrow> edge_kind \<Rightarrow> string \<Rightarrow> nat \<Rightarrow> unit_state \<Rightarrow> unit_state result" where
  "add_use pos kind reason target st =
     (case po_caller pos of
        Some caller \<Rightarrow>
          rbind (add_edge caller target kind (clang_evidence (if reason = [] then use_reason kind else reason)) (us_graph st))
            (\<lambda>g. Inr (st\<lparr>us_graph := g\<rparr>))
      | None \<Rightarrow>
          if po_global pos then
            rbind (add_root target Global_Initializer
                     (clang_evidence ''use from a namespace-scope variable initializer'') (us_graph st))
              (\<lambda>g. Inr (st\<lparr>us_graph := g\<rparr>))
          else Inr st)"

definition constructed_symbols :: "graph \<Rightarrow> string \<Rightarrow> string option \<Rightarrow> nat list" where
  "constructed_symbols g constructed_type signature =
     filter (\<lambda>i. let s = g_symbols g ! i in
         names_equivalent (sym_class_name s) constructed_type \<and>
         ((sym_kind s = Constructor \<and> (signature = None \<or> signature = Some (sym_signature s))) \<or>
          sym_kind s = Destructor))
       [0..<length (g_symbols g)]"

definition add_construction_edges ::
    "position \<Rightarrow> string \<Rightarrow> string option \<Rightarrow> string \<Rightarrow> unit_state \<Rightarrow> (bool \<times> unit_state) result" where
  "add_construction_edges pos constructed_type signature reason st =
     (let constructed_type = normalize_type constructed_type in
      if constructed_type = [] then Inr (False, st)
      else
        let ids = constructed_symbols (us_graph st) constructed_type signature in
        rbind (fold_result (add_use pos Constructs reason) ids st) (\<lambda>st. Inr (ids \<noteq> [], st)))"

definition add_factory_construction_edges :: "position \<Rightarrow> json \<Rightarrow> json \<Rightarrow> unit_state \<Rightarrow> unit_state result" where
  "add_factory_construction_edges pos call callee st =
     (if string_or ''valueCategory'' [] call \<noteq> ''prvalue'' then Inr st
      else
        case owning_pointer_element_type (desugared_type_string call) of
          None \<Rightarrow> Inr st
        | Some element \<Rightarrow>
            let helper = referenced_function_name callee in
            if helper = [] then Inr st
            else
              let standard = helper = ''make_unique'' \<or> helper = ''make_shared'' in
              rbind (add_construction_edges pos element None
                       (if standard then ''standard smart-pointer factory construction''
                        else ''conservative owning-pointer factory construction'') st) (\<lambda>(matched, st).
              Inr (if matched \<and> \<not> standard then
                     st\<lparr>us_diagnostics := us_diagnostics st @
                       [''unsupported owning-pointer factory '' @ helper @
                        ''; conservatively retained construction and destruction for '' @ element]\<rparr>
                   else st)))"

definition add_escapes :: "position \<Rightarrow> escape_kind \<Rightarrow> string \<Rightarrow> finding_ids \<Rightarrow> unit_state result" where
  "add_escapes pos kind reason = (\<lambda>(targets, st).
     rbind (fold_result (\<lambda>target. add_escape target kind (clang_evidence reason) (po_caller pos)) targets (us_graph st))
       (\<lambda>g. Inr (st\<lparr>us_graph := g\<rparr>)))"

text \<open>A callable passed as an argument, or stored in a \<open>std::function\<close>.\<close>

definition escape_callables :: "position \<Rightarrow> string \<Rightarrow> json \<Rightarrow> unit_state \<Rightarrow> unit_state result" where
  "escape_callables pos reason expression st =
     rbind (resolve_callable_targets expression st) (add_escapes pos Callable_Object reason)"

definition rule_name :: "callback_rule \<Rightarrow> string" where
  "rule_name rule =
     ''callback registration rule '' @ describe (cr_callee rule) @ '':'' @ to_string_nat (cr_argument_index rule)"

definition rule_evidence :: "callback_rule \<Rightarrow> evidence" where
  "rule_evidence rule =
     \<lparr>ev_provider = (if ev_provider (cr_evidence rule) = [] then ''callback_registration''
                     else ev_provider (cr_evidence rule)),
      ev_reason = (if ev_reason (cr_evidence rule) = [] then
                     ''configured callback argument '' @ to_string_nat (cr_argument_index rule) @ '' of '' @
                     describe (cr_callee rule)
                   else ev_reason (cr_evidence rule))\<rparr>"

definition register_callback :: "position \<Rightarrow> evidence \<Rightarrow> nat \<Rightarrow> graph \<Rightarrow> graph result" where
  "register_callback pos evidence callback g =
     (case po_caller pos of
        Some caller \<Rightarrow> add_edge caller callback Callback_Edge evidence g
      | None \<Rightarrow>
          if po_global pos then
            add_root callback Callback_Root
              (evidence\<lparr>ev_reason := ev_reason evidence @ '' from a namespace-scope initializer''\<rparr>) g
          else Inr g)"

text \<open>The callee is the first of the operands; the place after the argument is computed in 64 bits.\<close>

definition argument_place :: "callback_rule \<Rightarrow> nat" where
  "argument_place rule = (cr_argument_index rule + 1) mod 2 ^ 64"

definition apply_rule ::
    "position \<Rightarrow> nat list \<Rightarrow> json list \<Rightarrow> nat \<times> callback_rule \<Rightarrow> unit_state \<Rightarrow> unit_state result" where
  "apply_rule pos targets operands = (\<lambda>(rule_index, rule) st.
     if \<not> list_ex (\<lambda>target. matches (g_symbols (us_graph st) ! target) (cr_callee rule)) targets then Inr st
     else
       let st = st\<lparr>us_matches := (us_matches st)[rule_index := True]\<rparr> in
       if length operands \<le> argument_place rule then
         Inl (Runtime_Error (rule_name rule @ '' exceeds the registrar argument list''))
       else
         rbind (resolve_callable_targets (operands ! argument_place rule) st) (\<lambda>(callbacks, st).
         if callbacks = [] then
           Inl (Runtime_Error (rule_name rule @ '' did not resolve a callable argument''))
         else
           rbind (fold_result (register_callback pos (rule_evidence rule)) callbacks (us_graph st)) (\<lambda>g.
           Inr (st\<lparr>us_graph := g\<rparr>))))"

definition call_targets :: "json \<Rightarrow> unit_state \<Rightarrow> finding_ids result" where
  "call_targets callee st =
     rbind (resolve_references callee st) (\<lambda>(targets, st).
     if targets = [] then resolve_callable_targets callee st else Inr (targets, st))"

definition use_call ::
    "unit_input \<Rightarrow> position \<Rightarrow> json \<Rightarrow> json \<Rightarrow> json list \<Rightarrow> unit_state \<Rightarrow> unit_state result" where
  "use_call u pos node callee arguments st =
     rbind (call_targets callee st) (\<lambda>(targets, st).
     rbind (fold_result (add_use pos Direct_Call []) targets st) (\<lambda>st.
     rbind (add_factory_construction_edges pos node callee st) (\<lambda>st.
     rbind (fold_result (escape_callables pos ''callable value passed outside a direct callee position'') arguments st) (\<lambda>st.
     fold_result (apply_rule pos targets (callee # arguments))
       (zip [0..<length (ix_callback_rules (un_options u))] (ix_callback_rules (un_options u))) st))))"

definition is_construction :: "string \<Rightarrow> bool" where
  "is_construction kind \<longleftrightarrow> kind = ''CXXConstructExpr'' \<or> kind = ''CXXTemporaryObjectExpr''"

definition use_construction :: "position \<Rightarrow> json \<Rightarrow> unit_state \<Rightarrow> unit_state result" where
  "use_construction pos node st =
     (if \<not> is_construction (kind_of node) then Inr st
      else
        let constructor_type = type_string node ''ctorType'' in
        rbind (add_construction_edges pos (desugared_type_string node)
                 (if constructor_type = [] then None else Some constructor_type)
                 ''constructor or destructor use'' st) (\<lambda>(matched, st).
        if around ''std::function<'' (normalize_type (desugared_type_string node)) \<noteq> None then
          fold_result (escape_callables pos ''callable value stored in std::function'') (children node) st
        else Inr st))"

definition use_reference :: "position \<Rightarrow> bool \<Rightarrow> json \<Rightarrow> unit_state \<Rightarrow> unit_state result" where
  "use_reference pos callee_position node st =
     (if \<not> callee_position \<and> (kind_of node = ''DeclRefExpr'' \<or> kind_of node = ''MemberExpr'') then
        rbind (resolve_references node st) (add_escapes pos Address_Taken ''function referenced outside a callee position'')
      else Inr st)"

text \<open>A variable remembers the callables of its initializer until it is assigned.\<close>

definition bind_variable :: "json \<Rightarrow> unit_state \<Rightarrow> unit_state result" where
  "bind_variable node st =
     (if kind_of node \<noteq> ''VarDecl'' then Inr st
      else
        rbind (fold_result (\<lambda>child (found, st).
                 rbind (resolve_callable_targets child st) (\<lambda>(ids, st). Inr (append_unique found ids, st)))
               (children node) ([], st)) (\<lambda>(targets, st).
        Inr (if targets = [] then st else st\<lparr>us_bindings := (us_bindings st)(id_of node \<mapsto> targets)\<rparr>)))"

definition forget_variable :: "json \<Rightarrow> unit_state \<Rightarrow> unit_state" where
  "forget_variable node st =
     (if (kind_of node = ''BinaryOperator'' \<and> string_or ''opcode'' [] node = ''='') \<or>
         kind_of node = ''CompoundAssignOperator'' then
        (case children node of
           [] \<Rightarrow> st
         | assigned # _ \<Rightarrow> st\<lparr>us_bindings := (us_bindings st)(referenced_variable_id assigned := None)\<rparr>)
      else st)"

text \<open>The position of what a node contains; \<open>None\<close> if its uses are of no interest.\<close>

definition enter_position ::
    "unit_input \<Rightarrow> json \<Rightarrow> string \<Rightarrow> bool \<Rightarrow> position \<Rightarrow> unit_state \<Rightarrow> position option" where
  "enter_position u node path file_context pos st =
     Option.bind
       (if is_function_kind (kind_of node) then
          (case us_declarations st (id_of node) of
             None \<Rightarrow> None
           | Some i \<Rightarrow>
               if has_indexed_body (sym_scope (g_symbols (us_graph st) ! i))
               then Some \<lparr>po_caller = Some i, po_global = False\<rparr> else None)
        else Some pos)
       (\<lambda>pos.
     if kind_of node = ''VarDecl'' \<and> file_context \<and> po_caller pos = None then
       (if has_indexed_body (symbol_scope_of (un_options u) path) then Some (pos\<lparr>po_global := True\<rparr>) else None)
     else Some pos)"

definition is_file_context :: "string \<Rightarrow> bool" where
  "is_file_context kind \<longleftrightarrow>
     kind = ''TranslationUnitDecl'' \<or> kind = ''NamespaceDecl'' \<or> kind = ''LinkageSpecDecl''"

fun collect_uses ::
    "unit_input \<Rightarrow> position \<Rightarrow> bool \<Rightarrow> bool \<Rightarrow> string \<Rightarrow> json \<Rightarrow> unit_state \<Rightarrow> unit_state result" where
  "collect_uses u pos callee_position file_context inherited node st =
     (let kind = kind_of node;
          path = unit_file u node inherited
      in case enter_position u node path file_context pos st of
           None \<Rightarrow> Inr st
         | Some pos \<Rightarrow>
             rbind (bind_variable node st) (\<lambda>st.
             let st = forget_variable node st in
             if is_call_expression kind then
               (case children node of
                  [] \<Rightarrow> Inr st
                | callee # arguments \<Rightarrow>
                    rbind (use_call u pos node callee arguments st) (\<lambda>st.
                    rbind (collect_uses u pos True False path callee st) (\<lambda>st.
                    fold_result (\<lambda>argument st. collect_uses u pos False False path argument st) arguments st)))
             else
               rbind (use_construction pos node st) (\<lambda>st.
               rbind (use_reference pos callee_position node st) (\<lambda>st.
               fold_result (\<lambda>child st. collect_uses u pos callee_position (is_file_context kind) path child st)
                 (children node) st))))"

declare collect_uses.simps [simp del]

definition start_unit :: "index_options \<Rightarrow> unit_state" where
  "start_unit options =
     \<lparr>us_graph = empty_graph, us_contexts = Map.empty, us_declarations = Map.empty, us_opaque = Map.empty,
      us_bindings = Map.empty, us_records = [], us_lines = Map.empty, us_diagnostics = [],
      us_matches = replicate (length (ix_callback_rules options)) False\<rparr>"

definition declare_facts :: "unit_input \<Rightarrow> json list \<Rightarrow> unit_state \<Rightarrow> unit_state result" where
  "declare_facts u documents st =
     (let main = cc_file (un_command u);
          st = fold (collect_contexts u [] main) documents st
      in fold_result (collect_declarations u [] main False) documents st)"

definition outside :: position where
  "outside = \<lparr>po_caller = None, po_global = False\<rparr>"

definition collect_facts :: "unit_input \<Rightarrow> json list \<Rightarrow> unit_state \<Rightarrow> unit_state result" where
  "collect_facts u documents st =
     rbind (declare_facts u documents st)
       (fold_result (collect_uses u outside False False (cc_file (un_command u))) documents)"

end
