(* ===== verification/Ast_Facts.thy ===== *)
theory Ast_Facts
  imports Ast_Collect Graph_Merge
begin

text \<open>
  What the walk over the uses does to the state of a translation unit. Its effect is a sequence of
  small steps, each an operation of the graph or of one map; whatever every step keeps, the walk
  keeps. The walk fails in three ways only: contradicting declarations of one symbol, and a
  callback rule whose argument is missing or is not callable.
\<close>

section \<open>Outcomes\<close>

definition ends :: "('e \<Rightarrow> bool) \<Rightarrow> ('a \<Rightarrow> bool) \<Rightarrow> 'e + 'a \<Rightarrow> bool" where
  "ends E P r \<longleftrightarrow> (case r of Inl e \<Rightarrow> E e | Inr x \<Rightarrow> P x)"

lemma ends_simps [simp]: "ends E P (Inr x) \<longleftrightarrow> P x" "ends E P (Inl e) \<longleftrightarrow> E e"
  by (simp_all add: ends_def)

lemma ends_Inr: "ends E P r \<Longrightarrow> r = Inr x \<Longrightarrow> P x"
  by simp

lemma ends_Inl: "ends E P r \<Longrightarrow> r = Inl e \<Longrightarrow> E e"
  by simp

lemma ends_bind:
  assumes "ends E P r" and "\<And>x. P x \<Longrightarrow> ends E Q (f x)"
  shows "ends E Q (rbind r f)"
  using assms by (cases r) simp_all

lemma ends_mono: "ends E P r \<Longrightarrow> (\<And>x. P x \<Longrightarrow> Q x) \<Longrightarrow> ends E Q r"
  by (cases r) simp_all

lemma ends_fold:
  assumes "P s" and "\<And>x s. x \<in> set xs \<Longrightarrow> P s \<Longrightarrow> ends E P (f x s)"
  shows "ends E P (fold_result f xs s)"
  using assms
proof (induction xs arbitrary: s)
  case (Cons x xs)
  have step: "ends E P (f x s)" by (rule Cons.prems(2)) (simp_all add: Cons.prems(1))
  show ?case
    unfolding fold_result.simps
    by (rule ends_bind [OF step], rule Cons.IH, assumption, rule Cons.prems(2), simp)
qed simp

section \<open>The state\<close>

definition count_of :: "unit_state \<Rightarrow> nat" where
  "count_of st = length (g_symbols (us_graph st))"

definition scope_of :: "unit_state \<Rightarrow> nat \<Rightarrow> symbol_scope" where
  "scope_of st i = sym_scope (g_symbols (us_graph st) ! i)"

definition ids_ok :: "unit_state \<Rightarrow> nat list \<Rightarrow> bool" where
  "ids_ok st ids \<longleftrightarrow> (\<forall>i \<in> set ids. i < count_of st)"

definition defined_at :: "unit_state \<Rightarrow> nat \<Rightarrow> bool" where
  "defined_at st i \<longleftrightarrow> sym_defined (g_symbols (us_graph st) ! i)"

definition caller_ok :: "unit_state \<Rightarrow> position \<Rightarrow> bool" where
  "caller_ok st pos \<longleftrightarrow>
     (\<forall>c. po_caller pos = Some c \<longrightarrow> c < count_of st \<and> has_indexed_body (scope_of st c))"

definition unit_ok :: "unit_state \<Rightarrow> bool" where
  "unit_ok st \<longleftrightarrow>
     graph_wf (us_graph st) \<and> (\<forall>k i. us_declarations st k = Some i \<longrightarrow> i < count_of st) \<and>
     (\<forall>k ids. us_bindings st k = Some ids \<longrightarrow> ids_ok st ids) \<and>
     (\<forall>k s. us_opaque st k = Some s \<longrightarrow> sym_key s \<noteq> [] \<and> sym_scope s = External_Opaque)"

text \<open>The steps of the walk.\<close>

inductive use_step :: "unit_state \<Rightarrow> unit_state \<Rightarrow> bool" where
  step_edge: "caller_ok st pos \<Longrightarrow> po_caller pos = Some c \<Longrightarrow> t < count_of st \<Longrightarrow>
    kind \<in> {Direct_Call, Constructs, Callback_Edge} \<Longrightarrow> add_edge c t kind evidence (us_graph st) = Inr g \<Longrightarrow>
    use_step st (st\<lparr>us_graph := g\<rparr>)"
| step_root: "t < count_of st \<Longrightarrow> kind \<in> {Global_Initializer, Callback_Root} \<Longrightarrow>
    add_root t kind evidence (us_graph st) = Inr g \<Longrightarrow> use_step st (st\<lparr>us_graph := g\<rparr>)"
| step_escape: "caller_ok st pos \<Longrightarrow> t < count_of st \<Longrightarrow>
    kind \<in> {Callable_Object, Address_Taken} \<Longrightarrow> add_escape t kind evidence (po_caller pos) (us_graph st) = Inr g \<Longrightarrow>
    use_step st (st\<lparr>us_graph := g\<rparr>)"
| step_opaque: "us_declarations st k = None \<Longrightarrow> us_opaque st k = Some s \<Longrightarrow>
    add_or_merge_symbol s (us_graph st) = Inr (i, g) \<Longrightarrow>
    use_step st (st\<lparr>us_graph := g, us_declarations := emplace k i (us_declarations st)\<rparr>)"
| step_bind: "ids_ok st ids \<Longrightarrow> use_step st (st\<lparr>us_bindings := (us_bindings st)(k \<mapsto> ids)\<rparr>)"
| step_forget: "use_step st (st\<lparr>us_bindings := (us_bindings st)(k := None)\<rparr>)"
| step_note: "use_step st (st\<lparr>us_diagnostics := us_diagnostics st @ [d]\<rparr>)"
| step_match: "use_step st (st\<lparr>us_matches := (us_matches st)[r := True]\<rparr>)"

abbreviation use_steps :: "unit_state \<Rightarrow> unit_state \<Rightarrow> bool" where
  "use_steps \<equiv> use_step\<^sup>*\<^sup>*"

definition unit_extends :: "unit_state \<Rightarrow> unit_state \<Rightarrow> bool" where
  "unit_extends st st' \<longleftrightarrow>
     graph_extends (us_graph st) (us_graph st') \<and> us_declarations st \<subseteq>\<^sub>m us_declarations st' \<and>
     us_opaque st' = us_opaque st \<and> length (us_matches st') = length (us_matches st) \<and>
     (\<forall>i < count_of st. scope_of st' i = scope_of st i \<and> (defined_at st i \<longrightarrow> defined_at st' i))"

lemma unit_extends_count: "unit_extends st st' \<Longrightarrow> count_of st \<le> count_of st'"
  by (simp add: unit_extends_def graph_extends_length count_of_def)

lemma unit_extends_refl [simp]: "unit_extends st st"
  by (simp add: unit_extends_def)

lemma unit_extends_trans:
  assumes "unit_extends a b" "unit_extends b c"
  shows "unit_extends a c"
proof -
  have "us_declarations a \<subseteq>\<^sub>m us_declarations c" "graph_extends (us_graph a) (us_graph c)"
    using assms map_le_trans graph_extends_trans unfolding unit_extends_def by blast+
  moreover have "scope_of c i = scope_of a i \<and> (defined_at a i \<longrightarrow> defined_at c i)" if "i < count_of a" for i
    using that assms unit_extends_count [OF assms(1)] unfolding unit_extends_def
    by (metis order_less_le_trans)
  ultimately show ?thesis using assms unfolding unit_extends_def by simp
qed

lemma add_edge_Inr:
  "add_edge f t k ev g = Inr g' \<longleftrightarrow> f < length (g_symbols g) \<and> t < length (g_symbols g) \<and>
     g' = g\<lparr>g_edges := push_unique \<lparr>edge_from = f, edge_to = t, edge_kind = k, edge_evidence = ev\<rparr> (g_edges g)\<rparr>"
  by (auto simp: add_edge_def)

lemma add_root_Inr:
  "add_root t k ev g = Inr g' \<longleftrightarrow> t < length (g_symbols g) \<and>
     g' = g\<lparr>g_roots := push_unique \<lparr>root_symbol = t, root_kind = k, root_evidence = ev\<rparr> (g_roots g)\<rparr>"
  by (auto simp: add_root_def)

lemma add_escape_Inr:
  "add_escape t k ev f g = Inr g' \<longleftrightarrow> t < length (g_symbols g) \<and> (\<forall>i. f = Some i \<longrightarrow> i < length (g_symbols g)) \<and>
     g' = g\<lparr>g_escapes := push_unique \<lparr>esc_symbol = t, esc_from = f, esc_kind = k, esc_evidence = ev\<rparr> (g_escapes g)\<rparr>"
  by (auto simp: add_escape_def split: option.splits)

text \<open>A symbol outside of the project changes no scope.\<close>

lemma add_opaque_symbol:
  assumes wf: "graph_wf g" and opaque: "sym_scope s = External_Opaque"
    and eq: "add_or_merge_symbol s g = Inr (i, g')" and j: "j < length (g_symbols g)"
  shows "sym_scope (g_symbols g' ! j) = sym_scope (g_symbols g ! j) \<and>
    (sym_defined (g_symbols g ! j) \<longrightarrow> sym_defined (g_symbols g' ! j))"
proof (cases "g_key_to_id g (sym_key s)")
  case None
  then show ?thesis using eq opaque j by (auto simp: add_or_merge_symbol_def Let_def nth_append split: if_splits)
next
  case (Some k)
  then have k: "k < length (g_symbols g)" using wf by (simp add: graph_wf_index)
  then have "sym_scope (g_symbols g ! k) \<noteq> Excluded" using wf by (simp add: graph_wf_def)
  then have "\<not> scope_rank (sym_scope (g_symbols g ! k)) < scope_rank External_Opaque"
    by (cases "sym_scope (g_symbols g ! k)") simp_all
  then have "sym_scope (merge_fields (g_symbols g ! k) s) = sym_scope (g_symbols g ! k) \<and>
      (sym_defined (g_symbols g ! k) \<longrightarrow> sym_defined (merge_fields (g_symbols g ! k) s))"
    using opaque by (simp add: merge_fields_def Let_def)
  then show ?thesis using Some eq opaque j k
    by (auto simp: add_or_merge_symbol_def merge_symbol_Inr rbind_eq_Inr nth_list_update split: if_splits)
qed

lemma graph_extends_push:
  "graph_extends g (g\<lparr>g_edges := push_unique e (g_edges g)\<rparr>)"
  "graph_extends g (g\<lparr>g_roots := push_unique r (g_roots g)\<rparr>)"
  "graph_extends g (g\<lparr>g_escapes := push_unique x (g_escapes g)\<rparr>)"
  by (auto simp: graph_extends_def keys_of_def)

lemma use_step_ok:
  assumes "use_step st st'" "unit_ok st"
  shows "unit_ok st' \<and> unit_extends st st'"
  using assms
proof (induction rule: use_step.induct)
  case (step_edge st pos c t kind evidence g)
  then have wf: "graph_wf (us_graph st)" and g: "add_edge c t kind evidence (us_graph st) = Inr g"
    by (simp_all add: unit_ok_def)
  have "graph_wf g" using wf g by (auto simp: add_edge_Inr intro!: graph_wf_push(1))
  then show ?case using step_edge.prems g
    by (auto simp: unit_ok_def unit_extends_def graph_extends_push add_edge_Inr count_of_def ids_ok_def scope_of_def defined_at_def)
next
  case (step_root t st kind evidence g)
  then have wf: "graph_wf (us_graph st)" and g: "add_root t kind evidence (us_graph st) = Inr g"
    by (simp_all add: unit_ok_def)
  have "graph_wf g" using wf g by (auto simp: add_root_Inr intro!: graph_wf_push(2))
  then show ?case using step_root.prems g
    by (auto simp: unit_ok_def unit_extends_def graph_extends_push add_root_Inr count_of_def ids_ok_def scope_of_def defined_at_def)
next
  case (step_escape st pos t kind evidence g)
  then have wf: "graph_wf (us_graph st)" and g: "add_escape t kind evidence (po_caller pos) (us_graph st) = Inr g"
    by (simp_all add: unit_ok_def)
  have "graph_wf g" using wf g by (auto simp: add_escape_Inr intro!: graph_wf_push(3))
  then show ?case using step_escape.prems g
    by (auto simp: unit_ok_def unit_extends_def graph_extends_push add_escape_Inr count_of_def ids_ok_def scope_of_def defined_at_def)
next
  case (step_opaque st k s i g)
  then have wf: "graph_wf (us_graph st)" and s: "sym_scope s = External_Opaque" by (auto simp: unit_ok_def)
  note added = add_or_merge_symbol_wf [OF wf step_opaque.hyps(3)]
  then have longer: "length (g_symbols (us_graph st)) \<le> length (g_symbols g)" by (blast intro: graph_extends_length)
  have "us_declarations st \<subseteq>\<^sub>m emplace k i (us_declarations st)"
    using step_opaque.hyps(1) by (auto simp: map_le_def emplace_apply)
  moreover have "\<forall>k' j. emplace k i (us_declarations st) k' = Some j \<longrightarrow> j < length (g_symbols g)"
    using step_opaque.prems step_opaque.hyps(1) added longer
    by (auto simp: emplace_apply unit_ok_def count_of_def split: if_splits intro: order_less_le_trans)
  moreover have "\<forall>k ids. us_bindings st k = Some ids \<longrightarrow> (\<forall>i \<in> set ids. i < length (g_symbols g))"
    using step_opaque.prems longer unfolding unit_ok_def ids_ok_def count_of_def by (meson order_less_le_trans)
  ultimately show ?case
    using step_opaque.prems added add_opaque_symbol [OF wf s step_opaque.hyps(3)]
    by (auto simp: unit_ok_def unit_extends_def count_of_def ids_ok_def scope_of_def defined_at_def)
qed (auto simp: unit_ok_def unit_extends_def count_of_def ids_ok_def scope_of_def defined_at_def split: if_splits)

lemma use_steps_ok: "use_steps st st' \<Longrightarrow> unit_ok st \<Longrightarrow> unit_ok st' \<and> unit_extends st st'"
  by (induction rule: rtranclp_induct) (auto dest: use_step_ok intro: unit_extends_trans)

lemma ids_ok_extends: "ids_ok st ids \<Longrightarrow> unit_extends st st' \<Longrightarrow> ids_ok st' ids"
  using unit_extends_count by (fastforce simp: ids_ok_def)

lemma caller_ok_extends: "caller_ok st pos \<Longrightarrow> unit_extends st st' \<Longrightarrow> caller_ok st' pos"
  using unit_extends_count [of st st'] by (fastforce simp: caller_ok_def unit_extends_def)

section \<open>Resolving\<close>

definition fact_error :: "exn \<Rightarrow> bool" where
  "fact_error e \<longleftrightarrow>
     (\<exists>field key. e = incompatible field key) \<or>
     (\<exists>rule. e = Runtime_Error (rule_name rule @ '' exceeds the registrar argument list'') \<or>
             e = Runtime_Error (rule_name rule @ '' did not resolve a callable argument''))"

definition walked :: "unit_state \<Rightarrow> unit_state \<Rightarrow> bool" where
  "walked st st' \<longleftrightarrow> use_steps st st' \<and> unit_ok st' \<and> unit_extends st st'"

definition found_in :: "unit_state \<Rightarrow> finding_ids \<Rightarrow> bool" where
  "found_in st r \<longleftrightarrow> walked st (snd r) \<and> ids_ok (snd r) (fst r)"

abbreviation walks :: "unit_state \<Rightarrow> unit_state result \<Rightarrow> bool" where
  "walks st \<equiv> ends fact_error (walked st)"

abbreviation finds :: "unit_state \<Rightarrow> finding_ids result \<Rightarrow> bool" where
  "finds st \<equiv> ends fact_error (found_in st)"

lemma walked_refl: "unit_ok st \<Longrightarrow> walked st st"
  by (simp add: walked_def)

lemma walked_step: "use_step st st' \<Longrightarrow> unit_ok st \<Longrightarrow> walked st st'"
  using use_step_ok by (simp add: walked_def r_into_rtranclp)

lemma walked_trans: "walked a b \<Longrightarrow> walked b c \<Longrightarrow> walked a c"
  unfolding walked_def by (meson rtranclp_trans unit_extends_trans)

lemma walked_ok: "walked st st' \<Longrightarrow> unit_ok st'"
  by (simp add: walked_def)

lemma walked_ids: "walked st st' \<Longrightarrow> ids_ok st ids \<Longrightarrow> ids_ok st' ids"
  by (simp add: walked_def ids_ok_extends)

lemma walked_caller: "walked st st' \<Longrightarrow> caller_ok st pos \<Longrightarrow> caller_ok st' pos"
  by (simp add: walked_def caller_ok_extends)

lemma walks_from: "walked a b \<Longrightarrow> walks b r \<Longrightarrow> walks a r"
  by (erule ends_mono) (rule walked_trans)

lemma finds_from: "walked a b \<Longrightarrow> finds b r \<Longrightarrow> finds a r"
  by (erule ends_mono) (auto simp: found_in_def intro: walked_trans)

lemma walks_bind:
  assumes "walks st r" and "\<And>st'. walked st st' \<Longrightarrow> walks st' (f st')"
  shows "walks st (rbind r f)"
  using assms(1) by (rule ends_bind) (rule walks_from, assumption, rule assms(2))

lemma finds_bind:
  assumes "finds st r" and "\<And>ids st'. walked st st' \<Longrightarrow> ids_ok st' ids \<Longrightarrow> walks st' (f (ids, st'))"
  shows "walks st (rbind r f)"
proof (rule ends_bind [OF assms(1)])
  fix r assume "found_in st r"
  then have "walked st (snd r)" "ids_ok (snd r) (fst r)" by (simp_all add: found_in_def)
  from walks_from [OF this(1) assms(2) [OF this]] show "walks st (f r)" by simp
qed

lemma finds_bind_finds:
  assumes "finds st r" and "\<And>ids st'. walked st st' \<Longrightarrow> ids_ok st' ids \<Longrightarrow> finds st' (f (ids, st'))"
  shows "finds st (rbind r f)"
proof (rule ends_bind [OF assms(1)])
  fix r assume "found_in st r"
  then have "walked st (snd r)" "ids_ok (snd r) (fst r)" by (simp_all add: found_in_def)
  from finds_from [OF this(1) assms(2) [OF this]] show "finds st (f r)" by simp
qed

lemma walks_fold:
  assumes "unit_ok st" and "\<And>x st'. x \<in> set xs \<Longrightarrow> walked st st' \<Longrightarrow> walks st' (f x st')"
  shows "walks st (fold_result f xs st)"
  by (rule ends_fold, rule walked_refl, rule assms(1)) (blast intro: walks_from assms(2))

lemma finds_fold:
  assumes "unit_ok st" "ids_ok st ids"
    and "\<And>x ids st'. x \<in> set xs \<Longrightarrow> walked st st' \<Longrightarrow> ids_ok st' ids \<Longrightarrow> finds st' (f x (ids, st'))"
  shows "finds st (fold_result f xs (ids, st))"
proof (rule ends_fold)
  show "found_in st (ids, st)" by (simp add: found_in_def walked_refl assms(1,2))
  fix x r assume x: "x \<in> set xs" and "found_in st r"
  then have "walked st (snd r)" "ids_ok (snd r) (fst r)" by (simp_all add: found_in_def)
  from finds_from [OF this(1) assms(3) [OF x this]] show "finds st (f x r)" by simp
qed

lemma finds_Inr: "unit_ok st \<Longrightarrow> ids_ok st ids \<Longrightarrow> finds st (Inr (ids, st))"
  by (simp add: found_in_def walked_refl)

lemma ids_ok_push [simp]: "ids_ok st (push_unique i ids) \<longleftrightarrow> i < count_of st \<and> ids_ok st ids"
  by (auto simp: ids_ok_def)

lemma set_append_unique [simp]: "set (append_unique xs ys) = set xs \<union> set ys"
proof -
  have "set (fold push_unique ys xs) = set xs \<union> set ys" by (induction ys arbitrary: xs) auto
  then show ?thesis by (simp add: append_unique_def)
qed

lemma ids_ok_append [simp]: "ids_ok st (append_unique xs ys) \<longleftrightarrow> ids_ok st xs \<and> ids_ok st ys"
  by (auto simp: ids_ok_def)

lemma ids_ok_Nil [simp]: "ids_ok st []"
  by (simp add: ids_ok_def)

lemma merge_error: "add_or_merge_symbol s g = Inl e \<Longrightarrow> sym_key s \<noteq> [] \<Longrightarrow> sym_scope s \<noteq> Excluded \<Longrightarrow>
    \<exists>field key. e = incompatible field key"
  by (auto simp: add_or_merge_symbol_def merge_symbol_def Let_def rbind_eq_Inl split: option.splits if_splits)

lemma finds_reference:
  assumes ok: "unit_ok st" "ids_ok st ids"
  shows "finds st (resolve_reference k (ids, st))"
proof (cases "us_declarations st k")
  case (Some i)
  then show ?thesis
    using ok by (simp add: resolve_reference_def found_in_def walked_refl) (simp add: unit_ok_def)
next
  case None
  show ?thesis
  proof (cases "us_opaque st k")
    case None2: None
    then show ?thesis using None ok by (simp add: resolve_reference_def found_in_def walked_refl)
  next
    case (Some s)
    then have s: "sym_key s \<noteq> []" "sym_scope s \<noteq> Excluded" using ok(1) by (auto simp: unit_ok_def)
    show ?thesis
    proof (cases "add_or_merge_symbol s (us_graph st)")
      case (Inl e)
      then show ?thesis using None Some merge_error [OF Inl s] by (simp add: resolve_reference_def fact_error_def)
    next
      case (Inr r)
      then obtain i g where r: "add_or_merge_symbol s (us_graph st) = Inr (i, g)" by (cases r) simp
      let ?st = "st\<lparr>us_graph := g, us_declarations := emplace k i (us_declarations st)\<rparr>"
      have walked: "walked st ?st" by (rule walked_step [OF step_opaque [OF None Some r] ok(1)])
      have "i < count_of ?st"
        using add_or_merge_symbol_wf [OF _ r] ok(1) by (simp add: unit_ok_def count_of_def)
      then show ?thesis using None Some r walked walked_ids [OF walked ok(2)]
        by (simp add: resolve_reference_def found_in_def)
    qed
  qed
qed

lemma finds_references: "unit_ok st \<Longrightarrow> finds st (resolve_references expression st)"
  unfolding resolve_references_def by (rule finds_fold) (auto intro: finds_reference walked_ok)

lemma ids_ok_lambda:
  "unit_ok st \<Longrightarrow> ids_ok st acc \<Longrightarrow> ids_ok st (collect_lambda_operators (us_declarations st) node acc)"
proof (induction "size node" arbitrary: node acc rule: less_induct)
  case less
  have "ids_ok st (fold (\<lambda>child output. collect_lambda_operators (us_declarations st) child output) cs acc)"
    if "set cs \<subseteq> set (children node)" "ids_ok st acc" for cs acc
    using that by (induction cs arbitrary: acc) (auto intro: less.hyps [OF children_size] less.prems(1))
  then show ?case using less.prems
    by (auto simp: collect_lambda_operators.simps [of _ node] unit_ok_def split: option.splits)
qed

lemma ids_ok_bound: "unit_ok st \<Longrightarrow> ids_ok st (bound_targets expression st)"
  by (auto simp: bound_targets_def unit_ok_def split: option.splits)

lemma ids_ok_operators: "ids_ok st (call_operators expression (us_graph st))"
  by (auto simp: call_operators_def ids_ok_def count_of_def Let_def)

lemma finds_callables: "unit_ok st \<Longrightarrow> finds st (resolve_callable_targets expression st)"
proof (induction expression arbitrary: st rule: measure_induct_rule [of size])
  case (less expression)
  note ok = less.prems
  show ?case
  proof (cases "kind_of expression = ''LambdaExpr''")
    case True
    then show ?thesis using ok
      by (simp add: resolve_callable_targets.simps [of expression] found_in_def walked_refl ids_ok_lambda)
  next
    case False
    have operators: "finds st' (let found = append_unique ids (call_operators expression (us_graph st')) in
        if is_call_expression (kind_of expression) \<or> is_function_kind (kind_of expression) then Inr (found, st')
        else fold_result (\<lambda>child (found, st).
              rbind (resolve_callable_targets child st) (\<lambda>(ids, st). Inr (append_unique found ids, st)))
            (children expression) (found, st'))"
      if "walked st st'" "ids_ok st' ids" for ids st'
    proof -
      let ?found = "append_unique ids (call_operators expression (us_graph st'))"
      have found: "ids_ok st' ?found" by (simp add: that(2) ids_ok_operators)
      have "finds st' (fold_result (\<lambda>child (found, st).
              rbind (resolve_callable_targets child st) (\<lambda>(ids, st). Inr (append_unique found ids, st)))
            (children expression) (?found, st'))"
      proof (rule finds_fold [OF walked_ok [OF that(1)] found])
        fix child ids st2
        assume child: "child \<in> set (children expression)" and "walked st' st2" "ids_ok st2 ids"
        then have "finds st2 (resolve_callable_targets child st2)"
          by (intro less.IH children_size) (auto intro: walked_ok)
        then show "finds st2 ((\<lambda>(found, st). rbind (resolve_callable_targets child st)
            (\<lambda>(ids, st). Inr (append_unique found ids, st))) (ids, st2))"
          using \<open>ids_ok st2 ids\<close>
          by (auto intro!: finds_bind_finds finds_Inr intro: walked_ok walked_ids)
      qed
      then show ?thesis using finds_Inr [OF walked_ok [OF that(1)] found] by (simp add: Let_def)
    qed
    have "finds st (if kind_of expression = ''DeclRefExpr'' \<or> kind_of expression = ''MemberExpr'' then
        rbind (resolve_references expression st)
          (\<lambda>(ids, st'). Inr (append_unique (bound_targets expression st) ids, st'))
        else Inr (bound_targets expression st, st))"
      using ok ids_ok_bound [OF ok, of expression]
      by (auto intro!: finds_bind_finds finds_references finds_Inr intro: walked_ok walked_ids
          simp: found_in_def walked_refl)
    then show ?thesis
      unfolding resolve_callable_targets.simps [of expression] Let_def if_not_P [OF False]
      by (rule finds_bind_finds, unfold prod.case, intro operators [unfolded Let_def])
  qed
qed

section \<open>Uses\<close>

text \<open>Operations of the graph in a loop over symbols.\<close>

lemma walks_graph:
  assumes "unit_ok st" "caller_ok st pos" "ids_ok st ids"
    and step: "\<And>i st'. walked st st' \<Longrightarrow> i < count_of st' \<Longrightarrow>
      \<exists>g. f i (us_graph st') = Inr g \<and> walked st' (st'\<lparr>us_graph := g\<rparr>)"
  shows "walks st (rbind (fold_result f ids (us_graph st)) (\<lambda>g. Inr (st\<lparr>us_graph := g\<rparr>)))"
proof -
  have "ends fact_error (\<lambda>g. walked st (st\<lparr>us_graph := g\<rparr>)) (fold_result f ids (us_graph st))"
  proof (rule ends_fold)
    show "walked st (st\<lparr>us_graph := us_graph st\<rparr>)" by (simp add: walked_refl assms(1))
    fix i g assume i: "i \<in> set ids" and g: "walked st (st\<lparr>us_graph := g\<rparr>)"
    have "i < count_of (st\<lparr>us_graph := g\<rparr>)" using walked_ids [OF g assms(3)] i by (simp add: ids_ok_def)
    then obtain g' where "f i g = Inr g'" "walked (st\<lparr>us_graph := g\<rparr>) (st\<lparr>us_graph := g'\<rparr>)"
      using step [OF g] by auto
    then show "ends fact_error (\<lambda>g. walked st (st\<lparr>us_graph := g\<rparr>)) (f i g)"
      using walked_trans [OF g] by simp
  qed
  then show ?thesis by (rule ends_bind) simp
qed

lemma caller_count: "caller_ok st pos \<Longrightarrow> po_caller pos = Some c \<Longrightarrow> c < count_of st"
  by (simp add: caller_ok_def)

lemma walked_edge:
  assumes "unit_ok st" "caller_ok st pos" "po_caller pos = Some c" "t < count_of st"
    and "kind \<in> {Direct_Call, Constructs, Callback_Edge}"
  shows "\<exists>g. add_edge c t kind evidence (us_graph st) = Inr g \<and> walked st (st\<lparr>us_graph := g\<rparr>)"
proof -
  have "\<exists>g. add_edge c t kind evidence (us_graph st) = Inr g"
    using assms(4) caller_count [OF assms(2,3)] by (simp add: add_edge_Inr count_of_def)
  then show ?thesis using walked_step [OF step_edge [OF assms(2-5)] assms(1)] by blast
qed

lemma walked_root:
  assumes "unit_ok st" "t < count_of st" "kind \<in> {Global_Initializer, Callback_Root}"
  shows "\<exists>g. add_root t kind evidence (us_graph st) = Inr g \<and> walked st (st\<lparr>us_graph := g\<rparr>)"
proof -
  have "\<exists>g. add_root t kind evidence (us_graph st) = Inr g"
    using assms(2) by (simp add: add_root_Inr count_of_def)
  then show ?thesis using walked_step [OF step_root [OF assms(2,3)] assms(1)] by blast
qed

lemma walked_escape:
  assumes "unit_ok st" "caller_ok st pos" "t < count_of st" "kind \<in> {Callable_Object, Address_Taken}"
  shows "\<exists>g. add_escape t kind evidence (po_caller pos) (us_graph st) = Inr g \<and> walked st (st\<lparr>us_graph := g\<rparr>)"
proof -
  have "\<exists>g. add_escape t kind evidence (po_caller pos) (us_graph st) = Inr g"
    using assms(3) caller_count [OF assms(2)] by (simp add: add_escape_Inr count_of_def)
  then show ?thesis using walked_step [OF step_escape [OF assms(2-4)] assms(1)] by blast
qed

lemma walks_use:
  assumes "unit_ok st" "caller_ok st pos" "t < count_of st" "kind \<in> {Direct_Call, Constructs}"
  shows "walks st (add_use pos kind reason t st)"
proof (cases "po_caller pos")
  case None
  obtain g where "add_root t Global_Initializer
      (clang_evidence ''use from a namespace-scope variable initializer'') (us_graph st) = Inr g"
      "walked st (st\<lparr>us_graph := g\<rparr>)"
    using walked_root [OF assms(1,3)] by blast
  then show ?thesis using None by (simp add: add_use_def walked_refl assms(1))
next
  case (Some c)
  obtain g where "add_edge c t kind (clang_evidence (if reason = [] then use_reason kind else reason)) (us_graph st) = Inr g"
      "walked st (st\<lparr>us_graph := g\<rparr>)"
    using walked_edge [OF assms(1,2) Some assms(3), of kind] assms(4) by blast
  then show ?thesis using Some by (simp add: add_use_def)
qed

lemma walks_uses:
  assumes "unit_ok st" "caller_ok st pos" "ids_ok st ids" "kind \<in> {Direct_Call, Constructs}"
  shows "walks st (fold_result (add_use pos kind reason) ids st)"
proof (rule walks_fold [OF assms(1)])
  fix i st' assume i: "i \<in> set ids" and w: "walked st st'"
  show "walks st' (add_use pos kind reason i st')"
    using i walked_ids [OF w assms(3)]
    by (intro walks_use walked_ok [OF w] walked_caller [OF w assms(2)] assms(4)) (simp add: ids_ok_def)
qed

lemma walks_construction:
  assumes "unit_ok st" "caller_ok st pos"
  shows "ends fact_error (\<lambda>(matched, st'). walked st st') (add_construction_edges pos t signature reason st)"
proof -
  let ?ids = "constructed_symbols (us_graph st) (normalize_type t) signature"
  have "ids_ok st ?ids" by (auto simp: ids_ok_def constructed_symbols_def count_of_def)
  then have "walks st (fold_result (add_use pos Constructs reason) ?ids st)"
    by (rule walks_uses [OF assms]) simp
  then have "ends fact_error (\<lambda>(matched, st'). walked st st')
      (rbind (fold_result (add_use pos Constructs reason) ?ids st) (\<lambda>st. Inr (?ids \<noteq> [], st)))"
    by (rule ends_bind) simp
  then show ?thesis by (simp add: add_construction_edges_def Let_def walked_refl assms(1))
qed

lemma walks_factory:
  assumes "unit_ok st" "caller_ok st pos"
  shows "walks st (add_factory_construction_edges pos call callee st)"
proof -
  have noted: "walked st (st'\<lparr>us_diagnostics := us_diagnostics st' @ [d]\<rparr>)" if "walked st st'" for st' d
    using walked_trans [OF that walked_step [OF step_note walked_ok [OF that]]] .
  have "walks st (rbind (add_construction_edges pos t None reason st) (\<lambda>(matched, st). Inr (F matched st)))"
    if "\<And>matched st'. walked st st' \<Longrightarrow> walked st (F matched st')" for t reason F
    by (rule ends_bind [OF walks_construction [OF assms]]) (auto intro: that)
  from this [of "\<lambda>matched st. st"]
    this [of "\<lambda>matched st. if matched then st\<lparr>us_diagnostics := us_diagnostics st @ [d]\<rparr> else st" for d]
  show ?thesis
    by (simp add: add_factory_construction_edges_def Let_def walked_refl assms(1) noted split: option.splits)
qed

lemma walks_escapes:
  assumes "unit_ok st" "caller_ok st pos" "ids_ok st ids" "kind \<in> {Callable_Object, Address_Taken}"
  shows "walks st (add_escapes pos kind reason (ids, st))"
  unfolding add_escapes_def prod.case
  by (rule walks_graph [OF assms(1-3)])
    (rule walked_escape, auto intro: walked_ok walked_caller assms(2) simp: assms(4) [simplified])

lemma walks_escape_callables:
  assumes "unit_ok st" "caller_ok st pos"
  shows "walks st (escape_callables pos reason expression st)"
  unfolding escape_callables_def
  by (rule finds_bind [OF finds_callables [OF assms(1)]])
    (rule walks_escapes, auto intro: walked_ok walked_caller assms(2))

lemma walks_all_escape_callables:
  assumes "unit_ok st" "caller_ok st pos"
  shows "walks st (fold_result (escape_callables pos reason) expressions st)"
  by (rule walks_fold [OF assms(1)]) (rule walks_escape_callables, auto intro: walked_ok walked_caller assms(2))

lemma walks_rule:
  assumes "unit_ok st" "caller_ok st pos" "ids_ok st targets"
  shows "walks st (apply_rule pos targets operands (i, rule) st)"
proof -
  let ?st = "st\<lparr>us_matches := (us_matches st)[i := True]\<rparr>"
  have w: "walked st ?st" by (rule walked_step [OF step_match assms(1)])
  have callbacks: "walks st' (rbind (fold_result (register_callback pos (rule_evidence rule)) callbacks (us_graph st'))
      (\<lambda>g. Inr (st'\<lparr>us_graph := g\<rparr>)))"
    if st': "walked ?st st'" "ids_ok st' callbacks" for callbacks st'
  proof (rule walks_graph [OF walked_ok [OF st'(1)] _ st'(2)])
    show caller: "caller_ok st' pos" by (rule walked_caller [OF walked_trans [OF w st'(1)] assms(2)])
    fix c st2 assume st2: "walked st' st2" "c < count_of st2"
    show "\<exists>g. register_callback pos (rule_evidence rule) c (us_graph st2) = Inr g \<and> walked st2 (st2\<lparr>us_graph := g\<rparr>)"
    proof (cases "po_caller pos")
      case None
      then show ?thesis
        using walked_root [OF walked_ok [OF st2(1)] st2(2), of Callback_Root]
        by (auto simp: register_callback_def walked_refl walked_ok [OF st2(1)])
    next
      case (Some k)
      then show ?thesis
        using walked_edge [OF walked_ok [OF st2(1)] walked_caller [OF st2(1) caller] Some st2(2), of Callback_Edge]
        by (simp add: register_callback_def)
    qed
  qed
  have "walks ?st (rbind (resolve_callable_targets e ?st) (\<lambda>(callbacks, st).
         if callbacks = [] then Inl (Runtime_Error (rule_name rule @ '' did not resolve a callable argument''))
         else rbind (fold_result (register_callback pos (rule_evidence rule)) callbacks (us_graph st)) (\<lambda>g.
           Inr (st\<lparr>us_graph := g\<rparr>))))" for e
    by (rule finds_bind [OF finds_callables [OF walked_ok [OF w]]]) (auto simp: fact_error_def intro: callbacks)
  from walks_from [OF w this] show ?thesis
    by (auto simp: apply_rule_def Let_def walked_refl assms(1) fact_error_def)
qed

lemma finds_call_targets: "unit_ok st \<Longrightarrow> finds st (call_targets callee st)"
  unfolding call_targets_def
  by (rule finds_bind_finds [OF finds_references])
    (auto intro: finds_callables walked_ok walked_refl simp: found_in_def)

lemma walks_call_rest:
  assumes "unit_ok st" "caller_ok st pos" "ids_ok st targets"
  shows "walks st (rbind (add_factory_construction_edges pos node callee st) (\<lambda>st.
     rbind (fold_result (escape_callables pos reason) arguments st) (\<lambda>st.
     fold_result (apply_rule pos targets operands) rules st)))"
proof (intro walks_bind)
  show "walks st (add_factory_construction_edges pos node callee st)" by (rule walks_factory [OF assms(1,2)])
  fix st1 assume st1: "walked st st1"
  show "walks st1 (fold_result (escape_callables pos reason) arguments st1)"
    by (rule walks_all_escape_callables [OF walked_ok [OF st1] walked_caller [OF st1 assms(2)]])
  fix st2 assume "walked st1 st2"
  then have st2: "walked st st2" by (rule walked_trans [OF st1])
  show "walks st2 (fold_result (apply_rule pos targets operands) rules st2)"
  proof (rule walks_fold [OF walked_ok [OF st2]])
    fix r st3 assume "walked st2 st3"
    then have st3: "walked st st3" by (rule walked_trans [OF st2])
    show "walks st3 (apply_rule pos targets operands r st3)"
      using walks_rule [OF walked_ok [OF st3] walked_caller [OF st3 assms(2)] walked_ids [OF st3 assms(3)],
          of operands "fst r" "snd r"] by simp
  qed
qed

lemma walks_call:
  assumes "unit_ok st" "caller_ok st pos"
  shows "walks st (use_call u pos node callee arguments st)"
  unfolding use_call_def
proof (rule finds_bind [OF finds_call_targets [OF assms(1)]], unfold prod.case, rule walks_bind)
  fix targets st1 assume st1: "walked st st1" "ids_ok st1 targets"
  note caller = walked_caller [OF st1(1) assms(2)]
  show "walks st1 (fold_result (add_use pos Direct_Call []) targets st1)"
    by (rule walks_uses [OF walked_ok [OF st1(1)] caller st1(2)]) simp
  fix st2 assume st2: "walked st1 st2"
  show "walks st2 (rbind (add_factory_construction_edges pos node callee st2) (\<lambda>st.
     rbind (fold_result (escape_callables pos ''callable value passed outside a direct callee position'') arguments st) (\<lambda>st.
     fold_result (apply_rule pos targets (callee # arguments))
       (zip [0..<length (ix_callback_rules (un_options u))] (ix_callback_rules (un_options u))) st)))"
    by (rule walks_call_rest [OF walked_ok [OF st2] walked_caller [OF st2 caller] walked_ids [OF st2 st1(2)]])
qed

section \<open>The walk\<close>

lemma walks_node_construction:
  assumes "unit_ok st" "caller_ok st pos"
  shows "walks st (use_construction pos node st)"
proof -
  have "walks st (rbind (add_construction_edges pos t signature reason st) (\<lambda>(matched, st).
      if stored then fold_result (escape_callables pos reason') expressions st else Inr st))"
    for t signature reason stored reason' expressions
  proof (rule ends_bind [OF walks_construction [OF assms]], unfold split_beta)
    fix r :: "bool \<times> unit_state"
    assume w: "walked st (snd r)"
    have "walks (snd r) (fold_result (escape_callables pos reason') expressions (snd r))"
      by (rule walks_all_escape_callables [OF walked_ok [OF w] walked_caller [OF w assms(2)]])
    then show "walks st (if stored then fold_result (escape_callables pos reason') expressions (snd r) else Inr (snd r))"
      using w walks_from by simp
  qed
  then show ?thesis by (simp add: use_construction_def Let_def walked_refl assms(1))
qed

lemma walks_node_reference:
  assumes "unit_ok st" "caller_ok st pos"
  shows "walks st (use_reference pos callee_position node st)"
proof -
  have "walks st (rbind (resolve_references node st) (add_escapes pos Address_Taken reason))" for reason
  proof (rule finds_bind [OF finds_references [OF assms(1)]])
    fix ids st' assume "walked st st'" "ids_ok st' ids"
    then show "walks st' (add_escapes pos Address_Taken reason (ids, st'))"
      by (intro walks_escapes walked_ok walked_caller [OF _ assms(2)]) auto
  qed
  then show ?thesis by (simp add: use_reference_def walked_refl assms(1))
qed

lemma walks_bind_variable:
  assumes "unit_ok st"
  shows "walks st (bind_variable node st)"
proof -
  have "finds st (fold_result (\<lambda>child (found, st).
      rbind (resolve_callable_targets child st) (\<lambda>(ids, st). Inr (append_unique found ids, st))) children ([], st))"
    for children
  proof (rule finds_fold [OF assms ids_ok_Nil], unfold prod.case)
    fix child found st1 assume st1: "walked st st1" "ids_ok st1 found"
    show "finds st1 (rbind (resolve_callable_targets child st1) (\<lambda>(ids, st). Inr (append_unique found ids, st)))"
      by (rule finds_bind_finds [OF finds_callables [OF walked_ok [OF st1(1)]]])
        (auto simp: found_in_def intro: walked_refl walked_ok walked_ids st1(2))
  qed
  then have "walks st (rbind (fold_result (\<lambda>child (found, st).
      rbind (resolve_callable_targets child st) (\<lambda>(ids, st). Inr (append_unique found ids, st))) children ([], st))
      (\<lambda>(targets, st). Inr (if targets = [] then st else st\<lparr>us_bindings := (us_bindings st)(k \<mapsto> targets)\<rparr>)))"
    for children k
    by (rule finds_bind) (auto intro: walked_refl walked_ok walked_step [OF step_bind])
  then show ?thesis by (simp add: bind_variable_def walked_refl assms)
qed

lemma walked_forget:
  assumes "unit_ok st"
  shows "walked st (forget_variable node st)"
  using walked_step [OF step_forget assms] walked_refl [OF assms]
  by (simp add: forget_variable_def split: list.splits)

lemma enter_position_ok:
  assumes "unit_ok st" "caller_ok st pos" "enter_position u node path file_context pos st = Some pos'"
  shows "caller_ok st pos'"
  using assms
  by (auto simp: enter_position_def bind_eq_Some_conv caller_ok_def unit_ok_def scope_of_def
      split: if_splits option.splits)

lemma walks_collect_uses:
  "unit_ok st \<Longrightarrow> caller_ok st pos \<Longrightarrow>
     walks st (collect_uses u pos callee_position file_context inherited node st)"
proof (induction "size node" arbitrary: node st pos callee_position file_context inherited rule: less_induct)
  case less
  note ok = less.prems
  show ?case
  proof (cases "enter_position u node (unit_file u node inherited) file_context pos st")
    case None
    then show ?thesis by (simp add: collect_uses.simps [of u pos _ _ _ node] walked_refl ok(1))
  next
    case (Some at_node)
    note caller = enter_position_ok [OF ok Some]
    have rest: "walks st2 (fold_result (\<lambda>child st. collect_uses u at_node cp fc p child st) nodes st2)"
      if "walked st st2" "set nodes \<subseteq> set (children node)" for cp fc p nodes st2
    proof (rule walks_fold [OF walked_ok [OF that(1)]])
      fix child st3 assume child: "child \<in> set nodes" and st3: "walked st2 st3"
      show "walks st3 (collect_uses u at_node cp fc p child st3)"
        by (rule less.hyps [OF children_size walked_ok [OF st3] walked_caller [OF walked_trans [OF that(1) st3] caller]])
          (use child that(2) in blast)
    qed
    have body: "walks st2 (if is_call_expression (kind_of node) then
           (case children node of [] \<Rightarrow> Inr st2
            | callee # arguments \<Rightarrow>
                rbind (use_call u at_node node callee arguments st2) (\<lambda>st.
                rbind (collect_uses u at_node True False p callee st) (\<lambda>st.
                fold_result (\<lambda>argument st. collect_uses u at_node False False p argument st) arguments st)))
         else
           rbind (use_construction at_node node st2) (\<lambda>st.
           rbind (use_reference at_node callee_position node st) (\<lambda>st.
           fold_result (\<lambda>child st. collect_uses u at_node callee_position (is_file_context (kind_of node)) p child st)
             (children node) st)))"
      if st2: "walked st st2" for st2 p
    proof (cases "is_call_expression (kind_of node)")
      case False
      have "walks st2 (rbind (use_construction at_node node st2) (\<lambda>st.
           rbind (use_reference at_node callee_position node st) (\<lambda>st.
           fold_result (\<lambda>child st. collect_uses u at_node callee_position (is_file_context (kind_of node)) p child st)
             (children node) st)))"
        by (intro walks_bind walks_node_construction walks_node_reference rest)
          (blast intro: walked_ok walked_caller walked_trans st2 caller)+
      then show ?thesis using False by simp
    next
      case True
      show ?thesis
      proof (cases "children node")
        case Nil
        then show ?thesis using True walked_refl [OF walked_ok [OF st2]] by simp
      next
        case (Cons callee arguments)
        have "walks st2 (rbind (use_call u at_node node callee arguments st2) (\<lambda>st.
                rbind (collect_uses u at_node True False p callee st) (\<lambda>st.
                fold_result (\<lambda>argument st. collect_uses u at_node False False p argument st) arguments st)))"
        proof (intro walks_bind walks_call rest)
          fix st3 assume st3: "walked st2 st3"
          show "walks st3 (collect_uses u at_node True False p callee st3)"
            by (rule less.hyps [OF children_size walked_ok [OF st3] walked_caller [OF walked_trans [OF st2 st3] caller]])
              (simp add: Cons)
        qed (use Cons in \<open>auto intro: walked_ok walked_caller walked_trans st2 caller\<close>)
        then show ?thesis using True Cons by simp
      qed
    qed
    have forget: "walked st2 (forget_variable node st2)" if "walked st st2" for st2
      by (rule walked_forget [OF walked_ok [OF that]])
    show ?thesis
      unfolding collect_uses.simps [of u pos _ _ _ node] Let_def Some option.case
      by (rule walks_bind [OF walks_bind_variable [OF ok(1)]])
        (rule walks_from [OF forget], assumption, rule body, rule walked_trans, assumption, rule forget, assumption)
  qed
qed

end
