(* ===== verification/Ast_Walk.thy ===== *)
theory Ast_Walk
  imports Ast_Facts
begin

text \<open>
  What the walks over a syntax tree find. The sites of a tree are the calls in function bodies and
  in initializers, and the references to functions outside of a call; each one leaves its facts in
  the graph. Every function declared in the project becomes a symbol under its stable key.
\<close>

section \<open>Sites\<close>

datatype site = Call_Site position json | Reference_Site position json

text \<open>The functions of the project, by the ids of their nodes.\<close>

definition project_functions :: "unit_state \<Rightarrow> string \<rightharpoonup> nat" where
  "project_functions st k =
     (case us_declarations st k of
        Some i \<Rightarrow> if has_indexed_body (scope_of st i) then Some i else None
      | None \<Rightarrow> None)"

definition site_position ::
    "unit_input \<Rightarrow> (string \<rightharpoonup> nat) \<Rightarrow> json \<Rightarrow> string \<Rightarrow> bool \<Rightarrow> position \<Rightarrow> position option" where
  "site_position u functions node path file_context pos =
     (if is_function_kind (kind_of node) then
        map_option (\<lambda>i. \<lparr>po_caller = Some i, po_global = False\<rparr>) (functions (id_of node))
      else if kind_of node = ''VarDecl'' \<and> file_context \<and> po_caller pos = None then
        (if has_indexed_body (symbol_scope_of (un_options u) path) then Some (pos\<lparr>po_global := True\<rparr>) else None)
      else Some pos)"

fun use_sites ::
    "unit_input \<Rightarrow> (string \<rightharpoonup> nat) \<Rightarrow> position \<Rightarrow> bool \<Rightarrow> bool \<Rightarrow> string \<Rightarrow> json \<Rightarrow> site list" where
  "use_sites u functions pos callee_position file_context inherited node =
     (let kind = kind_of node;
          path = unit_file u node inherited
      in case site_position u functions node path file_context pos of
           None \<Rightarrow> []
         | Some pos \<Rightarrow>
             if is_call_expression kind then
               (case children node of
                  [] \<Rightarrow> []
                | callee # arguments \<Rightarrow>
                    Call_Site pos callee # use_sites u functions pos True False path callee @
                    concat (map (\<lambda>argument. use_sites u functions pos False False path argument) arguments))
             else
               (if \<not> callee_position \<and> (kind = ''DeclRefExpr'' \<or> kind = ''MemberExpr'')
                then [Reference_Site pos node] else []) @
               concat (map (\<lambda>child. use_sites u functions pos callee_position (is_file_context kind) path child)
                 (children node)))"

declare use_sites.simps [simp del]

text \<open>What a site leaves in the graph for a function it names.\<close>

definition call_recorded :: "graph \<Rightarrow> position \<Rightarrow> nat \<Rightarrow> bool" where
  "call_recorded g pos t \<longleftrightarrow>
     (case po_caller pos of
        Some c \<Rightarrow> \<lparr>edge_from = c, edge_to = t, edge_kind = Direct_Call,
                    edge_evidence = clang_evidence (use_reason Direct_Call)\<rparr> \<in> set (g_edges g)
      | None \<Rightarrow> po_global pos \<longrightarrow>
          \<lparr>root_symbol = t, root_kind = Global_Initializer,
           root_evidence = clang_evidence ''use from a namespace-scope variable initializer''\<rparr> \<in> set (g_roots g))"

definition reference_recorded :: "graph \<Rightarrow> position \<Rightarrow> nat \<Rightarrow> bool" where
  "reference_recorded g pos t \<longleftrightarrow>
     \<lparr>esc_symbol = t, esc_from = po_caller pos, esc_kind = Address_Taken,
      esc_evidence = clang_evidence ''function referenced outside a callee position''\<rparr> \<in> set (g_escapes g)"

fun site_recorded :: "(string \<rightharpoonup> nat) \<Rightarrow> graph \<Rightarrow> site \<Rightarrow> bool" where
  "site_recorded declared g (Call_Site pos callee) \<longleftrightarrow>
     (\<forall>k \<in> set (collect_reference_ids callee). \<forall>t. declared k = Some t \<longrightarrow> call_recorded g pos t)"
| "site_recorded declared g (Reference_Site pos node) \<longleftrightarrow>
     (\<forall>k \<in> set (collect_reference_ids node). \<forall>t. declared k = Some t \<longrightarrow> reference_recorded g pos t)"

lemma enter_position_site:
  "enter_position u node path file_context pos st =
     site_position u (project_functions st) node path file_context pos"
proof (cases "is_function_kind (kind_of node)")
  case True
  then have "kind_of node \<noteq> ''VarDecl''" by (auto simp: is_function_kind_def)
  then show ?thesis using True
    by (simp add: enter_position_def site_position_def project_functions_def scope_of_def split: option.splits)
next
  case False
  then show ?thesis by (simp add: enter_position_def site_position_def)
qed

lemma project_functions_extends:
  assumes "unit_ok st" "unit_extends st st'"
  shows "project_functions st \<subseteq>\<^sub>m project_functions st'"
proof (unfold map_le_def, intro ballI)
  fix k assume "k \<in> dom (project_functions st)"
  then obtain i where i: "us_declarations st k = Some i" "has_indexed_body (scope_of st i)" "project_functions st k = Some i"
    by (auto simp: project_functions_def split: option.splits if_splits)
  then have "us_declarations st' k = Some i" using assms(2) by (auto simp: unit_extends_def map_le_def dom_def)
  moreover have "scope_of st' i = scope_of st i" using i(1) assms by (simp add: unit_extends_def unit_ok_def)
  ultimately show "project_functions st k = project_functions st' k" using i by (simp add: project_functions_def)
qed

lemma site_position_mono:
  assumes "functions \<subseteq>\<^sub>m functions'" "site_position u functions node path fc pos = Some pos'"
  shows "site_position u functions' node path fc pos = Some pos'"
  using assms by (auto simp: site_position_def map_le_def dom_def split: if_splits)

lemma recorded_mono:
  assumes "graph_extends g g'"
  shows "call_recorded g pos t \<Longrightarrow> call_recorded g' pos t"
    and "reference_recorded g pos t \<Longrightarrow> reference_recorded g' pos t"
  using assms by (auto simp: call_recorded_def reference_recorded_def graph_extends_def split: option.splits)

lemma site_recorded_mono: "site_recorded declared g s \<Longrightarrow> graph_extends g g' \<Longrightarrow> site_recorded declared g' s"
  by (cases s) (auto intro: recorded_mono)

lemma walked_extends: "walked st st' \<Longrightarrow> graph_extends (us_graph st) (us_graph st')"
  by (simp add: walked_def unit_extends_def)

section \<open>Loops\<close>

lemma fold_visits:
  assumes "fold_result f xs st = Inr st'" "x \<in> set xs" "unit_ok st"
    and "\<And>x st'. x \<in> set xs \<Longrightarrow> walked st st' \<Longrightarrow> walks st' (f x st')"
  shows "\<exists>st1 st2. walked st st1 \<and> f x st1 = Inr st2 \<and> walked st2 st'"
proof -
  from assms(2) obtain ys zs where xs: "xs = ys @ x # zs" by (meson split_list)
  with assms(1) obtain st1 st2 where st: "fold_result f ys st = Inr st1" "f x st1 = Inr st2" "fold_result f zs st2 = Inr st'"
    by (auto simp: fold_result_append rbind_eq_Inr)
  have w1: "walked st st1"
    by (rule ends_Inr [OF walks_fold st(1)]) (use xs assms(3,4) in auto)
  have w2: "walked st1 st2" by (rule ends_Inr [OF assms(4) st(2)]) (simp_all add: xs w1)
  note w = walked_trans [OF w1 w2]
  have "walked st2 st'"
  proof (rule ends_Inr [OF walks_fold st(3)])
    fix z st3 assume "z \<in> set zs" "walked st2 st3"
    then show "walks st3 (f z st3)" by (intro assms(4) walked_trans [OF w]) (simp_all add: xs)
  qed (rule walked_ok [OF w2])
  then show ?thesis using w1 st(2) by blast
qed

lemma walked_Inr: "walks st r \<Longrightarrow> r = Inr st' \<Longrightarrow> walked st st'"
  by simp

lemma resolve_reference_finds:
  assumes "resolve_reference k (ids, st) = Inr (ids', st')"
  shows "set ids \<subseteq> set ids' \<and> us_declarations st \<subseteq>\<^sub>m us_declarations st' \<and>
    (\<forall>t. us_declarations st k = Some t \<longrightarrow> t \<in> set ids')"
  using assms
  by (auto simp: resolve_reference_def rbind_eq_Inr emplace_def map_le_def dom_def split: option.splits)

lemma resolve_references_find:
  assumes "resolve_references e st = Inr (ids, st')" "k \<in> set (collect_reference_ids e)"
    and "us_declarations st k = Some t"
  shows "t \<in> set ids"
proof -
  have "fold_result resolve_reference ks (ids0, st) = Inr (ids, st') \<Longrightarrow> us_declarations st k = Some t \<Longrightarrow>
      k \<in> set ks \<or> t \<in> set ids0 \<Longrightarrow> t \<in> set ids" for ks ids0
  proof (induction ks arbitrary: ids0 st)
    case (Cons k' ks)
    from Cons.prems(1) obtain ids1 st1 where step: "resolve_reference k' (ids0, st) = Inr (ids1, st1)"
      "fold_result resolve_reference ks (ids1, st1) = Inr (ids, st')"
      by (auto simp: rbind_eq_Inr)
    note found = resolve_reference_finds [OF step(1)]
    have "us_declarations st1 k = Some t" using found Cons.prems(2) by (auto simp: map_le_def dom_def)
    then show ?case by (rule Cons.IH [OF step(2)]) (use found Cons.prems in auto)
  qed simp
  then show ?thesis using assms unfolding resolve_references_def by blast
qed

section \<open>Every site is recorded\<close>

lemma use_recorded:
  assumes "add_use pos Direct_Call [] t st = Inr st'"
  shows "call_recorded (us_graph st') pos t"
  using assms
  by (auto simp: add_use_def call_recorded_def add_edge_Inr add_root_Inr rbind_eq_Inr split: option.splits if_splits)

lemma call_site_recorded:
  assumes ok: "unit_ok st" "caller_ok st pos" and st': "use_call u pos node callee arguments st = Inr st'"
    and k: "k \<in> set (collect_reference_ids callee)" "us_declarations st k = Some t"
  shows "call_recorded (us_graph st') pos t"
proof -
  from st' obtain targets st1 st2 where st1: "call_targets callee st = Inr (targets, st1)"
    and st2: "fold_result (add_use pos Direct_Call []) targets st1 = Inr st2"
    and rest: "rbind (add_factory_construction_edges pos node callee st2) (\<lambda>st.
      rbind (fold_result (escape_callables pos ''callable value passed outside a direct callee position'') arguments st) (\<lambda>st.
      fold_result (apply_rule pos targets (callee # arguments))
       (zip [0..<length (ix_callback_rules (un_options u))] (ix_callback_rules (un_options u))) st)) = Inr st'"
    unfolding use_call_def by (auto simp: rbind_eq_Inr)
  from st1 obtain ids st0 where refs: "resolve_references callee st = Inr (ids, st0)"
    by (auto simp: call_targets_def rbind_eq_Inr)
  have "t \<in> set ids" by (rule resolve_references_find [OF refs k])
  then have t: "t \<in> set targets" using st1 refs by (auto simp: call_targets_def split: if_splits)
  have found: "found_in st (targets, st1)" by (rule ends_Inr [OF finds_call_targets [OF ok(1)] st1])
  then have w1: "walked st st1" and ids: "ids_ok st1 targets" by (simp_all add: found_in_def)
  note caller1 = walked_caller [OF w1 ok(2)]
  have each: "walks st3 (add_use pos Direct_Call [] i st3)" if "i \<in> set targets" "walked st1 st3" for i st3
    using that walked_ids [OF that(2) ids]
    by (intro walks_use walked_ok [OF that(2)] walked_caller [OF that(2) caller1]) (simp_all add: ids_ok_def)
  obtain sa sb where s: "add_use pos Direct_Call [] t sa = Inr sb" "walked sb st2"
    using fold_visits [OF st2 t walked_ok [OF w1] each] by blast
  have w2: "walked st1 st2" by (rule walked_Inr [OF walks_uses [OF walked_ok [OF w1] caller1 ids] st2]) simp
  have "walked st2 st'" by (rule walked_Inr [OF walks_call_rest rest])
      (auto intro: walked_ok [OF w2] walked_caller [OF w2 caller1] walked_ids [OF w2 ids])
  then show ?thesis
    using recorded_mono(1) [OF walked_extends [OF walked_trans [OF s(2)]] use_recorded [OF s(1)]] by blast
qed

lemma escape_recorded:
  assumes "add_escape t Address_Taken (clang_evidence ''function referenced outside a callee position'')
      (po_caller pos) g = Inr g'"
  shows "reference_recorded g' pos t"
  using assms by (auto simp: reference_recorded_def add_escape_Inr)

lemma reference_site_recorded:
  assumes ok: "unit_ok st" "caller_ok st pos"
    and st': "rbind (resolve_references node st)
      (add_escapes pos Address_Taken ''function referenced outside a callee position'') = Inr st'"
    and k: "k \<in> set (collect_reference_ids node)" "us_declarations st k = Some t"
  shows "reference_recorded (us_graph st') pos t"
proof -
  from st' obtain ids st1 g where refs: "resolve_references node st = Inr (ids, st1)"
    and g: "fold_result (\<lambda>target. add_escape target Address_Taken
      (clang_evidence ''function referenced outside a callee position'') (po_caller pos)) ids (us_graph st1) = Inr g"
    and st'_eq: "st' = st1\<lparr>us_graph := g\<rparr>"
    by (auto simp: add_escapes_def rbind_eq_Inr)
  have "t \<in> set ids" by (rule resolve_references_find [OF refs k])
  then obtain ys zs g1 g2 where split: "ids = ys @ t # zs"
    and g1: "add_escape t Address_Taken (clang_evidence ''function referenced outside a callee position'')
      (po_caller pos) g1 = Inr g2"
    and rest: "fold_result (\<lambda>target. add_escape target Address_Taken
      (clang_evidence ''function referenced outside a callee position'') (po_caller pos)) zs g2 = Inr g"
    using g by (auto dest!: split_list simp: fold_result_append rbind_eq_Inr)
  have "graph_extends g2 g"
    by (rule fold_result_invariant [where P = "graph_extends g2", OF rest graph_extends_refl])
      (auto simp: add_escape_Inr intro: graph_extends_trans graph_extends_push)
  then show ?thesis using recorded_mono(2) [OF _ escape_recorded [OF g1]] st'_eq by simp
qed

definition recorded_all :: "(string \<rightharpoonup> nat) \<Rightarrow> unit_state \<Rightarrow> site list \<Rightarrow> bool" where
  "recorded_all declared st sites \<longleftrightarrow> (\<forall>s \<in> set sites. site_recorded declared (us_graph st) s)"

lemma recorded_all_mono: "recorded_all declared st sites \<Longrightarrow> walked st st' \<Longrightarrow> recorded_all declared st' sites"
  unfolding recorded_all_def using site_recorded_mono walked_extends by blast

lemma recorded_all_append [simp]:
  "recorded_all declared st (xs @ ys) \<longleftrightarrow> recorded_all declared st xs \<and> recorded_all declared st ys"
  "recorded_all declared st []"
  "recorded_all declared st (x # ys) \<longleftrightarrow> site_recorded declared (us_graph st) x \<and> recorded_all declared st ys"
  "recorded_all declared st (concat xss) \<longleftrightarrow> (\<forall>xs \<in> set xss. recorded_all declared st xs)"
  by (auto simp: recorded_all_def)

text \<open>The names that were declared when the walk began, and the functions among them.\<close>

definition knows :: "(string \<rightharpoonup> nat) \<Rightarrow> (string \<rightharpoonup> nat) \<Rightarrow> unit_state \<Rightarrow> bool" where
  "knows declared functions st \<longleftrightarrow>
     unit_ok st \<and> declared \<subseteq>\<^sub>m us_declarations st \<and> functions \<subseteq>\<^sub>m project_functions st"

lemma knows_walked:
  assumes "knows declared functions st" "walked st st'"
  shows "knows declared functions st'"
proof -
  have "functions \<subseteq>\<^sub>m project_functions st'"
    using assms project_functions_extends [of st st'] map_le_trans unfolding knows_def walked_def by blast
  moreover have "declared \<subseteq>\<^sub>m us_declarations st'"
    using assms map_le_trans unfolding knows_def walked_def unit_extends_def by blast
  ultimately show ?thesis using assms(2) by (simp add: knows_def walked_def)
qed

lemma knows_ok: "knows declared functions st \<Longrightarrow> unit_ok st"
  by (simp add: knows_def)

lemma knows_declared: "knows declared functions st \<Longrightarrow> declared k = Some t \<Longrightarrow> us_declarations st k = Some t"
  by (auto simp: knows_def map_le_def dom_def)

lemma fold_records:
  assumes "fold_result (\<lambda>child st. collect_uses u pos cp fc path child st) nodes st = Inr st'"
    and "knows declared functions st" "caller_ok st pos"
    and each: "\<And>child st1 st2. child \<in> set nodes \<Longrightarrow> knows declared functions st1 \<Longrightarrow> caller_ok st1 pos \<Longrightarrow>
      collect_uses u pos cp fc path child st1 = Inr st2 \<Longrightarrow>
      recorded_all declared st2 (use_sites u functions pos cp fc path child)"
    and "child \<in> set nodes"
  shows "recorded_all declared st' (use_sites u functions pos cp fc path child)"
proof -
  note ok = knows_ok [OF assms(2)]
  have "\<exists>st1 st2. walked st st1 \<and> collect_uses u pos cp fc path child st1 = Inr st2 \<and> walked st2 st'"
    by (rule fold_visits [OF assms(1,5) ok]) (blast intro: walks_collect_uses walked_ok walked_caller assms(3))
  then obtain st1 st2 where st: "walked st st1" "collect_uses u pos cp fc path child st1 = Inr st2" "walked st2 st'"
    by blast
  have "recorded_all declared st2 (use_sites u functions pos cp fc path child)"
    by (rule each [OF assms(5) knows_walked [OF assms(2) st(1)] walked_caller [OF st(1) assms(3)] st(2)])
  then show ?thesis by (rule recorded_all_mono [OF _ st(3)])
qed

lemma fold_walks:
  assumes "fold_result (\<lambda>child st. collect_uses u pos cp fc path child st) nodes st = Inr st'"
    and "unit_ok st" "caller_ok st pos"
  shows "walked st st'"
  by (rule walked_Inr [OF walks_fold assms(1)])
    (auto intro: assms(2) walks_collect_uses walked_ok walked_caller assms(3))

lemma collect_uses_records:
  "collect_uses u pos cp fc inherited node st = Inr st' \<Longrightarrow> knows declared functions st \<Longrightarrow> caller_ok st pos \<Longrightarrow>
     recorded_all declared st' (use_sites u functions pos cp fc inherited node)"
proof (induction "size node" arbitrary: node st st' pos cp fc inherited rule: less_induct)
  case less
  let ?path = "unit_file u node inherited"
  show ?case
  proof (cases "site_position u functions node ?path fc pos")
    case None
    then show ?thesis by (simp add: use_sites.simps [of u "functions" pos _ _ _ node])
  next
    case (Some at_node)
    have "functions \<subseteq>\<^sub>m project_functions st" using less.prems(2) by (simp add: knows_def)
    then have enter: "enter_position u node ?path fc pos st = Some at_node"
      unfolding enter_position_site by (rule site_position_mono [OF _ Some])
    note ok = knows_ok [OF less.prems(2)]
    note caller = enter_position_ok [OF ok less.prems(3) enter]
    from less.prems(1) obtain st1 where st1: "bind_variable node st = Inr st1"
      and body: "(if is_call_expression (kind_of node) then
               (case children node of
                  [] \<Rightarrow> Inr (forget_variable node st1)
                | callee # arguments \<Rightarrow>
                    rbind (use_call u at_node node callee arguments (forget_variable node st1)) (\<lambda>st.
                    rbind (collect_uses u at_node True False ?path callee st) (\<lambda>st.
                    fold_result (\<lambda>argument st. collect_uses u at_node False False ?path argument st) arguments st)))
             else
               rbind (use_construction at_node node (forget_variable node st1)) (\<lambda>st.
               rbind (use_reference at_node cp node st) (\<lambda>st.
               fold_result (\<lambda>child st. collect_uses u at_node cp (is_file_context (kind_of node)) ?path child st)
                 (children node) st))) = Inr st'"
      unfolding collect_uses.simps [of u pos _ _ _ node] Let_def enter option.case rbind_eq_Inr by blast
    let ?st = "forget_variable node st1"
    have "walked st st1" by (rule walked_Inr [OF walks_bind_variable [OF ok] st1])
    then have w: "walked st ?st" by (blast intro: walked_trans walked_forget walked_ok)
    note known = knows_walked [OF less.prems(2) w] and caller = walked_caller [OF w caller]
    have smaller: "recorded_all declared st2 (use_sites u functions at_node cp fc path child)"
      if "child \<in> set (children node)" "knows declared functions sta" "caller_ok sta at_node"
        "collect_uses u at_node cp fc path child sta = Inr st2" for child sta st2 cp fc path
      by (rule less.hyps [OF children_size [OF that(1)] that(4,2,3)])
    show ?thesis
    proof (cases "is_call_expression (kind_of node)")
      case True
      show ?thesis
      proof (cases "children node")
        case Nil
        then show ?thesis using True Some by (simp add: use_sites.simps [of u "functions" pos _ _ _ node])
      next
        case (Cons callee arguments)
        with True body obtain st2 st3 where st2: "use_call u at_node node callee arguments ?st = Inr st2"
          and st3: "collect_uses u at_node True False ?path callee st2 = Inr st3"
          and st'_def: "fold_result (\<lambda>argument st. collect_uses u at_node False False ?path argument st) arguments st3 = Inr st'"
          by (auto simp: rbind_eq_Inr)
        have w2: "walked ?st st2" by (rule walked_Inr [OF walks_call [OF knows_ok [OF known] caller] st2])
        note known2 = knows_walked [OF known w2] and caller2 = walked_caller [OF w2 caller]
        have w3: "walked st2 st3" by (rule walked_Inr [OF walks_collect_uses [OF knows_ok [OF known2] caller2] st3])
        note known3 = knows_walked [OF known2 w3] and caller3 = walked_caller [OF w3 caller2]
        have w4: "walked st3 st'" by (rule fold_walks [OF st'_def knows_ok [OF known3] caller3])
        have "site_recorded declared (us_graph st2) (Call_Site at_node callee)"
          using call_site_recorded [OF knows_ok [OF known] caller st2] knows_declared [OF known] by simp
        then have "site_recorded declared (us_graph st') (Call_Site at_node callee)"
          by (rule site_recorded_mono [OF _ walked_extends [OF walked_trans [OF w3 w4]]])
        moreover have "recorded_all declared st' (use_sites u functions at_node True False ?path callee)"
          by (rule recorded_all_mono [OF smaller [OF _ known2 caller2 st3] w4]) (simp add: Cons)
        moreover have "\<forall>argument \<in> set arguments.
            recorded_all declared st' (use_sites u functions at_node False False ?path argument)"
          by (intro ballI fold_records [OF st'_def known3 caller3]) (auto intro: smaller simp: Cons)
        ultimately show ?thesis
          using True Some Cons by (simp add: use_sites.simps [of u "functions" pos _ _ _ node] Let_def)
      qed
    next
      case False
      with body obtain st2 st3 where st2: "use_construction at_node node ?st = Inr st2"
        and st3: "use_reference at_node cp node st2 = Inr st3"
        and st'_def: "fold_result (\<lambda>child st. collect_uses u at_node cp (is_file_context (kind_of node)) ?path child st)
          (children node) st3 = Inr st'"
        by (auto simp: rbind_eq_Inr)
      have w2: "walked ?st st2" by (rule walked_Inr [OF walks_node_construction [OF knows_ok [OF known] caller] st2])
      note known2 = knows_walked [OF known w2] and caller2 = walked_caller [OF w2 caller]
      have w3: "walked st2 st3" by (rule walked_Inr [OF walks_node_reference [OF knows_ok [OF known2] caller2] st3])
      note known3 = knows_walked [OF known2 w3] and caller3 = walked_caller [OF w3 caller2]
      have w4: "walked st3 st'" by (rule fold_walks [OF st'_def knows_ok [OF known3] caller3])
      have "site_recorded declared (us_graph st3) (Reference_Site at_node node)"
        if "\<not> cp \<and> (kind_of node = ''DeclRefExpr'' \<or> kind_of node = ''MemberExpr'')"
        using reference_site_recorded [OF knows_ok [OF known2] caller2, of node st3] st3 that knows_declared [OF known2]
        by (simp add: use_reference_def)
      then have "site_recorded declared (us_graph st') (Reference_Site at_node node)"
        if "\<not> cp \<and> (kind_of node = ''DeclRefExpr'' \<or> kind_of node = ''MemberExpr'')"
        using that by (blast intro: site_recorded_mono [OF _ walked_extends [OF w4]])
      moreover have "\<forall>child \<in> set (children node).
          recorded_all declared st' (use_sites u functions at_node cp (is_file_context (kind_of node)) ?path child)"
        by (intro ballI fold_records [OF st'_def known3 caller3]) (auto intro: smaller)
      ultimately show ?thesis
        using False Some by (simp add: use_sites.simps [of u "functions" pos _ _ _ node] Let_def)
    qed
  qed
qed

end
