(* ===== verification/Ast_Declared.thy ===== *)
theory Ast_Declared
  imports Ast_Walk Artifact_Facts
begin

text \<open>
  What the walk over the declarations does: it declares the functions of the tree one after the
  other. The memo of line offsets changes no result.
\<close>

section \<open>The memo of line offsets\<close>

definition memo_ok :: "filesystem \<Rightarrow> line_memo \<Rightarrow> bool" where
  "memo_ok fs memo \<longleftrightarrow> (\<forall>path offsets. memo path = Some offsets \<longrightarrow> offsets = file_line_offsets fs path)"

lemma memo_ok_empty [simp]: "memo_ok fs Map.empty"
  by (simp add: memo_ok_def)

lemma source_line_offsets_memo:
  "memo_ok fs memo \<Longrightarrow> fst (source_line_offsets fs path memo) = file_line_offsets fs path \<and>
     memo_ok fs (snd (source_line_offsets fs path memo))"
  by (auto simp: memo_ok_def source_line_offsets_def Let_def split: option.splits)

definition plain_point :: "filesystem \<Rightarrow> compile_command \<Rightarrow> json option \<Rightarrow> string \<Rightarrow> source_point" where
  "plain_point fs command location inherited = fst (source_point_of fs command location inherited Map.empty)"

lemma source_point_memo:
  assumes "memo_ok fs memo"
  shows "fst (source_point_of fs command location inherited memo) = plain_point fs command location inherited \<and>
    memo_ok fs (snd (source_point_of fs command location inherited memo))"
  using source_line_offsets_memo [OF assms] source_line_offsets_memo [OF memo_ok_empty] assms
  by (cases location) (simp_all add: plain_point_def source_point_of_def Let_def split_beta)

definition plain_extent ::
    "filesystem \<Rightarrow> compile_command \<Rightarrow> json \<Rightarrow> string \<Rightarrow> string \<Rightarrow> source_extent" where
  "plain_extent fs command node variant inherited =
     fst (source_extent_of fs command node variant inherited Map.empty)"

lemma source_extent_memo:
  assumes "memo_ok fs memo"
  shows "fst (source_extent_of fs command node variant inherited memo) = plain_extent fs command node variant inherited \<and>
    memo_ok fs (snd (source_extent_of fs command node variant inherited memo))"
  using assms by (simp add: plain_extent_def source_extent_of_def Let_def split_beta source_point_memo)

definition plain_source :: "filesystem \<Rightarrow> compile_command \<Rightarrow> json \<Rightarrow> string \<Rightarrow> symbol_source" where
  "plain_source fs command node inherited = fst (symbol_source_of fs command node inherited Map.empty)"

lemma symbol_source_memo:
  assumes "memo_ok fs memo"
  shows "fst (symbol_source_of fs command node inherited memo) = plain_source fs command node inherited \<and>
    memo_ok fs (snd (symbol_source_of fs command node inherited memo))"
  using assms by (simp add: plain_source_def symbol_source_of_def Let_def split_beta source_extent_memo)

section \<open>The declared functions of a tree\<close>

text \<open>The nodes of functions, each with its scope, its file, and whether it is local to the unit.\<close>

fun function_nodes ::
    "unit_input \<Rightarrow> string \<Rightarrow> string \<Rightarrow> bool \<Rightarrow> json \<Rightarrow> (json \<times> string \<times> string \<times> bool) list" where
  "function_nodes u scope inherited tu_local node =
     (let path = unit_file u node inherited;
          (child_scope, child_local) = declaration_scope node scope tu_local
      in (if is_function_kind (kind_of node) \<and> \<not> bool_or ''isImplicit'' False node
          then [(node, scope, path, tu_local)] else []) @
         concat (map (\<lambda>child. function_nodes u child_scope path child_local child) (children node)))"

declare function_nodes.simps [simp del]

definition declare_node :: "unit_input \<Rightarrow> json \<times> string \<times> string \<times> bool \<Rightarrow> unit_state \<Rightarrow> unit_state result" where
  "declare_node u = (\<lambda>(node, scope, path, tu_local). declare_function u node scope path tu_local)"

lemma fold_result_concat:
  "fold_result f (concat xss) st = fold_result (\<lambda>xs. fold_result f xs) xss st"
  by (induction xss arbitrary: st) (auto simp: fold_result_append intro!: rbind_cong)

lemma fold_result_map: "fold_result f (map g xs) st = fold_result (\<lambda>x. f (g x)) xs st"
  by (induction xs arbitrary: st) (auto intro!: rbind_cong)

lemma collect_declarations_fold:
  "collect_declarations u scope inherited tu_local node st =
     fold_result (declare_node u) (function_nodes u scope inherited tu_local node) st"
proof (induction "size node" arbitrary: scope inherited tu_local node st rule: less_induct)
  case less
  let ?path = "unit_file u node inherited"
  obtain child_scope child_local where scope: "declaration_scope node scope tu_local = (child_scope, child_local)"
    by (cases "declaration_scope node scope tu_local")
  have "fold_result (\<lambda>child st. collect_declarations u child_scope ?path child_local child st) (children node) st =
      fold_result (\<lambda>child. fold_result (declare_node u) (function_nodes u child_scope ?path child_local child))
        (children node) st" for st
    by (rule fold_result_cong) (simp_all add: less.hyps [OF children_size])
  then have children: "fold_result (\<lambda>child st. collect_declarations u child_scope ?path child_local child st) (children node) =
      fold_result (declare_node u) (concat (map (\<lambda>child. function_nodes u child_scope ?path child_local child) (children node)))"
    by (simp add: fun_eq_iff fold_result_concat fold_result_map)
  show ?case
    unfolding collect_declarations.simps [of u scope _ _ node] function_nodes.simps [of u scope _ _ node]
      scope Let_def prod.case fold_result_append children
    by (rule rbind_cong) (auto simp: declare_node_def rbind_def split: sum.splits)
qed

section \<open>Declaring one function\<close>

definition node_owner :: "(string \<rightharpoonup> string) \<Rightarrow> json \<Rightarrow> string \<Rightarrow> string" where
  "node_owner contexts node scope =
     (let context_id = string_or ''parentDeclContextId'' [] node in
      if context_id = [] then scope
      else case contexts context_id of Some owner \<Rightarrow> owner | None \<Rightarrow> scope)"

text \<open>The symbol that a node of a function stands for.\<close>

definition node_symbol ::
    "unit_input \<Rightarrow> (string \<rightharpoonup> string) \<Rightarrow> json \<times> string \<times> string \<times> bool \<Rightarrow> symbol result" where
  "node_symbol u contexts = (\<lambda>(node, scope, path, tu_local).
     let options = un_options u;
         mangled = string_or ''mangledName'' [] node;
         owner = node_owner contexts node scope;
         qualified = join_name owner (string_or ''name'' [] node);
         internal = is_internal_symbol node (kind_of node) mangled qualified;
         source = plain_source (un_files u) (un_command u) node path
     in rbind (make_symbol_identity (ix_configuration_id options) [] mangled
                 (if internal \<or> tu_local then identity_path (cc_file (un_command u)) (ix_project_root options) else [])
                 (fallback_identity_anchor qualified (type_string node ''type'') source (ix_project_root options)))
          (\<lambda>identity. Inr (declared_symbol u node owner path internal source identity)))"

lemma declare_node_symbol:
  assumes "memo_ok (un_files u) (us_lines st)"
  shows "declare_node u n st =
    rbind (node_symbol u (us_contexts st) n) (\<lambda>s.
      declare_symbol u (fst n) (fst (snd (snd n))) s
        (st\<lparr>us_lines := snd (symbol_source_of (un_files u) (un_command u) (fst n) (fst (snd (snd n))) (us_lines st))\<rparr>))"
proof -
  obtain node scope path tu_local where n: "n = (node, scope, path, tu_local)" by (cases n)
  have "fst (symbol_source_of (un_files u) (un_command u) node path (us_lines st)) =
      plain_source (un_files u) (un_command u) node path"
    using symbol_source_memo [OF assms] by simp
  moreover have "node_owner (us_contexts st) node scope = owner_scope node scope st"
    by (simp add: owner_scope_def node_owner_def)
  ultimately show ?thesis
    unfolding n declare_node_def node_symbol_def prod.case declare_function_def
    by (simp add: Let_def split_beta rbind_assoc)
qed

lemma node_symbol_Inr:
  assumes "ix_configuration_id (un_options u) \<noteq> []"
  shows "\<exists>s. node_symbol u contexts n = Inr s \<and> sym_key s \<noteq> [] \<and>
    sym_scope s = symbol_scope_of (un_options u) (fst (snd (snd n)))"
proof -
  obtain node scope path tu_local where n: "n = (node, scope, path, tu_local)" by (cases n)
  have "fallback_identity_anchor q s source root \<noteq> []" for q s source root
    by (simp add: fallback_identity_anchor_def Let_def)
  then show ?thesis using assms
    by (simp add: n node_symbol_def make_symbol_identity_def Let_def declared_symbol_def
        stable_symbol_key_nonempty)
qed

text \<open>What declaring a function keeps, and what it adds.\<close>

definition declares :: "unit_input \<Rightarrow> unit_state \<Rightarrow> unit_state \<Rightarrow> bool" where
  "declares u st st' \<longleftrightarrow>
     unit_ok st' \<and> graph_extends (us_graph st) (us_graph st') \<and> memo_ok (un_files u) (us_lines st') \<and>
     us_contexts st' = us_contexts st \<and> us_bindings st' = us_bindings st \<and> us_records st' = us_records st \<and>
     us_matches st' = us_matches st \<and> dom (us_declarations st) \<subseteq> dom (us_declarations st') \<and>
     (\<forall>i < count_of st. (defined_at st i \<longrightarrow> defined_at st' i) \<and>
        scope_rank (scope_of st i) \<le> scope_rank (scope_of st' i))"

lemma declares_count: "declares u st st' \<Longrightarrow> count_of st \<le> count_of st'"
  by (simp add: declares_def count_of_def graph_extends_length)

lemma declares_refl: "unit_ok st \<Longrightarrow> memo_ok (un_files u) (us_lines st) \<Longrightarrow> declares u st st"
  by (simp add: declares_def)

lemma declares_trans:
  assumes "declares u a b" "declares u b c"
  shows "declares u a c"
proof -
  have "graph_extends (us_graph a) (us_graph c)"
    using assms graph_extends_trans unfolding declares_def by blast
  moreover have "(defined_at a i \<longrightarrow> defined_at c i) \<and> scope_rank (scope_of a i) \<le> scope_rank (scope_of c i)"
    if "i < count_of a" for i
    using that assms declares_count [OF assms(1)] unfolding declares_def
    by (metis order_less_le_trans le_trans)
  moreover have "dom (us_declarations a) \<subseteq> dom (us_declarations c)"
    using assms order_trans unfolding declares_def by blast
  ultimately show ?thesis using assms unfolding declares_def by simp
qed

lemma merge_grows:
  assumes wf: "graph_wf g" and eq: "add_or_merge_symbol s g = Inr (i, g')" and j: "j < length (g_symbols g)"
  shows "(sym_defined (g_symbols g ! j) \<longrightarrow> sym_defined (g_symbols g' ! j)) \<and>
    scope_rank (sym_scope (g_symbols g ! j)) \<le> scope_rank (sym_scope (g_symbols g' ! j))"
proof (cases "g_key_to_id g (sym_key s)")
  case None
  then show ?thesis using eq j by (auto simp: add_or_merge_symbol_def Let_def nth_append split: if_splits)
next
  case (Some k)
  then have k: "k < length (g_symbols g)" using wf by (simp add: graph_wf_index)
  have "sym_defined t \<longrightarrow> sym_defined (merge_fields t s)" for t by (simp add: merge_fields_def Let_def)
  then show ?thesis using Some eq j k
    by (auto simp: add_or_merge_symbol_def merge_symbol_Inr rbind_eq_Inr nth_list_update merge_fields_scope split: if_splits)
qed

lemma merge_includes:
  assumes wf: "graph_wf g" and eq: "add_or_merge_symbol s g = Inr (i, g')"
  shows "(sym_defined s \<longrightarrow> sym_defined (g_symbols g' ! i)) \<and>
    scope_rank (sym_scope s) \<le> scope_rank (sym_scope (g_symbols g' ! i))"
proof (cases "g_key_to_id g (sym_key s)")
  case None
  then show ?thesis using eq by (auto simp: add_or_merge_symbol_def Let_def split: if_splits)
next
  case (Some k)
  then have k: "k < length (g_symbols g)" using wf by (simp add: graph_wf_index)
  have "sym_defined s \<longrightarrow> sym_defined (merge_fields t s)" for t by (simp add: merge_fields_def Let_def)
  then show ?thesis using Some eq k
    by (auto simp: add_or_merge_symbol_def merge_symbol_Inr rbind_eq_Inr merge_fields_scope split: if_splits)
qed

lemma add_roots:
  assumes "i < length (g_symbols g)" "graph_wf g"
  shows "\<exists>g'. fold_result (\<lambda>(kind, evidence). add_root i kind evidence) roots g = Inr g' \<and> graph_wf g' \<and>
    graph_extends g g' \<and> g_symbols g' = g_symbols g \<and>
    (\<forall>(kind, evidence) \<in> set roots. \<lparr>root_symbol = i, root_kind = kind, root_evidence = evidence\<rparr> \<in> set (g_roots g'))"
  using assms
proof (induction roots arbitrary: g)
  case (Cons r roots)
  obtain kind evidence where r: "r = (kind, evidence)" by (cases r)
  let ?g = "g\<lparr>g_roots := push_unique \<lparr>root_symbol = i, root_kind = kind, root_evidence = evidence\<rparr> (g_roots g)\<rparr>"
  have "graph_wf ?g" using Cons.prems by (auto intro: graph_wf_push(2))
  then obtain g' where g': "fold_result (\<lambda>(kind, evidence). add_root i kind evidence) roots ?g = Inr g'"
    "graph_wf g'" "graph_extends ?g g'" "g_symbols g' = g_symbols ?g"
    "\<forall>(kind, evidence) \<in> set roots. \<lparr>root_symbol = i, root_kind = kind, root_evidence = evidence\<rparr> \<in> set (g_roots g')"
    using Cons.IH [of ?g] Cons.prems(1) by auto
  have "\<lparr>root_symbol = i, root_kind = kind, root_evidence = evidence\<rparr> \<in> set (g_roots g')"
    using g'(3) by (auto simp: graph_extends_def)
  moreover have "graph_extends g g'" using graph_extends_trans [OF graph_extends_push(2) g'(3)] .
  moreover have "add_root i kind evidence g = Inr ?g" using Cons.prems(1) by (simp add: add_root_Inr)
  ultimately show ?case using g' by (auto simp: r)
qed simp

definition declaration_error :: "exn \<Rightarrow> bool" where
  "declaration_error e \<longleftrightarrow> (\<exists>field key. e = incompatible field key)"

text \<open>A declared symbol with its roots, or with everything it has been merged with.\<close>

definition declared_in :: "unit_input \<Rightarrow> unit_state \<Rightarrow> json \<times> string \<times> string \<times> bool \<Rightarrow> symbol \<Rightarrow> bool" where
  "declared_in u st n s \<longleftrightarrow>
     us_declarations st (id_of (fst n)) \<noteq> None \<and>
     (\<exists>i < count_of st. key_at (us_graph st) i = sym_key s \<and> (sym_defined s \<longrightarrow> defined_at st i) \<and>
        scope_rank (sym_scope s) \<le> scope_rank (scope_of st i) \<and>
        (\<forall>(kind, evidence) \<in> set (declared_roots u (fst n) (fst (snd (snd n))) (sym_internal_linkage s)).
           \<lparr>root_symbol = i, root_kind = kind, root_evidence = evidence\<rparr> \<in> set (g_roots (us_graph st))))"

lemma declared_in_mono:
  assumes "declared_in u st n s" "graph_extends (us_graph st) (us_graph st')"
    and "dom (us_declarations st) \<subseteq> dom (us_declarations st')"
    and "\<And>i. i < count_of st \<Longrightarrow> (defined_at st i \<longrightarrow> defined_at st' i) \<and>
      scope_rank (scope_of st i) \<le> scope_rank (scope_of st' i)"
  shows "declared_in u st' n s"
proof -
  from assms(1) obtain i where i: "i < count_of st" "key_at (us_graph st) i = sym_key s"
      "sym_defined s \<longrightarrow> defined_at st i" "scope_rank (sym_scope s) \<le> scope_rank (scope_of st i)"
      "\<forall>(kind, evidence) \<in> set (declared_roots u (fst n) (fst (snd (snd n))) (sym_internal_linkage s)).
           \<lparr>root_symbol = i, root_kind = kind, root_evidence = evidence\<rparr> \<in> set (g_roots (us_graph st))"
    unfolding declared_in_def by blast
  have "i < count_of st'" using i(1) graph_extends_length [OF assms(2)] by (simp add: count_of_def)
  moreover have "key_at (us_graph st') i = sym_key s"
    using graph_extends_key_at [OF assms(2)] i(1,2) by (simp add: count_of_def)
  moreover have "set (g_roots (us_graph st)) \<subseteq> set (g_roots (us_graph st'))" using assms(2) by (simp add: graph_extends_def)
  moreover have "us_declarations st' (id_of (fst n)) \<noteq> None" using assms(1,3) by (auto simp: declared_in_def)
  ultimately show ?thesis using i(3-5) assms(4) [OF i(1)] unfolding declared_in_def by fastforce
qed

lemma declare_symbol_declares:
  assumes ok: "unit_ok st" "memo_ok (un_files u) (us_lines st)" and key: "sym_key s \<noteq> []"
  shows "ends declaration_error (\<lambda>st'. declares u st st' \<and>
      (id_of (fst n) \<noteq> [] \<and> has_indexed_body (sym_scope s) \<longrightarrow> declared_in u st' n s))
    (declare_symbol u (fst n) (fst (snd (snd n))) s st)"
proof (cases "id_of (fst n) = [] \<or> sym_scope s = Excluded")
  case True
  then show ?thesis using ok by (auto simp: declare_symbol_def declares_refl)
next
  case False
  show ?thesis
  proof (cases "sym_scope s = External_Opaque")
    case True
    let ?st = "st\<lparr>us_opaque := (us_opaque st)(id_of (fst n) \<mapsto> s)\<rparr>"
    have "unit_ok ?st" using ok(1) True key by (simp add: unit_ok_def count_of_def ids_ok_def)
    then have "declares u st ?st" using ok(2) by (simp add: declares_def count_of_def scope_of_def defined_at_def)
    then show ?thesis using False True key by (simp add: declare_symbol_def)
  next
    case indexed: False
    show ?thesis
    proof (cases "add_or_merge_symbol s (us_graph st)")
      case (Inl e)
      then show ?thesis using False indexed key merge_error [OF Inl key]
        by (simp add: declare_symbol_def declaration_error_def)
    next
      case (Inr r)
      then obtain i g where r: "add_or_merge_symbol s (us_graph st) = Inr (i, g)" by (cases r) simp
      have wf: "graph_wf (us_graph st)" using ok(1) by (simp add: unit_ok_def)
      note added = add_or_merge_symbol_wf [OF wf r]
      let ?roots = "declared_roots u (fst n) (fst (snd (snd n))) (sym_internal_linkage s)"
      from added obtain g' where g': "fold_result (\<lambda>(kind, evidence). add_root i kind evidence) ?roots g = Inr g'"
        "graph_wf g'" "graph_extends g g'" "g_symbols g' = g_symbols g"
        "\<forall>(kind, evidence) \<in> set ?roots. \<lparr>root_symbol = i, root_kind = kind, root_evidence = evidence\<rparr> \<in> set (g_roots g')"
        using add_roots [of i g ?roots] by blast
      let ?st = "st\<lparr>us_graph := g', us_declarations := (us_declarations st)(id_of (fst n) \<mapsto> i)\<rparr>"
      have extends: "graph_extends (us_graph st) g'" using added g'(3) graph_extends_trans by blast
      have longer: "length (g_symbols (us_graph st)) \<le> length (g_symbols g)"
        using added by (blast intro: graph_extends_length)
      have "unit_ok ?st"
        using ok(1) added g'(2,4) longer unfolding unit_ok_def count_of_def ids_ok_def
        by (auto intro: order_less_le_trans) (meson order_less_le_trans)
      moreover have "dom (us_declarations st) \<subseteq> dom (us_declarations ?st)" by auto
      ultimately have "declares u st ?st"
        using ok(2) extends merge_grows [OF wf r] g'(4)
        by (simp add: declares_def count_of_def scope_of_def defined_at_def)
      moreover have "declared_in u ?st n s"
        unfolding declared_in_def
        using added g'(3-5) merge_includes [OF wf r] graph_extends_key_at [OF g'(3), of i]
        by (auto simp: count_of_def scope_of_def defined_at_def)
      ultimately show ?thesis using False indexed key r g'(1) by (simp add: declare_symbol_def)
    qed
  qed
qed

lemma declare_node_declares:
  assumes ok: "unit_ok st" "memo_ok (un_files u) (us_lines st)" and s: "node_symbol u (us_contexts st) n = Inr s"
    and key: "sym_key s \<noteq> []"
  shows "ends declaration_error (\<lambda>st'. declares u st st' \<and>
      (id_of (fst n) \<noteq> [] \<and> has_indexed_body (sym_scope s) \<longrightarrow> declared_in u st' n s)) (declare_node u n st)"
proof -
  let ?st = "st\<lparr>us_lines := snd (symbol_source_of (un_files u) (un_command u) (fst n) (fst (snd (snd n))) (us_lines st))\<rparr>"
  have memo: "memo_ok (un_files u) (us_lines ?st)" using symbol_source_memo [OF ok(2)] by simp
  have ok': "unit_ok ?st" using ok(1) by (simp add: unit_ok_def count_of_def ids_ok_def)
  have "declares u st ?st" using ok' memo by (simp add: declares_def count_of_def scope_of_def defined_at_def)
  then show ?thesis
    unfolding declare_node_symbol [OF ok(2)] s rbind_simps
    by (intro ends_mono [OF declare_symbol_declares [OF ok' memo key]]) (blast intro: declares_trans)
qed

lemma declare_all:
  assumes "unit_ok st" "memo_ok (un_files u) (us_lines st)" "ix_configuration_id (un_options u) \<noteq> []"
  shows "ends declaration_error (\<lambda>st'. declares u st st' \<and>
      (\<forall>n \<in> set ns. \<forall>s. node_symbol u (us_contexts st) n = Inr s \<and> id_of (fst n) \<noteq> [] \<and>
         has_indexed_body (sym_scope s) \<longrightarrow> declared_in u st' n s)) (fold_result (declare_node u) ns st)"
  using assms(1,2)
proof (induction ns arbitrary: st)
  case Nil
  then show ?case by (simp add: declares_refl)
next
  case (Cons n ns)
  obtain s where s: "node_symbol u (us_contexts st) n = Inr s" "sym_key s \<noteq> []"
    using node_symbol_Inr [OF assms(3)] by blast
  show ?case
    unfolding fold_result.simps
  proof (rule ends_bind [OF declare_node_declares [OF Cons.prems s]])
    fix st1
    assume st1: "declares u st st1 \<and> (id_of (fst n) \<noteq> [] \<and> has_indexed_body (sym_scope s) \<longrightarrow> declared_in u st1 n s)"
    then have ok1: "unit_ok st1" "memo_ok (un_files u) (us_lines st1)" and contexts: "us_contexts st1 = us_contexts st"
      by (simp_all add: declares_def)
    show "ends declaration_error (\<lambda>st'. declares u st st' \<and>
        (\<forall>n \<in> set (n # ns). \<forall>s. node_symbol u (us_contexts st) n = Inr s \<and> id_of (fst n) \<noteq> [] \<and>
           has_indexed_body (sym_scope s) \<longrightarrow> declared_in u st' n s)) (fold_result (declare_node u) ns st1)"
    proof (rule ends_mono [OF Cons.IH [OF ok1, unfolded contexts]])
      fix st2
      assume st2: "declares u st1 st2 \<and> (\<forall>n \<in> set ns. \<forall>s. node_symbol u (us_contexts st) n = Inr s \<and>
        id_of (fst n) \<noteq> [] \<and> has_indexed_body (sym_scope s) \<longrightarrow> declared_in u st2 n s)"
      have "declared_in u st1 n s \<Longrightarrow> declared_in u st2 n s"
        by (erule declared_in_mono) (use st2 in \<open>simp_all add: declares_def\<close>)
      then show "declares u st st2 \<and> (\<forall>n \<in> set (n # ns). \<forall>s. node_symbol u (us_contexts st) n = Inr s \<and>
          id_of (fst n) \<noteq> [] \<and> has_indexed_body (sym_scope s) \<longrightarrow> declared_in u st2 n s)"
        using st1 st2 s declares_trans by auto
    qed
  qed
qed

end
