(* ===== verification/Ast_Unit.thy ===== *)
theory Ast_Unit
  imports Ast_Declared Cache_Facts
begin

text \<open>
  The facts of one translation unit. Whatever documents Clang prints, collecting them ends in a
  well-formed graph or in one of the known errors; every definition of the project is in the graph
  and every use of it is recorded.
\<close>

section \<open>Contexts\<close>

definition renames_scopes :: "unit_state \<Rightarrow> unit_state \<Rightarrow> bool" where
  "renames_scopes st st' \<longleftrightarrow> (\<exists>contexts records. st' = st\<lparr>us_contexts := contexts, us_records := records\<rparr>)"

lemma renames_scopes_refl: "renames_scopes st st"
  unfolding renames_scopes_def by (rule exI [of _ "us_contexts st"], rule exI [of _ "us_records st"]) simp

lemma renames_scopes_trans: "renames_scopes a b \<Longrightarrow> renames_scopes b c \<Longrightarrow> renames_scopes a c"
  unfolding renames_scopes_def by fastforce

lemma renames_fold:
  assumes "\<And>x st. x \<in> set xs \<Longrightarrow> renames_scopes st (f x st)"
  shows "renames_scopes st (fold f xs st)"
  using assms by (induction xs arbitrary: st) (auto intro: renames_scopes_refl renames_scopes_trans)

lemma renames_enter: "renames_scopes st (snd (enter_context u node scope path st))"
proof -
  have "renames_scopes st (st\<lparr>us_contexts := m\<rparr>)" "renames_scopes st (st\<lparr>us_records := r\<rparr>)"
    "renames_scopes st (st\<lparr>us_contexts := m, us_records := r\<rparr>)" for m r st
    unfolding renames_scopes_def
    by (rule exI [of _ m], rule exI [of _ "us_records st"], simp)
      (rule exI [of _ "us_contexts st"], rule exI [of _ r], simp, rule exI [of _ m], rule exI [of _ r], simp)
  then show ?thesis
    by (auto simp: enter_context_def set_context_def Let_def intro: renames_scopes_refl)
qed

lemma renames_contexts: "renames_scopes st (collect_contexts u scope inherited node st)"
proof (induction "size node" arbitrary: node scope inherited st rule: less_induct)
  case less
  obtain child_scope st1 where enter: "enter_context u node scope (unit_file u node inherited) st = (child_scope, st1)"
    by (cases "enter_context u node scope (unit_file u node inherited) st")
  have "renames_scopes st st1" using renames_enter [of st u node scope] enter by (metis snd_conv)
  moreover have "renames_scopes st1 (fold (\<lambda>child st. collect_contexts u child_scope p child st) (children node) st1)" for p
    by (rule renames_fold) (rule less.hyps [OF children_size])
  ultimately show ?case
    using renames_scopes_trans by (simp add: collect_contexts.simps [of u scope _ node] Let_def enter)
qed

definition scoped_unit :: "unit_input \<Rightarrow> json list \<Rightarrow> unit_state" where
  "scoped_unit u documents =
     fold (collect_contexts u [] (cc_file (un_command u))) documents (start_unit (un_options u))"

lemma scoped_unit_fields:
  "us_graph (scoped_unit u documents) = empty_graph" "us_declarations (scoped_unit u documents) = Map.empty"
  "us_opaque (scoped_unit u documents) = Map.empty" "us_bindings (scoped_unit u documents) = Map.empty"
  "us_lines (scoped_unit u documents) = Map.empty"
  "length (us_matches (scoped_unit u documents)) = length (ix_callback_rules (un_options u))"
proof -
  have "renames_scopes (start_unit (un_options u)) (scoped_unit u documents)"
    unfolding scoped_unit_def by (rule renames_fold) (rule renames_contexts)
  then obtain c r where "scoped_unit u documents = (start_unit (un_options u))\<lparr>us_contexts := c, us_records := r\<rparr>"
    unfolding renames_scopes_def by blast
  then show "us_graph (scoped_unit u documents) = empty_graph" "us_declarations (scoped_unit u documents) = Map.empty"
    "us_opaque (scoped_unit u documents) = Map.empty" "us_bindings (scoped_unit u documents) = Map.empty"
    "us_lines (scoped_unit u documents) = Map.empty"
    "length (us_matches (scoped_unit u documents)) = length (ix_callback_rules (un_options u))"
    by (simp_all add: start_unit_def)
qed

lemma scoped_unit_ok: "unit_ok (scoped_unit u documents)" "memo_ok fs (us_lines (scoped_unit u documents))"
  by (simp_all add: unit_ok_def scoped_unit_fields ids_ok_def)

section \<open>Declarations and uses\<close>

definition unit_nodes :: "unit_input \<Rightarrow> json list \<Rightarrow> (json \<times> string \<times> string \<times> bool) list" where
  "unit_nodes u documents = concat (map (function_nodes u [] (cc_file (un_command u)) False) documents)"

lemma declare_facts_fold:
  "declare_facts u documents (start_unit (un_options u)) =
     fold_result (declare_node u) (unit_nodes u documents) (scoped_unit u documents)"
proof -
  have "fold_result (collect_declarations u [] (cc_file (un_command u)) False) documents st =
      fold_result (declare_node u) (unit_nodes u documents) st" for st
    by (simp add: unit_nodes_def fold_result_concat fold_result_map)
      (rule fold_result_cong, simp_all add: collect_declarations_fold)
  then show ?thesis by (simp add: declare_facts_def Let_def scoped_unit_def)
qed

lemma declare_facts_ends:
  assumes "ix_configuration_id (un_options u) \<noteq> []"
  shows "ends declaration_error (\<lambda>st'. declares u (scoped_unit u documents) st' \<and>
      (\<forall>n \<in> set (unit_nodes u documents). \<forall>s. node_symbol u (us_contexts (scoped_unit u documents)) n = Inr s \<and>
         id_of (fst n) \<noteq> [] \<and> has_indexed_body (sym_scope s) \<longrightarrow> declared_in u st' n s))
    (declare_facts u documents (start_unit (un_options u)))"
  unfolding declare_facts_fold by (rule declare_all [OF scoped_unit_ok assms])

lemma caller_ok_outside [simp]: "caller_ok st outside"
  by (simp add: caller_ok_def outside_def)

lemma walks_documents:
  assumes "unit_ok st"
  shows "walks st (fold_result (collect_uses u outside False False path) documents st)"
  by (rule walks_fold [OF assms]) (rule walks_collect_uses, auto intro: walked_ok)

lemma declaration_error_fact: "declaration_error e \<Longrightarrow> fact_error e"
  by (simp add: declaration_error_def fact_error_def)

text \<open>Declaring adds no edge, and an edge of the walk starts in a function of the project.\<close>

definition edges_from_project :: "unit_state \<Rightarrow> bool" where
  "edges_from_project st \<longleftrightarrow>
     (\<forall>e \<in> set (g_edges (us_graph st)). has_indexed_body (scope_of st (edge_from e)) \<and>
        edge_kind e \<in> {Direct_Call, Constructs, Callback_Edge})"

lemma declare_symbol_edges:
  assumes "declare_symbol u node path s st = Inr st'" "graph_wf (us_graph st)"
  shows "g_edges (us_graph st') = g_edges (us_graph st)"
proof -
  have roots: "g_edges g' = g_edges g" if "fold_result (\<lambda>(kind, evidence). add_root i kind evidence) roots g = Inr g'"
    for i roots g g'
    by (rule fold_result_invariant [where P = "\<lambda>h. g_edges h = g_edges g", OF that]) (auto simp: add_root_Inr)
  show ?thesis
  proof (cases "id_of node = [] \<or> sym_key s = [] \<or> sym_scope s = Excluded \<or> sym_scope s = External_Opaque")
    case True
    then show ?thesis using assms(1) by (auto simp: declare_symbol_def split: if_splits)
  next
    case False
    with assms(1) obtain i g g' where "add_or_merge_symbol s (us_graph st) = Inr (i, g)"
      "fold_result (\<lambda>(kind, evidence). add_root i kind evidence) (declared_roots u node path (sym_internal_linkage s)) g = Inr g'"
      "us_graph st' = g'"
      unfolding declare_symbol_def rbind_eq_Inr by (simp add: rbind_eq_Inr) force
    then show ?thesis using roots add_or_merge_symbol_wf [OF assms(2)] by simp
  qed
qed

lemma declare_all_edges:
  assumes "fold_result (declare_node u) ns st = Inr st'" "unit_ok st" "memo_ok (un_files u) (us_lines st)"
    and "ix_configuration_id (un_options u) \<noteq> []"
  shows "g_edges (us_graph st') = g_edges (us_graph st)"
  using assms(1-3)
proof (induction ns arbitrary: st)
  case (Cons n ns)
  then obtain st1 where st1: "declare_node u n st = Inr st1" "fold_result (declare_node u) ns st1 = Inr st'"
    by (auto simp: rbind_eq_Inr)
  obtain s where s: "node_symbol u (us_contexts st) n = Inr s" "sym_key s \<noteq> []"
    using node_symbol_Inr [OF assms(4)] by blast
  have "declares u st st1" using declare_node_declares [OF Cons.prems(2,3) s] st1(1) by simp
  then have "g_edges (us_graph st') = g_edges (us_graph st1)"
    by (intro Cons.IH [OF st1(2)]) (simp_all add: declares_def)
  moreover have "graph_wf (us_graph st)" using Cons.prems(2) by (simp add: unit_ok_def)
  then have "g_edges (us_graph st1) = g_edges (us_graph st)"
    using st1(1) declare_symbol_edges unfolding declare_node_symbol [OF Cons.prems(3)] s(1) rbind_simps by fastforce
  ultimately show ?case by simp
qed simp

lemma step_edges_from_project:
  assumes "use_step st st'" "unit_ok st" "edges_from_project st"
  shows "edges_from_project st'"
proof -
  have scopes: "scope_of st' i = scope_of st i" if "i < count_of st" for i
    using use_step_ok [OF assms(1,2)] that by (simp add: unit_extends_def)
  have old: "edge_from e < count_of st" if "e \<in> set (g_edges (us_graph st))" for e
    using assms(2) that by (simp add: unit_ok_def graph_wf_def count_of_def)
  have "e \<in> set (g_edges (us_graph st)) \<or>
      (edge_from e < count_of st \<and> has_indexed_body (scope_of st (edge_from e)) \<and>
       edge_kind e \<in> {Direct_Call, Constructs, Callback_Edge})" if "e \<in> set (g_edges (us_graph st'))" for e
    using assms(1) that
  proof (cases rule: use_step.cases)
    case (step_opaque k s i g)
    then show ?thesis using that assms(2) add_or_merge_symbol_wf [OF _ step_opaque(4)] by (simp add: unit_ok_def)
  qed (use that in \<open>auto simp: add_edge_Inr add_root_Inr add_escape_Inr caller_ok_def\<close>)
  then show ?thesis using assms(3) scopes old unfolding edges_from_project_def by fastforce
qed

lemma walked_edges_from_project:
  assumes "walked st st'" "unit_ok st" "edges_from_project st"
  shows "edges_from_project st'"
proof -
  have "use_steps st st'" using assms(1) by (simp add: walked_def)
  then have "unit_ok st' \<and> edges_from_project st'"
    by (induction rule: rtranclp_induct) (use assms(2,3) use_step_ok step_edges_from_project in blast)+
  then show ?thesis by simp
qed

text \<open>The facts of a unit, when they are collected.\<close>

lemma collected_facts:
  assumes conf: "ix_configuration_id (un_options u) \<noteq> []"
    and facts: "collect_facts u documents (start_unit (un_options u)) = Inr st'"
  obtains st1 where "declare_facts u documents (start_unit (un_options u)) = Inr st1"
    "declares u (scoped_unit u documents) st1" "walked st1 st'" "edges_from_project st'"
    "fold_result (collect_uses u outside False False (cc_file (un_command u))) documents st1 = Inr st'"
proof -
  from facts obtain st1 where st1: "declare_facts u documents (start_unit (un_options u)) = Inr st1"
    and st': "fold_result (collect_uses u outside False False (cc_file (un_command u))) documents st1 = Inr st'"
    by (auto simp: collect_facts_def rbind_eq_Inr)
  have declares: "declares u (scoped_unit u documents) st1" using declare_facts_ends [OF conf, of documents] st1 by simp
  then have ok: "unit_ok st1" by (simp add: declares_def)
  have "g_edges (us_graph st1) = []"
    using declare_all_edges [OF st1 [unfolded declare_facts_fold] scoped_unit_ok conf]
    by (simp add: scoped_unit_fields empty_graph_def)
  then have "edges_from_project st1" by (simp add: edges_from_project_def)
  moreover have walked: "walked st1 st'" by (rule walked_Inr [OF walks_documents [OF ok] st'])
  ultimately show thesis using that st1 st' declares walked_edges_from_project [OF walked ok] by blast
qed

definition facts_outcome :: "unit_input \<Rightarrow> exn + unit_state \<Rightarrow> bool" where
  "facts_outcome u r \<longleftrightarrow>
     (case r of
        Inr st \<Rightarrow> unit_ok st \<and> edges_from_project st \<and>
          length (us_matches st) = length (ix_callback_rules (un_options u))
      | Inl e \<Rightarrow> fact_error e)"

lemma facts_well_formed:
  assumes conf: "ix_configuration_id (un_options u) \<noteq> []"
  shows "facts_outcome u (collect_facts u documents (start_unit (un_options u)))"
proof (cases "collect_facts u documents (start_unit (un_options u))")
  case (Inr st')
  then obtain st1 where st1: "declares u (scoped_unit u documents) st1" "walked st1 st'" "edges_from_project st'"
    by (rule collected_facts [OF conf])
  then have "length (us_matches st') = length (ix_callback_rules (un_options u))"
    by (simp add: declares_def walked_def unit_extends_def scoped_unit_fields)
  then show ?thesis using Inr st1 walked_ok by (simp add: facts_outcome_def)
next
  case (Inl e)
  show ?thesis
  proof (cases "declare_facts u documents (start_unit (un_options u))")
    case Inl2: (Inl e')
    then have "declaration_error e'" using declare_facts_ends [OF conf, of documents] by simp
    then show ?thesis using Inl Inl2 by (simp add: facts_outcome_def collect_facts_def declaration_error_fact)
  next
    case (Inr st1)
    then have "unit_ok st1" using declare_facts_ends [OF conf, of documents] by (simp add: declares_def)
    from walks_documents [OF this, of u "cc_file (un_command u)" documents] show ?thesis
      using Inl Inr by (simp add: facts_outcome_def collect_facts_def)
  qed
qed

lemma all_sites_recorded:
  assumes conf: "ix_configuration_id (un_options u) \<noteq> []"
    and st1: "declare_facts u documents (start_unit (un_options u)) = Inr st1"
    and st': "collect_facts u documents (start_unit (un_options u)) = Inr st'"
    and node: "node \<in> set documents"
    and site: "site \<in> set (use_sites u (project_functions st1) outside False False (cc_file (un_command u)) node)"
  shows "site_recorded (us_declarations st1) (us_graph st') site"
proof -
  from st1 st' have uses:
    "fold_result (\<lambda>child st. collect_uses u outside False False (cc_file (un_command u)) child st) documents st1 = Inr st'"
    by (simp add: collect_facts_def)
  have "unit_ok st1" using declare_facts_ends [OF conf, of documents] st1 by (simp add: declares_def)
  then have "knows (us_declarations st1) (project_functions st1) st1" by (simp add: knows_def)
  then have "recorded_all (us_declarations st1) st'
      (use_sites u (project_functions st1) outside False False (cc_file (un_command u)) node)"
    by (rule fold_records [OF uses _ caller_ok_outside _ node]) (rule collect_uses_records)
  then show ?thesis using site by (simp add: recorded_all_def)
qed

lemma all_definitions_indexed:
  assumes conf: "ix_configuration_id (un_options u) \<noteq> []"
    and st': "collect_facts u documents (start_unit (un_options u)) = Inr st'"
    and n: "n \<in> set (unit_nodes u documents)" "id_of (fst n) \<noteq> []"
    and s: "node_symbol u (us_contexts (scoped_unit u documents)) n = Inr s" "has_indexed_body (sym_scope s)"
  shows "declared_in u st' n s"
proof -
  obtain st1 where st1: "declare_facts u documents (start_unit (un_options u)) = Inr st1" "walked st1 st'"
    by (rule collected_facts [OF conf st'])
  have "declared_in u st1 n s" using declare_facts_ends [OF conf, of documents] st1(1) n s by simp
  then show ?thesis
  proof (rule declared_in_mono)
    show "graph_extends (us_graph st1) (us_graph st')" by (rule walked_extends [OF st1(2)])
    show "dom (us_declarations st1) \<subseteq> dom (us_declarations st')"
      using st1(2) map_le_implies_dom_le unfolding walked_def unit_extends_def by blast
  qed (use st1(2) in \<open>simp add: walked_def unit_extends_def\<close>)
qed

section \<open>The results\<close>

text \<open>
  C6: Collecting the facts of a translation unit is safe for every input, whatever JSON Clang prints.
  It either ends in a well-formed graph, in which all remembered ids are symbols, there is one flag
  per callback rule, and every edge is a call, a construction or a callback that starts in a function
  of the project; or it ends in one of three errors: contradicting declarations of one symbol, or a
  callback rule whose argument is missing or is not callable.
\<close>
theorem unit_facts_well_formed:
  assumes "ix_configuration_id (un_options u) \<noteq> []"
  shows "case collect_facts u documents (start_unit (un_options u)) of
      Inr st \<Rightarrow> unit_ok st \<and> edges_from_project st \<and>
        length (us_matches st) = length (ix_callback_rules (un_options u))
    | Inl e \<Rightarrow> fact_error e"
  using facts_well_formed [OF assms, of documents] by (simp add: facts_outcome_def)


text \<open>
  C5: No definition is overlooked. Every function declared in the project, in whatever scope, is a
  symbol under its stable key, which is defined if one of its declarations has a body, has a scope
  that is at least that of the declaration, and has the roots to which the declaration gives rise.
\<close>
theorem every_function_declared:
  assumes "ix_configuration_id (un_options u) \<noteq> []"
    and "collect_facts u documents (start_unit (un_options u)) = Inr st'"
    and "n \<in> set (unit_nodes u documents)" and "id_of (fst n) \<noteq> []"
    and "node_symbol u (us_contexts (scoped_unit u documents)) n = Inr s" and "has_indexed_body (sym_scope s)"
  shows "declared_in u st' n s"
  by (rule all_definitions_indexed [OF assms])

section \<open>A small translation unit\<close>

definition ast_node :: "string \<Rightarrow> (string \<times> json) list \<Rightarrow> json list \<Rightarrow> json" where
  "ast_node kind members inner = JObject ((''kind'', JString kind) # members @ [(''inner'', JArray inner)])"

definition ast_function :: "string \<Rightarrow> string \<Rightarrow> json list \<Rightarrow> json" where
  "ast_function i name body = ast_node ''FunctionDecl''
     [(''id'', JString i), (''name'', JString name), (''mangledName'', JString (''_Z'' @ name)),
      (''loc'', JObject [(''file'', JString ''a.cpp''), (''line'', JNumber 1), (''col'', JNumber 2), (''offset'', JNumber 3)])]
     [ast_node ''CompoundStmt'' [] body]"

definition ast_reference :: "string \<Rightarrow> json" where
  "ast_reference i = ast_node ''DeclRefExpr''
     [(''referencedDecl'', JObject [(''kind'', JString ''FunctionDecl''), (''id'', JString i)])] []"

definition sample_callee :: json where "sample_callee = ast_node ''ImplicitCastExpr'' [] [ast_reference ''0x1'']"

definition sample_main :: json where
  "sample_main = ast_function ''0x2'' ''main''
     [ast_node ''CallExpr'' [] [sample_callee], ast_node ''UnaryOperator'' [] [ast_reference ''0x1'']]"

definition sample_ast :: json where
  "sample_ast = ast_node ''TranslationUnitDecl'' [] [ast_function ''0x1'' ''g'' [], sample_main]"

definition sample_input :: unit_input where
  "sample_input = \<lparr>un_files = cache_files, un_command = sample_unit_command, un_options = sample_options []\<rparr>"

lemma sample_collected:
  "case declare_facts sample_input [sample_ast] (start_unit (sample_options [])) of
     Inr st1 \<Rightarrow> us_declarations st1 ''0x1'' = Some 0 \<and>
       Call_Site \<lparr>po_caller = Some 1, po_global = False\<rparr> sample_callee \<in>
         set (use_sites sample_input (project_functions st1) outside False False ''/s/a.cpp'' sample_ast)
   | Inl e \<Rightarrow> False"
  "case collect_facts sample_input [sample_ast] (start_unit (sample_options [])) of Inr st \<Rightarrow> True | Inl e \<Rightarrow> False"
  "case node_symbol sample_input (us_contexts (scoped_unit sample_input [sample_ast])) (sample_main, [], ''/s/a.cpp'', False) of
     Inr s \<Rightarrow> sym_scope s = Reportable \<and> sym_defined s | Inl e \<Rightarrow> False"
  "(sample_main, [], ''/s/a.cpp'', False) \<in> set (unit_nodes sample_input [sample_ast])"
  "id_of sample_main = ''0x2''" "''0x1'' \<in> set (collect_reference_ids sample_callee)"
  by code_simp+

lemma sample_input_fields:
  "ix_configuration_id (un_options sample_input) \<noteq> []" "un_options sample_input = sample_options []"
  "cc_file (un_command sample_input) = ''/s/a.cpp''"
  by (simp_all add: sample_input_def sample_options_def sample_unit_command_def)

lemma unit_facts_well_formed_witness:
  "case collect_facts sample_input [sample_ast] (start_unit (sample_options [])) of
     Inr st \<Rightarrow> unit_ok st \<and> edges_from_project st | Inl e \<Rightarrow> False"
  using unit_facts_well_formed [OF sample_input_fields(1), of "[sample_ast]"] sample_collected(2)
  by (simp add: sample_input_fields(2) split: sum.splits)


lemma every_function_declared_witness:
  "\<exists>st' i. collect_facts sample_input [sample_ast] (start_unit (sample_options [])) = Inr st' \<and>
     i < count_of st' \<and> defined_at st' i \<and> us_declarations st' ''0x2'' \<noteq> None"
proof -
  obtain st' where st': "collect_facts sample_input [sample_ast] (start_unit (sample_options [])) = Inr st'"
    using sample_collected(2) by (auto split: sum.splits)
  obtain s where s: "node_symbol sample_input (us_contexts (scoped_unit sample_input [sample_ast]))
      (sample_main, [], ''/s/a.cpp'', False) = Inr s" "sym_scope s = Reportable" "sym_defined s"
    using sample_collected(3) by (auto split: sum.splits)
  have "declared_in sample_input st' (sample_main, [], ''/s/a.cpp'', False) s"
    by (rule every_function_declared [OF sample_input_fields(1) _ sample_collected(4) _ s(1)])
      (simp_all add: st' sample_input_fields(2) sample_collected(5) s(2))
  then show ?thesis using st' s(3) sample_collected(5) by (auto simp: declared_in_def)
qed

end
