(* ===== verification/Index_Documents.thy ===== *)
theory Index_Documents
  imports Ast_Unit Json_Readable
begin

text \<open>
  How \<open>src/indexer.cpp\<close> asks Clang for the syntax tree of a command, and how it takes apart what
  Clang prints: with a name filter the output is a sequence of JSON documents, which a scanner of
  brackets and strings separates.
\<close>

section \<open>The invocation\<close>

definition ast_command :: "compile_command \<Rightarrow> index_options \<Rightarrow> string option \<Rightarrow> string list result" where
  "ast_command command options dependency_file =
     (if length (cc_arguments command) < 2 then
        Inl (Runtime_Error ''normalized compilation command omitted its source file'')
      else
        Inr ([ix_clang_executable options] @ butlast (tl (cc_arguments command)) @
          [''-Wno-error'', ''-Xclang'', ''-ast-dump=json''] @
          (if ix_ast_filter options = [] then [] else [''-Xclang'', ''-ast-dump-filter='' @ ix_ast_filter options]) @
          [''-fsyntax-only''] @
          (case dependency_file of
             None \<Rightarrow> []
           | Some path \<Rightarrow> [''-MD'', ''-MF'', path, ''-MT'', cc_file command]) @
          [cc_file command]))"

definition concise_diagnostic :: "string \<Rightarrow> string" where
  "concise_diagnostic diagnostic =
     (if 4000 < length diagnostic then
        take 4000 diagnostic @ [CHR 0x0A] @ ''... diagnostics truncated''
      else diagnostic)"

section \<open>The documents\<close>

text \<open>The current document is kept in reverse; it is empty between documents.\<close>

record scanner =
  sc_documents :: "string list"
  sc_current :: string
  sc_depth :: nat
  sc_in_string :: bool
  sc_escaped :: bool

definition opens :: "char \<Rightarrow> bool" where
  "opens c \<longleftrightarrow> c = CHR 0x7B \<or> c = CHR 0x5B"

definition closes :: "char \<Rightarrow> bool" where
  "closes c \<longleftrightarrow> c = CHR 0x7D \<or> c = CHR 0x5D"

definition keep_char :: "char \<Rightarrow> scanner \<Rightarrow> scanner" where
  "keep_char c s = (if sc_depth s = 0 then s else s\<lparr>sc_current := c # sc_current s\<rparr>)"

definition scan_step :: "char \<Rightarrow> scanner \<Rightarrow> scanner result" where
  "scan_step c s =
     (if sc_in_string s then
        let s = keep_char c s in
        Inr (if sc_escaped s then s\<lparr>sc_escaped := False\<rparr>
             else if c = CHR 0x5C then s\<lparr>sc_escaped := True\<rparr>
             else if c = CHR 0x22 then s\<lparr>sc_in_string := False\<rparr>
             else s)
      else if c = CHR 0x22 then Inr ((keep_char c s)\<lparr>sc_in_string := True\<rparr>)
      else if opens c then
        Inr (s\<lparr>sc_current := c # sc_current s, sc_depth := sc_depth s + 1\<rparr>)
      else if closes c then
        (if sc_depth s = 0 then
           Inl (Runtime_Error ''unexpected closing delimiter in Clang AST JSON'')
         else if sc_depth s = 1 then
           Inr (s\<lparr>sc_documents := sc_documents s @ [rev (c # sc_current s)], sc_current := [], sc_depth := 0\<rparr>)
         else Inr (s\<lparr>sc_current := c # sc_current s, sc_depth := sc_depth s - 1\<rparr>))
      else if sc_depth s = 0 \<and> \<not> stream_space c then
        Inl (Runtime_Error ''unexpected content between Clang AST JSON documents'')
      else Inr (keep_char c s))"

definition start_scan :: scanner where
  "start_scan = \<lparr>sc_documents = [], sc_current = [], sc_depth = 0, sc_in_string = False, sc_escaped = False\<rparr>"

definition split_json_documents :: "string \<Rightarrow> string list result" where
  "split_json_documents input =
     rbind (fold_result scan_step input start_scan) (\<lambda>s.
     if sc_depth s \<noteq> 0 \<or> sc_in_string s then Inl (Runtime_Error ''incomplete Clang AST JSON document'')
     else Inr (sc_documents s))"

section \<open>Texts that stay inside a document\<close>

definition inside :: "scanner \<Rightarrow> bool" where
  "inside s \<longleftrightarrow> 0 < sc_depth s \<and> \<not> sc_in_string s \<and> \<not> sc_escaped s"

definition kept :: "string \<Rightarrow> scanner \<Rightarrow> scanner" where
  "kept t s = s\<lparr>sc_current := rev t @ sc_current s\<rparr>"

definition neutral :: "string \<Rightarrow> bool" where
  "neutral t \<longleftrightarrow> (\<forall>s. inside s \<longrightarrow> fold_result scan_step t s = Inr (kept t s))"

text \<open>The same within a string, and after a backslash in a string.\<close>

definition in_literal :: "bool \<Rightarrow> scanner \<Rightarrow> bool" where
  "in_literal escaped s \<longleftrightarrow> 0 < sc_depth s \<and> sc_in_string s \<and> sc_escaped s = escaped"

definition literal_part :: "bool \<Rightarrow> string \<Rightarrow> bool" where
  "literal_part escaped t \<longleftrightarrow>
     (\<forall>s. in_literal escaped s \<longrightarrow> fold_result scan_step t s = Inr ((kept t s)\<lparr>sc_escaped := False\<rparr>))"

lemma kept_kept: "kept u (kept t s) = kept (t @ u) s"
  by (simp add: kept_def)

lemma inside_kept [simp]: "inside (kept t s) = inside s"
  by (simp add: inside_def kept_def)

lemma neutral_Nil [simp]: "neutral []"
  by (simp add: neutral_def kept_def)

lemma neutral_append: "neutral t \<Longrightarrow> neutral u \<Longrightarrow> neutral (t @ u)"
  by (simp add: neutral_def fold_result_append kept_kept)

lemma neutral_plain: "c \<noteq> CHR 0x22 \<Longrightarrow> \<not> opens c \<Longrightarrow> \<not> closes c \<Longrightarrow> neutral [c]"
  by (simp add: neutral_def inside_def scan_step_def keep_char_def kept_def)

lemma neutral_plains: "list_all (\<lambda>c. c \<noteq> CHR 0x22 \<and> \<not> opens c \<and> \<not> closes c) t \<Longrightarrow> neutral t"
proof (induction t)
  case (Cons c t)
  then show ?case using neutral_append [of "[c]" t] neutral_plain [of c] by simp
qed simp

lemma neutral_Cons_plain:
  "c \<noteq> CHR 0x22 \<Longrightarrow> \<not> opens c \<Longrightarrow> \<not> closes c \<Longrightarrow> neutral t \<Longrightarrow> neutral (c # t)"
  using neutral_append [OF neutral_plain] by fastforce

lemma neutral_brackets:
  assumes "opens c" "closes e" "neutral t"
  shows "neutral (c # t @ [e])"
  unfolding neutral_def
proof (intro allI impI)
  fix s assume s: "inside s"
  have ne: "c \<noteq> CHR 0x22" "e \<noteq> CHR 0x22" "\<not> opens e" using assms by (auto simp: opens_def closes_def)
  let ?s1 = "s\<lparr>sc_current := c # sc_current s, sc_depth := sc_depth s + 1\<rparr>"
  have "scan_step c s = Inr ?s1" using s ne assms(1) by (simp add: scan_step_def inside_def)
  moreover have "fold_result scan_step t ?s1 = Inr (kept t ?s1)"
    using s assms(3) by (simp add: neutral_def inside_def)
  moreover have "scan_step e (kept t ?s1) = Inr (kept (c # t @ [e]) s)"
    using s ne assms(2) by (simp add: scan_step_def inside_def kept_def)
  ultimately show "fold_result scan_step (c # t @ [e]) s = Inr (kept (c # t @ [e]) s)"
    by (simp add: fold_result_append)
qed

lemma literal_char: "c \<noteq> CHR 0x22 \<Longrightarrow> c \<noteq> CHR 0x5C \<Longrightarrow> literal_part False [c]"
  by (simp add: literal_part_def in_literal_def scan_step_def keep_char_def kept_def)

lemma literal_escaped: "literal_part True [c]"
  by (simp add: literal_part_def in_literal_def scan_step_def keep_char_def kept_def)

lemma literal_append: "literal_part b t \<Longrightarrow> literal_part False u \<Longrightarrow> literal_part b (t @ u)"
  by (simp add: literal_part_def in_literal_def fold_result_append kept_def)

lemma literal_backslash: "literal_part True t \<Longrightarrow> literal_part False (CHR 0x5C # t)"
  by (simp add: literal_part_def in_literal_def scan_step_def keep_char_def kept_def)

lemma literal_Nil [simp]: "literal_part False []"
  by (simp add: literal_part_def in_literal_def kept_def)

lemma literal_chars: "list_all (\<lambda>c. c \<noteq> CHR 0x22 \<and> c \<noteq> CHR 0x5C) t \<Longrightarrow> literal_part False t"
proof (induction t)
  case (Cons c t)
  then show ?case using literal_append [of False "[c]" t] literal_char [of c] by simp
qed simp

lemma neutral_literal:
  assumes "literal_part False t"
  shows "neutral (CHR 0x22 # t @ [CHR 0x22])"
  unfolding neutral_def
proof (intro allI impI)
  fix s assume s: "inside s"
  let ?s1 = "(kept [CHR 0x22] s)\<lparr>sc_in_string := True\<rparr>"
  have "scan_step CHR 0x22 s = Inr ?s1" using s by (simp add: scan_step_def inside_def kept_def keep_char_def)
  moreover have "fold_result scan_step t ?s1 = Inr ((kept t ?s1)\<lparr>sc_escaped := False\<rparr>)"
    using s assms by (simp add: literal_part_def in_literal_def inside_def kept_def)
  moreover have "scan_step CHR 0x22 ((kept t ?s1)\<lparr>sc_escaped := False\<rparr>) = Inr (kept (CHR 0x22 # t @ [CHR 0x22]) s)"
    using s by (simp add: scan_step_def keep_char_def kept_def inside_def)
  ultimately show "fold_result scan_step (CHR 0x22 # t @ [CHR 0x22]) s = Inr (kept (CHR 0x22 # t @ [CHR 0x22]) s)"
    by (simp add: fold_result_append)
qed

section \<open>What the parser reads stays inside a document\<close>

lemma hex_value_plain: "hex_value c = Some d \<Longrightarrow> c \<noteq> CHR 0x22 \<and> c \<noteq> CHR 0x5C"
  by (auto simp: hex_value_def Let_def split: if_splits)

lemma hex_digits_read:
  "hex_digits n r s = Inr (w, s') \<Longrightarrow> \<exists>t. snd s = t @ snd s' \<and> literal_part False t"
proof (induction n r s arbitrary: w s' rule: hex_digits.induct)
  case (3 n result p c cs)
  then obtain d where d: "hex_value c = Some d" "hex_digits n (push_bit 4 result OR d) (Suc p, cs) = Inr (w, s')"
    by (auto simp: fail_def split: option.splits)
  with "3.IH" [OF d] obtain t where "cs = t @ snd s'" "literal_part False t" by auto
  moreover have "literal_part False [c]" using hex_value_plain [OF d(1)] by (simp add: literal_char)
  ultimately show ?case using literal_append [of False "[c]" t] by (intro exI [of _ "c # t"]) simp
qed (auto simp: fail_def intro: exI [of _ "[]"])

lemma parse_hex_quad_read:
  "parse_hex_quad s = Inr (w, s') \<Longrightarrow> \<exists>t. snd s = t @ snd s' \<and> literal_part False t"
  using hex_digits_read [of 4 0 s w s'] by (simp add: parse_hex_quad_def fail_def split: if_splits)

lemma parse_unicode_read:
  assumes "parse_unicode s = Inr (b, s')"
  shows "\<exists>t. snd s = t @ snd s' \<and> literal_part False t"
proof -
  from assms obtain cp s1 where 1: "parse_hex_quad s = Inr (cp, s1)"
    by (auto simp: parse_unicode_def rbind_eq_Inr)
  from parse_hex_quad_read [OF 1] obtain t where t: "snd s = t @ snd s1" "literal_part False t" by auto
  show ?thesis
  proof (cases "0xd800 \<le> cp \<and> cp \<le> 0xdbff")
    case False
    then show ?thesis using assms 1 t by (auto simp: parse_unicode_def split: if_splits)
  next
    case True
    with assms 1 obtain low s2 where 2: "take 2 (snd s1) = [CHR 0x5C, CHR ''u'']"
        "parse_hex_quad (fst s1 + 2, drop 2 (snd s1)) = Inr (low, s2)" "s' = s2"
      by (auto simp: parse_unicode_def rbind_eq_Inr fail_def split: if_splits)
    from parse_hex_quad_read [OF 2(2)] obtain u where u: "drop 2 (snd s1) = u @ snd s'" "literal_part False u"
      using 2(3) by auto
    have "literal_part False ([CHR 0x5C, CHR ''u''] @ u)"
      by (rule literal_append [OF literal_backslash [OF literal_escaped] u(2)])
    then have "literal_part False (t @ [CHR 0x5C, CHR ''u''] @ u)" by (rule literal_append [OF t(2)])
    moreover have "snd s = (t @ [CHR 0x5C, CHR ''u''] @ u) @ snd s'"
      using t(1) u(1) 2(1) append_take_drop_id [of 2 "snd s1"] by simp
    ultimately show ?thesis by blast
  qed
qed

lemma parse_escape_read:
  assumes "parse_escape s = Inr (b, s')"
  shows "\<exists>t. snd s = t @ snd s' \<and> literal_part True t"
proof (cases s rule: parse_escape.cases)
  case (1 p)
  then show ?thesis using assms by (simp add: fail_def)
next
  case (2 p c cs)
  have "\<exists>t. cs = t @ snd s' \<and> literal_part False t"
  proof (cases "c = CHR ''u''")
    case True
    then show ?thesis using assms 2 parse_unicode_read [of "(Suc p, cs)" b s'] by (simp add: Let_def)
  next
    case False
    then show ?thesis using assms 2 by (auto simp: Let_def fail_def split: if_splits)
  qed
  then obtain t where t: "cs = t @ snd s'" "literal_part False t" by blast
  have "literal_part True ([c] @ t)" by (rule literal_append [OF literal_escaped t(2)])
  then show ?thesis using 2 t(1) by (intro exI [of _ "c # t"]) simp
qed

lemma string_body_read:
  "string_body r s = Inr (res, s') \<Longrightarrow> \<exists>t. snd s = t @ CHR 0x22 # snd s' \<and> literal_part False t"
proof (induction r s arbitrary: res s' rule: string_body.induct)
  case (1 result p)
  then show ?case by (simp add: fail_def)
next
  case (2 result p c cs)
  show ?case
  proof (cases "c = CHR 0x22")
    case True
    then show ?thesis using "2.prems" by (auto intro: exI [of _ "[]"])
  next
    case q: False
    have p: "\<not> (of_char c :: nat) < 32"
      using "2.prems" q by (auto simp: fail_def simp del: string_body.simps simp add: string_body.simps(2) split: if_splits)
    show ?thesis
    proof (cases "c = CHR 0x5C")
      case False
      then obtain t where t: "cs = t @ CHR 0x22 # snd s'" "literal_part False t"
        using "2.IH"(1) [OF q p False, of res s'] "2.prems" q p by auto
      then show ?thesis using literal_append [of False "[c]" t] literal_char [OF q False]
        by (intro exI [of _ "c # t"]) simp
    next
      case True
      with "2.prems" q p obtain b s1 where 1: "parse_escape (Suc p, cs) = Inr (b, s1)" "string_body (result @ b) s1 = Inr (res, s')"
        by (cases "parse_escape (Suc p, cs)") auto
      from parse_escape_read [OF 1(1)] obtain u where u: "cs = u @ snd s1" "literal_part True u" by auto
      from "2.IH"(2) [OF q p _ 1(1) refl 1(2)] True obtain t where t: "snd s1 = t @ CHR 0x22 # snd s'" "literal_part False t"
        by auto
      have "literal_part False ((CHR 0x5C # u) @ t)" by (rule literal_append [OF literal_backslash [OF u(2)] t(2)])
      then show ?thesis using True u(1) t(1) by (intro exI [of _ "CHR 0x5C # u @ t"]) simp
    qed
  qed
qed

lemma parse_string_read:
  assumes "parse_string s = Inr (b, s')"
  shows "\<exists>t. snd s = t @ snd s' \<and> neutral t"
proof -
  from assms obtain s1 where 1: "expect CHR 0x22 s = Inr s1" "string_body [] s1 = Inr (b, s')"
    by (auto simp: parse_string_def rbind_eq_Inr)
  then have "snd s = CHR 0x22 # snd s1"
    by (cases s; cases "snd s") (auto simp: expect_def fail_def split: if_splits)
  with string_body_read [OF 1(2)] obtain t where "snd s = (CHR 0x22 # t @ [CHR 0x22]) @ snd s'" "literal_part False t"
    by auto
  then show ?thesis using neutral_literal by blast
qed

text \<open>A cursor that has moved over a neutral text.\<close>

definition passes :: "cursor \<Rightarrow> cursor \<Rightarrow> bool" where
  "passes s s' \<longleftrightarrow> (\<exists>t. snd s = t @ snd s' \<and> neutral t)"

lemma passes_refl [simp]: "passes s s"
  by (auto simp: passes_def intro: exI [of _ "[]"])

lemma passes_trans: "passes s s' \<Longrightarrow> passes s' s'' \<Longrightarrow> passes s s''"
  by (auto simp: passes_def) (metis append_assoc neutral_append)

definition plain :: "char \<Rightarrow> bool" where
  "plain c \<longleftrightarrow> c \<noteq> CHR 0x22 \<and> \<not> opens c \<and> \<not> closes c"

lemma passes_plain: "snd s = c # snd s' \<Longrightarrow> plain c \<Longrightarrow> passes s s'"
  unfolding passes_def plain_def by (rule exI [of _ "[c]"]) (simp add: neutral_plain)

lemma digit_plain: "is_digit c \<Longrightarrow> plain c"
  by (auto simp: is_digit_def plain_def opens_def closes_def)

lemma space_plain: "is_space c \<Longrightarrow> plain c"
  by (auto simp: is_space_def plain_def opens_def closes_def)

lemma skip_space_passes: "passes s (skip_space s)"
proof (induction s rule: skip_space.induct)
  case (2 p c cs)
  then show ?case using passes_plain [of "(p, c # cs)" c "(Suc p, cs)"] space_plain [of c]
    by (auto intro: passes_trans)
qed simp

lemma digits_end_passes: "passes s (digits_end s)"
proof (induction s rule: digits_end.induct)
  case (2 p c cs)
  then show ?case using passes_plain [of "(p, c # cs)" c "(Suc p, cs)"] digit_plain [of c]
    by (auto intro: passes_trans)
qed simp

lemma consume_Some: "consume c s = Some s' \<longleftrightarrow> snd s = c # snd s' \<and> fst s' = Suc (fst s)"
  by (cases s; cases "snd s"; cases s') auto

lemma expect_Inr: "expect c s = Inr s' \<Longrightarrow> snd s = c # snd s'"
  by (auto simp: expect_def fail_def consume_Some split: option.splits)

lemma consume_passes: "consume c s = Some s' \<Longrightarrow> plain c \<Longrightarrow> passes s s'"
  by (auto simp: consume_Some intro: passes_plain)

lemma expect_passes: "expect c s = Inr s' \<Longrightarrow> plain c \<Longrightarrow> passes s s'"
  by (rule passes_plain [OF expect_Inr])

lemma plain_chars [simp]: "plain CHR ''-''" "plain CHR ''0''" "plain CHR ''.''" "plain CHR ''e''" "plain CHR ''E''"
    "plain CHR ''+''" "plain CHR '',''" "plain CHR '':''"
  by (simp_all add: plain_def opens_def closes_def)

lemma scan_integer_passes:
  assumes "scan_integer s = Inr s'"
  shows "passes s s'"
proof -
  define s1 where "s1 = (case consume CHR ''-'' s of Some s' \<Rightarrow> s' | None \<Rightarrow> s)"
  have 1: "passes s s1" by (cases "consume CHR ''-'' s") (auto simp: s1_def intro: consume_passes)
  have "passes s1 s'"
    using assms digits_end_passes [of s1]
    by (auto simp: scan_integer_def s1_def [symmetric] Let_def fail_def split: if_splits option.splits intro: consume_passes)
  with 1 show ?thesis by (rule passes_trans)
qed

lemma scan_fraction_passes: "scan_fraction s = Inr s' \<Longrightarrow> passes s s'"
  by (auto simp: scan_fraction_def fail_def split: option.splits if_splits
      intro!: passes_trans [OF consume_passes digits_end_passes])

lemma scan_exponent_passes:
  assumes "scan_exponent s = Inr s'"
  shows "passes s s'"
proof (cases "snd s")
  case Nil
  then show ?thesis using assms by (simp add: scan_exponent_def)
next
  case (Cons c cs)
  show ?thesis
  proof (cases "c = CHR ''e'' \<or> c = CHR ''E''")
    case False
    then show ?thesis using assms Cons by (simp add: scan_exponent_def)
  next
    case True
    define s1 where "s1 = (Suc (fst s), cs)"
    define s2 where "s2 = (case snd s1 of [] \<Rightarrow> s1 | d # ds \<Rightarrow> if d = CHR ''+'' \<or> d = CHR ''-'' then (Suc (fst s1), ds) else s1)"
    have 1: "passes s s1" by (rule passes_plain [of s c]) (use True Cons in \<open>auto simp: s1_def\<close>)
    have 2: "passes s1 s2"
      by (auto simp: s2_def split: list.splits intro: passes_plain [of s1 "CHR ''+''"] passes_plain [of s1 "CHR ''-''"])
    have "s' = digits_end s2"
      using assms Cons True by (cases cs) (auto simp: scan_exponent_def Let_def fail_def s2_def s1_def split: if_splits)
    then show ?thesis using passes_trans [OF 1 passes_trans [OF 2 digits_end_passes [of s2]]] by simp
  qed
qed

lemma parse_number_passes:
  assumes "parse_number s = Inr (v, s')"
  shows "passes s s'"
proof -
  from assms obtain s1 s2 s3 where "scan_integer s = Inr s1" "scan_fraction s1 = Inr s2" "scan_exponent s2 = Inr s3" "s' = s3"
    by (auto simp: parse_number_def rbind_eq_Inr fail_def split: option.splits)
  then show ?thesis using scan_integer_passes scan_fraction_passes scan_exponent_passes by (metis passes_trans)
qed

lemma parse_string_passes: "parse_string s = Inr (b, s') \<Longrightarrow> passes s s'"
  unfolding passes_def by (rule parse_string_read)

lemma parse_literal_passes:
  "parse_literal l v s = Inr (w, s') \<Longrightarrow> neutral l \<Longrightarrow> passes s s'"
  unfolding passes_def parse_literal_def
  by (rule exI [of _ l]) (auto simp: fail_def split: if_splits intro: append_take_drop_id [symmetric, of _ "length l", THEN trans])

text \<open>A cursor that has moved over a neutral text and a closing bracket.\<close>

definition closing :: "char \<Rightarrow> cursor \<Rightarrow> cursor \<Rightarrow> bool" where
  "closing e s s' \<longleftrightarrow> (\<exists>t. snd s = t @ e # snd s' \<and> neutral t)"

lemma closing_passes: "passes s s' \<Longrightarrow> closing e s' s'' \<Longrightarrow> closing e s s''"
  by (auto simp: passes_def closing_def) (metis append_assoc neutral_append)

lemma consume_closing: "consume e s = Some s' \<Longrightarrow> closing e s s'"
  by (auto simp: closing_def consume_Some intro: exI [of _ "[]"])

lemma bracket_passes:
  assumes "snd s = c # snd s1" "closing e s1 s'" "opens c" "closes e"
  shows "passes s s'"
proof -
  obtain t where t: "snd s1 = t @ e # snd s'" "neutral t" using assms(2) by (auto simp: closing_def)
  then show ?thesis unfolding passes_def using neutral_brackets [OF assms(3,4) t(2)] assms(1)
    by (intro exI [of _ "c # t @ [e]"]) simp
qed

lemma literals_neutral [simp]: "neutral ''null''" "neutral ''true''" "neutral ''false''"
  by (rule neutral_plains; simp add: opens_def closes_def)+

lemma brackets [simp]: "opens CHR ''[''" "opens CHR ''{''" "closes CHR '']''" "closes CHR ''}''"
  by (simp_all add: opens_def closes_def)

declare parse_value.simps [simp del] parse_elements.simps [simp del] parse_members.simps [simp del]

lemma parse_passes:
  "parse_value s = Inr (v, s') \<Longrightarrow> passes s s'"
  "parse_elements r s = Inr (v, s') \<Longrightarrow> closing CHR '']'' s s'"
  "parse_members m s = Inr (v, s') \<Longrightarrow> closing CHR ''}'' s s'"
proof (induction s and r s and m s arbitrary: v s' and v s' and v s'
    rule: parse_value_parse_elements_parse_members.induct)
  case (1 s0)
  let ?s = "skip_space s0"
  obtain c cs where cs: "snd ?s = c # cs"
    using "1.prems" by (cases "snd ?s") (simp_all add: parse_value.simps fail_def Let_def)
  let ?s1 = "skip_space (Suc (fst ?s), cs)"
  have sp: "passes (Suc (fst ?s), cs) ?s1" by (rule skip_space_passes)
  have "passes ?s s'"
  proof (cases "c = CHR ''[''")
    case True
    have "closing CHR '']'' ?s1 s'"
    proof (cases "consume CHR '']'' ?s1")
      case None
      then show ?thesis using "1.IH"(1) [OF refl cs] "1.prems" cs True
        by (simp add: parse_value.simps [of s0] Let_def)
    next
      case (Some s2)
      then show ?thesis using "1.prems" cs True consume_closing by (simp add: parse_value.simps [of s0] Let_def)
    qed
    then show ?thesis using bracket_passes [of ?s c "(Suc (fst ?s), cs)" "CHR '']''" s'] cs True closing_passes [OF sp] by simp
  next
    case nb: False
    show ?thesis
    proof (cases "c = CHR ''{''")
      case True
      have "closing CHR ''}'' ?s1 s'"
      proof (cases "consume CHR ''}'' ?s1")
        case None
        then show ?thesis using "1.IH"(2) [OF refl cs] "1.prems" cs True
          by (simp add: parse_value.simps [of s0] Let_def)
      next
        case (Some s2)
        then show ?thesis using "1.prems" cs True consume_closing by (simp add: parse_value.simps [of s0] Let_def)
      qed
      then show ?thesis using bracket_passes [of ?s c "(Suc (fst ?s), cs)" "CHR ''}''" s'] cs True closing_passes [OF sp] by simp
    next
      case False
      with cs nb have "parse_value s0 =
          (if c = CHR ''n'' then parse_literal ''null'' JNull ?s
           else if c = CHR ''t'' then parse_literal ''true'' (JBool True) ?s
           else if c = CHR ''f'' then parse_literal ''false'' (JBool False) ?s
           else if c = CHR 0x22 then rbind (parse_string ?s) (\<lambda>(t, s'). Inr (JString t, s'))
           else if c = CHR ''-'' \<or> is_digit c then parse_number ?s
           else fail ?s ''invalid value'')" by (simp add: parse_value.simps [of s0])
      with "1.prems" show ?thesis
        by (simp add: rbind_eq_Inr fail_def split: if_splits)
          (auto dest: parse_number_passes parse_string_passes parse_literal_passes)
    qed
  qed
  then show ?case by (rule passes_trans [OF skip_space_passes])
next
  case (2 result s)
  from "2.prems" obtain w s1 where 1: "parse_value s = Inr (w, s1)"
    by (cases "parse_value s") (auto simp: parse_elements.simps [of result s])
  let ?s2 = "skip_space s1"
  have r: "passes s ?s2" by (rule passes_trans [OF "2.IH"(1) [OF 1] skip_space_passes])
  show ?case
  proof (cases "consume CHR '']'' ?s2")
    case (Some s3)
    then show ?thesis using "2.prems" 1 closing_passes [OF r consume_closing] by (simp add: parse_elements.simps [of result s])
  next
    case None
    with "2.prems" 1 obtain s3 where 3: "expect CHR '','' ?s2 = Inr s3" "parse_elements (result @ [w]) (skip_space s3) = Inr (v, s')"
      by (cases "expect CHR '','' ?s2") (auto simp: parse_elements.simps [of result s])
    have "closing CHR '']'' (skip_space s3) s'" by (rule "2.IH"(2) [OF 1 refl refl None 3])
    then show ?thesis
      using closing_passes [OF passes_trans [OF r passes_trans [OF expect_passes [OF 3(1)] skip_space_passes]]] by simp
  qed
next
  case (3 result s)
  have k: "\<not> take 1 (snd s) \<noteq> [CHR 0x22]"
    by (rule notI) (use "3.prems" in \<open>simp add: parse_members.simps [of result s] fail_def\<close>)
  from "3.prems" k obtain key s1 where 1: "parse_string s = Inr (key, s1)"
    by (cases "parse_string s") (auto simp: parse_members.simps [of result s])
  from "3.prems" k 1 obtain s2 where 2: "expect CHR '':'' (skip_space s1) = Inr s2"
    by (cases "expect CHR '':'' (skip_space s1)") (auto simp: parse_members.simps [of result s])
  from "3.prems" k 1 2 obtain w s3 where 3: "parse_value (skip_space s2) = Inr (w, s3)"
    by (cases "parse_value (skip_space s2)") (auto simp: parse_members.simps [of result s])
  from "3.prems" k 1 2 3 obtain result' where 4: "obj_emplace key w result = Some result'"
    by (cases "obj_emplace key w result") (auto simp: parse_members.simps [of result s] fail_def)
  let ?s4 = "skip_space s3"
  have r: "passes s ?s4"
    using parse_string_passes [OF 1] skip_space_passes expect_passes [OF 2] "3.IH"(1) [OF k 1 refl 2 3]
    by (meson plain_chars passes_trans)
  show ?case
  proof (cases "consume CHR ''}'' ?s4")
    case (Some s5)
    then show ?thesis using "3.prems" k 1 2 3 4 closing_passes [OF r consume_closing] by (simp add: parse_members.simps [of result s])
  next
    case None
    with "3.prems" k 1 2 3 4 obtain s5 where 5: "expect CHR '','' ?s4 = Inr s5" "parse_members result' (skip_space s5) = Inr (v, s')"
      by (cases "expect CHR '','' ?s4") (auto simp: parse_members.simps [of result s])
    have "closing CHR ''}'' (skip_space s5) s'" by (rule "3.IH"(2) [OF k 1 refl 2 3 refl 4 refl None 5])
    then show ?thesis
      using closing_passes [OF passes_trans [OF r passes_trans [OF expect_passes [OF 5(1)] skip_space_passes]]] by simp
  qed
qed

section \<open>Documents are split as the parser reads them\<close>

definition document :: "string \<Rightarrow> bool" where
  "document t \<longleftrightarrow> t \<noteq> [] \<and> opens (hd t) \<and> closes (last t) \<and> (\<exists>v. parse t = Inr v)"

lemma skip_space_all: "snd (skip_space s) = [] \<Longrightarrow> blank (snd s)"
  by (induction s rule: skip_space.induct) (auto simp: blank_def split: if_splits)

lemma document_value:
  assumes "parse_value s = Inr (v, s')" "skip_space s = s" "snd s = c # cs" "opens c"
  obtains u e where "snd s = (c # u @ [e]) @ snd s'" "closes e" "neutral u"
proof -
  let ?s1 = "skip_space (Suc (fst s), cs)"
  have sp: "passes (Suc (fst s), cs) ?s1" by (rule skip_space_passes)
  have c: "c = CHR ''['' \<or> c = CHR ''{''" using assms(4) by (auto simp: opens_def)
  have "\<exists>e. closes e \<and> closing e ?s1 s'"
  proof (cases "c = CHR ''[''")
    case True
    have "closing CHR '']'' ?s1 s'"
      using assms(1-3) True
      by (cases "consume CHR '']'' ?s1") (auto simp: parse_value.simps [of s] Let_def dest: consume_closing parse_passes(2))
    then show ?thesis by (intro exI [of _ "CHR '']''"]) simp
  next
    case False
    then have "closing CHR ''}'' ?s1 s'"
      using assms(1-3) c
      by (cases "consume CHR ''}'' ?s1") (auto simp: parse_value.simps [of s] Let_def dest: consume_closing parse_passes(3))
    then show ?thesis by (intro exI [of _ "CHR ''}''"]) simp
  qed
  then obtain e where e: "closes e" "closing e (Suc (fst s), cs) s'" using closing_passes [OF sp] by blast
  then obtain u where "cs = u @ e # snd s'" "neutral u" by (auto simp: closing_def)
  then show thesis using that [of u e] e(1) assms(3) by simp
qed

lemma document_brackets:
  assumes "document t"
  obtains c u e where "t = c # u @ [e]" "opens c" "closes e" "neutral u"
proof -
  from assms obtain c cs v where t: "t = c # cs" "opens c" "closes (last t)" "parse t = Inr v"
    unfolding document_def by (metis list.exhaust list.sel(1))
  have sp: "skip_space (0, t) = (0, t)" using t(1,2) by (auto simp: opens_def is_space_def)
  from t(4) sp obtain s' where s': "parse_value (0, t) = Inr (v, s')" "snd (skip_space s') = []"
    by (auto simp: parse_def rbind_eq_Inr fail_def Let_def split: if_splits)
  from document_value [OF s'(1) sp, of c cs] t(1,2) obtain u e where
    u: "t = (c # u @ [e]) @ snd s'" "closes e" "neutral u" by auto
  have "snd s' = []"
  proof (rule ccontr)
    assume ne: "snd s' \<noteq> []"
    then have "is_space (last (snd s'))" using skip_space_all [OF s'(2)] by (simp add: blank_def list_all_iff)
    moreover have "last t = last (snd s')" using u(1) ne by simp
    ultimately show False using t(3) by (auto simp: is_space_def closes_def)
  qed
  then show thesis using that [of c u e] u t(2) by simp
qed

definition at_rest :: "string list \<Rightarrow> scanner" where
  "at_rest documents = start_scan\<lparr>sc_documents := documents\<rparr>"

lemma scan_gap: "blank gap \<Longrightarrow> fold_result scan_step gap (at_rest ds) = Inr (at_rest ds)"
proof (induction gap)
  case (Cons c gap)
  then have c: "is_space c" by (simp add: blank_def)
  then have "stream_space c" by (auto simp: is_space_def stream_space_def)
  then have "scan_step c (at_rest ds) = Inr (at_rest ds)"
    using space_plain [OF c] by (simp add: scan_step_def at_rest_def start_scan_def keep_char_def plain_def)
  then show ?case using Cons by (simp add: blank_def)
qed simp

lemma scan_document:
  assumes "document t"
  shows "fold_result scan_step t (at_rest ds) = Inr (at_rest (ds @ [t]))"
proof -
  obtain c u e where t: "t = c # u @ [e]" "opens c" "closes e" "neutral u" using document_brackets [OF assms] .
  have ne: "c \<noteq> CHR 0x22" "e \<noteq> CHR 0x22" "\<not> opens e" using t by (auto simp: opens_def closes_def)
  let ?s1 = "(at_rest ds)\<lparr>sc_current := [c], sc_depth := 1\<rparr>"
  have "scan_step c (at_rest ds) = Inr ?s1"
    using ne t(2) by (simp add: scan_step_def at_rest_def start_scan_def)
  moreover have "fold_result scan_step u ?s1 = Inr (kept u ?s1)"
    using t(4) by (simp add: neutral_def inside_def at_rest_def start_scan_def)
  moreover have "scan_step e (kept u ?s1) = Inr (at_rest (ds @ [t]))"
    using ne t by (simp add: scan_step_def at_rest_def start_scan_def kept_def)
  ultimately show ?thesis by (simp add: t(1) fold_result_append)
qed

lemma scan_documents:
  "list_all (\<lambda>(gap, t). blank gap \<and> document t) docs \<Longrightarrow>
   fold_result scan_step (concat (map (\<lambda>(gap, t). gap @ t) docs)) (at_rest ds) = Inr (at_rest (ds @ map snd docs))"
  by (induction docs arbitrary: ds) (auto simp: fold_result_append scan_gap scan_document)

lemma split_documents:
  assumes "list_all (\<lambda>(gap, t). blank gap \<and> document t) docs" and "blank rest"
  shows "split_json_documents (concat (map (\<lambda>(gap, t). gap @ t) docs) @ rest) = Inr (map snd docs)"
proof -
  have 0: "start_scan = at_rest []" by (simp add: at_rest_def start_scan_def)
  show ?thesis unfolding split_json_documents_def 0
    by (simp add: fold_result_append scan_documents [OF assms(1)] scan_gap [OF assms(2)])
      (simp add: at_rest_def start_scan_def)
qed

text \<open>The documents as values; both kinds of errors end the translation unit.\<close>

definition read_documents :: "string \<Rightarrow> json list result" where
  "read_documents contents =
     rbind (split_json_documents contents) (map_result (\<lambda>document.
       case parse document of
         Inl e \<Rightarrow> Inl (Runtime_Error (parse_error_what e))
       | Inr v \<Rightarrow> Inr v))"

lemma map_result_all: "list_all (\<lambda>x. f x = Inr (g x)) xs \<Longrightarrow> map_result f xs = Inr (map g xs)"
  by (induction xs) auto

text \<open>
  C14: The syntax trees Clang prints for one command arrive one by one. Any documents that the
  parser accepts, separated by blanks, are split exactly at their ends, whatever brackets and
  quotes stand inside their strings, and are read as the values the parser gives to them alone.
\<close>
theorem documents_read_back:
  assumes "list_all (\<lambda>(gap, t). blank gap \<and> document t) docs" and "blank rest"
  shows "split_json_documents (concat (map (\<lambda>(gap, t). gap @ t) docs) @ rest) = Inr (map snd docs) \<and>
    read_documents (concat (map (\<lambda>(gap, t). gap @ t) docs) @ rest) = Inr (map (\<lambda>(gap, t). text_value t) docs)"
proof -
  have 1: "split_json_documents (concat (map (\<lambda>(gap, t). gap @ t) docs) @ rest) = Inr (map snd docs)"
    by (rule split_documents [OF assms])
  have "list_all (\<lambda>t. (case parse t of Inl e \<Rightarrow> Inl (Runtime_Error (parse_error_what e)) | Inr v \<Rightarrow> Inr v) =
      Inr (text_value t)) (map snd docs)"
    using assms(1) by (auto simp: list_all_iff document_def text_value_def)
  from map_result_all [OF this] 1 show ?thesis by (simp add: read_documents_def case_prod_beta)
qed

definition tricky_document :: string where
  "tricky_document = object_text inline [(''a}[b'', quoted (''[ '' @ [CHR 0x22]))]"

lemma tricky_document: "document tricky_document"
proof -
  have "spells (object_of [(''a}[b'', text_value (quoted (''[ '' @ [CHR 0x22])))]) tricky_document"
    using object_spells [of "[(''a}[b'', quoted (''[ '' @ [CHR 0x22]))]" inline] by (simp add: tricky_document_def)
  then have "parse tricky_document = Inr (object_of [(''a}[b'', text_value (quoted (''[ '' @ [CHR 0x22])))])"
    using parse_spelled [of _ tricky_document "[]" "[]"] by (simp add: blank_def)
  then show ?thesis by (auto simp: document_def tricky_document_def object_text_def)
qed

lemma documents_read_back_witness:
  "split_json_documents (concat (map (\<lambda>(gap, t). gap @ t)
      [([], tricky_document), (line_end, tricky_document)]) @ line_end) =
    Inr [tricky_document, tricky_document]"
  using documents_read_back [of "[([], tricky_document), (line_end, tricky_document)]" line_end]
  by (simp add: tricky_document blank_def line_end_def is_space_def)

end
