(* ===== verification/Index_Dispatch.thy ===== *)
theory Index_Dispatch
  imports Ast_Unit Provider_Facts
begin

text \<open>
  Virtual dispatch, the end of the indexing run in \<open>src/indexer.cpp\<close>: every method is joined to the
  virtual methods of all classes above its own that it overrides. Two hash tables are iterated here;
  their orders are arguments, and the theorems hold for all of them.
\<close>

section \<open>The operation\<close>

text \<open>In which order the keys of the two tables are visited, given the order of their insertion.\<close>

record hash_orders =
  ho_records :: "string list \<Rightarrow> string list"
  ho_methods :: "string list \<Rightarrow> string list"

type_synonym record_table = "(string \<times> record_info) list"
type_synonym method_table = "(string \<times> nat list) list"

text \<open>What comes before the last \<open>::\<close>.\<close>

definition enclosing_scope :: "string \<Rightarrow> string option" where
  "enclosing_scope scope = map_option (\<lambda>(ahead, behind). rev behind) (around (rev ''::'') (rev scope))"

definition has_record :: "record_table \<Rightarrow> string \<Rightarrow> bool" where
  "has_record records name \<longleftrightarrow> map_of records name \<noteq> None"

definition resolve_record_name :: "hash_orders \<Rightarrow> record_table \<Rightarrow> string \<Rightarrow> string \<Rightarrow> string option" where
  "resolve_record_name orders records owner base =
     (if has_record records base then Some base
      else
        let contextual = map_option (\<lambda>scope. join_name scope base) (enclosing_scope owner) in
        if (case contextual of Some name \<Rightarrow> has_record records name | None \<Rightarrow> False) then contextual
        else find (\<lambda>name. names_equivalent name base) (ho_records orders (map fst records)))"

definition is_class_method :: "symbol \<Rightarrow> bool" where
  "is_class_method s \<longleftrightarrow> sym_class_name s \<noteq> [] \<and> sym_kind s = Method"

definition methods_by_class :: "graph \<Rightarrow> method_table" where
  "methods_by_class g =
     fold (\<lambda>i methods.
         let s = g_symbols g ! i in
         if is_class_method s then map_entry (sym_class_name s) [] (\<lambda>ids. ids @ [i]) methods else methods)
       [0..<length (g_symbols g)] []"

definition overrides :: "symbol list \<Rightarrow> nat \<Rightarrow> nat \<Rightarrow> bool" where
  "overrides symbols base_id derived \<longleftrightarrow>
     (let b = symbols ! base_id; d = symbols ! derived in
      sym_is_virtual b \<and> sym_name b = sym_name d \<and> sym_signature b = sym_signature d)"

definition dispatch_evidence :: evidence where
  "dispatch_evidence = \<lparr>ev_provider = ''class_hierarchy'', ev_reason = ''known override of a virtual method''\<rparr>"

definition add_override :: "nat \<Rightarrow> nat \<Rightarrow> graph \<Rightarrow> graph result" where
  "add_override derived base_id g =
     (if overrides (g_symbols g) base_id derived then add_edge base_id derived Virtual_Dispatch dispatch_evidence g else Inr g)"

definition add_overrides :: "nat list \<Rightarrow> nat list \<Rightarrow> graph \<Rightarrow> graph result" where
  "add_overrides derived_methods base_methods =
     fold_result (\<lambda>derived. fold_result (add_override derived) base_methods) derived_methods"

definition bases_of :: "record_table \<Rightarrow> string \<Rightarrow> string list" where
  "bases_of records name = (case map_of records name of Some r \<Rightarrow> ri_bases r | None \<Rightarrow> [])"

text \<open>
  The names still to be visited are a stack, its top first. A name is visited at most once, and
  every name found is that of a record.
\<close>

definition known_names :: "hash_orders \<Rightarrow> record_table \<Rightarrow> string set" where
  "known_names orders records = set (map fst records) \<union> set (ho_records orders (map fst records))"

lemma resolve_record_name_known:
  assumes "resolve_record_name orders records owner base = Some name"
  shows "name \<in> known_names orders records"
proof -
  have "has_record records n \<Longrightarrow> n \<in> set (map fst records)" for n
    by (force simp: has_record_def dest: map_of_SomeD)
  then show ?thesis
    using assms unfolding resolve_record_name_def known_names_def Let_def
    by (auto simp: find_Some_iff split: if_splits option.splits)
qed

function climb_bases ::
    "hash_orders \<Rightarrow> record_table \<Rightarrow> method_table \<Rightarrow> string \<Rightarrow> nat list \<Rightarrow> string list \<Rightarrow> string list \<Rightarrow> graph \<Rightarrow> graph result" where
  "climb_bases orders records methods derived_name derived_methods [] visited g = Inr g"
| "climb_bases orders records methods derived_name derived_methods (base # pending) visited g =
     (case resolve_record_name orders records derived_name base of
        None \<Rightarrow> climb_bases orders records methods derived_name derived_methods pending visited g
      | Some ancestor \<Rightarrow>
          if ancestor \<in> set visited then
            climb_bases orders records methods derived_name derived_methods pending visited g
          else
            let pending = rev (bases_of records ancestor) @ pending;
                visited = ancestor # visited
            in case map_of methods ancestor of
                 None \<Rightarrow> climb_bases orders records methods derived_name derived_methods pending visited g
               | Some base_methods \<Rightarrow>
                   rbind (add_overrides derived_methods base_methods g)
                     (climb_bases orders records methods derived_name derived_methods pending visited))"
  by pat_completeness auto

text \<open>Each visit takes a name out of the finite number of unvisited ones.\<close>

definition unvisited :: "hash_orders \<Rightarrow> record_table \<Rightarrow> string list \<Rightarrow> nat" where
  "unvisited orders records visited = card (known_names orders records - set visited)"

lemma known_names_finite: "finite (known_names orders records)"
  by (simp add: known_names_def)

lemma unvisited_less:
  "resolve_record_name orders records owner base = Some name \<Longrightarrow> name \<notin> set visited \<Longrightarrow>
   unvisited orders records (name # visited) < unvisited orders records visited"
  unfolding unvisited_def
  using resolve_record_name_known [of orders records owner base name]
  by (intro psubset_card_mono) (auto simp: known_names_finite)

termination climb_bases
  by (relation "measures [\<lambda>(orders, records, methods, name, ids, pending, visited, g). unvisited orders records visited,
      \<lambda>(orders, records, methods, name, ids, pending, visited, g). length pending]")
    (auto simp: unvisited_less)

definition dispatch_class ::
    "hash_orders \<Rightarrow> record_table \<Rightarrow> method_table \<Rightarrow> string \<Rightarrow> graph \<Rightarrow> graph result" where
  "dispatch_class orders records methods derived_name g =
     (case map_of records derived_name of
        None \<Rightarrow> Inr g
      | Some r \<Rightarrow>
          climb_bases orders records methods derived_name (the (map_of methods derived_name)) (rev (ri_bases r)) [] g)"

definition add_virtual_dispatch_edges :: "hash_orders \<Rightarrow> record_table \<Rightarrow> graph \<Rightarrow> graph result" where
  "add_virtual_dispatch_edges orders records g =
     (let methods = methods_by_class g in
      fold_result (dispatch_class orders records methods) (ho_methods orders (map fst methods)) g)"

section \<open>The classes above a class\<close>

inductive ancestor_of :: "hash_orders \<Rightarrow> record_table \<Rightarrow> string \<Rightarrow> string list \<Rightarrow> string \<Rightarrow> bool"
  for orders records owner names where
  ancestor_first: "base \<in> set names \<Longrightarrow> resolve_record_name orders records owner base = Some a \<Longrightarrow>
    ancestor_of orders records owner names a"
| ancestor_next: "ancestor_of orders records owner names a \<Longrightarrow> base \<in> set (bases_of records a) \<Longrightarrow>
    resolve_record_name orders records owner base = Some b \<Longrightarrow> ancestor_of orders records owner names b"

text \<open>The names the loop visits, in their order.\<close>

function visits :: "hash_orders \<Rightarrow> record_table \<Rightarrow> string \<Rightarrow> string list \<Rightarrow> string list \<Rightarrow> string list" where
  "visits orders records owner [] visited = []"
| "visits orders records owner (base # pending) visited =
     (case resolve_record_name orders records owner base of
        None \<Rightarrow> visits orders records owner pending visited
      | Some a \<Rightarrow>
          if a \<in> set visited then visits orders records owner pending visited
          else a # visits orders records owner (rev (bases_of records a) @ pending) (a # visited))"
  by pat_completeness auto
termination
  by (relation "measures [\<lambda>(orders, records, owner, pending, visited). unvisited orders records visited,
      \<lambda>(orders, records, owner, pending, visited). length pending]")
    (auto simp: unvisited_less)

definition methods_at :: "method_table \<Rightarrow> string \<Rightarrow> nat list" where
  "methods_at methods name = (case map_of methods name of Some ids \<Rightarrow> ids | None \<Rightarrow> [])"

lemma fold_result_idle: "(\<And>x s. x \<in> set xs \<Longrightarrow> f x s = Inr s) \<Longrightarrow> fold_result f xs s = Inr s"
  by (induction xs) auto

lemma add_overrides_none [simp]: "add_overrides ids [] g = Inr g"
  by (simp add: add_overrides_def fold_result_idle)

lemma climb_bases_visits:
  "climb_bases orders records methods name ids pending visited g =
   fold_result (\<lambda>a. add_overrides ids (methods_at methods a)) (visits orders records name pending visited) g"
proof (induction orders records methods name ids pending visited g rule: climb_bases.induct)
  case (2 orders records methods name ids base pending visited g)
  show ?case
  proof (cases "resolve_record_name orders records name base")
    case None
    then show ?thesis using "2.IH"(1) by simp
  next
    case (Some a)
    show ?thesis
    proof (cases "a \<in> set visited")
      case True
      then show ?thesis using Some "2.IH"(2) by simp
    next
      case False
      then show ?thesis
        using Some "2.IH"(3) [OF Some False refl refl] "2.IH"(4) [OF Some False refl refl]
        by (cases "map_of methods a") (auto simp: methods_at_def Let_def intro!: rbind_cong)
    qed
  qed
qed simp

definition visits_closed :: "hash_orders \<Rightarrow> record_table \<Rightarrow> string \<Rightarrow> string list \<Rightarrow> string set \<Rightarrow> bool" where
  "visits_closed orders records owner pending V \<longleftrightarrow>
     (\<forall>v \<in> V. \<forall>b \<in> set (bases_of records v). \<forall>c. resolve_record_name orders records owner b = Some c \<longrightarrow>
        c \<in> V \<or> (\<exists>p \<in> set pending. resolve_record_name orders records owner p = Some c))"

lemma visits_complete:
  assumes "visits_closed orders records owner pending (set visited)"
  shows "visits_closed orders records owner [] (set visited \<union> set (visits orders records owner pending visited)) \<and>
    (\<forall>p \<in> set pending. \<forall>c. resolve_record_name orders records owner p = Some c \<longrightarrow>
       c \<in> set visited \<union> set (visits orders records owner pending visited))"
  using assms
proof (induction orders records owner pending visited rule: visits.induct)
  case (1 orders records owner visited)
  then show ?case by simp
next
  case (2 orders records owner base pending visited)
  show ?case
  proof (cases "resolve_record_name orders records owner base")
    case None
    then show ?thesis using "2.IH"(1) "2.prems" by (auto simp: visits_closed_def)
  next
    case (Some a)
    show ?thesis
    proof (cases "a \<in> set visited")
      case True
      have "visits_closed orders records owner pending (set visited)"
        using "2.prems" Some True unfolding visits_closed_def by (metis option.inject set_ConsD)
      then show ?thesis using "2.IH"(2) Some True by auto
    next
      case False
      have "visits_closed orders records owner (rev (bases_of records a) @ pending) (set (a # visited))"
        using "2.prems" Some unfolding visits_closed_def
        by (metis Un_iff insert_iff list.simps(15) option.inject set_append set_rev)
      then show ?thesis using "2.IH"(3) [OF Some False] Some False by auto
    qed
  qed
qed

lemma visits_sound:
  assumes "\<And>p c. p \<in> set pending \<Longrightarrow> resolve_record_name orders records owner p = Some c \<Longrightarrow> ancestor_of orders records owner names c"
    and "c \<in> set (visits orders records owner pending visited)"
  shows "ancestor_of orders records owner names c"
  using assms
proof (induction orders records owner pending visited arbitrary: c rule: visits.induct)
  case (1 orders records owner visited)
  then show ?case by simp
next
  case (2 orders records owner base pending visited)
  show ?case
  proof (cases "resolve_record_name orders records owner base")
    case None
    then show ?thesis using "2.IH"(1) [OF None, of c] "2.prems" by auto
  next
    case (Some a)
    from "2.prems"(1) [of base a] Some have a: "ancestor_of orders records owner names a" by simp
    show ?thesis
    proof (cases "a \<in> set visited")
      case True
      then show ?thesis using "2.IH"(2) [OF Some True, of c] "2.prems" Some by auto
    next
      case False
      have "ancestor_of orders records owner names c'"
        if "p \<in> set (rev (bases_of records a) @ pending)" "resolve_record_name orders records owner p = Some c'" for p c'
        using that "2.prems"(1) ancestor_next [OF a] by auto
      then show ?thesis using "2.IH"(3) [OF Some False, of c] "2.prems"(2) Some False a by auto
    qed
  qed
qed

lemma set_visits: "set (visits orders records owner names []) = {a. ancestor_of orders records owner names a}"
proof
  show "set (visits orders records owner names []) \<subseteq> {a. ancestor_of orders records owner names a}"
    using visits_sound [of names orders records owner names] by (auto intro: ancestor_first)
  have closed: "visits_closed orders records owner [] (set (visits orders records owner names []))"
    "\<And>p c. p \<in> set names \<Longrightarrow> resolve_record_name orders records owner p = Some c \<Longrightarrow>
      c \<in> set (visits orders records owner names [])"
    using visits_complete [of orders records owner names "[]"] by (simp_all add: visits_closed_def)
  show "{a. ancestor_of orders records owner names a} \<subseteq> set (visits orders records owner names [])"
  proof clarify
    fix a assume "ancestor_of orders records owner names a"
    then show "a \<in> set (visits orders records owner names [])"
      by induction (use closed in \<open>auto simp: visits_closed_def\<close>)
  qed
qed


section \<open>What the edges are\<close>

lemma map_of_map_entry:
  "map_of (map_entry k d f kvs) k' =
     (if k' = k then Some (f (case map_of kvs k of Some v \<Rightarrow> v | None \<Rightarrow> d)) else map_of kvs k')"
  by (induction kvs) auto

definition class_methods :: "symbol list \<Rightarrow> string \<Rightarrow> nat list" where
  "class_methods symbols name =
     filter (\<lambda>i. is_class_method (symbols ! i) \<and> sym_class_name (symbols ! i) = name) [0..<length symbols]"

lemma methods_by_class_at:
  "map_of (methods_by_class g) name =
     (if class_methods (g_symbols g) name = [] then None else Some (class_methods (g_symbols g) name))"
proof -
  let ?in = "\<lambda>i. is_class_method (g_symbols g ! i) \<and> sym_class_name (g_symbols g ! i) = name"
  have "map_of (fold (\<lambda>i methods. let s = g_symbols g ! i in
         if is_class_method s then map_entry (sym_class_name s) [] (\<lambda>ids. ids @ [i]) methods else methods) is []) name =
      (if filter ?in is = [] then None else Some (filter ?in is))" for "is"
    by (induction "is" rule: rev_induct) (auto simp: Let_def map_of_map_entry split: option.splits if_splits)
  then show ?thesis by (simp only: methods_by_class_def class_methods_def)
qed

lemma methods_at_class [simp]: "methods_at (methods_by_class g) name = class_methods (g_symbols g) name"
  by (simp add: methods_at_def methods_by_class_at)

lemma set_class_methods:
  "i \<in> set (class_methods symbols name) \<longleftrightarrow>
     i < length symbols \<and> is_class_method (symbols ! i) \<and> sym_class_name (symbols ! i) = name"
  by (auto simp: class_methods_def)

definition dispatch_edge :: "nat \<Rightarrow> nat \<Rightarrow> edge" where
  "dispatch_edge base_id derived =
     \<lparr>edge_from = base_id, edge_to = derived, edge_kind = Virtual_Dispatch, edge_evidence = dispatch_evidence\<rparr>"

definition override_facts :: "symbol list \<Rightarrow> nat \<Rightarrow> nat \<Rightarrow> graph_fact set" where
  "override_facts symbols derived base_id =
     (if overrides symbols base_id derived then {Edge_Fact (dispatch_edge base_id derived)} else {})"

definition in_range :: "symbol list \<Rightarrow> nat \<Rightarrow> nat \<Rightarrow> bool" where
  "in_range symbols derived base_id \<longleftrightarrow>
     (overrides symbols base_id derived \<longrightarrow> base_id < length symbols \<and> derived < length symbols)"

lemma add_override_adds:
  "adds (add_override d b) (\<lambda>s. in_range s d b) (\<lambda>s. override_facts s d b)"
  unfolding adds_def
proof (intro allI impI)
  fix g assume wf: "graph_wf g"
  show "if in_range (g_symbols g) d b
      then \<exists>h. add_override d b g = Inr h \<and> added g h (override_facts (g_symbols g) d b)
      else \<exists>e. add_override d b g = Inl e"
  proof (cases "overrides (g_symbols g) b d")
    case False
    then show ?thesis using wf by (simp add: in_range_def add_override_def override_facts_def added_refl)
  next
    case True
    show ?thesis
    proof (cases "b < length (g_symbols g) \<and> d < length (g_symbols g)")
      case False
      then show ?thesis using True by (auto simp: in_range_def add_override_def add_edge_def)
    next
      case r: True
      let ?h = "g\<lparr>g_edges := push_unique (dispatch_edge b d) (g_edges g)\<rparr>"
      have "graph_wf ?h" by (rule graph_wf_push(1) [OF wf]) (use r in \<open>simp_all add: dispatch_edge_def\<close>)
      then have "added g ?h (override_facts (g_symbols g) d b)"
        using True by (simp add: added_def graph_facts_push override_facts_def)
      then show ?thesis using True r by (simp add: in_range_def add_override_def add_edge_def dispatch_edge_def)
    qed
  qed
qed

lemma adds_fold:
  assumes "\<And>x. x \<in> set xs \<Longrightarrow> adds (f x) (ok x) (effect x)"
  shows "adds (fold_result f xs) (\<lambda>s. \<forall>x \<in> set xs. ok x s) (\<lambda>s. \<Union>x \<in> set xs. effect x s)"
  using assms
proof (induction xs)
  case Nil
  then show ?case by (simp add: adds_def added_refl)
next
  case (Cons x xs)
  have x: "adds (f x) (ok x) (effect x)" by (rule Cons.prems) simp
  have "adds (fold_result f xs) (\<lambda>s. \<forall>x \<in> set xs. ok x s) (\<lambda>s. \<Union>x \<in> set xs. effect x s)"
    by (rule Cons.IH, rule Cons.prems) simp
  from adds_bind [OF x this] show ?case by simp
qed

lemma adds_Inr:
  "adds f ok effect \<Longrightarrow> graph_wf g \<Longrightarrow> ok (g_symbols g) \<Longrightarrow> \<exists>h. f g = Inr h \<and> added g h (effect (g_symbols g))"
  by (simp add: adds_def)

lemma adds_idle: "(\<And>g. f g = Inr g) \<Longrightarrow> adds f (\<lambda>s. True) (\<lambda>s. {})"
  by (simp add: adds_def added_refl)

lemma add_overrides_adds:
  "adds (add_overrides ids bs) (\<lambda>s. \<forall>d \<in> set ids. \<forall>b \<in> set bs. in_range s d b)
     (\<lambda>s. \<Union>d \<in> set ids. \<Union>b \<in> set bs. override_facts s d b)"
  unfolding add_overrides_def by (rule adds_fold, rule adds_fold, rule add_override_adds)

lemma climb_bases_adds:
  "adds (climb_bases orders records methods name ids (rev names) [])
     (\<lambda>s. \<forall>a \<in> {a. ancestor_of orders records name names a}. \<forall>d \<in> set ids. \<forall>b \<in> set (methods_at methods a). in_range s d b)
     (\<lambda>s. \<Union>a \<in> {a. ancestor_of orders records name names a}. \<Union>d \<in> set ids. \<Union>b \<in> set (methods_at methods a). override_facts s d b)"
proof -
  have "ancestor_of orders records name (rev names) = ancestor_of orders records name names"
  proof (intro ext iffI)
    fix a
    show "ancestor_of orders records name names a" if "ancestor_of orders records name (rev names) a"
      using that by induction (auto intro: ancestor_of.intros)
    show "ancestor_of orders records name (rev names) a" if "ancestor_of orders records name names a"
      using that by induction (auto intro: ancestor_of.intros)
  qed
  then have "set (visits orders records name (rev names) []) = {a. ancestor_of orders records name names a}"
    by (simp add: set_visits)
  moreover have "climb_bases orders records methods name ids (rev names) [] =
      fold_result (\<lambda>a. add_overrides ids (methods_at methods a)) (visits orders records name (rev names) [])"
    by (rule ext) (rule climb_bases_visits)
  ultimately show ?thesis
    using adds_fold [of "visits orders records name (rev names) []" "\<lambda>a. add_overrides ids (methods_at methods a)",
        OF add_overrides_adds] by simp
qed


text \<open>The pairs of methods that must be joined.\<close>

definition dispatches :: "hash_orders \<Rightarrow> record_table \<Rightarrow> symbol list \<Rightarrow> nat \<Rightarrow> nat \<Rightarrow> bool" where
  "dispatches orders records symbols base_id derived \<longleftrightarrow>
     (let owner = sym_class_name (symbols ! derived) in
      base_id < length symbols \<and> derived < length symbols \<and>
      is_class_method (symbols ! base_id) \<and> is_class_method (symbols ! derived) \<and>
      has_record records owner \<and>
      ancestor_of orders records owner (bases_of records owner) (sym_class_name (symbols ! base_id)) \<and>
      overrides symbols base_id derived)"

definition dispatch_facts :: "hash_orders \<Rightarrow> record_table \<Rightarrow> symbol list \<Rightarrow> graph_fact set" where
  "dispatch_facts orders records symbols =
     {Edge_Fact (dispatch_edge b d) | b d. dispatches orders records symbols b d}"

definition class_facts :: "hash_orders \<Rightarrow> record_table \<Rightarrow> method_table \<Rightarrow> string \<Rightarrow> symbol list \<Rightarrow> graph_fact set" where
  "class_facts orders records methods name symbols =
     (if has_record records name then
        \<Union>a \<in> {a. ancestor_of orders records name (bases_of records name) a}.
          \<Union>d \<in> set (methods_at methods name). \<Union>b \<in> set (methods_at methods a). override_facts symbols d b
      else {})"

definition class_in_range :: "hash_orders \<Rightarrow> record_table \<Rightarrow> method_table \<Rightarrow> string \<Rightarrow> symbol list \<Rightarrow> bool" where
  "class_in_range orders records methods name symbols \<longleftrightarrow>
     (has_record records name \<longrightarrow>
        (\<forall>a \<in> {a. ancestor_of orders records name (bases_of records name) a}.
          \<forall>d \<in> set (methods_at methods name). \<forall>b \<in> set (methods_at methods a). in_range symbols d b))"

lemma dispatch_class_adds:
  assumes "map_of methods name \<noteq> None"
  shows "adds (dispatch_class orders records methods name)
     (class_in_range orders records methods name) (class_facts orders records methods name)"
proof (cases "map_of records name")
  case None
  then show ?thesis
    using adds_idle [of "dispatch_class orders records methods name"]
    by (simp add: dispatch_class_def class_in_range_def [abs_def] class_facts_def [abs_def] has_record_def)
next
  case (Some r)
  have "the (map_of methods name) = methods_at methods name" using assms by (auto simp: methods_at_def)
  then have "dispatch_class orders records methods name =
      climb_bases orders records methods name (methods_at methods name) (rev (bases_of records name)) []"
    using Some by (simp add: dispatch_class_def [abs_def] bases_of_def)
  then show ?thesis
    using climb_bases_adds [of orders records methods name "methods_at methods name" "bases_of records name"] Some
    by (simp add: class_in_range_def [abs_def] class_facts_def [abs_def] has_record_def)
qed

lemma class_facts_dispatch:
  "(\<Union>name \<in> {name. map_of (methods_by_class g) name \<noteq> None}.
      class_facts orders records (methods_by_class g) name (g_symbols g)) =
   dispatch_facts orders records (g_symbols g)"
proof (intro equalityI subsetI)
  fix x assume "x \<in> (\<Union>name \<in> {name. map_of (methods_by_class g) name \<noteq> None}.
      class_facts orders records (methods_by_class g) name (g_symbols g))"
  then show "x \<in> dispatch_facts orders records (g_symbols g)"
    by (fastforce simp: class_facts_def dispatch_facts_def override_facts_def dispatches_def
        set_class_methods Let_def split: if_splits)
next
  fix x assume "x \<in> dispatch_facts orders records (g_symbols g)"
  then obtain b d where x: "x = Edge_Fact (dispatch_edge b d)" and bd: "dispatches orders records (g_symbols g) b d"
    by (auto simp: dispatch_facts_def)
  let ?owner = "sym_class_name (g_symbols g ! d)"
  have d: "d \<in> set (class_methods (g_symbols g) ?owner)" using bd by (simp add: set_class_methods dispatches_def Let_def)
  then have "map_of (methods_by_class g) ?owner \<noteq> None" by (auto simp: methods_by_class_at)
  moreover have "x \<in> override_facts (g_symbols g) d b" "has_record records ?owner"
      "ancestor_of orders records ?owner (bases_of records ?owner) (sym_class_name (g_symbols g ! b))"
      "b \<in> set (class_methods (g_symbols g) (sym_class_name (g_symbols g ! b)))"
    using bd by (simp_all add: x override_facts_def dispatches_def set_class_methods Let_def)
  then have "x \<in> class_facts orders records (methods_by_class g) ?owner (g_symbols g)"
    using d by (auto simp: class_facts_def)
  ultimately show "x \<in> (\<Union>name \<in> {name. map_of (methods_by_class g) name \<noteq> None}.
      class_facts orders records (methods_by_class g) name (g_symbols g))" by blast
qed

definition visits_all :: "(string list \<Rightarrow> string list) \<Rightarrow> bool" where
  "visits_all order \<longleftrightarrow> (\<forall>keys. set (order keys) = set keys)"

lemma dispatch_added:
  assumes "graph_wf g" and "visits_all (ho_methods orders)"
  shows "\<exists>h. add_virtual_dispatch_edges orders records g = Inr h \<and>
    added g h (dispatch_facts orders records (g_symbols g))"
proof -
  let ?methods = "methods_by_class g"
  let ?names = "ho_methods orders (map fst ?methods)"
  have names: "set ?names = {name. map_of ?methods name \<noteq> None}"
    using assms(2) by (auto simp: visits_all_def map_of_eq_None_iff)
  have step: "adds (dispatch_class orders records ?methods name)
     (class_in_range orders records ?methods name) (class_facts orders records ?methods name)"
    if "name \<in> set ?names" for name
    by (rule dispatch_class_adds) (use that names in blast)
  have range: "class_in_range orders records ?methods name (g_symbols g)" for name
    by (auto simp: class_in_range_def in_range_def set_class_methods)
  have "adds (fold_result (dispatch_class orders records ?methods) ?names)
      (\<lambda>s. \<forall>name \<in> set ?names. class_in_range orders records ?methods name s)
      (\<lambda>s. \<Union>name \<in> set ?names. class_facts orders records ?methods name s)"
    by (rule adds_fold, rule step)
  from adds_Inr [OF this assms(1)] range show ?thesis
    unfolding add_virtual_dispatch_edges_def Let_def
    by (simp only: names class_facts_dispatch) (simp add: names)
qed

text \<open>
  C13: Virtual dispatch is exact. Whatever the hash order, cyclic and repeated bases included, the
  operation returns, changes no symbol and adds, to the facts there are, precisely one edge from each
  virtual method to each method of the same name and signature in a class below its own.
\<close>
theorem virtual_dispatch_exact:
  assumes "graph_wf g" and "visits_all (ho_methods orders)"
  shows "\<exists>h. add_virtual_dispatch_edges orders records g = Inr h \<and> graph_wf h \<and> g_symbols h = g_symbols g \<and>
    set (g_edges h) = set (g_edges g) \<union>
      {dispatch_edge b d | b d. dispatches orders records (g_symbols g) b d} \<and>
    set (g_roots h) = set (g_roots g) \<and> set (g_escapes h) = set (g_escapes g) \<and>
    set (g_suppressions h) = set (g_suppressions g)"
proof -
  obtain h where h: "add_virtual_dispatch_edges orders records g = Inr h"
    "added g h (dispatch_facts orders records (g_symbols g))"
    using dispatch_added [OF assms] by blast
  have mem: "e \<in> set (g_edges k) \<longleftrightarrow> Edge_Fact e \<in> graph_facts k"
    "r \<in> set (g_roots k) \<longleftrightarrow> Root_Fact r \<in> graph_facts k"
    "x \<in> set (g_escapes k) \<longleftrightarrow> Escape_Fact x \<in> graph_facts k"
    "p \<in> set (g_suppressions k) \<longleftrightarrow> Suppression_Fact p \<in> graph_facts k" for k e r x p
    by (auto simp: graph_facts_def)
  have facts: "graph_facts h = graph_facts g \<union> dispatch_facts orders records (g_symbols g)"
    using h(2) by (simp add: added_def)
  have "set (g_edges h) = set (g_edges g) \<union> {dispatch_edge b d | b d. dispatches orders records (g_symbols g) b d}"
    "set (g_roots h) = set (g_roots g)" "set (g_escapes h) = set (g_escapes g)"
    "set (g_suppressions h) = set (g_suppressions g)"
    by (auto simp: set_eq_iff mem facts dispatch_facts_def)
  then show ?thesis using h by (auto simp: added_def)
qed

section \<open>The order of the hash tables\<close>

text \<open>No name of a base stands for two records.\<close>

definition unambiguous :: "record_table \<Rightarrow> bool" where
  "unambiguous records \<longleftrightarrow> (\<forall>base m n. \<not> has_record records base \<longrightarrow> has_record records m \<longrightarrow>
     has_record records n \<longrightarrow> names_equivalent m base \<longrightarrow> names_equivalent n base \<longrightarrow> m = n)"

lemma find_unique:
  assumes "set xs = set ys" and "\<And>x y. x \<in> set xs \<Longrightarrow> y \<in> set xs \<Longrightarrow> P x \<Longrightarrow> P y \<Longrightarrow> x = y"
  shows "find P xs = find P ys"
proof (cases "find P xs")
  case None
  then show ?thesis using assms(1) by (metis find_None_iff)
next
  case (Some x)
  then have x: "x \<in> set xs" "P x" by (auto simp: find_Some_iff)
  then have "find P ys \<noteq> None" using assms(1) by (auto simp: find_None_iff)
  then obtain y where y: "find P ys = Some y" by blast
  then have "y \<in> set xs" "P y" using assms(1) by (auto simp: find_Some_iff)
  then show ?thesis using assms(2) x y Some by auto
qed

lemma has_record_iff: "set (map fst records) = {n. has_record records n}"
  unfolding has_record_def map_of_eq_None_iff by simp

lemma resolve_order_irrelevant:
  assumes "map_of records = map_of records'" and "unambiguous records"
    and "visits_all (ho_records orders)" and "visits_all (ho_records orders')"
  shows "resolve_record_name orders records owner base = resolve_record_name orders' records' owner base"
proof -
  have has: "has_record records' = has_record records" by (simp add: has_record_def [abs_def] assms(1))
  have set: "set (ho_records orders (map fst records)) = {n. has_record records n}"
    "set (ho_records orders' (map fst records')) = {n. has_record records n}"
    using assms(3,4) has has_record_iff [of records] has_record_iff [of records'] by (simp_all add: visits_all_def)
  show ?thesis
  proof (cases "has_record records base")
    case True
    then show ?thesis by (simp add: resolve_record_name_def has)
  next
    case False
    have "find (\<lambda>name. names_equivalent name base) (ho_records orders (map fst records)) =
        find (\<lambda>name. names_equivalent name base) (ho_records orders' (map fst records'))"
      by (rule find_unique) (use set assms(2) False in \<open>simp_all add: unambiguous_def\<close>)
    then show ?thesis by (simp only: resolve_record_name_def has)
  qed
qed

lemma dispatch_facts_order_irrelevant:
  assumes "map_of records = map_of records'" and "unambiguous records"
    and "visits_all (ho_records orders)" and "visits_all (ho_records orders')"
  shows "dispatch_facts orders records symbols = dispatch_facts orders' records' symbols"
proof -
  have bases: "bases_of records' = bases_of records" by (simp add: bases_of_def [abs_def] assms(1))
  have res: "resolve_record_name orders' records' = resolve_record_name orders records"
    by (intro ext) (rule resolve_order_irrelevant [OF assms, symmetric])
  have "ancestor_of orders' records' owner names a \<longleftrightarrow> ancestor_of orders records owner names a" for owner names a
  proof
    show "ancestor_of orders records owner names a" if "ancestor_of orders' records' owner names a"
      using that by induction (auto simp: res bases intro: ancestor_of.intros)
    show "ancestor_of orders' records' owner names a" if "ancestor_of orders records owner names a"
      using that by induction (auto simp: res [symmetric] bases [symmetric] intro: ancestor_of.intros)
  qed
  then show ?thesis
    by (simp add: dispatch_facts_def dispatches_def bases has_record_def assms(1))
qed

text \<open>With two candidates for a base the order of the table decides which of them is taken.\<close>

lemma ambiguous_base_depends_on_order:
  "let records = [(''a::B'', \<lparr>ri_name = ''a::B'', ri_bases = []\<rparr>), (''b::B'', \<lparr>ri_name = ''b::B'', ri_bases = []\<rparr>)] in
   resolve_record_name \<lparr>ho_records = id, ho_methods = id\<rparr> records ''D'' ''B'' = Some ''a::B'' \<and>
   resolve_record_name \<lparr>ho_records = rev, ho_methods = id\<rparr> records ''D'' ''B'' = Some ''b::B''"
  by code_simp


section \<open>A sample\<close>

definition sample_method :: "string \<Rightarrow> bool \<Rightarrow> symbol" where
  "sample_method class_name virtual =
     (sample_symbol (class_name @ ''::run'') ''b.cpp'' 1 3)\<lparr>sym_name := ''run'', sym_class_name := class_name,
       sym_kind := Method, sym_is_virtual := virtual\<rparr>"

definition sample_classes :: graph where
  "sample_classes = empty_graph\<lparr>g_symbols := [sample_method ''A'' True, sample_method ''B'' False],
     g_key_to_id := [''A::run'' \<mapsto> 0, ''B::run'' \<mapsto> 1]\<rparr>"

text \<open>A hierarchy with a cycle, as an incomplete program may show it.\<close>

definition sample_records :: record_table where
  "sample_records = [(''B'', \<lparr>ri_name = ''B'', ri_bases = [''A'']\<rparr>), (''A'', \<lparr>ri_name = ''A'', ri_bases = [''B'']\<rparr>)]"

definition plain_orders :: hash_orders where
  "plain_orders = \<lparr>ho_records = rev, ho_methods = rev\<rparr>"

lemma sample_classes_wf: "graph_wf sample_classes"
  unfolding graph_wf_def
  by (intro conjI allI wf_by_index)
    (auto simp: sample_classes_def empty_graph_def sample_method_def sample_defs keys_of_def key_at_def less_Suc_eq)

lemma sample_dispatch: "dispatches plain_orders sample_records (g_symbols sample_classes) 0 1"
proof -
  have "resolve_record_name plain_orders sample_records ''B'' ''A'' = Some ''A''" by code_simp
  then have "ancestor_of plain_orders sample_records ''B'' [''A''] ''A''" by (auto intro: ancestor_first)
  then show ?thesis
    by (simp add: dispatches_def sample_classes_def sample_records_def has_record_def bases_of_def overrides_def
        is_class_method_def sample_method_def sample_symbol_def)
qed

lemma virtual_dispatch_exact_witness:
  "\<exists>h. add_virtual_dispatch_edges plain_orders sample_records sample_classes = Inr h \<and>
    dispatch_edge 0 1 \<in> set (g_edges h)"
proof -
  have "visits_all (ho_methods plain_orders)" by (simp add: visits_all_def plain_orders_def)
  from virtual_dispatch_exact [OF sample_classes_wf this, of sample_records] sample_dispatch
  show ?thesis by blast
qed

end
