(* ===== verification/Process.thy ===== *)
theory Process
  imports Prelude
begin

text \<open>
  Running a child process, \<open>src/process.cpp\<close>: what is asked of it and what comes back.
\<close>

datatype process_termination =
  Exited | Signaled | Process_Timed_Out | Process_Cancelled | Output_Limit_Exceeded

record process_options =
  pr_timeout :: "int option"
  pr_output_limit :: nat
  pr_error_limit :: nat
  pr_grace :: int

record process_result =
  ps_exit_code :: int
  ps_signal :: int
  ps_termination :: process_termination
  ps_output :: string
  ps_error :: string

definition default_options :: process_options where
  "default_options = \<lparr>pr_timeout = None, pr_output_limit = 0, pr_error_limit = 64 * 1024, pr_grace = 250\<rparr>"

end
