(* ===== verification/Index_Run.thy ===== *)
theory Index_Run
  imports Index_Documents Index_Dispatch Cache_Publish Process
begin

text \<open>
  The indexing run, \<open>ClangAstIndexer\<close> of \<open>src/indexer.cpp\<close>: every command is answered from the cache
  or by a run of Clang, its facts are merged, and the merged graph is completed with virtual
  dispatch, requested roots and provider policies. Clocks, cancellation, the runs of Clang and the
  state of the files at each command are an argument, the events of the run.
\<close>

section \<open>Diagnostics of a run\<close>

datatype run_state = Run_Complete | Run_Incomplete | Run_Unsupported

datatype unit_status =
  Unit_Indexed | Unit_Failed | Unit_Skipped | Unit_Timed_Out | Unit_Unsupported | Unit_Cancelled

fun run_state_to_string :: "run_state \<Rightarrow> string" where
  "run_state_to_string Run_Complete = ''complete''"
| "run_state_to_string Run_Incomplete = ''incomplete''"
| "run_state_to_string Run_Unsupported = ''unsupported''"

fun unit_status_to_string :: "unit_status \<Rightarrow> string" where
  "unit_status_to_string Unit_Indexed = ''indexed''"
| "unit_status_to_string Unit_Failed = ''failed''"
| "unit_status_to_string Unit_Skipped = ''skipped''"
| "unit_status_to_string Unit_Timed_Out = ''timed_out''"
| "unit_status_to_string Unit_Unsupported = ''unsupported''"
| "unit_status_to_string Unit_Cancelled = ''cancelled''"

record unit_diagnostic =
  ud_file :: string
  ud_status :: unit_status
  ud_stage :: string
  ud_message :: string
  ud_exit_code :: "int option"
  ud_signal :: "int option"

record run_diagnostics =
  rd_state :: run_state
  rd_frontend :: index_frontend
  rd_discarded :: bool
  rd_units :: "unit_diagnostic list"

text \<open>\<open>IndexingError\<close>, or any other exception that leaves the run.\<close>

datatype index_failure = Indexing_Error string run_diagnostics | Other_Error exn

record index_metrics =
  im_hits :: nat
  im_misses :: nat
  im_bytes_read :: nat
  im_bytes_written :: nat
  im_validation_time :: int
  im_indexing_time :: int
  im_merge_time :: int

record index_result =
  ir_graph :: graph
  ir_diagnostics :: "string list"
  ir_frontend :: index_frontend
  ir_units :: nat
  ir_ast_bytes :: nat
  ir_fact_bytes :: nat
  ir_metrics :: index_metrics
  ir_warnings :: "string list"
  ir_unit_diagnostics :: "unit_diagnostic list"

definition empty_result :: index_result where
  "empty_result =
     \<lparr>ir_graph = empty_graph, ir_diagnostics = [], ir_frontend = Ast_Json, ir_units = 0, ir_ast_bytes = 0,
      ir_fact_bytes = 0,
      ir_metrics = \<lparr>im_hits = 0, im_misses = 0, im_bytes_read = 0, im_bytes_written = 0,
        im_validation_time = 0, im_indexing_time = 0, im_merge_time = 0\<rparr>,
      ir_warnings = [], ir_unit_diagnostics = []\<rparr>"

definition unit_note :: "compile_command \<Rightarrow> unit_status \<Rightarrow> string \<Rightarrow> string \<Rightarrow> unit_diagnostic" where
  "unit_note command status stage message =
     \<lparr>ud_file = cc_file command, ud_status = status, ud_stage = stage, ud_message = message,
      ud_exit_code = None, ud_signal = None\<rparr>"

definition indexed_note :: "compile_command \<Rightarrow> unit_diagnostic" where
  "indexed_note command = unit_note command Unit_Indexed ''indexing'' ''translation unit indexed successfully''"

definition skipped_note :: "compile_command \<Rightarrow> unit_diagnostic" where
  "skipped_note command =
     unit_note command Unit_Skipped ''indexing'' ''not indexed because an earlier translation unit did not complete''"

text \<open>The exit code and the signal of the process, where there was one.\<close>

type_synonym ending = "(int \<times> int) option"

definition fail_indexing ::
    "compile_command list \<Rightarrow> index_result \<Rightarrow> nat \<Rightarrow> unit_status \<Rightarrow> string \<Rightarrow> string \<Rightarrow> ending \<Rightarrow> index_failure" where
  "fail_indexing commands partial current status stage message ending =
     Indexing_Error message
       \<lparr>rd_state = Run_Incomplete, rd_frontend = ir_frontend partial,
        rd_discarded = (ir_unit_diagnostics partial \<noteq> [] \<or> g_symbols (ir_graph partial) \<noteq> []),
        rd_units = ir_unit_diagnostics partial @
          (if current < length commands then
             [(unit_note (commands ! current) status stage message)
                \<lparr>ud_exit_code := map_option fst ending, ud_signal := map_option snd ending\<rparr>] @
             map skipped_note (drop (Suc current) commands)
           else [])\<rparr>"

text \<open>The size of the facts of a graph, with the sizes of the types on a 64-bit machine.\<close>

definition point_bytes :: "source_point \<Rightarrow> nat" where
  "point_bytes p = length (sp_file p) + 4 * 8"

definition extent_bytes :: "source_extent \<Rightarrow> nat" where
  "extent_bytes x = point_bytes (sx_location x) + point_bytes (sx_begin x) + point_bytes (sx_end x)"

definition symbol_bytes :: "symbol \<Rightarrow> nat" where
  "symbol_bytes s =
     length (sym_key s) + length (si_configuration_id (sym_identity s)) + length (si_usr (sym_identity s)) +
     length (si_linkage_name (sym_identity s)) + length (si_translation_unit (sym_identity s)) +
     length (si_fallback_anchor (sym_identity s)) + length (sym_name s) + length (sym_qualified_name s) +
     length (sym_class_name s) + length (sym_signature s) + extent_bytes (ss_spelling (sym_source s)) +
     4 * 1 + 2 * 4 + (case ss_expansion (sym_source s) of Some x \<Rightarrow> extent_bytes x | None \<Rightarrow> 0)"

definition evidence_bytes :: "evidence \<Rightarrow> nat" where
  "evidence_bytes e = length (ev_provider e) + length (ev_reason e)"

definition graph_fact_bytes :: "graph \<Rightarrow> nat" where
  "graph_fact_bytes g =
     sum_list (map symbol_bytes (g_symbols g)) +
     sum_list (map (\<lambda>e. 2 * 8 + 4 + evidence_bytes (edge_evidence e)) (g_edges g)) +
     sum_list (map (\<lambda>r. 8 + 4 + evidence_bytes (root_evidence r)) (g_roots g)) +
     sum_list (map (\<lambda>x. 2 * 8 + 4 + evidence_bytes (esc_evidence x)) (g_escapes g)) +
     sum_list (map (\<lambda>p. 8 + evidence_bytes (sup_evidence p)) (g_suppressions g))"

section \<open>The options\<close>

definition clean_path :: "filesystem \<Rightarrow> string \<Rightarrow> string" where
  "clean_path fs path = lexically_normal (absolute fs path)"

definition check_report_path :: "string \<Rightarrow> string \<Rightarrow> unit \<Rightarrow> unit result" where
  "check_report_path project_root report_path _ =
     (if path_is_within report_path project_root then Inr ()
      else Inl (Invalid_Argument (''report path is outside the project root: '' @ report_path)))"

definition make_indexer :: "filesystem \<Rightarrow> index_options \<Rightarrow> index_options result" where
  "make_indexer fs options =
     (if ix_configuration_id options = [] then
        Inl (Invalid_Argument ''configuration identity cannot be empty'')
      else
        let root = clean_path fs (ix_project_root options);
            reports = map (clean_path fs)
              (if ix_report_paths options = [] then [root] else ix_report_paths options)
        in rbind (fold_result (check_report_path root) reports ()) (\<lambda>_.
           Inr (options\<lparr>ix_project_root := root, ix_report_paths := reports,
             ix_excluded_paths := map (clean_path fs) (ix_excluded_paths options),
             ix_selected_target_sources := map (clean_path fs) (ix_selected_target_sources options),
             ix_public_headers := map (clean_path fs) (ix_public_headers options),
             ix_cache_directory := map_option (\<lambda>directory. clean_path fs
               (if is_absolute directory then directory else path_append root directory))
               (ix_cache_directory options)\<rparr>)))"

section \<open>One command\<close>

text \<open>
  The events of one command: what the clocks, the cancellation function and the file system show at
  the moments at which the code looks, how Clang answers, and how staging the new entry ends.
\<close>

record unit_events =
  ue_cancelled_first :: bool
  ue_machine :: machine
  ue_cancelled_validating :: bool
  ue_unit_validating :: int
  ue_run_validating :: int
  ue_run_starting :: int
  ue_dependency_file :: string
  ue_process :: "string list \<Rightarrow> string \<Rightarrow> process_options \<Rightarrow> process_result result"
  ue_files :: filesystem
  ue_cancelled_collecting :: bool
  ue_unit_collecting :: int
  ue_run_collecting :: int
  ue_process_id :: nat
  ue_counter :: nat
  ue_staging :: stage_outcome
  ue_validation_time :: int
  ue_indexing_time :: int
  ue_merge_time :: int

record progress =
  rp_result :: index_result
  rp_records :: record_table
  rp_matches :: "bool list"
  rp_staged :: "staged_write list"
  rp_store :: store

text \<open>A failure keeps the progress made, whose staged files are then given up.\<close>

type_synonym 'a run = "(index_failure \<times> progress) + 'a"

definition change_result :: "(index_result \<Rightarrow> index_result) \<Rightarrow> progress \<Rightarrow> progress" where
  "change_result f p = p\<lparr>rp_result := f (rp_result p)\<rparr>"

definition change_metrics :: "(index_metrics \<Rightarrow> index_metrics) \<Rightarrow> progress \<Rightarrow> progress" where
  "change_metrics f = change_result (\<lambda>r. r\<lparr>ir_metrics := f (ir_metrics r)\<rparr>)"

text \<open>Why a command is given up between two activities.\<close>

definition interruption ::
    "index_options \<Rightarrow> bool \<Rightarrow> int \<Rightarrow> int \<Rightarrow> string \<Rightarrow> (unit_status \<times> string) option" where
  "interruption options cancelled unit_elapsed run_elapsed activity =
     (if cancelled then Some (Unit_Cancelled, ''indexing cancelled while '' @ activity)
      else if 0 < ix_translation_unit_timeout options \<and> ix_translation_unit_timeout options \<le> unit_elapsed then
        Some (Unit_Timed_Out, ''translation-unit timeout while '' @ activity)
      else if 0 < ix_index_timeout options \<and> ix_index_timeout options \<le> run_elapsed then
        Some (Unit_Timed_Out, ''index timeout while '' @ activity)
      else None)"

definition or_flags :: "bool list \<Rightarrow> bool list \<Rightarrow> bool list" where
  "or_flags xs ys = map (\<lambda>i. xs ! i \<or> ys ! i) [0..<length xs]"

definition sorted_unique :: "string list \<Rightarrow> string list" where
  "sorted_unique xs = unique_by id (sort xs)"

definition merge_record :: "string \<times> string list \<Rightarrow> record_table \<Rightarrow> record_table" where
  "merge_record = (\<lambda>(name, bases).
     map_entry name \<lparr>ri_name = [], ri_bases = []\<rparr>
       (\<lambda>r. r\<lparr>ri_name := name, ri_bases := sorted_unique (ri_bases r @ bases)\<rparr>))"

text \<open>What a command leaves behind, whether it comes from the cache or from Clang.\<close>

definition take_over ::
    "compile_command \<Rightarrow> string list \<Rightarrow> bool list \<Rightarrow> (string \<times> string list) list \<Rightarrow> progress \<Rightarrow> progress" where
  "take_over command diagnostics rule_flags records p =
     (change_result (\<lambda>r. r\<lparr>ir_diagnostics := ir_diagnostics r @ diagnostics,
        ir_units := ir_units r + 1,
        ir_unit_diagnostics := ir_unit_diagnostics r @ [indexed_note command]\<rparr>) p)
       \<lparr>rp_matches := or_flags (rp_matches p) rule_flags, rp_records := fold merge_record records (rp_records p)\<rparr>"

definition take_graph :: "nat \<Rightarrow> int \<Rightarrow> graph \<Rightarrow> progress \<Rightarrow> progress" where
  "take_graph bytes elapsed g =
     change_metrics (\<lambda>m. m\<lparr>im_merge_time := im_merge_time m + elapsed\<rparr>) \<circ>
     change_result (\<lambda>r. r\<lparr>ir_graph := g, ir_fact_bytes := ir_fact_bytes r + bytes\<rparr>)"

definition reuse_entry :: "compile_command \<Rightarrow> unit_events \<Rightarrow> cache_entry \<Rightarrow> progress \<Rightarrow> progress run" where
  "reuse_entry command ue entry p =
     (case merge_graph (ir_graph (rp_result p)) (te_graph entry) of
        Inl e \<Rightarrow> Inl (Other_Error e, p)
      | Inr g \<Rightarrow>
          Inr (take_over command (te_diagnostics entry) (te_matches entry)
            (map (\<lambda>r. (rh_name r, rh_bases r)) (te_hierarchy entry))
            (change_metrics (\<lambda>m. m\<lparr>im_hits := im_hits m + 1\<rparr>)
              (take_graph (te_fact_bytes entry) (ue_merge_time ue) g p))))"

text \<open>The look-up of an entry, with its warnings.\<close>

definition incompatible_entry :: "compile_command \<Rightarrow> string" where
  "incompatible_entry command =
     ''ignored translation-unit cache entry with incompatible callback metadata for '' @ cc_file command"

definition look_up ::
    "index_options \<Rightarrow> compile_command list \<Rightarrow> nat \<Rightarrow> compile_command \<Rightarrow> unit_events \<Rightarrow> string \<Rightarrow> string \<Rightarrow> progress \<Rightarrow>
     (cache_entry option \<times> progress) run" where
  "look_up options commands i command ue directory key p =
     (let cached = load_translation_unit_cache (ue_machine ue) directory key (cc_file command);
          p = change_metrics (\<lambda>m. m\<lparr>im_validation_time := im_validation_time m + ue_validation_time ue,
                im_bytes_read := im_bytes_read m + lr_bytes cached\<rparr>)
              (change_result (\<lambda>r. r\<lparr>ir_warnings := ir_warnings r @ lr_warnings cached\<rparr>) p)
      in case interruption options (ue_cancelled_validating ue) (ue_unit_validating ue) (ue_run_validating ue)
             (''validating cached facts for '' @ cc_file command) of
           Some (status, message) \<Rightarrow>
             Inl (fail_indexing commands (rp_result p) i status ''cache_validation'' message None, p)
         | None \<Rightarrow>
             (case lr_entry cached of
                None \<Rightarrow> Inr (None, p)
              | Some entry \<Rightarrow>
                  if length (te_matches entry) \<noteq> length (rp_matches p) then
                    Inr (None, change_result (\<lambda>r. r\<lparr>ir_warnings := ir_warnings r @ [incompatible_entry command]\<rparr>) p)
                  else Inr (Some entry, p)))"

text \<open>The time Clang may take, and which of the two limits it is.\<close>

definition process_limit :: "index_options \<Rightarrow> int \<Rightarrow> (int option \<times> string) option" where
  "process_limit options run_elapsed =
     (let own = (if 0 < ix_translation_unit_timeout options then Some (ix_translation_unit_timeout options) else None);
          remaining = ix_index_timeout options - run_elapsed
      in if ix_index_timeout options \<le> 0 then Some (own, ''translation-unit'')
         else if ix_index_timeout options \<le> run_elapsed then None
         else if (case own of None \<Rightarrow> True | Some t \<Rightarrow> remaining < t) then Some (Some remaining, ''index'')
         else Some (own, ''translation-unit''))"

text \<open>How a run of Clang may fail.\<close>

definition process_failure ::
    "compile_command \<Rightarrow> string \<Rightarrow> process_result \<Rightarrow> (unit_status \<times> string \<times> string) option" where
  "process_failure command limit process =
     (let path = cc_file command in
      if ps_termination process = Process_Timed_Out then
        Some (Unit_Timed_Out, ''clang'', limit @ '' timeout while indexing '' @ path)
      else if ps_termination process = Process_Cancelled then
        Some (Unit_Cancelled, ''clang'', ''indexing cancelled while processing '' @ path)
      else if ps_termination process = Output_Limit_Exceeded then
        Some (Unit_Failed, ''ast_output'', ''Clang AST output exceeded --max-ast-bytes for '' @ path)
      else if ps_exit_code process \<noteq> 0 then
        Some (Unit_Failed, ''clang'', ''Clang AST indexing failed for '' @ path @ '' (exit '' @
          to_string_int (ps_exit_code process) @ ''):'' @ newline @ concise_diagnostic (ps_error process))
      else None)"

definition run_clang ::
    "index_options \<Rightarrow> compile_command list \<Rightarrow> nat \<Rightarrow> compile_command \<Rightarrow> unit_events \<Rightarrow> progress \<Rightarrow> process_result run" where
  "run_clang options commands i command ue p =
     (let fail = \<lambda>status stage message ending. Inl (fail_indexing commands (rp_result p) i status stage message ending, p)
      in case process_limit options (ue_run_starting ue) of
           None \<Rightarrow> fail Unit_Timed_Out ''indexing'' (''index timeout reached before '' @ cc_file command) None
         | Some (timeout, limit) \<Rightarrow>
             (case ast_command command options
                 (map_option (\<lambda>_. ue_dependency_file ue) (ix_cache_directory options)) of
                Inl e \<Rightarrow> Inl (Other_Error e, p)
              | Inr invocation \<Rightarrow>
                  (case ue_process ue invocation (cc_directory command)
                      (default_options\<lparr>pr_timeout := timeout, pr_output_limit := ix_max_ast_bytes options\<rparr>) of
                     Inl e \<Rightarrow> fail Unit_Failed ''process''
                       (''could not run Clang AST indexing for '' @ cc_file command @ '': '' @ exn_what e) None
                   | Inr process \<Rightarrow>
                       (case process_failure command limit process of
                          Some (status, stage, message) \<Rightarrow>
                            fail status stage message (Some (ps_exit_code process, ps_signal process))
                        | None \<Rightarrow> Inr process))))"


section \<open>The facts of a command\<close>

definition command_state ::
    "index_options \<Rightarrow> compile_command \<Rightarrow> filesystem \<Rightarrow> string \<Rightarrow> unit_state result" where
  "command_state options command fs contents =
     rbind (read_documents contents) (\<lambda>documents.
       collect_facts \<lparr>un_files = fs, un_command = command, un_options = options\<rparr> documents (start_unit options))"

definition collect_command ::
    "index_options \<Rightarrow> compile_command list \<Rightarrow> compile_command list \<Rightarrow> nat \<Rightarrow> compile_command \<Rightarrow> unit_events \<Rightarrow>
     process_result \<Rightarrow> progress \<Rightarrow> unit_state run" where
  "collect_command options given commands i command ue process p =
     (case read_documents (ps_output process) of
        Inl e \<Rightarrow>
          Inl (fail_indexing given (rp_result p) i Unit_Failed ''ast_parse''
            (''invalid Clang AST JSON for '' @ cc_file command @ '': '' @ exn_what e) None, p)
      | Inr documents \<Rightarrow>
          (case collect_facts \<lparr>un_files = ue_files ue, un_command = command, un_options = options\<rparr> documents
               (start_unit options) of
             Inl e \<Rightarrow>
               Inl (fail_indexing commands (rp_result p) i Unit_Failed ''fact_collection''
                 (''could not collect Clang AST facts for '' @ cc_file command @ '': '' @ exn_what e) None, p)
           | Inr st \<Rightarrow>
               (case interruption options (ue_cancelled_collecting ue) (ue_unit_collecting ue) (ue_run_collecting ue)
                    (''collecting facts for '' @ cc_file command) of
                  Some (status, message) \<Rightarrow>
                    Inl (fail_indexing commands (rp_result p) i status ''fact_collection'' message None, p)
                | None \<Rightarrow> Inr st)))"

text \<open>The output of Clang comes first among the diagnostics of a command, then those of the collectors.\<close>

definition command_diagnostics :: "index_options \<Rightarrow> compile_command \<Rightarrow> process_result \<Rightarrow> unit_state \<Rightarrow> string list" where
  "command_diagnostics options command process st =
     (if ix_verbose options \<and> ps_error process \<noteq> [] then
        [cc_file command @ '':'' @ newline @ concise_diagnostic (ps_error process)] else []) @ us_diagnostics st"

definition unit_entry ::
    "compile_command \<Rightarrow> process_result \<Rightarrow> string list \<Rightarrow> unit_state \<Rightarrow> cache_dependency list \<Rightarrow> cache_entry" where
  "unit_entry command process diagnostics st dependencies =
     \<lparr>te_graph = us_graph st, te_diagnostics = diagnostics, te_matches = us_matches st,
      te_hierarchy = sort_key rh_name
        (map (\<lambda>(name, r). \<lparr>rh_name = name, rh_bases = sorted_unique (ri_bases r)\<rparr>) (us_records st)),
      te_dependencies = dependencies, te_ast_bytes = length (ps_output process),
      te_fact_bytes = graph_fact_bytes (us_graph st)\<rparr>"

definition stage_entry ::
    "compile_command \<Rightarrow> unit_events \<Rightarrow> string \<Rightarrow> string \<Rightarrow> process_result \<Rightarrow> string list \<Rightarrow> unit_state \<Rightarrow> progress \<Rightarrow> progress" where
  "stage_entry command ue directory key process diagnostics st p =
     (case rbind (parse_make_dependencies (ue_files ue) (ue_dependency_file ue) (cc_directory command)) (\<lambda>paths.
           hash_cache_dependencies (ue_files ue) (paths @ [cc_file command] @ cc_inputs command)) of
        Inl e \<Rightarrow>
          change_result (\<lambda>r. r\<lparr>ir_warnings := ir_warnings r @
            [''could not cache facts for '' @ cc_file command @ '': '' @ exn_what e]\<rparr>) p
      | Inr dependencies \<Rightarrow>
          let (staged, warnings, store) = stage_translation_unit_cache directory key
                (unit_entry command process diagnostics st dependencies)
                (ue_process_id ue) (ue_counter ue) (ue_staging ue) (ir_warnings (rp_result p)) (rp_store p);
              p = (change_result (\<lambda>r. r\<lparr>ir_warnings := warnings\<rparr>) p)\<lparr>rp_store := store\<rparr>
          in case staged of
               None \<Rightarrow> p
             | Some sw \<Rightarrow>
                 (change_metrics (\<lambda>m. m\<lparr>im_bytes_written := im_bytes_written m + sw_bytes sw\<rparr>) p)
                   \<lparr>rp_staged := rp_staged p @ [sw]\<rparr>)"

text \<open>The cache directory and the key of the command, if there is a cache.\<close>

type_synonym cache_place = "(string \<times> string) option"

definition index_fresh ::
    "index_options \<Rightarrow> compile_command list \<Rightarrow> compile_command list \<Rightarrow> nat \<Rightarrow> compile_command \<Rightarrow> unit_events \<Rightarrow>
     cache_place \<Rightarrow> progress \<Rightarrow> progress run" where
  "index_fresh options given commands i command ue place p =
     rbind (run_clang options commands i command ue p) (\<lambda>process.
     let p = change_result (\<lambda>r. r\<lparr>ir_ast_bytes := ir_ast_bytes r + length (ps_output process)\<rparr>) p in
     rbind (collect_command options given commands i command ue process p) (\<lambda>st.
     let diagnostics = command_diagnostics options command process st;
         p = change_metrics (\<lambda>m. m\<lparr>im_indexing_time := im_indexing_time m + ue_indexing_time ue\<rparr>) p;
         p = (case place of None \<Rightarrow> p
              | Some (directory, key) \<Rightarrow> stage_entry command ue directory key process diagnostics st p)
     in case merge_graph (ir_graph (rp_result p)) (us_graph st) of
          Inl e \<Rightarrow>
            Inl (fail_indexing commands (rp_result p) i Unit_Failed ''fact_merge''
              (''could not merge Clang AST facts for '' @ cc_file command @ '': '' @ exn_what e) None, p)
        | Inr g \<Rightarrow>
            Inr (take_over command diagnostics (us_matches st)
              (map (\<lambda>(name, r). (name, ri_bases r)) (us_records st))
              (take_graph (graph_fact_bytes (us_graph st)) (ue_merge_time ue) g p))))"

definition index_command ::
    "index_options \<Rightarrow> (nat \<Rightarrow> unit_events) \<Rightarrow> compile_command list \<Rightarrow> compile_command list \<Rightarrow> nat \<times> compile_command \<Rightarrow>
     progress \<Rightarrow> progress run" where
  "index_command options events given commands = (\<lambda>(i, command) p.
     let ue = events i in
     if ue_cancelled_first ue then
       Inl (fail_indexing commands (rp_result p) i Unit_Cancelled ''indexing''
         (''indexing cancelled before '' @ cc_file command) None, p)
     else
       case ix_cache_directory options of
         None \<Rightarrow> index_fresh options given commands i command ue None p
       | Some directory \<Rightarrow>
           (case translation_unit_cache_key (ue_machine ue) command options Ast_Json of
              Inl e \<Rightarrow> Inl (Other_Error e, p)
            | Inr key \<Rightarrow>
                rbind (look_up options commands i command ue directory key p) (\<lambda>(entry, p).
                case entry of
                  Some entry \<Rightarrow> reuse_entry command ue entry p
                | None \<Rightarrow>
                    index_fresh options given commands i command ue (Some (directory, key))
                      (change_metrics (\<lambda>m. m\<lparr>im_misses := im_misses m + 1\<rparr>) p))))"

section \<open>The whole run\<close>

record run_events =
  re_start :: filesystem
  re_units :: "nat \<Rightarrow> unit_events"
  re_orders :: hash_orders
  re_store :: store
  re_commits :: "nat \<Rightarrow> commit_outcome"
  re_discards :: "nat \<Rightarrow> bool"

definition run_error :: "string \<Rightarrow> bool \<Rightarrow> unit_diagnostic list \<Rightarrow> index_failure" where
  "run_error message discarded units =
     Indexing_Error message
       \<lparr>rd_state = Run_Incomplete, rd_frontend = Ast_Json, rd_discarded = discarded, rd_units = units\<rparr>"

definition no_policy :: "index_options \<Rightarrow> bool" where
  "no_policy options \<longleftrightarrow>
     ix_require_api options \<and> ix_public_headers options = [] \<and>
     list_all (\<lambda>policy. pp_public_api_roots policy = []) (ix_provider_policies options)"

text \<open>All commands are normalized ahead of the first run of Clang.\<close>

definition normalization_failure :: "compile_command list \<Rightarrow> nat \<Rightarrow> exn \<Rightarrow> index_failure" where
  "normalization_failure commands i e =
     run_error (''could not normalize compilation command for '' @ cc_file (commands ! i) @ '': '' @ exn_what e) False
       (map (\<lambda>j. if j = i then unit_note (commands ! j) Unit_Failed ''command_normalization'' (exn_what e)
                 else unit_note (commands ! j) Unit_Skipped ''command_normalization''
                        ''not indexed because command normalization failed'')
         [0..<length commands])"

definition normalize_commands :: "filesystem \<Rightarrow> compile_command list \<Rightarrow> index_failure + compile_command list" where
  "normalize_commands fs commands =
     map_result (\<lambda>(i, command).
       case normalize_compile_command fs command of
         Inl e \<Rightarrow> Inl (normalization_failure commands i e)
       | Inr normalized \<Rightarrow> Inr normalized) (enumerate 0 commands)"

definition start_progress :: "index_options \<Rightarrow> store \<Rightarrow> progress" where
  "start_progress options st =
     \<lparr>rp_result = empty_result, rp_records = [],
      rp_matches = replicate (length (ix_callback_rules options)) False, rp_staged = [], rp_store = st\<rparr>"

definition index_commands ::
    "index_options \<Rightarrow> run_events \<Rightarrow> compile_command list \<Rightarrow> compile_command list \<Rightarrow> progress run" where
  "index_commands options re given commands =
     fold_result (index_command options (re_units re) given commands) (enumerate 0 commands)
       (start_progress options (re_store re))"

text \<open>A root that was asked for on the command line.\<close>

definition names_symbol :: "string \<Rightarrow> symbol \<Rightarrow> bool" where
  "names_symbol requested s \<longleftrightarrow>
     sym_qualified_name s = requested \<or> si_linkage_name (sym_identity s) = requested \<or> sym_key s = requested"

definition add_manual_root :: "string \<Rightarrow> nat \<Rightarrow> graph \<Rightarrow> graph result" where
  "add_manual_root requested i g =
     (if names_symbol requested (g_symbols g ! i) then
        add_root i Manual \<lparr>ev_provider = ''command_line'', ev_reason = ''matched configured root: '' @ requested\<rparr> g
      else Inr g)"

definition add_manual_roots :: "string list \<Rightarrow> graph \<Rightarrow> graph result" where
  "add_manual_roots requests g =
     fold_result (\<lambda>requested. fold_result (add_manual_root requested) [0..<length (g_symbols g)]) requests g"

definition unmatched_roots :: "string list \<Rightarrow> graph \<Rightarrow> string list" where
  "unmatched_roots requests g =
     map (\<lambda>requested. ''configured root did not match a symbol: '' @ requested)
       (filter (\<lambda>requested. \<not> list_ex (names_symbol requested) (g_symbols g)) requests)"

definition header_observed :: "graph \<Rightarrow> string \<Rightarrow> bool" where
  "header_observed g header \<longleftrightarrow>
     list_ex (\<lambda>r. is_public_api (root_kind r) \<and> ev_reason (root_evidence r) = public_header_reason header) (g_roots g)"

definition fallback_diagnostics :: "graph \<Rightarrow> string list" where
  "fallback_diagnostics g =
     map (\<lambda>s. ''fallback symbol identity for '' @ sym_qualified_name s @ '' : '' @ sym_signature s @ '' at '' @
          si_fallback_anchor (sym_identity s) @ ''; this frontend exposes neither a linkage name nor a Clang USR'')
       (filter (\<lambda>s. si_quality (sym_identity s) = Fallback) (g_symbols g))"

definition unmatched_rule :: "index_options \<Rightarrow> bool list \<Rightarrow> callback_rule option" where
  "unmatched_rule options rule_flags =
     map_option fst (find (\<lambda>(rule, matched). \<not> matched) (zip (ix_callback_rules options) rule_flags))"

text \<open>What is left to do with the merged graph.\<close>

definition complete_graph ::
    "index_options \<Rightarrow> hash_orders \<Rightarrow> record_table \<Rightarrow> bool list \<Rightarrow> unit_diagnostic list \<Rightarrow> graph \<Rightarrow>
     index_failure + graph \<times> string list" where
  "complete_graph options orders records rule_flags units g =
     (let other = \<lambda>r. case r of Inl e \<Rightarrow> Inl (Other_Error e) | Inr x \<Rightarrow> Inr x in
      rbind (other (add_virtual_dispatch_edges orders records g)) (\<lambda>g.
      case unmatched_rule options rule_flags of
        Some rule \<Rightarrow>
          Inl (run_error (''callback registration rule did not match a registrar call: '' @ describe (cr_callee rule) @
            '':'' @ to_string_nat (cr_argument_index rule)) True units)
      | None \<Rightarrow>
          rbind (other (add_manual_roots (ix_manual_roots options) g)) (\<lambda>g.
          let unmatched = unmatched_roots (ix_manual_roots options) g in
          case apply_provider_policies g (ix_provider_policies options) of
            Inl e \<Rightarrow> Inl (run_error (''could not apply reachability provider: '' @ exn_what e) True units)
          | Inr g \<Rightarrow>
              (case find (\<lambda>header. \<not> header_observed g header) (ix_public_headers options) of
                 Some header \<Rightarrow>
                   Inl (run_error (''declared public header was not observed in indexed translation units: '' @ header)
                     True units)
               | None \<Rightarrow>
                   if g_roots g = [] then
                     Inl (run_error ''no application roots found; include main(), --root, or a provider root'' True units)
                   else
                     Inr (canonicalize g,
                       unmatched @
                       (if ix_ast_filter options = [] then [] else
                          [''Clang AST name filter active: '' @ ix_ast_filter options]) @
                       fallback_diagnostics g)))))"

definition commit_all :: "(nat \<Rightarrow> commit_outcome) \<Rightarrow> staged_write list \<Rightarrow> string list \<Rightarrow> store \<Rightarrow> string list \<times> store" where
  "commit_all outcomes staged warnings st =
     fold (\<lambda>(i, sw) (warnings, st). let (_, warnings, st) = commit (outcomes i) sw warnings st in (warnings, st))
       (enumerate 0 staged) (warnings, st)"

definition discard_all :: "(nat \<Rightarrow> bool) \<Rightarrow> staged_write list \<Rightarrow> store \<Rightarrow> store" where
  "discard_all works staged st = fold (\<lambda>(i, sw) st. snd (discard (works i) sw st)) (enumerate 0 staged) st"

definition finish_run ::
    "index_options \<Rightarrow> run_events \<Rightarrow> progress \<Rightarrow> (index_failure + index_result) \<times> store" where
  "finish_run options re p =
     (let r = rp_result p in
      case complete_graph options (re_orders re) (rp_records p) (rp_matches p) (ir_unit_diagnostics r) (ir_graph r) of
        Inl failure \<Rightarrow> (Inl failure, discard_all (re_discards re) (rp_staged p) (rp_store p))
      | Inr (g, diagnostics) \<Rightarrow>
          let (warnings, st) = commit_all (re_commits re) (rp_staged p) (ir_warnings r) (rp_store p) in
          (Inr (r\<lparr>ir_graph := g, ir_diagnostics := sorted_unique (ir_diagnostics r @ diagnostics),
             ir_unit_diagnostics := sort_key (path_key \<circ> ud_file) (ir_unit_diagnostics r),
             ir_warnings := warnings\<rparr>), st))"

definition index_run ::
    "index_options \<Rightarrow> run_events \<Rightarrow> compile_command list \<Rightarrow> (index_failure + index_result) \<times> store" where
  "index_run options re given =
     (if no_policy options then
        (Inl (run_error ''selected library requires public headers or explicit public API roots'' False []), re_store re)
      else if given = [] then
        (Inl (run_error ''selected interface library has no compilation context'' False []), re_store re)
      else
        case normalize_commands (re_start re) given of
          Inl failure \<Rightarrow> (Inl failure, re_store re)
        | Inr commands \<Rightarrow>
            (case index_commands options re given commands of
               Inl (failure, p) \<Rightarrow> (Inl failure, discard_all (re_discards re) (rp_staged p) (rp_store p))
             | Inr p \<Rightarrow> finish_run options re p))"

end
