(* ===== verification/Index_Run_Facts.thy ===== *)
theory Index_Run_Facts
  imports Index_Run
begin

text \<open>
  The indexing run accounts for every command. A run that succeeds has merged the facts of all
  commands, each of them taken from a valid cache entry or collected from the output of Clang; a run
  that fails says of every command how far it got, and publishes nothing.
\<close>

section \<open>The facts of one command\<close>

record unit_facts =
  uf_graph :: graph
  uf_diagnostics :: "string list"
  uf_flags :: "bool list"
  uf_records :: "(string \<times> string list) list"

definition entry_facts :: "cache_entry \<Rightarrow> unit_facts" where
  "entry_facts e =
     \<lparr>uf_graph = te_graph e, uf_diagnostics = te_diagnostics e, uf_flags = te_matches e,
      uf_records = map (\<lambda>r. (rh_name r, rh_bases r)) (te_hierarchy e)\<rparr>"

definition collected_facts :: "index_options \<Rightarrow> compile_command \<Rightarrow> process_result \<Rightarrow> unit_state \<Rightarrow> unit_facts" where
  "collected_facts options command process st =
     \<lparr>uf_graph = us_graph st, uf_diagnostics = command_diagnostics options command process st,
      uf_flags = us_matches st, uf_records = map (\<lambda>(name, r). (name, ri_bases r)) (us_records st)\<rparr>"

text \<open>The look-up of the command finds a valid entry that fits the callback rules.\<close>

definition found_entry :: "index_options \<Rightarrow> compile_command \<Rightarrow> unit_events \<Rightarrow> cache_entry \<Rightarrow> bool" where
  "found_entry options command ue e \<longleftrightarrow>
     (\<exists>directory key. ix_cache_directory options = Some directory \<and>
        translation_unit_cache_key (ue_machine ue) command options Ast_Json = Inr key \<and>
        lr_entry (load_translation_unit_cache (ue_machine ue) directory key (cc_file command)) = Some e \<and>
        length (te_matches e) = length (ix_callback_rules options))"

text \<open>Clang is run for the command, ends well, and the collectors accept its output.\<close>

definition clang_facts ::
    "index_options \<Rightarrow> compile_command \<Rightarrow> unit_events \<Rightarrow> process_result \<Rightarrow> unit_state \<Rightarrow> bool" where
  "clang_facts options command ue process st \<longleftrightarrow>
     (\<exists>dependency_file invocation limits.
        ast_command command options dependency_file = Inr invocation \<and>
        ue_process ue invocation (cc_directory command) limits = Inr process) \<and>
     ps_exit_code process = 0 \<and>
     command_state options command (ue_files ue) (ps_output process) = Inr st"

definition unit_gives :: "index_options \<Rightarrow> compile_command \<Rightarrow> unit_events \<Rightarrow> unit_facts \<Rightarrow> bool" where
  "unit_gives options command ue f \<longleftrightarrow>
     (\<exists>e. found_entry options command ue e \<and> f = entry_facts e) \<or>
     (\<exists>process st. clang_facts options command ue process st \<and> f = collected_facts options command process st)"

text \<open>The part of the progress that the result depends on.\<close>

definition absorbs :: "compile_command \<Rightarrow> unit_facts \<Rightarrow> progress \<Rightarrow> progress \<Rightarrow> bool" where
  "absorbs command f p p' \<longleftrightarrow>
     merge_graph (ir_graph (rp_result p)) (uf_graph f) = Inr (ir_graph (rp_result p')) \<and>
     ir_diagnostics (rp_result p') = ir_diagnostics (rp_result p) @ uf_diagnostics f \<and>
     rp_matches p' = or_flags (rp_matches p) (uf_flags f) \<and>
     rp_records p' = fold merge_record (uf_records f) (rp_records p) \<and>
     ir_units (rp_result p') = ir_units (rp_result p) + 1 \<and>
     ir_frontend (rp_result p') = ir_frontend (rp_result p) \<and>
     ir_unit_diagnostics (rp_result p') = ir_unit_diagnostics (rp_result p) @ [indexed_note command]"

text \<open>What the steps of a command leave alone until its facts are taken over.\<close>

definition same_progress :: "progress \<Rightarrow> progress \<Rightarrow> bool" where
  "same_progress p q \<longleftrightarrow>
     ir_graph (rp_result q) = ir_graph (rp_result p) \<and> ir_diagnostics (rp_result q) = ir_diagnostics (rp_result p) \<and>
     ir_units (rp_result q) = ir_units (rp_result p) \<and> ir_frontend (rp_result q) = ir_frontend (rp_result p) \<and>
     ir_unit_diagnostics (rp_result q) = ir_unit_diagnostics (rp_result p) \<and>
     rp_matches q = rp_matches p \<and> rp_records q = rp_records p"

lemma same_progress_refl [simp]: "same_progress p p"
  by (simp add: same_progress_def)

lemma same_progress_trans: "same_progress p q \<Longrightarrow> same_progress q r \<Longrightarrow> same_progress p r"
  by (simp add: same_progress_def)

lemma same_progress_changes [simp]:
  "same_progress p (change_metrics f q) = same_progress p q"
  "same_progress p (change_result (\<lambda>r. r\<lparr>ir_warnings := w r\<rparr>) q) = same_progress p q"
  "same_progress p (change_result (ir_warnings_update w') q) = same_progress p q"
  "same_progress p (change_result (\<lambda>r. r\<lparr>ir_ast_bytes := b r\<rparr>) q) = same_progress p q"
  "same_progress p (q\<lparr>rp_store := s\<rparr>) = same_progress p q"
  "same_progress p (q\<lparr>rp_staged := sw\<rparr>) = same_progress p q"
  by (simp_all add: same_progress_def change_metrics_def change_result_def)

lemma stage_entry_same: "same_progress p (stage_entry command ue directory key process diagnostics st p)"
  by (simp add: stage_entry_def Let_def split: sum.splits prod.splits option.splits)

lemma absorbs_take_over:
  assumes "merge_graph (ir_graph (rp_result p)) (uf_graph f) = Inr g" "same_progress p q"
  shows "absorbs command f p (take_over command (uf_diagnostics f) (uf_flags f) (uf_records f)
    (take_graph bytes elapsed g q))"
    "absorbs command f p (take_over command (uf_diagnostics f) (uf_flags f) (uf_records f)
      (change_metrics h (take_graph bytes elapsed g q)))"
  using assms
  by (simp_all add: absorbs_def same_progress_def take_over_def take_graph_def change_metrics_def change_result_def)

lemma look_up_found:
  assumes "look_up options commands i command ue directory key p = Inr (entry, q)"
  shows "same_progress p q"
    and "entry = Some e \<Longrightarrow>
      lr_entry (load_translation_unit_cache (ue_machine ue) directory key (cc_file command)) = Some e \<and>
      length (te_matches e) = length (rp_matches p)"
proof -
  let ?cached = "load_translation_unit_cache (ue_machine ue) directory key (cc_file command)"
  define q0 where "q0 = change_metrics (\<lambda>m. m\<lparr>im_validation_time := im_validation_time m + ue_validation_time ue,
      im_bytes_read := im_bytes_read m + lr_bytes ?cached\<rparr>)
    (change_result (\<lambda>r. r\<lparr>ir_warnings := ir_warnings r @ lr_warnings ?cached\<rparr>) p)"
  have q0: "same_progress p q0" by (simp add: q0_def)
  have look: "Inr (entry, q) = (case lr_entry ?cached of
        None \<Rightarrow> Inr (None, q0)
      | Some entry \<Rightarrow>
          if length (te_matches entry) \<noteq> length (rp_matches q0) then
            Inr (None, change_result (\<lambda>r. r\<lparr>ir_warnings := ir_warnings r @ [incompatible_entry command]\<rparr>) q0)
          else (Inr (Some entry, q0) :: (cache_entry option \<times> progress) run))"
    using assms by (auto simp: look_up_def q0_def [symmetric] Let_def split: option.splits if_splits)
  show "same_progress p q"
    using look q0 by (auto split: option.splits if_splits)
  show "lr_entry ?cached = Some e \<and> length (te_matches e) = length (rp_matches p)" if "entry = Some e"
    using look q0 that by (auto simp: same_progress_def split: option.splits if_splits)
qed

lemma run_clang_Inr:
  assumes "run_clang options commands i command ue p = Inr process"
  shows "(\<exists>dependency_file invocation limits.
        ast_command command options dependency_file = Inr invocation \<and>
        ue_process ue invocation (cc_directory command) limits = Inr process) \<and> ps_exit_code process = 0"
  using assms
  by (auto simp: run_clang_def process_failure_def Let_def split: option.splits prod.splits sum.splits if_splits)

lemma collect_command_Inr:
  assumes "collect_command options given commands i command ue process p = Inr st"
  shows "command_state options command (ue_files ue) (ps_output process) = Inr st"
  using assms by (auto simp: collect_command_def command_state_def split: option.splits prod.splits sum.splits)

lemma index_fresh_absorbs:
  assumes "index_fresh options given commands i command ue place p = Inr p'"
  shows "\<exists>process st. clang_facts options command ue process st \<and>
    absorbs command (collected_facts options command process st) p p'"
proof -
  from assms obtain process where 1: "run_clang options commands i command ue p = Inr process"
    by (auto simp: index_fresh_def rbind_eq_Inr)
  define p1 where "p1 = change_result (\<lambda>r. r\<lparr>ir_ast_bytes := ir_ast_bytes r + length (ps_output process)\<rparr>) p"
  from assms 1 obtain st where 2: "collect_command options given commands i command ue process p1 = Inr st"
    by (cases "collect_command options given commands i command ue process p1") (auto simp: index_fresh_def p1_def)
  define d where "d = command_diagnostics options command process st"
  define p2 where "p2 = change_metrics (\<lambda>m. m\<lparr>im_indexing_time := im_indexing_time m + ue_indexing_time ue\<rparr>) p1"
  define p3 where "p3 = (case place of None \<Rightarrow> p2 | Some (directory, key) \<Rightarrow> stage_entry command ue directory key process d st p2)"
  have s2: "same_progress p p2" by (simp add: p2_def p1_def)
  then have s3: "same_progress p p3"
    using stage_entry_same by (auto simp: p3_def split: option.splits intro: same_progress_trans)
  have final: "(case merge_graph (ir_graph (rp_result p3)) (us_graph st) of
      Inl e \<Rightarrow>
        Inl (fail_indexing commands (rp_result p3) i Unit_Failed ''fact_merge''
          (''could not merge Clang AST facts for '' @ cc_file command @ '': '' @ exn_what e) None, p3)
    | Inr g \<Rightarrow>
        Inr (take_over command d (us_matches st) (map (\<lambda>(name, r). (name, ri_bases r)) (us_records st))
          (take_graph (graph_fact_bytes (us_graph st)) (ue_merge_time ue) g p3))) = Inr p'"
    using assms 1 2 unfolding index_fresh_def p3_def p2_def p1_def d_def Let_def by simp
  then obtain g where 3: "merge_graph (ir_graph (rp_result p3)) (us_graph st) = Inr g"
    by (cases "merge_graph (ir_graph (rp_result p3)) (us_graph st)") simp_all
  with final have p': "p' = take_over command d (us_matches st) (map (\<lambda>(name, r). (name, ri_bases r)) (us_records st))
        (take_graph (graph_fact_bytes (us_graph st)) (ue_merge_time ue) g p3)" by simp
  have "clang_facts options command ue process st"
    using run_clang_Inr [OF 1] collect_command_Inr [OF 2] by (simp add: clang_facts_def)
  moreover have "absorbs command (collected_facts options command process st) p p'"
    using absorbs_take_over(1) [of p "collected_facts options command process st" g p3] 3 s3
    by (simp add: p' collected_facts_def d_def same_progress_def)
  ultimately show ?thesis by blast
qed

lemma index_command_absorbs:
  assumes "index_command options events given commands (i, command) p = Inr p'"
    and "length (rp_matches p) = length (ix_callback_rules options)"
  shows "\<exists>f. unit_gives options command (events i) f \<and> absorbs command f p p'"
proof (cases "ix_cache_directory options")
  case None
  with assms(1) have "index_fresh options given commands i command (events i) None p = Inr p'"
    by (simp add: index_command_def Let_def split: if_splits)
  from index_fresh_absorbs [OF this] show ?thesis by (auto simp: unit_gives_def)
next
  case (Some directory)
  with assms(1) obtain key entry q where
    key: "translation_unit_cache_key (ue_machine (events i)) command options Ast_Json = Inr key"
    and look: "look_up options commands i command (events i) directory key p = Inr (entry, q)"
    and rest: "(case entry of
        Some entry \<Rightarrow> reuse_entry command (events i) entry q
      | None \<Rightarrow> index_fresh options given commands i command (events i) (Some (directory, key))
          (change_metrics (\<lambda>m. m\<lparr>im_misses := im_misses m + 1\<rparr>) q)) = Inr p'"
    by (auto simp: index_command_def Let_def rbind_eq_Inr split: if_splits sum.splits)
  note same = look_up_found(1) [OF look]
  show ?thesis
  proof (cases entry)
    case None
    let ?q = "change_metrics (\<lambda>m. m\<lparr>im_misses := im_misses m + 1\<rparr>) q"
    from rest None have "index_fresh options given commands i command (events i) (Some (directory, key)) ?q = Inr p'"
      by simp
    from index_fresh_absorbs [OF this] obtain process st where
      c: "clang_facts options command (events i) process st"
      and a: "absorbs command (collected_facts options command process st) ?q p'" by blast
    have "same_progress p ?q" using same by simp
    with a have "absorbs command (collected_facts options command process st) p p'"
      by (simp add: absorbs_def same_progress_def)
    with c show ?thesis by (auto simp: unit_gives_def)
  next
    case (Some e)
    from rest Some obtain g where g: "merge_graph (ir_graph (rp_result q)) (te_graph e) = Inr g"
      and p': "p' = take_over command (te_diagnostics e) (te_matches e)
            (map (\<lambda>r. (rh_name r, rh_bases r)) (te_hierarchy e))
            (change_metrics (\<lambda>m. m\<lparr>im_hits := im_hits m + 1\<rparr>)
              (take_graph (te_fact_bytes e) (ue_merge_time (events i)) g q))"
      by (auto simp: reuse_entry_def split: sum.splits)
    have "absorbs command (entry_facts e) p p'"
      using absorbs_take_over(2) [of p "entry_facts e" g q] g same
      by (simp add: p' entry_facts_def same_progress_def)
    moreover have "found_entry options command (events i) e"
      using look_up_found(2) [OF look Some] key \<open>ix_cache_directory options = Some directory\<close> assms(2)
      by (simp add: found_entry_def)
    ultimately show ?thesis by (auto simp: unit_gives_def)
  qed
qed

section \<open>How a command fails\<close>

definition failed_status :: "unit_status \<Rightarrow> bool" where
  "failed_status s \<longleftrightarrow> s \<in> {Unit_Failed, Unit_Timed_Out, Unit_Cancelled}"

lemma failed_status_simps [simp]:
  "failed_status Unit_Failed" "failed_status Unit_Timed_Out" "failed_status Unit_Cancelled"
  by (simp_all add: failed_status_def)

definition gave_up :: "compile_command list set \<Rightarrow> nat \<Rightarrow> progress \<Rightarrow> index_failure \<Rightarrow> bool" where
  "gave_up known i p failure \<longleftrightarrow>
     (\<exists>e. failure = Other_Error e) \<or>
     (\<exists>cs \<in> known. \<exists>r status stage message ending. failed_status status \<and>
        failure = fail_indexing cs r i status stage message ending \<and> ir_frontend r = ir_frontend (rp_result p) \<and>
        ir_unit_diagnostics r = ir_unit_diagnostics (rp_result p))"

lemma gave_up_other [simp]: "gave_up known i p (Other_Error e)"
  by (simp add: gave_up_def)

lemma gave_up_Indexing:
  assumes "gave_up known i p (Indexing_Error message d)"
  obtains cs r status stage m ending where "cs \<in> known" "failed_status status"
    "Indexing_Error message d = fail_indexing cs r i status stage m ending" "ir_frontend r = ir_frontend (rp_result p)"
    "ir_unit_diagnostics r = ir_unit_diagnostics (rp_result p)"
  using assms by (auto simp: gave_up_def)

lemma gave_up_indexing:
  "cs \<in> known \<Longrightarrow> failed_status status \<Longrightarrow> same_progress p q \<Longrightarrow>
   gave_up known i p (fail_indexing cs (rp_result q) i status stage message ending)"
  unfolding gave_up_def same_progress_def by blast

lemma gave_up_same: "same_progress p q \<Longrightarrow> gave_up known i q failure \<Longrightarrow> gave_up known i p failure"
  by (auto simp: gave_up_def same_progress_def)

lemma interruption_status: "interruption options c t r activity = Some (status, message) \<Longrightarrow> failed_status status"
  by (auto simp: interruption_def split: if_splits)

lemma process_failure_status:
  "process_failure command limit process = Some (status, stage, message) \<Longrightarrow> failed_status status"
  by (auto simp: process_failure_def Let_def split: if_splits)

lemma look_up_fails:
  assumes "look_up options commands i command ue directory key p = Inl (failure, q)" and "commands \<in> known"
  shows "gave_up known i p failure"
  using assms
  by (auto simp: look_up_def Let_def split: option.splits if_splits
      intro!: gave_up_indexing dest: interruption_status)

lemma run_clang_fails:
  assumes "run_clang options commands i command ue p = Inl (failure, q)" and "commands \<in> known"
  shows "gave_up known i p failure"
  using assms
  by (auto simp: run_clang_def Let_def split: option.splits prod.splits sum.splits
      intro!: gave_up_indexing dest: process_failure_status)

lemma collect_command_fails:
  assumes "collect_command options given commands i command ue process p = Inl (failure, q)"
    and "commands \<in> known" and "given \<in> known"
  shows "gave_up known i p failure"
  using assms
  by (auto simp: collect_command_def split: option.splits sum.splits
      intro!: gave_up_indexing dest: interruption_status)

lemma index_fresh_fails:
  assumes fails: "index_fresh options given commands i command ue place p = Inl (failure, q)"
    and "commands \<in> known" and "given \<in> known"
  shows "gave_up known i p failure"
proof (cases "run_clang options commands i command ue p")
  case (Inl e)
  then show ?thesis using fails run_clang_fails [OF _ assms(2)] by (cases e) (simp add: index_fresh_def)
next
  case (Inr process)
  define p1 where "p1 = change_result (\<lambda>r. r\<lparr>ir_ast_bytes := ir_ast_bytes r + length (ps_output process)\<rparr>) p"
  have s1: "same_progress p p1" by (simp add: p1_def)
  show ?thesis
  proof (cases "collect_command options given commands i command ue process p1")
    case (Inl e)
    then have "e = (failure, q)" using fails Inr by (simp add: index_fresh_def p1_def)
    then show ?thesis using collect_command_fails [OF _ assms(2,3)] Inl gave_up_same [OF s1] by blast
  next
    case inr: (Inr st)
    define d where "d = command_diagnostics options command process st"
    define p2 where "p2 = change_metrics (\<lambda>m. m\<lparr>im_indexing_time := im_indexing_time m + ue_indexing_time ue\<rparr>) p1"
    define p3 where "p3 = (case place of None \<Rightarrow> p2 | Some (directory, key) \<Rightarrow> stage_entry command ue directory key process d st p2)"
    have "same_progress p p2" by (simp add: p2_def p1_def)
    then have s3: "same_progress p p3"
      using stage_entry_same by (auto simp: p3_def split: option.splits intro: same_progress_trans)
    have "(case merge_graph (ir_graph (rp_result p3)) (us_graph st) of
        Inl e \<Rightarrow>
          Inl (fail_indexing commands (rp_result p3) i Unit_Failed ''fact_merge''
            (''could not merge Clang AST facts for '' @ cc_file command @ '': '' @ exn_what e) None, p3)
      | Inr g \<Rightarrow>
          Inr (take_over command d (us_matches st) (map (\<lambda>(name, r). (name, ri_bases r)) (us_records st))
            (take_graph (graph_fact_bytes (us_graph st)) (ue_merge_time ue) g p3))) = Inl (failure, q)"
      using fails Inr inr unfolding index_fresh_def p3_def p2_def p1_def d_def Let_def by simp
    then show ?thesis using gave_up_indexing [OF assms(2) _ s3, of Unit_Failed] by (auto split: sum.splits)
  qed
qed

lemma index_command_fails:
  assumes fails: "index_command options events given commands (i, command) p = Inl (failure, q)"
    and known: "commands \<in> known" "given \<in> known"
  shows "gave_up known i p failure"
proof (cases "ue_cancelled_first (events i)")
  case True
  then show ?thesis using fails gave_up_indexing [OF known(1) _ same_progress_refl, of Unit_Cancelled]
    by (auto simp: index_command_def Let_def)
next
  case go: False
  show ?thesis
  proof (cases "ix_cache_directory options")
    case None
    then show ?thesis using fails go index_fresh_fails [OF _ known] by (auto simp: index_command_def Let_def)
  next
    case (Some directory)
    show ?thesis
    proof (cases "translation_unit_cache_key (ue_machine (events i)) command options Ast_Json")
      case (Inl e)
      then show ?thesis using fails go Some by (auto simp: index_command_def Let_def)
    next
      case (Inr key)
      show ?thesis
      proof (cases "look_up options commands i command (events i) directory key p")
        case (Inl e)
        then show ?thesis
          using fails go Some Inr look_up_fails [OF _ known(1)] by (cases e) (simp add: index_command_def Let_def)
      next
        case inr: (Inr found)
        obtain entry p1 where found: "found = (entry, p1)" by force
        note same = look_up_found(1) [OF inr [unfolded found]]
        have rest: "(case entry of
            Some entry \<Rightarrow> reuse_entry command (events i) entry p1
          | None \<Rightarrow> index_fresh options given commands i command (events i) (Some (directory, key))
              (change_metrics (\<lambda>m. m\<lparr>im_misses := im_misses m + 1\<rparr>) p1)) = Inl (failure, q)"
          using fails go Some Inr inr by (simp add: index_command_def Let_def found)
        show ?thesis
        proof (cases entry)
          case None
          then show ?thesis using rest index_fresh_fails [OF _ known] gave_up_same same
            by (metis (no_types, lifting) option.case(1) same_progress_changes(1))
        next
          case (Some e)
          then show ?thesis using rest by (auto simp: reuse_entry_def split: sum.splits)
        qed
      qed
    qed
  qed
qed

section \<open>The loop over the commands\<close>

fun absorbs_all :: "compile_command list \<Rightarrow> unit_facts list \<Rightarrow> progress \<Rightarrow> progress \<Rightarrow> bool" where
  "absorbs_all [] [] p p' \<longleftrightarrow> p' = p"
| "absorbs_all (command # commands) (f # fs) p p' \<longleftrightarrow>
     (\<exists>q. absorbs command f p q \<and> absorbs_all commands fs q p')"
| "absorbs_all _ _ p p' \<longleftrightarrow> False"

lemma length_or_flags [simp]: "length (or_flags xs ys) = length xs"
  by (simp add: or_flags_def)

lemma loop_absorbs:
  assumes "fold_result (index_command options events given commands) (enumerate k cs) p = Inr p'"
    and "length (rp_matches p) = length (ix_callback_rules options)"
  shows "\<exists>fs. absorbs_all cs fs p p' \<and> length fs = length cs \<and>
    (\<forall>j < length cs. unit_gives options (cs ! j) (events (k + j)) (fs ! j))"
  using assms
proof (induction cs arbitrary: k p)
  case Nil
  then show ?case by simp
next
  case (Cons c cs)
  then obtain q where q: "index_command options events given commands (k, c) p = Inr q"
    and rest: "fold_result (index_command options events given commands) (enumerate (Suc k) cs) q = Inr p'"
    by (auto simp: rbind_eq_Inr)
  from index_command_absorbs [OF q Cons.prems(2)] obtain f where
    f: "unit_gives options c (events k) f" "absorbs c f p q" by blast
  then have "length (rp_matches q) = length (ix_callback_rules options)" using Cons.prems(2) by (simp add: absorbs_def)
  from Cons.IH [OF rest this] obtain fs where fs: "absorbs_all cs fs q p'" "length fs = length cs"
    "\<forall>j < length cs. unit_gives options (cs ! j) (events (Suc k + j)) (fs ! j)" by blast
  have "\<forall>j < length (c # cs). unit_gives options ((c # cs) ! j) (events (k + j)) ((f # fs) ! j)"
    using f(1) fs(3) by (auto simp: nth_Cons split: nat.splits)
  then show ?case using f(2) fs(1,2) by (intro exI [of _ "f # fs"]) auto
qed

lemma run_loop_fails:
  assumes "fold_result (index_command options events given commands) (enumerate k cs) p = Inl (failure, q)"
    and "length (rp_matches p) = length (ix_callback_rules options)"
  shows "\<exists>j p'. j < length cs \<and> gave_up {commands, given} (k + j) p' failure \<and>
    ir_frontend (rp_result p') = ir_frontend (rp_result p) \<and>
    ir_unit_diagnostics (rp_result p') = ir_unit_diagnostics (rp_result p) @ map indexed_note (take j cs)"
  using assms
proof (induction cs arbitrary: k p)
  case Nil
  then show ?case by simp
next
  case (Cons c cs)
  show ?case
  proof (cases "index_command options events given commands (k, c) p")
    case (Inl e)
    then have "index_command options events given commands (k, c) p = Inl (failure, q)" using Cons.prems(1) by simp
    from index_command_fails [OF this, of "{commands, given}"] show ?thesis
      by (intro exI [of _ 0] exI [of _ p]) simp
  next
    case (Inr p1)
    from index_command_absorbs [OF Inr Cons.prems(2)] obtain f where f: "absorbs c f p p1" by blast
    then have "length (rp_matches p1) = length (ix_callback_rules options)" using Cons.prems(2) by (simp add: absorbs_def)
    moreover have "fold_result (index_command options events given commands) (enumerate (Suc k) cs) p1 = Inl (failure, q)"
      using Cons.prems(1) Inr by simp
    ultimately obtain j p' where j: "j < length cs" "gave_up {commands, given} (Suc k + j) p' failure"
      "ir_frontend (rp_result p') = ir_frontend (rp_result p1)"
      "ir_unit_diagnostics (rp_result p') = ir_unit_diagnostics (rp_result p1) @ map indexed_note (take j cs)"
      using Cons.IH [of "Suc k" p1] by blast
    then show ?thesis using f by (intro exI [of _ "Suc j"] exI [of _ p']) (simp add: absorbs_def)
  qed
qed


section \<open>What a failed run reports\<close>

text \<open>The reports of the commands, in their order, and what they say of each.\<close>

definition none_started :: "nat \<Rightarrow> unit_status list \<Rightarrow> bool" where
  "none_started n statuses \<longleftrightarrow> (\<exists>i < n. statuses = (replicate n Unit_Skipped)[i := Unit_Failed])"

definition stopped_at :: "nat \<Rightarrow> nat \<Rightarrow> unit_status list \<Rightarrow> bool" where
  "stopped_at n k statuses \<longleftrightarrow> k < n \<and> (\<exists>status. failed_status status \<and>
     statuses = replicate k Unit_Indexed @ [status] @ replicate (n - Suc k) Unit_Skipped)"

definition reports :: "index_options \<Rightarrow> filesystem \<Rightarrow> compile_command list \<Rightarrow> unit_diagnostic list \<Rightarrow> bool" where
  "reports options fs given units \<longleftrightarrow>
     (let n = length given; names = map cc_file given; files = map ud_file units; statuses = map ud_status units in
      (no_policy options \<or> given = []) \<and> units = [] \<or>
      files = names \<and> none_started n statuses \<or>
      (\<exists>commands. normalize_commands fs given = Inr commands \<and> length commands = n \<and>
        (files = map cc_file commands \<and> statuses = replicate n Unit_Indexed \<or>
         (\<exists>k. stopped_at n k statuses \<and>
            (files = map cc_file commands \<or> files = take k (map cc_file commands) @ drop k names)))))"

lemma fail_indexing_reports:
  assumes "j < length cs" "j < length commands" "length cs = length commands"
    and "ir_unit_diagnostics r = map indexed_note (take j commands)" and "failed_status status"
    and "fail_indexing cs r j status stage message ending = Indexing_Error m d"
  shows "rd_state d = Run_Incomplete \<and> rd_frontend d = ir_frontend r \<and>
    map ud_file (rd_units d) = take j (map cc_file commands) @ drop j (map cc_file cs) \<and>
    stopped_at (length commands) j (map ud_status (rd_units d))"
proof -
  have units: "rd_units d = map indexed_note (take j commands) @
      [(unit_note (cs ! j) status stage message)
         \<lparr>ud_exit_code := map_option fst ending, ud_signal := map_option snd ending\<rparr>] @
      map skipped_note (drop (Suc j) cs)"
    using assms(1,4,6) by (auto simp: fail_indexing_def)
  have name: "ud_file (indexed_note c) = cc_file c" "ud_file (skipped_note c) = cc_file c"
    "ud_file (unit_note c status stage message) = cc_file c" for c
    by (simp_all add: indexed_note_def skipped_note_def unit_note_def)
  have files: "map ud_file (rd_units d) = take j (map cc_file commands) @ drop j (map cc_file cs)"
    using Cons_nth_drop_Suc [OF assms(1)] by (simp add: units comp_def name take_map drop_map flip: Cons_nth_drop_Suc [OF assms(1)])
  have "map ud_status (rd_units d) = replicate j Unit_Indexed @ [status] @ replicate (length commands - Suc j) Unit_Skipped"
    using assms(1-3)
    by (simp add: units comp_def indexed_note_def skipped_note_def unit_note_def map_replicate_const)
  then show ?thesis using files assms by (auto simp: stopped_at_def fail_indexing_def)
qed

lemma map_result_Inr_length: "map_result f xs = Inr ys \<Longrightarrow> length ys = length xs"
  by (induction xs arbitrary: ys) (auto simp: rbind_eq_Inr)

lemma normalize_commands_Inl:
  assumes "normalize_commands fs given = Inl failure"
  shows "\<exists>i e. i < length given \<and> failure = normalization_failure given i e"
proof -
  have "map_result (\<lambda>(i, command). case normalize_compile_command fs command of
         Inl e \<Rightarrow> Inl (normalization_failure given i e) | Inr normalized \<Rightarrow> Inr normalized) ics = Inl failure \<Longrightarrow>
      \<exists>(i, c) \<in> set ics. \<exists>e. failure = normalization_failure given i e" for ics
    by (induction ics) (auto simp: rbind_eq_Inl split: sum.splits)
  from this [of "enumerate 0 given"] assms show ?thesis
    by (auto simp: normalize_commands_def in_set_enumerate_eq)
qed

lemma normalization_failure_reports:
  assumes "i < length given" "normalization_failure given i e = Indexing_Error m d"
  shows "rd_state d = Run_Incomplete \<and> rd_frontend d = Ast_Json \<and> map ud_file (rd_units d) = map cc_file given \<and>
    none_started (length given) (map ud_status (rd_units d))"
proof -
  have units: "rd_units d = map (\<lambda>j. if j = i then unit_note (given ! j) Unit_Failed ''command_normalization'' (exn_what e)
                 else unit_note (given ! j) Unit_Skipped ''command_normalization''
                        ''not indexed because command normalization failed'') [0..<length given]"
    and d: "rd_state d = Run_Incomplete" "rd_frontend d = Ast_Json"
    using assms(2) by (auto simp: normalization_failure_def run_error_def)
  have "map ud_status (rd_units d) = (replicate (length given) Unit_Skipped)[i := Unit_Failed]"
    by (rule nth_equalityI) (auto simp: units unit_note_def nth_list_update)
  moreover have "map ud_file (rd_units d) = map cc_file given"
    by (rule nth_equalityI) (auto simp: units unit_note_def)
  ultimately show ?thesis using d assms(1) by (auto simp: none_started_def)
qed

lemma absorbs_all_notes:
  "absorbs_all cs fs p p' \<Longrightarrow> ir_unit_diagnostics (rp_result p') = ir_unit_diagnostics (rp_result p) @ map indexed_note cs \<and>
     ir_frontend (rp_result p') = ir_frontend (rp_result p) \<and> ir_units (rp_result p') = ir_units (rp_result p) + length cs"
  by (induction cs fs p p' rule: absorbs_all.induct) (auto simp: absorbs_def)

lemma complete_graph_fails:
  assumes "complete_graph options orders records rule_flags units g = Inl (Indexing_Error m d)"
  shows "rd_state d = Run_Incomplete \<and> rd_frontend d = Ast_Json \<and> rd_units d = units"
  using assms
  by (auto simp: complete_graph_def Let_def rbind_eq_Inl run_error_def split: sum.splits option.splits if_splits)

lemma failed_run_reports:
  assumes run: "index_run options re given = (Inl (Indexing_Error message d), st)"
  shows "rd_state d = Run_Incomplete \<and> rd_frontend d = Ast_Json \<and> reports options (re_start re) given (rd_units d)"
proof (cases "no_policy options \<or> given = []")
  case True
  then have "rd_state d = Run_Incomplete \<and> rd_frontend d = Ast_Json \<and> rd_units d = []"
    using run by (auto simp: index_run_def run_error_def split: if_splits)
  then show ?thesis using True by (simp add: reports_def)
next
  case go: False
  show ?thesis
  proof (cases "normalize_commands (re_start re) given")
    case (Inl failure)
    with normalize_commands_Inl obtain i e where i: "i < length given" "failure = normalization_failure given i e" by blast
    moreover have "failure = Indexing_Error message d" using run go Inl by (simp add: index_run_def)
    ultimately show ?thesis using normalization_failure_reports [OF i(1), of e message d] by (auto simp: reports_def Let_def)
  next
    case (Inr commands)
    have n: "length commands = length given"
      using map_result_Inr_length [OF Inr [unfolded normalize_commands_def]] by simp
    have flags: "length (rp_matches (start_progress options (re_store re))) = length (ix_callback_rules options)"
      by (simp add: start_progress_def)
    have start: "ir_unit_diagnostics (rp_result (start_progress options (re_store re))) = []"
      "ir_frontend (rp_result (start_progress options (re_store re))) = Ast_Json"
      by (simp_all add: start_progress_def empty_result_def)
    show ?thesis
    proof (cases "index_commands options re given commands")
      case inl: (Inl fq)
      obtain q where fq: "fq = (Indexing_Error message d, q)" using run go Inr inl by (cases fq) (simp add: index_run_def)
      from inl [unfolded fq index_commands_def] have
        "fold_result (index_command options (re_units re) given commands) (enumerate 0 commands)
          (start_progress options (re_store re)) = Inl (Indexing_Error message d, q)" .
      from run_loop_fails [OF this flags] start obtain j p' where j: "j < length commands"
        "gave_up {commands, given} j p' (Indexing_Error message d)" "ir_frontend (rp_result p') = Ast_Json"
        "ir_unit_diagnostics (rp_result p') = map indexed_note (take j commands)" by auto
      from j(2) obtain cs r status stage m ending where f: "cs \<in> {commands, given}" "failed_status status"
        "Indexing_Error message d = fail_indexing cs r j status stage m ending" "ir_frontend r = ir_frontend (rp_result p')"
        "ir_unit_diagnostics r = ir_unit_diagnostics (rp_result p')" by (rule gave_up_Indexing)
      have rep: "rd_state d = Run_Incomplete \<and> rd_frontend d = ir_frontend r \<and>
          map ud_file (rd_units d) = take j (map cc_file commands) @ drop j (map cc_file cs) \<and>
          stopped_at (length commands) j (map ud_status (rd_units d))"
        by (rule fail_indexing_reports [OF _ j(1) _ _ f(2) f(3) [symmetric]]) (use f j n in auto)
      have "reports options (re_start re) given (rd_units d)"
      proof (cases "cs = commands")
        case True
        then show ?thesis using rep n Inr unfolding reports_def Let_def by (metis append_take_drop_id)
      next
        case False
        then show ?thesis using rep n Inr f(1) unfolding reports_def Let_def by auto
      qed
      then show ?thesis using rep f(4) j(3) by simp
    next
      case inr: (Inr p)
      from loop_absorbs [OF inr [unfolded index_commands_def] flags] obtain fs where
        "absorbs_all commands fs (start_progress options (re_store re)) p" by blast
      from absorbs_all_notes [OF this] start have units: "ir_unit_diagnostics (rp_result p) = map indexed_note commands" by simp
      have "complete_graph options (re_orders re) (rp_records p) (rp_matches p) (ir_unit_diagnostics (rp_result p))
          (ir_graph (rp_result p)) = Inl (Indexing_Error message d)"
        using run go Inr inr by (auto simp: index_run_def finish_run_def Let_def split: sum.splits prod.splits)
      from complete_graph_fails [OF this] units
      have d: "rd_state d = Run_Incomplete" "rd_frontend d = Ast_Json" "rd_units d = map indexed_note commands" by simp_all
      have "map ud_file (rd_units d) = map cc_file commands" "map ud_status (rd_units d) = replicate (length given) Unit_Indexed"
        by (simp_all add: d comp_def indexed_note_def unit_note_def map_replicate_const n)
      then show ?thesis using d Inr n by (auto simp: reports_def Let_def)
    qed
  qed
qed

end
