(* ===== verification/Index_Complete.thy ===== *)
theory Index_Complete
  imports Index_Run_Facts
begin

text \<open>
  Runs that succeed. The completion of the merged graph only adds facts, and which it adds depends on
  the symbols alone; therefore nothing a translation unit contributed is lost, and it makes no
  difference which commands were answered from the cache.
\<close>

section \<open>Completing the graph\<close>

definition manual_root :: "string \<Rightarrow> nat \<Rightarrow> root" where
  "manual_root requested i =
     \<lparr>root_symbol = i, root_kind = Manual,
      root_evidence = \<lparr>ev_provider = ''command_line'', ev_reason = ''matched configured root: '' @ requested\<rparr>\<rparr>"

definition manual_facts :: "string list \<Rightarrow> symbol list \<Rightarrow> graph_fact set" where
  "manual_facts requests symbols =
     (\<Union>requested \<in> set requests. \<Union>i \<in> {i. i < length symbols \<and> names_symbol requested (symbols ! i)}.
        {Root_Fact (manual_root requested i)})"

lemma add_manual_root_adds:
  "adds (add_manual_root requested i) (\<lambda>s. names_symbol requested (s ! i) \<longrightarrow> i < length s)
     (\<lambda>s. if names_symbol requested (s ! i) then {Root_Fact (manual_root requested i)} else {})"
  unfolding adds_def
proof (intro allI impI)
  fix g assume wf: "graph_wf g"
  show "if names_symbol requested (g_symbols g ! i) \<longrightarrow> i < length (g_symbols g)
      then \<exists>h. add_manual_root requested i g = Inr h \<and>
        added g h (if names_symbol requested (g_symbols g ! i) then {Root_Fact (manual_root requested i)} else {})
      else \<exists>e. add_manual_root requested i g = Inl e"
  proof (cases "names_symbol requested (g_symbols g ! i)")
    case False
    then show ?thesis using wf by (simp add: add_manual_root_def added_refl)
  next
    case named: True
    show ?thesis
    proof (cases "i < length (g_symbols g)")
      case False
      then show ?thesis using named by (simp add: add_manual_root_def add_root_def)
    next
      case True
      let ?h = "g\<lparr>g_roots := push_unique (manual_root requested i) (g_roots g)\<rparr>"
      have "graph_wf ?h" by (rule graph_wf_push(2) [OF wf]) (use True in \<open>simp add: manual_root_def\<close>)
      then have "added g ?h {Root_Fact (manual_root requested i)}" by (simp add: added_def graph_facts_push)
      then show ?thesis using named True by (simp add: add_manual_root_def add_root_def manual_root_def)
    qed
  qed
qed

lemma guarded_union: "(\<Union>i \<in> A. if P i then f i else {}) = (\<Union>i \<in> {i. i \<in> A \<and> P i}. f i)"
  by auto

lemma manual_added:
  assumes "graph_wf g"
  shows "\<exists>h. add_manual_roots requests g = Inr h \<and> added g h (manual_facts requests (g_symbols g))"
proof -
  let ?is = "[0..<length (g_symbols g)]"
  have "adds (fold_result (\<lambda>requested. fold_result (add_manual_root requested) ?is) requests)
      (\<lambda>s. \<forall>requested \<in> set requests. \<forall>i \<in> set ?is. names_symbol requested (s ! i) \<longrightarrow> i < length s)
      (\<lambda>s. \<Union>requested \<in> set requests. \<Union>i \<in> set ?is.
        if names_symbol requested (s ! i) then {Root_Fact (manual_root requested i)} else {})"
    by (rule adds_fold, rule adds_fold, rule add_manual_root_adds)
  from adds_Inr [OF this assms] obtain h where h: "add_manual_roots requests g = Inr h"
    "added g h (\<Union>requested \<in> set requests. \<Union>i \<in> set ?is.
        if names_symbol requested (g_symbols g ! i) then {Root_Fact (manual_root requested i)} else {})"
    by (auto simp: add_manual_roots_def)
  moreover have "(\<Union>requested \<in> set requests. \<Union>i \<in> set ?is.
        if names_symbol requested (g_symbols g ! i) then {Root_Fact (manual_root requested i)} else {}) =
      manual_facts requests (g_symbols g)" unfolding manual_facts_def guarded_union by simp
  ultimately show ?thesis by simp
qed

definition policies_facts :: "provider_policy list \<Rightarrow> symbol list \<Rightarrow> graph_fact set" where
  "policies_facts policies symbols = (\<Union>p \<in> set policies. policy_effect symbols p)"

lemma policies_added:
  assumes "graph_wf g" "apply_provider_policies g policies = Inr h"
  shows "\<exists>k. added g k (policies_facts policies (g_symbols g)) \<and> (if policies = [] then h = k else h = canonicalize k)"
proof (cases "policies = []")
  case True
  then show ?thesis using assms by (auto simp: apply_provider_policies_def policies_facts_def intro: added_refl)
next
  case False
  then show ?thesis using apply_policies_success [OF assms False] by (auto simp: policies_facts_def)
qed

text \<open>All facts that the completion adds, under the ids of the merged graph.\<close>

definition completion_facts :: "index_options \<Rightarrow> hash_orders \<Rightarrow> record_table \<Rightarrow> symbol list \<Rightarrow> graph_fact set" where
  "completion_facts options orders records symbols =
     dispatch_facts orders records symbols \<union> manual_facts (ix_manual_roots options) symbols \<union>
     policies_facts (ix_provider_policies options) symbols"

lemma completed:
  assumes wf: "graph_wf g" and order: "visits_all (ho_methods orders)"
    and finished: "complete_graph options orders records rule_flags units g = Inr (h, notes)"
  obtains k where "added g k (completion_facts options orders records (g_symbols g))"
    and "h = canonicalize k" and "g_roots k \<noteq> []" and "unmatched_rule options rule_flags = None"
    and "\<forall>header \<in> set (ix_public_headers options). header_observed h header"
    and "set notes = set (unmatched_roots (ix_manual_roots options) g) \<union> set (fallback_diagnostics g) \<union>
      (if ix_ast_filter options = [] then {} else {''Clang AST name filter active: '' @ ix_ast_filter options})"
proof -
  obtain g1 where g1: "add_virtual_dispatch_edges orders records g = Inr g1"
    "added g g1 (dispatch_facts orders records (g_symbols g))"
    using dispatch_added [OF wf order] by blast
  then have wf1: "graph_wf g1" and s1: "g_symbols g1 = g_symbols g" by (simp_all add: added_def)
  obtain g2 where g2: "add_manual_roots (ix_manual_roots options) g1 = Inr g2"
    "added g1 g2 (manual_facts (ix_manual_roots options) (g_symbols g))"
    using manual_added [OF wf1] s1 by metis
  then have wf2: "graph_wf g2" and s2: "g_symbols g2 = g_symbols g" by (simp_all add: added_def s1)
  from finished g1(1) g2(1) obtain g3 where g3: "apply_provider_policies g2 (ix_provider_policies options) = Inr g3"
    and rule: "unmatched_rule options rule_flags = None"
    and headers: "find (\<lambda>header. \<not> header_observed g3 header) (ix_public_headers options) = None"
    and roots: "g_roots g3 \<noteq> []" and h: "h = canonicalize g3"
    and told: "notes = unmatched_roots (ix_manual_roots options) g2 @
        (if ix_ast_filter options = [] then [] else
           [''Clang AST name filter active: '' @ ix_ast_filter options]) @ fallback_diagnostics g3"
    by (auto simp: complete_graph_def Let_def split: option.splits sum.splits if_splits)
  from policies_added [OF wf2 g3] s2 obtain k where k: "added g2 k (policies_facts (ix_provider_policies options) (g_symbols g))"
    "if ix_provider_policies options = [] then g3 = k else g3 = canonicalize k" by auto
  then have wfk: "graph_wf k" and sk: "g_symbols k = g_symbols g" by (simp_all add: added_def s2)
  have added: "added g k (completion_facts options orders records (g_symbols g))"
    using added_trans [OF added_trans [OF g1(2) g2(2)] k(1)] by (simp add: completion_facts_def)
  have h': "h = canonicalize k" using h k(2) canonicalize_idempotent [OF wfk] by (auto split: if_splits)
  have r3: "root_facts g3 = root_facts k"
    using k(2) canonicalize_fact_labels(2) [OF wfk] by (auto split: if_splits)
  have wf3: "graph_wf g3" using k(2) wfk by (auto simp: graph_wf_canonicalize split: if_splits)
  have rh: "root_facts h = root_facts g3" using canonicalize_fact_labels(2) [OF wf3] by (simp add: h)
  have observed: "header_observed a header \<longleftrightarrow> (\<exists>(key, kind, ev) \<in> root_facts a. is_public_api kind \<and>
      ev_reason ev = public_header_reason header)" for a header
    by (auto simp: header_observed_def list_ex_iff root_facts_def root_label_def)
  have "\<forall>header \<in> set (ix_public_headers options). header_observed h header"
    using headers by (auto simp: find_None_iff observed rh)
  moreover have "g_roots k \<noteq> []" using roots r3 by (auto simp: root_facts_def)
  moreover have "set (g_symbols g3) = set (g_symbols g)"
    using k(2) sk by (auto simp: set_canonicalize_symbols split: if_splits)
  then have "set (fallback_diagnostics g3) = set (fallback_diagnostics g)" by (simp add: fallback_diagnostics_def)
  then have "set notes = set (unmatched_roots (ix_manual_roots options) g) \<union> set (fallback_diagnostics g) \<union>
      (if ix_ast_filter options = [] then {} else {''Clang AST name filter active: '' @ ix_ast_filter options})"
    by (auto simp: told unmatched_roots_def s2)
  ultimately show thesis using that added h' rule by blast
qed

text \<open>What adding facts does to the facts between keys.\<close>

lemma added_labels:
  assumes "added g h F"
  shows "set (keys_of h) = set (keys_of g)" "edge_facts g \<subseteq> edge_facts h" "root_facts g \<subseteq> root_facts h"
    "escape_facts g \<subseteq> escape_facts h" "suppression_facts g \<subseteq> suppression_facts h"
    "x \<in> edge_facts h - edge_facts g \<Longrightarrow> \<exists>e. Edge_Fact e \<in> F \<and> edge_kind e = fst (snd (snd x))"
proof -
  have syms: "g_symbols h = g_symbols g" and facts: "graph_facts h = graph_facts g \<union> F"
    using assms by (simp_all add: added_def)
  have mem: "e \<in> set (g_edges k) \<longleftrightarrow> Edge_Fact e \<in> graph_facts k"
    "r \<in> set (g_roots k) \<longleftrightarrow> Root_Fact r \<in> graph_facts k"
    "z \<in> set (g_escapes k) \<longleftrightarrow> Escape_Fact z \<in> graph_facts k"
    "p \<in> set (g_suppressions k) \<longleftrightarrow> Suppression_Fact p \<in> graph_facts k" for k e r z p
    by (auto simp: graph_facts_def)
  have key: "key_at h = key_at g" by (simp add: key_at_def [abs_def] syms)
  show "set (keys_of h) = set (keys_of g)" by (simp add: keys_of_def syms)
  show "edge_facts g \<subseteq> edge_facts h" "root_facts g \<subseteq> root_facts h"
    "escape_facts g \<subseteq> escape_facts h" "suppression_facts g \<subseteq> suppression_facts h"
    by (auto simp: edge_facts_def root_facts_def escape_facts_def suppression_facts_def edge_label_def [abs_def]
        root_label_def [abs_def] escape_label_def [abs_def] suppression_label_def [abs_def] key mem facts image_iff)
  show "\<exists>e. Edge_Fact e \<in> F \<and> edge_kind e = fst (snd (snd x))" if "x \<in> edge_facts h - edge_facts g"
  proof -
    from that obtain e where e: "e \<in> set (g_edges h)" "x = edge_label h e" by (auto simp: edge_facts_def)
    have "edge_label h e = edge_label g e" by (simp add: edge_label_def key)
    with that e(2) have "e \<notin> set (g_edges g)" by (auto simp: edge_facts_def)
    then have "Edge_Fact e \<in> F" using e(1) by (simp add: mem facts)
    then show ?thesis using e(2) by (auto simp: edge_label_def)
  qed
qed


section \<open>The merged facts\<close>

lemma unit_gives_ok:
  assumes "unit_gives options command ue f" and "ix_configuration_id options \<noteq> []"
  shows "graph_wf (uf_graph f) \<and> length (uf_flags f) = length (ix_callback_rules options)"
proof -
  consider e where "found_entry options command ue e" "f = entry_facts e"
    | process st where "clang_facts options command ue process st" "f = collected_facts options command process st"
    using assms(1) by (auto simp: unit_gives_def)
  then show ?thesis
  proof cases
    case (1 e)
    then show ?thesis by (auto simp: found_entry_def entry_facts_def dest!: looked_up)
  next
    case (2 process st)
    then obtain documents where "collect_facts \<lparr>un_files = ue_files ue, un_command = command, un_options = options\<rparr> documents
        (start_unit options) = Inr st"
      by (auto simp: clang_facts_def command_state_def rbind_eq_Inr)
    with facts_well_formed [of "\<lparr>un_files = ue_files ue, un_command = command, un_options = options\<rparr>" documents] assms(2)
    show ?thesis using 2(2) by (simp add: facts_outcome_def unit_ok_def collected_facts_def)
  qed
qed

definition unit_ready :: "nat \<Rightarrow> unit_facts \<Rightarrow> bool" where
  "unit_ready n f \<longleftrightarrow> graph_wf (uf_graph f) \<and> length (uf_flags f) = n"

definition holds_facts :: "graph \<Rightarrow> graph \<Rightarrow> unit_facts list \<Rightarrow> bool" where
  "holds_facts g0 g fs \<longleftrightarrow>
     set (keys_of g) = set (keys_of g0) \<union> (\<Union>f \<in> set fs. set (keys_of (uf_graph f))) \<and>
     edge_facts g = edge_facts g0 \<union> (\<Union>f \<in> set fs. edge_facts (uf_graph f)) \<and>
     root_facts g = root_facts g0 \<union> (\<Union>f \<in> set fs. root_facts (uf_graph f)) \<and>
     escape_facts g = escape_facts g0 \<union> (\<Union>f \<in> set fs. escape_facts (uf_graph f)) \<and>
     suppression_facts g = suppression_facts g0 \<union> (\<Union>f \<in> set fs. suppression_facts (uf_graph f))"

lemma or_flags_nth: "k < length xs \<Longrightarrow> or_flags xs ys ! k \<longleftrightarrow> xs ! k \<or> ys ! k"
  by (simp add: or_flags_def)

lemma absorbs_all_facts:
  assumes "absorbs_all cs fs p p'" "graph_wf (ir_graph (rp_result p))" "\<forall>f \<in> set fs. unit_ready (length (rp_matches p)) f"
  shows "graph_wf (ir_graph (rp_result p')) \<and> holds_facts (ir_graph (rp_result p)) (ir_graph (rp_result p')) fs \<and>
    length (rp_matches p') = length (rp_matches p) \<and>
    (\<forall>k < length (rp_matches p). rp_matches p' ! k \<longleftrightarrow> rp_matches p ! k \<or> (\<exists>f \<in> set fs. uf_flags f ! k)) \<and>
    ir_diagnostics (rp_result p') = ir_diagnostics (rp_result p) @ concat (map uf_diagnostics fs)"
  using assms
proof (induction cs fs p p' rule: absorbs_all.induct)
  case (2 c cs f fs p p')
  then obtain q where q: "absorbs c f p q" "absorbs_all cs fs q p'" by auto
  then have m: "merge_graph (ir_graph (rp_result p)) (uf_graph f) = Inr (ir_graph (rp_result q))"
    and l: "rp_matches q = or_flags (rp_matches p) (uf_flags f)"
    and d: "ir_diagnostics (rp_result q) = ir_diagnostics (rp_result p) @ uf_diagnostics f" by (simp_all add: absorbs_def)
  have f: "graph_wf (uf_graph f)" using "2.prems"(3) by (simp add: unit_ready_def)
  note merged = merged_facts [OF "2.prems"(2) f m]
  have "\<forall>f \<in> set fs. unit_ready (length (rp_matches q)) f" using "2.prems"(3) by (simp add: l)
  from "2.IH" [OF q(2) conjunct1 [OF merged] this] show ?case
    using merged by (auto simp: holds_facts_def l d or_flags_nth Un_assoc)
qed (auto simp: holds_facts_def)

lemma empty_facts [simp]:
  "set (keys_of empty_graph) = {}" "edge_facts empty_graph = {}" "root_facts empty_graph = {}"
  "escape_facts empty_graph = {}" "suppression_facts empty_graph = {}"
  by (simp_all add: keys_of_def edge_facts_def root_facts_def escape_facts_def suppression_facts_def empty_graph_def)

lemma unmatched_rule_None:
  "length rule_flags = length (ix_callback_rules options) \<Longrightarrow>
   unmatched_rule options rule_flags = None \<longleftrightarrow> (\<forall>k < length rule_flags. rule_flags ! k)"
  by (auto simp: unmatched_rule_def find_None_iff in_set_zip all_set_conv_all_nth)

text \<open>A successful run, taken apart.\<close>

definition merged_run ::
    "index_options \<Rightarrow> run_events \<Rightarrow> compile_command list \<Rightarrow> compile_command list \<Rightarrow> unit_facts list \<Rightarrow> progress \<Rightarrow> bool" where
  "merged_run options re given commands fs p \<longleftrightarrow>
     given \<noteq> [] \<and> \<not> no_policy options \<and> normalize_commands (re_start re) given = Inr commands \<and>
     length commands = length given \<and> length fs = length commands \<and>
     (\<forall>i < length commands. unit_gives options (commands ! i) (re_units re i) (fs ! i)) \<and>
     absorbs_all commands fs (start_progress options (re_store re)) p"

lemma index_run_Inr:
  assumes run: "index_run options re given = (Inr r, st)"
  obtains commands fs p told where "merged_run options re given commands fs p"
    and "complete_graph options (re_orders re) (rp_records p) (rp_matches p) (ir_unit_diagnostics (rp_result p))
       (ir_graph (rp_result p)) = Inr (ir_graph r, told)"
    and "ir_diagnostics r = sorted_unique (ir_diagnostics (rp_result p) @ told)"
    and "ir_unit_diagnostics r = sort_key (path_key \<circ> ud_file) (map indexed_note commands)"
    and "ir_units r = length given"
proof -
  have go: "\<not> no_policy options" "given \<noteq> []" using run by (auto simp: index_run_def split: if_splits)
  then obtain commands where commands: "normalize_commands (re_start re) given = Inr commands"
    using run by (auto simp: index_run_def split: sum.splits)
  then obtain p where p: "index_commands options re given commands = Inr p" and finished: "finish_run options re p = (Inr r, st)"
    using run go by (auto simp: index_run_def split: sum.splits)
  have n: "length commands = length given"
    using map_result_Inr_length [OF commands [unfolded normalize_commands_def]] by simp
  have "length (rp_matches (start_progress options (re_store re))) = length (ix_callback_rules options)"
    by (simp add: start_progress_def)
  from loop_absorbs [OF p [unfolded index_commands_def] this] obtain fs where
    fs: "absorbs_all commands fs (start_progress options (re_store re)) p" "length fs = length commands"
    "\<forall>i < length commands. unit_gives options (commands ! i) (re_units re i) (fs ! i)" by auto
  have merged: "merged_run options re given commands fs p"
    using go commands n fs by (simp add: merged_run_def)
  from finished obtain told where done': "complete_graph options (re_orders re) (rp_records p) (rp_matches p)
      (ir_unit_diagnostics (rp_result p)) (ir_graph (rp_result p)) = Inr (ir_graph r, told)"
    and d: "ir_diagnostics r = sorted_unique (ir_diagnostics (rp_result p) @ told)"
    and u: "ir_unit_diagnostics r = sort_key (path_key \<circ> ud_file) (ir_unit_diagnostics (rp_result p))"
    and n': "ir_units r = ir_units (rp_result p)"
    by (auto simp: finish_run_def Let_def split: sum.splits prod.splits)
  have start: "ir_unit_diagnostics (rp_result (start_progress options (re_store re))) = []"
    "ir_units (rp_result (start_progress options (re_store re))) = 0"
    by (simp_all add: start_progress_def empty_result_def)
  with absorbs_all_notes [OF fs(1)] u n' n
  show thesis using that [OF merged done' d] by simp
qed

lemma merged_run_facts:
  assumes merged: "merged_run options re given commands fs p" and conf: "ix_configuration_id options \<noteq> []"
  shows "graph_wf (ir_graph (rp_result p))" "holds_facts empty_graph (ir_graph (rp_result p)) fs"
    "length (rp_matches p) = length (ix_callback_rules options)"
    "\<forall>k < length (ix_callback_rules options). rp_matches p ! k \<longleftrightarrow> (\<exists>f \<in> set fs. uf_flags f ! k)"
    "ir_diagnostics (rp_result p) = concat (map uf_diagnostics fs)"
proof -
  let ?p0 = "start_progress options (re_store re)"
  have start: "graph_wf (ir_graph (rp_result ?p0))" "ir_graph (rp_result ?p0) = empty_graph"
    "length (rp_matches ?p0) = length (ix_callback_rules options)" "ir_diagnostics (rp_result ?p0) = []"
    "\<forall>k < length (ix_callback_rules options). \<not> rp_matches ?p0 ! k"
    by (simp_all add: start_progress_def empty_result_def)
  have "\<forall>f \<in> set fs. unit_ready (length (rp_matches ?p0)) f"
    unfolding unit_ready_def start(3)
  proof
    fix f assume "f \<in> set fs"
    then obtain i where "i < length commands" "f = fs ! i" using merged by (auto simp: merged_run_def in_set_conv_nth)
    then have "unit_gives options (commands ! i) (re_units re i) f" using merged by (simp add: merged_run_def)
    then show "graph_wf (uf_graph f) \<and> length (uf_flags f) = length (ix_callback_rules options)"
      by (rule unit_gives_ok [OF _ conf])
  qed
  with absorbs_all_facts [of commands fs ?p0 p] merged start
  show "graph_wf (ir_graph (rp_result p))" "holds_facts empty_graph (ir_graph (rp_result p)) fs"
    "length (rp_matches p) = length (ix_callback_rules options)"
    "\<forall>k < length (ix_callback_rules options). rp_matches p ! k \<longleftrightarrow> (\<exists>f \<in> set fs. uf_flags f ! k)"
    "ir_diagnostics (rp_result p) = concat (map uf_diagnostics fs)"
    by (simp_all add: merged_run_def)
qed

definition completion_edge :: "edge_kind \<Rightarrow> bool" where
  "completion_edge kind \<longleftrightarrow> kind = Virtual_Dispatch \<or> kind = Provider_Edge"

lemma completion_edge_kinds:
  "Edge_Fact e \<in> completion_facts options orders records symbols \<Longrightarrow> completion_edge (edge_kind e)"
  by (auto simp: completion_facts_def dispatch_facts_def dispatch_edge_def manual_facts_def policies_facts_def
      policy_effect_def root_effect_def edge_effect_def escape_effect_def suppression_effect_def completion_edge_def)

text \<open>What a successful run returns, in terms of what its commands gave.\<close>

definition run_result :: "index_options \<Rightarrow> compile_command list \<Rightarrow> unit_facts list \<Rightarrow> index_result \<Rightarrow> bool" where
  "run_result options commands fs r \<longleftrightarrow>
     (let g = ir_graph r in
      graph_wf g \<and> canonicalize g = g \<and> g_roots g \<noteq> [] \<and>
      set (keys_of g) = (\<Union>f \<in> set fs. set (keys_of (uf_graph f))) \<and>
      (\<Union>f \<in> set fs. edge_facts (uf_graph f)) \<subseteq> edge_facts g \<and>
      (\<Union>f \<in> set fs. root_facts (uf_graph f)) \<subseteq> root_facts g \<and>
      (\<Union>f \<in> set fs. escape_facts (uf_graph f)) \<subseteq> escape_facts g \<and>
      (\<forall>x \<in> edge_facts g. completion_edge (fst (snd (snd x))) \<or> (\<exists>f \<in> set fs. x \<in> edge_facts (uf_graph f))) \<and>
      (\<forall>header \<in> set (ix_public_headers options). header_observed g header) \<and>
      (\<forall>k < length (ix_callback_rules options). \<exists>f \<in> set fs. uf_flags f ! k) \<and>
      (\<forall>f \<in> set fs. set (uf_diagnostics f) \<subseteq> set (ir_diagnostics r)) \<and>
      ir_unit_diagnostics r = sort_key (path_key \<circ> ud_file) (map indexed_note commands))"

lemma set_sorted_unique [simp]: "set (sorted_unique xs) = set xs"
  using keys_unique_by [of id "sort xs"] by (simp add: sorted_unique_def)

lemma completed_run:
  assumes conf: "ix_configuration_id options \<noteq> []" and order: "visits_all (ho_methods (re_orders re))"
    and run: "index_run options re given = (Inr r, st)"
  shows "\<exists>commands fs. normalize_commands (re_start re) given = Inr commands \<and> length fs = length commands \<and>
    (\<forall>i < length commands. unit_gives options (commands ! i) (re_units re i) (fs ! i)) \<and> run_result options commands fs r"
proof -
  obtain commands fs p told where merged: "merged_run options re given commands fs p"
    and finished: "complete_graph options (re_orders re) (rp_records p) (rp_matches p) (ir_unit_diagnostics (rp_result p))
       (ir_graph (rp_result p)) = Inr (ir_graph r, told)"
    and d: "ir_diagnostics r = sorted_unique (ir_diagnostics (rp_result p) @ told)"
    and u: "ir_unit_diagnostics r = sort_key (path_key \<circ> ud_file) (map indexed_note commands)"
    by (rule index_run_Inr [OF run])
  note facts = merged_run_facts [OF merged conf]
  let ?F = "completion_facts options (re_orders re) (rp_records p) (g_symbols (ir_graph (rp_result p)))"
  obtain k where k: "added (ir_graph (rp_result p)) k ?F" "ir_graph r = canonicalize k" "g_roots k \<noteq> []"
    "unmatched_rule options (rp_matches p) = None"
    "\<forall>header \<in> set (ix_public_headers options). header_observed (ir_graph r) header"
    by (rule completed [OF facts(1) order finished])
  then have wf: "graph_wf k" by (simp add: added_def)
  note canon = canonicalize_fact_labels [OF wf]
  have keys: "set (keys_of (canonicalize k)) = set (keys_of k)" by (simp add: keys_of_def set_canonicalize_symbols)
  have roots: "g_roots (canonicalize k) \<noteq> []"
    using k(3) canon(2) by (auto simp: root_facts_def)
  have rules: "\<forall>k < length (ix_callback_rules options). \<exists>f \<in> set fs. uf_flags f ! k"
    using k(4) facts(4) unmatched_rule_None [OF facts(3)] unfolding facts(3) by blast
  have new: "completion_edge (fst (snd (snd x))) \<or> (\<exists>f \<in> set fs. x \<in> edge_facts (uf_graph f))"
    if "x \<in> edge_facts (canonicalize k)" for x
  proof (cases "x \<in> edge_facts (ir_graph (rp_result p))")
    case True
    then show ?thesis using facts(2) by (simp add: holds_facts_def)
  next
    case False
    with that canon(1) have "x \<in> edge_facts k - edge_facts (ir_graph (rp_result p))" by simp
    from added_labels(6) [OF k(1) this] obtain e where "Edge_Fact e \<in> ?F" "edge_kind e = fst (snd (snd x))" by (elim exE conjE)
    then show ?thesis using completion_edge_kinds [of e] by simp
  qed
  have diags: "\<forall>f \<in> set fs. set (uf_diagnostics f) \<subseteq> set (ir_diagnostics r)"
    by (auto simp: d facts(5))
  note held = facts(2) [unfolded holds_facts_def empty_facts Un_empty_left]
  note kept = added_labels(1-4) [OF k(1)]
  have "run_result options commands fs r"
    unfolding run_result_def Let_def k(2)
  proof (intro conjI)
    show "graph_wf (canonicalize k)" "canonicalize (canonicalize k) = canonicalize k"
      by (rule graph_wf_canonicalize [OF wf], rule canonicalize_idempotent [OF wf])
    show "set (keys_of (canonicalize k)) = (\<Union>f \<in> set fs. set (keys_of (uf_graph f)))"
      unfolding keys kept(1) using held by (elim conjE)
    show "(\<Union>f \<in> set fs. edge_facts (uf_graph f)) \<subseteq> edge_facts (canonicalize k)"
      unfolding canon(1) using kept(2) held by (elim conjE) simp
    show "(\<Union>f \<in> set fs. root_facts (uf_graph f)) \<subseteq> root_facts (canonicalize k)"
      unfolding canon(2) using kept(3) held by (elim conjE) simp
    show "(\<Union>f \<in> set fs. escape_facts (uf_graph f)) \<subseteq> escape_facts (canonicalize k)"
      unfolding canon(3) using kept(4) held by (elim conjE) simp
    show "\<forall>x \<in> edge_facts (canonicalize k). completion_edge (fst (snd (snd x))) \<or>
        (\<exists>f \<in> set fs. x \<in> edge_facts (uf_graph f))" using new by blast
    show "\<forall>header \<in> set (ix_public_headers options). header_observed (canonicalize k) header"
      using k(5) by (simp only: k(2))
  qed (rule roots rules diags u)+
  then show ?thesis using merged by (auto simp: merged_run_def)
qed


section \<open>Cached and collected facts are interchangeable\<close>

lemma sorted_unique_set: "sorted_unique xs = sorted_list_of_set (set xs)"
proof -
  have "distinct (map id (unique_by id (sort xs))) \<and> sorted (map id (unique_by id (sort xs)))"
    by (rule unique_by_sorted_distinct) simp
  then have "distinct (sorted_unique xs)" "sorted (sorted_unique xs)" by (simp_all add: sorted_unique_def)
  then show ?thesis by (intro sorted_distinct_set_unique) simp_all
qed

definition listed_bases :: "(string \<times> string list) list \<Rightarrow> string \<Rightarrow> string set" where
  "listed_bases records name = (\<Union>(n, bases) \<in> set records. if n = name then set bases else {})"

lemma listed_bases_none: "name \<notin> fst ` set records \<Longrightarrow> listed_bases records name = {}"
  by (induction records) (auto simp: listed_bases_def)

lemma fold_merge_record:
  "map_of (fold merge_record records table) name =
     (if name \<in> fst ` set records then
        Some \<lparr>ri_name = name,
          ri_bases = sorted_list_of_set (set (bases_of table name) \<union> listed_bases records name)\<rparr>
      else map_of table name)"
proof (induction records arbitrary: table)
  case (Cons r records)
  obtain n bases where r: "r = (n, bases)" by force
  have at: "map_of (merge_record r table) m =
      (if m = n then Some \<lparr>ri_name = n, ri_bases = sorted_list_of_set (set (bases_of table n) \<union> set bases)\<rparr>
       else map_of table m)" for m
    by (cases "map_of table n") (auto simp: r merge_record_def map_of_map_entry sorted_unique_set bases_of_def)
  then have bases: "set (bases_of (merge_record r table) m) =
      (if m = n then set (bases_of table n) \<union> set bases else set (bases_of table m))" for m
    by (cases "m = n") (auto simp: bases_of_def [of "merge_record r table"] bases_of_def [of table m] at)
  have listed: "listed_bases ((n, bases) # records) m = (if n = m then set bases else {}) \<union> listed_bases records m" for m
    by (simp add: r listed_bases_def)
  show ?case
  proof (cases "name \<in> fst ` set records")
    case True
    then show ?thesis by (simp add: Cons.IH bases) (simp add: r listed Un_assoc)
  next
    case False
    then show ?thesis by (simp add: Cons.IH at) (auto simp: r listed listed_bases_none)
  qed
qed simp

definition interchangeable :: "unit_facts \<Rightarrow> unit_facts \<Rightarrow> bool" where
  "interchangeable f f' \<longleftrightarrow>
     uf_graph f = uf_graph f' \<and> uf_diagnostics f = uf_diagnostics f' \<and> uf_flags f = uf_flags f' \<and>
     fst ` set (uf_records f) = fst ` set (uf_records f') \<and>
     listed_bases (uf_records f) = listed_bases (uf_records f')"

definition stored_entry ::
    "index_options \<Rightarrow> compile_command \<Rightarrow> process_result \<Rightarrow> unit_state \<Rightarrow> cache_entry \<Rightarrow> bool" where
  "stored_entry options command process st e \<longleftrightarrow>
     (\<exists>dependencies. e = unit_entry command process (command_diagnostics options command process st) st dependencies)"

lemma stored_interchangeable:
  assumes "stored_entry options command process st e"
  shows "interchangeable (entry_facts e) (collected_facts options command process st)"
proof -
  have rec: "set (uf_records (entry_facts e)) = (\<lambda>(name, r). (name, sorted_unique (ri_bases r))) ` set (us_records st)"
    using assms unfolding stored_entry_def
    by (elim exE) (simp add: unit_entry_def entry_facts_def image_image case_prod_beta)
  have "listed_bases (uf_records (entry_facts e)) = listed_bases (uf_records (collected_facts options command process st))"
    by (rule ext) (auto simp: listed_bases_def rec collected_facts_def split: if_splits)
  moreover have "fst ` set (uf_records (entry_facts e)) = fst ` set (uf_records (collected_facts options command process st))"
    unfolding rec by (force simp: collected_facts_def image_iff)
  ultimately show ?thesis
    using assms by (auto simp: interchangeable_def stored_entry_def unit_entry_def entry_facts_def collected_facts_def)
qed

definition same_results :: "progress \<Rightarrow> progress \<Rightarrow> bool" where
  "same_results p p' \<longleftrightarrow>
     ir_graph (rp_result p) = ir_graph (rp_result p') \<and> ir_diagnostics (rp_result p) = ir_diagnostics (rp_result p') \<and>
     rp_matches p = rp_matches p' \<and> map_of (rp_records p) = map_of (rp_records p')"

lemma absorbs_same:
  assumes "absorbs c f p q" "absorbs c f' p' q'" "interchangeable f f'" "same_results p p'"
  shows "same_results q q'"
proof -
  have "bases_of (rp_records p) = bases_of (rp_records p')"
    using assms(4) by (simp add: same_results_def bases_of_def [abs_def])
  then have "map_of (rp_records q) = map_of (rp_records q')"
    using assms by (intro ext) (simp add: absorbs_def fold_merge_record interchangeable_def same_results_def)
  then show ?thesis using assms by (auto simp: absorbs_def interchangeable_def same_results_def)
qed

lemma absorbs_all_same:
  assumes "absorbs_all cs fs p q" "absorbs_all cs fs' p' q'" "list_all2 interchangeable fs fs'" "same_results p p'"
  shows "same_results q q'"
  using assms
proof (induction cs fs p q arbitrary: fs' p' rule: absorbs_all.induct)
  case (2 c cs f fs p q)
  then obtain f' fs'' where f': "fs' = f' # fs''" by (cases fs') auto
  with 2 obtain r r' where "absorbs c f p r" "absorbs_all cs fs r q" "absorbs c f' p' r'" "absorbs_all cs fs'' r' q'"
    "interchangeable f f'" "list_all2 interchangeable fs fs''" by auto
  with 2 absorbs_same show ?case by blast
next
  case (1 p q)
  then show ?case by (cases fs') auto
qed auto

text \<open>
  One run may use the cache; the other finds no entry. Entries hold what was staged from the facts
  that the commands give, and Clang answers alike in both runs.
\<close>

definition no_entries :: "index_options \<Rightarrow> run_events \<Rightarrow> bool" where
  "no_entries options re \<longleftrightarrow> (\<forall>i command e. \<not> found_entry options command (re_units re i) e)"

definition true_entries :: "index_options \<Rightarrow> run_events \<Rightarrow> run_events \<Rightarrow> bool" where
  "true_entries options re re' \<longleftrightarrow>
     (\<forall>i command e process st. found_entry options command (re_units re i) e \<longrightarrow>
        clang_facts options command (re_units re' i) process st \<longrightarrow> stored_entry options command process st e)"

definition same_answers :: "index_options \<Rightarrow> run_events \<Rightarrow> run_events \<Rightarrow> bool" where
  "same_answers options re re' \<longleftrightarrow>
     (\<forall>i command process st process' st'. clang_facts options command (re_units re i) process st \<longrightarrow>
        clang_facts options command (re_units re' i) process' st' \<longrightarrow>
        collected_facts options command process st = collected_facts options command process' st')"

definition hierarchy_of :: "unit_facts list \<Rightarrow> record_table" where
  "hierarchy_of fs = fold (\<lambda>f. fold merge_record (uf_records f)) fs []"

definition clear_hierarchy :: "index_options \<Rightarrow> run_events \<Rightarrow> compile_command list \<Rightarrow> bool" where
  "clear_hierarchy options re given \<longleftrightarrow>
     (\<forall>commands fs. normalize_commands (re_start re) given = Inr commands \<longrightarrow> length fs = length commands \<longrightarrow>
        (\<forall>i < length commands. unit_gives options (commands ! i) (re_units re i) (fs ! i)) \<longrightarrow>
        unambiguous (hierarchy_of fs))"

lemma absorbs_all_records:
  "absorbs_all cs fs p q \<Longrightarrow> rp_records q = fold (\<lambda>f. fold merge_record (uf_records f)) fs (rp_records p)"
  by (induction cs fs p q rule: absorbs_all.induct) (auto simp: absorbs_def)

lemma merged_run_records: "merged_run options re given commands fs p \<Longrightarrow> rp_records p = hierarchy_of fs"
  using absorbs_all_records [of commands fs "start_progress options (re_store re)" p]
  by (simp add: merged_run_def hierarchy_of_def start_progress_def)

lemma units_interchangeable:
  assumes "unit_gives options command (re_units re i) f" "unit_gives options command (re_units re' i) f'"
    and "no_entries options re'" "true_entries options re re'" "same_answers options re re'"
  shows "interchangeable f f'"
proof -
  from assms(2,3) obtain process' st' where f': "clang_facts options command (re_units re' i) process' st'"
    "f' = collected_facts options command process' st'" by (auto simp: unit_gives_def no_entries_def)
  consider e where "found_entry options command (re_units re i) e" "f = entry_facts e"
    | process st where "clang_facts options command (re_units re i) process st" "f = collected_facts options command process st"
    using assms(1) by (auto simp: unit_gives_def)
  then show ?thesis
  proof cases
    case (1 e)
    then have "stored_entry options command process' st' e" using assms(4) f'(1) by (auto simp: true_entries_def)
    then show ?thesis using stored_interchangeable 1 f' by simp
  next
    case (2 process st)
    then have "f = f'" using assms(5) f' by (auto simp: same_answers_def)
    then show ?thesis by (simp add: interchangeable_def)
  qed
qed

lemma cached_run_same:
  assumes conf: "ix_configuration_id options \<noteq> []"
    and orders: "visits_all (ho_methods (re_orders re))" "visits_all (ho_records (re_orders re))"
      "visits_all (ho_methods (re_orders re'))" "visits_all (ho_records (re_orders re'))"
    and start: "re_start re = re_start re'"
    and runs: "index_run options re given = (Inr r, st)" "index_run options re' given = (Inr r', st')"
    and cache: "no_entries options re'" "true_entries options re re'" "same_answers options re re'"
    and clear: "clear_hierarchy options re' given"
  shows "ir_graph r = ir_graph r' \<and> ir_diagnostics r = ir_diagnostics r' \<and> ir_unit_diagnostics r = ir_unit_diagnostics r'"
proof -
  obtain commands fs p told where 1: "merged_run options re given commands fs p"
    "complete_graph options (re_orders re) (rp_records p) (rp_matches p) (ir_unit_diagnostics (rp_result p))
       (ir_graph (rp_result p)) = Inr (ir_graph r, told)"
    "ir_diagnostics r = sorted_unique (ir_diagnostics (rp_result p) @ told)"
    "ir_unit_diagnostics r = sort_key (path_key \<circ> ud_file) (map indexed_note commands)"
    by (rule index_run_Inr [OF runs(1)])
  obtain commands' fs' p' told' where 2: "merged_run options re' given commands' fs' p'"
    "complete_graph options (re_orders re') (rp_records p') (rp_matches p') (ir_unit_diagnostics (rp_result p'))
       (ir_graph (rp_result p')) = Inr (ir_graph r', told')"
    "ir_diagnostics r' = sorted_unique (ir_diagnostics (rp_result p') @ told')"
    "ir_unit_diagnostics r' = sort_key (path_key \<circ> ud_file) (map indexed_note commands')"
    by (rule index_run_Inr [OF runs(2)])
  have same_commands: "commands' = commands" using 1(1) 2(1) start by (simp add: merged_run_def)
  have "list_all2 interchangeable fs fs'"
    using 1(1) 2(1) units_interchangeable [OF _ _ cache] by (auto simp: merged_run_def same_commands list_all2_conv_all_nth)
  moreover have "same_results (start_progress options (re_store re)) (start_progress options (re_store re'))"
    by (simp add: same_results_def start_progress_def)
  ultimately have same: "same_results p p'"
    using 1(1) 2(1) absorbs_all_same by (auto simp: merged_run_def same_commands)
  then have g: "ir_graph (rp_result p) = ir_graph (rp_result p')" and recs: "map_of (rp_records p) = map_of (rp_records p')"
    by (simp_all add: same_results_def)
  have "unambiguous (rp_records p')"
    using clear 2(1) merged_run_records [OF 2(1)] by (auto simp: clear_hierarchy_def merged_run_def)
  then have "unambiguous (rp_records p)" using recs by (simp add: unambiguous_def has_record_def)
  from dispatch_facts_order_irrelevant [OF recs this orders(2,4)]
  have F: "completion_facts options (re_orders re) (rp_records p) symbols =
      completion_facts options (re_orders re') (rp_records p') symbols" for symbols
    by (simp add: completion_facts_def)
  obtain k where k: "added (ir_graph (rp_result p)) k
      (completion_facts options (re_orders re) (rp_records p) (g_symbols (ir_graph (rp_result p))))"
    "ir_graph r = canonicalize k"
    "set told = set (unmatched_roots (ix_manual_roots options) (ir_graph (rp_result p))) \<union>
      set (fallback_diagnostics (ir_graph (rp_result p))) \<union>
      (if ix_ast_filter options = [] then {} else {''Clang AST name filter active: '' @ ix_ast_filter options})"
    by (rule completed [OF merged_run_facts(1) [OF 1(1) conf] orders(1) 1(2)])
  obtain k' where k': "added (ir_graph (rp_result p')) k'
      (completion_facts options (re_orders re') (rp_records p') (g_symbols (ir_graph (rp_result p'))))"
    "ir_graph r' = canonicalize k'"
    "set told' = set (unmatched_roots (ix_manual_roots options) (ir_graph (rp_result p'))) \<union>
      set (fallback_diagnostics (ir_graph (rp_result p'))) \<union>
      (if ix_ast_filter options = [] then {} else {''Clang AST name filter active: '' @ ix_ast_filter options})"
    by (rule completed [OF merged_run_facts(1) [OF 2(1) conf] orders(3) 2(2)])
  have "same_content k k'" using same_facts_same_content [OF k(1)] k'(1) by (simp add: F g)
  moreover have "graph_wf k" "graph_wf k'" using k(1) k'(1) by (simp_all add: added_def)
  ultimately have "ir_graph r = ir_graph r'" using canonical_form_unique by (simp add: k(2) k'(2))
  moreover have "ir_diagnostics r = ir_diagnostics r'"
    using same k(3) k'(3) by (simp add: 1(3) 2(3) sorted_unique_set same_results_def g)
  ultimately show ?thesis using 1(4) 2(4) same_commands by simp
qed

end
