(* ===== verification/Index_Outcome.thy ===== *)
theory Index_Outcome
  imports Index_Complete
begin

text \<open>
  The theorems about whole indexing runs, and a run on a small program that shows that their
  hypotheses can be met.
\<close>

section \<open>A failed run publishes nothing\<close>

definition store_kept :: "store \<Rightarrow> progress \<Rightarrow> bool" where
  "store_kept s p \<longleftrightarrow>
     (\<forall>directory key. digest_form key \<longrightarrow> rp_store p (entry_path directory key) = s (entry_path directory key)) \<and>
     (\<forall>sw \<in> set (rp_staged p). \<exists>d pid counter. sw_temporary sw = temporary_name d pid counter)"

definition kept_failure :: "store \<Rightarrow> index_failure \<times> progress \<Rightarrow> bool" where
  "kept_failure s = (\<lambda>(failure, p). store_kept s p)"

lemma kept_failure_simps [simp]: "kept_failure s (failure, p) \<longleftrightarrow> store_kept s p"
  by (simp add: kept_failure_def)

lemma store_kept_changes [simp]:
  "store_kept s (change_metrics f p) = store_kept s p"
  "store_kept s (change_result h p) = store_kept s p"
  by (simp_all add: store_kept_def change_metrics_def change_result_def)

lemma store_kept_take_over [simp]:
  "store_kept s (take_over command diagnostics rule_flags records p) = store_kept s p"
  "store_kept s (take_graph bytes elapsed g p) = store_kept s p"
  by (simp_all add: take_over_def take_graph_def) (simp add: store_kept_def change_result_def)

lemma stage_entry_kept:
  assumes "store_kept s p"
  shows "store_kept s (stage_entry command ue directory key process diagnostics st p)"
proof -
  have t: "temporary_name d pid c \<noteq> entry_path dir k" "entry_path dir k \<noteq> temporary_name d pid c"
    if "digest_form k" for d pid c dir k
    using temporary_not_place [OF that, of d pid c dir] by simp_all
  show ?thesis
    using assms t
    by (auto simp: stage_entry_def stage_translation_unit_cache_def remove_file_def store_kept_def Let_def
        change_result_def change_metrics_def split: sum.splits stage_outcome.splits)
qed

lemma run_clang_kept:
  "store_kept s p \<Longrightarrow> ends (kept_failure s) (\<lambda>_. True) (run_clang options commands i command ue p)"
  by (auto simp: run_clang_def Let_def split: option.splits sum.splits)

lemma collect_command_kept:
  "store_kept s p \<Longrightarrow> ends (kept_failure s) (\<lambda>_. True) (collect_command options given commands i command ue process p)"
  by (auto simp: collect_command_def split: option.splits sum.splits)

lemma index_fresh_kept:
  assumes "store_kept s p"
  shows "ends (kept_failure s) (store_kept s) (index_fresh options given commands i command ue place p)"
  unfolding index_fresh_def Let_def
  by (rule ends_bind [OF run_clang_kept [OF assms]], rule ends_bind [OF collect_command_kept])
    (auto simp: assms stage_entry_kept split: sum.splits option.splits)

lemma look_up_kept:
  "store_kept s p \<Longrightarrow>
   ends (kept_failure s) (\<lambda>(entry, q). store_kept s q) (look_up options commands i command ue directory key p)"
  by (auto simp: look_up_def Let_def split: option.splits)

lemma index_command_kept:
  assumes "store_kept s p"
  shows "ends (kept_failure s) (store_kept s) (index_command options events given commands ic p)"
proof -
  obtain i command where ic: "ic = (i, command)" by force
  have reuse: "ends (kept_failure s) (store_kept s) (reuse_entry command (events i) entry q)" if "store_kept s q" for entry q
    using that by (auto simp: reuse_entry_def split: sum.splits)
  show ?thesis
    unfolding ic index_command_def Let_def
    by (auto simp: assms index_fresh_kept reuse split: option.splits sum.splits
        intro!: ends_bind [OF look_up_kept [OF assms]])
qed

lemma index_commands_kept:
  "ends (kept_failure (re_store re)) (store_kept (re_store re)) (index_commands options re given commands)"
  unfolding index_commands_def
  by (rule ends_fold) (simp_all add: index_command_kept, simp add: store_kept_def start_progress_def)

lemma discard_all_kept:
  assumes "store_kept s p" "digest_form key"
  shows "discard_all works (rp_staged p) (rp_store p) (entry_path directory key) = s (entry_path directory key)"
proof -
  have "fold (\<lambda>(i, sw) st. snd (discard (works i) sw st)) (enumerate k sws) st (entry_path directory key) =
      st (entry_path directory key)"
    if "\<forall>sw \<in> set sws. \<exists>d pid c. sw_temporary sw = temporary_name d pid c" for k sws st
    using that
  proof (induction sws arbitrary: k st)
    case (Cons sw sws)
    then obtain d pid c where "sw_temporary sw = temporary_name d pid c" by auto
    then have "snd (discard (works k) sw st) (entry_path directory key) = st (entry_path directory key)"
      using temporary_not_place [OF assms(2), of d pid c directory] by (simp add: discard_def remove_file_def)
    then show ?case using Cons by simp
  qed simp
  then show ?thesis using assms by (simp add: discard_all_def store_kept_def)
qed

lemma failed_run_store:
  assumes run: "index_run options re given = (Inl failure, st)" and key: "digest_form key"
  shows "st (entry_path directory key) = re_store re (entry_path directory key)"
proof (cases "no_policy options \<or> given = []")
  case True
  then show ?thesis using run by (auto simp: index_run_def split: if_splits)
next
  case go: False
  show ?thesis
  proof (cases "normalize_commands (re_start re) given")
    case (Inl f)
    then show ?thesis using run go by (simp add: index_run_def)
  next
    case (Inr commands)
    show ?thesis
    proof (cases "index_commands options re given commands")
      case inl: (Inl fq)
      obtain f q where fq: "fq = (f, q)" by force
      have "store_kept (re_store re) q" using index_commands_kept [of re options given commands] inl fq by simp
      moreover have "st = discard_all (re_discards re) (rp_staged q) (rp_store q)"
        using run go Inr inl fq by (simp add: index_run_def)
      ultimately show ?thesis using discard_all_kept [OF _ key] by simp
    next
      case inr: (Inr p)
      have "store_kept (re_store re) p" using index_commands_kept [of re options given commands] inr by simp
      moreover have "st = discard_all (re_discards re) (rp_staged p) (rp_store p)"
        using run go Inr inr by (auto simp: index_run_def finish_run_def Let_def split: sum.splits prod.splits)
      ultimately show ?thesis using discard_all_kept [OF _ key] by simp
    qed
  qed
qed

section \<open>A run on a small program\<close>

definition run_main :: json where
  "run_main = JObject
     [(''id'', JString ''0x1''),
      (''inner'', JArray [JObject [(''inner'', JArray []), (''kind'', JString ''CompoundStmt'')]]),
      (''kind'', JString ''FunctionDecl''),
      (''loc'', JObject [(''col'', JNumber 5), (''file'', JString ''a.cpp''), (''line'', JNumber 1), (''offset'', JNumber 4)]),
      (''mangledName'', JString ''main''), (''name'', JString ''main'')]"

definition run_ast :: json where
  "run_ast = JObject [(''inner'', JArray [run_main]), (''kind'', JString ''TranslationUnitDecl'')]"

definition run_options :: index_options where
  "run_options = (sample_options [])\<lparr>ix_cache_directory := None, ix_selected_target_sources := []\<rparr>"

definition run_given :: compile_command where
  "run_given = \<lparr>cc_directory = ''/s'', cc_file = ''/s/a.cpp'', cc_arguments = [''clang++'', ''-O2'', ''a.cpp''],
     cc_output = [], cc_inputs = []\<rparr>"

definition run_command :: compile_command where
  "run_command = \<lparr>cc_directory = ''/s'', cc_file = ''/s/a.cpp'', cc_arguments = [''clang++'', ''-O2'', ''/s/a.cpp''],
     cc_output = [], cc_inputs = []\<rparr>"

text \<open>Clang prints the syntax tree, unless the user interrupts the command.\<close>

definition sample_unit_events :: "bool \<Rightarrow> unit_events" where
  "sample_unit_events cancelled =
     \<lparr>ue_cancelled_first = cancelled, ue_machine = sample_machine, ue_cancelled_validating = False,
      ue_unit_validating = 0, ue_run_validating = 0, ue_run_starting = 0, ue_dependency_file = ''/tmp/d'',
      ue_process = (\<lambda>arguments directory limits. Inr \<lparr>ps_exit_code = 0, ps_signal = 0, ps_termination = Exited,
        ps_output = render run_ast, ps_error = []\<rparr>),
      ue_files = cache_files, ue_cancelled_collecting = False, ue_unit_collecting = 0, ue_run_collecting = 0,
      ue_process_id = 1, ue_counter = 0, ue_staging = All_Written, ue_validation_time = 0,
      ue_indexing_time = 5, ue_merge_time = 1\<rparr>"

definition sample_run_events :: "nat \<Rightarrow> run_events" where
  "sample_run_events interrupted =
     \<lparr>re_start = cache_files, re_units = (\<lambda>i. sample_unit_events (i = interrupted)), re_orders = plain_orders,
      re_store = Map.empty,
      re_commits = (\<lambda>i. \<lparr>co_rename = True, co_remove = True, co_retry = True, co_discard = True, co_message = []\<rparr>),
      re_discards = (\<lambda>i. True)\<rparr>"

lemma run_normalized: "normalize_commands cache_files [run_given] = Inr [run_command]"
  "normalize_commands cache_files [run_given, run_given] = Inr [run_command, run_command]"
  by code_simp+

lemma run_documents: "read_documents (render run_ast) = Inr [run_ast]"
proof -
  have "renderable run_ast" by (simp add: run_ast_def run_main_def)
  then have "spells run_ast (render run_ast)" by (rule spells_renderable)
  then have parse: "parse (render run_ast) = Inr run_ast"
    using parse_spelled [of run_ast "render run_ast" "[]" "[]"] by (simp add: blank_def)
  then have "document (render run_ast)" by (simp add: document_def run_ast_def)
  then have "split_json_documents (render run_ast) = Inr [render run_ast]"
    using split_documents [of "[([], render run_ast)]" "[]"] by (simp add: blank_def)
  then show ?thesis by (simp add: read_documents_def parse)
qed

definition run_input :: unit_input where
  "run_input = \<lparr>un_files = cache_files, un_command = run_command, un_options = run_options\<rparr>"

definition run_completes :: "unit_state \<Rightarrow> bool" where
  "run_completes st \<longleftrightarrow> us_records st = [] \<and>
     (case merge_graph empty_graph (us_graph st) of
        Inl e \<Rightarrow> False
      | Inr g \<Rightarrow>
          (case complete_graph run_options plain_orders
              (fold merge_record (map (\<lambda>(name, r). (name, ri_bases r)) (us_records st)) [])
              (or_flags [] (us_matches st)) [indexed_note run_command] g of
             Inl e \<Rightarrow> False
           | Inr x \<Rightarrow> True))"

lemma run_collected:
  "case collect_facts run_input [run_ast] (start_unit run_options) of Inl e \<Rightarrow> False | Inr st \<Rightarrow> run_completes st"
  by code_simp

lemma run_unit:
  assumes "collect_facts run_input [run_ast] (start_unit run_options) = Inr st"
  shows "clang_facts run_options run_command (sample_unit_events False)
    \<lparr>ps_exit_code = 0, ps_signal = 0, ps_termination = Exited, ps_output = render run_ast, ps_error = []\<rparr> st"
  using assms
  by (simp add: clang_facts_def command_state_def run_documents sample_unit_events_def run_input_def ast_command_def
      run_command_def exI [of _ None])

definition sample_process :: process_result where
  "sample_process = \<lparr>ps_exit_code = 0, ps_signal = 0, ps_termination = Exited, ps_output = render run_ast, ps_error = []\<rparr>"

lemma first_command:
  obtains st g p where "collect_facts run_input [run_ast] (start_unit run_options) = Inr st" "run_completes st"
    and "merge_graph empty_graph (us_graph st) = Inr g"
    and "index_command run_options (re_units (sample_run_events 1)) given commands (0, run_command)
      (start_progress run_options Map.empty) = Inr p"
    and "ir_graph (rp_result p) = g" "ir_unit_diagnostics (rp_result p) = [indexed_note run_command]"
    and "rp_records p = fold merge_record (map (\<lambda>(name, r). (name, ri_bases r)) (us_records st)) []"
    and "rp_matches p = or_flags [] (us_matches st)"
proof -
  obtain st where st: "collect_facts run_input [run_ast] (start_unit run_options) = Inr st" "run_completes st"
    using run_collected by (auto split: sum.splits)
  obtain g where g: "merge_graph empty_graph (us_graph st) = Inr g"
    using st(2) by (auto simp: run_completes_def split: sum.splits)
  have quiet: "interruption run_options False t t' activity = None" for t t' activity
    by (simp add: interruption_def run_options_def sample_options_def)
  have "run_clang run_options commands 0 run_command (sample_unit_events False) p = Inr sample_process" for p
    by (simp add: run_clang_def process_limit_def run_options_def sample_options_def ast_command_def run_command_def
        sample_unit_events_def sample_process_def process_failure_def Let_def)
  moreover have "collect_command run_options given commands 0 run_command (sample_unit_events False) sample_process p = Inr st" for p
    using st(1) by (simp add: collect_command_def sample_process_def run_documents run_input_def quiet sample_unit_events_def)
  ultimately have "\<exists>p. index_command run_options (re_units (sample_run_events 1)) given commands (0, run_command)
      (start_progress run_options Map.empty) = Inr p \<and>
      ir_graph (rp_result p) = g \<and> ir_unit_diagnostics (rp_result p) = [indexed_note run_command] \<and>
      rp_records p = fold merge_record (map (\<lambda>(name, r). (name, ri_bases r)) (us_records st)) [] \<and>
      rp_matches p = or_flags [] (us_matches st)"
    using g
    by (simp add: index_command_def index_fresh_def sample_run_events_def run_options_def
        sample_options_def sample_unit_events_def start_progress_def empty_result_def take_over_def take_graph_def
        change_metrics_def change_result_def Let_def)
  then show thesis using that st g by blast
qed

lemma sample_run: "\<exists>r st. index_run run_options (sample_run_events 1) [run_given] = (Inr r, st)"
proof -
  obtain st g p where p: "run_completes st" "merge_graph empty_graph (us_graph st) = Inr g"
    "index_command run_options (re_units (sample_run_events 1)) [run_given] [run_command] (0, run_command)
      (start_progress run_options Map.empty) = Inr p"
    "ir_graph (rp_result p) = g" "ir_unit_diagnostics (rp_result p) = [indexed_note run_command]"
    "rp_records p = fold merge_record (map (\<lambda>(name, r). (name, ri_bases r)) (us_records st)) []"
    "rp_matches p = or_flags [] (us_matches st)"
    using first_command by blast
  then obtain x where x: "complete_graph run_options plain_orders
      (fold merge_record (map (\<lambda>(name, r). (name, ri_bases r)) (us_records st)) [])
      (or_flags [] (us_matches st)) [indexed_note run_command] g = Inr x"
    by (auto simp: run_completes_def split: sum.splits)
  have "index_commands run_options (sample_run_events 1) [run_given] [run_command] = Inr p"
    using p(3) by (simp add: index_commands_def sample_run_events_def)
  then show ?thesis
    using p x by (cases x) (simp add: index_run_def finish_run_def no_policy_def run_normalized sample_run_events_def
        run_options_def sample_options_def Let_def case_prod_beta)
qed

text \<open>The user interrupts the second of two commands.\<close>

lemma sample_interrupted:
  "\<exists>message d st. index_run run_options (sample_run_events 1) [run_given, run_given] = (Inl (Indexing_Error message d), st) \<and>
     (\<forall>u \<in> set (rd_units d). ud_exit_code u = None \<and> ud_signal u = None)"
proof -
  obtain p where p: "index_command run_options (re_units (sample_run_events 1)) [run_given, run_given]
      [run_command, run_command] (0, run_command) (start_progress run_options Map.empty) = Inr p"
    and units: "ir_unit_diagnostics (rp_result p) = [indexed_note run_command]"
    using first_command by blast
  have "index_commands run_options (sample_run_events 1) [run_given, run_given] [run_command, run_command] =
      Inl (fail_indexing [run_command, run_command] (rp_result p) 1 Unit_Cancelled ''indexing''
        (''indexing cancelled before '' @ cc_file run_command) None, p)"
    using p by (simp add: index_commands_def sample_run_events_def)
      (simp add: index_command_def sample_unit_events_def)
  then show ?thesis
    by (simp add: index_run_def no_policy_def run_normalized sample_run_events_def run_options_def sample_options_def
        fail_indexing_def units indexed_note_def unit_note_def)
qed

lemma run_conditions:
  "ix_configuration_id run_options \<noteq> []" "visits_all (ho_methods (re_orders (sample_run_events n)))"
  "visits_all (ho_records (re_orders (sample_run_events n)))"
  by (simp_all add: run_options_def sample_options_def sample_run_events_def plain_orders_def visits_all_def)

section \<open>The theorems\<close>





text \<open>
  A failed run accounts for every command. The error says that the run is incomplete and lists,
  unless there was nothing to index, all commands in their order: those before the failing one as
  indexed, the failing one as failed, timed out or cancelled, all later ones as skipped.
\<close>
theorem failed_run_accounts:
  assumes "index_run options re given = (Inl (Indexing_Error message d), st)"
  shows "rd_state d = Run_Incomplete \<and> rd_frontend d = Ast_Json \<and> reports options (re_start re) given (rd_units d)"
  by (rule failed_run_reports [OF assms])

lemma failed_run_accounts_witness:
  "\<exists>message d st. index_run run_options (sample_run_events 1) [run_given, run_given] = (Inl (Indexing_Error message d), st) \<and>
     reports run_options cache_files [run_given, run_given] (rd_units d)"
proof -
  have start: "re_start (sample_run_events n) = cache_files" for n by (simp add: sample_run_events_def)
  obtain message d st where run: "index_run run_options (sample_run_events 1) [run_given, run_given] =
      (Inl (Indexing_Error message d), st)" using sample_interrupted by blast
  show ?thesis using failed_run_accounts [OF run] run by (auto simp: start)
qed

text \<open>
  C12: A failed run publishes nothing. Whenever and for whatever reason the run fails, under every name
  an entry can have the cache holds what it held before.
\<close>
theorem failed_run_publishes_nothing:
  assumes "index_run options re given = (Inl failure, st)" and "digest_form key"
  shows "st (entry_path directory key) = re_store re (entry_path directory key)"
  by (rule failed_run_store [OF assms])

lemma failed_run_publishes_nothing_witness:
  "\<exists>message d st. index_run run_options (sample_run_events 1) [run_given, run_given] = (Inl (Indexing_Error message d), st) \<and>
     st (entry_path ''/c'' (sha256 ''x'')) = None"
proof -
  obtain message d st where run: "index_run run_options (sample_run_events 1) [run_given, run_given] =
      (Inl (Indexing_Error message d), st)" using sample_interrupted by blast
  have "re_store (sample_run_events n) = Map.empty" for n by (simp add: sample_run_events_def)
  then show ?thesis
    using failed_run_publishes_nothing [OF run sha256_digest_form, of "''/c''" "''x''"] run by auto
qed

end
