(* ===== verification/Process_Run.thy ===== *)
theory Process_Run
  imports Process "HOL-Library.Word"
begin

text \<open>
  The supervision of a child process, \<open>run_process\<close> of \<open>src/process.cpp\<close>. Its loop polls two pipes,
  reads what is available, and ends the child when a limit is reached; it is a step function over
  the answers of the operating system, which are the events of the iterations. What the child does
  after the fork is its own. Clocks count nanoseconds in a signed 64-bit integer.
\<close>

section \<open>Answers of the operating system\<close>

text \<open>A read of no bytes is the end of the stream; \<open>Read_Again\<close> stands for the errors worth a retry.\<close>

datatype read_outcome = Read_Bytes string | Read_Again | Read_Broken

text \<open>What is read from a descriptor that has data or was hung up, and whether it is invalid.\<close>

type_synonym descriptor_event = "read_outcome option \<times> bool"

datatype poll_outcome = Poll_Interrupted | Poll_Failed string | Polled descriptor_event descriptor_event

datatype wait_outcome = Wait_Nothing | Wait_Exited int | Wait_Signaled int | Wait_Other | Wait_Failed string

record loop_event =
  lv_now :: int
  lv_cancelled :: bool
  lv_clock :: int
  lv_poll :: poll_outcome
  lv_wait :: wait_outcome

section \<open>The loop\<close>

record supervision =
  sv_result :: process_result
  sv_output_open :: bool
  sv_error_open :: bool
  sv_reaped :: bool
  sv_requested :: bool
  sv_kill_sent :: bool
  sv_started :: "int option"
  sv_poll_error :: string
  sv_signals :: "int list"

definition start_supervision :: supervision where
  "start_supervision =
     \<lparr>sv_result = \<lparr>ps_exit_code = -1, ps_signal = 0, ps_termination = Exited, ps_output = [], ps_error = []\<rparr>,
      sv_output_open = True, sv_error_open = True, sv_reaped = False, sv_requested = False,
      sv_kill_sent = False, sv_started = None, sv_poll_error = [], sv_signals = []\<rparr>"

definition wrap64 :: "int \<Rightarrow> int" where
  "wrap64 x = sint (word_of_int x :: 64 word)"

definition nanoseconds :: "int \<Rightarrow> int" where
  "nanoseconds milliseconds = milliseconds * 1000000"

definition deadline_of :: "process_options \<Rightarrow> int \<Rightarrow> int option" where
  "deadline_of options now = map_option (\<lambda>timeout. wrap64 (now + nanoseconds timeout)) (pr_timeout options)"

definition sigkill :: int where "sigkill = 9"

definition sigterm :: int where "sigterm = 15"

text \<open>The new content, whether the descriptor stays open, and whether the limit was exceeded.\<close>

definition append_available :: "read_outcome \<Rightarrow> nat \<Rightarrow> string \<Rightarrow> string \<times> bool \<times> bool" where
  "append_available outcome limit destination =
     (case outcome of
        Read_Bytes bytes \<Rightarrow>
          if bytes = [] then (destination, False, False)
          else if limit \<noteq> 0 \<and> (limit \<le> length destination \<or> limit - length destination < length bytes) then
            (destination @ take (limit - length destination) bytes, True, True)
          else (destination @ bytes, True, False)
      | Read_Again \<Rightarrow> (destination, True, False)
      | Read_Broken \<Rightarrow> (destination, False, False))"

definition signal_process_group :: "int \<Rightarrow> supervision \<Rightarrow> supervision" where
  "signal_process_group signal s = s\<lparr>sv_signals := sv_signals s @ [signal]\<rparr>"

definition request_termination :: "process_termination \<Rightarrow> int \<Rightarrow> supervision \<Rightarrow> supervision" where
  "request_termination reason clock s =
     (if sv_requested s then s
      else signal_process_group sigterm
        (s\<lparr>sv_result := (sv_result s)\<lparr>ps_termination := reason\<rparr>, sv_requested := True, sv_started := Some clock\<rparr>))"

text \<open>The limits are looked at before each poll.\<close>

definition check_cancellation :: "loop_event \<Rightarrow> supervision \<Rightarrow> supervision" where
  "check_cancellation ev s =
     (if \<not> sv_requested s \<and> lv_cancelled ev then request_termination Process_Cancelled (lv_clock ev) s else s)"

definition check_deadline :: "int option \<Rightarrow> loop_event \<Rightarrow> supervision \<Rightarrow> supervision" where
  "check_deadline deadline ev s =
     (case deadline of
        None \<Rightarrow> s
      | Some d \<Rightarrow>
          if \<not> sv_requested s \<and> d \<le> lv_now ev then request_termination Process_Timed_Out (lv_clock ev) s else s)"

definition check_grace :: "process_options \<Rightarrow> loop_event \<Rightarrow> supervision \<Rightarrow> supervision" where
  "check_grace options ev s =
     (case sv_started s of
        None \<Rightarrow> s
      | Some t \<Rightarrow>
          if sv_requested s \<and> \<not> sv_kill_sent s \<and> nanoseconds (pr_grace options) \<le> lv_now ev - t
          then (signal_process_group sigkill s)\<lparr>sv_kill_sent := True\<rparr> else s)"

definition read_output :: "process_options \<Rightarrow> loop_event \<Rightarrow> read_outcome option \<Rightarrow> supervision \<Rightarrow> supervision" where
  "read_output options ev ready s =
     (case ready of
        None \<Rightarrow> s
      | Some outcome \<Rightarrow>
          if \<not> sv_output_open s then s
          else
            let (content, still_open, exceeded) =
                  append_available outcome (pr_output_limit options) (ps_output (sv_result s));
                s = s\<lparr>sv_result := (sv_result s)\<lparr>ps_output := content\<rparr>, sv_output_open := still_open\<rparr>
            in if exceeded then request_termination Output_Limit_Exceeded (lv_clock ev) s else s)"

definition read_error :: "process_options \<Rightarrow> read_outcome option \<Rightarrow> supervision \<Rightarrow> supervision" where
  "read_error options ready s =
     (case ready of
        None \<Rightarrow> s
      | Some outcome \<Rightarrow>
          if \<not> sv_error_open s then s
          else
            let (content, still_open, _) =
                  append_available outcome (pr_error_limit options) (ps_error (sv_result s))
            in s\<lparr>sv_result := (sv_result s)\<lparr>ps_error := content\<rparr>, sv_error_open := still_open\<rparr>)"

definition drop_invalid :: "bool \<Rightarrow> bool \<Rightarrow> supervision \<Rightarrow> supervision" where
  "drop_invalid output_invalid error_invalid s =
     s\<lparr>sv_output_open := sv_output_open s \<and> \<not> output_invalid, sv_error_open := sv_error_open s \<and> \<not> error_invalid\<rparr>"

definition reap_child :: "loop_event \<Rightarrow> supervision \<Rightarrow> supervision" where
  "reap_child ev s =
     (if sv_reaped s then s
      else
        case lv_wait ev of
          Wait_Nothing \<Rightarrow> s
        | Wait_Exited code \<Rightarrow> s\<lparr>sv_reaped := True, sv_result := (sv_result s)\<lparr>ps_exit_code := code\<rparr>\<rparr>
        | Wait_Signaled signal \<Rightarrow>
            s\<lparr>sv_reaped := True, sv_result := (sv_result s)\<lparr>ps_signal := signal, ps_exit_code := 128 + signal,
                ps_termination := (if sv_requested s then ps_termination (sv_result s) else Signaled)\<rparr>\<rparr>
        | Wait_Other \<Rightarrow> s\<lparr>sv_reaped := True\<rparr>
        | Wait_Failed message \<Rightarrow>
            (request_termination Process_Cancelled (lv_clock ev)
              (s\<lparr>sv_poll_error := ''cannot wait for child process: '' @ message\<rparr>))\<lparr>sv_reaped := True\<rparr>)"

definition serve ::
    "process_options \<Rightarrow> loop_event \<Rightarrow> descriptor_event \<Rightarrow> descriptor_event \<Rightarrow> supervision \<Rightarrow> supervision" where
  "serve options ev out err s =
     reap_child ev (drop_invalid (snd out) (snd err) (read_error options (fst err) (read_output options ev (fst out) s)))"

definition loop_step :: "process_options \<Rightarrow> int option \<Rightarrow> loop_event \<Rightarrow> supervision \<Rightarrow> supervision" where
  "loop_step options deadline ev s =
     (let s = check_grace options ev (check_deadline deadline ev (check_cancellation ev s)) in
      case lv_poll ev of
        Poll_Interrupted \<Rightarrow> s
      | Poll_Failed message \<Rightarrow>
          serve options ev (None, False) (None, False)
            (request_termination Process_Cancelled (lv_clock ev)
              (s\<lparr>sv_poll_error := ''cannot poll child process: '' @ message\<rparr>))
      | Polled out err \<Rightarrow> serve options ev out err s)"

text \<open>How long a poll may block, in milliseconds.\<close>

definition poll_timeout :: "int option \<Rightarrow> bool \<Rightarrow> int \<Rightarrow> int" where
  "poll_timeout deadline requested clock =
     (case deadline of
        None \<Rightarrow> 50
      | Some d \<Rightarrow> if requested then 50 else max 0 (min 50 ((d - clock) div 1000000)))"

definition supervised :: "supervision \<Rightarrow> bool" where
  "supervised s \<longleftrightarrow> sv_reaped s \<and> \<not> sv_output_open s \<and> \<not> sv_error_open s"

partial_function (option) supervise ::
    "process_options \<Rightarrow> int option \<Rightarrow> (nat \<Rightarrow> loop_event) \<Rightarrow> nat \<Rightarrow> supervision \<Rightarrow> supervision option" where
  "supervise options deadline events n s =
     (if supervised s then Some s
      else supervise options deadline events (Suc n) (loop_step options deadline (events n) s))"

section \<open>A whole run\<close>

datatype launch = No_Pipes string | No_Fork string | No_Group string | Launched int

definition end_result :: "supervision \<Rightarrow> process_result result" where
  "end_result s = (if sv_poll_error s \<noteq> [] then Inl (Runtime_Error (sv_poll_error s)) else Inr (sv_result s))"

definition run_process ::
    "string list \<Rightarrow> process_options \<Rightarrow> launch \<Rightarrow> (nat \<Rightarrow> loop_event) \<Rightarrow> process_result result option" where
  "run_process arguments options launched events =
     (if arguments = [] then Some (Inl (Invalid_Argument ''cannot run an empty command''))
      else
        case launched of
          No_Pipes message \<Rightarrow> Some (Inl (Runtime_Error (''cannot create process pipes: '' @ message)))
        | No_Fork message \<Rightarrow> Some (Inl (Runtime_Error (''cannot fork: '' @ message)))
        | No_Group message \<Rightarrow> Some (Inl (Runtime_Error (''cannot create child process group: '' @ message)))
        | Launched now \<Rightarrow>
            map_option end_result (supervise options (deadline_of options now) events 0 start_supervision))"

end
