(* ===== verification/Process_Facts.thy ===== *)
theory Process_Facts
  imports Process_Run
begin

text \<open>
  What the supervision of a process guarantees: a result that is reported as complete is complete,
  every limit that ends a process was really reached, a process is killed only after the grace
  period, and a run with a time limit returns if the operating system obeys its signals.
\<close>

section \<open>The states of the loop\<close>

primrec loop_state :: "process_options \<Rightarrow> int option \<Rightarrow> (nat \<Rightarrow> loop_event) \<Rightarrow> nat \<Rightarrow> supervision" where
  "loop_state options deadline events 0 = start_supervision"
| "loop_state options deadline events (Suc n) =
     loop_step options deadline (events n) (loop_state options deadline events n)"

lemma supervise_reaches:
  "supervise options deadline events n s = Some t \<Longrightarrow> s = loop_state options deadline events n \<Longrightarrow>
     \<exists>k \<ge> n. supervised t \<and> t = loop_state options deadline events k"
proof (induction rule: supervise.raw_induct [rotated 1, consumes 1, case_names step])
  case (step supervise options deadline events n s t)
  show ?case
  proof (cases "supervised s")
    case True
    with step show ?thesis by auto
  next
    case False
    with step.prems step.hyps step.IH [of options deadline events "Suc n" _ t] show ?thesis
      by (auto dest: Suc_leD)
  qed
qed

lemma supervise_returns:
  assumes "supervised (loop_state options deadline events k)" "n \<le> k"
  shows "\<exists>t. supervise options deadline events n (loop_state options deadline events n) = Some t"
  using assms(2)
proof (induction "k - n" arbitrary: n)
  case 0
  then have "n = k" by simp
  then show ?case using assms(1) by (subst supervise.simps) simp
next
  case (Suc d)
  then have "d = k - Suc n" "Suc n \<le> k" by simp_all
  from Suc.hyps(1) [OF this] show ?case by (subst supervise.simps) simp
qed

section \<open>Invariants of the loop\<close>

text \<open>
  A property of the supervision that no part of an iteration can break holds after the iteration.
  Each part may use what the earlier ones have established.
\<close>

lemma loop_step_rest:
  assumes "P (check_grace options ev (check_deadline deadline ev (check_cancellation ev s)))"
    and failure: "\<And>s message. P s \<Longrightarrow> message \<noteq> [] \<Longrightarrow>
        P (request_termination Process_Cancelled (lv_clock ev) (s\<lparr>sv_poll_error := message\<rparr>))"
    and read: "\<And>s outcome. P s \<Longrightarrow> P (read_output options ev outcome s)"
    and error: "\<And>s outcome. P s \<Longrightarrow> P (read_error options outcome s)"
    and invalid: "\<And>s a b. P s \<Longrightarrow> P (drop_invalid a b s)"
    and reap: "\<And>s. P s \<Longrightarrow> P (reap_child ev s)"
  shows "P (loop_step options deadline ev s)"
proof -
  have served: "P s \<Longrightarrow> P (serve options ev out err s)" for s out err
    unfolding serve_def by (intro reap invalid error read)
  show ?thesis
    using assms(1) by (auto simp: loop_step_def Let_def intro!: served failure split: poll_outcome.split)
qed

lemma loop_step_invariant:
  assumes "P s"
    and request: "\<And>s reason. P s \<Longrightarrow> R reason \<Longrightarrow> P (request_termination reason (lv_clock ev) s)"
    and limits: "lv_cancelled ev \<Longrightarrow> R Process_Cancelled"
      "\<And>d. deadline = Some d \<Longrightarrow> d \<le> lv_now ev \<Longrightarrow> R Process_Timed_Out"
    and kill: "\<And>s. P s \<Longrightarrow> P (check_grace options ev s)"
    and failure: "\<And>s message. P s \<Longrightarrow> message \<noteq> [] \<Longrightarrow>
        P (request_termination Process_Cancelled (lv_clock ev) (s\<lparr>sv_poll_error := message\<rparr>))"
    and read: "\<And>s outcome. P s \<Longrightarrow> P (read_output options ev outcome s)"
    and error: "\<And>s outcome. P s \<Longrightarrow> P (read_error options outcome s)"
    and invalid: "\<And>s a b. P s \<Longrightarrow> P (drop_invalid a b s)"
    and reap: "\<And>s. P s \<Longrightarrow> P (reap_child ev s)"
  shows "P (loop_step options deadline ev s)"
proof -
  have "P (check_cancellation ev s)"
    using assms(1) limits(1) by (auto simp: check_cancellation_def intro: request)
  then have "P (check_deadline deadline ev (check_cancellation ev s))"
    using limits(2) by (auto simp: check_deadline_def intro: request split: option.split)
  then have "P (check_grace options ev (check_deadline deadline ev (check_cancellation ev s)))"
    by (rule kill)
  then show ?thesis by (rule loop_step_rest) (fact failure read error invalid reap)+
qed

lemma loop_state_invariant:
  assumes "P 0 start_supervision"
    and "\<And>n. P n (loop_state options deadline events n) \<Longrightarrow>
      P (Suc n) (loop_step options deadline (events n) (loop_state options deadline events n))"
  shows "P n (loop_state options deadline events n)"
  using assms by (induction n) simp_all

lemmas part_defs = request_termination_def signal_process_group_def check_grace_def read_output_def
  read_error_def drop_invalid_def reap_child_def

section \<open>Signals\<close>

text \<open>
  Nothing is sent before the end is requested; then the group is asked to stop, and killed at most
  once, after the grace period.
\<close>

definition signals_ok :: "supervision \<Rightarrow> bool" where
  "signals_ok s \<longleftrightarrow>
     (if sv_requested s then
        sv_started s \<noteq> None \<and> sv_signals s = (if sv_kill_sent s then [sigterm, sigkill] else [sigterm]) \<and>
        ps_termination (sv_result s) \<in> {Process_Timed_Out, Process_Cancelled, Output_Limit_Exceeded}
      else
        sv_started s = None \<and> sv_signals s = [] \<and> \<not> sv_kill_sent s \<and>
        ps_termination (sv_result s) \<in> {Exited, Signaled})"

definition patient :: "process_options \<Rightarrow> (nat \<Rightarrow> loop_event) \<Rightarrow> nat \<Rightarrow> supervision \<Rightarrow> bool" where
  "patient options events n s \<longleftrightarrow> (sv_kill_sent s \<longrightarrow>
     (\<exists>t. sv_started s = Some t \<and> (\<exists>m < n. nanoseconds (pr_grace options) \<le> lv_now (events m) - t)))"

definition controlled :: "process_options \<Rightarrow> (nat \<Rightarrow> loop_event) \<Rightarrow> nat \<Rightarrow> supervision \<Rightarrow> bool" where
  "controlled options events n s \<longleftrightarrow> signals_ok s \<and> patient options events n s"

text \<open>A part of an iteration that only reads or reaps changes none of the fields that matter here.\<close>

definition same_control :: "supervision \<Rightarrow> supervision \<Rightarrow> bool" where
  "same_control s t \<longleftrightarrow> sv_requested t = sv_requested s \<and> sv_started t = sv_started s \<and>
     sv_signals t = sv_signals s \<and> sv_kill_sent t = sv_kill_sent s \<and>
     (ps_termination (sv_result t) = ps_termination (sv_result s) \<or>
        \<not> sv_requested s \<and> ps_termination (sv_result t) = Signaled)"

lemma controlled_same: "controlled options events n s \<Longrightarrow> same_control s t \<Longrightarrow> controlled options events n t"
  unfolding controlled_def signals_ok_def patient_def same_control_def by auto

lemma controlled_request:
  "controlled options events n s \<Longrightarrow> reason \<in> {Process_Timed_Out, Process_Cancelled, Output_Limit_Exceeded} \<Longrightarrow>
     controlled options events n (request_termination reason clock s)"
  by (cases "sv_requested s")
    (auto simp: controlled_def signals_ok_def patient_def request_termination_def signal_process_group_def)

lemma controlled_grace:
  "controlled options events (Suc n) s \<Longrightarrow> controlled options events (Suc n) (check_grace options (events n) s)"
  by (cases "sv_started s")
    (auto simp: controlled_def signals_ok_def patient_def check_grace_def signal_process_group_def split: if_splits)

lemma same_control_parts:
  "same_control s (read_error options ready s)" "same_control s (drop_invalid a b s)"
  "same_control s (s\<lparr>sv_poll_error := message\<rparr>)" "same_control s (s\<lparr>sv_reaped := True\<rparr>)"
  "same_control s (s\<lparr>sv_result := (sv_result s)\<lparr>ps_output := content\<rparr>, sv_output_open := still_open\<rparr>)"
  by (auto simp: same_control_def read_error_def drop_invalid_def Let_def split: option.split prod.split)

lemma controlled_read:
  assumes "controlled options events n s"
  shows "controlled options events n (read_output options ev ready s)"
proof -
  note s = controlled_same [OF assms same_control_parts(5)]
  show ?thesis
    using assms s controlled_request [OF s]
    by (auto simp: read_output_def Let_def split: option.split prod.split)
qed

lemma controlled_reap:
  assumes "controlled options events n s"
  shows "controlled options events n (reap_child ev s)"
proof (cases "lv_wait ev")
  case (Wait_Failed message)
  show ?thesis
    using assms controlled_same [OF controlled_request [OF controlled_same [OF assms same_control_parts(3)]]
        same_control_parts(4)]
    by (simp add: reap_child_def Wait_Failed)
qed (use assms in \<open>auto simp: reap_child_def same_control_def elim!: controlled_same\<close>)

lemma controlled_step:
  assumes "controlled options events n s"
  shows "controlled options events (Suc n) (loop_step options deadline (events n) s)"
proof (rule loop_step_invariant [where R = "\<lambda>reason. reason \<in> {Process_Timed_Out, Process_Cancelled}"])
  show "controlled options events (Suc n) s"
    using assms by (auto simp: controlled_def patient_def less_Suc_eq)
  show "controlled options events (Suc n) (request_termination Process_Cancelled (lv_clock (events n))
      (t\<lparr>sv_poll_error := message\<rparr>))" if "controlled options events (Suc n) t" for t message
    using that by (intro controlled_request controlled_same [OF _ same_control_parts(3)]) auto
qed (auto intro: controlled_request controlled_grace controlled_read controlled_reap
    controlled_same [OF _ same_control_parts(1)] controlled_same [OF _ same_control_parts(2)])

lemma loop_controlled: "controlled options events n (loop_state options deadline events n)"
  by (rule loop_state_invariant)
    (simp_all add: controlled_step, simp add: controlled_def signals_ok_def patient_def start_supervision_def)

section \<open>Causes\<close>

definition caused :: "int option \<Rightarrow> (nat \<Rightarrow> loop_event) \<Rightarrow> nat \<Rightarrow> supervision \<Rightarrow> bool" where
  "caused deadline events n s \<longleftrightarrow>
     (ps_termination (sv_result s) = Process_Timed_Out \<longrightarrow>
        (\<exists>d. deadline = Some d \<and> (\<exists>m < n. d \<le> lv_now (events m)))) \<and>
     (ps_termination (sv_result s) = Process_Cancelled \<longrightarrow>
        sv_poll_error s \<noteq> [] \<or> (\<exists>m < n. lv_cancelled (events m)))"

lemma caused_same:
  assumes "caused deadline events n s"
    and "ps_termination (sv_result t) \<in> {ps_termination (sv_result s), Signaled, Output_Limit_Exceeded}"
    and "sv_poll_error t = sv_poll_error s \<or> sv_poll_error t \<noteq> []"
  shows "caused deadline events n t"
  using assms by (auto simp: caused_def)

lemma caused_request:
  assumes "caused deadline events n s"
    and "reason = Process_Timed_Out \<Longrightarrow> \<exists>d. deadline = Some d \<and> (\<exists>m < n. d \<le> lv_now (events m))"
    and "reason = Process_Cancelled \<Longrightarrow> sv_poll_error s \<noteq> [] \<or> (\<exists>m < n. lv_cancelled (events m))"
  shows "caused deadline events n (request_termination reason clock s)"
  using assms by (auto simp: caused_def request_termination_def signal_process_group_def)

lemma termination_read_output:
  "ps_termination (sv_result (read_output options ev ready s)) \<in>
     {ps_termination (sv_result s), Output_Limit_Exceeded}"
  "sv_poll_error (read_output options ev ready s) = sv_poll_error s"
  by (auto simp: read_output_def request_termination_def signal_process_group_def Let_def split: option.split prod.split)

lemma termination_grace [simp]:
  "sv_result (check_grace options ev s) = sv_result s" "sv_poll_error (check_grace options ev s) = sv_poll_error s"
  "sv_requested (check_grace options ev s) = sv_requested s"
  by (simp_all add: check_grace_def signal_process_group_def split: option.split)

lemma termination_parts [simp]:
  "ps_termination (sv_result (read_error options ready s)) = ps_termination (sv_result s)"
  "sv_poll_error (read_error options ready s) = sv_poll_error s"
  "sv_result (drop_invalid a b s) = sv_result s" "sv_poll_error (drop_invalid a b s) = sv_poll_error s"
  by (simp_all add: read_error_def drop_invalid_def Let_def split: option.split prod.split)

lemma caused_failure:
  assumes "caused deadline events n s" "message \<noteq> []"
  shows "caused deadline events n (request_termination Process_Cancelled clock (s\<lparr>sv_poll_error := message\<rparr>))"
  by (rule caused_request [OF caused_same [OF assms(1)]]) (simp_all add: assms(2))

lemma caused_reap:
  assumes "caused deadline events n s"
  shows "caused deadline events n (reap_child ev s)"
proof (cases "lv_wait ev")
  case (Wait_Failed message)
  let ?s = "request_termination Process_Cancelled (lv_clock ev)
      (s\<lparr>sv_poll_error := ''cannot wait for child process: '' @ message\<rparr>)"
  have "caused deadline events n ?s" by (rule caused_failure [OF assms]) simp
  then have "caused deadline events n (?s\<lparr>sv_reaped := True\<rparr>)" by (rule caused_same) simp_all
  with assms show ?thesis by (simp add: reap_child_def Wait_Failed)
qed (use assms in \<open>auto simp: reap_child_def elim!: caused_same\<close>)

lemma caused_step:
  assumes "caused deadline events n s"
  shows "caused deadline events (Suc n) (loop_step options deadline (events n) s)"
proof (rule loop_step_invariant [where R = "\<lambda>reason. reason = Process_Cancelled \<and> lv_cancelled (events n) \<or>
      reason = Process_Timed_Out \<and> (\<exists>d. deadline = Some d \<and> d \<le> lv_now (events n))"])
  show "caused deadline events (Suc n) s" using assms by (auto simp: caused_def less_Suc_eq)
  show "caused deadline events (Suc n) (read_output options (events n) ready t)"
    if "caused deadline events (Suc n) t" for t ready
    using that termination_read_output [of options "events n" ready t] by (intro caused_same [OF that]) auto
qed (auto intro: caused_failure caused_reap elim: caused_same intro!: caused_request)

lemma loop_caused: "caused deadline events n (loop_state options deadline events n)"
  by (rule loop_state_invariant) (simp_all add: caused_step, simp add: caused_def start_supervision_def)

section \<open>Output\<close>

text \<open>What an iteration reads from the standard output of the child.\<close>

definition output_bytes :: "loop_event \<Rightarrow> supervision \<Rightarrow> string" where
  "output_bytes ev s =
     (case lv_poll ev of
        Polled (Some (Read_Bytes bytes), _) _ \<Rightarrow> if sv_output_open s then bytes else []
      | _ \<Rightarrow> [])"

definition received :: "process_options \<Rightarrow> int option \<Rightarrow> (nat \<Rightarrow> loop_event) \<Rightarrow> nat \<Rightarrow> string" where
  "received options deadline events n =
     concat (map (\<lambda>m. output_bytes (events m) (loop_state options deadline events m)) [0..<n])"

definition within :: "nat \<Rightarrow> string \<Rightarrow> bool" where
  "within limit x \<longleftrightarrow> limit = 0 \<or> length x \<le> limit"

definition clip :: "nat \<Rightarrow> string \<Rightarrow> string" where
  "clip limit x = (if limit = 0 then x else take limit x)"

lemma append_available_clip:
  assumes "append_available outcome limit (clip limit x) = (content, still_open, exceeded)"
    and "bytes = (case outcome of Read_Bytes b \<Rightarrow> b | _ \<Rightarrow> [])"
  shows "content = clip limit (x @ bytes)" "\<not> exceeded \<Longrightarrow> within limit x \<Longrightarrow> within limit (x @ bytes)"
    "exceeded \<Longrightarrow> \<not> within limit (x @ bytes)"
  using assms
  by (auto simp: append_available_def clip_def within_def min_def not_le split: read_outcome.splits if_splits)

definition output_ok :: "nat \<Rightarrow> string \<Rightarrow> supervision \<Rightarrow> bool" where
  "output_ok limit x s \<longleftrightarrow> ps_output (sv_result s) = clip limit x \<and> (\<not> sv_requested s \<longrightarrow> within limit x) \<and>
     (ps_termination (sv_result s) = Output_Limit_Exceeded \<longrightarrow> \<not> within limit x)"

lemma output_ok_same:
  assumes "output_ok limit x s" "ps_output (sv_result t) = ps_output (sv_result s)" "sv_requested s \<Longrightarrow> sv_requested t"
    and "ps_termination (sv_result t) = Output_Limit_Exceeded \<Longrightarrow> ps_termination (sv_result s) = Output_Limit_Exceeded"
  shows "output_ok limit x t"
  using assms by (auto simp: output_ok_def)

lemma output_ok_request:
  assumes "output_ok limit x s" "reason \<noteq> Output_Limit_Exceeded"
  shows "output_ok limit x (request_termination reason clock s)"
  using assms by (auto simp: output_ok_def request_termination_def signal_process_group_def)

lemma output_ok_checks:
  assumes "output_ok limit x s"
  shows "output_ok limit x (check_grace options ev (check_deadline deadline ev (check_cancellation ev s)))"
proof -
  have "output_ok limit x (check_cancellation ev s)"
    using assms by (simp add: check_cancellation_def output_ok_request)
  then have "output_ok limit x (check_deadline deadline ev (check_cancellation ev s))"
    by (simp add: check_deadline_def output_ok_request split: option.split)
  then show ?thesis
    by (rule output_ok_same) simp_all
qed

lemma output_ok_read:
  assumes "output_ok (pr_output_limit options) x s"
    and "bytes = (case ready of Some (Read_Bytes b) \<Rightarrow> if sv_output_open s then b else [] | _ \<Rightarrow> [])"
  shows "output_ok (pr_output_limit options) (x @ bytes) (read_output options ev ready s)"
proof (cases "ready = None \<or> \<not> sv_output_open s")
  case True
  then show ?thesis using assms by (auto simp: read_output_def split: option.split read_outcome.split)
next
  case False
  then obtain outcome where outcome: "ready = Some outcome" by (cases ready) simp_all
  obtain content still_open exceeded where a:
    "append_available outcome (pr_output_limit options) (clip (pr_output_limit options) x) = (content, still_open, exceeded)"
    by (metis prod_cases3)
  have "bytes = (case outcome of Read_Bytes b \<Rightarrow> b | _ \<Rightarrow> [])" using assms(2) outcome False by (simp split: read_outcome.split)
  note read = append_available_clip [OF a this]
  have grow: "\<not> within (pr_output_limit options) x \<Longrightarrow> \<not> within (pr_output_limit options) (x @ bytes)"
    by (auto simp: within_def)
  show ?thesis
    using assms(1) outcome False a read grow
    by (auto simp: read_output_def Let_def output_ok_def request_termination_def signal_process_group_def)
qed

lemma output_ok_rest:
  assumes "output_ok limit x s"
  shows "output_ok limit x (reap_child ev (drop_invalid a b (read_error options ready s)))"
proof -
  let ?s = "drop_invalid a b (read_error options ready s)"
  have s: "output_ok limit x ?s"
    using assms by (auto simp: output_ok_def read_error_def drop_invalid_def Let_def split: option.split prod.split)
  show ?thesis
  proof (cases "lv_wait ev")
    case (Wait_Failed message)
    then show ?thesis
      using s by (auto simp: reap_child_def output_ok_def request_termination_def signal_process_group_def)
  qed (use s in \<open>auto simp: reap_child_def output_ok_def\<close>)
qed

lemma open_checks [simp]:
  "sv_output_open (check_grace options ev (check_deadline deadline ev (check_cancellation ev s))) = sv_output_open s"
  by (simp add: check_grace_def check_deadline_def check_cancellation_def request_termination_def
      signal_process_group_def split: option.split)

lemma output_ok_step:
  assumes "output_ok (pr_output_limit options) x s"
  shows "output_ok (pr_output_limit options) (x @ output_bytes ev s) (loop_step options deadline ev s)"
proof -
  note checked = output_ok_checks [OF assms, of options ev deadline]
  show ?thesis
  proof (cases "lv_poll ev")
    case Poll_Interrupted
    then show ?thesis using checked by (simp add: loop_step_def output_bytes_def)
  next
    case (Poll_Failed message)
    let ?s = "check_grace options ev (check_deadline deadline ev (check_cancellation ev s))"
    have "output_ok (pr_output_limit options) x
        (request_termination Process_Cancelled (lv_clock ev)
          (?s\<lparr>sv_poll_error := ''cannot poll child process: '' @ message\<rparr>))"
      by (rule output_ok_request) (use checked in \<open>simp_all add: output_ok_def\<close>)
    from output_ok_rest [OF output_ok_read [OF this refl, where ready = None]] Poll_Failed show ?thesis
      by (simp add: loop_step_def output_bytes_def serve_def)
  next
    case (Polled out err)
    have bytes: "output_bytes ev s = (case fst out of Some (Read_Bytes b) \<Rightarrow> if sv_output_open s then b else [] | _ \<Rightarrow> [])"
      using Polled by (cases out) (simp add: output_bytes_def split: option.split)
    show ?thesis
      unfolding loop_step_def serve_def Let_def Polled poll_outcome.case
      by (rule output_ok_rest [OF output_ok_read [OF checked]]) (simp add: bytes split: option.split read_outcome.split)
  qed
qed

lemma loop_output:
  "output_ok (pr_output_limit options) (received options deadline events n) (loop_state options deadline events n)"
proof (induction n)
  case 0
  then show ?case by (simp add: output_ok_def received_def start_supervision_def clip_def within_def)
next
  case (Suc n)
  from output_ok_step [OF this] show ?case by (simp add: received_def)
qed


definition quiet_event :: "nat \<Rightarrow> loop_event" where
  "quiet_event n = \<lparr>lv_now = int n * 1000000000, lv_cancelled = False, lv_clock = int n * 1000000000,
     lv_poll = Polled (None, False) (None, False), lv_wait = Wait_Nothing\<rparr>"

text \<open>A child that writes two bytes and ends.\<close>

definition sample_events :: "nat \<Rightarrow> loop_event" where
  "sample_events n =
     (if n = 0 then (quiet_event 0)\<lparr>lv_poll := Polled (Some (Read_Bytes ''ab''), False) (None, False)\<rparr>
      else (quiet_event n)\<lparr>lv_poll := Polled (Some (Read_Bytes []), False) (Some (Read_Bytes []), False),
        lv_wait := Wait_Exited 0\<rparr>)"

definition limited_options :: process_options where
  "limited_options = default_options\<lparr>pr_output_limit := 1\<rparr>"

lemma sample_supervision:
  "run_process [''clang''] limited_options (Launched 0) sample_events =
     Some (Inr \<lparr>ps_exit_code = 0, ps_signal = 0, ps_termination = Output_Limit_Exceeded, ps_output = ''a'', ps_error = []\<rparr>)"
  unfolding run_process_def
  by (simp, subst supervise.simps, simp add: start_supervision_def supervised_def,
      subst supervise.simps, simp add: loop_step_def check_cancellation_def check_deadline_def check_grace_def
        deadline_of_def limited_options_def default_options_def sample_events_def quiet_event_def serve_def
        read_output_def append_available_def read_error_def drop_invalid_def reap_child_def
        request_termination_def signal_process_group_def supervised_def nanoseconds_def,
      subst supervise.simps, simp add: supervised_def end_result_def)


section \<open>Ending\<close>

definition ends_stream :: "descriptor_event \<Rightarrow> bool" where
  "ends_stream = (\<lambda>(ready, invalid). invalid \<or> ready = Some (Read_Bytes []) \<or> ready = Some Read_Broken)"

definition output_ends :: "loop_event \<Rightarrow> bool" where
  "output_ends ev \<longleftrightarrow> (case lv_poll ev of Polled out err \<Rightarrow> ends_stream out | _ \<Rightarrow> False)"

definition error_ends :: "loop_event \<Rightarrow> bool" where
  "error_ends ev \<longleftrightarrow> (case lv_poll ev of Polled out err \<Rightarrow> ends_stream err | _ \<Rightarrow> False)"

definition child_ends :: "loop_event \<Rightarrow> bool" where
  "child_ends ev \<longleftrightarrow> lv_poll ev \<noteq> Poll_Interrupted \<and> lv_wait ev \<noteq> Wait_Nothing"

lemma request_simps [simp]:
  "sv_output_open (request_termination reason clock s) = sv_output_open s"
  "sv_error_open (request_termination reason clock s) = sv_error_open s"
  "sv_reaped (request_termination reason clock s) = sv_reaped s"
  "sv_requested (request_termination reason clock s)"
  "sv_kill_sent (request_termination reason clock s) = sv_kill_sent s"
  by (simp_all add: request_termination_def signal_process_group_def)

lemma part_simps [simp]:
  "sv_output_open (check_grace options ev s) = sv_output_open s"
  "sv_error_open (check_grace options ev s) = sv_error_open s"
  "sv_reaped (check_grace options ev s) = sv_reaped s"
  "sv_output_open (read_error options ready s) = sv_output_open s"
  "sv_reaped (read_error options ready s) = sv_reaped s"
  "sv_requested (read_error options ready s) = sv_requested s"
  "sv_kill_sent (read_error options ready s) = sv_kill_sent s"
  "sv_error_open (read_output options ev ready s) = sv_error_open s"
  "sv_reaped (read_output options ev ready s) = sv_reaped s"
  "sv_kill_sent (read_output options ev ready s) = sv_kill_sent s"
  "sv_output_open (drop_invalid a b s) \<longleftrightarrow> sv_output_open s \<and> \<not> a"
  "sv_error_open (drop_invalid a b s) \<longleftrightarrow> sv_error_open s \<and> \<not> b"
  "sv_reaped (drop_invalid a b s) = sv_reaped s" "sv_requested (drop_invalid a b s) = sv_requested s"
  "sv_kill_sent (drop_invalid a b s) = sv_kill_sent s"
  "sv_output_open (reap_child ev s) = sv_output_open s" "sv_error_open (reap_child ev s) = sv_error_open s"
  "sv_kill_sent (reap_child ev s) = sv_kill_sent s"
  by (simp_all add: check_grace_def read_error_def read_output_def drop_invalid_def reap_child_def Let_def
      signal_process_group_def split: option.split prod.split wait_outcome.split)

lemma check_simps [simp]:
  "sv_output_open (check_deadline deadline ev s) = sv_output_open s"
  "sv_output_open (check_cancellation ev s) = sv_output_open s"
  by (simp_all add: check_deadline_def check_cancellation_def split: option.split)

lemma part_once:
  "sv_reaped s \<Longrightarrow> sv_reaped (reap_child ev s)"
  "\<not> sv_output_open s \<Longrightarrow> \<not> sv_output_open (read_output options ev ready s)"
  "\<not> sv_error_open s \<Longrightarrow> \<not> sv_error_open (read_error options ready s)"
  "sv_requested s \<Longrightarrow> sv_requested (read_output options ev ready s)"
  "sv_requested s \<Longrightarrow> sv_requested (reap_child ev s)"
  "sv_kill_sent s \<Longrightarrow> sv_kill_sent (check_grace options ev s)"
  by (auto simp: reap_child_def read_output_def read_error_def check_grace_def signal_process_group_def Let_def
      split: option.split prod.split wait_outcome.split)

text \<open>What has ended stays ended.\<close>

lemma loop_step_once:
  "sv_reaped s \<Longrightarrow> sv_reaped (loop_step options deadline ev s)"
  "\<not> sv_output_open s \<Longrightarrow> \<not> sv_output_open (loop_step options deadline ev s)"
  "\<not> sv_error_open s \<Longrightarrow> \<not> sv_error_open (loop_step options deadline ev s)"
  "sv_kill_sent s \<Longrightarrow> sv_kill_sent (loop_step options deadline ev s)"
  "sv_requested s \<Longrightarrow> sv_requested (loop_step options deadline ev s)"
  by (rule loop_step_invariant [where R = "\<lambda>_. True"]; simp add: part_once)+

lemma read_ends:
  "ends_stream out \<Longrightarrow> sv_output_open (read_output options ev (fst out) s) \<Longrightarrow> snd out"
  "ends_stream err \<Longrightarrow> sv_error_open (read_error options (fst err) s) \<Longrightarrow> snd err"
  by (auto simp: ends_stream_def read_output_def read_error_def append_available_def Let_def split: if_splits)

lemma reap_ends: "lv_wait ev \<noteq> Wait_Nothing \<Longrightarrow> sv_reaped (reap_child ev s)"
  by (simp add: reap_child_def split: wait_outcome.split)

lemma serve_ends:
  "ends_stream out \<Longrightarrow> \<not> sv_output_open (serve options ev out err s)"
  "ends_stream err \<Longrightarrow> \<not> sv_error_open (serve options ev out err s)"
  "lv_wait ev \<noteq> Wait_Nothing \<Longrightarrow> sv_reaped (serve options ev out err s)"
  by (auto simp: serve_def reap_ends dest: read_ends)

lemma loop_step_ends:
  "output_ends ev \<Longrightarrow> \<not> sv_output_open (loop_step options deadline ev s)"
  "error_ends ev \<Longrightarrow> \<not> sv_error_open (loop_step options deadline ev s)"
  "child_ends ev \<Longrightarrow> sv_reaped (loop_step options deadline ev s)"
  by (cases "lv_poll ev"; simp add: output_ends_def error_ends_def child_ends_def loop_step_def serve_ends)+

lemma loop_step_requests:
  assumes "deadline = Some d" "d \<le> lv_now ev"
  shows "sv_requested (loop_step options deadline ev s)"
  by (rule loop_step_rest) (use assms in \<open>auto simp: check_deadline_def part_once\<close>)

lemma loop_step_kills:
  assumes "sv_requested s" "sv_started s = Some t" "nanoseconds (pr_grace options) \<le> lv_now ev - t"
  shows "sv_kill_sent (loop_step options deadline ev s)"
  by (rule loop_step_rest)
    (use assms in \<open>auto simp: check_deadline_def check_cancellation_def check_grace_def signal_process_group_def
      split: option.split\<close>)

lemma loop_step_started:
  assumes "sv_requested s" "sv_started s = Some t"
  shows "sv_requested (loop_step options deadline ev s) \<and> sv_started (loop_step options deadline ev s) = Some t"
  by (rule loop_step_invariant [where R = "\<lambda>_. True"])
    (use assms in \<open>auto simp: part_defs Let_def split: option.split prod.split wait_outcome.split\<close>)

lemma loop_keeps:
  assumes "\<And>n. Q (loop_state options deadline events n) \<Longrightarrow> Q (loop_state options deadline events (Suc n))"
    and "Q (loop_state options deadline events n)" "n \<le> m"
  shows "Q (loop_state options deadline events m)"
  using assms(3)
proof (induction rule: dec_induct)
  case (step k)
  then show ?case by (intro assms(1))
qed (rule assms(2))

lemma loop_stays:
  assumes "n \<le> m"
  shows "\<not> sv_output_open (loop_state options deadline events n) \<Longrightarrow> \<not> sv_output_open (loop_state options deadline events m)"
    "\<not> sv_error_open (loop_state options deadline events n) \<Longrightarrow> \<not> sv_error_open (loop_state options deadline events m)"
    "sv_reaped (loop_state options deadline events n) \<Longrightarrow> sv_reaped (loop_state options deadline events m)"
  using loop_keeps [where Q = "\<lambda>s. \<not> sv_output_open s", OF _ _ assms]
    loop_keeps [where Q = "\<lambda>s. \<not> sv_error_open s", OF _ _ assms]
    loop_keeps [where Q = sv_reaped, OF _ _ assms]
  by (simp_all add: loop_step_once)

lemma loop_ends:
  assumes "\<exists>m. output_ends (events m)" "\<exists>m. error_ends (events m)" "\<exists>m. child_ends (events m)"
  shows "\<exists>t. supervise options deadline events 0 start_supervision = Some t"
proof -
  let ?s = "loop_state options deadline events"
  from assms obtain a b c where "output_ends (events a)" "error_ends (events b)" "child_ends (events c)" by blast
  then have ended: "\<not> sv_output_open (?s (Suc a))" "\<not> sv_error_open (?s (Suc b))" "sv_reaped (?s (Suc c))"
    by (simp_all add: loop_step_ends)
  let ?k = "Suc a + Suc b + Suc c"
  have "Suc a \<le> ?k" "Suc b \<le> ?k" "Suc c \<le> ?k" by simp_all
  from loop_stays(1) [OF this(1) ended(1)] loop_stays(2) [OF this(2) ended(2)] loop_stays(3) [OF this(3) ended(3)]
  have "supervised (?s ?k)" unfolding supervised_def by blast
  from supervise_returns [OF this, of 0] show ?thesis by simp
qed

text \<open>The system obeys: once the group has been killed, its pipes are closed and the child is reaped.\<close>

definition obeys_kill :: "process_options \<Rightarrow> int option \<Rightarrow> (nat \<Rightarrow> loop_event) \<Rightarrow> bool" where
  "obeys_kill options deadline events \<longleftrightarrow> (\<forall>n. sigkill \<in> set (sv_signals (loop_state options deadline events n)) \<longrightarrow>
     (\<exists>m \<ge> n. output_ends (events m)) \<and> (\<exists>m \<ge> n. error_ends (events m)) \<and> (\<exists>m \<ge> n. child_ends (events m)))"

definition clock_runs :: "(nat \<Rightarrow> loop_event) \<Rightarrow> bool" where
  "clock_runs events \<longleftrightarrow> (\<forall>x. \<exists>n. \<forall>m \<ge> n. x \<le> lv_now (events m))"

text \<open>
  C38: A run with a time limit returns. Whatever the child does, if the clock runs and the operating
  system closes the pipes of a killed process group and lets the child be reaped, then the loop
  ends: it asks the group to stop when the limit has passed and kills it after the grace period.
\<close>
theorem timed_run_returns:
  assumes "pr_timeout options = Some timeout" "clock_runs events"
    and "obeys_kill options (deadline_of options now) events"
  shows "\<exists>r. run_process arguments options (Launched now) events = Some r"
proof -
  let ?d = "deadline_of options now"
  let ?s = "loop_state options ?d events"
  obtain d where d: "?d = Some d" using assms(1) by (simp add: deadline_of_def)
  from assms(2) obtain n where "d \<le> lv_now (events n)" unfolding clock_runs_def by blast
  then have requested: "sv_requested (?s (Suc n))" using loop_step_requests [OF d] by simp
  then obtain t where t: "sv_started (?s (Suc n)) = Some t"
    using loop_controlled [of options events "Suc n" ?d] by (auto simp: controlled_def signals_ok_def)
  from assms(2) obtain k where k: "\<forall>m \<ge> k. nanoseconds (pr_grace options) + t \<le> lv_now (events m)"
    unfolding clock_runs_def by blast
  let ?m = "k + Suc n"
  have "sv_requested (?s ?m) \<and> sv_started (?s ?m) = Some t"
    by (rule loop_keeps [where n = "Suc n" and Q = "\<lambda>s. sv_requested s \<and> sv_started s = Some t"])
      (use loop_step_started requested t in auto)
  moreover have "nanoseconds (pr_grace options) \<le> lv_now (events ?m) - t" using k [rule_format, of ?m] by simp
  ultimately have "sv_kill_sent (?s (Suc ?m))" by (simp only: loop_state.simps loop_step_kills)
  then have "sigkill \<in> set (sv_signals (?s (Suc ?m)))"
    using loop_controlled [of options events "Suc ?m" ?d] by (simp add: controlled_def signals_ok_def split: if_splits)
  with assms(3) have "\<exists>m. output_ends (events m)" "\<exists>m. error_ends (events m)" "\<exists>m. child_ends (events m)"
    unfolding obeys_kill_def by blast+
  from loop_ends [OF this] show ?thesis by (auto simp: run_process_def)
qed

text \<open>A child that goes on until it is killed: everything ends from the fourth iteration on.\<close>

definition stubborn_events :: "nat \<Rightarrow> loop_event" where
  "stubborn_events n =
     (if n < 4 then quiet_event n
      else (quiet_event n)\<lparr>lv_poll := Polled (Some (Read_Bytes []), False) (Some (Read_Bytes []), False),
        lv_wait := Wait_Signaled 9\<rparr>)"

definition timed_options :: process_options where
  "timed_options = default_options\<lparr>pr_timeout := Some 1500\<rparr>"

lemma quiet_clock: "clock_runs quiet_event" "clock_runs stubborn_events"
proof -
  have "\<exists>n. \<forall>m \<ge> n. x \<le> int m * 1000000000" for x
    by (rule exI [of _ "nat x"]) (auto simp: nat_le_iff)
  then show "clock_runs quiet_event" "clock_runs stubborn_events"
    by (simp_all add: clock_runs_def quiet_event_def stubborn_events_def)
qed

lemma timed_run_returns_witness:
  "\<exists>r. run_process [''clang''] timed_options (Launched 0) stubborn_events = Some r"
proof (rule timed_run_returns [OF _ quiet_clock(2)])
  show "pr_timeout timed_options = Some 1500" by (simp add: timed_options_def)
  have "output_ends (stubborn_events (n + 4))" "error_ends (stubborn_events (n + 4))"
    "child_ends (stubborn_events (n + 4))" for n
    by (simp_all add: output_ends_def error_ends_def child_ends_def ends_stream_def stubborn_events_def quiet_event_def)
  then show "obeys_kill timed_options (deadline_of timed_options 0) stubborn_events"
    unfolding obeys_kill_def by (meson le_add1)
qed

text \<open>
  A process that leaves the group and keeps a pipe open is not reached by the signals: the run does
  not return, although the child itself was killed and reaped long ago.
\<close>

definition held_pipe_event :: "nat \<Rightarrow> loop_event" where
  "held_pipe_event n = (quiet_event n)\<lparr>lv_wait := (if n < 4 then Wait_Nothing else Wait_Signaled 9)\<rparr>"

lemma held_pipe_never_returns: "run_process (a # arguments) options (Launched now) held_pipe_event = None"
proof -
  have "sv_output_open (loop_state options deadline held_pipe_event n)" for deadline n
  proof (rule loop_state_invariant)
    fix n assume "sv_output_open (loop_state options deadline held_pipe_event n)"
    then show "sv_output_open (loop_step options deadline (held_pipe_event n) (loop_state options deadline held_pipe_event n))"
      by (simp add: loop_step_def held_pipe_event_def quiet_event_def serve_def read_output_def)
  qed (simp add: start_supervision_def)
  then have "\<not> supervised (loop_state options deadline held_pipe_event n)" for deadline n
    by (simp add: supervised_def)
  then have "supervise options deadline held_pipe_event 0 start_supervision = None" for deadline
    using supervise_reaches [of options deadline held_pipe_event 0 start_supervision] by (metis loop_state.simps(1) not_None_eq)
  then show ?thesis by (simp add: run_process_def)
qed

text \<open>A limit of more than about 292 years leaves the range of the clock and has passed at once.\<close>

lemma long_timeout_wraps:
  "deadline_of (default_options\<lparr>pr_timeout := Some 10000000000000\<rparr>) 0 = Some (- 8446744073709551616)"
  by (simp add: deadline_of_def wrap64_def nanoseconds_def default_options_def)

lemma poll_timeout_bounds: "0 \<le> poll_timeout deadline requested clock \<and> poll_timeout deadline requested clock \<le> 50"
  by (simp add: poll_timeout_def split: option.split)

end
