(* ===== verification/Command_Line.thy ===== *)
theory Command_Line
  imports Index_Run Build_Model
begin

text \<open>
  The command line of the program, \<open>src/main.cpp\<close>: the options, how the arguments set them, and the
  checks on their combination. \<open>--help\<close> and \<open>--version\<close> end the program where they stand, whatever
  follows them. An empty path is made absolute to the current directory.
\<close>

record cli_options =
  co_compilation_database :: string
  co_project_root :: string
  co_report_paths :: "string list"
  co_translation_unit_root :: "string option"
  co_excluded_paths :: "string list"
  co_output :: "string option"
  co_graph_output :: "string option"
  co_baseline_graph :: "string option"
  co_differential_policy :: "string option"
  co_cache_directory :: "string option"
  co_cmake_build_directory :: "string option"
  co_target_manifest :: "string option"
  co_format :: string
  co_configuration_id :: string
  co_configuration :: string
  co_target :: string
  co_clang :: string
  co_frontend :: index_frontend
  co_ast_filter :: string
  co_roots :: "string list"
  co_callback_rules :: "callback_rule list"
  co_provider_configs :: "string list"
  co_translation_unit_timeout :: int
  co_index_timeout :: int
  co_max_ast_bytes :: nat
  co_verbose :: bool
  co_clang_explicit :: bool
  co_configuration_id_explicit :: bool
  co_project_root_explicit :: bool
  co_fail_on_unreachable :: bool
  co_fail_on_diff :: bool
  co_no_cache :: bool

definition default_cli_options :: "filesystem \<Rightarrow> cli_options" where
  "default_cli_options fs =
     \<lparr>co_compilation_database = [], co_project_root = fs_cwd fs, co_report_paths = [],
      co_translation_unit_root = None, co_excluded_paths = [], co_output = None, co_graph_output = None,
      co_baseline_graph = None, co_differential_policy = None, co_cache_directory = None,
      co_cmake_build_directory = None, co_target_manifest = None, co_format = ''human'',
      co_configuration_id = ''default'', co_configuration = [], co_target = [], co_clang = ''clang++'',
      co_frontend = Ast_Json, co_ast_filter = [], co_roots = [], co_callback_rules = [],
      co_provider_configs = [], co_translation_unit_timeout = 0, co_index_timeout = 0,
      co_max_ast_bytes = 0, co_verbose = False, co_clang_explicit = False,
      co_configuration_id_explicit = False, co_project_root_explicit = False,
      co_fail_on_unreachable = False, co_fail_on_diff = False, co_no_cache = False\<rparr>"

definition usage_text :: string where
  "usage_text = concat (map (\<lambda>line. line @ newline)
     [''Usage: cxx-dead [compile_commands.json] [options]'',
      [],
      ''Application-mode whole-program C++ reachability prototype.'',
      [],
      ''Options:'',
      ''  --compile-commands PATH   Compilation database (default: compile_commands.json)'',
      ''  --project-root PATH       Index definitions below this workspace path (default: cwd)'',
      ''  --report-path PATH        Report definitions below this path (repeatable; default: project root)'',
      ''  --tu-root PATH            Analyze only translation units below this path'',
      ''  --exclude-path PATH       Exclude declarations below this path (repeatable)'',
      ''  --mode application       Analysis context; only application is supported in the MVP'',
      ''  --configuration-id ID    Stable build-configuration identity (default: default)'',
      ''  --cmake-build-dir PATH    Read target metadata from a CMake File API reply'',
      ''  --target-manifest PATH    Read target metadata from an explicit JSON manifest'',
      ''  --configuration NAME     Select a build-model configuration'',
      ''  --target NAME            Select one target by name or id'',
      ''  --root SYMBOL            Add a qualified or mangled symbol root (repeatable)'',
      ''  --callback-registration CALLEE:INDEX'',
      ''                           Treat zero-based callback argument INDEX as provider-reachable'',
      ''                           when CALLEE executes (repeatable)'',
      ''  --provider-config PATH   Load a versioned YAML reachability provider (repeatable)'',
      ''  --frontend NAME          Index frontend: ast-json or libtooling (default: ast-json)'',
      ''  --clang PATH              Clang executable used for AST indexing (default: clang++)'',
      ''  --ast-filter TEXT         Experimental frontend declaration-name filter'',
      ''  --tu-timeout SECONDS     Per-translation-unit AST JSON wall-time limit'',
      ''  --index-timeout SECONDS  Whole AST JSON indexing wall-time limit'',
      ''  --max-ast-bytes BYTES    Per-translation-unit AST JSON output limit'',
      ''  --format human|json|sarif'',
      ''                           Output format (default: human; SARIF requires a baseline and policy)'',
      ''  --output PATH             Write the report to a file'',
      ''  --graph-output PATH       Write deterministic graph artifact JSON to a file'',
      ''  --baseline-graph PATH     Compare the current analysis with this graph artifact'',
      ''  --diff-policy PATH        Apply a versioned YAML differential policy'',
      ''  --cache-dir PATH          Store reusable TU facts here (default: PROJECT/.cxx-dead/cache)'',
      ''  --no-cache                Disable translation-unit cache reads and writes'',
      ''  --fail-on-unreachable     Exit with status 2 when candidates are found'',
      ''  --fail-on-diff            Exit with status 2 on differential policy matches'',
      ''  --verbose                 Include Clang diagnostics and stage metrics'',
      ''  --help                    Show this help'',
      ''  --version                 Show the version''])"

section \<open>Single options\<close>

text \<open>\<open>std::from_chars\<close> for a 64-bit number that has to be the whole of the text.\<close>

definition whole_number :: "string \<Rightarrow> nat option" where
  "whole_number s =
     (if s \<noteq> [] \<and> list_all is_digit s \<and> decimal_value s < 2 ^ 64 then Some (decimal_value s) else None)"

definition bad_registration :: exn where
  "bad_registration = Runtime_Error ''--callback-registration must use CALLEE:INDEX with a zero-based index''"

text \<open>The last colon separates the registrar from the index.\<close>

definition parse_callback_registration :: "string \<Rightarrow> callback_rule result" where
  "parse_callback_registration v =
     (let index_text = rev (takeWhile (\<lambda>c. c \<noteq> CHR '':'') (rev v));
          rest = rev (dropWhile (\<lambda>c. c \<noteq> CHR '':'') (rev v))
      in if rest = [] \<or> butlast rest = [] \<or> index_text = [] then Inl bad_registration
         else
           case whole_number index_text of
             None \<Rightarrow> Inl bad_registration
           | Some index \<Rightarrow>
               Inr \<lparr>cr_callee = \<lparr>sel_id = [], sel_linkage_name = [], sel_qualified_name = butlast rest, sel_signature = []\<rparr>,
                 cr_argument_index = index,
                 cr_evidence = \<lparr>ev_provider = ''callback_registration'', ev_reason = []\<rparr>, cr_require_unique = False\<rparr>)"

text \<open>A limit in seconds, as milliseconds.\<close>

definition parse_seconds :: "string \<Rightarrow> string \<Rightarrow> int result" where
  "parse_seconds argument v =
     (case whole_number v of
        Some seconds \<Rightarrow>
          if seconds = 0 \<or> 9223372036854775 < seconds
          then Inl (Runtime_Error (argument @ '' must be a positive whole number of seconds''))
          else Inr (int seconds * 1000)
      | None \<Rightarrow> Inl (Runtime_Error (argument @ '' must be a positive whole number of seconds'')))"

definition parse_bytes :: "string \<Rightarrow> nat result" where
  "parse_bytes v =
     (case whole_number v of
        Some bytes \<Rightarrow> if bytes = 0 then Inl (Runtime_Error ''--max-ast-bytes must be a positive integer'') else Inr bytes
      | None \<Rightarrow> Inl (Runtime_Error ''--max-ast-bytes must be a positive integer''))"

text \<open>Options with a restricted value.\<close>

definition set_mode :: "string \<Rightarrow> cli_options \<Rightarrow> cli_options result" where
  "set_mode v c =
     (if v \<noteq> ''application'' then Inl (Runtime_Error ''only --mode application is supported'') else Inr c)"

definition set_configuration_id :: "string \<Rightarrow> cli_options \<Rightarrow> cli_options result" where
  "set_configuration_id v c =
     (if v = [] then Inl (Runtime_Error ''--configuration-id cannot be empty'')
      else Inr (c\<lparr>co_configuration_id := v, co_configuration_id_explicit := True\<rparr>))"

definition set_frontend :: "string \<Rightarrow> cli_options \<Rightarrow> cli_options result" where
  "set_frontend v c =
     (if v = ''ast-json'' then Inr (c\<lparr>co_frontend := Ast_Json\<rparr>)
      else if v = ''libtooling'' then Inr (c\<lparr>co_frontend := Lib_Tooling\<rparr>)
      else Inl (Runtime_Error ''--frontend must be ast-json or libtooling''))"

definition set_format :: "string \<Rightarrow> cli_options \<Rightarrow> cli_options result" where
  "set_format v c =
     (if v \<noteq> ''human'' \<and> v \<noteq> ''json'' \<and> v \<noteq> ''sarif'' then
        Inl (Runtime_Error ''--format must be human, json, or sarif'')
      else Inr (c\<lparr>co_format := v\<rparr>))"

text \<open>Options with a value.\<close>

definition valued_options :: "(string \<times> (string \<Rightarrow> cli_options \<Rightarrow> cli_options result)) list" where
  "valued_options =
     [(''--compile-commands'', \<lambda>v c. Inr (c\<lparr>co_compilation_database := v\<rparr>)),
      (''--project-root'', \<lambda>v c. Inr (c\<lparr>co_project_root := v, co_project_root_explicit := True\<rparr>)),
      (''--report-path'', \<lambda>v c. Inr (c\<lparr>co_report_paths := co_report_paths c @ [v]\<rparr>)),
      (''--tu-root'', \<lambda>v c. Inr (c\<lparr>co_translation_unit_root := Some v\<rparr>)),
      (''--exclude-path'', \<lambda>v c. Inr (c\<lparr>co_excluded_paths := co_excluded_paths c @ [v]\<rparr>)),
      (''--mode'', set_mode),
      (''--configuration-id'', set_configuration_id),
      (''--cmake-build-dir'', \<lambda>v c. Inr (c\<lparr>co_cmake_build_directory := Some v\<rparr>)),
      (''--target-manifest'', \<lambda>v c. Inr (c\<lparr>co_target_manifest := Some v\<rparr>)),
      (''--configuration'', \<lambda>v c. Inr (c\<lparr>co_configuration := v\<rparr>)),
      (''--target'', \<lambda>v c. Inr (c\<lparr>co_target := v\<rparr>)),
      (''--root'', \<lambda>v c. Inr (c\<lparr>co_roots := co_roots c @ [v]\<rparr>)),
      (''--callback-registration'', \<lambda>v c.
        rbind (parse_callback_registration v) (\<lambda>rule. Inr (c\<lparr>co_callback_rules := co_callback_rules c @ [rule]\<rparr>))),
      (''--provider-config'', \<lambda>v c. Inr (c\<lparr>co_provider_configs := co_provider_configs c @ [v]\<rparr>)),
      (''--frontend'', set_frontend),
      (''--clang'', \<lambda>v c. Inr (c\<lparr>co_clang := v, co_clang_explicit := True\<rparr>)),
      (''--ast-filter'', \<lambda>v c. Inr (c\<lparr>co_ast_filter := v\<rparr>)),
      (''--tu-timeout'', \<lambda>v c.
        rbind (parse_seconds ''--tu-timeout'' v) (\<lambda>t. Inr (c\<lparr>co_translation_unit_timeout := t\<rparr>))),
      (''--index-timeout'', \<lambda>v c.
        rbind (parse_seconds ''--index-timeout'' v) (\<lambda>t. Inr (c\<lparr>co_index_timeout := t\<rparr>))),
      (''--max-ast-bytes'', \<lambda>v c. rbind (parse_bytes v) (\<lambda>n. Inr (c\<lparr>co_max_ast_bytes := n\<rparr>))),
      (''--format'', set_format),
      (''--output'', \<lambda>v c. Inr (c\<lparr>co_output := Some v\<rparr>)),
      (''--graph-output'', \<lambda>v c. Inr (c\<lparr>co_graph_output := Some v\<rparr>)),
      (''--baseline-graph'', \<lambda>v c. Inr (c\<lparr>co_baseline_graph := Some v\<rparr>)),
      (''--diff-policy'', \<lambda>v c. Inr (c\<lparr>co_differential_policy := Some v\<rparr>)),
      (''--cache-dir'', \<lambda>v c. Inr (c\<lparr>co_cache_directory := Some v\<rparr>))]"

definition valued_option :: "string \<Rightarrow> (string \<Rightarrow> cli_options \<Rightarrow> cli_options result) option" where
  "valued_option = map_of valued_options"

definition switches :: "(string \<times> (cli_options \<Rightarrow> cli_options)) list" where
  "switches =
     [(''--no-cache'', \<lambda>c. c\<lparr>co_no_cache := True\<rparr>), (''--verbose'', \<lambda>c. c\<lparr>co_verbose := True\<rparr>),
      (''--fail-on-unreachable'', \<lambda>c. c\<lparr>co_fail_on_unreachable := True\<rparr>),
      (''--fail-on-diff'', \<lambda>c. c\<lparr>co_fail_on_diff := True\<rparr>)]"

definition switch :: "string \<Rightarrow> (cli_options \<Rightarrow> cli_options) option" where
  "switch = map_of switches"

definition positional :: "string \<Rightarrow> cli_options \<Rightarrow> cli_options result" where
  "positional argument c =
     (if take 1 argument = ''-'' then Inl (Runtime_Error (''unknown option: '' @ argument))
      else if co_compilation_database c = [] then Inr (c\<lparr>co_compilation_database := argument\<rparr>)
      else Inl (Runtime_Error (''unexpected positional argument: '' @ argument)))"

section \<open>All arguments\<close>

datatype cli_request = Help | Version | Analyze cli_options

fun parse_arguments :: "string list \<Rightarrow> cli_options \<Rightarrow> cli_request result" where
  "parse_arguments [] c = Inr (Analyze c)"
| "parse_arguments (argument # rest) c =
     (if argument = ''--help'' then Inr Help
      else if argument = ''--version'' then Inr Version
      else
        case valued_option argument of
          Some assign \<Rightarrow>
            (case rest of
               [] \<Rightarrow> Inl (Runtime_Error (argument @ '' requires a value''))
             | v # rest' \<Rightarrow> rbind (assign v c) (parse_arguments rest'))
        | None \<Rightarrow>
            (case switch argument of
               Some enable \<Rightarrow> parse_arguments rest (enable c)
             | None \<Rightarrow> rbind (positional argument c) (parse_arguments rest)))"

text \<open>The combinations that make no sense, in the order of the checks, before and after paths are made absolute.\<close>

definition build_metadata :: "cli_options \<Rightarrow> bool" where
  "build_metadata c \<longleftrightarrow> co_cmake_build_directory c \<noteq> None \<or> co_target_manifest c \<noteq> None"

definition same_file :: "string option \<Rightarrow> string option \<Rightarrow> bool" where
  "same_file a b \<longleftrightarrow> map_option path_key a = map_option path_key b"

definition check_selection :: "cli_options \<Rightarrow> unit result" where
  "check_selection c =
     (if co_cmake_build_directory c \<noteq> None \<and> co_target_manifest c \<noteq> None then
        Inl (Runtime_Error ''--cmake-build-dir and --target-manifest are mutually exclusive'')
      else if (co_configuration c \<noteq> [] \<or> co_target c \<noteq> []) \<and> \<not> build_metadata c then
        Inl (Runtime_Error ''--configuration and --target require build metadata'')
      else if co_translation_unit_root c \<noteq> None \<and> build_metadata c then
        Inl (Runtime_Error ''--tu-root cannot be combined with target-aware build metadata'')
      else Inr ())"

definition check_outputs :: "cli_options \<Rightarrow> unit result" where
  "check_outputs c =
     (if co_output c \<noteq> None \<and> same_file (co_graph_output c) (co_output c) then
        Inl (Runtime_Error ''--output and --graph-output must name different files'')
      else if co_baseline_graph c \<noteq> None \<and>
          (same_file (co_output c) (co_baseline_graph c) \<or> same_file (co_graph_output c) (co_baseline_graph c)) then
        Inl (Runtime_Error ''--baseline-graph must differ from --output and --graph-output'')
      else if co_differential_policy c \<noteq> None \<and> co_baseline_graph c = None then
        Inl (Runtime_Error ''--diff-policy requires --baseline-graph'')
      else if co_fail_on_diff c \<and> (co_baseline_graph c = None \<or> co_differential_policy c = None) then
        Inl (Runtime_Error ''--fail-on-diff requires --baseline-graph and --diff-policy'')
      else if co_format c = ''sarif'' \<and> (co_baseline_graph c = None \<or> co_differential_policy c = None) then
        Inl (Runtime_Error ''--format sarif requires --baseline-graph and --diff-policy'')
      else if co_no_cache c \<and> co_cache_directory c \<noteq> None then
        Inl (Runtime_Error ''--cache-dir and --no-cache are mutually exclusive'')
      else Inr ())"

definition default_database :: "cli_options \<Rightarrow> string" where
  "default_database c =
     (if co_compilation_database c \<noteq> [] then co_compilation_database c
      else case co_cmake_build_directory c of
             Some directory \<Rightarrow> path_append directory ''compile_commands.json''
           | None \<Rightarrow> ''compile_commands.json'')"

definition absolute_build_files :: "filesystem \<Rightarrow> cli_options \<Rightarrow> cli_options" where
  "absolute_build_files fs c =
     (let c = c\<lparr>co_cmake_build_directory := map_option (clean_path fs) (co_cmake_build_directory c),
            co_target_manifest := map_option (clean_path fs) (co_target_manifest c)\<rparr>
      in c\<lparr>co_compilation_database := clean_path fs (default_database c)\<rparr>)"

definition absolute_files :: "filesystem \<Rightarrow> cli_options \<Rightarrow> cli_options" where
  "absolute_files fs c =
     c\<lparr>co_project_root := clean_path fs (co_project_root c),
       co_output := map_option (clean_path fs) (co_output c),
       co_graph_output := map_option (clean_path fs) (co_graph_output c),
       co_baseline_graph := map_option (clean_path fs) (co_baseline_graph c),
       co_differential_policy := map_option (clean_path fs) (co_differential_policy c)\<rparr>"

definition finish_options :: "filesystem \<Rightarrow> cli_options \<Rightarrow> cli_options result" where
  "finish_options fs c =
     rbind (check_selection c) (\<lambda>_.
     let c = absolute_files fs (absolute_build_files fs c) in
     rbind (check_outputs c) (\<lambda>_.
     Inr (c\<lparr>co_cache_directory := map_option (clean_path fs) (co_cache_directory c),
       co_translation_unit_root := map_option (clean_path fs) (co_translation_unit_root c),
       co_provider_configs := sorted_paths (map (clean_path fs) (co_provider_configs c)),
       co_callback_rules := canonicalize_callback_registration_rules (co_callback_rules c)\<rparr>)))"

definition parse_cli :: "filesystem \<Rightarrow> string list \<Rightarrow> cli_request result" where
  "parse_cli fs arguments =
     rbind (parse_arguments arguments (default_cli_options fs)) (\<lambda>request.
       case request of
         Analyze c \<Rightarrow> rbind (finish_options fs c) (\<lambda>c. Inr (Analyze c))
       | Help \<Rightarrow> Inr Help
       | Version \<Rightarrow> Inr Version)"

end
