(* ===== verification/Report_Text.thy ===== *)
theory Report_Text
  imports Report_Facts Artifact Index_Run
begin

text \<open>
  The texts of an analysis, \<open>src/report.cpp\<close>: the human-readable report, the JSON report, and the
  two forms of the diagnostics of a run that did not complete. Each writer is the text it sends to
  the stream. Numbers of components are narrowed to \<open>int\<close>, which is taken to hold them.
\<close>

section \<open>Metadata\<close>

record analysis_metadata =
  md_mode :: string
  md_configuration_id :: string
  md_configuration :: string
  md_target_id :: string
  md_target_name :: string
  md_target_kind :: string
  md_closure_targets :: "string list"
  md_run :: run_diagnostics

definition report_schema_version :: nat where
  "report_schema_version = 12"

section \<open>The human-readable report\<close>

definition location_text :: "source_point \<Rightarrow> string" where
  "location_text p =
     (if sp_file p = [] then ''<unknown>''
      else sp_file p @ (if sp_line p \<noteq> 0 then '':'' @ to_string_nat (sp_line p) else []) @
        (if sp_column p \<noteq> 0 then '':'' @ to_string_nat (sp_column p) else []))"

definition range_text :: "source_extent \<Rightarrow> string" where
  "range_text x = location_text (sx_begin x) @ '' - '' @ location_text (sx_end x)"

definition display_symbol :: "symbol \<Rightarrow> string" where
  "display_symbol s = sym_qualified_name s @ '' : '' @ sym_signature s"

definition human_evidence :: "graph \<Rightarrow> finding_evidence list \<Rightarrow> string \<Rightarrow> string" where
  "human_evidence g evidence indent = concat (map (\<lambda>x.
     indent @ ''- ['' @ finding_evidence_kind_to_string (fe_kind x) @ ''] '' @
     ev_provider (fe_evidence x) @ '': '' @ ev_reason (fe_evidence x) @
     (case fe_escape_kind x of None \<Rightarrow> [] | Some kind \<Rightarrow> '' ('' @ escape_kind_to_string kind @ '')'') @
     (case fe_from x of None \<Rightarrow> [] | Some i \<Rightarrow> '' from '' @ display_symbol (g_symbols g ! i)) @
     newline) evidence)"

definition human_source :: "symbol \<Rightarrow> string \<Rightarrow> string" where
  "human_source s indent =
     (let primary = primary_source_extent s in
      indent @ ''Location:         '' @ location_text (sx_location primary) @ newline @
      indent @ ''Definition range: '' @ range_text primary @ newline @
      (case ss_expansion (sym_source s) of
         None \<Rightarrow> []
       | Some expansion \<Rightarrow>
           indent @ ''Spelling:         '' @ location_text (sx_location (ss_spelling (sym_source s))) @ newline @
           indent @ ''Expansion:        '' @ location_text (sx_location expansion) @ newline))"

definition human_heading :: "analysis_report \<Rightarrow> analysis_metadata \<Rightarrow> string" where
  "human_heading report m =
     ''Run state: '' @ run_state_to_string (rd_state (md_run m)) @ '' ('' @
       index_frontend_to_string (rd_frontend (md_run m)) @ '', '' @
       to_string_nat (length (rd_units (md_run m))) @ '' translation units)'' @ newline @ newline @
     (if md_mode m = ''target'' then
        ''Analysis target: '' @ md_target_name m @ '' ('' @ md_target_kind m @ '')'' @ newline @
        ''Configuration: '' @ md_configuration m @ '' ['' @ md_configuration_id m @ '']'' @ newline @
        ''Target closure: '' @ join_with '', '' (md_closure_targets m) @ newline @ newline
      else []) @
     ''cxx-dead application reachability report'' @ newline @ newline @
     ''SUMMARY'' @ newline @
     ''  Graph symbols by scope:    '' @ to_string_nat (ar_reportable_symbols report) @ '' reportable, '' @
       to_string_nat (ar_indexed_symbols report) @ '' indexed, '' @
       to_string_nat (ar_external_opaque_symbols report) @ '' external opaque'' @ newline @
     ''  Defined project functions: '' @ to_string_nat (ar_defined_symbols report) @ newline @
     ''  Reachable:                 '' @ to_string_nat (ar_reachable_symbols report) @ '' ('' @
       to_string_nat (ar_structurally_reachable_symbols report) @ '' structural, '' @
       to_string_nat (ar_provider_reachable_symbols report) @ '' provider)'' @ newline @
     ''  Unreachable candidates:    '' @ to_string_nat (ar_unreachable_symbols report) @ '' ('' @
       to_string_nat (ar_actionable_unreachable_symbols report) @ '' actionable, '' @
       to_string_nat (ar_suppressed_symbols report) @ '' suppressed)'' @ newline @
     ''  Library classes:           '' @ to_string_nat (ar_public_api_symbols report) @ '' public API, '' @
       to_string_nat (ar_internal_live_symbols report) @ '' internal live, '' @
       to_string_nat (ar_internal_unreachable_symbols report) @ '' internal unreachable'' @ newline @ newline"

definition human_because :: "evidence \<Rightarrow> string" where
  "human_because e = ''    Evidence: '' @ ev_provider e @ '': '' @ ev_reason e @ newline"

definition human_root :: "graph \<Rightarrow> root \<Rightarrow> string" where
  "human_root g r =
     (let s = g_symbols g ! root_symbol r in
      ''  '' @ display_symbol s @ '' ['' @ root_kind_to_string (root_kind r) @ '']'' @ newline @
      ''    Scope:    '' @ symbol_scope_to_string (sym_scope s) @ newline @ human_because (root_evidence r))"

definition human_public_api :: "graph \<Rightarrow> provider_reachability \<Rightarrow> string" where
  "human_public_api g x =
     ''  '' @ display_symbol (g_symbols g ! pr_symbol x) @ '' [externally_reachable]'' @ newline @
     human_because (pr_evidence x)"

definition human_provider :: "graph \<Rightarrow> provider_reachability \<Rightarrow> string" where
  "human_provider g x =
     ''  '' @ display_symbol (g_symbols g ! pr_symbol x) @ newline @
     (case pr_from x of None \<Rightarrow> []
      | Some i \<Rightarrow> ''    From:     '' @ display_symbol (g_symbols g ! i) @ newline) @
     human_because (pr_evidence x)"

text \<open>A section with a title, left out when it has no entries.\<close>

definition human_section :: "string \<Rightarrow> string list \<Rightarrow> string" where
  "human_section title entries = (if entries = [] then [] else title @ newline @ concat entries @ newline)"

definition human_ownership :: "string \<Rightarrow> ownership_summary list \<Rightarrow> string" where
  "human_ownership kind summaries = concat (map (\<lambda>x.
     ''    - '' @ kind @ '' '' @ os_label x @ '': '' @ to_string_nat (length (os_members x)) @
     '' symbols, estimated '' @ to_string_nat (le_loc (os_lines x)) @ '' LOC'' @
     (if le_unmeasured (os_lines x) \<noteq> 0
      then '' ('' @ to_string_nat (le_unmeasured (os_lines x)) @ '' unmeasured)'' else []) @ newline) summaries)"

definition human_member :: "graph \<Rightarrow> analysis_report \<Rightarrow> aggregate_member \<Rightarrow> string" where
  "human_member g report m =
     (if am_disposition m \<noteq> Actionable then []
      else
        case find_finding report (am_symbol m) of
          None \<Rightarrow> []
        | Some finding \<Rightarrow>
            let s = g_symbols g ! am_symbol m in
            newline @ ''    '' @ display_symbol s @ newline @ human_source s ''      '' @
            ''      Kind:           '' @ symbol_kind_to_string (sym_kind s) @ newline @
            ''      Classification: '' @ classification_to_string (fi_classification finding) @ newline @
            ''      Evidence:'' @ newline @ human_evidence g (fi_evidence finding) ''        '')"

definition actionable_members :: "unreachable_aggregate \<Rightarrow> nat" where
  "actionable_members component = length (filter (\<lambda>m. am_disposition m = Actionable) (ua_members component))"

definition human_component :: "graph \<Rightarrow> analysis_report \<Rightarrow> unreachable_aggregate \<Rightarrow> string" where
  "human_component g report component =
     (let actionable = actionable_members component;
          suppressed = length (ua_members component) - actionable
      in if actionable = 0 then []
         else
           ''UNREACHABLE COMPONENT CANDIDATE'' @ newline @ newline @
           ''  Component:       '' @ to_string_nat (ua_weak_component component) @ newline @
           ''  SCCs:            '' @ to_string_nat (length (ua_sccs component)) @ newline @
           ''  Findings:        '' @ to_string_nat actionable @ '' actionable, '' @
             to_string_nat suppressed @ '' suppressed'' @ newline @
           ''  Estimated LOC:   '' @ to_string_nat (le_loc (ua_lines component)) @
             (if le_unmeasured (ua_lines component) \<noteq> 0
              then '' ('' @ to_string_nat (le_unmeasured (ua_lines component)) @ '' unmeasured symbols)''
              else []) @
           newline @ ''  Ownership hints:'' @ newline @ human_ownership ''type'' (ua_types component) @
           human_ownership ''file'' (ua_files component) @
           human_ownership ''directory'' (ua_directories component) @
           ''  Actionable findings:'' @ newline @
           concat (map (human_member g report) (ua_members component)) @
           (if suppressed \<noteq> 0
            then newline @ ''  Suppressed members are audited in SUPPRESSED FINDINGS below.'' @ newline
            else []) @
           newline)"

definition human_suppressed :: "graph \<Rightarrow> suppressed_finding \<Rightarrow> string" where
  "human_suppressed g x =
     (let finding = sf_finding x; s = g_symbols g ! fi_symbol finding in
      display_symbol s @ newline @ human_source s ''  '' @
      ''  Original classification: '' @ classification_to_string (fi_classification finding) @ newline @
      ''  Original evidence:'' @ newline @ human_evidence g (fi_evidence finding) ''    '' @
      ''  Suppression evidence:'' @ newline @
      concat (map (\<lambda>e. ''    - '' @ ev_provider e @ '': '' @ ev_reason e @ newline) (sf_suppressions x)) @
      newline)"

definition write_human_report ::
    "graph \<Rightarrow> analysis_report \<Rightarrow> string list \<Rightarrow> analysis_metadata \<Rightarrow> string" where
  "write_human_report g report diagnostics m =
     human_heading report m @
     ''ROOTS'' @ newline @ concat (map (human_root g) (g_roots g)) @ newline @
     human_section ''PUBLIC API'' (map (human_public_api g) (ar_public_api report)) @
     human_section ''PROVIDER-REACHABLE SYMBOLS'' (map (human_provider g) (ar_provider_reachable report)) @
     (if ar_findings report = [] then ''No actionable unreachable function definitions found.'' @ newline
      else concat (map (human_component g report) (ar_unreachable_components report))) @
     (if ar_suppressed_findings report = [] then []
      else ''SUPPRESSED FINDINGS'' @ newline @ newline @
        concat (map (human_suppressed g) (ar_suppressed_findings report))) @
     (if diagnostics = [] then []
      else ''DIAGNOSTICS'' @ newline @ concat (map (\<lambda>d. ''  - '' @ d @ newline) diagnostics))"

section \<open>The JSON report\<close>

text \<open>A bracket whose entries stand on lines of their own, indented by \<open>n\<close> columns.\<close>

definition spaces :: "nat \<Rightarrow> string" where
  "spaces n = replicate n CHR '' ''"

definition lines_at :: "nat \<Rightarrow> layout" where
  "lines_at n = \<lparr>lay_open = newline @ spaces n, lay_sep = newline @ spaces n,
     lay_close = newline @ spaces (n - 2)\<rparr>"

definition list_at :: "nat \<Rightarrow> string list \<Rightarrow> string" where
  "list_at n = array_text (lines_at n) (spaces (n - 2))"

definition unit_text :: "unit_diagnostic \<Rightarrow> string" where
  "unit_text u = object_text (lines_at 8)
     ([(''file'', quoted (ud_file u)), (''status'', quoted (unit_status_to_string (ud_status u))),
       (''stage'', quoted (ud_stage u)), (''message'', quoted (ud_message u))] @
      (case ud_exit_code u of None \<Rightarrow> [] | Some code \<Rightarrow> [(''exit_code'', to_string_int code)]) @
      (case ud_signal u of None \<Rightarrow> []
       | Some signal \<Rightarrow> if signal = 0 then [] else [(''signal'', to_string_int signal)]))"

definition run_text :: "run_diagnostics \<Rightarrow> string" where
  "run_text d = object_text (lines_at 4)
     [(''state'', quoted (run_state_to_string (rd_state d))),
      (''frontend'', quoted (index_frontend_to_string (rd_frontend d))),
      (''partial_graph_discarded'', bool_text (rd_discarded d)),
      (''translation_units'', list_at 6 (map unit_text (rd_units d)))]"

definition analysis_context_text :: "analysis_metadata \<Rightarrow> string" where
  "analysis_context_text m = object_text (lines_at 4)
     [(''configuration_id'', quoted (md_configuration_id m)),
      (''configuration'', quoted (md_configuration m)),
      (''target_id'', nullable_text (md_target_id m)),
      (''target_name'', nullable_text (md_target_name m)),
      (''target_kind'', nullable_text (md_target_kind m)),
      (''closure_targets'', array_text inline [] (map quoted (md_closure_targets m)))]"

definition report_summary_text :: "analysis_report \<Rightarrow> string" where
  "report_summary_text report = object_text (lines_at 4)
     [(''defined_symbols'', to_string_nat (ar_defined_symbols report)),
      (''reachable_symbols'', to_string_nat (ar_reachable_symbols report)),
      (''structurally_reachable_symbols'', to_string_nat (ar_structurally_reachable_symbols report)),
      (''provider_reachable_symbols'', to_string_nat (ar_provider_reachable_symbols report)),
      (''public_api_symbols'', to_string_nat (ar_public_api_symbols report)),
      (''internal_live_symbols'', to_string_nat (ar_internal_live_symbols report)),
      (''internal_unreachable_symbols'', to_string_nat (ar_internal_unreachable_symbols report)),
      (''unreachable_symbols'', to_string_nat (ar_unreachable_symbols report)),
      (''unreachable_components'', to_string_nat (length (ar_unreachable_components report))),
      (''actionable_unreachable_symbols'', to_string_nat (ar_actionable_unreachable_symbols report)),
      (''suppressed_symbols'', to_string_nat (ar_suppressed_symbols report)),
      (''scope_counts'', object_text (lines_at 6)
         [(''reportable'', to_string_nat (ar_reportable_symbols report)),
          (''indexed'', to_string_nat (ar_indexed_symbols report)),
          (''external_opaque'', to_string_nat (ar_external_opaque_symbols report))])]"

definition report_root_text :: "graph \<Rightarrow> root \<Rightarrow> string" where
  "report_root_text g r =
     (let s = g_symbols g ! root_symbol r in object_text (lines_at 6)
       [(''symbol'', quoted (sym_qualified_name s)), (''signature'', quoted (sym_signature s)),
        (''key'', quoted (sym_key s)), (''kind'', quoted (root_kind_to_string (root_kind r))),
        (''scope'', quoted (symbol_scope_to_string (sym_scope s))), (''source'', source_text (sym_source s)),
        (''evidence'', object_text (lines_at 8)
           [(''provider'', quoted (ev_provider (root_evidence r))),
            (''reason'', quoted (ev_reason (root_evidence r)))])])"

definition public_api_text :: "graph \<Rightarrow> provider_reachability \<Rightarrow> string" where
  "public_api_text g x =
     (let s = g_symbols g ! pr_symbol x in object_text (lines_at 6)
       [(''symbol'', quoted (sym_qualified_name s)), (''signature'', quoted (sym_signature s)),
        (''key'', quoted (sym_key s)), (''classification'', quoted ''externally_reachable''),
        (''evidence'', evidence_text (pr_evidence x))])"

definition provider_text :: "graph \<Rightarrow> provider_reachability \<Rightarrow> string" where
  "provider_text g x =
     (let s = g_symbols g ! pr_symbol x;
          from_text = \<lambda>part. (case pr_from x of Some i \<Rightarrow> quoted (part (g_symbols g ! i)) | None \<Rightarrow> ''null'')
      in object_text (lines_at 6)
       [(''symbol'', quoted (sym_qualified_name s)), (''signature'', quoted (sym_signature s)),
        (''key'', quoted (sym_key s)), (''from_symbol'', from_text sym_qualified_name),
        (''from_signature'', from_text sym_signature), (''evidence'', evidence_text (pr_evidence x))])"

definition member_keys :: "graph \<Rightarrow> disposition \<Rightarrow> aggregate_member list \<Rightarrow> string list" where
  "member_keys g d members = map (\<lambda>m. sym_key (g_symbols g ! am_symbol m)) (filter (\<lambda>m. am_disposition m = d) members)"

text \<open>\<open>write_member_keys\<close>, once for each disposition.\<close>

definition keys_text :: "graph \<Rightarrow> aggregate_member list \<Rightarrow> (string \<times> string) list" where
  "keys_text g members =
     [(''finding_keys'', array_text inline [] (map quoted (member_keys g Actionable members))),
      (''suppressed_finding_keys'', array_text inline [] (map quoted (member_keys g Suppressed members)))]"

text \<open>An empty list of summaries has no line break.\<close>

definition ownership_text :: "graph \<Rightarrow> string \<Rightarrow> ownership_summary list \<Rightarrow> string" where
  "ownership_text g label_name summaries = array_text (lines_at 8) [] (map (\<lambda>x. object_text (lines_at 10)
     ([(label_name, quoted (os_label x)), (''estimated_loc'', to_string_nat (le_loc (os_lines x))),
       (''unmeasured_symbols'', to_string_nat (le_unmeasured (os_lines x)))] @ keys_text g (os_members x)))
     summaries)"

definition scc_text :: "graph \<Rightarrow> int list \<Rightarrow> unreachable_aggregate \<Rightarrow> nat \<Rightarrow> string" where
  "scc_text g component_by_symbol component scc = object_text (lines_at 10)
     ((''id'', to_string_nat scc) #
      keys_text g (filter (\<lambda>m. component_by_symbol ! am_symbol m = int scc) (ua_members component)))"

definition condensation_edge_text :: "condensation_edge \<Rightarrow> string" where
  "condensation_edge_text e = object_text inline
     [(''from_scc'', to_string_nat (ce_from e)), (''to_scc'', to_string_nat (ce_to e))]"

definition component_text :: "graph \<Rightarrow> int list \<Rightarrow> unreachable_aggregate \<Rightarrow> string" where
  "component_text g component_by_symbol component = object_text (lines_at 6)
     ([(''id'', to_string_nat (ua_weak_component component)),
       (''estimated_loc'', to_string_nat (le_loc (ua_lines component))),
       (''unmeasured_symbols'', to_string_nat (le_unmeasured (ua_lines component))),
       (''sccs'', list_at 8 (map (scc_text g component_by_symbol component) (ua_sccs component))),
       (''edges'', list_at 8 (map condensation_edge_text (ua_edges component)))] @
      keys_text g (ua_members component) @
      [(''ownership'', object_text (lines_at 8)
         [(''types'', ownership_text g ''type'' (ua_types component)),
          (''files'', ownership_text g ''file'' (ua_files component)),
          (''directories'', ownership_text g ''directory'' (ua_directories component))])])"

definition finding_evidence_text :: "graph \<Rightarrow> finding_evidence \<Rightarrow> string" where
  "finding_evidence_text g x = object_text (lines_at 10)
     ([(''kind'', quoted (finding_evidence_kind_to_string (fe_kind x))),
       (''provider'', quoted (ev_provider (fe_evidence x))), (''reason'', quoted (ev_reason (fe_evidence x)))] @
      (case fe_escape_kind x of None \<Rightarrow> [] | Some kind \<Rightarrow> [(''escape_kind'', quoted (escape_kind_to_string kind))]) @
      (case fe_from x of None \<Rightarrow> []
       | Some i \<Rightarrow> [(''from_symbol'', quoted (sym_qualified_name (g_symbols g ! i))),
           (''from_signature'', quoted (sym_signature (g_symbols g ! i)))]))"

text \<open>\<open>write_finding\<close>, with the suppressions if there are any to write.\<close>

definition finding_text :: "graph \<Rightarrow> int list \<Rightarrow> int list \<Rightarrow> finding \<Rightarrow> evidence list option \<Rightarrow> string" where
  "finding_text g component_by_symbol weak_component_by_symbol f suppressions =
     (let s = g_symbols g ! fi_symbol f; source = sx_location (primary_source_extent s) in object_text (lines_at 6)
       ([(''symbol'', quoted (sym_qualified_name s)), (''signature'', quoted (sym_signature s)),
         (''key'', quoted (sym_key s)), (''kind'', quoted (symbol_kind_to_string (sym_kind s))),
         (''scope'', quoted (symbol_scope_to_string (sym_scope s))), (''file'', quoted (sp_file source)),
         (''line'', to_string_nat (sp_line source)), (''source'', source_text (sym_source s)),
         (''classification'', quoted (classification_to_string (fi_classification f))),
         (''component'', to_string_int (component_by_symbol ! fi_symbol f)),
         (''weak_component'', to_string_int (weak_component_by_symbol ! fi_symbol f)),
         (''evidence'', list_at 8 (map (finding_evidence_text g) (fi_evidence f)))] @
        (case suppressions of None \<Rightarrow> []
         | Some evidence \<Rightarrow> [(''suppression_evidence'', list_at 8 (map evidence_text evidence))])))"

definition weak_component_by_symbol :: "nat \<Rightarrow> unreachable_aggregate list \<Rightarrow> int list" where
  "weak_component_by_symbol n aggregates =
     fold (\<lambda>component v. fold (\<lambda>m v. v[am_symbol m := int (ua_weak_component component)]) (ua_members component) v)
       aggregates (replicate n (-1))"

definition write_json_report ::
    "graph \<Rightarrow> reachability_result \<Rightarrow> analysis_report \<Rightarrow> string list \<Rightarrow> analysis_metadata \<Rightarrow> string" where
  "write_json_report g result report diagnostics m =
     (let components = scc_by_symbol (length (g_symbols g)) (rr_unreachable_sccs result);
          weak = weak_component_by_symbol (length (g_symbols g)) (ar_unreachable_components report)
      in object_text document_layout
       [(''schema_version'', to_string_nat report_schema_version), (''mode'', quoted (md_mode m)),
        (''run'', run_text (md_run m)), (''analysis_context'', analysis_context_text m),
        (''summary'', report_summary_text report),
        (''roots'', section_text (map (report_root_text g) (g_roots g))),
        (''public_api'', section_text (map (public_api_text g) (ar_public_api report))),
        (''provider_reachable'', section_text (map (provider_text g) (ar_provider_reachable report))),
        (''unreachable_components'',
           section_text (map (component_text g components) (ar_unreachable_components report))),
        (''findings'', section_text (map (\<lambda>f. finding_text g components weak f None) (ar_findings report))),
        (''suppressed_findings'', section_text (map (\<lambda>x.
           finding_text g components weak (sf_finding x) (Some (sf_suppressions x))) (ar_suppressed_findings report))),
        (''diagnostics'', section_text (map quoted diagnostics))] @ newline)"

section \<open>Runs that did not complete\<close>

definition human_unit :: "unit_diagnostic \<Rightarrow> string" where
  "human_unit u =
     ''  - '' @ ud_file u @ '' ['' @ unit_status_to_string (ud_status u) @ '']'' @ newline @
     ''    Stage: '' @ ud_stage u @ newline @ ''    Cause: '' @ ud_message u @ newline @
     (case ud_exit_code u of None \<Rightarrow> [] | Some code \<Rightarrow> ''    Exit:  '' @ to_string_int code @ newline) @
     (case ud_signal u of None \<Rightarrow> []
      | Some signal \<Rightarrow> if signal = 0 then [] else ''    Signal: '' @ to_string_int signal @ newline)"

definition write_human_run_diagnostic :: "string \<Rightarrow> run_diagnostics \<Rightarrow> string" where
  "write_human_run_diagnostic message d =
     ''cxx-dead indexing run'' @ newline @ newline @ ''RUN STATE'' @ newline @
     ''  State:                   '' @ run_state_to_string (rd_state d) @ newline @
     ''  Frontend:                '' @ index_frontend_to_string (rd_frontend d) @ newline @
     ''  Partial graph discarded: '' @ (if rd_discarded d then ''yes'' else ''no'') @ newline @ newline @
     ''TRANSLATION UNITS'' @ newline @ concat (map human_unit (rd_units d)) @
     newline @ ''DIAGNOSTIC'' @ newline @ ''  '' @ message @ newline"

definition write_json_run_diagnostic :: "string \<Rightarrow> run_diagnostics \<Rightarrow> analysis_metadata \<Rightarrow> string" where
  "write_json_run_diagnostic message d m = object_text document_layout
     [(''schema_version'', to_string_nat report_schema_version), (''mode'', quoted (md_mode m)),
      (''run'', run_text d), (''analysis_context'', analysis_context_text m),
      (''diagnostics'', array_text inline [] [quoted message])] @ newline"

end
