(* ===== verification/Main_Program.thy ===== *)
theory Main_Program
  imports Command_Line Report_Text Differential_Text
begin

text \<open>
  The program as a whole, \<open>main\<close> of \<open>src/main.cpp\<close>: from the arguments to the exit status and to what
  is printed and written. The frontend that is bound to the Clang libraries is an argument.
\<close>

section \<open>The world\<close>

record run_costs =
  cs_traversal :: int
  cs_components :: int
  cs_reporting :: int
  cs_wall :: int
  cs_memory :: int

text \<open>
  What the program meets: files at the start and after indexing, signal handlers, the two frontends,
  the signal seen after a failed run, and which files can be opened and written. \<open>None\<close> is the
  standard output.
\<close>

record main_events =
  mn_files :: filesystem
  mn_directories :: directories
  mn_handlers :: bool
  mn_run :: run_events
  mn_libtooling :: "index_options \<Rightarrow> compile_command list \<Rightarrow> index_failure + index_result"
  mn_signal :: int
  mn_later :: filesystem
  mn_opens :: "string \<Rightarrow> bool"
  mn_writes :: "string option \<Rightarrow> bool"
  mn_costs :: run_costs

datatype effect = To_Stdout string | To_Stderr string | To_File string string

text \<open>What is done before an exception is done, so an error keeps the effects ahead of it.\<close>

type_synonym 'a main_result = "effect list \<times> 'a result"

definition when_ok :: "'a main_result \<Rightarrow> ('a \<Rightarrow> 'b main_result) \<Rightarrow> 'b main_result" where
  "when_ok m f =
     (case m of
        (effects, Inl e) \<Rightarrow> (effects, Inl e)
      | (effects, Inr x) \<Rightarrow> let (more, y) = f x in (effects @ more, y))"

section \<open>The plan of an analysis\<close>

definition tu_within :: "string \<Rightarrow> string \<Rightarrow> bool" where
  "tu_within child parent \<longleftrightarrow>
     (let relative = lexically_relative child parent in
      if relative = [] then path_key child = path_key parent
      else \<not> is_absolute relative \<and> hd (path_names relative) \<noteq> dot_dot)"

definition load_policies :: "'n yaml_api \<Rightarrow> filesystem \<Rightarrow> string list \<Rightarrow> provider_policy list result" where
  "load_policies api fs = map_result (load_provider_config api fs)"

definition load_model :: "filesystem \<Rightarrow> directories \<Rightarrow> cli_options \<Rightarrow> build_model option result" where
  "load_model fs dirs c =
     (case co_cmake_build_directory c of
        Some directory \<Rightarrow> rbind (load_cmake_file_api fs dirs directory) (\<lambda>model. Inr (Some model))
      | None \<Rightarrow>
          (case co_target_manifest c of
             Some manifest \<Rightarrow> rbind (load_target_manifest fs manifest) (\<lambda>model. Inr (Some model))
           | None \<Rightarrow> Inr None))"

text \<open>The selected target decides about the project root and the identity, unless they were given.\<close>

definition adopt_target :: "build_model \<Rightarrow> target_selection \<Rightarrow> cli_options \<Rightarrow> cli_options" where
  "adopt_target model selection c =
     (let c = (if co_project_root_explicit c then c else c\<lparr>co_project_root := bm_source_root model\<rparr>)
      in if co_configuration_id_explicit c then c
         else c\<lparr>co_configuration_id :=
           (if tc_configuration (ts_context selection) = [] then ''default''
            else tc_configuration (ts_context selection))\<rparr>)"

definition keep_below :: "string option \<Rightarrow> compile_command list \<Rightarrow> compile_command list result" where
  "keep_below tu_root commands =
     (case tu_root of
        None \<Rightarrow> Inr commands
      | Some directory \<Rightarrow>
          let kept = filter (\<lambda>command. tu_within (cc_file command) directory) commands
          in if kept = [] then Inl (Runtime_Error ''--tu-root excluded every compilation command'') else Inr kept)"

definition is_library :: "target_selection option \<Rightarrow> bool" where
  "is_library selection \<longleftrightarrow>
     (case selection of None \<Rightarrow> False
      | Some s \<Rightarrow> tc_target_kind (ts_context s) \<notin> {Executable, Object_Library, Utility})"

definition index_options_of ::
    "cli_options \<Rightarrow> provider_policy list \<Rightarrow> target_selection option \<Rightarrow> index_options" where
  "index_options_of c policies selection =
     \<lparr>ix_project_root = co_project_root c, ix_configuration_id = co_configuration_id c,
      ix_report_paths = co_report_paths c, ix_excluded_paths = co_excluded_paths c,
      ix_clang_executable = co_clang c, ix_ast_filter = co_ast_filter c, ix_manual_roots = co_roots c,
      ix_callback_rules = co_callback_rules c, ix_provider_policies = policies,
      ix_selected_target_sources = (case selection of None \<Rightarrow> [] | Some s \<Rightarrow> tc_selected_sources (ts_context s)),
      ix_public_headers = (case selection of None \<Rightarrow> [] | Some s \<Rightarrow> tc_public_headers (ts_context s)),
      ix_translation_unit_timeout = co_translation_unit_timeout c, ix_index_timeout = co_index_timeout c,
      ix_max_ast_bytes = co_max_ast_bytes c, ix_cache_directory = co_cache_directory c, ix_verbose = co_verbose c,
      ix_infer_exports = (case selection of None \<Rightarrow> False
         | Some s \<Rightarrow> tc_target_kind (ts_context s) \<in> {Shared_Library, Module_Library}),
      ix_require_api = (case selection of None \<Rightarrow> False
         | Some s \<Rightarrow> tc_target_kind (ts_context s) \<in> {Static_Library, Interface_Library})\<rparr>"

definition metadata_of :: "cli_options \<Rightarrow> target_selection option \<Rightarrow> run_diagnostics \<Rightarrow> analysis_metadata" where
  "metadata_of c selection run =
     (case selection of
        None \<Rightarrow> \<lparr>md_mode = ''application'', md_configuration_id = co_configuration_id c, md_configuration = [],
          md_target_id = [], md_target_name = [], md_target_kind = [], md_closure_targets = [], md_run = run\<rparr>
      | Some s \<Rightarrow>
          let context = ts_context s in
          \<lparr>md_mode = ''target'', md_configuration_id = co_configuration_id c,
           md_configuration = tc_configuration context, md_target_id = tc_target_id context,
           md_target_name = tc_target_name context, md_target_kind = target_kind_to_string (tc_target_kind context),
           md_closure_targets = tc_closure_targets context, md_run = run\<rparr>)"

definition artifact_metadata_of :: "cli_options \<Rightarrow> target_selection option \<Rightarrow> index_result \<Rightarrow> artifact_metadata" where
  "artifact_metadata_of c selection r =
     (let target = (\<lambda>part. case selection of None \<Rightarrow> [] | Some s \<Rightarrow> part (ts_context s)) in
      \<lparr>gm_configuration_id = co_configuration_id c, gm_configuration = target tc_configuration,
       gm_target_id = target tc_target_id, gm_target_name = target tc_target_name,
       gm_target_kind = target (\<lambda>context. target_kind_to_string (tc_target_kind context)),
       gm_closure_targets = (case selection of None \<Rightarrow> [] | Some s \<Rightarrow> tc_closure_targets (ts_context s)),
       gm_frontend = ir_frontend r, gm_translation_units = ir_units r\<rparr>)"

record analysis_plan =
  pl_options :: cli_options
  pl_policies :: "provider_policy list"
  pl_differential :: "differential_policy option"
  pl_selection :: "target_selection option"
  pl_commands :: "compile_command list"

text \<open>The choice of a target with its commands; \<open>None\<close> would be a search that does not end.\<close>

definition choose_commands ::
    "filesystem \<Rightarrow> directories \<Rightarrow> cli_options \<Rightarrow> compile_command list \<Rightarrow>
     (cli_options \<times> target_selection option \<times> compile_command list) result option" where
  "choose_commands fs dirs c commands =
     (case load_model fs dirs c of
        Inl e \<Rightarrow> Some (Inl e)
      | Inr None \<Rightarrow> Some (Inr (c, None, commands))
      | Inr (Some model) \<Rightarrow>
          map_option (\<lambda>chosen. rbind chosen (\<lambda>selection.
              Inr (adopt_target model selection c, Some selection, ts_commands selection)))
            (select_target_commands model (co_configuration c) (co_target c) commands))"

definition settle_plan ::
    "provider_policy list \<Rightarrow> differential_policy option \<Rightarrow>
     cli_options \<times> target_selection option \<times> compile_command list \<Rightarrow> analysis_plan result" where
  "settle_plan policies differential = (\<lambda>(c, selection, commands).
     rbind (keep_below (co_translation_unit_root c) commands) (\<lambda>commands.
     let c = (if \<not> co_no_cache c \<and> co_cache_directory c = None
              then c\<lparr>co_cache_directory := Some (path_append (path_append (co_project_root c) ''.cxx-dead'') ''cache'')\<rparr>
              else c)
     in if list_ex (\<lambda>policy. pp_public_api_roots policy \<noteq> []) policies \<and> \<not> is_library selection then
          Inl (Runtime_Error ''public_api_roots require a selected static, shared, module, or interface library'')
        else
          Inr \<lparr>pl_options = c, pl_policies = policies, pl_differential = differential, pl_selection = selection,
            pl_commands = commands\<rparr>))"

definition make_plan ::
    "'n yaml_api \<Rightarrow> filesystem \<Rightarrow> directories \<Rightarrow> cli_options \<Rightarrow> analysis_plan result option" where
  "make_plan api fs dirs c =
     (if co_frontend c = Lib_Tooling \<and> co_clang_explicit c then
        Some (Inl (Runtime_Error ''--clang applies only to --frontend ast-json''))
      else
        case rbind (load_policies api fs (co_provider_configs c)) (\<lambda>policies.
             rbind (case co_differential_policy c of
                      None \<Rightarrow> Inr None
                    | Some path \<Rightarrow> rbind (load_differential_policy api fs path) (\<lambda>policy. Inr (Some policy))) (\<lambda>differential.
             rbind (load_compilation_database fs (co_compilation_database c)) (\<lambda>commands.
             Inr (policies, differential, commands)))) of
          Inl e \<Rightarrow> Some (Inl e)
        | Inr (policies, differential, commands) \<Rightarrow>
            let c = c\<lparr>co_callback_rules := canonicalize_callback_registration_rules
                  (co_callback_rules c @ concat (map pp_callback_registrations policies))\<rparr>
            in map_option (\<lambda>chosen. rbind chosen (settle_plan policies differential))
                 (choose_commands fs dirs c commands))"

section \<open>Indexing\<close>

definition run_frontend ::
    "main_events \<Rightarrow> analysis_plan \<Rightarrow> (index_failure + index_result) \<times> store" where
  "run_frontend mn plan =
     (let options = index_options_of (pl_options plan) (pl_policies plan) (pl_selection plan) in
      if co_frontend (pl_options plan) = Lib_Tooling then
        (mn_libtooling mn options (pl_commands plan), re_store (mn_run mn))
      else
        case make_indexer (mn_files mn) options of
          Inl e \<Rightarrow> (Inl (Other_Error e), re_store (mn_run mn))
        | Inr options \<Rightarrow> index_run options (mn_run mn) (pl_commands plan))"

text \<open>The report of a failed run, with the exit status.\<close>

definition report_failure ::
    "main_events \<Rightarrow> analysis_plan \<Rightarrow> string \<Rightarrow> run_diagnostics \<Rightarrow> int main_result" where
  "report_failure mn plan message d =
     (let c = pl_options plan;
          empty_run = \<lparr>rd_state = Run_Complete, rd_frontend = Ast_Json, rd_discarded = False, rd_units = []\<rparr>;
          shown = (if co_format c = ''json''
                   then write_json_run_diagnostic message d (metadata_of c (pl_selection plan) empty_run)
                   else write_human_run_diagnostic message d);
          status = (if mn_signal mn \<noteq> 0 then 128 + mn_signal mn else 1)
      in case (if co_format c = ''sarif'' then None else co_output c) of
           None \<Rightarrow> ([if co_format c = ''json'' then To_Stdout shown else To_Stderr shown], Inr status)
         | Some path \<Rightarrow>
             if \<not> mn_opens mn path then ([], Inl (Runtime_Error (''cannot open output file: '' @ path)))
             else
               ([To_File path shown,
                 To_Stderr (''cxx-dead: '' @ run_state_to_string (rd_state d) @
                   '' indexing run; diagnostics written to '' @ path @ newline)], Inr status))"

text \<open>The frontend of a build without the Clang libraries, \<open>src/libtooling_stub.cpp\<close>.\<close>

definition libtooling_stub :: "index_options \<Rightarrow> compile_command list \<Rightarrow> index_failure + index_result" where
  "libtooling_stub options commands =
     Inl (Indexing_Error ''LibTooling frontend is unavailable; rebuild with CXX_DEAD_ENABLE_LIBTOOLING=ON''
       \<lparr>rd_state = Run_Unsupported, rd_frontend = Lib_Tooling, rd_discarded = False,
        rd_units = map (\<lambda>command.
          \<lparr>ud_file = cc_file command, ud_status = Unit_Unsupported, ud_stage = ''frontend'',
           ud_message = ''LibTooling frontend is not available in this build'', ud_exit_code = None,
           ud_signal = None\<rparr>) commands\<rparr>)"

section \<open>Reporting\<close>

definition write_artifact ::
    "main_events \<Rightarrow> string option \<Rightarrow> graph \<Rightarrow> artifact_metadata \<Rightarrow> string list \<Rightarrow> unit main_result" where
  "write_artifact mn destination g metadata diagnostics =
     (case destination of
        None \<Rightarrow> ([], Inr ())
      | Some path \<Rightarrow>
          if \<not> mn_opens mn path then ([], Inl (Runtime_Error (''cannot open graph artifact: '' @ path)))
          else
            case write_graph_artifact g metadata diagnostics of
              Inl e \<Rightarrow> ([To_File path []], Inl e)
            | Inr body \<Rightarrow>
                ([To_File path body],
                 if mn_writes mn (Some path) then Inr ()
                 else Inl (Runtime_Error (''could not write graph artifact: '' @ path))))"

definition report_document ::
    "cli_options \<Rightarrow> graph \<Rightarrow> reachability_result \<Rightarrow> analysis_report \<Rightarrow> string list \<Rightarrow> analysis_metadata \<Rightarrow>
     differential_report option \<Rightarrow> string" where
  "report_document c g result report diagnostics metadata differential =
     (case differential of
        Some d \<Rightarrow>
          if co_format c = ''sarif'' then write_sarif_differential_report d (co_project_root c) ''0.18.0''
          else if co_format c = ''json'' then write_json_differential_report d
          else write_human_differential_report d
      | None \<Rightarrow>
          if co_format c = ''json'' then write_json_report g result report diagnostics metadata
          else write_human_report g report diagnostics metadata)"

definition write_report :: "main_events \<Rightarrow> string option \<Rightarrow> string \<Rightarrow> unit main_result" where
  "write_report mn destination body =
     (case destination of
        Some path \<Rightarrow>
          if \<not> mn_opens mn path then ([], Inl (Runtime_Error (''cannot open output file: '' @ path)))
          else ([To_File path body],
            if mn_writes mn (Some path) then Inr () else Inl (Runtime_Error ''could not write analysis report''))
      | None \<Rightarrow>
          ([To_Stdout body],
           if mn_writes mn None then Inr () else Inl (Runtime_Error ''could not write analysis report'')))"

definition metrics_text :: "run_costs \<Rightarrow> index_result \<Rightarrow> string" where
  "metrics_text costs r =
     (let m = ir_metrics r; n = to_string_nat; i = to_string_int in
      ''cxx-dead-index-metrics frontend='' @ index_frontend_to_string (ir_frontend r) @
      '' translation_units='' @ n (ir_units r) @ '' indexed_tus='' @ n (ir_units r - im_hits m) @
      '' reused_tus='' @ n (im_hits m) @ '' cache_misses='' @ n (im_misses m) @
      '' ast_bytes='' @ n (ir_ast_bytes r) @ '' fact_bytes='' @ n (ir_fact_bytes r) @
      '' cache_read_bytes='' @ n (im_bytes_read m) @ '' cache_write_bytes='' @ n (im_bytes_written m) @
      '' cache_validation_ms='' @ i (im_validation_time m) @ '' indexing_ms='' @ i (im_indexing_time m) @
      '' merging_ms='' @ i (im_merge_time m) @ '' traversal_ms='' @ i (cs_traversal costs) @
      '' scc_ms='' @ i (cs_components costs) @ '' reporting_ms='' @ i (cs_reporting costs) @
      '' wall_ms='' @ i (cs_wall costs) @ '' peak_rss_kib='' @ i (cs_memory costs) @
      '' symbols='' @ n (length (g_symbols (ir_graph r))) @ '' edges='' @ n (length (g_edges (ir_graph r))) @ newline)"

definition exit_status :: "cli_options \<Rightarrow> analysis_report \<Rightarrow> differential_report option \<Rightarrow> int" where
  "exit_status c report differential =
     (if co_fail_on_unreachable c \<and> ar_findings report \<noteq> [] \<or>
         co_fail_on_diff c \<and> (case differential of None \<Rightarrow> False | Some d \<Rightarrow> dr_policy_matches d \<noteq> 0)
      then 2 else 0)"

text \<open>Target diagnostics join those of the run; warnings are shown once each.\<close>

definition all_diagnostics :: "target_selection option \<Rightarrow> index_result \<Rightarrow> string list" where
  "all_diagnostics selection r =
     (case selection of None \<Rightarrow> ir_diagnostics r
      | Some s \<Rightarrow> sorted_unique (ir_diagnostics r @ ts_diagnostics s))"

definition warning_effects :: "index_result \<Rightarrow> effect list" where
  "warning_effects r =
     map (\<lambda>w. To_Stderr (''cxx-dead: warning: '' @ w @ newline)) (sorted_unique (ir_warnings r))"

definition compare_baseline ::
    "main_events \<Rightarrow> analysis_plan \<Rightarrow> index_result \<Rightarrow> reachability_result \<Rightarrow> analysis_report \<Rightarrow>
     differential_report option result option" where
  "compare_baseline mn plan r result report =
     (case co_baseline_graph (pl_options plan) of
        None \<Rightarrow> Some (Inr None)
      | Some path \<Rightarrow>
          (case fs_read (mn_later mn) path of
             Cannot_Open \<Rightarrow> Some (Inl (Runtime_Error (''cannot open baseline graph artifact: '' @ path)))
           | content \<Rightarrow>
               (case read_graph_artifact (case content of Contents body \<Rightarrow> body | _ \<Rightarrow> []) of
                  Inl e \<Rightarrow> Some (Inl e)
                | Inr baseline \<Rightarrow>
                    map_option (\<lambda>compared. rbind compared (\<lambda>d. Inr (Some d)))
                      (build_differential_report baseline (ir_graph r) result report
                        (artifact_metadata_of (pl_options plan) (pl_selection plan) r) (pl_differential plan)))))"

definition write_results ::
    "main_events \<Rightarrow> analysis_plan \<Rightarrow> index_result \<Rightarrow> reachability_result \<Rightarrow> analysis_report \<Rightarrow>
     differential_report option \<Rightarrow> int main_result" where
  "write_results mn plan r result report differential =
     (let c = pl_options plan;
          diagnostics = all_diagnostics (pl_selection plan) r;
          run = \<lparr>rd_state = Run_Complete, rd_frontend = ir_frontend r, rd_discarded = False,
            rd_units = ir_unit_diagnostics r\<rparr>
      in when_ok (write_artifact mn (co_graph_output c) (ir_graph r)
             (artifact_metadata_of c (pl_selection plan) r) diagnostics) (\<lambda>_.
         when_ok (write_report mn (co_output c)
             (report_document c (ir_graph r) result report diagnostics (metadata_of c (pl_selection plan) run) differential)) (\<lambda>_.
         (if co_verbose c then [To_Stderr (metrics_text (mn_costs mn) r)] else [],
          Inr (exit_status c report differential)))))"

definition report_success :: "main_events \<Rightarrow> analysis_plan \<Rightarrow> index_result \<Rightarrow> int main_result option" where
  "report_success mn plan r =
     (case analyze_reachability (ir_graph r) of
        None \<Rightarrow> None
      | Some result \<Rightarrow>
          let report = build_report (ir_graph r) result in
          map_option (\<lambda>compared. when_ok (warning_effects r, compared) (write_results mn plan r result report))
            (compare_baseline mn plan r result report))"

section \<open>The program\<close>

definition analyze :: "main_events \<Rightarrow> analysis_plan \<Rightarrow> int main_result option \<times> store" where
  "analyze mn plan =
     (if \<not> mn_handlers mn then
        (Some ([], Inl (Runtime_Error ''cannot install cancellation signal handlers'')), re_store (mn_run mn))
      else
        case run_frontend mn plan of
          (Inl (Indexing_Error message d), st) \<Rightarrow> (Some (report_failure mn plan message d), st)
        | (Inl (Other_Error e), st) \<Rightarrow> (Some ([], Inl e), st)
        | (Inr r, st) \<Rightarrow> (report_success mn plan r, st))"

definition answer :: "int main_result \<Rightarrow> int \<times> effect list" where
  "answer = (\<lambda>(effects, outcome).
     case outcome of
       Inr status \<Rightarrow> (status, effects)
     | Inl e \<Rightarrow> (1, effects @ [To_Stderr (''cxx-dead: error: '' @ exn_what e @ newline)]))"

text \<open>The exit status and the effects, and the cache that is left.\<close>

definition main_program ::
    "'n yaml_api \<Rightarrow> main_events \<Rightarrow> string list \<Rightarrow> (int \<times> effect list) option \<times> store" where
  "main_program api mn arguments =
     (let untouched = re_store (mn_run mn) in
      case parse_cli (mn_files mn) arguments of
        Inl e \<Rightarrow> (Some (answer ([], Inl e)), untouched)
      | Inr Help \<Rightarrow> (Some (0, [To_Stdout usage_text]), untouched)
      | Inr Version \<Rightarrow> (Some (0, [To_Stdout (''cxx-dead 0.18.0'' @ newline)]), untouched)
      | Inr (Analyze c) \<Rightarrow>
          (case make_plan api (mn_files mn) (mn_directories mn) c of
             None \<Rightarrow> (None, untouched)
           | Some (Inl e) \<Rightarrow> (Some (answer ([], Inl e)), untouched)
           | Some (Inr plan) \<Rightarrow> (let (outcome, st) = analyze mn plan in (map_option answer outcome, st))))"

end
