(* ===== verification/Artifact_Accepted.thy ===== *)
theory Artifact_Accepted
  imports Artifact_Facts
begin

text \<open>
  What the reader of artifacts accepts: whatever JSON it is given, the graph it returns satisfies the
  invariant of the data model and everything the writer relies on.
\<close>

section \<open>Fields\<close>

lemma accepted_size: "require_size v key ctx = Inr n \<Longrightarrow> n < 2 ^ 53"
  by (auto simp: require_size_def rbind_eq_Inr largest_exact_json_integer_def floor_le_iff nat_less_iff le_floor_iff
      not_less split: option.splits if_splits)

lemma accepted_text: "require_string_field v key ctx False = Inr s \<Longrightarrow> s \<noteq> []"
  by (auto simp: require_string_field_def rbind_eq_Inr split: option.splits if_splits)

lemma accepted_point: "parse_source_point v ctx = Inr p \<Longrightarrow> point_ok p"
  by (auto simp: parse_source_point_def rbind_eq_Inr point_ok_def dest: accepted_size)

lemma accepted_extent: "parse_source_extent v ctx = Inr x \<Longrightarrow> extent_ok x"
  by (auto simp: parse_source_extent_def rbind_eq_Inr extent_ok_def dest: accepted_point)

lemma accepted_source: "parse_source v ctx = Inr s \<Longrightarrow> source_ok s"
  by (auto simp: parse_source_def rbind_eq_Inr source_ok_def dest: accepted_extent split: if_splits)

lemma accepted_enum: "parse_enum v table ctx = Inr e \<Longrightarrow> e \<in> snd ` set table"
  by (force simp: parse_enum_def dest: map_of_SomeD split: option.splits)

lemma accepted_scope: "parse_enum v symbol_scopes ctx = Inr e \<Longrightarrow> e \<noteq> Excluded"
  by (auto simp: symbol_scopes_def dest!: accepted_enum)

lemma identity_fields:
  "make_symbol_identity c u l t f = Inr i \<Longrightarrow> si_configuration_id i = c \<and> si_usr i = u \<and> si_linkage_name i = l \<and>
     si_translation_unit i = t \<and> si_fallback_anchor i = f"
  by (auto simp: make_symbol_identity_def Let_def split: if_splits)

lemma checked_symbol: "check_symbol s ctx = Inr t \<Longrightarrow> t = s \<and> sym_key s = stable_symbol_key (sym_identity s) \<and>
    (let i = sym_identity s in make_symbol_identity (si_configuration_id i) (si_usr i) (si_linkage_name i)
        (si_translation_unit i) (si_fallback_anchor i) = Inr i)"
  by (auto simp: check_symbol_def Let_def dest!: identity_fields split: sum.splits if_splits)

lemma accepted_symbol: "parse_symbol v ctx = Inr s \<Longrightarrow> symbol_ok s"
  unfolding parse_symbol_def rbind_eq_Inr
  by (elim exE conjE) (drule checked_symbol, auto simp: symbol_ok_def dest: accepted_source accepted_scope)

section \<open>Symbols and facts\<close>

definition read_so_far :: "artifact_metadata \<Rightarrow> ids \<times> graph \<Rightarrow> bool" where
  "read_so_far m = (\<lambda>(ids, g). graph_wf g \<and> ids = g_key_to_id g \<and>
     (\<forall>s \<in> set (g_symbols g). symbol_ok s \<and> si_configuration_id (sym_identity s) = gm_configuration_id m))"

lemma read_symbol_so_far:
  assumes "read_so_far m st" "read_symbol m item st = Inr st'"
  shows "read_so_far m st'"
proof -
  obtain ids g where st: "st = (ids, g)" by (cases st)
  from assms(1) have g: "graph_wf g" "ids = g_key_to_id g"
    and syms: "\<forall>s \<in> set (g_symbols g). symbol_ok s \<and> si_configuration_id (sym_identity s) = gm_configuration_id m"
    by (simp_all add: read_so_far_def st)
  from assms(2) obtain s i g' where s: "parse_symbol (snd item) (item_context ''symbols'' (fst item)) = Inr s"
    and same: "si_configuration_id (sym_identity s) = gm_configuration_id m" and new: "ids (sym_key s) = None"
    and step: "add_or_merge_symbol s g = Inr (i, g')" and st': "st' = (emplace (sym_key s) i ids, g')"
    by (auto simp: read_symbol_def st Let_def rbind_eq_Inr split: if_splits)
  note ok = accepted_symbol [OF s]
  have "sym_key s \<noteq> []" "sym_scope s \<noteq> Excluded"
    using ok by (simp_all add: symbol_ok_def stable_symbol_key_nonempty)
  moreover have "sym_key s \<notin> set (keys_of g)"
    using graph_wf_index_None [OF g(1)] new g(2) by blast
  ultimately obtain h where h: "add_or_merge_symbol s g = Inr (length (g_symbols g), h)" "graph_wf h"
      "g_symbols h = g_symbols g @ [s]" "g_key_to_id h = emplace (sym_key s) (length (g_symbols g)) (g_key_to_id g)"
    using add_fresh_symbol [OF g(1)] by metis
  then show ?thesis using step g(2) syms ok same by (auto simp: read_so_far_def st')
qed

interpretation edge_reader: graph_writer "read_edge ids" for ids
  by unfold_locales (auto simp: read_edge_def Let_def rbind_eq_Inr
      dest: edge_writer.step_wf [where x = "(f, t, k, ev)" for f t k ev, simplified]
        edge_writer.step_extends [where x = "(f, t, k, ev)" for f t k ev, simplified])

interpretation root_reader: graph_writer "read_root ids" for ids
  by unfold_locales (auto simp: read_root_def Let_def rbind_eq_Inr
      dest: root_writer.step_wf [where x = "(i, k, ev)" for i k ev, simplified]
        root_writer.step_extends [where x = "(i, k, ev)" for i k ev, simplified])

interpretation escape_reader: graph_writer "read_escape ids" for ids
  by unfold_locales (auto simp: read_escape_def Let_def rbind_eq_Inr
      dest: escape_writer.step_wf [where x = "(i, k, ev, f)" for i k ev f, simplified]
        escape_writer.step_extends [where x = "(i, k, ev, f)" for i k ev f, simplified])

interpretation suppression_reader: graph_writer "read_suppression ids" for ids
  by unfold_locales (auto simp: read_suppression_def Let_def rbind_eq_Inr
      dest: suppression_writer.step_wf [where x = "(i, ev)" for i ev, simplified]
        suppression_writer.step_extends [where x = "(i, ev)" for i ev, simplified])

lemma read_facts_symbols:
  "read_edge ids item g = Inr h \<Longrightarrow> g_symbols h = g_symbols g"
  "read_root ids item g = Inr h \<Longrightarrow> g_symbols h = g_symbols g"
  "read_escape ids item g = Inr h \<Longrightarrow> g_symbols h = g_symbols g"
  "read_suppression ids item g = Inr h \<Longrightarrow> g_symbols h = g_symbols g"
  by (auto simp: read_edge_def read_root_def read_escape_def read_suppression_def Let_def rbind_eq_Inr add_edge_def
      add_root_def add_escape_def add_suppression_def split: if_splits option.splits)

lemma read_sections_symbols:
  assumes "\<And>x g h. step x g = Inr h \<Longrightarrow> g_symbols h = g_symbols g" "fold_result step xs g = Inr h"
  shows "g_symbols h = g_symbols g"
  by (rule fold_result_invariant [where P = "\<lambda>h. g_symbols h = g_symbols g", OF assms(2)]) (auto dest: assms(1))

lemma accepted_closure:
  assumes "map_result (\<lambda>v. case as_string v of Some (x # xs) \<Rightarrow> Inr (x # xs) | _ \<Rightarrow> Inl e) vs = Inr ys"
  shows "[] \<notin> set ys"
  using assms by (induction vs arbitrary: ys) (auto simp: rbind_eq_Inr split: option.splits list.splits)

lemma accepted_metadata: "read_metadata doc = Inr m \<Longrightarrow> metadata_ok m"
  unfolding read_metadata_def
  by (auto simp: rbind_eq_Inr Let_def metadata_ok_def of_bool_def dest: accepted_text accepted_size accepted_closure
      split: if_splits)

lemma accepted_document:
  assumes "read_document doc = Inr a"
  shows "storable (ga_graph a) (ga_metadata a) \<and> canonicalize (ga_graph a) = ga_graph a"
proof -
  from assms obtain m ids g0 g1 g2 g3 g4 vs ws xs ys zs diagnostics where m: "read_metadata doc = Inr m"
    and symbols: "fold_result (read_symbol m) vs (Map.empty, empty_graph) = Inr (ids, g0)"
    and edges: "fold_result (read_edge ids) ws g0 = Inr g1" and roots: "fold_result (read_root ids) xs g1 = Inr g2"
    and escapes: "fold_result (read_escape ids) ys g2 = Inr g3"
    and suppressions: "fold_result (read_suppression ids) zs g3 = Inr g4"
    and a: "a = \<lparr>ga_graph = canonicalize g4, ga_metadata = m, ga_diagnostics = diagnostics\<rparr>"
    by (auto simp: read_document_def read_section_def rbind_eq_Inr)
  have "read_so_far m (Map.empty, empty_graph)"
    unfolding read_so_far_def using graph_wf_empty by (simp add: empty_graph_def)
  then have "read_so_far m (ids, g0)"
    by (rule fold_result_invariant [where P = "read_so_far m", OF symbols]) (rule read_symbol_so_far)
  then have g0: "graph_wf g0"
    and syms: "\<forall>s \<in> set (g_symbols g0). symbol_ok s \<and> si_configuration_id (sym_identity s) = gm_configuration_id m"
    by (simp_all add: read_so_far_def)
  have wf: "graph_wf g4"
    using edge_reader.loop_wf [OF g0 edges] root_reader.loop_wf [OF _ roots] escape_reader.loop_wf [OF _ escapes]
      suppression_reader.loop_wf [OF _ suppressions] by blast
  have "g_symbols g4 = g_symbols g0"
    using read_sections_symbols [OF _ edges] read_sections_symbols [OF _ roots] read_sections_symbols [OF _ escapes]
      read_sections_symbols [OF _ suppressions] read_facts_symbols by metis
  then show ?thesis
    using syms wf accepted_metadata [OF m]
    by (simp add: a storable_def graph_wf_canonicalize set_canonicalize_symbols canonicalize_idempotent)
qed

text \<open>
  C24: Whatever is read, an accepted artifact is consistent: its graph satisfies the invariant of the
  data model and is canonical, every symbol has the key of its identity and the identity of the
  artifact, the target fields belong together, and writing it again gives a text that reads back as
  the same graph and metadata.
\<close>
theorem accepted_artifact_storable:
  assumes "read_graph_artifact body = Inr a"
  shows "storable (ga_graph a) (ga_metadata a) \<and> canonicalize (ga_graph a) = ga_graph a"
  using assms by (auto simp: read_graph_artifact_def split: sum.splits dest: accepted_document)

lemma accepted_artifact_storable_witness:
  "\<exists>body a. read_graph_artifact body = Inr a \<and> storable (ga_graph a) (ga_metadata a) \<and>
     ga_graph a = canonicalize stored_graph"
proof -
  obtain body where "read_graph_artifact body = Inr \<lparr>ga_graph = canonicalize stored_graph,
      ga_metadata = stored_metadata, ga_diagnostics = [''note'']\<rparr>"
    using stored_artifact_read [OF stored_graph_storable, of "[''note'']"] by auto
  then show ?thesis using accepted_artifact_storable by fastforce
qed

end
