(* ===== verification/Report_Text_Facts.thy ===== *)
theory Report_Text_Facts
  imports Report_Text Differential_Text_Facts
begin

text \<open>
  The JSON report is a JSON document that states the report and, through it, the analysis: which
  definitions are unreachable, in which component, and why.
\<close>

section \<open>Negative numbers\<close>

lemma digits_not_minus: "to_string_nat n \<noteq> [] \<and> hd (to_string_nat n) \<noteq> CHR ''-''"
proof -
  have "hd (to_string_nat n) \<in> set (to_string_nat n)" by simp
  then have "is_digit (hd (to_string_nat n))" by (rule to_string_nat_digits)
  then show ?thesis by (auto simp: is_digit_def)
qed

lemma scan_integer_minus:
  assumes "t \<noteq> []" "hd t \<noteq> CHR ''-''"
  shows "scan_integer (p, CHR ''-'' # t) = scan_integer (Suc p, t)"
  using assms by (cases t) (simp_all add: scan_integer_def)

lemma from_chars_minus:
  assumes "n < 2 ^ 53"
  shows "from_chars_double (CHR ''-'' # to_string_nat n) = Some (- of_nat n)"
proof -
  have "c \<in> set (to_string_nat n) \<Longrightarrow> is_digit c" for c by (rule to_string_nat_digits)
  then have run: "takeWhile is_digit (to_string_nat n) = to_string_nat n"
    "dropWhile is_digit (to_string_nat n) = []" by (simp_all add: takeWhile_eq_all_conv)
  then show ?thesis
    unfolding from_chars_double_def Let_def using nearest_double_nat [OF assms] by (simp add: run)
qed

lemma parse_number_minus:
  assumes "n < 2 ^ 53" "ends_value rest"
  shows "parse_number (p, CHR ''-'' # to_string_nat n @ rest) =
    Inr (JNumber (- of_nat n), (Suc (p + length (to_string_nat n)), rest))"
proof -
  have "scan_integer (p, CHR ''-'' # to_string_nat n @ rest) = scan_integer (Suc p, to_string_nat n @ rest)"
    using digits_not_minus [of n] by (intro scan_integer_minus) simp_all
  then show ?thesis
    by (simp add: parse_number_def scan_integer_nat [OF assms(2)] scan_rest [OF assms(2)]
        from_chars_minus [OF assms(1)])
qed

lemma spells_int:
  assumes "\<bar>i\<bar> < 2 ^ 53"
  shows "spells (JNumber (of_int i)) (to_string_int i)"
proof (cases "i < 0")
  case True
  then have n: "nat (- i) < 2 ^ 53" using assms by (simp add: nat_less_iff)
  have "parse_value (p, CHR ''-'' # to_string_nat (nat (- i)) @ rest) =
      Inr (JNumber (of_int i), (Suc (p + length (to_string_nat (nat (- i)))), rest))"
    if "ends_value rest" for p rest
    using True parse_number_minus [OF n that, of p]
    by (simp add: parse_value.simps is_space_def Let_def)
  with True show ?thesis by (simp add: spells_def to_string_int_def is_space_def)
next
  case False
  then have "nat i < 2 ^ 53" using assms by (simp add: nat_less_iff)
  from spells_nat [OF this] False show ?thesis by (simp add: to_string_int_def)
qed

lemma readable_int [simp]:
  "\<bar>i\<bar> < 2 ^ 53 \<Longrightarrow> text_value (to_string_int i) = JNumber (of_int i)"
  "\<bar>i\<bar> < 2 ^ 53 \<Longrightarrow> readable (to_string_int i)"
  by (blast intro: spells_value spells_readable spells_int)+

section \<open>What fits\<close>

definition lines_fit :: "line_estimate \<Rightarrow> bool" where
  "lines_fit l \<longleftrightarrow> le_loc l < 2 ^ 53 \<and> le_unmeasured l < 2 ^ 53"

definition line_numbers :: "line_estimate \<Rightarrow> nat list" where
  "line_numbers l = [le_loc l, le_unmeasured l]"

text \<open>The numbers the entry of an aggregate and the summary are made of.\<close>

definition aggregate_numbers :: "unreachable_aggregate \<Rightarrow> nat list" where
  "aggregate_numbers a = ua_weak_component a # line_numbers (ua_lines a) @
     concat (map (\<lambda>x. line_numbers (os_lines x)) (ua_types a @ ua_files a @ ua_directories a)) @
     ua_sccs a @ map ce_from (ua_edges a) @ map ce_to (ua_edges a)"

definition summary_numbers :: "analysis_report \<Rightarrow> nat list" where
  "summary_numbers r =
     [ar_reportable_symbols r, ar_indexed_symbols r, ar_external_opaque_symbols r, ar_defined_symbols r,
      ar_reachable_symbols r, ar_structurally_reachable_symbols r, ar_provider_reachable_symbols r,
      ar_unreachable_symbols r, ar_actionable_unreachable_symbols r, ar_suppressed_symbols r,
      ar_public_api_symbols r, ar_internal_live_symbols r, ar_internal_unreachable_symbols r,
      length (ar_unreachable_components r)]"

definition aggregate_fits :: "unreachable_aggregate \<Rightarrow> bool" where
  "aggregate_fits a \<longleftrightarrow> list_all (\<lambda>n. n < 2 ^ 53) (aggregate_numbers a)"

definition counters_fit :: "analysis_report \<Rightarrow> bool" where
  "counters_fit r \<longleftrightarrow> list_all (\<lambda>n. n < 2 ^ 53) (summary_numbers r)"

definition run_fits :: "run_diagnostics \<Rightarrow> bool" where
  "run_fits d \<longleftrightarrow> (\<forall>u \<in> set (rd_units d).
     (\<forall>code. ud_exit_code u = Some code \<longrightarrow> \<bar>code\<bar> < 2 ^ 53) \<and>
     (\<forall>signal. ud_signal u = Some signal \<longrightarrow> \<bar>signal\<bar> < 2 ^ 53))"

definition report_fits :: "graph \<Rightarrow> reachability_result \<Rightarrow> analysis_report \<Rightarrow> analysis_metadata \<Rightarrow> bool" where
  "report_fits g result r m \<longleftrightarrow> (\<forall>s \<in> set (g_symbols g). source_ok (sym_source s)) \<and> counters_fit r \<and>
     (\<forall>a \<in> set (ar_unreachable_components r). aggregate_fits a) \<and> run_fits (md_run m) \<and>
     length (rr_unreachable_sccs result) < 2 ^ 53"

section \<open>The shared parts\<close>

lemma blank_lines [simp]: "blank_layout (lines_at n)" "blank (spaces n)"
  by (simp_all add: blank_layout_def blank_def lines_at_def spaces_def newline_def is_space_def list_all_iff)

lemma readable_list [readable_parts]: "\<forall>t \<in> set ts. readable t \<Longrightarrow> readable (list_at n ts)"
  by (simp add: list_at_def text_rules)

lemma value_list: "\<forall>t \<in> set ts. readable t \<Longrightarrow> text_value (list_at n ts) = JArray (map text_value ts)"
  by (simp add: list_at_def text_rules)

lemma readable_source [readable_parts]: "source_ok s \<Longrightarrow> readable (source_text s)"
  by (blast intro: spells_readable spells_source)

lemma primary_ok: "source_ok (sym_source s) \<Longrightarrow> sp_line (sx_location (primary_source_extent s)) < 2 ^ 53"
  by (auto simp: source_ok_def primary_source_extent_def extent_ok_def point_ok_def split: option.split)

lemma readable_unit: "run_fits d \<Longrightarrow> u \<in> set (rd_units d) \<Longrightarrow> readable (unit_text u)"
  by (auto simp: run_fits_def unit_text_def text_rules split: option.split)

lemma readable_run [readable_parts]: "run_fits d \<Longrightarrow> readable (run_text d)"
  by (simp add: run_text_def text_rules readable_parts readable_unit)

lemma readable_analysis_context [readable_parts]: "readable (analysis_context_text m)"
  by (simp add: analysis_context_text_def text_rules readable_parts)

lemma readable_report_summary [readable_parts]: "counters_fit r \<Longrightarrow> readable (report_summary_text r)"
  by (simp add: report_summary_text_def counters_fit_def summary_numbers_def text_rules)

text \<open>What a consumer finds for a translation unit.\<close>

definition states_unit :: "json \<Rightarrow> unit_diagnostic \<Rightarrow> bool" where
  "states_unit v u \<longleftrightarrow>
     json_at [''file''] v = Some (JString (ud_file u)) \<and>
     json_at [''status''] v = Some (JString (unit_status_to_string (ud_status u))) \<and>
     json_at [''stage''] v = Some (JString (ud_stage u)) \<and>
     json_at [''message''] v = Some (JString (ud_message u)) \<and>
     json_at [''exit_code''] v = map_option (\<lambda>code. JNumber (of_int code)) (ud_exit_code u)"

lemma unit_text_states:
  "run_fits d \<Longrightarrow> u \<in> set (rd_units d) \<Longrightarrow> states_unit (text_value (unit_text u)) u"
  by (auto simp: run_fits_def states_unit_def unit_text_def text_rules split: option.split)

lemma list_states:
  "(\<And>x. x \<in> set xs \<Longrightarrow> P (text_value (f x)) x) \<Longrightarrow> list_all2 P (map text_value (map f xs)) xs"
  by (simp add: list_all2_conv_all_nth)

section \<open>Entries\<close>

definition states_root :: "graph \<Rightarrow> json \<Rightarrow> root \<Rightarrow> bool" where
  "states_root g v r \<longleftrightarrow>
     json_at [''key''] v = Some (JString (sym_key (g_symbols g ! root_symbol r))) \<and>
     json_at [''kind''] v = Some (JString (root_kind_to_string (root_kind r))) \<and>
     json_at [''evidence'', ''provider''] v = Some (JString (ev_provider (root_evidence r))) \<and>
     json_at [''evidence'', ''reason''] v = Some (JString (ev_reason (root_evidence r)))"

lemma root_text_states:
  assumes "source_ok (sym_source (g_symbols g ! root_symbol r))"
  shows "readable (report_root_text g r)" "states_root g (text_value (report_root_text g r)) r"
  using assms by (simp_all add: report_root_text_def states_root_def Let_def text_rules readable_parts)

lemma readable_retained [readable_parts]: "readable (public_api_text g x)" "readable (provider_text g x)"
  by (simp_all add: public_api_text_def provider_text_def Let_def text_rules readable_parts split: option.split)

definition states_evidence :: "graph \<Rightarrow> json \<Rightarrow> finding_evidence \<Rightarrow> bool" where
  "states_evidence g v x \<longleftrightarrow>
     json_at [''kind''] v = Some (JString (finding_evidence_kind_to_string (fe_kind x))) \<and>
     json_at [''provider''] v = Some (JString (ev_provider (fe_evidence x))) \<and>
     json_at [''reason''] v = Some (JString (ev_reason (fe_evidence x))) \<and>
     json_at [''escape_kind''] v = map_option (\<lambda>kind. JString (escape_kind_to_string kind)) (fe_escape_kind x) \<and>
     json_at [''from_symbol''] v = map_option (\<lambda>i. JString (sym_qualified_name (g_symbols g ! i))) (fe_from x)"

lemma evidence_text_states:
  "readable (finding_evidence_text g x)" "states_evidence g (text_value (finding_evidence_text g x)) x"
  by (auto simp: finding_evidence_text_def states_evidence_def text_rules split: option.split)

definition states_suppression :: "json \<Rightarrow> evidence \<Rightarrow> bool" where
  "states_suppression v e \<longleftrightarrow>
     json_at [''provider''] v = Some (JString (ev_provider e)) \<and> json_at [''reason''] v = Some (JString (ev_reason e))"

lemma suppression_text_states: "states_suppression (text_value (evidence_text e)) e"
  by (simp add: states_suppression_def evidence_text_def text_rules)

text \<open>The entry of a finding. \<open>place\<close> and \<open>weak\<close> are the numbers written for its components.\<close>

definition states_finding :: "graph \<Rightarrow> int \<Rightarrow> int \<Rightarrow> evidence list option \<Rightarrow> json \<Rightarrow> finding \<Rightarrow> bool" where
  "states_finding g place weak suppressions v f \<longleftrightarrow>
     (let s = g_symbols g ! fi_symbol f; source = sx_location (primary_source_extent s) in
      json_at [''key''] v = Some (JString (sym_key s)) \<and>
      json_at [''symbol''] v = Some (JString (sym_qualified_name s)) \<and>
      json_at [''signature''] v = Some (JString (sym_signature s)) \<and>
      json_at [''file''] v = Some (JString (sp_file source)) \<and>
      json_at [''line''] v = Some (JNumber (of_nat (sp_line source))) \<and>
      json_at [''classification''] v = Some (JString (classification_to_string (fi_classification f))) \<and>
      json_at [''component''] v = Some (JNumber (of_int place)) \<and>
      json_at [''weak_component''] v = Some (JNumber (of_int weak)) \<and>
      (\<exists>es. json_at [''evidence''] v = Some (JArray es) \<and> list_all2 (states_evidence g) es (fi_evidence f)) \<and>
      (case suppressions of
         None \<Rightarrow> json_at [''suppression_evidence''] v = None
       | Some ss \<Rightarrow> \<exists>es. json_at [''suppression_evidence''] v = Some (JArray es) \<and> list_all2 states_suppression es ss))"

lemma finding_text_states:
  assumes "source_ok (sym_source (g_symbols g ! fi_symbol f))"
    and "\<bar>parts ! fi_symbol f\<bar> < 2 ^ 53" "\<bar>weak ! fi_symbol f\<bar> < 2 ^ 53"
  shows "readable (finding_text g parts weak f suppressions)"
    and "states_finding g (parts ! fi_symbol f) (weak ! fi_symbol f) suppressions
      (text_value (finding_text g parts weak f suppressions)) f"
proof -
  have evidence: "list_all2 (states_evidence g) (map (text_value \<circ> finding_evidence_text g) (fi_evidence f)) (fi_evidence f)"
    using list_states [of _ "states_evidence g"] evidence_text_states(2) by (simp add: list_all2_conv_all_nth)
  have suppression: "list_all2 states_suppression (map (text_value \<circ> evidence_text) ss) ss" for ss
    using suppression_text_states by (simp add: list_all2_conv_all_nth)
  note line = primary_ok [OF assms(1)]
  show "readable (finding_text g parts weak f suppressions)"
    using assms line
    by (cases suppressions) (simp_all add: finding_text_def Let_def text_rules readable_parts evidence_text_states(1))
  show "states_finding g (parts ! fi_symbol f) (weak ! fi_symbol f) suppressions
      (text_value (finding_text g parts weak f suppressions)) f"
    using assms line evidence suppression
    by (cases suppressions)
      (simp_all add: states_finding_def finding_text_def Let_def text_rules readable_parts value_list
        evidence_text_states(1))
qed

text \<open>The entry of an aggregate.\<close>

definition states_aggregate :: "graph \<Rightarrow> json \<Rightarrow> unreachable_aggregate \<Rightarrow> bool" where
  "states_aggregate g v a \<longleftrightarrow>
     json_at [''id''] v = Some (JNumber (of_nat (ua_weak_component a))) \<and>
     json_at [''estimated_loc''] v = Some (JNumber (of_nat (le_loc (ua_lines a)))) \<and>
     json_at [''finding_keys''] v = Some (JArray (map JString (member_keys g Actionable (ua_members a)))) \<and>
     json_at [''suppressed_finding_keys''] v = Some (JArray (map JString (member_keys g Suppressed (ua_members a)))) \<and>
     (\<exists>ks. json_at [''sccs''] v = Some (JArray ks) \<and>
       map (json_at [''id'']) ks = map (\<lambda>k. Some (JNumber (of_nat k))) (ua_sccs a)) \<and>
     (\<exists>es. json_at [''edges''] v = Some (JArray es) \<and>
       map (\<lambda>e. (json_at [''from_scc''] e, json_at [''to_scc''] e)) es =
         map (\<lambda>e. (Some (JNumber (of_nat (ce_from e))), Some (JNumber (of_nat (ce_to e))))) (ua_edges a))"

lemma readable_ownership [readable_parts]:
  assumes "\<forall>x \<in> set xs. lines_fit (os_lines x)" "label_name \<in> {''type'', ''file'', ''directory''}"
  shows "readable (ownership_text g label_name xs)"
proof -
  have "readable (object_text (lines_at 10)
      ([(label_name, quoted (os_label x)), (''estimated_loc'', to_string_nat (le_loc (os_lines x))),
        (''unmeasured_symbols'', to_string_nat (le_unmeasured (os_lines x)))] @ keys_text g (os_members x)))"
    if "x \<in> set xs" for x
    using assms that by (auto simp: lines_fit_def keys_text_def text_rules)
  then show ?thesis by (auto simp: ownership_text_def blank_def intro!: readable_array)
qed

lemma readable_scc [readable_parts]: "k < 2 ^ 53 \<Longrightarrow> readable (scc_text g parts a k)"
  by (simp add: scc_text_def keys_text_def text_rules)

lemma readable_condensation_edge [readable_parts]:
  "ce_from e < 2 ^ 53 \<Longrightarrow> ce_to e < 2 ^ 53 \<Longrightarrow> readable (condensation_edge_text e)"
  by (simp add: condensation_edge_text_def text_rules)

lemma scc_text_id: "k < 2 ^ 53 \<Longrightarrow> json_find ''id'' (text_value (scc_text g parts a k)) = Some (JNumber (of_nat k))"
  by (simp add: scc_text_def keys_text_def text_rules)

lemma condensation_edge_ends:
  assumes "ce_from e < 2 ^ 53" "ce_to e < 2 ^ 53"
  shows "json_find ''from_scc'' (text_value (condensation_edge_text e)) = Some (JNumber (of_nat (ce_from e)))"
    "json_find ''to_scc'' (text_value (condensation_edge_text e)) = Some (JNumber (of_nat (ce_to e)))"
  using assms by (simp_all add: condensation_edge_text_def text_rules)

lemma aggregate_text_states:
  assumes "aggregate_fits a"
  shows "readable (component_text g parts a)" "states_aggregate g (text_value (component_text g parts a)) a"
proof -
  have fits: "lines_fit (ua_lines a)" "ua_weak_component a < 2 ^ 53" "\<forall>k \<in> set (ua_sccs a). k < 2 ^ 53"
    "\<forall>e \<in> set (ua_edges a). ce_from e < 2 ^ 53 \<and> ce_to e < 2 ^ 53"
    "\<forall>x \<in> set (ua_types a). lines_fit (os_lines x)" "\<forall>x \<in> set (ua_files a). lines_fit (os_lines x)"
    "\<forall>x \<in> set (ua_directories a). lines_fit (os_lines x)"
    using assms by (auto simp: aggregate_fits_def aggregate_numbers_def line_numbers_def lines_fit_def list_all_iff)
  then have ownership: "readable (object_text (lines_at 8)
      [(''types'', ownership_text g ''type'' (ua_types a)), (''files'', ownership_text g ''file'' (ua_files a)),
       (''directories'', ownership_text g ''directory'' (ua_directories a))])"
    by (simp add: text_rules readable_parts)
  show "readable (component_text g parts a)"
    "states_aggregate g (text_value (component_text g parts a)) a"
    using fits(1-4) ownership
    by (simp_all add: component_text_def states_aggregate_def keys_text_def lines_fit_def text_rules readable_parts
        value_list scc_text_id condensation_edge_ends)
qed

section \<open>The report as a whole\<close>

text \<open>The numbers under which the components of a symbol are written.\<close>

definition finding_place ::
    "reachability_result \<Rightarrow> unreachable_aggregate list \<Rightarrow> nat \<Rightarrow> nat \<Rightarrow> nat \<Rightarrow> bool" where
  "finding_place result aggregates i c k \<longleftrightarrow>
     c < length (rr_unreachable_sccs result) \<and> i \<in> set (rr_unreachable_sccs result ! c) \<and>
     k < length aggregates \<and> i \<in> am_symbol ` set (ua_members (aggregates ! k))"

lemma weak_component_by_symbol_unfold:
  assumes "\<And>k. k < length aggregates \<Longrightarrow> ua_weak_component (aggregates ! k) = m + k"
  shows "fold (\<lambda>component v. fold (\<lambda>x v. v[am_symbol x := int (ua_weak_component component)]) (ua_members component) v)
      aggregates v =
    fold (\<lambda>(k, members) v. fold (\<lambda>i v. v[i := int k]) members v)
      (enumerate m (map (\<lambda>a. map am_symbol (ua_members a)) aggregates)) v"
  using assms
proof (induction aggregates arbitrary: m v)
  case (Cons a aggregates)
  have "ua_weak_component a = m" using Cons.prems [of 0] by simp
  moreover have "k < length aggregates \<Longrightarrow> ua_weak_component (aggregates ! k) = Suc m + k" for k
    using Cons.prems [of "Suc k"] by simp
  ultimately show ?case using Cons.IH [of "Suc m"] by (simp add: fold_map o_def)
qed simp

lemma finding_placed:
  assumes "graph_wf g" "analyze_reachability g = Some result"
    and "aggregates = ar_unreachable_components (build_report g result)" "unreachable_definition g i"
  shows "\<exists>c k. finding_place result aggregates i c k \<and>
    scc_by_symbol (length (g_symbols g)) (rr_unreachable_sccs result) ! i = int c \<and>
    weak_component_by_symbol (length (g_symbols g)) aggregates ! i = int k"
proof -
  note shape = analysis_shape [OF assms(1,2)] and members = aggregate_members_partition [OF assms(1-3)]
  let ?ms = "map (\<lambda>a. map am_symbol (ua_members a)) aggregates"
  have i: "i < length (g_symbols g)" "i \<in> set (concat (rr_unreachable_sccs result))" "i \<in> set (concat ?ms)"
    using assms(4) shape(2) members(3) by (simp_all only: mem_Collect_eq, simp add: unreachable_definition_def)
  obtain c where "c < length (rr_unreachable_sccs result)" "i \<in> set (rr_unreachable_sccs result ! c)"
    "scc_by_symbol (length (g_symbols g)) (rr_unreachable_sccs result) ! i = int c"
    using scc_by_symbol_eq [OF shape(1) i(1)] i(2) by blast
  moreover have "weak_component_by_symbol (length (g_symbols g)) aggregates =
      fold (\<lambda>(k, members) v. fold (\<lambda>i v. v[i := int k]) members v) (enumerate 0 ?ms) (replicate (length (g_symbols g)) (- 1))"
    unfolding weak_component_by_symbol_def
    by (rule weak_component_by_symbol_unfold) (simp add: members(6))
  then obtain k where "k < length aggregates" "i \<in> set (?ms ! k)"
    "weak_component_by_symbol (length (g_symbols g)) aggregates ! i = int k"
    using write_components [OF members(2), where h = int and i = i and m = 0 and
        v = "replicate (length (g_symbols g)) (- 1)"] i(1,3) by fastforce
  ultimately show ?thesis by (auto simp: finding_place_def)
qed

lemma value_report_summary:
  assumes "counters_fit r"
  shows "json_find ''unreachable_symbols'' (text_value (report_summary_text r)) =
      Some (JNumber (of_nat (ar_unreachable_symbols r)))"
    "json_find ''reachable_symbols'' (text_value (report_summary_text r)) =
      Some (JNumber (of_nat (ar_reachable_symbols r)))"
    "json_find ''actionable_unreachable_symbols'' (text_value (report_summary_text r)) =
      Some (JNumber (of_nat (ar_actionable_unreachable_symbols r)))"
    "json_find ''suppressed_symbols'' (text_value (report_summary_text r)) =
      Some (JNumber (of_nat (ar_suppressed_symbols r)))"
  using assms by (simp_all add: report_summary_text_def counters_fit_def summary_numbers_def text_rules)

lemma value_run:
  assumes "run_fits d"
  shows "json_find ''state'' (text_value (run_text d)) = Some (JString (run_state_to_string (rd_state d)))"
    "json_find ''partial_graph_discarded'' (text_value (run_text d)) = Some (JBool (rd_discarded d))"
    "json_find ''translation_units'' (text_value (run_text d)) = Some (JArray (map text_value (map unit_text (rd_units d))))"
  using assms by (simp_all add: run_text_def text_rules readable_parts readable_unit value_list)

lemma readable_section [readable_parts]: "\<forall>t \<in> set ts. readable t \<Longrightarrow> readable (section_text ts)"
  by (simp add: section_text_def text_rules blank_def is_space_def)

lemma value_section: "\<forall>t \<in> set ts. readable t \<Longrightarrow> text_value (section_text ts) = JArray (map text_value ts)"
  by (simp add: section_text_def text_rules blank_def is_space_def)

text \<open>What the entries of both lists of findings are known to state.\<close>

lemma finding_entries:
  assumes "graph_wf g" "analyze_reachability g = Some result" "r = build_report g result" "report_fits g result r m"
    and "unreachable_definition g (fi_symbol f)"
    and "entry = finding_text g (scc_by_symbol (length (g_symbols g)) (rr_unreachable_sccs result))
      (weak_component_by_symbol (length (g_symbols g)) (ar_unreachable_components r)) f suppressions"
  shows "readable entry"
    and "\<exists>c k. finding_place result (ar_unreachable_components r) (fi_symbol f) c k \<and>
      states_finding g (int c) (int k) suppressions (text_value entry) f"
proof -
  obtain c k where place: "finding_place result (ar_unreachable_components r) (fi_symbol f) c k"
    "scc_by_symbol (length (g_symbols g)) (rr_unreachable_sccs result) ! fi_symbol f = int c"
    "weak_component_by_symbol (length (g_symbols g)) (ar_unreachable_components r) ! fi_symbol f = int k"
    using finding_placed [OF assms(1,2) _ assms(5)] assms(3) by blast
  have "source_ok (sym_source (g_symbols g ! fi_symbol f))"
    using assms(4,5) by (simp add: report_fits_def unreachable_definition_def)
  moreover have "\<bar>int c\<bar> < 2 ^ 53" "\<bar>int k\<bar> < 2 ^ 53"
    using place(1) assms(4) by (simp_all add: finding_place_def report_fits_def counters_fit_def summary_numbers_def)
  ultimately show "readable entry"
    "\<exists>c k. finding_place result (ar_unreachable_components r) (fi_symbol f) c k \<and>
      states_finding g (int c) (int k) suppressions (text_value entry) f"
    using finding_text_states [of g f "scc_by_symbol (length (g_symbols g)) (rr_unreachable_sccs result)"
        "weak_component_by_symbol (length (g_symbols g)) (ar_unreachable_components r)" suppressions] place
    by (auto simp: assms(6))
qed

lemma keys_of_entries:
  "list_all2 (\<lambda>v x. json_at [k] v = Some (JString (h x))) vs xs \<Longrightarrow>
     {w. \<exists>x \<in> set vs. json_at [k] x = Some w} = JString ` h ` set xs"
  by (induction rule: list_all2_induct) auto

lemma finding_symbols:
  assumes "graph_wf g" "analyze_reachability g = Some result"
  shows "fi_symbol ` set (ar_findings (build_report g result)) \<union>
    (\<lambda>x. fi_symbol (sf_finding x)) ` set (ar_suppressed_findings (build_report g result)) =
    {i. unreachable_definition g i}"
  unfolding report_findings_sets [OF assms] by (auto simp: image_image)

text \<open>
  C26: The JSON report is valid JSON, whatever bytes occur in names, reasons and paths, and states
  the analysis. Its lists have one entry for each translation unit, root, aggregate, finding,
  suppressed finding and diagnostic, in order, with what the report holds about it; each finding
  carries the numbers of the strongly connected and of the weak component it belongs to; and the
  keys of the findings, suppressed or not, are exactly those of the definitions no root can reach.
\<close>
theorem json_report_faithful:
  assumes "graph_wf g" "analyze_reachability g = Some result" "r = build_report g result" "report_fits g result r m"
  shows "\<exists>doc units roots aggregates findings suppressed.
    parse (write_json_report g result r diagnostics m) = Inr doc \<and>
    json_at [''mode''] doc = Some (JString (md_mode m)) \<and>
    json_at [''run'', ''translation_units''] doc = Some (JArray units) \<and>
    list_all2 states_unit units (rd_units (md_run m)) \<and>
    json_at [''summary'', ''unreachable_symbols''] doc = Some (JNumber (of_nat (ar_unreachable_symbols r))) \<and>
    json_at [''summary'', ''suppressed_symbols''] doc = Some (JNumber (of_nat (ar_suppressed_symbols r))) \<and>
    json_at [''roots''] doc = Some (JArray roots) \<and> list_all2 (states_root g) roots (g_roots g) \<and>
    json_at [''unreachable_components''] doc = Some (JArray aggregates) \<and>
    list_all2 (states_aggregate g) aggregates (ar_unreachable_components r) \<and>
    json_at [''findings''] doc = Some (JArray findings) \<and>
    list_all2 (\<lambda>v f. \<exists>c k. finding_place result (ar_unreachable_components r) (fi_symbol f) c k \<and>
      states_finding g (int c) (int k) None v f) findings (ar_findings r) \<and>
    json_at [''suppressed_findings''] doc = Some (JArray suppressed) \<and>
    list_all2 (\<lambda>v x. \<exists>c k. finding_place result (ar_unreachable_components r) (fi_symbol (sf_finding x)) c k \<and>
      states_finding g (int c) (int k) (Some (sf_suppressions x)) v (sf_finding x))
      suppressed (ar_suppressed_findings r) \<and>
    {v. \<exists>x \<in> set findings \<union> set suppressed. json_at [''key''] x = Some v} =
      {JString (sym_key (g_symbols g ! i)) | i. unreachable_definition g i} \<and>
    json_at [''diagnostics''] doc = Some (JArray (map JString diagnostics))"
proof -
  let ?components = "scc_by_symbol (length (g_symbols g)) (rr_unreachable_sccs result)"
    and ?weak = "weak_component_by_symbol (length (g_symbols g)) (ar_unreachable_components r)"
  let ?f = "\<lambda>f. finding_text g ?components ?weak f None"
    and ?s = "\<lambda>x. finding_text g ?components ?weak (sf_finding x) (Some (sf_suppressions x))"
  have fits: "counters_fit r" "run_fits (md_run m)" "a \<in> set (ar_unreachable_components r) \<Longrightarrow> aggregate_fits a" for a
    using assms(4) by (simp_all add: report_fits_def)
  have roots: "x \<in> set (g_roots g) \<Longrightarrow> source_ok (sym_source (g_symbols g ! root_symbol x))" for x
    using assms(1,4) by (auto simp: report_fits_def graph_wf_def)
  note symbols = finding_symbols [OF assms(1,2), folded assms(3)]
  have dead: "f \<in> set (ar_findings r) \<Longrightarrow> unreachable_definition g (fi_symbol f)"
    "x \<in> set (ar_suppressed_findings r) \<Longrightarrow> unreachable_definition g (fi_symbol (sf_finding x))" for f x
    using symbols by blast+
  note f = finding_entries [OF assms dead(1) refl] and s = finding_entries [OF assms dead(2) refl]
  have entries: "list_all2 (\<lambda>v f. \<exists>c k. finding_place result (ar_unreachable_components r) (fi_symbol f) c k \<and>
      states_finding g (int c) (int k) None v f) (map text_value (map ?f (ar_findings r))) (ar_findings r)"
    "list_all2 (\<lambda>v x. \<exists>c k. finding_place result (ar_unreachable_components r) (fi_symbol (sf_finding x)) c k \<and>
      states_finding g (int c) (int k) (Some (sf_suppressions x)) v (sf_finding x))
      (map text_value (map ?s (ar_suppressed_findings r))) (ar_suppressed_findings r)"
    by (rule list_states, rule f(2), assumption) (rule list_states, rule s(2), assumption)
  note keys = entries [THEN list_all2_mono, THEN keys_of_entries [of "''key''"]]
  have "{v. \<exists>x \<in> set (map text_value (map ?f (ar_findings r))). json_at [''key''] x = Some v} =
      JString ` (\<lambda>f. sym_key (g_symbols g ! fi_symbol f)) ` set (ar_findings r)"
    "{v. \<exists>x \<in> set (map text_value (map ?s (ar_suppressed_findings r))). json_at [''key''] x = Some v} =
      JString ` (\<lambda>x. sym_key (g_symbols g ! fi_symbol (sf_finding x))) ` set (ar_suppressed_findings r)"
    by (rule keys; auto simp: states_finding_def Let_def)+
  note keys = this
  let ?all = "{v. \<exists>x \<in> set (map text_value (map ?f (ar_findings r))) \<union>
        set (map text_value (map ?s (ar_suppressed_findings r))). json_at [''key''] x = Some v}"
  have "?all = JString ` (\<lambda>i. sym_key (g_symbols g ! i)) ` (fi_symbol ` set (ar_findings r) \<union>
      (\<lambda>x. fi_symbol (sf_finding x)) ` set (ar_suppressed_findings r))"
    unfolding bex_Un Collect_disj_eq keys by (simp only: image_Un image_image)
  then have keys: "?all = {JString (sym_key (g_symbols g ! i)) | i. unreachable_definition g i}"
    unfolding symbols by (auto simp: image_iff simp del: set_map)
  have sections: "\<forall>t \<in> set (map (report_root_text g) (g_roots g)). readable t"
    "\<forall>t \<in> set (map (component_text g ?components) (ar_unreachable_components r)). readable t"
    "\<forall>t \<in> set (map ?f (ar_findings r)). readable t" "\<forall>t \<in> set (map ?s (ar_suppressed_findings r)). readable t"
    "\<forall>t \<in> set (map (public_api_text g) (ar_public_api r)). readable t"
    "\<forall>t \<in> set (map (provider_text g) (ar_provider_reachable r)). readable t"
    "\<forall>t \<in> set (map quoted diagnostics). readable t"
    using roots fits(3) f(1) s(1) by (auto simp: root_text_states aggregate_text_states readable_parts)
  note parts = readable_run [OF fits(2)] readable_report_summary [OF fits(1)] sections [THEN readable_section]
    sections [THEN value_section] value_run [OF fits(2)] value_report_summary [OF fits(1)]
  have version: "readable (to_string_nat report_schema_version)" by (simp add: report_schema_version_def)
  have states: "list_all2 states_unit (map text_value (map unit_text (rd_units (md_run m)))) (rd_units (md_run m))"
    by (rule list_states) (rule unit_text_states [OF fits(2)])
  have states': "list_all2 (states_root g) (map text_value (map (report_root_text g) (g_roots g))) (g_roots g)"
    by (rule list_states) (rule root_text_states(2) [OF roots])
  have "list_all2 (states_aggregate g) (map text_value (map (component_text g ?components) (ar_unreachable_components r)))
      (ar_unreachable_components r)"
    by (rule list_states) (rule aggregate_text_states(2) [OF fits(3)])
  note states = states states' this
  have quotes: "map text_value (map quoted diagnostics) = map JString diagnostics" by simp
  show ?thesis
    unfolding write_json_report_def Let_def
    by (subst parse_document)
      (use entries keys states in \<open>auto simp: text_rules readable_analysis_context parts version quotes simp del: map_map\<close>)
qed


definition shown_metadata :: analysis_metadata where
  "shown_metadata = \<lparr>md_mode = ''application'', md_configuration_id = ''default'', md_configuration = [],
     md_target_id = [], md_target_name = [], md_target_kind = [], md_closure_targets = [],
     md_run = \<lparr>rd_state = Run_Complete, rd_frontend = Ast_Json, rd_discarded = False,
       rd_units = [\<lparr>ud_file = ''a.cpp'', ud_status = Unit_Indexed, ud_stage = ''indexing'', ud_message = ''ok'',
         ud_exit_code = Some (-1), ud_signal = None\<rparr>]\<rparr>\<rparr>"

lemma sample_report_fits: "report_fits sample_program sample_result (build_report sample_program sample_result) shown_metadata"
proof -
  let ?r = "build_report sample_program sample_result"
  have "list_all (\<lambda>n. n \<le> 40) (summary_numbers ?r)"
    "list_all (\<lambda>a. list_all (\<lambda>n. n \<le> 40) (aggregate_numbers a)) (ar_unreachable_components ?r)"
    by code_simp+
  then have "counters_fit ?r" "\<forall>a \<in> set (ar_unreachable_components ?r). aggregate_fits a"
    by (fastforce simp: counters_fit_def aggregate_fits_def list_all_iff)+
  moreover have "\<forall>s \<in> set (g_symbols sample_program). source_ok (sym_source s)"
    by (simp add: sample_program_def sample_defs source_ok_def extent_ok_def point_ok_def)
  ultimately show ?thesis
    by (simp add: report_fits_def run_fits_def shown_metadata_def sample_result_def)
qed

lemma json_report_faithful_witness:
  "\<exists>doc. parse (write_json_report sample_program sample_result (build_report sample_program sample_result) [''d''] shown_metadata) =
     Inr doc \<and> json_at [''diagnostics''] doc = Some (JArray [JString ''d''])"
  using json_report_faithful [OF sample_program_wf sample_analysis refl sample_report_fits, of "[''d'']"] by auto

section \<open>Runs that did not complete\<close>

lemma run_diagnostic_read:
  assumes "run_fits d"
  shows "\<exists>doc units. parse (write_json_run_diagnostic message d m) = Inr doc \<and>
    json_at [''run'', ''state''] doc = Some (JString (run_state_to_string (rd_state d))) \<and>
    json_at [''run'', ''partial_graph_discarded''] doc = Some (JBool (rd_discarded d)) \<and>
    json_at [''run'', ''translation_units''] doc = Some (JArray units) \<and>
    list_all2 states_unit units (rd_units d) \<and>
    json_at [''diagnostics''] doc = Some (JArray [JString message])"
proof -
  have version: "readable (to_string_nat report_schema_version)" by (simp add: report_schema_version_def)
  have "list_all2 states_unit (map text_value (map unit_text (rd_units d))) (rd_units d)"
    by (rule list_states) (rule unit_text_states [OF assms])
  then show ?thesis
    unfolding write_json_run_diagnostic_def
    by (subst parse_document)
      (auto simp: text_rules readable_analysis_context readable_run value_run assms version blank_def simp del: map_map)
qed

text \<open>
  The diagnostics of a failed run are valid JSON with one entry for each translation unit, in
  order, its file, status, stage and cause, and with the message of the failure.
\<close>
theorem json_run_diagnostic_faithful:
  assumes "run_fits d"
  shows "\<exists>doc units. parse (write_json_run_diagnostic message d m) = Inr doc \<and>
    json_at [''run'', ''state''] doc = Some (JString (run_state_to_string (rd_state d))) \<and>
    json_at [''run'', ''partial_graph_discarded''] doc = Some (JBool (rd_discarded d)) \<and>
    json_at [''run'', ''translation_units''] doc = Some (JArray units) \<and>
    list_all2 states_unit units (rd_units d) \<and>
    json_at [''diagnostics''] doc = Some (JArray [JString message])"
  by (rule run_diagnostic_read [OF assms])

lemma json_run_diagnostic_faithful_witness:
  "\<exists>doc. parse (write_json_run_diagnostic ''x'' (md_run shown_metadata) shown_metadata) = Inr doc \<and>
     json_at [''diagnostics''] doc = Some (JArray [JString ''x''])"
proof -
  have "run_fits (md_run shown_metadata)" by (simp add: run_fits_def shown_metadata_def)
  from json_run_diagnostic_faithful [OF this] show ?thesis by blast
qed

end
