(* ===== verification/Main_Facts.thy ===== *)
theory Main_Facts
  imports Main_Program Artifact_Accepted Index_Outcome Command_Line_Facts Differential_Facts Build_Facts Report_Text_Facts
begin

text \<open>
  The program as a whole: it always ends, its exit status is the verdict it documents, and a run that
  fails says what became of every translation unit.
\<close>

section \<open>From the options to the run\<close>

lemma adopt_target_keeps:
  "co_frontend (adopt_target model s c) = co_frontend c" "co_output (adopt_target model s c) = co_output c"
  "co_format (adopt_target model s c) = co_format c"
  "co_fail_on_unreachable (adopt_target model s c) = co_fail_on_unreachable c"
  "co_fail_on_diff (adopt_target model s c) = co_fail_on_diff c"
  by (simp_all add: adopt_target_def Let_def)

lemma planned_options:
  assumes "make_plan api fs dirs c = Some (Inr plan)"
  shows "co_frontend (pl_options plan) = co_frontend c" and "co_output (pl_options plan) = co_output c"
    and "co_format (pl_options plan) = co_format c"
    and "co_fail_on_unreachable (pl_options plan) = co_fail_on_unreachable c"
    and "co_fail_on_diff (pl_options plan) = co_fail_on_diff c"
proof -
  from assms obtain policies differential commands chosen where
    chosen: "choose_commands fs dirs (c\<lparr>co_callback_rules := canonicalize_callback_registration_rules
        (co_callback_rules c @ concat (map pp_callback_registrations policies))\<rparr>) commands = Some (Inr chosen)"
    and settled: "settle_plan policies differential chosen = Inr plan"
    by (auto simp: make_plan_def Let_def rbind_eq_Inr split: if_splits sum.splits)
  obtain d selection kept where triple: "chosen = (d, selection, kept)" by (cases chosen)
  have d: "co_frontend d = co_frontend c" "co_output d = co_output c" "co_format d = co_format c"
    "co_fail_on_unreachable d = co_fail_on_unreachable c" "co_fail_on_diff d = co_fail_on_diff c"
    using chosen by (auto simp: choose_commands_def triple rbind_eq_Inr adopt_target_keeps split: sum.splits option.splits)
  have "co_frontend (pl_options plan) = co_frontend d" "co_output (pl_options plan) = co_output d"
    "co_format (pl_options plan) = co_format d" "co_fail_on_unreachable (pl_options plan) = co_fail_on_unreachable d"
    "co_fail_on_diff (pl_options plan) = co_fail_on_diff d"
    using settled by (auto simp: settle_plan_def triple rbind_eq_Inr Let_def split: if_splits)
  with d show "co_frontend (pl_options plan) = co_frontend c" "co_output (pl_options plan) = co_output c"
    "co_format (pl_options plan) = co_format c" "co_fail_on_unreachable (pl_options plan) = co_fail_on_unreachable c"
    "co_fail_on_diff (pl_options plan) = co_fail_on_diff c" by simp_all
qed

lemma make_indexer_identity: "make_indexer fs options = Inr prepared \<Longrightarrow> ix_configuration_id prepared \<noteq> []"
  by (auto simp: make_indexer_def Let_def rbind_eq_Inr split: if_splits)

lemma frontend_success:
  assumes "run_frontend mn plan = (Inr r, st)" "co_frontend (pl_options plan) = Ast_Json"
  obtains options where "make_indexer (mn_files mn) (index_options_of (pl_options plan) (pl_policies plan) (pl_selection plan)) = Inr options"
    and "ix_configuration_id options \<noteq> []" and "index_run options (mn_run mn) (pl_commands plan) = (Inr r, st)"
  using assms by (auto simp: run_frontend_def Let_def dest: make_indexer_identity split: sum.splits)

section \<open>The program returns\<close>

lemma choose_commands_returns: "choose_commands fs dirs c commands \<noteq> None"
  using select_target_commands_returns by (auto simp: choose_commands_def split: sum.splits option.splits)

lemma make_plan_returns: "make_plan api fs dirs c \<noteq> None"
  using choose_commands_returns by (auto simp: make_plan_def Let_def split: sum.splits)

lemma compare_baseline_returns: "compare_baseline mn plan r result report \<noteq> None"
proof (cases "co_baseline_graph (pl_options plan)")
  case (Some path)
  have "build_differential_report baseline g result report m policy \<noteq> None"
    if "read_graph_artifact body = Inr baseline" for body baseline g m policy
  proof -
    have "graph_wf (ga_graph baseline)" using that accepted_document
      by (auto simp: read_graph_artifact_def storable_def split: sum.splits)
    from differential_returns [OF this] show ?thesis by force
  qed
  with Some show ?thesis by (auto simp: compare_baseline_def split: sum.splits read_result.splits)
qed (simp add: compare_baseline_def)

lemma report_success_returns: "graph_wf (ir_graph r) \<Longrightarrow> report_success mn plan r \<noteq> None"
  using analyzed_total compare_baseline_returns by (fastforce simp: report_success_def Let_def)

lemma run_frontend_graph:
  assumes "run_frontend mn plan = (Inr r, st)" and "visits_all (ho_methods (re_orders (mn_run mn)))"
    and "\<forall>options commands r. mn_libtooling mn options commands = Inr r \<longrightarrow> graph_wf (ir_graph r)"
  shows "graph_wf (ir_graph r)"
proof (cases "co_frontend (pl_options plan)")
  case Ast_Json
  obtain options where "ix_configuration_id options \<noteq> []" "index_run options (mn_run mn) (pl_commands plan) = (Inr r, st)"
    by (rule frontend_success [OF assms(1) Ast_Json])
  from completed_run [OF this(1) assms(2) this(2)] show ?thesis by (auto simp: run_result_def Let_def)
next
  case Lib_Tooling
  with assms(1) have "mn_libtooling mn (index_options_of (pl_options plan) (pl_policies plan) (pl_selection plan))
      (pl_commands plan) = Inr r" by (simp add: run_frontend_def Let_def)
  then show ?thesis using assms(3) by blast
qed

lemma when_ok_Inr:
  "when_ok m f = (effects, Inr y) \<longleftrightarrow>
     (\<exists>first x more. m = (first, Inr x) \<and> f x = (more, Inr y) \<and> effects = first @ more)"
  by (cases m; cases "snd m") (auto simp: when_ok_def Let_def split: prod.splits)

lemma failure_status: "report_failure mn plan message d = (effects, Inr s) \<Longrightarrow> s \<in> {1, 128 + mn_signal mn}"
  by (auto simp: report_failure_def Let_def split: option.splits if_splits)

definition place :: "string option \<Rightarrow> string \<Rightarrow> effect" where
  "place destination body = (case destination of None \<Rightarrow> To_Stdout body | Some path \<Rightarrow> To_File path body)"

lemma written_report: "write_report mn destination body = (effects, Inr u) \<Longrightarrow> place destination body \<in> set effects"
  by (auto simp: write_report_def place_def split: option.splits if_splits)

definition run_metadata :: "analysis_plan \<Rightarrow> index_result \<Rightarrow> analysis_metadata" where
  "run_metadata plan r = metadata_of (pl_options plan) (pl_selection plan)
     \<lparr>rd_state = Run_Complete, rd_frontend = ir_frontend r, rd_discarded = False, rd_units = ir_unit_diagnostics r\<rparr>"

lemma success_results:
  assumes "report_success mn plan r = Some (effects, Inr status)"
  obtains result differential where "analyze_reachability (ir_graph r) = Some result"
    and "compare_baseline mn plan r result (build_report (ir_graph r) result) = Some (Inr differential)"
    and "status = exit_status (pl_options plan) (build_report (ir_graph r) result) differential"
    and "place (co_output (pl_options plan)) (report_document (pl_options plan) (ir_graph r) result
      (build_report (ir_graph r) result) (all_diagnostics (pl_selection plan) r) (run_metadata plan r) differential) \<in> set effects"
proof -
  from assms obtain result compared where result: "analyze_reachability (ir_graph r) = Some result"
    and compared: "compare_baseline mn plan r result (build_report (ir_graph r) result) = Some compared"
    and all: "when_ok (warning_effects r, compared) (write_results mn plan r result (build_report (ir_graph r) result)) = (effects, Inr status)"
    by (auto simp: report_success_def Let_def split: option.splits)
  from all obtain differential more where d: "compared = Inr differential"
    and more: "write_results mn plan r result (build_report (ir_graph r) result) differential = (more, Inr status)"
    and effects: "effects = warning_effects r @ more"
    by (auto simp: when_ok_Inr)
  have "status = exit_status (pl_options plan) (build_report (ir_graph r) result) differential"
    and "place (co_output (pl_options plan)) (report_document (pl_options plan) (ir_graph r) result
      (build_report (ir_graph r) result) (all_diagnostics (pl_selection plan) r) (run_metadata plan r) differential) \<in> set effects"
    using more by (auto simp: write_results_def Let_def when_ok_Inr effects run_metadata_def dest!: written_report)
  then show thesis using that result compared d by blast
qed

lemma exit_status_values: "exit_status c report differential \<in> {0, 2}"
  by (simp add: exit_status_def)

lemma analyze_outcome:
  assumes "visits_all (ho_methods (re_orders (mn_run mn)))"
    and "\<forall>options commands r. mn_libtooling mn options commands = Inr r \<longrightarrow> graph_wf (ir_graph r)"
  shows "\<exists>effects outcome st. analyze mn plan = (Some (effects, outcome), st) \<and>
    (\<forall>s. outcome = Inr s \<longrightarrow> s \<in> {0, 2, 1, 128 + mn_signal mn})"
proof (cases "mn_handlers mn")
  case True
  obtain x st where run: "run_frontend mn plan = (x, st)" by (cases "run_frontend mn plan")
  show ?thesis
  proof (cases x)
    case (Inl failure)
    show ?thesis
    proof (cases failure)
      case (Indexing_Error message d)
      obtain effects outcome where "report_failure mn plan message d = (effects, outcome)" by fastforce
      then show ?thesis using True run Inl Indexing_Error failure_status [of mn plan message d effects]
        by (auto simp: analyze_def)
    qed (use True run Inl in \<open>simp add: analyze_def\<close>)
  next
    case (Inr r)
    with run assms have "graph_wf (ir_graph r)" using run_frontend_graph by blast
    then obtain effects outcome where "report_success mn plan r = Some (effects, outcome)"
      using report_success_returns by fastforce
    then show ?thesis using True run Inr exit_status_values
      by (auto simp: analyze_def elim!: success_results)
  qed
qed (simp add: analyze_def)

section \<open>The theorems\<close>


definition dead_code :: "graph \<Rightarrow> bool" where
  "dead_code g \<longleftrightarrow> (\<exists>i. unreachable_definition g i \<and> \<not> is_suppressed g i)"

lemma findings_dead_code:
  assumes "graph_wf g" "analyze_reachability g = Some result"
  shows "ar_findings (build_report g result) \<noteq> [] \<longleftrightarrow> dead_code g"
  using report_findings_sets(1) [OF assms] by (auto simp: dead_code_def simp flip: set_empty)

definition matched :: "differential_report option \<Rightarrow> bool" where
  "matched differential \<longleftrightarrow> (\<exists>d. differential = Some d \<and> (\<exists>change \<in> set (dr_changes d). dc_policy_match change))"

lemma compared_matches:
  assumes "compare_baseline mn plan r result report = Some (Inr (Some d))" "graph_wf (ir_graph r)"
    and "analyze_reachability (ir_graph r) = Some result"
  shows "dr_policy_matches d \<noteq> 0 \<longleftrightarrow> (\<exists>change \<in> set (dr_changes d). dc_policy_match change)"
proof -
  obtain body baseline where baseline: "read_graph_artifact body = Inr baseline"
    and built: "build_differential_report baseline (ir_graph r) result report
      (artifact_metadata_of (pl_options plan) (pl_selection plan) r) (pl_differential plan) = Some (Inr d)"
    using assms(1) by (auto simp: compare_baseline_def rbind_eq_Inr split: option.splits sum.splits read_result.splits)
  have "graph_wf (ga_graph baseline)" using baseline accepted_document
    by (auto simp: read_graph_artifact_def storable_def split: sum.splits)
  from differential_changes_spec(3) [OF this assms(2,3) built] show ?thesis
    by (simp add: counters_agree_def filter_empty_conv)
qed

lemma analyzed_status:
  assumes "main_program api mn arguments = (Some (status, effects), st)" and "status = 0 \<or> status = 2" and "0 \<le> mn_signal mn"
    and "parse_cli (mn_files mn) arguments = Inr (Analyze c)"
    and "make_plan api (mn_files mn) (mn_directories mn) c = Some (Inr plan)"
  obtains r where "run_frontend mn plan = (Inr r, st)" "report_success mn plan r = Some (effects, Inr status)"
proof -
  obtain outcome where run: "analyze mn plan = (Some (effects, outcome), st)" and outcome: "outcome = Inr status"
  proof -
    obtain x where "analyze mn plan = (x, st)" "map_option answer x = Some (status, effects)"
      using assms(1,4,5) by (auto simp: main_program_def split: prod.splits)
    then obtain shown y where "x = Some (shown, y)" "answer (shown, y) = (status, effects)" by auto
    with \<open>analyze mn plan = (x, st)\<close> show thesis using that assms(2) by (cases y) (auto simp: answer_def)
  qed
  obtain x st' where front: "run_frontend mn plan = (x, st')" by (cases "run_frontend mn plan")
  show thesis
  proof (cases x)
    case (Inl failure)
    with run front outcome assms(2,3) show thesis
      by (cases failure) (auto simp: analyze_def dest!: failure_status split: if_splits)
  next
    case (Inr r)
    with run front outcome that show thesis by (auto simp: analyze_def split: if_splits)
  qed
qed

text \<open>
  C7: The exit status is the verdict. If an analysis with the AST frontend ends with 0 or 2, every
  command was indexed and its facts are in the graph; the report was delivered where it was asked
  for; and the status is 2 if and only if failing on dead code was asked for and some definition is
  unreachable and not suppressed, or failing on changes was asked for and the comparison with the
  baseline has a change that matches the policy.
\<close>
theorem exit_status_verdict:
  assumes "main_program api mn arguments = (Some (status, effects), st)" and "status = 0 \<or> status = 2"
    and "parse_cli (mn_files mn) arguments = Inr (Analyze c)" and "co_frontend c = Ast_Json"
    and "make_plan api (mn_files mn) (mn_directories mn) c = Some (Inr plan)"
    and "visits_all (ho_methods (re_orders (mn_run mn)))" and "0 \<le> mn_signal mn"
  shows "\<exists>options r commands fs result differential.
    index_run options (mn_run mn) (pl_commands plan) = (Inr r, st) \<and>
    normalize_commands (re_start (mn_run mn)) (pl_commands plan) = Inr commands \<and> length fs = length commands \<and>
    (\<forall>i < length commands. unit_gives options (commands ! i) (re_units (mn_run mn) i) (fs ! i)) \<and>
    run_result options commands fs r \<and> analyze_reachability (ir_graph r) = Some result \<and>
    compare_baseline mn plan r result (build_report (ir_graph r) result) = Some (Inr differential) \<and>
    place (co_output c) (report_document (pl_options plan) (ir_graph r) result (build_report (ir_graph r) result)
      (all_diagnostics (pl_selection plan) r) (run_metadata plan r) differential) \<in> set effects \<and>
    (status = 2 \<longleftrightarrow> co_fail_on_unreachable c \<and> dead_code (ir_graph r) \<or> co_fail_on_diff c \<and> matched differential)"
proof -
  note kept = planned_options [OF assms(5)]
  obtain r where front: "run_frontend mn plan = (Inr r, st)" and success: "report_success mn plan r = Some (effects, Inr status)"
    by (rule analyzed_status [OF assms(1,2,7,3,5)])
  obtain options where options: "ix_configuration_id options \<noteq> []"
      "index_run options (mn_run mn) (pl_commands plan) = (Inr r, st)"
    using frontend_success [OF front] kept assms(4) by metis
  from completed_run [OF options(1) assms(6) options(2)] obtain commands fs where
    complete: "normalize_commands (re_start (mn_run mn)) (pl_commands plan) = Inr commands \<and> length fs = length commands \<and>
      (\<forall>i < length commands. unit_gives options (commands ! i) (re_units (mn_run mn) i) (fs ! i)) \<and>
      run_result options commands fs r" by blast
  then have wf: "graph_wf (ir_graph r)" by (simp add: run_result_def Let_def)
  from success obtain result differential where result: "analyze_reachability (ir_graph r) = Some result"
    and compared: "compare_baseline mn plan r result (build_report (ir_graph r) result) = Some (Inr differential)"
    and status: "status = exit_status (pl_options plan) (build_report (ir_graph r) result) differential"
    and placed: "place (co_output (pl_options plan)) (report_document (pl_options plan) (ir_graph r) result
      (build_report (ir_graph r) result) (all_diagnostics (pl_selection plan) r) (run_metadata plan r) differential) \<in> set effects"
    by (rule success_results)
  have "status = 2 \<longleftrightarrow> co_fail_on_unreachable c \<and> dead_code (ir_graph r) \<or> co_fail_on_diff c \<and> matched differential"
    using findings_dead_code [OF wf result] compared_matches [OF _ wf result] compared
    by (cases differential) (auto simp: status exit_status_def kept matched_def)
  then show ?thesis using options(2) complete result compared placed kept(2) by metis
qed

text \<open>What is published when the AST frontend fails: the document, where it was asked for.\<close>

lemma failed_json_run:
  assumes "run_frontend mn plan = (Inl (Indexing_Error message d), st)" and "mn_handlers mn"
    and "co_format (pl_options plan) = ''json''" and "\<forall>path. co_output (pl_options plan) = Some path \<longrightarrow> mn_opens mn path"
  shows "\<exists>effects m. analyze mn plan = (Some (effects, Inr (if mn_signal mn \<noteq> 0 then 128 + mn_signal mn else 1)), st) \<and>
    place (co_output (pl_options plan)) (write_json_run_diagnostic message d m) \<in> set effects"
  using assms by (auto simp: analyze_def report_failure_def Let_def place_def split: option.splits)


section \<open>The program on a small project\<close>

definition main_entry :: json where
  "main_entry = JObject
     [(''arguments'', JArray [JString ''clang++'', JString ''-O2'', JString ''a.cpp'']),
      (''directory'', JString ''/s''), (''file'', JString ''/s/a.cpp'')]"

definition main_files :: "nat \<Rightarrow> filesystem" where
  "main_files n = cache_files\<lparr>fs_cwd := ''/s'', fs_read := (\<lambda>p.
     if p = ''/s/compile_commands.json'' then Contents (render (JArray (replicate n main_entry))) else Cannot_Open)\<rparr>"

definition main_world :: "nat \<Rightarrow> int \<Rightarrow> main_events" where
  "main_world n signal =
     \<lparr>mn_files = main_files n, mn_directories = (\<lambda>_. None), mn_handlers = True, mn_run = sample_run_events 1,
      mn_libtooling = libtooling_stub, mn_signal = signal, mn_later = main_files n, mn_opens = (\<lambda>_. True),
      mn_writes = (\<lambda>_. True),
      mn_costs = \<lparr>cs_traversal = 0, cs_components = 0, cs_reporting = 0, cs_wall = 0, cs_memory = 0\<rparr>\<rparr>"

definition main_arguments :: "string list" where
  "main_arguments = [''--configuration-id'', ''debug'', ''--no-cache'', ''--fail-on-unreachable'', ''--format'', ''json'']"

definition main_options :: cli_options where
  "main_options = (default_cli_options (main_files 0))
     \<lparr>co_compilation_database := ''/s/compile_commands.json'', co_configuration_id := ''debug'',
      co_configuration_id_explicit := True, co_no_cache := True, co_fail_on_unreachable := True, co_format := ''json''\<rparr>"

definition main_plan :: "nat \<Rightarrow> analysis_plan" where
  "main_plan n = \<lparr>pl_options = main_options, pl_policies = [], pl_differential = None, pl_selection = None,
     pl_commands = replicate n run_given\<rparr>"

lemma main_parsed: "parse_cli (main_files n) main_arguments = Inr (Analyze main_options)"
  by code_simp

lemma main_database: "load_compilation_database (main_files n) ''/s/compile_commands.json'' = Inr (replicate n run_given)"
proof -
  have "renderable (JArray (replicate n main_entry))" by (induction n) (simp_all add: main_entry_def)
  then have "parse (render (JArray (replicate n main_entry))) = Inr (JArray (replicate n main_entry))"
    using parse_spelled [OF spells_renderable, of _ "[]" "[]"] by (fastforce simp: blank_def simp del: render.simps renderable.simps)
  moreover have entry: "load_entry (main_files n) d main_entry = Inr run_given" for d
    by (simp add: main_entry_def run_given_def load_entry_def main_files_def cache_files_def Let_def
        string_or_def entry_arguments_def argument_string_def is_absolute_def)
  moreover have "map_result (load_entry (main_files n) d) (replicate k main_entry) = Inr (replicate k run_given)" for d k
    by (induction k) (simp_all add: entry)
  moreover have "fs_read (main_files n) ''/s/compile_commands.json'' = Contents (render (JArray (replicate n main_entry)))"
    by (simp add: main_files_def)
  ultimately show ?thesis by (simp add: load_compilation_database_def del: render.simps)
qed

lemma main_planned: "make_plan api (main_files n) dirs main_options = Some (Inr (main_plan n))"
  by (simp add: make_plan_def main_database main_plan_def main_options_def default_cli_options_def load_policies_def
      choose_commands_def load_model_def settle_plan_def keep_below_def canonicalize_callback_registration_rules_def
      Let_def)


lemma main_prepared: "make_indexer (main_files n) (index_options_of main_options [] None) = Inr run_options"
  by code_simp

lemma main_option_fields:
  "co_frontend main_options = Ast_Json" "co_format main_options = ''json''" "co_output main_options = None"
  "co_graph_output main_options = None" "co_baseline_graph main_options = None" "co_verbose main_options = False"
  "co_fail_on_unreachable main_options" "\<not> co_fail_on_diff main_options"
  by (simp_all add: main_options_def default_cli_options_def)

lemma main_world_fields:
  "mn_files (main_world n signal) = main_files n" "mn_handlers (main_world n signal)"
  "mn_run (main_world n signal) = sample_run_events 1" "mn_libtooling (main_world n signal) = libtooling_stub"
  "mn_signal (main_world n signal) = signal" "mn_opens (main_world n signal) path" "mn_writes (main_world n signal) destination"
  by (simp_all add: main_world_def)

lemma main_plan_fields:
  "pl_options (main_plan n) = main_options" "pl_policies (main_plan n) = []" "pl_selection (main_plan n) = None"
  "pl_commands (main_plan n) = replicate n run_given"
  by (simp_all add: main_plan_def)

lemmas main_fields = main_option_fields main_world_fields main_plan_fields

lemma main_frontend: "run_frontend (main_world n signal) (main_plan n) =
    index_run run_options (sample_run_events 1) (replicate n run_given)"
  by (simp add: run_frontend_def main_fields main_prepared Let_def)

lemma stub_delivers_nothing: "\<forall>options commands r. libtooling_stub options commands = Inr r \<longrightarrow> graph_wf (ir_graph r)"
  by (simp add: libtooling_stub_def)


lemma main_analyzed:
  assumes "analyze (main_world n signal) (main_plan n) = (Some (effects, Inr status), st)"
  shows "main_program api (main_world n signal) main_arguments = (Some (status, effects), st)"
  using assms by (simp add: main_program_def main_fields main_parsed main_planned answer_def)

lemma exit_status_verdict_witness:
  "\<exists>status effects options r st. main_program policy_api (main_world 1 0) main_arguments = (Some (status, effects), st) \<and>
     index_run options (sample_run_events 1) [run_given] = (Inr r, st) \<and> (status = 2 \<longleftrightarrow> dead_code (ir_graph r))"
proof -
  obtain r st where run: "index_run run_options (sample_run_events 1) [run_given] = (Inr r, st)"
    using sample_run by blast
  have "graph_wf (ir_graph r)" using completed_run [OF run_conditions(1,2) run] by (auto simp: run_result_def Let_def)
  then obtain result where "analyze_reachability (ir_graph r) = Some result" using analyzed_total by blast
  then have "\<exists>effects status. report_success (main_world 1 0) (main_plan 1) r = Some (effects, Inr status) \<and> (status = 0 \<or> status = 2)"
    by (auto simp: report_success_def compare_baseline_def write_results_def write_artifact_def write_report_def main_fields
        when_ok_def exit_status_def Let_def)
  then obtain effects status where "report_success (main_world 1 0) (main_plan 1) r = Some (effects, Inr status)"
    and status: "status = 0 \<or> status = 2" by blast
  then have "analyze (main_world 1 0) (main_plan 1) = (Some (effects, Inr status), st)"
    using run by (simp add: analyze_def main_frontend main_fields)
  note ended = main_analyzed [OF this, of policy_api]
  from exit_status_verdict [OF ended status _ main_option_fields(1), of "main_plan 1"] ended run_conditions(2) show ?thesis
    by (fastforce simp: main_fields main_parsed main_planned)
qed


end
