(* ===== verification/Spec2Isabelle.thy ===== *)
theory Spec2Isabelle
  imports Graph_Canonical Symbol_Keys Weak_Components Json_Facts Compile_Facts Provider_Facts
    Report_Facts Artifact_Facts Differential_Text_Facts Build_Facts Cache_Publish Ast_Unit Index_Outcome
    Process_Facts Main_Facts
begin

text \<open>
  A verification development for \<open>cxx-dead\<close>, a program that reads the compilation database of a
  C++ project, lets a frontend extract a graph of symbols from every translation unit, merges
  these graphs, computes what no root can reach, and reports it.

  How the parts interact. \<open>compile_database\<close> delivers commands, \<open>build_model\<close> narrows them to the
  sources of a target. A frontend turns each command into a \<open>Graph\<close>; the \<open>cache\<close> stores that graph
  under a key of everything it depends on. \<open>merge_graph\<close> joins the graphs of all units,
  \<open>provider\<close> policies add edges, roots, escapes and suppressions, and \<open>Graph::canonicalize\<close> fixes
  the order. \<open>analyze_reachability\<close> and \<open>build_report\<close> work on the canonical graph; \<open>artifact\<close>
  stores it and reads it back as the baseline of a \<open>differential\<close> report.

  Theories and code, in the order of the imports:

  \<^item> \<open>Prelude\<close>, \<open>Containers\<close>, \<open>Paths\<close>: exceptions as a sum type (\<open>result\<close>, \<open>rbind\<close>,
    \<open>fold_result\<close>), decimal printing, the containers and the lexical operations of
    \<open>std::filesystem::path\<close> as the program uses them. Contents of files, sizes and the current
    directory are the record \<open>filesystem\<close>, an argument of every operation that looks at them.
  \<^item> \<open>Graph_Model\<close> (\<open>graph.h\<close>, the data and the operations of \<open>graph.cpp\<close>), \<open>Graph_Invariants\<close>
    (\<open>graph_wf\<close> and its preservation), \<open>Graph_Merge\<close>, \<open>Graph_Facts\<close> (what a graph states, up to
    the numbering of its symbols), \<open>Graph_Canonical\<close>, \<open>Symbol_Keys\<close>.
  \<^item> \<open>Reachability\<close>, \<open>Tarjan\<close>, \<open>Condensation\<close>, \<open>Weak_Components\<close>, \<open>Live_Keys\<close>:
    \<open>analyze_reachability\<close>. Tarjan's search is a recursion with fuel; the fuel is the number of
    symbols and is proved to suffice.
  \<^item> \<open>Json\<close>, \<open>Json_Facts\<close>, \<open>Json_Readable\<close>, \<open>Json_Text\<close>: \<open>json.cpp\<close> and the layouts of the
    JSON writers. Numbers are rationals rounded to nearest even as \<open>std::from_chars\<close> does.
  \<^item> \<open>Compile_Database\<close>, \<open>Compile_Facts\<close>: \<open>compile_database.cpp\<close>. Response files are expanded
    with fuel for the nesting depth that the code itself enforces.
  \<^item> \<open>Provider\<close>, \<open>Provider_Facts\<close>: \<open>provider.cpp\<close> over a tree of YAML nodes, which stands for
    the library that parses it.
  \<^item> \<open>Report\<close>, \<open>Report_Facts\<close>, \<open>Report_Text\<close>, \<open>Report_Text_Facts\<close>: \<open>report.cpp\<close>: \<open>build_report\<close>, and the
    human and JSON texts of a report and of the diagnostics of a failed run.
  \<^item> \<open>Artifact\<close>, \<open>Artifact_Facts\<close>, \<open>Artifact_Accepted\<close>: writer and reader of \<open>artifact.cpp\<close>.
  \<^item> \<open>Differential\<close>, \<open>Differential_Facts\<close>, \<open>Differential_Text\<close>, \<open>Differential_Text_Facts\<close>:
    \<open>differential.cpp\<close> and its three output formats.
  \<^item> \<open>Build_Model\<close>, \<open>Build_Facts\<close>: \<open>build_model.cpp\<close>. The closure over dependencies is a
    recursion with fuel; the number of targets of a configuration suffices, cycles included.
  \<^item> \<open>Sha256\<close>, \<open>Sha256_Facts\<close>, \<open>Cache_Entry\<close>, \<open>Cache_Entry_Facts\<close>, \<open>Cache\<close>, \<open>Cache_Facts\<close>,
    \<open>Cache_Publish\<close>: \<open>cache.cpp\<close>. Extraction from a stream is a function from the rest of the
    input to a value and the new rest. Processes that fill one directory are the steps of a
    relation; a process may be killed between any two calls.
  \<^item> \<open>Ast_Values\<close>, \<open>Ast_Collect\<close>, \<open>Ast_Facts\<close>, \<open>Ast_Walk\<close>, \<open>Ast_Declared\<close>, \<open>Ast_Unit\<close>: the first half of
    \<open>indexer.cpp\<close>, which reads the JSON syntax tree of a translation unit: locations, the three
    walks \<open>collect_contexts\<close>, \<open>collect_declarations\<close> and \<open>collect_uses\<close>, callable bindings and
    callback rules. A source file that cannot be read counts as empty.
  \<^item> \<open>Index_Documents\<close>, \<open>Index_Dispatch\<close>, \<open>Index_Run\<close>, \<open>Index_Run_Facts\<close>, \<open>Index_Complete\<close>,
    \<open>Index_Outcome\<close>: its second half: the documents in the output of Clang, virtual dispatch, and
    \<open>ClangAstIndexer\<close> with cache, limits, cancellation and diagnostics. What the clocks, the
    cancellation function, the file system and Clang answer at each moment are the records
    \<open>unit_events\<close> and \<open>run_events\<close>; the order in which a hash map is traversed is \<open>hash_orders\<close>.
    \<open>RemovePath\<close>, which deletes the temporary dependency file, has no counterpart. The sizes in
    \<open>graph_fact_bytes\<close> are those of a 64-bit machine.
  \<^item> \<open>Process\<close>, \<open>Process_Run\<close>, \<open>Process_Facts\<close>: \<open>process.h\<close> and \<open>process.cpp\<close>. The loop that supervises a
    child is a step on the record \<open>supervision\<close> over the answers of the operating system, one
    \<open>loop_event\<close> for each iteration; it may run forever, so its result is an option.
  \<^item> \<open>Command_Line\<close>, \<open>Command_Line_Facts\<close>, \<open>Main_Program\<close>, \<open>Main_Facts\<close>: \<open>main.cpp\<close>: the options, and the
    program from the arguments to the exit status and the texts it prints and writes, in their
    order, errors included (\<open>main_result\<close>). What it meets is the record \<open>main_events\<close>.
    \<open>libtooling_stub\<close> is the frontend of a build without the Clang libraries.
  \<^item> \<open>Samples\<close>: the small graphs and files on which the witnesses are evaluated.

  What the lemmas show. The graph lemmas say that every operation keeps the representation
  invariant, that merging is the union of facts, and that the canonical form depends on the
  content alone. Reachability is exact against paths, components against mutual reachability,
  and the report accounts for every unreachable definition once. Texts are related to values by
  round trips: parser and writer for JSON, artifacts, cache entries, shell words, dependency
  files and keys. Loading operations are shown to accept only well-formed data. Cached facts are
  used only while every recorded file is unchanged, no interleaving of writers shows an
  incomplete entry, and the directory behaves as a map. The walks record every declaration
  and every use of a function, for every JSON value they are given. A run either uses the facts
  of every command or fails with a list of what became of each and publishes nothing; entries of
  the cache change neither its graph nor its diagnostics. A supervised child is stopped at its
  limits and reported as it ended. The whole program returns, its exit status is the verdict on
  the graph of all commands, and a failed run is reported as such.

  Conventions. \<open>std::size_t\<close> counters, line numbers and ids are natural numbers; widths are kept
  where overflow matters (SHA-256, the numbers in cache entries and compilation databases,
  code points). \<open>std::unordered_map\<close> is a map, and an order of iteration is fixed only where the
  code sorts afterwards. \<open>std::ranges::sort\<close> is a stable sort; results are stated up to ties, or
  keys are distinct. Arguments of a call are evaluated from left to right. A path is the string
  with which it was built, and \<open>generic_string\<close> is the identity, as on POSIX systems.

  Not modelled. The bindings to the Clang libraries in \<open>libtooling_indexer.cpp\<close> call a library
  that is not part of the repository; this frontend is an argument of the program. What a child
  does between \<open>fork\<close> and \<open>exec\<close>, the signal handlers and \<open>getrusage\<close> are left out, as are the second
  closing of descriptors and the sums of elapsed times, which do not overflow here. Failures of the
  operating system other than those named as arguments, memory exhaustion, and the precision of
  clocks are left out. SHA-256 is modelled bit by bit; that different inputs have different
  digests is nowhere assumed.
\<close>

end
